(* ===== verification/Tensors.thy ===== *)
theory Tensors
  imports Prelude
begin

text \<open>
  Batches. A tensor (or numpy array) of a batch is its trailing shape and its rows, each the
  flat cells of one batch element; the operations are the torch and numpy operations that the
  modelled code applies to batches: row selection, concatenation along the first two axes,
  slicing along the second, and the flattening of utils/data.py. A batch (\<open>DataProto\<close>) holds
  float tensors, arrays of arbitrary cells and a dictionary of metadata.
\<close>

named_theorems tensor_simps \<open>rows and shapes of tensor operations\<close>

section \<open>Tensors\<close>

record 'a tensor =
  tn_trail :: "nat list"
  tn_rows :: "'a list list"

definition tn_shape :: "'a tensor \<Rightarrow> nat list" where
  "tn_shape t = length (tn_rows t) # tn_trail t"

definition tn_ok :: "'a tensor \<Rightarrow> bool" where
  "tn_ok t \<longleftrightarrow> (\<forall>r \<in> set (tn_rows t). length r = prod_list (tn_trail t))"

text \<open>\<open>chunks k n xs\<close>: the first n consecutive blocks of k cells.\<close>

definition chunks :: "nat \<Rightarrow> nat \<Rightarrow> 'a list \<Rightarrow> 'a list list" where
  "chunks k n xs = map (\<lambda>i. take k (drop (i * k) xs)) [0..<n]"

definition tn_select :: "nat list \<Rightarrow> 'a tensor \<Rightarrow> 'a tensor" where
  "tn_select idx t = t\<lparr>tn_rows := map (\<lambda>i. tn_rows t ! i) idx\<rparr>"

definition tn_cat0 :: "'a tensor \<Rightarrow> 'a tensor \<Rightarrow> 'a tensor" where
  "tn_cat0 a b = a\<lparr>tn_rows := tn_rows a @ tn_rows b\<rparr>"

text \<open>Concatenation along the second axis: the trailing shapes differ in their first entry.\<close>

definition tn_cat1 :: "'a tensor \<Rightarrow> 'a tensor \<Rightarrow> 'a tensor" where
  "tn_cat1 a b =
     \<lparr>tn_trail = (hd (tn_trail a) + hd (tn_trail b)) # tl (tn_trail a),
      tn_rows = map2 (@) (tn_rows a) (tn_rows b)\<rparr>"

text \<open>\<open>value[:, j]\<close>\<close>

definition tn_step :: "nat \<Rightarrow> 'a tensor \<Rightarrow> 'a tensor" where
  "tn_step j t =
     (let k = prod_list (tl (tn_trail t)) in
      \<lparr>tn_trail = tl (tn_trail t), tn_rows = map (\<lambda>r. take k (drop (j * k) r)) (tn_rows t)\<rparr>)"

text \<open>\<open>terminal.unsqueeze(1).expand(B, n, ...)\<close>: n copies of each row along a new second axis.\<close>

definition tn_repeat1 :: "nat \<Rightarrow> 'a tensor \<Rightarrow> 'a tensor" where
  "tn_repeat1 n t =
     \<lparr>tn_trail = n # tn_trail t, tn_rows = map (\<lambda>r. concat (replicate n r)) (tn_rows t)\<rparr>"

definition tn_zeros :: "'a \<Rightarrow> nat \<Rightarrow> nat list \<Rightarrow> 'a tensor" where
  "tn_zeros z b tr = \<lparr>tn_trail = tr, tn_rows = replicate b (replicate (prod_list tr) z)\<rparr>"

section \<open>Flattening trajectories (utils/data.py)\<close>

definition is_trajectory_field :: "nat \<Rightarrow> nat \<Rightarrow> 'a tensor \<Rightarrow> bool" where
  "is_trajectory_field b s t \<longleftrightarrow> length (tn_rows t) = b \<and> (case tn_trail t of [] \<Rightarrow> False | k # _ \<Rightarrow> k = s)"

definition flatten_field :: "nat \<Rightarrow> 'a tensor \<Rightarrow> 'a tensor" where
  "flatten_field s t =
     \<lparr>tn_trail = tl (tn_trail t),
      tn_rows = concat (map (chunks (prod_list (tl (tn_trail t))) s) (tn_rows t))\<rparr>"

text \<open>
  A tensor without the two leading axes is repeated cell by cell (\<open>repeat_interleave\<close> without
  an axis flattens), an array row by row (\<open>np.repeat\<close> along axis 0).
\<close>

definition flatten_tensor :: "nat \<Rightarrow> nat \<Rightarrow> 'a tensor \<Rightarrow> 'a tensor" where
  "flatten_tensor b s t =
     (if is_trajectory_field b s t then flatten_field s t
      else \<lparr>tn_trail = [], tn_rows = concat (map (\<lambda>c. replicate s [c]) (concat (tn_rows t)))\<rparr>)"

definition flatten_array :: "nat \<Rightarrow> nat \<Rightarrow> 'a tensor \<Rightarrow> 'a tensor" where
  "flatten_array b s t =
     (if is_trajectory_field b s t then flatten_field s t
      else t\<lparr>tn_rows := concat (map (replicate s) (tn_rows t))\<rparr>)"

record 'n data_proto =
  dp_tensors :: "(string \<times> pyfloat tensor) list"
  dp_arrays :: "(string \<times> 'n tensor) list"
  dp_meta :: dict

definition dp_get :: "string \<Rightarrow> 'n data_proto \<Rightarrow> pyfloat tensor result" where
  "dp_get k d = (case map_of (dp_tensors d) k of None \<Rightarrow> Inl KeyError | Some t \<Rightarrow> Inr t)"

definition map_fields ::
  "(pyfloat tensor \<Rightarrow> pyfloat tensor) \<Rightarrow> ('n tensor \<Rightarrow> 'n tensor) \<Rightarrow> 'n data_proto \<Rightarrow> 'n data_proto" where
  "map_fields f g d =
     d\<lparr>dp_tensors := map (\<lambda>(k, t). (k, f t)) (dp_tensors d),
       dp_arrays := map (\<lambda>(k, t). (k, g t)) (dp_arrays d)\<rparr>"

definition flatten_trajectories :: "string \<Rightarrow> 'n data_proto \<Rightarrow> 'n data_proto result" where
  "flatten_trajectories reference_key d =
     bind_res (dp_get reference_key d) (\<lambda>ref.
       case tn_trail ref of
         [] \<Rightarrow> Inl ValueError
       | s # _ \<Rightarrow>
           let b = length (tn_rows ref)
           in Inr (map_fields (flatten_tensor b s) (flatten_array b s) d))"

section \<open>Rows of batches\<close>

text \<open>\<open>len\<close>, \<open>select_idxs\<close> and \<open>concat\<close> of a batch: by rows, every field alike.\<close>

definition dp_len :: "'n data_proto \<Rightarrow> nat" where
  "dp_len d =
     (case dp_tensors d of
        (_, t) # _ \<Rightarrow> length (tn_rows t)
      | [] \<Rightarrow> (case dp_arrays d of (_, t) # _ \<Rightarrow> length (tn_rows t) | [] \<Rightarrow> 0))"

definition dp_select :: "nat list \<Rightarrow> 'n data_proto \<Rightarrow> 'n data_proto" where
  "dp_select idx = map_fields (tn_select idx) (tn_select idx)"

definition cat_field :: "(string \<times> 'a tensor) list \<Rightarrow> string \<times> 'a tensor \<Rightarrow> string \<times> 'a tensor" where
  "cat_field others kt =
     (case map_of others (fst kt) of None \<Rightarrow> kt | Some u \<Rightarrow> (fst kt, tn_cat0 (snd kt) u))"

definition dp_append :: "'n data_proto \<Rightarrow> 'n data_proto \<Rightarrow> 'n data_proto" where
  "dp_append a b =
     a\<lparr>dp_tensors := map (cat_field (dp_tensors b)) (dp_tensors a),
       dp_arrays := map (cat_field (dp_arrays b)) (dp_arrays a)\<rparr>"

fun dp_concat :: "'n data_proto \<Rightarrow> 'n data_proto list \<Rightarrow> 'n data_proto" where
  "dp_concat d ds = foldl dp_append d ds"

section \<open>Lemmas\<close>

lemma tn_select_rows [tensor_simps, simp]:
  "tn_rows (tn_select idx t) = map (\<lambda>i. tn_rows t ! i) idx" "tn_trail (tn_select idx t) = tn_trail t"
  by (simp_all add: tn_select_def)

lemma tn_cat0_rows [tensor_simps, simp]:
  "tn_rows (tn_cat0 a b) = tn_rows a @ tn_rows b" "tn_trail (tn_cat0 a b) = tn_trail a"
  by (simp_all add: tn_cat0_def)

lemma length_chunks [simp]: "length (chunks k n xs) = n"
  by (simp add: chunks_def)

lemma chunk_length: "r \<in> set (chunks k n xs) \<Longrightarrow> length xs = n * k \<Longrightarrow> length r = k"
proof -
  assume "r \<in> set (chunks k n xs)" and len: "length xs = n * k"
  then obtain i where i: "i < n" "r = take k (drop (i * k) xs)" by (auto simp: chunks_def)
  then have "Suc i * k \<le> n * k" by (intro mult_le_mono1) simp
  with i len show ?thesis by simp
qed

lemma concat_chunks: "length xs = n * k \<Longrightarrow> concat (chunks k n xs) = xs"
proof (induction n arbitrary: xs)
  case 0
  then show ?case by (simp add: chunks_def)
next
  case (Suc n)
  have "chunks k (Suc n) xs = take k xs # map (\<lambda>i. take k (drop (Suc i * k) xs)) [0..<n]"
    unfolding chunks_def by (subst upt_conv_Cons) (simp_all add: map_Suc_upt [symmetric] del: upt_Suc)
  also have "map (\<lambda>i. take k (drop (Suc i * k) xs)) [0..<n] = chunks k n (drop k xs)"
    by (simp add: chunks_def add.commute)
  finally have "concat (chunks k (Suc n) xs) = take k xs @ concat (chunks k n (drop k xs))" by simp
  also have "concat (chunks k n (drop k xs)) = drop k xs" using Suc.prems by (intro Suc.IH) simp
  finally show ?case by simp
qed

lemma chunks_nth: "i < n \<Longrightarrow> chunks k n xs ! i = take k (drop (i * k) xs)"
  by (simp add: chunks_def)

lemma row_chunks_concat: "\<forall>xs \<in> set xss. length xs = k \<Longrightarrow> chunks k (length xss) (concat xss) = xss"
proof (rule nth_equalityI)
  fix i
  assume k: "\<forall>xs \<in> set xss. length xs = k" and i: "i < length (chunks k (length xss) (concat xss))"
  have "take k (drop (i * k) (concat xss)) = xss ! i" if "i < length xss" "\<forall>xs \<in> set xss. length xs = k" for xss
    using that
  proof (induction xss arbitrary: i)
    case (Cons xs xss)
    then show ?case by (cases i) (simp_all add: add.commute)
  qed simp
  with k i show "chunks k (length xss) (concat xss) ! i = xss ! i" by (simp add: chunks_nth)
qed simp

lemma length_concat_uniform: "\<forall>r \<in> set xss. length r = n \<Longrightarrow> length (concat xss) = length xss * n"
  by (induction xss) auto

lemma concat_uniform_nth:
  "\<forall>r \<in> set xss. length r = n \<Longrightarrow> b < length xss \<Longrightarrow> s < n \<Longrightarrow> concat xss ! (b * n + s) = xss ! b ! s"
proof (induction xss arbitrary: b)
  case (Cons r xss)
  then show ?case by (cases b) (auto simp: nth_append)
qed simp

lemma map_of_map_fields [simp]:
  "map_of (dp_tensors (map_fields f g d)) k = map_option f (map_of (dp_tensors d) k)"
  "map_of (dp_arrays (map_fields f g d)) k = map_option g (map_of (dp_arrays d) k)"
  "dp_meta (map_fields f g d) = dp_meta d"
  by (simp_all add: map_fields_def map_of_map)

lemma map_of_dp_append:
  "map_of (dp_tensors (dp_append a b)) k =
     map_option (\<lambda>t. case map_of (dp_tensors b) k of None \<Rightarrow> t | Some u \<Rightarrow> tn_cat0 t u)
       (map_of (dp_tensors a) k)"
proof -
  have "map_of (map (cat_field o1) xs) k =
      map_option (\<lambda>t. case map_of o1 k of None \<Rightarrow> t | Some u \<Rightarrow> tn_cat0 t u) (map_of xs k)" for xs o1
    by (induction xs) (auto simp: cat_field_def split: option.splits)
  then show ?thesis by (simp add: dp_append_def)
qed

end
