(* ===== verification/Float_Ops.thy ===== *)
theory Float_Ops
  imports Tensors
begin

text \<open>
  Float arithmetic on the values of the prelude (exact on finite values, IEEE on the special
  ones) as the advantage and transition code uses it, and tensors seen as nested lists: a
  tensor of shape [B, S] as rows of cells, one of shape [B, S, K] as rows of policy chunks.
\<close>

named_theorems pf_simps \<open>float operations on finite values\<close>

section \<open>Arithmetic\<close>

fun pf_neg :: "pyfloat \<Rightarrow> pyfloat" where
  "pf_neg (Fin a) = Fin (- a)"
| "pf_neg PosInf = NegInf"
| "pf_neg NegInf = PosInf"
| "pf_neg NaN = NaN"

definition pf_sub :: "pyfloat \<Rightarrow> pyfloat \<Rightarrow> pyfloat" where
  "pf_sub a b = pf_add a (pf_neg b)"

definition pf_signed :: "rat \<Rightarrow> pyfloat \<Rightarrow> pyfloat" where
  "pf_signed s x = (if s = 0 then NaN else if 0 < s then x else pf_neg x)"

fun pf_mul :: "pyfloat \<Rightarrow> pyfloat \<Rightarrow> pyfloat" where
  "pf_mul (Fin a) (Fin b) = Fin (a * b)"
| "pf_mul NaN _ = NaN"
| "pf_mul _ NaN = NaN"
| "pf_mul (Fin a) y = pf_signed a y"
| "pf_mul x (Fin b) = pf_signed b x"
| "pf_mul x y = (if x = y then PosInf else NegInf)"

text \<open>Division by zero is an infinity or NaN, as in torch, not an exception.\<close>

fun pf_div :: "pyfloat \<Rightarrow> pyfloat \<Rightarrow> pyfloat" where
  "pf_div (Fin a) (Fin b) =
     (if b \<noteq> 0 then Fin (a / b) else if a = 0 then NaN else if 0 < a then PosInf else NegInf)"
| "pf_div NaN _ = NaN"
| "pf_div _ NaN = NaN"
| "pf_div (Fin a) _ = Fin 0"
| "pf_div x (Fin b) = (if b < 0 then pf_neg x else x)"
| "pf_div _ _ = NaN"

definition pf_le :: "pyfloat \<Rightarrow> pyfloat \<Rightarrow> bool" where
  "pf_le a b \<longleftrightarrow> pf_less a b \<or> (a = b \<and> a \<noteq> NaN)"

text \<open>\<open>torch.isclose\<close>: \<open>|a - b| <= atol + rtol * |b|\<close>, equal infinities are close.\<close>

fun pf_isclose :: "rat \<Rightarrow> rat \<Rightarrow> pyfloat \<Rightarrow> pyfloat \<Rightarrow> bool" where
  "pf_isclose atol rtol (Fin a) (Fin b) \<longleftrightarrow> \<bar>a - b\<bar> \<le> atol + rtol * \<bar>b\<bar>"
| "pf_isclose atol rtol a b \<longleftrightarrow> a = b \<and> a \<noteq> NaN"

definition pf_allclose :: "rat \<Rightarrow> rat \<Rightarrow> pyfloat list \<Rightarrow> pyfloat list \<Rightarrow> bool" where
  "pf_allclose atol rtol xs ys \<longleftrightarrow> list_all2 (pf_isclose atol rtol) xs ys"

definition pf_mean :: "pyfloat list \<Rightarrow> pyfloat" where
  "pf_mean xs = pf_div (pf_sum xs) (Fin (of_nat (length xs)))"

definition pf_of_bool :: "bool \<Rightarrow> pyfloat" where
  "pf_of_bool b = Fin (if b then 1 else 0)"

definition b2r :: "bool \<Rightarrow> rat" where
  "b2r b = (if b then 1 else 0)"

lemma pf_ops_Fin [pf_simps, simp]:
  "pf_sub (Fin a) (Fin b) = Fin (a - b)"
  "pf_le (Fin a) (Fin b) \<longleftrightarrow> a \<le> b"
  "pf_bool (pf_of_bool v) = v"
  "pf_isfinite (pf_of_bool v)"
  "pf_of_bool v = Fin (b2r v)"
  by (auto simp: pf_sub_def pf_le_def pf_of_bool_def pf_bool_def b2r_def)

lemma b2r_simps [simp]: "b2r True = 1" "b2r False = 0" "b2r v \<le> 1" "0 \<le> b2r v" "b2r v = 0 \<longleftrightarrow> \<not> v"
  "0 < b2r v \<longleftrightarrow> v"
  by (auto simp: b2r_def)

lemma pf_foldl_Fin: "foldl pf_add (Fin a) (map Fin xs) = Fin (a + sum_list xs)"
  by (induction xs arbitrary: a) (auto simp: add.assoc)

lemma pf_sum_Fin [pf_simps, simp]: "pf_sum (map Fin xs) = Fin (sum_list xs)"
  by (simp add: pf_sum_def pf_foldl_Fin)

lemma pf_mean_Fin [pf_simps]: "xs \<noteq> [] \<Longrightarrow> pf_mean (map Fin xs) = Fin (sum_list xs / of_nat (length xs))"
  by (simp add: pf_mean_def)

lemma map_Fin_val: "list_all pf_isfinite xs \<Longrightarrow> map (Fin \<circ> pf_val) xs = xs"
proof (induction xs)
  case (Cons x xs)
  then show ?case by (cases x) auto
qed simp

lemma pf_isclose_refl [simp]: "0 \<le> atol \<Longrightarrow> 0 \<le> rtol \<Longrightarrow> pf_isclose atol rtol (Fin a) (Fin a)"
  by simp

lemma pf_allclose_refl:
  "list_all pf_isfinite xs \<Longrightarrow> 0 \<le> atol \<Longrightarrow> 0 \<le> rtol \<Longrightarrow> pf_allclose atol rtol xs xs"
proof (induction xs)
  case (Cons x xs)
  then show ?case by (cases x) (auto simp: pf_allclose_def)
qed (simp add: pf_allclose_def)

section \<open>Tensors as nested lists\<close>

definition grid2 :: "'a tensor \<Rightarrow> 'a list list result" where
  "grid2 t = (case tn_trail t of [_] \<Rightarrow> Inr (tn_rows t) | _ \<Rightarrow> Inl IndexError)"

definition grid3 :: "'a tensor \<Rightarrow> 'a list list list result" where
  "grid3 t = (case tn_trail t of [s, k] \<Rightarrow> Inr (map (chunks k s) (tn_rows t)) | _ \<Rightarrow> Inl IndexError)"

definition of_grid1 :: "'a list \<Rightarrow> 'a tensor" where
  "of_grid1 xs = \<lparr>tn_trail = [], tn_rows = map (\<lambda>x. [x]) xs\<rparr>"

definition of_grid2 :: "nat \<Rightarrow> 'a list list \<Rightarrow> 'a tensor" where
  "of_grid2 s g = \<lparr>tn_trail = [s], tn_rows = g\<rparr>"

definition of_grid3 :: "nat \<Rightarrow> nat \<Rightarrow> 'a list list list \<Rightarrow> 'a tensor" where
  "of_grid3 s k g = \<lparr>tn_trail = [s, k], tn_rows = map concat g\<rparr>"

definition dp_put :: "string \<Rightarrow> pyfloat tensor \<Rightarrow> 'n data_proto \<Rightarrow> 'n data_proto" where
  "dp_put k t d = d\<lparr>dp_tensors := AList.update k t (dp_tensors d)\<rparr>"

lemma dp_get_put [simp]: "dp_get k (dp_put k' t d) = (if k = k' then Inr t else dp_get k d)"
  by (simp add: dp_get_def dp_put_def)

lemma chunks_concat:
  assumes "\<forall>r \<in> set g. length r = k"
  shows "chunks k (length g) (concat g) = g"
proof (rule nth_equalityI)
  show "length (chunks k (length g) (concat g)) = length g" by simp
next
  fix i
  assume i: "i < length (chunks k (length g) (concat g))"
  then have il: "i < length g" by simp
  have "take k (drop (i * k) (concat g)) = g ! i" using assms il
  proof (induction g arbitrary: i)
    case (Cons r g)
    then show ?case by (cases i) auto
  qed simp
  then show "chunks k (length g) (concat g) ! i = g ! i" using il by (simp add: chunks_nth)
qed

lemma grid3_of_grid3:
  assumes "\<forall>c \<in> set g. length c = s \<and> (\<forall>r \<in> set c. length r = k)"
  shows "grid3 (of_grid3 s k g) = Inr g"
proof -
  have "chunks k s (concat c) = c" if "c \<in> set g" for c
    using assms that chunks_concat [of c k] by auto
  then show ?thesis by (simp add: grid3_def of_grid3_def map_idI)
qed

lemma grid2_of_grid2 [simp]: "grid2 (of_grid2 s g) = Inr g"
  by (simp add: grid2_def of_grid2_def)

end
