(* ===== verification/Fpo_Worker.thy ===== *)
theory Fpo_Worker
  imports Float_Ops
begin

text \<open>
  The numerical core of workers/engine/fpo/training_worker.py: generalised advantage
  estimation over policy chunks, the CFM log ratios, the clipped policy losses, and the
  reductions over data-parallel ranks. The exponential is a parameter (torch computes it);
  \<open>all_reduce\<close> over the ranks is the sum of the list of their values.
\<close>

section \<open>Finite checks\<close>

definition require_finite :: "pyfloat list \<Rightarrow> unit result" where
  "require_finite xs = require (list_all pf_isfinite xs) FloatingPointError"

text \<open>\<open>_diagnostic_identity_atol\<close>, given the parsed environment variable.\<close>

definition PRE_OPTIMIZER_IDENTITY_ATOL :: rat where
  "PRE_OPTIMIZER_IDENTITY_ATOL = 1 / 10 ^ 5"

definition diagnostic_identity_atol :: "pyfloat option \<Rightarrow> pyfloat result" where
  "diagnostic_identity_atol env =
     (let x = (case env of None \<Rightarrow> Fin PRE_OPTIMIZER_IDENTITY_ATOL | Some v \<Rightarrow> v) in
      if \<not> pf_isfinite x \<or> pf_less x (Fin PRE_OPTIMIZER_IDENTITY_ATOL) \<or> pf_less (Fin (1 / 100)) x
        then Inl ValueError else Inr x)"

section \<open>Generalised advantage estimation\<close>

record gae_lane_input =
  gi_rewards :: "pyfloat list"
  gi_values :: "pyfloat list"
  gi_next_values :: "pyfloat list"
  gi_discounts :: "pyfloat list"
  gi_gae_discounts :: "pyfloat list"
  gi_valids :: "pyfloat list"

text \<open>One lane of the backward loop: the tensors written so far and the running advantage.\<close>

definition gae_step ::
  "gae_lane_input \<Rightarrow> pyfloat list \<times> pyfloat \<Rightarrow> nat \<Rightarrow> pyfloat list \<times> pyfloat" where
  "gae_step i st s =
     (let delta = pf_sub (pf_add (gi_rewards i ! s) (pf_mul (gi_discounts i ! s) (gi_next_values i ! s)))
                    (gi_values i ! s);
          last1 = pf_mul (pf_add delta (pf_mul (gi_gae_discounts i ! s) (snd st))) (gi_valids i ! s)
      in ((fst st)[s := last1], last1))"

definition compute_gae_lane :: "gae_lane_input \<Rightarrow> pyfloat list \<times> pyfloat list" where
  "compute_gae_lane i =
     (let n = length (gi_values i);
          advantages = fst (foldl (gae_step i) (replicate n (Fin 0), Fin 0) (rev [0..<n]))
      in (advantages, map2 pf_add advantages (gi_values i)))"

definition compute_gae :: "gae_lane_input list \<Rightarrow> pyfloat list list \<times> pyfloat list list" where
  "compute_gae lanes = (map (fst \<circ> compute_gae_lane) lanes, map (snd \<circ> compute_gae_lane) lanes)"

section \<open>CFM log ratios\<close>

text \<open>
  Losses of one batch element: H action positions by N Monte-Carlo draws. Rows of all three
  arguments must agree in number and the losses in N.
\<close>

definition cfm_shapes_ok :: "rat list list \<Rightarrow> rat list list \<Rightarrow> bool list \<Rightarrow> bool" where
  "cfm_shapes_ok old current action_valids \<longleftrightarrow>
     map length old = map length current \<and> length (remdups (map length old)) \<le> 1 \<and>
     length action_valids = length old"

definition cfm_draws :: "rat list list \<Rightarrow> nat" where
  "cfm_draws old = (case old of [] \<Rightarrow> 0 | r # _ \<Rightarrow> length r)"

definition masked_cfm_sums :: "rat list list \<Rightarrow> rat list list \<Rightarrow> bool list \<Rightarrow> rat list" where
  "masked_cfm_sums old current action_valids =
     map (\<lambda>n. sum_list (map (\<lambda>h. (old ! h ! n - current ! h ! n) * b2r (action_valids ! h)) [0..<length old]))
       [0..<cfm_draws old]"

definition compute_cfm_log_ratio :: "rat list list \<Rightarrow> rat list list \<Rightarrow> bool list \<Rightarrow> rat result" where
  "compute_cfm_log_ratio old current action_valids =
     (if \<not> cfm_shapes_ok old current action_valids then Inl ValueError
      else let per_draw = masked_cfm_sums old current action_valids
           in Inr (sum_list per_draw / of_nat (length per_draw)))"

definition clamp_rat :: "rat \<Rightarrow> rat \<Rightarrow> rat \<Rightarrow> rat" where
  "clamp_rat lo hi x = min (max x lo) hi"

text \<open>The value of the straight-through clamp is the clamped value; its gradient is not modelled.\<close>

definition compute_cfm_per_sample_log_ratio ::
  "rat list list \<Rightarrow> rat list list \<Rightarrow> bool list \<Rightarrow> rat option \<Rightarrow> rat list result" where
  "compute_cfm_per_sample_log_ratio old current action_valids clamp_max =
     (if \<not> cfm_shapes_ok old current action_valids then Inl ValueError
      else let raw = masked_cfm_sums old current action_valids in
        (case clamp_max of
           None \<Rightarrow> Inr raw
         | Some m \<Rightarrow>
             if m \<le> 0 then Inl ValueError
             else Inr (map (\<lambda>x. x + (clamp_rat (- m) m x - x)) raw)))"

section \<open>Clipped policy losses\<close>

record policy_loss =
  pl_loss :: rat
  pl_approx_kl :: rat
  pl_clip_fraction :: rat

definition ppo_element :: "rat \<Rightarrow> rat \<Rightarrow> rat \<Rightarrow> rat" where
  "ppo_element clip_coef advantage ratio =
     max (- advantage * ratio) (- advantage * clamp_rat (1 - clip_coef) (1 + clip_coef) ratio)"

definition chunk_weights :: "bool list \<Rightarrow> rat list option \<Rightarrow> rat list" where
  "chunk_weights valids loss_weights =
     (case loss_weights of None \<Rightarrow> map b2r valids | Some ws \<Rightarrow> map2 (\<lambda>w v. w * b2r v) ws valids)"

definition loss_denominator :: "rat list \<Rightarrow> rat option \<Rightarrow> rat" where
  "loss_denominator weights normalization =
     (case normalization of None \<Rightarrow> max (sum_list weights) 1 | Some n \<Rightarrow> max n 1)"

definition weighted :: "rat list \<Rightarrow> rat list \<Rightarrow> rat" where
  "weighted xs ws = sum_list (map2 (*) xs ws)"

definition clipped_policy_loss ::
  "(rat \<Rightarrow> rat) \<Rightarrow> rat \<Rightarrow> rat list \<Rightarrow> rat list \<Rightarrow> bool list \<Rightarrow> rat list option \<Rightarrow> rat option \<Rightarrow> policy_loss" where
  "clipped_policy_loss expf clip_coef log_ratio advantages valids loss_weights normalization =
     (let ratio = map expf log_ratio;
          weights = chunk_weights valids loss_weights;
          den = loss_denominator weights normalization
      in \<lparr>pl_loss = weighted (map2 (ppo_element clip_coef) advantages ratio) weights / den,
          pl_approx_kl = weighted (map2 (\<lambda>r l. (r - 1) - l) ratio log_ratio) weights / den,
          pl_clip_fraction = weighted (map (\<lambda>r. b2r (clip_coef < \<bar>r - 1\<bar>)) ratio) weights / den\<rparr>)"

definition aspo_element :: "rat \<Rightarrow> rat \<Rightarrow> rat \<Rightarrow> rat \<Rightarrow> rat" where
  "aspo_element clip_coef spo_clip_coef advantage ratio =
     (if 0 < advantage then ppo_element clip_coef advantage ratio
      else - (advantage * ratio - \<bar>advantage\<bar> / (2 * spo_clip_coef) * (ratio - 1)\<^sup>2))"

definition mc_weighted :: "(rat \<Rightarrow> rat \<Rightarrow> rat) \<Rightarrow> rat list \<Rightarrow> rat list list \<Rightarrow> rat list \<Rightarrow> nat \<Rightarrow> rat" where
  "mc_weighted f advantages rows weights n =
     sum_list (map (\<lambda>(a, row, w). sum_list (map (\<lambda>l. f a l * (w / of_nat n)) row))
       (zip advantages (zip rows weights)))"

definition fpo_plus_plus_policy_loss ::
  "(rat \<Rightarrow> rat) \<Rightarrow> rat \<Rightarrow> string \<Rightarrow> rat \<Rightarrow> nat \<Rightarrow> rat list list \<Rightarrow> rat list \<Rightarrow> bool list \<Rightarrow> rat list option \<Rightarrow>
   rat option \<Rightarrow> policy_loss result" where
  "fpo_plus_plus_policy_loss expf clip_coef mode spo_clip_coef n log_ratio advantages valids loss_weights
     normalization =
     (if length advantages \<noteq> length log_ratio \<or> length valids \<noteq> length log_ratio then Inl ValueError
      else if mode \<notin> {''ppo'', ''aspo''} then Inl ValueError
      else if spo_clip_coef \<le> 0 then Inl ValueError
      else
        let weights = chunk_weights valids loss_weights;
            den = loss_denominator weights normalization;
            element = (if mode = ''aspo'' then aspo_element clip_coef spo_clip_coef else ppo_element clip_coef)
        in Inr \<lparr>pl_loss = mc_weighted (\<lambda>a l. element a (expf l)) advantages log_ratio weights n / den,
                pl_approx_kl = mc_weighted (\<lambda>a l. (expf l - 1) - l) advantages log_ratio weights n / den,
                pl_clip_fraction =
                  mc_weighted (\<lambda>a l. b2r (clip_coef < \<bar>expf l - 1\<bar>)) advantages log_ratio weights n / den\<rparr>)"

section \<open>Reductions over ranks\<close>

text \<open>Each rank contributes its list; the result is the same on every rank.\<close>

definition distributed_gradient_mean_denominator :: "rat list list \<Rightarrow> rat" where
  "distributed_gradient_mean_denominator ranks =
     sum_list (map sum_list ranks) / of_nat (length ranks)"

record rank_predictions =
  rp_returns :: "rat list"
  rp_predictions :: "rat list"
  rp_valids :: "bool list"

definition distributed_explained_variance :: "rank_predictions list \<Rightarrow> rat" where
  "distributed_explained_variance ranks =
     (let over = (\<lambda>f. sum_list (map (sum_list \<circ> f) ranks));
          ret = (\<lambda>r. map2 (\<lambda>x v. x * b2r v) (rp_returns r) (rp_valids r));
          res = (\<lambda>r. map2 (\<lambda>x v. x * b2r v) (map2 (-) (rp_returns r) (rp_predictions r)) (rp_valids r));
          count = max (over (\<lambda>r. map b2r (rp_valids r))) 1;
          return_mean = over ret / count;
          return_variance = over (map (\<lambda>x. x\<^sup>2) \<circ> ret) / count - return_mean\<^sup>2;
          residual_mean = over res / count;
          residual_variance = over (map (\<lambda>x. x\<^sup>2) \<circ> res) / count - residual_mean\<^sup>2
      in 1 - residual_variance / max return_variance (1 / 10 ^ 8))"

text \<open>
  Mean, variance (the code reports its square root), minimum and maximum over the valid cells
  of all ranks; without one the extrema are infinite.
\<close>

record masked_stats =
  ms_mean :: rat
  ms_variance :: rat
  ms_min :: pyfloat
  ms_max :: pyfloat

definition selected :: "(rat \<times> bool) list \<Rightarrow> rat list" where
  "selected xs = map fst (filter snd xs)"

definition pf_min2 :: "pyfloat \<Rightarrow> pyfloat \<Rightarrow> pyfloat" where
  "pf_min2 a b = (if pf_less b a then b else a)"

definition pf_max2 :: "pyfloat \<Rightarrow> pyfloat \<Rightarrow> pyfloat" where
  "pf_max2 a b = (if pf_less a b then b else a)"

definition distributed_masked_stats :: "(rat \<times> bool) list list \<Rightarrow> masked_stats" where
  "distributed_masked_stats ranks =
     (let over = (\<lambda>f. sum_list (map (\<lambda>r. sum_list (map f (selected r))) ranks));
          count = max (over (\<lambda>_. 1)) 1;
          mean = over id / count
      in \<lparr>ms_mean = mean,
          ms_variance = max (over (\<lambda>x. x\<^sup>2) / count - mean\<^sup>2) 0,
          ms_min = foldl pf_min2 PosInf (map (\<lambda>r. foldl pf_min2 PosInf (map Fin (selected r))) ranks),
          ms_max = foldl pf_max2 NegInf (map (\<lambda>r. foldl pf_max2 NegInf (map Fin (selected r))) ranks)\<rparr>)"

text \<open>\<open>_global_normalize\<close>: centred by the mean over the valid cells of all ranks, scaled by a root.\<close>

definition global_normalize :: "(rat \<Rightarrow> rat) \<Rightarrow> (rat \<times> bool) list list \<Rightarrow> rat list list" where
  "global_normalize root_of ranks =
     (let over = (\<lambda>f. sum_list (map (\<lambda>r. sum_list (map f r)) ranks));
          count = max (over (\<lambda>(x, v). b2r v)) 1;
          mean = over (\<lambda>(x, v). x * b2r v) / count;
          variance = over (\<lambda>(x, v). (x * b2r v)\<^sup>2) / count - mean\<^sup>2
      in map (map (\<lambda>(x, _). (x - mean) / root_of (max variance (1 / 10 ^ 8)))) ranks)"

definition global_to_local_batch_size :: "int \<Rightarrow> int \<Rightarrow> int result" where
  "global_to_local_batch_size world_size global_batch_size =
     (if global_batch_size mod world_size \<noteq> 0 then Inl ValueError else Inr (global_batch_size div world_size))"

end
