(* ===== verification/Stateful.thy ===== *)
theory Stateful
  imports Prelude
begin

text \<open>
  Computations that thread a state and may raise: sequencing, reading, the invariants they
  keep and triples with a normal and an exceptional postcondition.
\<close>

section \<open>Results threaded with a state\<close>

type_synonym ('s, 'a) stm = "'s \<Rightarrow> 'a result \<times> 's"

definition bnd :: "('s, 'a) stm \<Rightarrow> ('a \<Rightarrow> ('s, 'b) stm) \<Rightarrow> ('s, 'b) stm" where
  "bnd m f s = (case m s of (Inl e, s') \<Rightarrow> (Inl e, s') | (Inr x, s') \<Rightarrow> f x s')"

definition lift_res :: "'a result \<Rightarrow> ('s, 'a) stm" where
  "lift_res r s = (r, s)"

definition upd :: "('s \<Rightarrow> 's) \<Rightarrow> ('s, unit) stm" where
  "upd g s = (Inr (), g s)"

definition reading :: "('s \<Rightarrow> ('s, 'a) stm) \<Rightarrow> ('s, 'a) stm" where
  "reading f s = f s s"

section \<open>Invariants of threaded computations\<close>

definition keeps :: "('s \<Rightarrow> bool) \<Rightarrow> ('s, 'a) stm \<Rightarrow> bool" where
  "keeps P m \<longleftrightarrow> (\<forall>s. P s \<longrightarrow> P (snd (m s)))"

named_theorems keeps_rules \<open>computations that keep an invariant\<close>

lemma keepsI: "(\<And>s. P s \<Longrightarrow> P (snd (m s))) \<Longrightarrow> keeps P m"
  by (simp add: keeps_def)

lemma keepsD: "keeps P m \<Longrightarrow> P s \<Longrightarrow> P (snd (m s))"
  by (simp add: keeps_def)

lemma keeps_bnd [keeps_rules]:
  assumes "keeps P m" and "\<And>x. keeps P (f x)"
  shows "keeps P (bnd m f)"
proof (rule keepsI)
  fix s
  assume "P s"
  with assms(1) have 1: "P (snd (m s))" by (rule keepsD)
  show "P (snd (bnd m f s))"
  proof (cases "m s")
    case (Pair r s')
    with 1 assms(2) show ?thesis by (cases r) (auto simp: bnd_def keeps_def)
  qed
qed

lemma keeps_lift [keeps_rules]: "keeps P (lift_res r)"
  by (simp add: keeps_def lift_res_def)

lemma keeps_upd [keeps_rules]: "(\<And>s. P s \<Longrightarrow> P (g s)) \<Longrightarrow> keeps P (upd g)"
  by (simp add: keeps_def upd_def)

lemma bnd_Inr: "bnd m f s = (Inr y, t) \<longleftrightarrow> (\<exists>x u. m s = (Inr x, u) \<and> f x u = (Inr y, t))"
  by (auto simp: bnd_def split: prod.splits sum.splits)

lemma upd_Inr: "upd g s = (Inr x, t) \<longleftrightarrow> t = g s"
  by (auto simp: upd_def)

lemma lift_Inr: "lift_res r s = (Inr x, t) \<longleftrightarrow> r = Inr x \<and> t = s"
  by (auto simp: lift_res_def)

lemmas stm_simps = bnd_Inr upd_Inr lift_Inr

lemma keeps_reading [keeps_rules]: "(\<And>s. keeps P (f s)) \<Longrightarrow> keeps P (reading f)"
  by (simp add: keeps_def reading_def)

lemma keeps_prod [keeps_rules]: "(\<And>a b. keeps P (f a b)) \<Longrightarrow> keeps P (case x of (a, b) \<Rightarrow> f a b)"
  by (cases x) simp

lemma keeps_if [keeps_rules]: "keeps P m \<Longrightarrow> keeps P m' \<Longrightarrow> keeps P (if b then m else m')"
  by simp

lemma keeps_option [keeps_rules]:
  "keeps P m \<Longrightarrow> (\<And>x. keeps P (f x)) \<Longrightarrow> keeps P (case q of None \<Rightarrow> m | Some x \<Rightarrow> f x)"
  by (cases q) simp_all

section \<open>Triples\<close>

definition triple :: "('s \<Rightarrow> bool) \<Rightarrow> ('s, 'a) stm \<Rightarrow> ('a \<Rightarrow> 's \<Rightarrow> bool) \<Rightarrow> ('s \<Rightarrow> bool) \<Rightarrow> bool" where
  "triple P m Q E \<longleftrightarrow> (\<forall>s. P s \<longrightarrow> (case m s of (Inr x, t) \<Rightarrow> Q x t | (Inl e, t) \<Rightarrow> E t))"

lemma tripleI:
  assumes "\<And>s x t. P s \<Longrightarrow> m s = (Inr x, t) \<Longrightarrow> Q x t" and "\<And>s e t. P s \<Longrightarrow> m s = (Inl e, t) \<Longrightarrow> E t"
  shows "triple P m Q E"
  using assms by (auto simp: triple_def split: prod.split sum.split)

lemma triple_InrD: "triple P m Q E \<Longrightarrow> P s \<Longrightarrow> m s = (Inr x, t) \<Longrightarrow> Q x t"
  by (auto simp: triple_def)

lemma triple_InlD: "triple P m Q E \<Longrightarrow> P s \<Longrightarrow> m s = (Inl e, t) \<Longrightarrow> E t"
  by (auto simp: triple_def)

lemma triple_bnd:
  assumes "triple P m R E" and "\<And>x. triple (R x) (f x) Q E"
  shows "triple P (bnd m f) Q E"
proof (unfold triple_def, intro allI impI)
  fix s
  assume "P s"
  show "case bnd m f s of (Inr x, t) \<Rightarrow> Q x t | (Inl e, t) \<Rightarrow> E t"
  proof (cases "m s")
    case (Pair r u)
    show ?thesis
    proof (cases r)
      case (Inl e)
      with Pair triple_InlD [OF assms(1) \<open>P s\<close>] show ?thesis by (simp add: bnd_def)
    next
      case (Inr x)
      with Pair have "R x u" using triple_InrD [OF assms(1) \<open>P s\<close>] by simp
      with assms(2) [of x] Pair Inr show ?thesis by (simp add: bnd_def triple_def)
    qed
  qed
qed

lemma triple_lift: "triple (\<lambda>s. case r of Inr x \<Rightarrow> Q x s | Inl e \<Rightarrow> E s) (lift_res r) Q E"
  by (auto simp: triple_def lift_res_def split: sum.splits)

lemma triple_upd: "triple (\<lambda>s. Q () (g s)) (upd g) Q E"
  by (simp add: triple_def upd_def)

lemma triple_reading: "(\<And>s0. triple (\<lambda>s. s = s0 \<and> P s) (f s0) Q E) \<Longrightarrow> triple P (reading f) Q E"
  by (simp add: triple_def reading_def)

lemma triple_pre: "triple P m Q E \<Longrightarrow> (\<And>s. P' s \<Longrightarrow> P s) \<Longrightarrow> triple P' m Q E"
  by (simp add: triple_def)

lemma triple_post:
  "triple P m Q E \<Longrightarrow> (\<And>x s. Q x s \<Longrightarrow> Q' x s) \<Longrightarrow> (\<And>s. E s \<Longrightarrow> E' s) \<Longrightarrow> triple P m Q' E'"
  unfolding triple_def by (fastforce split: prod.splits sum.splits)

end
