(* ===== verification/Fpo_Update.thy ===== *)
theory Fpo_Update
  imports Fpo_Worker Stateful
begin

text \<open>
  The actor update of workers/engine/fpo/training_worker.py (_update_fpo_policy) as the
  sequence of optimizer operations one rank performs, with the settings of
  workers/config/actor.py that steer it. What the model's forward passes and the collectives
  return is a parameter: one record per micro-batch and per mini-batch. Timing, metrics and
  memory statistics are left out; the learning-rate override comes first and only rewrites
  optimizer groups.
\<close>

section \<open>Settings\<close>

record fpo_actor_config =
  ac_strategy :: string
  ac_value_enabled :: bool
  ac_mini_batch_size :: int
  ac_micro_batch_size :: int
  ac_update_epochs :: int
  ac_n_action_samples :: int
  ac_clip_coef :: rat
  ac_fpo_variant :: string
  ac_trust_region_mode :: string
  ac_spo_clip_coef :: rat
  ac_cfm_loss_kernel :: string
  ac_huber_delta :: rat
  ac_log_ratio_clamp :: "rat option"
  ac_vf_coef :: rat
  ac_normalize_advantages :: bool
  ac_value_only_updates :: int
  ac_target_kl :: "rat option"
  ac_kl_early_stop_mode :: string
  ac_fpo_mc_seed :: "int option"
  ac_fpo_shuffle_seed :: "int option"
  ac_post_resume_lr_override :: "rat option"
  ac_full_logical_batch :: bool

definition opt_all :: "('a \<Rightarrow> bool) \<Rightarrow> 'a option \<Rightarrow> bool" where
  "opt_all P x = (case x of None \<Rightarrow> True | Some y \<Rightarrow> P y)"

text \<open>Every check of \<open>__post_init__\<close>, in order, each raising \<open>ValueError\<close>.\<close>

definition fpo_actor_checks :: "fpo_actor_config \<Rightarrow> bool list" where
  "fpo_actor_checks c =
     [ac_strategy c \<in> {''fsdp'', ''fsdp2''},
      0 < ac_mini_batch_size c, 0 < ac_micro_batch_size c, 0 < ac_update_epochs c,
      0 < ac_n_action_samples c, 0 < ac_clip_coef c \<and> ac_clip_coef c < 1,
      ac_fpo_variant c \<in> {''vanilla'', ''fpo_plus_plus''},
      ac_trust_region_mode c \<in> {''ppo'', ''aspo''},
      ac_trust_region_mode c = ''aspo'' \<longrightarrow> ac_fpo_variant c = ''fpo_plus_plus'',
      0 < ac_spo_clip_coef c,
      ac_cfm_loss_kernel c \<in> {''mse'', ''huber''},
      0 < ac_huber_delta c,
      opt_all ((<) 0) (ac_log_ratio_clamp c),
      ac_fpo_variant c = ''fpo_plus_plus'' \<longrightarrow> ac_cfm_loss_kernel c = ''huber'',
      0 \<le> ac_vf_coef c, 0 \<le> ac_value_only_updates c,
      \<not> ac_value_enabled c \<longrightarrow>
        ac_vf_coef c = 0 \<and> ac_value_only_updates c = 0 \<and> \<not> ac_normalize_advantages c,
      opt_all ((<) 0) (ac_target_kl c),
      ac_kl_early_stop_mode c \<in> {''post_epoch'', ''pre_optimizer''},
      ac_kl_early_stop_mode c = ''pre_optimizer'' \<longrightarrow>
        \<not> ac_value_enabled c \<and> ac_full_logical_batch c \<and> ac_target_kl c \<noteq> None,
      opt_all ((\<le>) 0) (ac_fpo_mc_seed c), opt_all ((\<le>) 0) (ac_fpo_shuffle_seed c),
      opt_all ((<) 0) (ac_post_resume_lr_override c)]"

definition fpo_actor_post_init :: "fpo_actor_config \<Rightarrow> unit result" where
  "fpo_actor_post_init c = require (list_all id (fpo_actor_checks c)) ValueError"

section \<open>What the engine reports\<close>

text \<open>
  The identity statistics are already reduced over the ranks; losses and the KL of a
  micro-batch are those of this rank. A mini-batch adds the reduced loss weight and the KL
  reduced over the ranks.
\<close>

record micro_obs =
  mo_identity_error :: pyfloat
  mo_cfm_error :: pyfloat
  mo_ratio_sums_finite :: bool
  mo_ratio_min :: pyfloat
  mo_ratio_max :: pyfloat
  mo_valid_count :: nat
  mo_policy_loss :: pyfloat
  mo_value_loss :: pyfloat
  mo_kl :: rat

record mini_obs =
  mi_micros :: "micro_obs list"
  mi_weight :: pyfloat
  mi_global_kl :: rat

datatype update_event = Zero_Grad | Gate_Passed | Backward pyfloat | Value_Step | Actor_Step | Skip_Step

record update_state =
  us_gate_has_passed :: bool
  us_gate_checked :: bool
  us_events :: "update_event list"
  us_kl_stop :: bool
  us_epoch_kls :: "rat list"

type_synonym 'a upd_m = "(update_state, 'a) stm"

definition emit_event :: "update_event \<Rightarrow> unit upd_m" where
  "emit_event e = upd (\<lambda>s. s\<lparr>us_events := us_events s @ [e]\<rparr>)"

definition note_kl :: "rat \<Rightarrow> unit upd_m" where
  "note_kl k = upd (\<lambda>s. s\<lparr>us_epoch_kls := us_epoch_kls s @ [k]\<rparr>)"

section \<open>One micro-batch\<close>

definition identity_ok :: "micro_obs \<Rightarrow> bool" where
  "identity_ok o1 \<longleftrightarrow>
     pf_isfinite (mo_identity_error o1) \<and> \<not> pf_less (Fin PRE_OPTIMIZER_IDENTITY_ATOL) (mo_identity_error o1) \<and>
     pf_isfinite (mo_cfm_error o1) \<and> \<not> pf_less (Fin PRE_OPTIMIZER_IDENTITY_ATOL) (mo_cfm_error o1) \<and>
     mo_ratio_sums_finite o1 \<and> pf_isfinite (mo_ratio_min o1) \<and> pf_isfinite (mo_ratio_max o1)"

definition gate_required :: "fpo_actor_config \<Rightarrow> update_state \<Rightarrow> bool" where
  "gate_required c s \<longleftrightarrow> ac_value_enabled c \<or> \<not> us_gate_has_passed s"

definition pass_gate :: "update_state \<Rightarrow> update_state" where
  "pass_gate s = s\<lparr>us_gate_checked := True, us_gate_has_passed := True, us_events := us_events s @ [Gate_Passed]\<rparr>"

definition identity_gate :: "fpo_actor_config \<Rightarrow> micro_obs \<Rightarrow> unit upd_m" where
  "identity_gate c o1 =
     reading (\<lambda>s.
       if us_gate_checked s \<or> \<not> gate_required c s \<or> mo_valid_count o1 = 0 then lift_res (Inr ())
       else if \<not> identity_ok o1 then lift_res (Inl RuntimeError)
       else upd pass_gate)"

definition combined_loss :: "fpo_actor_config \<Rightarrow> pyfloat \<Rightarrow> pyfloat \<Rightarrow> pyfloat" where
  "combined_loss c policy val =
     (if ac_value_enabled c then pf_add policy (pf_mul (Fin (ac_vf_coef c)) val) else policy)"

text \<open>During value-only updates the policy loss and its KL are zeros and the gate is not asked.\<close>

definition micro_step :: "fpo_actor_config \<Rightarrow> bool \<Rightarrow> nat \<Rightarrow> micro_obs \<Rightarrow> unit upd_m" where
  "micro_step c value_only accum o1 =
     (let val = (if ac_value_enabled c then mo_value_loss o1 else Fin 0);
          policy = (if value_only then Fin 0 else mo_policy_loss o1);
          kl = (if value_only then 0 else mo_kl o1);
          loss = combined_loss c policy val
      in bnd (if value_only then lift_res (Inr ()) else identity_gate c o1) (\<lambda>_.
         bnd (lift_res (require_finite [policy])) (\<lambda>_.
         bnd (lift_res (require_finite [val])) (\<lambda>_.
         bnd (lift_res (require_finite [loss])) (\<lambda>_.
         bnd (emit_event (Backward (if ac_value_enabled c then pf_div loss (Fin (of_nat accum)) else loss))) (\<lambda>_.
           if ac_value_enabled c then note_kl kl else lift_res (Inr ())))))))"

fun micro_loop :: "fpo_actor_config \<Rightarrow> bool \<Rightarrow> nat \<Rightarrow> micro_obs list \<Rightarrow> unit upd_m" where
  "micro_loop c value_only accum [] = lift_res (Inr ())"
| "micro_loop c value_only accum (o1 # os) =
     bnd (micro_step c value_only accum o1) (\<lambda>_. micro_loop c value_only accum os)"

section \<open>One mini-batch\<close>

definition local_kl :: "bool \<Rightarrow> mini_obs \<Rightarrow> rat" where
  "local_kl value_only m = (if value_only then 0 else sum_list (map mo_kl (mi_micros m)))"

definition check_weight :: "fpo_actor_config \<Rightarrow> mini_obs \<Rightarrow> unit result" where
  "check_weight c m =
     (if ac_normalize_advantages c \<and> \<not> ac_value_enabled c then Inl RuntimeError
      else if \<not> ac_value_enabled c \<and> (\<not> pf_isfinite (mi_weight m) \<or> pf_le (mi_weight m) (Fin 0))
        then Inl RuntimeError
      else Inr ())"

definition skip_actor_step :: "fpo_actor_config \<Rightarrow> bool \<Rightarrow> nat \<Rightarrow> rat \<Rightarrow> bool" where
  "skip_actor_step c value_only epoch kl \<longleftrightarrow>
     \<not> value_only \<and> ac_kl_early_stop_mode c = ''pre_optimizer'' \<and> 0 < epoch \<and>
     (case ac_target_kl c of None \<Rightarrow> False | Some t \<Rightarrow> t < kl)"

definition optimizer_phase :: "fpo_actor_config \<Rightarrow> bool \<Rightarrow> bool \<Rightarrow> unit upd_m" where
  "optimizer_phase c value_only skip =
     bnd (if ac_value_enabled c then emit_event Value_Step else lift_res (Inr ())) (\<lambda>_.
       if skip then
         bnd (emit_event Zero_Grad) (\<lambda>_. bnd (emit_event Skip_Step) (\<lambda>_. upd (\<lambda>s. s\<lparr>us_kl_stop := True\<rparr>)))
       else if \<not> value_only then emit_event Actor_Step
       else lift_res (Inr ()))"

definition mini_step :: "fpo_actor_config \<Rightarrow> bool \<Rightarrow> nat \<Rightarrow> mini_obs \<Rightarrow> unit upd_m" where
  "mini_step c value_only epoch m =
     bnd (lift_res (check_weight c m)) (\<lambda>_.
     bnd (emit_event Zero_Grad) (\<lambda>_.
     bnd (micro_loop c value_only (length (mi_micros m)) (mi_micros m)) (\<lambda>_.
     bnd (reading (\<lambda>s. lift_res (require (value_only \<or> \<not> gate_required c s \<or> us_gate_checked s) RuntimeError))) (\<lambda>_.
     bnd (if ac_value_enabled c then lift_res (Inr ()) else note_kl (local_kl value_only m)) (\<lambda>_.
       let kl = (if ac_value_enabled c then 0 else mi_global_kl m)
       in optimizer_phase c value_only (skip_actor_step c value_only epoch kl))))))"

fun mini_loop :: "fpo_actor_config \<Rightarrow> bool \<Rightarrow> nat \<Rightarrow> mini_obs list \<Rightarrow> unit upd_m" where
  "mini_loop c value_only epoch [] = lift_res (Inr ())"
| "mini_loop c value_only epoch (m # ms) =
     bnd (mini_step c value_only epoch m) (\<lambda>_. mini_loop c value_only epoch ms)"

section \<open>The whole update\<close>

definition mean_epoch_kl :: "rat list \<Rightarrow> rat" where
  "mean_epoch_kl kls = sum_list kls / of_nat (max (length kls) 1)"

definition stop_after_epoch :: "fpo_actor_config \<Rightarrow> update_state \<Rightarrow> bool" where
  "stop_after_epoch c s \<longleftrightarrow>
     us_kl_stop s \<or>
     (ac_kl_early_stop_mode c = ''post_epoch'' \<and>
      (case ac_target_kl c of None \<Rightarrow> False | Some t \<Rightarrow> t < mean_epoch_kl (us_epoch_kls s)))"

text \<open>The result is the number of epochs run; \<open>obs\<close> lists the mini-batches of each epoch to come.\<close>

fun epoch_loop :: "fpo_actor_config \<Rightarrow> bool \<Rightarrow> nat \<Rightarrow> mini_obs list list \<Rightarrow> nat upd_m" where
  "epoch_loop c value_only epoch [] = lift_res (Inr epoch)"
| "epoch_loop c value_only epoch (ms # obs) =
     bnd (upd (\<lambda>s. s\<lparr>us_epoch_kls := []\<rparr>)) (\<lambda>_.
     bnd (mini_loop c value_only epoch ms) (\<lambda>_.
       reading (\<lambda>s. if stop_after_epoch c s then lift_res (Inr (Suc epoch))
                    else epoch_loop c value_only (Suc epoch) obs)))"

definition local_size :: "fpo_actor_config \<Rightarrow> nat \<Rightarrow> nat \<Rightarrow> nat" where
  "local_size c local_mini n = (if ac_full_logical_batch c then n else local_mini)"

text \<open>
  \<open>n\<close> rows reached this rank, \<open>local_mini\<close> is its share of the mini-batch size, and the batch's
  metadata names the advantage source and the reduction.
\<close>

definition update_fpo_policy ::
  "fpo_actor_config \<Rightarrow> nat \<Rightarrow> nat \<Rightarrow> int \<Rightarrow> string \<Rightarrow> string \<Rightarrow> mini_obs list list \<Rightarrow> nat upd_m" where
  "update_fpo_policy c local_mini n global_steps estimator reduction obs =
     (let value_only = (ac_value_enabled c \<and> global_steps \<le> ac_value_only_updates c) in
      bnd (lift_res (require (local_size c local_mini n \<le> n) ValueError)) (\<lambda>_.
      bnd (lift_res (require (ac_value_enabled c \<or> estimator = ''grpo_outcome'') ValueError)) (\<lambda>_.
      bnd (lift_res (require (ac_value_enabled c \<or> reduction \<in> {''group_equal'', ''task_equal''}) ValueError)) (\<lambda>_.
      bnd (upd (\<lambda>s. s\<lparr>us_gate_checked := False, us_events := [], us_kl_stop := False\<rparr>)) (\<lambda>_.
        epoch_loop c value_only 0 (take (nat (ac_update_epochs c)) obs))))))"

end
