(* ===== verification/Grpo_Advantage.thy ===== *)
theory Grpo_Advantage
  imports Float_Ops
begin

text \<open>
  apply_grpo_outcome_advantages of trainer/grfpo/grfpo_ray_trainer.py: outcomes of accepted
  groups become per-group advantages, and the loss weights of the update are built so that
  every chunk, trajectory, group and task counts equally. Two library functions are parameters:
  \<open>norm_adv\<close> is verl's compute_grpo_outcome_advantage (scores and group index to advantages),
  \<open>std\<close> is torch's sample standard deviation.
\<close>

section \<open>Accepted groups\<close>

record accepted_group =
  ag_group_id :: string
  ag_version :: int
  ag_reward_vector :: "pyfloat list option"
  ag_mixed :: bool
  ag_task_name :: "string option"
  ag_layout :: int
  ag_successes :: int
  ag_partial_only :: int

record group_diagnostics =
  gd_group_id :: string
  gd_layout :: int
  gd_rewards :: "pyfloat list"
  gd_successes :: int
  gd_partial_only :: int
  gd_advantages :: "pyfloat list"
  gd_reward_mean :: pyfloat
  gd_reward_std :: pyfloat
  gd_advantage_mean :: pyfloat
  gd_advantage_std :: pyfloat

record advantage_diagnostics =
  ad_reward_mean :: pyfloat
  ad_reward_std :: pyfloat
  ad_advantage_mean :: pyfloat
  ad_advantage_std :: pyfloat
  ad_nonzero :: pyfloat
  ad_zero_variance :: pyfloat
  ad_all_success :: rat
  ad_all_failure :: rat
  ad_advantages :: "pyfloat list"
  ad_groups :: "group_diagnostics list"

definition the_records ::
  "accepted_group option \<Rightarrow> accepted_group list option \<Rightarrow> accepted_group list result" where
  "the_records group_record group_records =
     (case (group_record, group_records) of
        (Some r, None) \<Rightarrow> Inr [r]
      | (None, Some rs) \<Rightarrow> Inr rs
      | _ \<Rightarrow> Inl ValueError)"

section \<open>Checks of the batch\<close>

definition slice :: "nat \<Rightarrow> nat \<Rightarrow> 'a list \<Rightarrow> 'a list" where
  "slice n g xs = take n (drop (g * n) xs)"

definition check_versions :: "accepted_group list \<Rightarrow> unit result" where
  "check_versions rs = require (length (remdups (map ag_version rs)) = 1) ValueError"

definition expected_ids :: "nat \<Rightarrow> accepted_group list \<Rightarrow> string list" where
  "expected_ids n rs = concat (map (\<lambda>r. replicate n (ag_group_id r)) rs)"

definition check_ids :: "nat \<Rightarrow> accepted_group list \<Rightarrow> json data_proto \<Rightarrow> unit result" where
  "check_ids n rs d =
     (case map_of (dp_arrays d) ''obs.group_id'' of
        None \<Rightarrow> Inr ()
      | Some t \<Rightarrow>
          (case tn_trail t of
             0 # _ \<Rightarrow> Inl IndexError
           | _ # _ # _ \<Rightarrow> Inl ValueError
           | _ \<Rightarrow> require (map hd (tn_rows t) = map JStr (expected_ids n rs)) ValueError))"

definition reward_key :: "string \<Rightarrow> string" where
  "reward_key source =
     (if source = ''binary_success'' then ''info.trajectory_outcome'' else ''info.trajectory_process_score'')"

definition outcomes_of :: "string \<Rightarrow> nat \<Rightarrow> json data_proto \<Rightarrow> pyfloat list result" where
  "outcomes_of source expected d =
     bind_res (dp_get (reward_key source) d) (\<lambda>t.
       if tn_shape t = [expected] then Inr (concat (tn_rows t)) else Inl ValueError)"

text \<open>One accepted group: the recorded rewards agree, and a mixed binary group splits by sign.\<close>

definition check_group ::
  "string \<Rightarrow> accepted_group \<Rightarrow> pyfloat list \<Rightarrow> pyfloat list \<Rightarrow> unit result" where
  "check_group source r outcomes advantages =
     (let recorded = (case ag_reward_vector r of None \<Rightarrow> outcomes | Some v \<Rightarrow> v) in
      if length recorded \<noteq> length outcomes \<or> \<not> pf_allclose (1 / 10 ^ 7) 0 recorded outcomes then Inl RuntimeError
      else if source = ''binary_success'' \<and> ag_mixed r then
        (let pairs = zip outcomes advantages in
         if \<not> list_all (\<lambda>(x, a). pf_bool x \<longrightarrow> pf_less (Fin 0) a) pairs then Inl RuntimeError
         else if \<not> list_all (\<lambda>(x, a). \<not> pf_bool x \<longrightarrow> pf_less a (Fin 0)) pairs then Inl RuntimeError
         else if \<not> pf_isclose (1 / 10 ^ 6) (1 / 10 ^ 5) (pf_mean advantages) (Fin 0) then Inl RuntimeError
         else Inr ())
      else Inr ())"

definition diagnose_group ::
  "(pyfloat list \<Rightarrow> pyfloat) \<Rightarrow> accepted_group \<Rightarrow> pyfloat list \<Rightarrow> pyfloat list \<Rightarrow> group_diagnostics" where
  "diagnose_group std r outcomes advantages =
     \<lparr>gd_group_id = ag_group_id r, gd_layout = ag_layout r, gd_rewards = outcomes,
      gd_successes = ag_successes r, gd_partial_only = ag_partial_only r, gd_advantages = advantages,
      gd_reward_mean = pf_mean outcomes, gd_reward_std = std outcomes,
      gd_advantage_mean = pf_mean advantages, gd_advantage_std = std advantages\<rparr>"

definition check_groups ::
  "(pyfloat list \<Rightarrow> pyfloat) \<Rightarrow> string \<Rightarrow> nat \<Rightarrow> accepted_group list \<Rightarrow> pyfloat list \<Rightarrow> pyfloat list \<Rightarrow>
   group_diagnostics list result" where
  "check_groups std source n rs outcomes advantages =
     traverse
       (\<lambda>(g, r). bind_res (check_group source r (slice n g outcomes) (slice n g advantages))
          (\<lambda>_. Inr (diagnose_group std r (slice n g outcomes) (slice n g advantages))))
       (enumerate 0 rs)"

section \<open>Hierarchical weights\<close>

definition balanced_weights :: "pyfloat list list \<Rightarrow> pyfloat list list result" where
  "balanced_weights valids =
     (let totals = map pf_sum valids in
      if list_ex (\<lambda>n. pf_le n (Fin 0)) totals then Inl ValueError
      else
        let ws = map2 (\<lambda>row n. map (\<lambda>v. pf_div v n) row) valids totals in
        if pf_allclose (1 / 10 ^ 6) (1 / 10 ^ 5) (map pf_sum ws) (map (\<lambda>_. Fin 1) totals) then Inr ws
        else Inl RuntimeError)"

definition task_names :: "accepted_group list \<Rightarrow> string list result" where
  "task_names rs =
     traverse (\<lambda>r. case ag_task_name r of None \<Rightarrow> Inl KeyError
                   | Some t \<Rightarrow> if t = [] then Inl KeyError else Inr t) rs"

definition group_scales :: "string \<Rightarrow> accepted_group list \<Rightarrow> rat list result" where
  "group_scales reduction rs =
     (if reduction = ''task_equal''
      then bind_res (task_names rs) (\<lambda>ts. Inr (map (\<lambda>t. 1 / of_nat (count_list ts t)) ts))
      else Inr (replicate (length rs) 1))"

definition scale_rows :: "nat \<Rightarrow> rat list \<Rightarrow> pyfloat list list \<Rightarrow> pyfloat list list" where
  "scale_rows n scales ws =
     map2 (\<lambda>c row. map (\<lambda>w. pf_mul w (Fin c)) row) (concat (map (replicate n) scales)) ws"

definition group_sums :: "nat \<Rightarrow> nat \<Rightarrow> pyfloat list list \<Rightarrow> pyfloat list" where
  "group_sums n m ws = map (\<lambda>g. pf_sum (map pf_sum (slice n g ws))) [0..<m]"

definition check_task_sums :: "nat \<Rightarrow> string list \<Rightarrow> pyfloat list \<Rightarrow> unit result" where
  "check_task_sums n ts totals =
     require
       (list_all
          (\<lambda>t. pf_isclose (1 / 10 ^ 5) 0 (pf_sum (map snd (filter (\<lambda>(u, _). u = t) (zip ts totals)))) (Fin (of_nat n)))
          ts)
       RuntimeError"

definition hierarchical_weights ::
  "string \<Rightarrow> nat \<Rightarrow> accepted_group list \<Rightarrow> pyfloat list list \<Rightarrow> pyfloat list list result" where
  "hierarchical_weights reduction n rs valids =
     bind_res (balanced_weights valids) (\<lambda>balanced.
     bind_res (group_scales reduction rs) (\<lambda>scales.
       let ws = scale_rows n scales balanced; totals = group_sums n (length rs) ws in
       bind_res
         (require (pf_allclose (1 / 10 ^ 6) (1 / 10 ^ 5) totals (map (\<lambda>c. Fin (c * of_nat n)) scales)) RuntimeError) (\<lambda>_.
       bind_res
         (if reduction = ''task_equal''
          then bind_res (task_names rs) (\<lambda>ts. check_task_sums n ts totals) else Inr ()) (\<lambda>_. Inr ws))))"

section \<open>The whole assignment\<close>

definition actor_meta :: "string \<Rightarrow> string \<Rightarrow> nat \<Rightarrow> accepted_group list \<Rightarrow> (string \<times> json) list" where
  "actor_meta source reduction n rs =
     [(''advantage_estimator'', JStr ''grpo_outcome''), (''group_reward_source'', JStr source),
      (''accepted_group_reduction'', JStr reduction), (''critic_enabled'', JBool False),
      (''rollout_policy_version'', JInt (ag_version (hd rs))),
      (''accepted_groups'', JInt (int (length rs))),
      (''accepted_training_trajectories'', JInt (int (length rs * n))),
      (''reduction'', JStr (if reduction = ''task_equal''
         then ''mean_task(mean_group_within_task(mean_trajectory(mean_valid_chunk(loss))))''
         else ''mean_group(mean_trajectory(mean_valid_chunk(loss)))'')),
      (''task_group_counts'',
         JObj (if reduction = ''task_equal''
           then (let ts = map (\<lambda>r. case ag_task_name r of None \<Rightarrow> [] | Some t \<Rightarrow> t) rs
                 in map (\<lambda>t. (t, JInt (int (count_list ts t)))) (sort (remdups ts)))
           else []))]"

definition summarize_advantages ::
  "(pyfloat list \<Rightarrow> pyfloat) \<Rightarrow> nat \<Rightarrow> pyfloat list \<Rightarrow> pyfloat list \<Rightarrow> group_diagnostics list \<Rightarrow>
   advantage_diagnostics" where
  "summarize_advantages std n outcomes advantages groups =
     (let stds = map gd_reward_std groups in
      \<lparr>ad_reward_mean = pf_mean outcomes, ad_reward_std = pf_mean stds,
       ad_advantage_mean = pf_mean advantages, ad_advantage_std = std advantages,
       ad_nonzero = pf_mean (map (\<lambda>a. pf_of_bool (a \<noteq> Fin 0)) advantages),
       ad_zero_variance = pf_mean (map (\<lambda>s. pf_of_bool (s = Fin 0)) stds),
       ad_all_success =
         of_nat (length (filter (\<lambda>g. gd_successes g = int n) groups)) / of_nat (length groups),
       ad_all_failure = of_nat (length (filter (\<lambda>g. gd_successes g = 0) groups)) / of_nat (length groups),
       ad_advantages = advantages, ad_groups = groups\<rparr>)"

definition apply_grpo_outcome_advantages ::
  "(pyfloat list \<Rightarrow> string list \<Rightarrow> pyfloat list) \<Rightarrow> (pyfloat list \<Rightarrow> pyfloat) \<Rightarrow> json data_proto \<Rightarrow>
   accepted_group option \<Rightarrow> accepted_group list option \<Rightarrow> nat \<Rightarrow> string \<Rightarrow> string \<Rightarrow>
   (json data_proto \<times> advantage_diagnostics) result" where
  "apply_grpo_outcome_advantages norm_adv std d group_record group_records n source reduction =
     bind_res (the_records group_record group_records) (\<lambda>rs.
     bind_res (require (reduction \<in> {''group_equal'', ''task_equal''}) ValueError) (\<lambda>_.
     bind_res (require (dp_len d = length rs * n) ValueError) (\<lambda>_.
     bind_res (check_versions rs) (\<lambda>_.
     bind_res (check_ids n rs d) (\<lambda>_.
     bind_res (outcomes_of source (length rs * n) d) (\<lambda>outcomes.
       let advantages = norm_adv outcomes (expected_ids n rs) in
     bind_res (require (list_all pf_isfinite advantages) FloatingPointError) (\<lambda>_.
     bind_res (check_groups std source n rs outcomes advantages) (\<lambda>groups.
     bind_res (dp_get ''info.valids'' d) (\<lambda>vt. bind_res (grid2 vt) (\<lambda>valids.
     bind_res (hierarchical_weights reduction n rs valids) (\<lambda>ws.
       let s = hd (tn_trail vt);
           spread = map2 (\<lambda>a row. map (pf_mul a) row) advantages valids;
           d1 = dp_put ''fpo.loss_weights'' (of_grid2 s ws)
               (dp_put ''fpo.advantages'' (of_grid2 s spread)
               (dp_put ''fpo.trajectory_group_advantage'' (of_grid1 advantages) d));
           meta = foldl (\<lambda>m (k, v). AList.update k v m) (dp_meta d) (actor_meta source reduction n rs)
       in Inr (d1\<lparr>dp_meta := meta\<rparr>, summarize_advantages std n outcomes advantages groups))))))))))))"

end
