(* ===== verification/Grpo_Advantage_Properties.thy ===== *)
theory Grpo_Advantage_Properties
  imports Grpo_Advantage
begin

text \<open>
  On a well-formed batch the advantage assignment never fails, and the weights it writes make
  the weighted mean of any per-chunk loss the hierarchical mean over tasks, groups,
  trajectories and valid chunks.
\<close>

section \<open>Groups as slices\<close>

lemma slice_chunks: "g < m \<Longrightarrow> slice n g xs = chunks n m xs ! g"
  by (simp add: slice_def chunks_nth)

lemma map_slice_chunks: "map (\<lambda>g. f (slice n g xs)) [0..<m] = map f (chunks n m xs)"
  by (rule nth_equalityI) (auto simp: slice_chunks)

lemma length_slice: "length xs = m * n \<Longrightarrow> g < m \<Longrightarrow> length (slice n g xs) = n"
  using chunk_length [of "slice n g xs" n m xs] by (simp add: slice_chunks in_set_conv_nth) blast

lemma set_slice: "x \<in> set (slice n g xs) \<Longrightarrow> x \<in> set xs"
  by (auto simp: slice_def dest: in_set_takeD in_set_dropD)

lemma slice_map [simp]: "slice n g (map f xs) = map f (slice n g xs)"
  by (simp add: slice_def take_map drop_map)

lemma slice_zip: "slice n g (zip xs ys) = zip (slice n g xs) (slice n g ys)"
  by (simp add: slice_def take_zip drop_zip)

definition spread :: "nat \<Rightarrow> 'a list \<Rightarrow> 'a list" where
  "spread n cs = concat (map (replicate n) cs)"

lemma length_spread [simp]: "length (spread n cs) = length cs * n"
  by (induction cs) (auto simp: spread_def)

lemma slice_spread: "g < length cs \<Longrightarrow> slice n g (spread n cs) = replicate n (cs ! g)"
proof -
  assume g: "g < length cs"
  have "chunks n (length (map (replicate n) cs)) (concat (map (replicate n) cs)) = map (replicate n) cs"
    by (rule chunks_concat) auto
  with g show ?thesis by (simp add: slice_chunks [of g "length cs"] spread_def)
qed

lemma map2_replicate: "length ys = n \<Longrightarrow> map2 f (replicate n c) ys = map (f c) ys"
  by (induction ys arbitrary: n) (auto simp: Suc_length_conv)

lemma slice_map2_spread:
  assumes "g < length cs" and "length ys = length cs * n"
  shows "slice n g (map2 f (spread n cs) ys) = map (f (cs ! g)) (slice n g ys)"
  using map2_replicate [OF length_slice [OF assms(2,1)], of f "cs ! g"] assms(1)
  by (simp add: slice_zip slice_spread)

lemma slice_map2_spread':
  assumes "g < length cs" and "length ys = length cs * n"
  shows "slice n g (map2 f ys (spread n cs)) = map (\<lambda>y. f y (cs ! g)) (slice n g ys)"
proof -
  have "map2 f ys (spread n cs) = map2 (\<lambda>c y. f y c) (spread n cs) ys"
    by (rule nth_equalityI) auto
  then show ?thesis using slice_map2_spread [OF assms, of "\<lambda>c y. f y c"] by simp
qed

lemma sum_list_concat': "sum_list (concat xss) = sum_list (map sum_list (xss :: 'a::comm_monoid_add list list))"
  by (induction xss) auto

lemma sum_by_slices:
  assumes "length xs = m * n"
  shows "sum_list xs = (\<Sum>g<m. sum_list (slice n g (xs :: 'a::comm_monoid_add list)))"
proof -
  have "sum_list xs = sum_list (concat (chunks n m xs))" using assms by (simp add: concat_chunks)
  also have "\<dots> = sum_list (map sum_list (chunks n m xs))" by (simp add: sum_list_concat')
  also have "\<dots> = sum_list (map (\<lambda>g. sum_list (slice n g xs)) [0..<m])" by (simp only: map_slice_chunks)
  finally show ?thesis by (simp add: interv_sum_list_conv_sum_set_nat atLeast0LessThan)
qed

section \<open>Advantages of a group\<close>

definition group_mean :: "rat list \<Rightarrow> string list \<Rightarrow> string \<Rightarrow> rat" where
  "group_mean xs ids i =
     sum_list (map fst (filter (\<lambda>(x, j). j = i) (zip xs ids))) / of_nat (count_list ids i)"

text \<open>
  verl's documented behaviour: with more than one score per index, the advantage is the score
  minus the mean of its index, divided by a positive number of that index (its standard
  deviation plus a small constant).
\<close>

definition centres_per_group :: "(pyfloat list \<Rightarrow> string list \<Rightarrow> pyfloat list) \<Rightarrow> bool" where
  "centres_per_group norm_adv \<longleftrightarrow>
     (\<forall>xs ids. length xs = length ids \<longrightarrow> (\<forall>i \<in> set ids. 1 < count_list ids i) \<longrightarrow>
        (\<exists>c. (\<forall>i. 0 < c i) \<and>
           norm_adv (map Fin xs) ids = map Fin (map2 (\<lambda>x i. c i * (x - group_mean xs ids i)) xs ids)))"

lemma expected_spread: "expected_ids n rs = spread n (map ag_group_id rs)"
  by (simp add: expected_ids_def spread_def comp_def)

lemma count_spread:
  assumes "distinct ids" and "g < length ids"
  shows "count_list (spread n ids) (ids ! g) = n"
  using assms
proof (induction ids arbitrary: g)
  case (Cons i ids)
  have other: "count_list (spread n ids) i = 0" using Cons.prems(1)
    by (auto simp: count_list_0_iff spread_def)
  have rep: "count_list (replicate n i) j = (if i = j then n else 0)" for j
    by (induction n) auto
  show ?case
  proof (cases g)
    case 0
    with other show ?thesis by (simp add: spread_def rep)
  next
    case (Suc m)
    with Cons.prems have "ids ! m \<noteq> i" by auto
    with Cons Suc show ?thesis by (simp add: spread_def rep)
  qed
qed simp

lemma filter_spread:
  assumes "distinct ids" and "g < length ids" and "length xs = length ids * n"
  shows "map fst (filter (\<lambda>(x, j). j = ids ! g) (zip xs (spread n ids))) = slice n g xs"
  using assms
proof (induction ids arbitrary: g xs)
  case (Cons i ids)
  let ?a = "take n xs" and ?b = "drop n xs"
  have xs: "zip xs (spread n (i # ids)) = zip ?a (replicate n i) @ zip ?b (spread n ids)"
    using Cons.prems(3) by (simp add: spread_def zip_append2 min_def)
  have first: "map fst (filter (\<lambda>(x, j). j = k) (zip ?a (replicate n i))) = (if i = k then ?a else [])" for k
  proof -
    have "zip ?a (replicate n i) = map (\<lambda>x. (x, i)) ?a"
      using Cons.prems(3) by (intro nth_equalityI) auto
    then show ?thesis by (simp add: filter_map comp_def)
  qed
  show ?case
  proof (cases g)
    case 0
    have "filter (\<lambda>(x, j). j = i) (zip ?b (spread n ids)) = []"
      using Cons.prems(1) by (auto simp: filter_empty_conv spread_def dest!: set_zip_rightD)
    with 0 xs first [of i] show ?thesis by (simp add: slice_def)
  next
    case (Suc m)
    with Cons.prems have "ids ! m \<noteq> i" by auto
    then have "map fst (filter (\<lambda>(x, j). j = ids ! m) (zip xs (spread n (i # ids)))) =
        map fst (filter (\<lambda>(x, j). j = ids ! m) (zip ?b (spread n ids)))"
      using first [of "ids ! m"] xs by auto
    also have "\<dots> = slice n m ?b" using Cons.prems Suc by (intro Cons.IH) auto
    finally show ?thesis using Suc by (simp add: slice_def add.commute)
  qed
qed simp

lemma group_advantages:
  assumes "centres_per_group norm_adv" and "1 < n" and "distinct (map ag_group_id rs)"
    and "length xs = length rs * n"
  obtains c where "\<forall>i. 0 < c i"
    and "\<forall>g < length rs. slice n g (norm_adv (map Fin xs) (expected_ids n rs)) =
      map (\<lambda>x. Fin (c g * (x - sum_list (slice n g xs) / of_nat n))) (slice n g xs)"
    and "list_all pf_isfinite (norm_adv (map Fin xs) (expected_ids n rs))"
proof -
  let ?ids = "map ag_group_id rs"
  have cnt: "\<forall>i \<in> set (spread n ?ids). 1 < count_list (spread n ?ids) i"
  proof
    fix i
    assume "i \<in> set (spread n ?ids)"
    then have "i \<in> set ?ids" by (auto simp: spread_def)
    then obtain g where "g < length ?ids" "i = ?ids ! g" by (metis in_set_conv_nth)
    with assms(2,3) show "1 < count_list (spread n ?ids) i" by (simp only: count_spread)
  qed
  have len: "length xs = length (spread n ?ids)" using assms(4) by simp
  from assms(1) len cnt obtain c where pos: "\<forall>i. 0 < c i"
    and eq: "norm_adv (map Fin xs) (spread n ?ids) =
      map Fin (map2 (\<lambda>x i. c i * (x - group_mean xs (spread n ?ids) i)) xs (spread n ?ids))"
    unfolding centres_per_group_def by blast
  have "slice n g (norm_adv (map Fin xs) (expected_ids n rs)) =
      map (\<lambda>x. Fin (c (?ids ! g) * (x - sum_list (slice n g xs) / of_nat n))) (slice n g xs)"
    if g: "g < length rs" for g
  proof -
    have "group_mean xs (spread n ?ids) (?ids ! g) = sum_list (slice n g xs) / of_nat n"
      using g assms(3,4) by (simp only: group_mean_def count_spread filter_spread length_map)
    moreover have "slice n g (map2 (\<lambda>x i. c i * (x - group_mean xs (spread n ?ids) i)) xs (spread n ?ids)) =
        map (\<lambda>x. c (?ids ! g) * (x - group_mean xs (spread n ?ids) (?ids ! g))) (slice n g xs)"
      using g assms(4) by (intro slice_map2_spread') auto
    ultimately show ?thesis by (simp add: expected_spread eq del: map_map) (simp add: comp_def)
  qed
  moreover have "list_all pf_isfinite (norm_adv (map Fin xs) (expected_ids n rs))"
    by (simp add: expected_spread eq list_all_iff)
  ultimately show ?thesis using pos by (intro that [of "\<lambda>g. c (?ids ! g)"]) auto
qed

section \<open>The checks of a group\<close>

text \<open>What a record says about its group's outcomes: the recorded vector, and "mixed" truthfully.\<close>

definition record_agrees :: "string \<Rightarrow> accepted_group \<Rightarrow> rat list \<Rightarrow> bool" where
  "record_agrees source r xs \<longleftrightarrow>
     (ag_reward_vector r = None \<or> ag_reward_vector r = Some (map Fin xs)) \<and>
     (source = ''binary_success'' \<and> ag_mixed r \<longrightarrow> set xs = {0, 1})"

lemma sum_centred: "length xs = n \<Longrightarrow> 0 < n \<Longrightarrow> sum_list (map (\<lambda>x. c * (x - sum_list xs / of_nat n)) xs) = (0::rat)"
proof -
  assume n: "length xs = n" "0 < n"
  have "sum_list (map (\<lambda>x. c * (x - m)) ys) = c * (sum_list ys - of_nat (length ys) * m)" for m and ys :: "rat list"
    by (induction ys) (auto simp: algebra_simps)
  with n show ?thesis by simp
qed

lemma mixed_mean:
  assumes "set xs = {0, 1 :: rat}"
  shows "0 < sum_list xs / of_nat (length xs) \<and> sum_list xs / of_nat (length xs) < 1"
proof -
  have ge: "sum_list ys \<ge> 0 \<and> sum_list ys \<le> of_nat (length ys)" if "set ys \<subseteq> {0, 1 :: rat}" for ys
    using that by (induction ys) auto
  have split: "set a \<subseteq> {0, 1} \<and> set b \<subseteq> {0, 1}" if "xs = a @ y # b" for a b y
    using assms unfolding that by auto
  obtain a b where ab: "xs = a @ 0 # b" using assms by (metis insertI1 split_list)
  then have lt: "sum_list xs < of_nat (length xs)" using ge [of a] ge [of b] split [OF ab] by simp
  obtain a b where ab: "xs = a @ 1 # b" using assms by (metis insertI1 insertI2 split_list)
  then have "0 < sum_list xs" using ge [of a] ge [of b] split [OF ab] by simp
  with lt show ?thesis by (cases xs) (auto simp: divide_simps)
qed

lemma check_group_passes:
  assumes "record_agrees source r xs" and "length xs = n" and "0 < n" and "0 < c"
  shows "check_group source r (map Fin xs) (map (\<lambda>x. Fin (c * (x - sum_list xs / of_nat n))) xs) = Inr ()"
proof -
  let ?m = "sum_list xs / of_nat n"
  let ?a = "map (\<lambda>x. Fin (c * (x - ?m))) xs"
  have recorded: "(case ag_reward_vector r of None \<Rightarrow> map Fin xs | Some v \<Rightarrow> v) = map Fin xs"
    using assms(1) by (auto simp: record_agrees_def)
  have "pf_allclose (1 / 10 ^ 7) 0 (map Fin xs) (map Fin xs)"
    by (rule pf_allclose_refl) (auto simp: list_all_iff)
  moreover have "check_group source r (map Fin xs) ?a = Inr ()" if mixed: "source = ''binary_success''" "ag_mixed r"
  proof -
    have set: "set xs = {0, 1}" using assms(1) mixed by (simp add: record_agrees_def)
    with mixed_mean [OF this] assms(2) have m: "0 < ?m" "?m < 1" by auto
    have zip: "zip (map Fin xs) ?a = map (\<lambda>x. (Fin x, Fin (c * (x - ?m)))) xs" by (simp add: zip_map_map zip_same_conv_map)
    have sgn: "0 < c * (1 - ?m)" "c * (0 - ?m) < 0" using m assms(4)
      by (simp_all only: mult_pos_pos mult_pos_neg diff_gt_0_iff_gt diff_less_0_iff_less)
    have pos: "list_all (\<lambda>(x, a). pf_bool x \<longrightarrow> pf_less (Fin 0) a) (zip (map Fin xs) ?a)"
      unfolding zip using set sgn by (auto simp: list_all_iff pf_bool_def)
    have neg: "list_all (\<lambda>(x, a). \<not> pf_bool x \<longrightarrow> pf_less a (Fin 0)) (zip (map Fin xs) ?a)"
      unfolding zip using set sgn by (auto simp: list_all_iff pf_bool_def)
    have "?a = map Fin (map (\<lambda>x. c * (x - ?m)) xs)" by simp
    then have "pf_sum ?a = Fin 0" using sum_centred [OF assms(2,3), of c] by (simp only: pf_sum_Fin)
    then have mean: "pf_mean ?a = Fin 0" using assms(2,3) by (simp add: pf_mean_def)
    show ?thesis
      using pos neg mean recorded calculation mixed assms(2) by (simp add: check_group_def Let_def)
  qed
  ultimately show ?thesis using recorded by (auto simp: check_group_def Let_def)
qed

section \<open>Weights\<close>

definition valid_count :: "bool list \<Rightarrow> rat" where
  "valid_count row = of_nat (length (filter id row))"

lemma valid_count_sum: "sum_list (map b2r row) = valid_count row"
  by (induction row) (auto simp: valid_count_def)

lemma valid_count_pos: "True \<in> set row \<Longrightarrow> 0 < valid_count row"
  by (auto simp: valid_count_def filter_empty_conv)

definition trajectory_weights :: "rat \<Rightarrow> bool list \<Rightarrow> rat list" where
  "trajectory_weights c row = map (\<lambda>v. b2r v / valid_count row * c) row"

lemma sum_trajectory_weights: "True \<in> set row \<Longrightarrow> sum_list (trajectory_weights c row) = c"
proof -
  assume "True \<in> set row"
  then have "valid_count row \<noteq> 0" using valid_count_pos [of row] by simp
  have "sum_list (map (\<lambda>v. b2r v / k * c) ys) = sum_list (map b2r ys) * c / k" for k ys
    by (induction ys) (auto simp: add_divide_distrib algebra_simps)
  with \<open>valid_count row \<noteq> 0\<close> show ?thesis by (simp add: trajectory_weights_def valid_count_sum)
qed

lemma balanced_weights_ok:
  assumes "\<forall>row \<in> set valids. True \<in> set row"
  shows "balanced_weights (map (map pf_of_bool) valids) = Inr (map (map Fin \<circ> trajectory_weights 1) valids)"
proof -
  have pf: "map pf_of_bool = (\<lambda>row. map Fin (map b2r row))" by (auto simp: fun_eq_iff)
  have one: "pf_sum (map pf_of_bool row) = Fin (valid_count row)" for row
    by (simp only: pf pf_sum_Fin valid_count_sum)
  have totals: "map pf_sum (map (map pf_of_bool) valids) = map (Fin \<circ> valid_count) valids"
    by (simp add: one)
  have pos: "0 < valid_count row" if "row \<in> set valids" for row
    using assms that by (simp add: valid_count_pos)
  have none: "\<not> list_ex (\<lambda>n. pf_le n (Fin 0)) (map (Fin \<circ> valid_count) valids)"
    using pos by (auto simp: list_ex_iff not_le)
  have ws: "map2 (\<lambda>row n. map (\<lambda>v. pf_div v n) row) (map (map pf_of_bool) valids) (map (Fin \<circ> valid_count) valids) =
      map (map Fin \<circ> trajectory_weights 1) valids"
    using pos by (auto simp: zip_map_map zip_same_conv_map trajectory_weights_def less_imp_neq[symmetric])
  have sums1: "map pf_sum (map (map Fin \<circ> trajectory_weights 1) valids) = map (\<lambda>_. Fin 1) (map (Fin \<circ> valid_count) valids)"
    using assms by (simp add: sum_trajectory_weights)
  have "pf_allclose (1 / 10 ^ 6) (1 / 10 ^ 5) (map (\<lambda>_. Fin 1) xs) (map (\<lambda>_. Fin 1) xs)" for xs :: "pyfloat list"
    by (rule pf_allclose_refl) (auto simp: list_all_iff)
  then show ?thesis
    unfolding balanced_weights_def Let_def totals ws sums1 using none by (simp only: if_False if_True simp_thms)
qed

definition scale_of :: "string \<Rightarrow> accepted_group list \<Rightarrow> accepted_group \<Rightarrow> rat" where
  "scale_of reduction rs r =
     (if reduction = ''task_equal'' then 1 / of_nat (count_list (map ag_task_name rs) (ag_task_name r)) else 1)"

definition named_tasks :: "accepted_group list \<Rightarrow> bool" where
  "named_tasks rs \<longleftrightarrow> (\<forall>r \<in> set rs. \<exists>t. ag_task_name r = Some t \<and> t \<noteq> [])"

lemma task_names_ok: "named_tasks rs \<Longrightarrow> task_names rs = Inr (map (the \<circ> ag_task_name) rs)"
  unfolding task_names_def
  by (intro traverse_map_Inr) (auto simp: named_tasks_def)

lemma count_list_the:
  assumes "\<forall>x \<in> set xs. x \<noteq> None" and "y \<noteq> None"
  shows "count_list (map the xs) (the y) = count_list xs y"
  using assms by (induction xs) auto

lemma group_scales_ok:
  assumes "reduction = ''task_equal'' \<Longrightarrow> named_tasks rs"
  shows "group_scales reduction rs = Inr (map (scale_of reduction rs) rs)"
proof (cases "reduction = ''task_equal''")
  case True
  with assms have named: "named_tasks rs" by simp
  have "count_list (map (the \<circ> ag_task_name) rs) (the (ag_task_name r)) =
      count_list (map ag_task_name rs) (ag_task_name r)" if "r \<in> set rs" for r
    using count_list_the [of "map ag_task_name rs" "ag_task_name r"] named that
    by (force simp: named_tasks_def)
  with True named show ?thesis by (simp add: group_scales_def task_names_ok scale_of_def)
next
  case False
  then have "scale_of reduction rs = (\<lambda>_. 1)" by (auto simp: scale_of_def)
  with False show ?thesis by (simp add: group_scales_def map_replicate_const)
qed

definition weight_grid :: "string \<Rightarrow> nat \<Rightarrow> accepted_group list \<Rightarrow> bool list list \<Rightarrow> rat list list" where
  "weight_grid reduction n rs valids =
     map2 trajectory_weights (spread n (map (scale_of reduction rs) rs)) valids"

lemma scale_rows_ok:
  "scale_rows n cs (map (map Fin \<circ> trajectory_weights 1) valids) =
     map (map Fin) (map2 trajectory_weights (spread n cs) valids)"
  by (rule nth_equalityI) (auto simp: scale_rows_def spread_def trajectory_weights_def)

lemma row_sums:
  assumes "\<forall>row \<in> set valids. True \<in> set row" and "g < length cs" and "length valids = length cs * n"
  shows "pf_sum (map pf_sum (slice n g (map (map Fin) (map2 trajectory_weights (spread n cs) valids)))) =
    Fin (cs ! g * of_nat n)"
proof -
  have len: "length (slice n g valids) = n" using assms(2,3) by (intro length_slice)
  have "map pf_sum (slice n g (map (map Fin) (map2 trajectory_weights (spread n cs) valids))) =
      map Fin (map (\<lambda>row. sum_list (trajectory_weights (cs ! g) row)) (slice n g valids))"
    by (subst slice_map) (simp only: slice_map2_spread [OF assms(2,3)], simp add: comp_def)
  also have "map (\<lambda>row. sum_list (trajectory_weights (cs ! g) row)) (slice n g valids) = replicate n (cs ! g)"
  proof -
    have "map (\<lambda>row. sum_list (trajectory_weights (cs ! g) row)) (slice n g valids) = map (\<lambda>_. cs ! g) (slice n g valids)"
      using assms(1) by (intro map_cong) (auto simp: sum_trajectory_weights dest: set_slice)
    then show ?thesis by (simp add: map_replicate_const len)
  qed
  finally show ?thesis by (simp only: pf_sum_Fin) (simp add: sum_list_replicate)
qed

lemma task_totals:
  assumes "t \<in> set ts"
  shows "sum_list (map snd (filter (\<lambda>(u, _). u = t) (zip ts (map (\<lambda>u. 1 / of_nat (count_list ts u) * k) ts)))) = (k :: rat)"
proof -
  have "sum_list (map snd (filter (\<lambda>(u, _). u = t) (zip us (map f us)))) = of_nat (count_list us t) * f t"
    for us and f :: "'a \<Rightarrow> rat"
    by (induction us) (auto simp: algebra_simps)
  moreover have "count_list ts t \<noteq> 0" using assms by (simp add: count_list_0_iff)
  ultimately show ?thesis by simp
qed

lemma check_tasks_ok:
  "check_task_sums n ts (map Fin (map (\<lambda>u. 1 / of_nat (count_list ts u) * of_nat n) ts)) = Inr ()"
proof -
  have lift: "map snd (filter (\<lambda>(u, _). u = t) (zip ys (map Fin xs))) =
      map Fin (map snd (filter (\<lambda>(u, _). u = t) (zip ys xs)))" for t :: string and ys xs
    by (simp add: zip_map2 filter_map comp_def split_def)
  have "pf_sum (map snd (filter (\<lambda>(u, _). u = t)
      (zip ts (map Fin (map (\<lambda>u. 1 / of_nat (count_list ts u) * of_nat n) ts))))) = Fin (of_nat n)"
    if "t \<in> set ts" for t
    unfolding lift pf_sum_Fin task_totals [OF that] ..
  then show ?thesis by (simp add: check_task_sums_def list_all_iff del: map_map)
qed

lemma hierarchical_weights_ok:
  assumes "\<forall>row \<in> set valids. True \<in> set row" and "length valids = length rs * n"
    and "reduction = ''task_equal'' \<Longrightarrow> named_tasks rs"
  shows "hierarchical_weights reduction n rs (map (map pf_of_bool) valids) =
    Inr (map (map Fin) (weight_grid reduction n rs valids))"
proof -
  let ?cs = "map (scale_of reduction rs) rs"
  have totals: "group_sums n (length rs) (map (map Fin) (weight_grid reduction n rs valids)) =
      map (\<lambda>c. Fin (c * of_nat n)) ?cs"
    using row_sums [OF assms(1), of _ ?cs n] assms(2)
    by (intro nth_equalityI) (simp_all add: group_sums_def weight_grid_def del: slice_map map_map)
  have close: "pf_allclose (1 / 10 ^ 6) (1 / 10 ^ 5) (map (\<lambda>c. Fin (c * of_nat n)) ?cs) (map (\<lambda>c. Fin (c * of_nat n)) ?cs)"
    by (rule pf_allclose_refl) (auto simp: list_all_iff)
  have tasks: "check_task_sums n (map (the \<circ> ag_task_name) rs) (map (\<lambda>c. Fin (c * of_nat n)) ?cs) = Inr ()"
    if task: "reduction = ''task_equal''"
  proof -
    let ?ts = "map (the \<circ> ag_task_name) rs"
    have "?cs = map (\<lambda>u. 1 / of_nat (count_list ?ts u)) ?ts"
      using group_scales_ok [of reduction rs] assms(3) task task_names_ok [of rs]
      by (simp add: group_scales_def)
    then have cs: "map (\<lambda>c. Fin (c * of_nat n)) ?cs = map Fin (map (\<lambda>u. 1 / of_nat (count_list ?ts u) * of_nat n) ?ts)"
      by (simp only: map_map comp_def)
    show ?thesis unfolding cs by (rule check_tasks_ok)
  qed
  have gs: "group_scales reduction rs = Inr ?cs" using group_scales_ok assms(3) by blast
  have grid: "map (map Fin) (map2 trajectory_weights (spread n ?cs) valids) =
      map (map Fin) (weight_grid reduction n rs valids)" by (simp only: weight_grid_def)
  show ?thesis
    unfolding hierarchical_weights_def balanced_weights_ok [OF assms(1)] gs bind_res.simps Let_def scale_rows_ok
      grid totals
    using close tasks assms(3)
    by (cases "reduction = ''task_equal''") (simp_all add: task_names_ok del: map_map)
qed

section \<open>Hierarchical means\<close>

definition mean :: "rat list \<Rightarrow> rat" where
  "mean xs = sum_list xs / of_nat (length xs)"

text \<open>
  The reduction the comments promise: the mean over the valid chunks of a trajectory, over the
  trajectories of a group, over the groups (of a task, and then over the tasks).
\<close>

definition trajectory_mean :: "bool list \<Rightarrow> rat list \<Rightarrow> rat" where
  "trajectory_mean row ls = sum_list (map2 (\<lambda>v l. b2r v * l) row ls) / valid_count row"

definition group_loss :: "nat \<Rightarrow> bool list list \<Rightarrow> rat list list \<Rightarrow> nat \<Rightarrow> rat" where
  "group_loss n valids losses g = mean (map2 trajectory_mean (slice n g valids) (slice n g losses))"

definition of_task :: "'t list \<Rightarrow> rat list \<Rightarrow> 't \<Rightarrow> rat list" where
  "of_task ts xs t = map snd (filter (\<lambda>(u, _). u = t) (zip ts xs))"

definition hierarchical_mean ::
  "string \<Rightarrow> nat \<Rightarrow> accepted_group list \<Rightarrow> bool list list \<Rightarrow> rat list list \<Rightarrow> rat" where
  "hierarchical_mean reduction n rs valids losses =
     (let ls = map (group_loss n valids losses) [0..<length rs]; ts = map ag_task_name rs in
      if reduction = ''task_equal'' then mean (map (\<lambda>t. mean (of_task ts ls t)) (remdups ts)) else mean ls)"

definition weighted_total :: "rat list list \<Rightarrow> rat list list \<Rightarrow> rat" where
  "weighted_total ws losses = sum_list (map2 (\<lambda>w l. sum_list (map2 (*) w l)) ws losses)"

lemma weighted_row: "sum_list (map2 (*) (trajectory_weights c row) ls) = c * trajectory_mean row ls"
proof -
  have "sum_list (map2 (*) (map (\<lambda>v. b2r v / k * c) row) ls) = c * sum_list (map2 (\<lambda>v l. b2r v * l) row ls) / k" for k
    by (induction row ls rule: list_induct2') (auto simp: algebra_simps add_divide_distrib)
  then show ?thesis by (simp add: trajectory_weights_def trajectory_mean_def)
qed

lemma weighted_total_groups:
  assumes "length valids = length cs * n" and "length losses = length cs * n" and "0 < n"
  shows "weighted_total (map2 trajectory_weights (spread n cs) valids) losses =
    (\<Sum>g<length cs. cs ! g * of_nat n * group_loss n valids losses g)"
proof -
  let ?ws = "map2 trajectory_weights (spread n cs) valids"
  let ?xs = "map2 (\<lambda>w l. sum_list (map2 (*) w l)) ?ws losses"
  have "sum_list (slice n g ?xs) = cs ! g * of_nat n * group_loss n valids losses g" if g: "g < length cs" for g
  proof -
    have len: "length (slice n g valids) = n" "length (slice n g losses) = n"
      using g assms by (auto intro: length_slice)
    have "slice n g ?xs = map2 (\<lambda>w l. sum_list (map2 (*) w l)) (slice n g ?ws) (slice n g losses)"
      by (simp only: slice_map slice_zip)
    also have "slice n g ?ws = map (trajectory_weights (cs ! g)) (slice n g valids)"
      using g assms(1) by (rule slice_map2_spread)
    also have "map2 (\<lambda>w l. sum_list (map2 (*) w l)) (map (trajectory_weights (cs ! g)) (slice n g valids)) (slice n g losses) =
        map (\<lambda>x. cs ! g * x) (map2 trajectory_mean (slice n g valids) (slice n g losses))"
      by (simp add: zip_map1 weighted_row [unfolded split_def] split_def comp_def)
    finally show ?thesis
      using len assms(3) by (simp add: group_loss_def mean_def comp_def split_def sum_list_const_mult)
  qed
  moreover have "length ?xs = length cs * n" using assms by simp
  ultimately show ?thesis unfolding weighted_total_def by (simp only: sum_by_slices) simp
qed

lemma total_weight:
  assumes "\<forall>row \<in> set valids. True \<in> set row" and "length valids = length cs * n"
  shows "sum_list (map sum_list (map2 trajectory_weights (spread n cs) valids)) = (\<Sum>g<length cs. cs ! g * of_nat n)"
proof -
  let ?ws = "map2 trajectory_weights (spread n cs) valids"
  have "sum_list (slice n g (map sum_list ?ws)) = cs ! g * of_nat n" if g: "g < length cs" for g
  proof -
    have "slice n g (map sum_list ?ws) = map (\<lambda>_. cs ! g) (slice n g valids)"
      using assms(1) g assms(2)
      by (subst slice_map) (auto simp: slice_map2_spread sum_trajectory_weights dest: set_slice simp del: slice_map)
    then show ?thesis by (simp only: map_replicate_const length_slice [OF assms(2) g] sum_list_replicate) simp
  qed
  moreover have "length (map sum_list ?ws) = length cs * n" using assms by simp
  ultimately show ?thesis by (simp only: sum_by_slices) simp
qed

lemma task_sum:
  assumes "length ts = length xs" and "finite T" and "set ts \<subseteq> T"
  shows "sum_list (map2 (\<lambda>t x. x / c t) ts xs) = (\<Sum>t \<in> T. sum_list (of_task ts xs t) / c t)"
  using assms(1,3)
proof (induction ts xs rule: list_induct2)
  case (Cons u us x xs)
  have "(\<Sum>t \<in> T. sum_list (of_task (u # us) (x # xs) t) / c t) =
      (\<Sum>t \<in> T. (if u = t then x / c t else 0) + sum_list (of_task us xs t) / c t)"
    by (intro sum.cong) (auto simp: of_task_def add_divide_distrib)
  also have "\<dots> = x / c u + (\<Sum>t \<in> T. sum_list (of_task us xs t) / c t)"
    using Cons.prems assms(2) by (simp add: sum.distrib sum.delta)
  finally show ?case using Cons by simp
qed (simp add: of_task_def)

lemma length_of_task: "length ts = length xs \<Longrightarrow> length (of_task ts xs t) = count_list ts t"
  by (induction ts xs rule: list_induct2) (auto simp: of_task_def)

lemma task_mean_sum:
  assumes "length ts = length xs"
  shows "sum_list (map2 (\<lambda>t x. x / of_nat (count_list ts t)) ts xs) =
    sum_list (map (\<lambda>t. mean (of_task ts xs t)) (remdups ts))"
proof -
  have "sum_list (map2 (\<lambda>t x. x / of_nat (count_list ts t)) ts xs) =
      (\<Sum>t \<in> set ts. sum_list (of_task ts xs t) / of_nat (count_list ts t))"
    using assms by (intro task_sum) auto
  also have "\<dots> = (\<Sum>t \<in> set ts. mean (of_task ts xs t))"
    using assms by (intro sum.cong) (auto simp: mean_def length_of_task)
  finally show ?thesis by (simp add: sum_list_distinct_conv_sum_set)
qed

section \<open>The main result\<close>

text \<open>A batch of accepted groups ready for the assignment: rs, binary or process outcomes xs, masks.\<close>

definition advantage_ready ::
  "string \<Rightarrow> string \<Rightarrow> nat \<Rightarrow> accepted_group list \<Rightarrow> rat list \<Rightarrow> nat \<Rightarrow> bool list list \<Rightarrow> json data_proto \<Rightarrow> bool" where
  "advantage_ready source reduction n rs xs s valids d \<longleftrightarrow>
     1 < n \<and> rs \<noteq> [] \<and> reduction \<in> {''group_equal'', ''task_equal''} \<and>
     (reduction = ''task_equal'' \<longrightarrow> named_tasks rs) \<and>
     distinct (map ag_group_id rs) \<and> (\<exists>v. \<forall>r \<in> set rs. ag_version r = v) \<and>
     dp_len d = length rs * n \<and>
     (map_of (dp_arrays d) ''obs.group_id'' = None \<or>
      map_of (dp_arrays d) ''obs.group_id'' = Some (of_grid1 (map JStr (expected_ids n rs)))) \<and>
     length xs = length rs * n \<and> dp_get (reward_key source) d = Inr (of_grid1 (map Fin xs)) \<and>
     (\<forall>g < length rs. record_agrees source (rs ! g) (slice n g xs)) \<and>
     length valids = length rs * n \<and> (\<forall>row \<in> set valids. True \<in> set row) \<and>
     dp_get ''info.valids'' d = Inr (of_grid2 s (map (map pf_of_bool) valids))"

lemma remdups_constant: "xs \<noteq> [] \<Longrightarrow> \<forall>x \<in> set xs. x = v \<Longrightarrow> length (remdups xs) = 1"
proof -
  assume "xs \<noteq> []" "\<forall>x \<in> set xs. x = v"
  then have "set xs = {v}" by (cases xs) auto
  then show ?thesis by (simp add: length_remdups_card_conv)
qed

lemma check_groups_pass:
  assumes "centres_per_group norm_adv" and "advantage_ready source reduction n rs xs s valids d"
  shows "\<exists>gs. check_groups std source n rs (map Fin xs) (norm_adv (map Fin xs) (expected_ids n rs)) = Inr gs"
    and "list_all pf_isfinite (norm_adv (map Fin xs) (expected_ids n rs))"
proof -
  let ?a = "norm_adv (map Fin xs) (expected_ids n rs)"
  have r: "1 < n" "distinct (map ag_group_id rs)" "length xs = length rs * n"
    "\<forall>g < length rs. record_agrees source (rs ! g) (slice n g xs)"
    using assms(2) by (auto simp: advantage_ready_def)
  obtain c where c: "\<forall>i. (0::rat) < c i"
    and adv: "\<forall>g < length rs. slice n g ?a = map (\<lambda>x. Fin (c g * (x - sum_list (slice n g xs) / of_nat n))) (slice n g xs)"
    and fin: "list_all pf_isfinite ?a" by (rule group_advantages [OF assms(1) r(1-3)])
  show "list_all pf_isfinite ?a" by (rule fin)
  have "check_group source (rs ! g) (slice n g (map Fin xs)) (slice n g ?a) = Inr ()" if "g < length rs" for g
    using check_group_passes [of source "rs ! g" "slice n g xs" n "c g"] that r c adv length_slice [OF r(3) that] by simp
  then have pass: "check_group source r (slice n g (map Fin xs)) (slice n g ?a) = Inr ()"
    if "(g, r) \<in> set (enumerate 0 rs)" for g r
    using that by (auto simp: in_set_enumerate_eq)
  have "traverse (\<lambda>(g, r). bind_res (check_group source r (slice n g (map Fin xs)) (slice n g ?a))
          (\<lambda>_. Inr (diagnose_group std r (slice n g (map Fin xs)) (slice n g ?a)))) (enumerate 0 rs) =
      Inr (map (\<lambda>(g, r). diagnose_group std r (slice n g (map Fin xs)) (slice n g ?a)) (enumerate 0 rs))"
    by (rule traverse_map_Inr) (auto simp: pass simp del: slice_map)
  then show "\<exists>gs. check_groups std source n rs (map Fin xs) ?a = Inr gs" unfolding check_groups_def by blast
qed

lemma assignment_succeeds:
  assumes "centres_per_group norm_adv" and "advantage_ready source reduction n rs xs s valids d"
  shows "\<exists>out diag. apply_grpo_outcome_advantages norm_adv std d None (Some rs) n source reduction = Inr (out, diag) \<and>
    dp_get ''fpo.loss_weights'' out = Inr (of_grid2 s (map (map Fin) (weight_grid reduction n rs valids)))"
proof -
  note ready = assms(2) [unfolded advantage_ready_def]
  obtain v where "\<forall>r \<in> set rs. ag_version r = v" using ready by blast
  then have "length (remdups (map ag_version rs)) = 1"
    using ready by (intro remdups_constant [of _ v]) auto
  then have versions: "check_versions rs = Inr ()" by (simp add: check_versions_def)
  have ids: "check_ids n rs d = Inr ()" using ready by (auto simp: check_ids_def of_grid1_def comp_def)
  have outcomes: "outcomes_of source (length rs * n) d = Inr (map Fin xs)"
    using ready by (simp add: outcomes_of_def of_grid1_def tn_shape_def comp_def)
  obtain gs where gs: "check_groups std source n rs (map Fin xs) (norm_adv (map Fin xs) (expected_ids n rs)) = Inr gs"
    using check_groups_pass(1) [OF assms] by blast
  note fin = check_groups_pass(2) [OF assms]
  have ws: "hierarchical_weights reduction n rs (map (map pf_of_bool) valids) =
      Inr (map (map Fin) (weight_grid reduction n rs valids))"
    using ready by (intro hierarchical_weights_ok) auto
  have trail: "hd (tn_trail (of_grid2 s g)) = s" for g :: "pyfloat list list" by (simp add: of_grid2_def)
  have get_meta: "dp_get k (e\<lparr>dp_meta := m\<rparr>) = dp_get k e" for k m and e :: "json data_proto" by (simp add: dp_get_def)
  have conds: "reduction \<in> {''group_equal'', ''task_equal''}" "dp_len d = length rs * n"
    "dp_get ''info.valids'' d = Inr (of_grid2 s (map (map pf_of_bool) valids))" using ready by auto
  show ?thesis
    unfolding apply_grpo_outcome_advantages_def the_records_def option.case prod.case bind_res.simps
      require_def conds(2,3) versions ids outcomes Let_def gs grid2_of_grid2 ws trail
    using conds(1) fin by (simp add: get_meta del: insert_iff)
qed

lemma nonempty_sum:
  "(\<Sum>g<length rs. map f rs ! g * k g) = sum_list (map2 (\<lambda>r x. f r * x) rs (map k [0..<length rs]))"
  by (subst sum_list_sum_nth) (simp add: atLeast0LessThan)

lemma weighted_mean_is_hierarchical:
  assumes "advantage_ready source reduction n rs xs s valids d" and "length losses = length valids"
  shows "weighted_total (weight_grid reduction n rs valids) losses /
      sum_list (map sum_list (weight_grid reduction n rs valids)) = hierarchical_mean reduction n rs valids losses"
proof -
  let ?cs = "map (scale_of reduction rs) rs" and ?ws = "weight_grid reduction n rs valids"
  note ready = assms(1) [unfolded advantage_ready_def] and ll = assms(2)
  have n: "of_nat n \<noteq> (0::rat)" and lv: "length valids = length ?cs * n" using ready by auto
  let ?ls = "map (group_loss n valids losses) [0..<length rs]"
  have top: "weighted_total ?ws losses = of_nat n * sum_list (map2 (\<lambda>r x. scale_of reduction rs r * x) rs ?ls)"
  proof -
    have "weighted_total ?ws losses = (\<Sum>g<length ?cs. ?cs ! g * of_nat n * group_loss n valids losses g)"
      unfolding weight_grid_def using lv ll ready by (intro weighted_total_groups) auto
    also have "\<dots> = of_nat n * (\<Sum>g<length rs. ?cs ! g * group_loss n valids losses g)"
      by (simp add: sum_distrib_left algebra_simps)
    finally show ?thesis by (simp only: nonempty_sum)
  qed
  have "sum_list (map sum_list ?ws) = (\<Sum>g<length ?cs. ?cs ! g * of_nat n)"
    unfolding weight_grid_def using lv ready by (intro total_weight) auto
  also have "\<dots> = of_nat n * (\<Sum>g<length rs. ?cs ! g * 1)" by (simp add: sum_distrib_left algebra_simps)
  finally have bottom: "sum_list (map sum_list ?ws) =
      of_nat n * sum_list (map2 (\<lambda>r x. scale_of reduction rs r * x) rs (map (\<lambda>_. 1) [0..<length rs]))"
    by (simp only: nonempty_sum)
  show ?thesis
  proof (cases "reduction = ''task_equal''")
    case True
    let ?ts = "map ag_task_name rs"
    have scaled: "sum_list (map2 (\<lambda>r x. scale_of reduction rs r * x) rs ys) =
        sum_list (map (\<lambda>t. mean (of_task ?ts ys t)) (remdups ?ts))" if "length ys = length rs" for ys
    proof -
      have "map2 (\<lambda>r x. scale_of reduction rs r * x) rs ys = map2 (\<lambda>t x. x / of_nat (count_list ?ts t)) ?ts ys"
        using True by (simp add: zip_map1 scale_of_def split_def)
      then show ?thesis using task_mean_sum [of ?ts ys] that by simp
    qed
    have one: "mean (of_task ?ts (map (\<lambda>_. 1) [0..<length rs]) t) = 1" if "t \<in> set ?ts" for t
    proof -
      have "set (of_task ?ts (map (\<lambda>_. 1) [0..<length rs]) t) \<subseteq> {1}"
        by (auto simp: of_task_def dest!: set_zip_rightD)
      then have "of_task ?ts (map (\<lambda>_. 1) [0..<length rs]) t = replicate (count_list ?ts t) 1"
        by (intro replicate_eqI) (auto simp: length_of_task)
      moreover have "count_list ?ts t \<noteq> 0" using that by (simp add: count_list_0_iff)
      ultimately show ?thesis by (simp add: mean_def sum_list_replicate)
    qed
    have "map (\<lambda>t. mean (of_task ?ts (map (\<lambda>_. 1) [0..<length rs]) t)) (remdups ?ts) = map (\<lambda>_. 1) (remdups ?ts)"
      using one by (intro map_cong) auto
    then have "sum_list (map sum_list ?ws) = of_nat n * of_nat (length (remdups ?ts))"
      unfolding bottom by (simp only: scaled length_map length_upt) (simp add: sum_list_triv scaled)
    moreover have "weighted_total ?ws losses =
        of_nat n * sum_list (map (\<lambda>t. mean (of_task ?ts ?ls t)) (remdups ?ts))"
      unfolding top by (subst scaled) simp_all
    moreover have "hierarchical_mean reduction n rs valids losses =
        sum_list (map (\<lambda>t. mean (of_task ?ts ?ls t)) (remdups ?ts)) / of_nat (length (remdups ?ts))"
      using True by (simp add: hierarchical_mean_def mean_def [of "map _ _"] Let_def)
    ultimately show ?thesis using n by simp
  next
    case False
    then have one: "scale_of reduction rs = (\<lambda>_. 1)" by (auto simp: scale_of_def)
    have snds: "map2 (\<lambda>r x. 1 * x) rs ys = ys" if "length ys = length rs" for ys :: "rat list"
      using that by (intro nth_equalityI) auto
    show ?thesis
      using False n unfolding top bottom one hierarchical_mean_def Let_def
      by (simp only: snds length_map length_upt) (simp add: mean_def sum_list_triv)
  qed
qed

text \<open>
  C20. The weights of an accepted update are exactly the promised reduction. On a well-formed
  batch the assignment succeeds, none of its self-checks fires, and for every per-chunk loss
  the weighted sum divided by the total weight is the mean over valid chunks, trajectories and
  groups, taken per task first when tasks are to count equally.
\<close>

theorem loss_weights_are_the_hierarchical_mean:
  assumes "centres_per_group norm_adv" and "advantage_ready source reduction n rs xs s valids d"
  shows "\<exists>out diag ws. apply_grpo_outcome_advantages norm_adv std d None (Some rs) n source reduction = Inr (out, diag) \<and>
    dp_get ''fpo.loss_weights'' out = Inr (of_grid2 s (map (map Fin) ws)) \<and>
    (\<forall>losses. length losses = length valids \<longrightarrow>
       weighted_total ws losses / sum_list (map sum_list ws) = hierarchical_mean reduction n rs valids losses)"
proof -
  have "weighted_total (weight_grid reduction n rs valids) losses /
      sum_list (map sum_list (weight_grid reduction n rs valids)) = hierarchical_mean reduction n rs valids losses"
    if "length losses = length valids" for losses
    using assms(2) that by (rule weighted_mean_is_hierarchical)
  then show ?thesis using assignment_succeeds [OF assms, of std] by blast
qed

text \<open>Three groups of two trajectories, two of them of the same task.\<close>

definition centre_scores :: "pyfloat list \<Rightarrow> string list \<Rightarrow> pyfloat list" where
  "centre_scores ss ids = map2 (\<lambda>s i. Fin (pf_val s - group_mean (map pf_val ss) ids i)) ss ids"

lemma centre_scores_centres: "centres_per_group centre_scores"
  unfolding centres_per_group_def
proof (intro allI impI exI [of _ "\<lambda>_. 1"] conjI)
  fix xs :: "rat list" and ids :: "string list"
  have "map pf_val (map Fin xs) = xs" by (simp add: comp_def)
  then show "centre_scores (map Fin xs) ids = map Fin (map2 (\<lambda>x i. 1 * (x - group_mean xs ids i)) xs ids)"
    by (simp add: centre_scores_def zip_map1 split_def comp_def)
qed simp

definition sample_group :: "string \<Rightarrow> string \<Rightarrow> rat list \<Rightarrow> accepted_group" where
  "sample_group i t xs =
     \<lparr>ag_group_id = i, ag_version = 4, ag_reward_vector = Some (map Fin xs), ag_mixed = True,
      ag_task_name = Some t, ag_layout = 0, ag_successes = 1, ag_partial_only = 0\<rparr>"

definition sample_groups :: "accepted_group list" where
  "sample_groups = [sample_group ''g1'' ''stack'' [0, 1], sample_group ''g2'' ''stack'' [1, 0],
     sample_group ''g3'' ''fold'' [1, 0]]"

definition sample_valids :: "bool list list" where
  "sample_valids = [[True, True], [True, False], [True, False], [True, True], [True, True], [True, True]]"

definition sample_actor_input :: "json data_proto" where
  "sample_actor_input =
     \<lparr>dp_tensors = [(''info.trajectory_outcome'', of_grid1 (map Fin [0, 1, 1, 0, 1, 0])),
                    (''info.valids'', of_grid2 2 (map (map pf_of_bool) sample_valids))],
      dp_arrays = [], dp_meta = []\<rparr>"

lemma sample_ready:
  "advantage_ready ''binary_success'' ''task_equal'' 2 sample_groups [0, 1, 1, 0, 1, 0] 2 sample_valids
     sample_actor_input"
proof -
  have agrees: "\<forall>g < length sample_groups.
      record_agrees ''binary_success'' (sample_groups ! g) (slice 2 g [0, 1, 1, 0, 1, 0])"
    by (auto simp: sample_groups_def sample_group_def record_agrees_def slice_def less_Suc_eq)
  moreover have "dp_len sample_actor_input = 6"
    by (simp add: dp_len_def sample_actor_input_def of_grid1_def)
  moreover have "named_tasks sample_groups" "distinct (map ag_group_id sample_groups)"
    "\<exists>v. \<forall>r \<in> set sample_groups. ag_version r = v"
    by (auto simp: named_tasks_def sample_groups_def sample_group_def)
  moreover have "dp_get (reward_key ''binary_success'') sample_actor_input = Inr (of_grid1 (map Fin [0, 1, 1, 0, 1, 0]))"
    "dp_get ''info.valids'' sample_actor_input = Inr (of_grid2 2 (map (map pf_of_bool) sample_valids))"
    "dp_arrays sample_actor_input = []"
    by (simp_all add: dp_get_def reward_key_def sample_actor_input_def)
  moreover have "length sample_groups = 3" "sample_groups \<noteq> []" "length sample_valids = 6"
    "\<forall>row \<in> set sample_valids. True \<in> set row"
    by (simp_all add: sample_groups_def sample_valids_def)
  ultimately show ?thesis by (simp add: advantage_ready_def)
qed

theorem loss_weights_are_the_hierarchical_mean_witness:
  "\<exists>out diag ws. apply_grpo_outcome_advantages centre_scores (\<lambda>_. Fin 1) sample_actor_input None
       (Some sample_groups) 2 ''binary_success'' ''task_equal'' = Inr (out, diag) \<and>
     weighted_total ws [[1, 3], [2, 9], [4, 9], [6, 6], [8, 8], [0, 2]] / sum_list (map sum_list ws) =
     (((2 + 2) / 2 + (4 + 6) / 2) / 2 + (8 + 1) / 2) / 2"
proof -
  let ?losses = "[[1, 3], [2, 9], [4, 9], [6, 6], [8, 8], [0, 2]] :: rat list list"
  have "length ?losses = length sample_valids" by (simp add: sample_valids_def)
  moreover have "hierarchical_mean ''task_equal'' 2 sample_groups sample_valids ?losses =
      (((2 + 2) / 2 + (4 + 6) / 2) / 2 + (8 + 1) / 2) / 2" by code_simp
  ultimately show ?thesis
    using loss_weights_are_the_hierarchical_mean [OF centre_scores_centres sample_ready, of "\<lambda>_. Fin 1"] by metis
qed

end
