(* ===== verification/Fpo_Update_Properties.thy ===== *)
theory Fpo_Update_Properties
  imports Fpo_Update Grpo_Advantage_Properties "HOL-Library.Multiset"
begin

text \<open>
  The actor update: which optimizer steps can happen, what the data-parallel loss amounts to,
  and when the ranks agree about stopping early.
\<close>

section \<open>Optimizer steps and the identity gate\<close>

text \<open>
  In a trace every actor step comes after the gate has passed in this update; without a critic
  a gate passed in an earlier update also counts.
\<close>

fun steps_gated :: "bool \<Rightarrow> update_event list \<Rightarrow> bool" where
  "steps_gated before [] \<longleftrightarrow> True"
| "steps_gated before (e # es) \<longleftrightarrow>
     (e = Actor_Step \<longrightarrow> before) \<and> steps_gated (before \<or> Gate_Passed = e) es"

lemma steps_gated_append:
  "steps_gated before (es @ fs) \<longleftrightarrow>
     steps_gated before es \<and> steps_gated (before \<or> Gate_Passed \<in> set es) fs"
  by (induction es arbitrary: before) (auto simp: disj_ac)

definition gate_inv :: "fpo_actor_config \<Rightarrow> bool \<Rightarrow> bool \<Rightarrow> update_state \<Rightarrow> bool" where
  "gate_inv c value_only earlier s \<longleftrightarrow>
     steps_gated (\<not> ac_value_enabled c \<and> earlier) (us_events s) \<and>
     (us_gate_checked s \<longrightarrow> Gate_Passed \<in> set (us_events s)) \<and>
     (us_gate_has_passed s \<longrightarrow> earlier \<or> Gate_Passed \<in> set (us_events s)) \<and>
     (value_only \<longrightarrow> Actor_Step \<notin> set (us_events s)) \<and>
     (\<not> ac_value_enabled c \<longrightarrow> Value_Step \<notin> set (us_events s))"

named_theorems gate_rules \<open>parts of the update that keep the gate invariant\<close>

lemma emit_keeps_gate [gate_rules]:
  "e \<noteq> Actor_Step \<Longrightarrow> (e = Value_Step \<Longrightarrow> ac_value_enabled c) \<Longrightarrow> keeps (gate_inv c vo g) (emit_event e)"
  unfolding emit_event_def by (intro keeps_upd) (auto simp: gate_inv_def steps_gated_append)

lemma note_kl_keeps_gate [gate_rules]: "keeps (gate_inv c vo g) (note_kl k)"
  unfolding note_kl_def by (intro keeps_upd) (auto simp: gate_inv_def)

lemma identity_gate_keeps [gate_rules]: "keeps (gate_inv c vo g) (identity_gate c o1)"
  unfolding identity_gate_def
  by (intro keeps_rules) (auto simp: gate_inv_def pass_gate_def steps_gated_append)

lemma micro_step_keeps [gate_rules]: "keeps (gate_inv c vo g) (micro_step c value_only n o1)"
  unfolding micro_step_def Let_def by (intro keeps_rules gate_rules) auto

lemma micro_loop_keeps [gate_rules]: "keeps (gate_inv c vo g) (micro_loop c value_only n os)"
  by (induction os) (auto intro!: keeps_rules gate_rules)

lemma optimizer_phase_keeps:
  assumes "gate_inv c vo g s" and "vo \<or> \<not> gate_required c s \<or> us_gate_checked s"
  shows "gate_inv c vo g (snd (optimizer_phase c vo skip s))"
  using assms
  by (auto simp: optimizer_phase_def gate_inv_def gate_required_def bnd_def emit_event_def upd_def lift_res_def
      steps_gated_append)

lemma mini_tail_keeps:
  "keeps (gate_inv c vo g)
     (bnd (reading (\<lambda>s. lift_res (require (vo \<or> \<not> gate_required c s \<or> us_gate_checked s) RuntimeError))) (\<lambda>_.
      bnd (if ac_value_enabled c then lift_res (Inr ()) else note_kl k) (\<lambda>_. optimizer_phase c vo skip)))"
proof (rule keepsI)
  fix s
  assume s: "gate_inv c vo g s"
  show "gate_inv c vo g (snd (bnd (reading (\<lambda>s. lift_res (require (vo \<or> \<not> gate_required c s \<or> us_gate_checked s) RuntimeError)))
      (\<lambda>_. bnd (if ac_value_enabled c then lift_res (Inr ()) else note_kl k) (\<lambda>_. optimizer_phase c vo skip)) s))"
  proof (cases "vo \<or> \<not> gate_required c s \<or> us_gate_checked s")
    case ok: True
    let ?t = "if ac_value_enabled c then s else s\<lparr>us_epoch_kls := us_epoch_kls s @ [k]\<rparr>"
    have "gate_inv c vo g ?t" "vo \<or> \<not> gate_required c ?t \<or> us_gate_checked ?t"
      using s ok by (auto simp: gate_inv_def gate_required_def)
    from optimizer_phase_keeps [OF this, of skip] ok show ?thesis
      by (auto simp: bnd_def reading_def lift_res_def note_kl_def upd_def require_def split: if_splits)
  next
    case False
    with s show ?thesis by (simp add: bnd_def reading_def lift_res_def require_def)
  qed
qed

lemma mini_step_keeps [gate_rules]: "keeps (gate_inv c vo g) (mini_step c vo epoch m)"
  unfolding mini_step_def Let_def
  by (intro keeps_bnd keeps_lift emit_keeps_gate micro_loop_keeps mini_tail_keeps) auto

lemma mini_loop_keeps [gate_rules]: "keeps (gate_inv c vo g) (mini_loop c vo epoch ms)"
  by (induction ms) (auto intro!: keeps_rules gate_rules)

lemma epoch_loop_keeps: "keeps (gate_inv c vo g) (epoch_loop c vo epoch obs)"
proof (induction obs arbitrary: epoch)
  case (Cons ms obs)
  have clear: "keeps (gate_inv c vo g) (upd (\<lambda>s. s\<lparr>us_epoch_kls := []\<rparr>))"
    by (intro keeps_upd) (auto simp: gate_inv_def)
  show ?case unfolding epoch_loop.simps by (intro keeps_rules gate_rules clear Cons.IH)
qed (simp add: keeps_lift)

text \<open>
  C13. No optimizer ever moves the actor on unchecked statistics: in every update, also one
  that raises in the middle, each actor step comes after the pre-optimizer identity gate (of
  this update when there is a critic, of this or an earlier one otherwise); updates reserved
  for the value head never step the actor, and without a critic no value step happens.
\<close>

theorem actor_steps_only_behind_the_gate:
  assumes "update_fpo_policy c local_mini n global_steps estimator reduction obs s = (r, t)"
    and "us_events s = []" and "\<not> us_gate_checked s"
  shows "steps_gated (\<not> ac_value_enabled c \<and> us_gate_has_passed s) (us_events t) \<and>
    (ac_value_enabled c \<and> global_steps \<le> ac_value_only_updates c \<longrightarrow> Actor_Step \<notin> set (us_events t)) \<and>
    (\<not> ac_value_enabled c \<longrightarrow> Value_Step \<notin> set (us_events t))"
proof -
  let ?vo = "ac_value_enabled c \<and> global_steps \<le> ac_value_only_updates c" and ?g = "us_gate_has_passed s"
  have start: "gate_inv c ?vo ?g s" using assms(2,3) by (simp add: gate_inv_def)
  have "gate_inv c ?vo ?g t"
  proof -
    let ?s = "s\<lparr>us_gate_checked := False, us_events := [], us_kl_stop := False\<rparr>"
    have "gate_inv c ?vo ?g (snd (epoch_loop c ?vo 0 os ?s))" for os
      using epoch_loop_keeps [of c ?vo ?g 0 os] start assms(2) by (auto simp: keeps_def gate_inv_def)
    with assms(1) start show ?thesis
      by (auto simp: update_fpo_policy_def Let_def bnd_def lift_res_def upd_def require_def split: if_splits)
        (metis snd_conv)+
  qed
  then show ?thesis by (auto simp: gate_inv_def)
qed

text \<open>A critic-free configuration, and a mini-batch that passes the gate with the given KLs.\<close>

definition critic_free :: "string \<Rightarrow> bool \<Rightarrow> fpo_actor_config" where
  "critic_free mode full =
     \<lparr>ac_strategy = ''fsdp2'', ac_value_enabled = False, ac_mini_batch_size = 128, ac_micro_batch_size = 4,
      ac_update_epochs = 2, ac_n_action_samples = 4, ac_clip_coef = 1 / 100, ac_fpo_variant = ''vanilla'',
      ac_trust_region_mode = ''ppo'', ac_spo_clip_coef = 1 / 100, ac_cfm_loss_kernel = ''mse'',
      ac_huber_delta = 1, ac_log_ratio_clamp = None, ac_vf_coef = 0, ac_normalize_advantages = False,
      ac_value_only_updates = 0, ac_target_kl = Some (1 / 10), ac_kl_early_stop_mode = mode,
      ac_fpo_mc_seed = None, ac_fpo_shuffle_seed = None, ac_post_resume_lr_override = None,
      ac_full_logical_batch = full\<rparr>"

definition good_micro :: "rat \<Rightarrow> micro_obs" where
  "good_micro kl =
     \<lparr>mo_identity_error = Fin 0, mo_cfm_error = Fin 0, mo_ratio_sums_finite = True, mo_ratio_min = Fin 1,
      mo_ratio_max = Fin 1, mo_valid_count = 3, mo_policy_loss = Fin 0, mo_value_loss = Fin 0, mo_kl = kl\<rparr>"

definition good_mini :: "rat \<Rightarrow> rat \<Rightarrow> mini_obs" where
  "good_mini kl global_kl = \<lparr>mi_micros = [good_micro kl], mi_weight = Fin 8, mi_global_kl = global_kl\<rparr>"

definition fresh_worker :: update_state where
  "fresh_worker =
     \<lparr>us_gate_has_passed = False, us_gate_checked = False, us_events = [], us_kl_stop = False, us_epoch_kls = []\<rparr>"

definition sample_update :: "nat result \<times> update_state" where
  "sample_update =
     update_fpo_policy (critic_free ''pre_optimizer'' True) 16 12 5 ''grpo_outcome'' ''group_equal''
       [[good_mini 0 0], [good_mini (1 / 20) (1 / 8)]] fresh_worker"

theorem actor_steps_only_behind_the_gate_witness:
  "steps_gated False (us_events (snd sample_update)) \<and>
   us_events (snd sample_update) =
     [Zero_Grad, Gate_Passed, Backward (Fin 0), Actor_Step, Zero_Grad, Backward (Fin 0), Zero_Grad, Skip_Step]"
proof
  show "steps_gated False (us_events (snd sample_update))"
    using actor_steps_only_behind_the_gate
      [of "critic_free ''pre_optimizer'' True" 16 12 5 "''grpo_outcome''" "''group_equal''"
          "[[good_mini 0 0], [good_mini (1 / 20) (1 / 8)]]" fresh_worker
          "fst sample_update" "snd sample_update"]
    by (simp add: sample_update_def fresh_worker_def)
next
  show "us_events (snd sample_update) =
      [Zero_Grad, Gate_Passed, Backward (Fin 0), Actor_Step, Zero_Grad, Backward (Fin 0), Zero_Grad, Skip_Step]"
    by code_simp
qed

section \<open>Ranks that stop at different times\<close>

text \<open>
  One rank of an update with two mini-batches per epoch: the first mini-batch is still at the
  old policy, the second has the KL kl on this rank and 1/8 over both ranks.
\<close>

definition rank_obs :: "rat \<Rightarrow> mini_obs list list" where
  "rank_obs kl = [[good_mini 0 0, good_mini kl (1 / 8)], [good_mini (1 / 20) (1 / 20), good_mini (1 / 20) (1 / 20)]]"

definition rank_update :: "rat \<Rightarrow> nat result \<times> update_state" where
  "rank_update kl =
     update_fpo_policy (critic_free ''post_epoch'' False) 16 32 5 ''grpo_outcome'' ''group_equal'' (rank_obs kl)
       fresh_worker"

text \<open>
  In the default post_epoch mode the early stop looks at the KL of the rank's own shard,
  which no collective reduces. Under an accepted configuration two ranks of one update, with
  the same reduced statistics in every mini-batch, both finish without an error, one after a
  single epoch and the other after two: the second enters the collectives of an epoch the
  first never joins.
\<close>

theorem post_epoch_stop_is_rank_local:
  "fpo_actor_post_init (critic_free ''post_epoch'' False) = Inr () \<and>
   map (map mi_global_kl) (rank_obs 0) = map (map mi_global_kl) (rank_obs (1 / 4)) \<and>
   map (map mi_weight) (rank_obs 0) = map (map mi_weight) (rank_obs (1 / 4)) \<and>
   fst (rank_update (1 / 4)) = Inr 1 \<and> fst (rank_update 0) = Inr 2"
  by (intro conjI; code_simp)

section \<open>The loss over all ranks\<close>

record micro_batch =
  mb_log_ratio :: "rat list"
  mb_advantages :: "rat list"
  mb_valids :: "bool list"
  mb_weights :: "rat list"

text \<open>
  What one optimizer step descends: each rank sums the losses of its micro-batches, all divided
  by the shared denominator, and the data-parallel engine averages over the ranks.
\<close>

definition rank_objective :: "(rat \<Rightarrow> rat) \<Rightarrow> rat \<Rightarrow> rat \<Rightarrow> micro_batch list \<Rightarrow> rat" where
  "rank_objective expf clip den micros =
     sum_list (map (\<lambda>m. pl_loss (clipped_policy_loss expf clip (mb_log_ratio m) (mb_advantages m) (mb_valids m)
                  (Some (mb_weights m)) (Some den))) micros)"

definition data_parallel_objective :: "(rat \<Rightarrow> rat) \<Rightarrow> rat \<Rightarrow> micro_batch list list \<Rightarrow> rat" where
  "data_parallel_objective expf clip ranks =
     (let den = distributed_gradient_mean_denominator (map (concat \<circ> map mb_weights) ranks)
      in sum_list (map (rank_objective expf clip den) ranks) / of_nat (length ranks))"

definition micro_ok :: "micro_batch \<Rightarrow> bool" where
  "micro_ok m \<longleftrightarrow>
     length (mb_advantages m) = length (mb_log_ratio m) \<and> length (mb_valids m) = length (mb_log_ratio m) \<and>
     length (mb_weights m) = length (mb_log_ratio m) \<and>
     (\<forall>i < length (mb_log_ratio m). \<not> mb_valids m ! i \<longrightarrow> mb_weights m ! i = 0)"

text \<open>The loss of every physical slot with its weight.\<close>

definition micro_cells :: "(rat \<Rightarrow> rat) \<Rightarrow> rat \<Rightarrow> micro_batch \<Rightarrow> (rat \<times> rat) list" where
  "micro_cells expf clip m =
     zip (map2 (ppo_element clip) (mb_advantages m) (map expf (mb_log_ratio m))) (mb_weights m)"

definition all_cells :: "(rat \<Rightarrow> rat) \<Rightarrow> rat \<Rightarrow> micro_batch list list \<Rightarrow> (rat \<times> rat) list" where
  "all_cells expf clip ranks = concat (map (micro_cells expf clip) (concat ranks))"

definition cell_sum :: "(rat \<times> rat) list \<Rightarrow> rat" where
  "cell_sum cs = sum_list (map (\<lambda>(l, w). l * w) cs)"

definition cell_weight :: "(rat \<times> rat) list \<Rightarrow> rat" where
  "cell_weight cs = sum_list (map snd cs)"

lemma cell_sums_append [simp]:
  "cell_sum (xs @ ys) = cell_sum xs + cell_sum ys" "cell_weight (xs @ ys) = cell_weight xs + cell_weight ys"
  by (simp_all add: cell_sum_def cell_weight_def)

lemma cell_sums_Nil [simp]: "cell_sum [] = 0" "cell_weight [] = 0"
  by (simp_all add: cell_sum_def cell_weight_def)

lemma valid_weights:
  assumes "micro_ok m"
  shows "chunk_weights (mb_valids m) (Some (mb_weights m)) = mb_weights m"
proof (rule nth_equalityI)
  show "length (chunk_weights (mb_valids m) (Some (mb_weights m))) = length (mb_weights m)"
    using assms by (simp add: chunk_weights_def micro_ok_def)
next
  fix i
  assume "i < length (chunk_weights (mb_valids m) (Some (mb_weights m)))"
  with assms show "chunk_weights (mb_valids m) (Some (mb_weights m)) ! i = mb_weights m ! i"
    by (cases "mb_valids m ! i") (auto simp: chunk_weights_def micro_ok_def)
qed

lemma micro_loss:
  assumes "micro_ok m"
  shows "pl_loss (clipped_policy_loss expf clip (mb_log_ratio m) (mb_advantages m) (mb_valids m)
     (Some (mb_weights m)) (Some den)) = cell_sum (micro_cells expf clip m) / max den 1"
  using valid_weights [OF assms]
  by (simp add: clipped_policy_loss_def Let_def loss_denominator_def weighted_def cell_sum_def micro_cells_def)

lemma rank_objective_cells:
  "\<forall>m \<in> set micros. micro_ok m \<Longrightarrow>
   rank_objective expf clip den micros = cell_sum (concat (map (micro_cells expf clip) micros)) / max den 1"
  by (induction micros) (auto simp: rank_objective_def micro_loss add_divide_distrib)

lemma cell_weights:
  "\<forall>m \<in> set micros. micro_ok m \<Longrightarrow>
   cell_weight (concat (map (micro_cells expf clip) micros)) = sum_list (concat (map mb_weights micros))"
  by (induction micros) (auto simp: cell_weight_def micro_cells_def micro_ok_def)

lemma objective_over_cells:
  assumes "ranks \<noteq> []" and "\<forall>micros \<in> set ranks. \<forall>m \<in> set micros. micro_ok m"
  shows "data_parallel_objective expf clip ranks =
    cell_sum (all_cells expf clip ranks) / max (cell_weight (all_cells expf clip ranks)) (of_nat (length ranks))"
proof -
  let ?w = "cell_weight (all_cells expf clip ranks)" and ?n = "of_nat (length ranks) :: rat"
  have n: "0 < ?n" using assms(1) by simp
  have den: "sum_list (map sum_list (map (concat \<circ> map mb_weights) rs)) = cell_weight (all_cells expf clip rs)"
    and obj: "sum_list (map (rank_objective expf clip d) rs) = cell_sum (all_cells expf clip rs) / max d 1"
    if "\<forall>micros \<in> set rs. \<forall>m \<in> set micros. micro_ok m" for rs d
    using that by (induction rs) (auto simp: all_cells_def cell_weights rank_objective_cells add_divide_distrib)
  have d: "distributed_gradient_mean_denominator (map (concat \<circ> map mb_weights) ranks) = ?w / ?n"
    using den [OF assms(2)] by (simp add: distributed_gradient_mean_denominator_def)
  have "max (?w / ?n) 1 * ?n = max ?w ?n" using n by (simp add: max_mult_distrib_right)
  then show ?thesis
    unfolding data_parallel_objective_def Let_def d obj [OF assms(2)] by (simp add: divide_divide_eq_left)
qed

lemma cell_sum_filter:
  "cell_sum (filter (\<lambda>(l, w). w \<noteq> 0) cs) = cell_sum cs" "cell_weight (filter (\<lambda>(l, w). w \<noteq> 0) cs) = cell_weight cs"
  by (induction cs) (auto simp: cell_sum_def cell_weight_def)

lemma cell_sum_mset: "cell_sum cs = (\<Sum>(l, w) \<in># mset cs. l * w)" "cell_weight cs = (\<Sum>c \<in># mset cs. snd c)"
  by (simp_all add: cell_sum_def cell_weight_def sum_mset_sum_list flip: mset_map)

lemma same_cells:
  assumes "mset (filter (\<lambda>(l, w). w \<noteq> 0) as) = mset (filter (\<lambda>(l, w). w \<noteq> 0) bs)"
  shows "cell_sum as = cell_sum bs" "cell_weight as = cell_weight bs"
  using assms cell_sum_filter [of as] cell_sum_filter [of bs] by (metis cell_sum_mset)+

lemma grid_cells:
  assumes "list_all2 (\<lambda>l w. length l = length w) losses ws"
  shows "cell_sum (concat (map2 zip losses ws)) = weighted_total ws losses"
    "cell_weight (concat (map2 zip losses ws)) = sum_list (map sum_list ws)"
proof -
  have row: "cell_sum (zip l w) = sum_list (map2 (*) w l)" for l w :: "rat list"
    by (induction l w rule: list_induct2') (auto simp: cell_sum_def)
  show "cell_sum (concat (map2 zip losses ws)) = weighted_total ws losses"
    using assms by (induction rule: list_all2_induct) (auto simp: weighted_total_def row)
  show "cell_weight (concat (map2 zip losses ws)) = sum_list (map sum_list ws)"
    using assms by (induction rule: list_all2_induct) (auto simp: cell_weight_def)
qed

lemma total_weight_positive:
  assumes "advantage_ready source reduction n rs xs s valids d"
  shows "0 < sum_list (map sum_list (weight_grid reduction n rs valids))"
proof -
  let ?cs = "map (scale_of reduction rs) rs"
  note ready = assms [unfolded advantage_ready_def]
  have "count_list (map ag_task_name rs) (ag_task_name r) \<noteq> 0" if "r \<in> set rs" for r
    using that by (auto simp: count_list_0_iff)
  then have pos: "0 < scale_of reduction rs r" if "r \<in> set rs" for r
    using that by (auto simp: scale_of_def)
  have "sum_list (map sum_list (weight_grid reduction n rs valids)) = (\<Sum>g<length ?cs. ?cs ! g * of_nat n)"
    unfolding weight_grid_def using ready by (intro total_weight) auto
  also have "0 < \<dots>" using ready pos by (intro sum_pos) auto
  finally show ?thesis .
qed

text \<open>
  C12. What an actor step descends, end to end. Take the loss weights the trainer wrote for an
  accepted batch, and any distribution of the weighted policy chunks over ranks and
  micro-batches, padding chunks of weight zero included. If the total weight is at least the
  number of ranks, the loss averaged by the data-parallel engine is exactly the hierarchical
  mean of the clipped chunk losses; below that, the floor of one on the denominator scales it
  down by the ratio of the two.
\<close>

theorem data_parallel_loss_is_the_hierarchical_mean:
  assumes "centres_per_group norm_adv" and "advantage_ready source reduction n rs xs s valids d"
    and "apply_grpo_outcome_advantages norm_adv std d None (Some rs) n source reduction = Inr (out, diag)"
    and "dp_get ''fpo.loss_weights'' out = Inr (of_grid2 s (map (map Fin) ws))"
    and "list_all2 (\<lambda>l w. length l = length w) losses ws"
    and "ranks \<noteq> []" and "\<forall>micros \<in> set ranks. \<forall>m \<in> set micros. micro_ok m"
    and "mset (filter (\<lambda>(l, w). w \<noteq> 0) (all_cells expf clip ranks)) =
         mset (filter (\<lambda>(l, w). w \<noteq> 0) (concat (map2 zip losses ws)))"
  shows "data_parallel_objective expf clip ranks =
    hierarchical_mean reduction n rs valids losses *
      (if of_nat (length ranks) \<le> sum_list (map sum_list ws) then 1
       else sum_list (map sum_list ws) / of_nat (length ranks))"
proof -
  have "map (map Fin) ws = map (map Fin) (weight_grid reduction n rs valids)"
    using assignment_succeeds [OF assms(1,2), of std] assms(3,4) by (auto simp: of_grid2_def)
  then have ws: "ws = weight_grid reduction n rs valids"
    by (simp add: inj_map_eq_map inj_def)
  have "length losses = length valids"
    using list_all2_lengthD [OF assms(5)] assms(2) by (simp add: ws weight_grid_def advantage_ready_def)
  with assms(2) have mean: "weighted_total ws losses / sum_list (map sum_list ws) =
      hierarchical_mean reduction n rs valids losses"
    unfolding ws by (rule weighted_mean_is_hierarchical)
  have pos: "0 < sum_list (map sum_list ws)" unfolding ws by (rule total_weight_positive [OF assms(2)])
  have "data_parallel_objective expf clip ranks =
      weighted_total ws losses / max (sum_list (map sum_list ws)) (of_nat (length ranks))"
    using objective_over_cells [OF assms(6,7)] same_cells [OF assms(8)] grid_cells [OF assms(5)] by simp
  then show ?thesis using pos mean by (auto simp: max_def divide_simps)
qed

definition sample_micro :: "rat list \<Rightarrow> bool list \<Rightarrow> rat list \<Rightarrow> micro_batch" where
  "sample_micro advantages valids ws =
     \<lparr>mb_log_ratio = map (\<lambda>_. 0) ws, mb_advantages = advantages, mb_valids = valids, mb_weights = ws\<rparr>"

definition sample_ranks :: "micro_batch list list" where
  "sample_ranks =
     [[sample_micro [-1/2, -1/2, 1/2] [True, True, True] [1/4, 1/4, 1/2],
       sample_micro [0, 1/2, 0] [False, True, False] [0, 1/2, 0]],
      [sample_micro [-1/2, -1/2, 1/2, 1/2] [True, True, True, True] [1/4, 1/4, 1/2, 1/2],
       sample_micro [-1/2, -1/2] [True, True] [1/2, 1/2]]]"

definition sample_losses :: "rat list list" where
  "sample_losses = [[1/2, 1/2], [-1/2, 0], [-1/2, 0], [1/2, 1/2], [-1/2, -1/2], [1/2, 1/2]]"

definition sample_weights :: "rat list list" where
  "sample_weights = [[1/4, 1/4], [1/2, 0], [1/2, 0], [1/4, 1/4], [1/2, 1/2], [1/2, 1/2]]"

theorem data_parallel_loss_is_the_hierarchical_mean_witness:
  "data_parallel_objective (\<lambda>x. 1 + x) (1 / 100) sample_ranks =
     hierarchical_mean ''task_equal'' 2 sample_groups sample_valids sample_losses"
proof -
  obtain out diag where out: "apply_grpo_outcome_advantages centre_scores (\<lambda>_. Fin 1) sample_actor_input None
      (Some sample_groups) 2 ''binary_success'' ''task_equal'' = Inr (out, diag)"
    and w: "dp_get ''fpo.loss_weights'' out =
      Inr (of_grid2 2 (map (map Fin) (weight_grid ''task_equal'' 2 sample_groups sample_valids)))"
    using assignment_succeeds [OF centre_scores_centres sample_ready, of "\<lambda>_. Fin 1"] by blast
  have grid: "weight_grid ''task_equal'' 2 sample_groups sample_valids = sample_weights" by code_simp
  have shape: "list_all2 (\<lambda>l w. length l = length w) sample_losses sample_weights" by code_simp
  have ok: "\<forall>micros \<in> set sample_ranks. \<forall>m \<in> set micros. micro_ok m"
    by (simp add: sample_ranks_def sample_micro_def micro_ok_def All_less_Suc eval_nat_numeral)
  have cells: "filter (\<lambda>(l, w). w \<noteq> 0) (all_cells (\<lambda>x. 1 + x) (1 / 100) sample_ranks) =
      filter (\<lambda>(l, w). w \<noteq> 0) (concat (map2 zip sample_losses sample_weights))" by code_simp
  have "sample_ranks \<noteq> []" "of_nat (length sample_ranks) \<le> sum_list (map sum_list sample_weights)"
    by (simp_all add: sample_ranks_def sample_weights_def)
  then show ?thesis
    using data_parallel_loss_is_the_hierarchical_mean
      [OF centre_scores_centres sample_ready out w [unfolded grid] shape _ ok arg_cong [OF cells, of mset]] by simp
qed

end
