(* ===== verification/Group_Validation.thy ===== *)
theory Group_Validation
  imports Prelude
begin

text \<open>
  trainer/grfpo/group_validation.py: the checks a candidate group passes before it is
  committed. A rollout of B trajectories is the record \<open>rollout\<close>: per-trajectory tensors
  are lists with one entry per trajectory (a state tensor keeps its trailing shape and the
  flattened rows), step tensors are B x S x C nested lists, and the non-tensor columns are
  one- or many-dimensional, as numpy arrays of that field can be.
\<close>

section \<open>Batches\<close>

record ftensor =
  t_trail :: "nat list"
  t_rows :: "pyfloat list list"

definition t_shape :: "ftensor \<Rightarrow> nat list" where
  "t_shape t = length (t_rows t) # t_trail t"

datatype 'a column = Col1 "'a list" | ColN "'a list list"

record rollout =
  ro_len :: nat
  ro_state :: "(string \<times> ftensor) list"
  ro_ints :: "(string \<times> int column) list"
  ro_strs :: "(string \<times> string column) list"
  ro_success :: "bool list list list"
  ro_terminated :: "bool list list list"
  ro_truncated :: "bool list list list"
  ro_score :: "pyfloat list list list option"

section \<open>State integrity\<close>

record tensor_diagnostics =
  td_name :: string
  td_shape :: "nat list"
  td_absmax :: "rat option"
  td_nonfinite :: nat

record integrity =
  ig_valid :: bool
  ig_absmax :: rat
  ig_limit :: pyfloat
  ig_nonfinite :: nat
  ig_offending :: "nat list"
  ig_tensors :: "tensor_diagnostics list"

fun pf_abs :: "pyfloat \<Rightarrow> pyfloat" where
  "pf_abs (Fin a) = Fin \<bar>a\<bar>"
| "pf_abs PosInf = PosInf"
| "pf_abs NegInf = PosInf"
| "pf_abs NaN = NaN"

definition pf_max :: "pyfloat \<Rightarrow> pyfloat \<Rightarrow> pyfloat" where
  "pf_max a b = (if pf_less a b then b else a)"

definition safe_abs :: "pyfloat \<Rightarrow> pyfloat" where
  "safe_abs x = (if pf_isfinite x then pf_abs x else PosInf)"

definition row_absmax :: "pyfloat list \<Rightarrow> pyfloat" where
  "row_absmax row = foldl pf_max (safe_abs (hd row)) (map safe_abs (tl row))"

definition row_offending :: "pyfloat \<Rightarrow> pyfloat list \<Rightarrow> bool" where
  "row_offending limit row \<longleftrightarrow>
     list_ex (\<lambda>x. \<not> pf_isfinite x) row \<or> pf_less limit (row_absmax row)"

definition finite_abs_values :: "ftensor \<Rightarrow> rat list" where
  "finite_abs_values t = map (\<lambda>x. \<bar>pf_val x\<bar>) (filter pf_isfinite (concat (t_rows t)))"

definition tensor_absmax :: "ftensor \<Rightarrow> rat option" where
  "tensor_absmax t =
     (case finite_abs_values t of [] \<Rightarrow> None | v # vs \<Rightarrow> Some (foldl max v vs))"

definition tensor_nonfinite :: "ftensor \<Rightarrow> nat" where
  "tensor_nonfinite t = length (filter (\<lambda>x. \<not> pf_isfinite x) (concat (t_rows t)))"

definition diagnose :: "string \<Rightarrow> ftensor \<Rightarrow> tensor_diagnostics" where
  "diagnose name t = \<lparr>td_name = name, td_shape = t_shape t, td_absmax = tensor_absmax t,
                      td_nonfinite = tensor_nonfinite t\<rparr>"

text \<open>The state tensor has a trajectory dimension and at least one more; an empty row has no maximum.\<close>

definition check_state :: "nat \<Rightarrow> ftensor \<Rightarrow> unit result" where
  "check_state batch_size t =
     (if t_trail t = [] \<or> length (t_rows t) \<noteq> batch_size then Inl ValueError
      else if batch_size = 0 \<or> list_ex (\<lambda>r. r = []) (t_rows t) then Inl RuntimeError
      else Inr ())"

definition find_tensor :: "string list \<Rightarrow> (string \<times> ftensor) list \<Rightarrow> (string \<times> ftensor) option" where
  "find_tensor keys batch =
     (case filter (\<lambda>k. map_of batch k \<noteq> None) keys of
        [] \<Rightarrow> None
      | k # _ \<Rightarrow> Some (k, the (map_of batch k)))"

definition integrity_tensors ::
  "rollout \<Rightarrow> (string \<times> ftensor) list option \<Rightarrow> (string \<times> ftensor) list result" where
  "integrity_tensors r end_obs =
     (case find_tensor [''obs.observation.state'', ''obs.state''] (ro_state r) of
        None \<Rightarrow> Inl KeyError
      | Some kt \<Rightarrow>
          Inr (kt # (case end_obs of None \<Rightarrow> []
                     | Some batch \<Rightarrow>
                         (case find_tensor [''state'', ''observation.state''] batch of
                            None \<Rightarrow> []
                          | Some (k, t) \<Rightarrow> [(''rollout_end_obs.'' @ k, t)]))))"

definition offending_mask :: "pyfloat \<Rightarrow> nat \<Rightarrow> ftensor list \<Rightarrow> bool list" where
  "offending_mask limit n ts =
     map (\<lambda>i. list_ex (\<lambda>t. row_offending limit (t_rows t ! i)) ts) [0..<n]"

definition mask_indices :: "bool list \<Rightarrow> nat list" where
  "mask_indices m = filter (\<lambda>i. m ! i) [0..<length m]"

definition inspect_rollout_state_integrity ::
  "rollout \<Rightarrow> (string \<times> ftensor) list option \<Rightarrow> pyfloat \<Rightarrow> integrity result" where
  "inspect_rollout_state_integrity r end_obs limit =
     (if \<not> pf_isfinite limit \<or> \<not> pf_less (Fin 0) limit then Inl ValueError
      else bind_res (integrity_tensors r end_obs) (\<lambda>ts.
        bind_res (traverse (\<lambda>(_, t). check_state (ro_len r) t) ts) (\<lambda>_.
          let mask = offending_mask limit (ro_len r) (map snd ts) in
          Inr \<lparr>ig_valid = \<not> list_ex id mask,
               ig_absmax = foldl (\<lambda>m (_, t). case tensor_absmax t of None \<Rightarrow> m | Some a \<Rightarrow> max m a) 0 ts,
               ig_limit = limit,
               ig_nonfinite = sum_list (map (tensor_nonfinite \<circ> snd) ts),
               ig_offending = mask_indices mask,
               ig_tensors = map (\<lambda>(k, t). diagnose k t) ts\<rparr>)))"

section \<open>Per-trajectory metadata\<close>

definition is_space :: "char \<Rightarrow> bool" where
  "is_space c \<longleftrightarrow> (let n = (of_char c :: nat) in (9 \<le> n \<and> n \<le> 13) \<or> (28 \<le> n \<and> n \<le> 32))"

text \<open>\<open>str.split()\<close>: maximal runs of characters that are not blank.\<close>

function split_words :: "string \<Rightarrow> string list" where
  "split_words s =
     (let rest = dropWhile is_space s in
      if rest = [] then []
      else takeWhile (\<lambda>c. \<not> is_space c) rest # split_words (dropWhile (\<lambda>c. \<not> is_space c) rest))"
  by pat_completeness auto

lemma split_words_decreases:
  "dropWhile is_space s \<noteq> [] \<Longrightarrow>
   length (dropWhile (\<lambda>c. \<not> is_space c) (dropWhile is_space s)) < length s"
proof -
  assume ne: "dropWhile is_space s \<noteq> []"
  then obtain c cs where eq: "dropWhile is_space s = c # cs" by (cases "dropWhile is_space s") auto
  then have "\<not> is_space c" by (metis hd_dropWhile list.discI list.sel(1))
  then have "length (dropWhile (\<lambda>c. \<not> is_space c) (c # cs)) \<le> length cs"
    by (simp add: length_dropWhile_le)
  also have "\<dots> < length (dropWhile is_space s)" by (simp add: eq)
  also have "\<dots> \<le> length s" by (rule length_dropWhile_le)
  finally show ?thesis by (simp add: eq)
qed

termination split_words
  by (relation "measure length") (auto simp: split_words_decreases)

declare split_words.simps [simp del]

fun join_words :: "string list \<Rightarrow> string" where
  "join_words [] = []"
| "join_words [w] = w"
| "join_words (w # ws) = w @ '' '' @ join_words ws"

definition casefold_char :: "char \<Rightarrow> char" where
  "casefold_char c =
     (if 65 \<le> (of_char c :: nat) \<and> (of_char c :: nat) \<le> 90 then char_of (of_char c + (32::nat)) else c)"

definition normalized_instruction :: "string \<Rightarrow> string" where
  "normalized_instruction s = map casefold_char (join_words (split_words s))"

definition constant_row :: "'a list \<Rightarrow> 'a result" where
  "constant_row row =
     (case row of [] \<Rightarrow> Inl IndexError
      | x # xs \<Rightarrow> if list_ex (\<lambda>y. y \<noteq> x) xs then Inl ValueError else Inr x)"

definition constant_trajectory_values ::
  "nat \<Rightarrow> (string \<times> 'a column) list \<Rightarrow> string \<Rightarrow> 'a list result" where
  "constant_trajectory_values n cols key =
     (case map_of cols key of
        None \<Rightarrow> Inl KeyError
      | Some (Col1 xs) \<Rightarrow> if length xs \<noteq> n then Inl ValueError else Inr xs
      | Some (ColN rows) \<Rightarrow> if length rows \<noteq> n then Inl ValueError else traverse constant_row rows)"

section \<open>Terminal scores\<close>

definition done_rows :: "rollout \<Rightarrow> bool list list" where
  "done_rows r = map2 (map2 (\<or>)) (map concat (ro_terminated r)) (map concat (ro_truncated r))"

fun first_true :: "bool list \<Rightarrow> nat option" where
  "first_true [] = None"
| "first_true (b # bs) = (if b then Some 0 else map_option Suc (first_true bs))"

definition terminal_score :: "pyfloat list \<Rightarrow> bool list \<Rightarrow> rat result" where
  "terminal_score score_row done_row =
     (if score_row = [] then Inl IndexError
      else Inr (pf_val (score_row !
             (case first_true done_row of Some i \<Rightarrow> i | None \<Rightarrow> length score_row - 1))))"

definition terminal_trajectory_scores :: "rollout \<Rightarrow> rat list result" where
  "terminal_trajectory_scores r =
     (case ro_score r of
        None \<Rightarrow> Inl KeyError
      | Some sc \<Rightarrow>
          let scores = map concat sc; dones = done_rows r in
          if map length scores \<noteq> map length dones then Inl ValueError
          else if \<not> list_all pf_isfinite (concat scores) then Inl FloatingPointError
          else traverse (\<lambda>(s, d). terminal_score s d) (zip scores dones))"

section \<open>The group record\<close>

datatype reward_source = Binary_Success | Process_Score | Other_Source string

datatype criterion = C_Binary_Success | C_Full_Success_Mixed | C_Reward_Variance | Other_Criterion string

type_synonym group_key = "int \<times> string \<times> int \<times> int \<times> int"

datatype reason =
    Mixed_Full_Success | Not_Mixed_Full_Success | Score_Variance_With_Full_Success
  | Score_Variance_Partial_Only | Partial_Only_Below_Minimum | Zero_Training_Reward_Variance

record group_record =
  g_group_id :: string
  g_key :: group_key
  g_version :: int
  g_policy_seeds :: "int list"
  g_reward_source :: reward_source
  g_reward_vector :: "rat list"
  g_binary_vector :: "int list"
  g_process_vector :: "rat list"
  g_successes :: nat
  g_partial_only :: nat
  g_partial_or_better :: nat
  g_binary_mixed :: bool
  g_reward_varies :: bool
  g_informative :: bool
  g_reason :: reason

definition trajectory_success :: "rollout \<Rightarrow> bool list" where
  "trajectory_success r = map (\<lambda>steps. list_ex id (concat steps)) (ro_success r)"

definition to_float :: "bool \<Rightarrow> rat" where
  "to_float b = (if b then 1 else 0)"

definition with_success_reward :: "bool list \<Rightarrow> rat list \<Rightarrow> rat list" where
  "with_success_reward successes scores = map2 (\<lambda>s x. if s then 1 else x) successes scores"

definition rewards_vary :: "rat list \<Rightarrow> bool" where
  "rewards_vary rs \<longleftrightarrow> \<not> list_all (\<lambda>x. \<bar>x - hd rs\<bar> \<le> 1 / 10 ^ 7) rs"

definition informative_decision ::
  "criterion \<Rightarrow> nat \<Rightarrow> bool \<Rightarrow> bool \<Rightarrow> nat \<Rightarrow> int \<Rightarrow> bool \<times> reason" where
  "informative_decision crit full mixed varies partial_only min_partial =
     (if crit = C_Binary_Success \<or> crit = C_Full_Success_Mixed then
        (mixed, if mixed then Mixed_Full_Success else Not_Mixed_Full_Success)
      else
        let minimum_met = 0 < full \<or> min_partial \<le> int partial_only;
            informative = varies \<and> minimum_met
        in (informative,
            if informative \<and> 0 < full then Score_Variance_With_Full_Success
            else if informative then Score_Variance_Partial_Only
            else if varies then Partial_Only_Below_Minimum
            else Zero_Training_Reward_Variance))"

definition check_sources :: "reward_source \<Rightarrow> criterion \<Rightarrow> unit result" where
  "check_sources src crit =
     (if src \<noteq> Binary_Success \<and> src \<noteq> Process_Score then Inl ValueError
      else if crit \<noteq> C_Binary_Success \<and> crit \<noteq> C_Full_Success_Mixed \<and> crit \<noteq> C_Reward_Variance
        then Inl ValueError
      else if crit = C_Reward_Variance \<and> src \<noteq> Process_Score then Inl ValueError
      else Inr ())"

record group_metadata =
  m_keys :: "group_key list"
  m_suites :: "int list"
  m_layouts :: "int list"
  m_seeds :: "int list"

definition group_metadata_of :: "rollout \<Rightarrow> group_metadata result" where
  "group_metadata_of r =
     (let ints = constant_trajectory_values (ro_len r) (ro_ints r) in
      bind_res (ints ''obs.task_id'') (\<lambda>task_ids.
      bind_res (ints ''obs.suite_id'') (\<lambda>suite_ids.
      bind_res (constant_trajectory_values (ro_len r) (ro_strs r) ''obs.task'') (\<lambda>tasks.
      bind_res (ints ''obs.layout_id'') (\<lambda>layout_ids.
      bind_res (ints ''obs.environment_seed'') (\<lambda>env_seeds.
      bind_res (ints ''obs.policy_seed'') (\<lambda>policy_seeds.
        Inr \<lparr>m_keys = zip task_ids (zip (map normalized_instruction tasks)
                         (zip suite_ids (zip layout_ids env_seeds))),
             m_suites = suite_ids, m_layouts = layout_ids, m_seeds = policy_seeds\<rparr>)))))))"

definition check_condition ::
  "int \<Rightarrow> int option \<Rightarrow> int list option \<Rightarrow> group_metadata \<Rightarrow> unit result" where
  "check_condition group_size expected_suite allowed_layouts m =
     (if length (remdups (m_keys m)) \<noteq> 1 then Inl ValueError
      else if int (length (remdups (m_seeds m))) \<noteq> group_size then Inl ValueError
      else if (case expected_suite of None \<Rightarrow> False
               | Some s \<Rightarrow> list_ex (\<lambda>x. x \<noteq> s) (m_suites m)) then Inl ValueError
      else if (case allowed_layouts of None \<Rightarrow> False
               | Some ls \<Rightarrow> list_ex (\<lambda>x. x \<notin> set ls) (m_layouts m)) then Inl ValueError
      else Inr ())"

definition process_scores_of :: "reward_source \<Rightarrow> rollout \<Rightarrow> rat list result" where
  "process_scores_of src r =
     (let binary = map to_float (trajectory_success r) in
      bind_res (if src = Process_Score then terminal_trajectory_scores r
                else if ro_score r \<noteq> None then terminal_trajectory_scores r
                else Inr binary)
        (\<lambda>scores. Inr (with_success_reward (trajectory_success r) scores)))"

definition annotate_group :: "string \<Rightarrow> int \<Rightarrow> int \<Rightarrow> string \<Rightarrow> rollout \<Rightarrow> rollout" where
  "annotate_group group_id version group_size key_text r =
     (let n = nat group_size; slots = length (hd (ro_success r)) in
      r\<lparr>ro_strs :=
          AList.update ''obs.group_key'' (ColN (replicate n (replicate slots key_text)))
          (AList.update ''obs.trajectory_id''
             (ColN (map (\<lambda>i. replicate slots (group_id @ ''/trajectory-'' @ nat_str i)) [0..<n]))
          (AList.update ''obs.group_id'' (ColN (replicate n (replicate slots group_id))) (ro_strs r))),
        ro_ints :=
          AList.update ''obs.rollout_policy_version'' (ColN (replicate n (replicate slots version)))
            (ro_ints r)\<rparr>)"

record group_options =
  o_group_size :: int
  o_group_id :: string
  o_version :: int
  o_source :: reward_source
  o_criterion :: criterion
  o_min_partial :: int
  o_threshold :: rat
  o_suite :: "int option"
  o_layouts :: "int list option"

definition build_group_record ::
  "group_options \<Rightarrow> group_metadata \<Rightarrow> bool list \<Rightarrow> rat list \<Rightarrow> group_record" where
  "build_group_record opt m successes process =
     (let binary = map to_float successes;
          training = (if o_source opt = Binary_Success then binary else process);
          full = length (filter id successes);
          mixed = (0 < full \<and> int full < o_group_size opt);
          partial_only = length (filter (\<lambda>(s, x). \<not> s \<and> o_threshold opt \<le> x) (zip successes process));
          varies = rewards_vary training;
          decision = informative_decision (o_criterion opt) full mixed varies partial_only (o_min_partial opt)
      in \<lparr>g_group_id = o_group_id opt, g_key = hd (m_keys m), g_version = o_version opt,
          g_policy_seeds = m_seeds m, g_reward_source = o_source opt,
          g_reward_vector = training, g_binary_vector = map (\<lambda>b. if b then 1 else 0) successes,
          g_process_vector = process, g_successes = full, g_partial_only = partial_only,
          g_partial_or_better = length (filter (\<lambda>x. o_threshold opt \<le> x) process),
          g_binary_mixed = mixed, g_reward_varies = varies,
          g_informative = fst decision, g_reason = snd decision\<rparr>)"

text \<open>
  \<open>key_text\<close> stands for \<open>json.dumps\<close> of the group key, a label that no check reads back.
\<close>

definition validate_same_condition_group ::
  "(group_key \<Rightarrow> string) \<Rightarrow> group_options \<Rightarrow> rollout \<Rightarrow> (group_record \<times> rollout) result" where
  "validate_same_condition_group key_text opt r =
     (if int (ro_len r) \<noteq> o_group_size opt then Inl ValueError
      else bind_res (group_metadata_of r) (\<lambda>m.
        bind_res (check_condition (o_group_size opt) (o_suite opt) (o_layouts opt) m) (\<lambda>_.
        bind_res (check_sources (o_source opt) (o_criterion opt)) (\<lambda>_.
        bind_res (process_scores_of (o_source opt) r) (\<lambda>process.
          Inr (build_group_record opt m (trajectory_success r) process,
               annotate_group (o_group_id opt) (o_version opt) (o_group_size opt)
                 (key_text (hd (m_keys m))) r))))))"

section \<open>Lemmas: the integrity check\<close>

lemma pf_less_max:
  "a \<noteq> NaN \<Longrightarrow> b \<noteq> NaN \<Longrightarrow> pf_less l (pf_max a b) \<longleftrightarrow> pf_less l a \<or> pf_less l b"
  by (cases a; cases b; cases l) (auto simp: pf_max_def)

lemma pf_max_not_NaN: "a \<noteq> NaN \<Longrightarrow> b \<noteq> NaN \<Longrightarrow> pf_max a b \<noteq> NaN"
  by (simp add: pf_max_def)

lemma pf_less_foldl_max:
  "a \<noteq> NaN \<Longrightarrow> NaN \<notin> set xs \<Longrightarrow>
   pf_less l (foldl pf_max a xs) \<longleftrightarrow> pf_less l a \<or> (\<exists>x \<in> set xs. pf_less l x)"
  by (induction xs arbitrary: a) (auto simp: pf_less_max pf_max_not_NaN)

lemma safe_abs_not_NaN [simp]: "safe_abs x \<noteq> NaN"
  by (cases x) (auto simp: safe_abs_def)

lemma pf_less_row_absmax:
  assumes "row \<noteq> []"
  shows "pf_less l (row_absmax row) \<longleftrightarrow> (\<exists>x \<in> set row. pf_less l (safe_abs x))"
proof -
  obtain x xs where row: "row = x # xs" using assms by (cases row) auto
  have "NaN \<notin> set (map safe_abs xs)" by (auto dest: sym)
  then show ?thesis by (simp add: row row_absmax_def pf_less_foldl_max)
qed

definition within_limit :: "rat \<Rightarrow> pyfloat \<Rightarrow> bool" where
  "within_limit bnd x \<longleftrightarrow> (\<exists>q. x = Fin q \<and> \<bar>q\<bar> \<le> bnd)"

lemma row_offending_iff:
  "row \<noteq> [] \<Longrightarrow> row_offending (Fin bnd) row \<longleftrightarrow> (\<exists>x \<in> set row. \<not> within_limit bnd x)"
proof -
  assume ne: "row \<noteq> []"
  have one: "\<not> pf_isfinite x \<or> pf_less (Fin bnd) (safe_abs x) \<longleftrightarrow> \<not> within_limit bnd x" for x
    by (cases x) (auto simp: safe_abs_def within_limit_def)
  show ?thesis
    unfolding row_offending_def list_ex_iff pf_less_row_absmax [OF ne] one [symmetric] by blast
qed

lemma check_state_Inr: "check_state n t = Inr u \<Longrightarrow> length (t_rows t) = n \<and> [] \<notin> set (t_rows t)"
  by (auto simp: check_state_def list_ex_iff split: if_splits)

lemma traverse_check_state:
  "traverse (\<lambda>(_, t). check_state n t) ts = Inr us \<Longrightarrow> (k, t) \<in> set ts \<Longrightarrow>
   length (t_rows t) = n \<and> [] \<notin> set (t_rows t)"
proof (induction ts arbitrary: us)
  case (Cons kt ts)
  then show ?case by (auto simp: res_simps split: prod.splits dest: check_state_Inr)
qed simp

lemma offending_mask_false_iff:
  assumes "\<And>t. t \<in> set ts \<Longrightarrow> length (t_rows t) = n \<and> [] \<notin> set (t_rows t)"
  shows "list_ex id (offending_mask (Fin bnd) n ts) \<longleftrightarrow>
         (\<exists>t \<in> set ts. \<exists>row \<in> set (t_rows t). \<exists>x \<in> set row. \<not> within_limit bnd x)"
proof -
  have "list_ex id (offending_mask (Fin bnd) n ts) \<longleftrightarrow>
        (\<exists>t \<in> set ts. \<exists>i < n. row_offending (Fin bnd) (t_rows t ! i))"
    by (simp add: offending_mask_def list_ex_iff Bex_def) blast
  also have "\<dots> \<longleftrightarrow> (\<exists>t \<in> set ts. \<exists>row \<in> set (t_rows t). row_offending (Fin bnd) row)"
    using assms by (metis in_set_conv_nth)
  also have "\<dots> \<longleftrightarrow> (\<exists>t \<in> set ts. \<exists>row \<in> set (t_rows t). \<exists>x \<in> set row. \<not> within_limit bnd x)"
    using assms by (metis row_offending_iff)
  finally show ?thesis .
qed

lemma inspect_Inr_cases:
  assumes "inspect_rollout_state_integrity r e limit = Inr d"
  obtains bnd ts us where "limit = Fin bnd" "0 < bnd" "integrity_tensors r e = Inr ts"
    "traverse (\<lambda>(_, t). check_state (ro_len r) t) ts = Inr us"
    "ig_valid d \<longleftrightarrow> \<not> list_ex id (offending_mask limit (ro_len r) (map snd ts))"
    "ig_offending d = mask_indices (offending_mask limit (ro_len r) (map snd ts))"
proof -
  from assms have bnd: "pf_isfinite limit" "pf_less (Fin 0) limit"
    by (auto simp: inspect_rollout_state_integrity_def split: if_splits)
  then obtain q where q: "limit = Fin q" "0 < q" by (cases limit) auto
  with assms bnd show thesis
    by (auto simp: inspect_rollout_state_integrity_def res_simps Let_def intro!: that [OF q])
qed

lemma inspect_valid_iff:
  assumes "inspect_rollout_state_integrity r e limit = Inr d"
  shows "\<exists>bnd ts. limit = Fin bnd \<and> integrity_tensors r e = Inr ts \<and>
    (ig_valid d \<longleftrightarrow>
       (\<forall>t \<in> snd ` set ts. \<forall>row \<in> set (t_rows t). \<forall>x \<in> set row. within_limit bnd x))"
proof -
  from assms obtain bnd ts us where h: "limit = Fin bnd" "integrity_tensors r e = Inr ts"
    "traverse (\<lambda>(_, t). check_state (ro_len r) t) ts = Inr us"
    "ig_valid d \<longleftrightarrow> \<not> list_ex id (offending_mask limit (ro_len r) (map snd ts))"
    by (rule inspect_Inr_cases)
  have "length (t_rows t) = ro_len r \<and> [] \<notin> set (t_rows t)" if "t \<in> set (map snd ts)" for t
    using that traverse_check_state [OF h(3)] by auto
  note rows = this
  have "ig_valid d \<longleftrightarrow>
      (\<forall>t \<in> snd ` set ts. \<forall>row \<in> set (t_rows t). \<forall>x \<in> set row. within_limit bnd x)"
    using h(4) offending_mask_false_iff [of "map snd ts" "ro_len r" bnd, OF rows]
    unfolding h(1) set_map by blast
  with h(1,2) show ?thesis by blast
qed

section \<open>Lemmas: same-condition groups\<close>

lemma constant_values_length:
  "constant_trajectory_values n cols key = Inr xs \<Longrightarrow> length xs = n"
  by (auto simp: constant_trajectory_values_def traverse_length
      split: option.splits column.splits if_splits)

lemma constant_row_Inr: "constant_row row = Inr x \<Longrightarrow> row \<noteq> [] \<and> set row = {x}"
  by (auto simp: constant_row_def list_ex_iff split: list.splits if_splits)

lemma group_metadata_lengths:
  assumes "group_metadata_of r = Inr m"
  shows "length (m_keys m) = ro_len r" and "length (m_suites m) = ro_len r"
    and "length (m_layouts m) = ro_len r" and "length (m_seeds m) = ro_len r"
  using assms by (auto simp: group_metadata_of_def res_simps Let_def dest!: constant_values_length)

lemma remdups_one_set: "length (remdups xs) = 1 \<Longrightarrow> set xs = {hd xs}"
proof -
  assume "length (remdups xs) = 1"
  then have card: "card (set xs) = 1" by (simp add: length_remdups_card_conv)
  then obtain x where x: "set xs = {x}" by (auto simp: card_1_singleton_iff)
  then have "hd xs \<in> set xs" by (cases xs) auto
  with x show ?thesis by auto
qed

lemma remdups_full_distinct: "length (remdups xs) = length xs \<Longrightarrow> distinct xs"
  by (simp add: length_remdups_card_conv card_distinct)

lemma check_condition_Inr:
  assumes "check_condition n suite layouts m = Inr u"
  shows "set (m_keys m) = {hd (m_keys m)}" and "int (length (remdups (m_seeds m))) = n"
    and "suite = Some s \<Longrightarrow> set (m_suites m) \<subseteq> {s}"
    and "layouts = Some ls \<Longrightarrow> set (m_layouts m) \<subseteq> set ls"
  using assms by (auto simp: check_condition_def list_ex_iff remdups_one_set split: if_splits)

lemma validate_Inr_cases:
  assumes "validate_same_condition_group kt opt r = Inr (g, r')"
  obtains m process where "int (ro_len r) = o_group_size opt" "group_metadata_of r = Inr m"
    "check_condition (o_group_size opt) (o_suite opt) (o_layouts opt) m = Inr ()"
    "check_sources (o_source opt) (o_criterion opt) = Inr ()"
    "process_scores_of (o_source opt) r = Inr process"
    "g = build_group_record opt m (trajectory_success r) process"
    "r' = annotate_group (o_group_id opt) (o_version opt) (o_group_size opt) (kt (hd (m_keys m))) r"
  using assms
  by (auto simp: validate_same_condition_group_def res_simps split: if_splits intro: that)

lemma validated_group_homogeneous:
  assumes "validate_same_condition_group kt opt r = Inr (g, r')"
  shows "\<exists>m. group_metadata_of r = Inr m \<and> length (m_keys m) = nat (o_group_size opt) \<and>
    set (m_keys m) = {g_key g} \<and> g_policy_seeds g = m_seeds m \<and> distinct (g_policy_seeds g) \<and>
    int (length (g_policy_seeds g)) = o_group_size opt \<and>
    (\<forall>s. o_suite opt = Some s \<longrightarrow> set (m_suites m) \<subseteq> {s}) \<and>
    (\<forall>ls. o_layouts opt = Some ls \<longrightarrow> set (m_layouts m) \<subseteq> set ls)"
  using assms
proof (rule validate_Inr_cases)
  fix m process
  assume n: "int (ro_len r) = o_group_size opt" and m: "group_metadata_of r = Inr m"
    and c: "check_condition (o_group_size opt) (o_suite opt) (o_layouts opt) m = Inr ()"
    and g: "g = build_group_record opt m (trajectory_success r) process"
  have "length (remdups (m_seeds m)) = length (m_seeds m)"
    using check_condition_Inr(2) [OF c] n group_metadata_lengths [OF m] by simp
  then have "distinct (m_seeds m)" by (rule remdups_full_distinct)
  with n m g check_condition_Inr [OF c] group_metadata_lengths [OF m] show ?thesis
    by (auto simp: build_group_record_def Let_def)
qed

lemma process_scores_length:
  assumes "process_scores_of src r = Inr process" "ro_score r \<noteq> None \<Longrightarrow> length (the (ro_score r)) = length (ro_success r)"
    "length (ro_terminated r) = length (ro_success r)" "length (ro_truncated r) = length (ro_success r)"
  shows "length process = length (ro_success r)"
  using assms
  by (auto simp: process_scores_of_def res_simps with_success_reward_def trajectory_success_def
      terminal_trajectory_scores_def done_rows_def Let_def traverse_length
      split: if_splits option.splits dest!: traverse_length)

lemma filter_zip_map_fst: "length xs = length ys \<Longrightarrow> filter id xs = map fst (filter (\<lambda>(s, _). s) (zip xs ys))"
  by (induction xs ys rule: list_induct2) auto

lemma mixed_iff:
  "0 < length (filter id bs) \<and> length (filter id bs) < length bs \<longleftrightarrow>
   True \<in> set bs \<and> False \<in> set bs"
proof -
  have "0 < length (filter id bs) \<longleftrightarrow> True \<in> set bs" by (auto simp: filter_empty_conv)
  moreover have "length (filter id bs) < length bs \<longleftrightarrow> False \<in> set bs"
    by (induction bs) (auto simp: less_Suc_eq_le)
  ultimately show ?thesis by blast
qed

lemma rewards_vary_iff:
  assumes "rs \<noteq> []"
  shows "rewards_vary rs \<longleftrightarrow> (\<exists>x \<in> set rs. 1 / 10 ^ 7 < \<bar>x - hd rs\<bar>)"
  by (auto simp: rewards_vary_def list_all_iff not_le)

lemma binary_mixed_varies: "True \<in> set bs \<Longrightarrow> False \<in> set bs \<Longrightarrow> rewards_vary (map to_float bs)"
proof -
  assume tf: "True \<in> set bs" "False \<in> set bs"
  then have ne: "map to_float bs \<noteq> []" by auto
  have "to_float (\<not> hd bs) \<in> set (map to_float bs)" using tf by (cases "hd bs") auto
  moreover have "(1::rat) / 10 ^ 7 < \<bar>to_float (\<not> hd bs) - hd (map to_float bs)\<bar>"
    using ne by (cases "hd bs") (auto simp: hd_map to_float_def)
  ultimately show ?thesis unfolding rewards_vary_iff [OF ne] by blast
qed

section \<open>Properties\<close>

text \<open>
  A rollout passes the integrity inspection exactly when every entry of every inspected
  state tensor (the rollout's raw state and, if present, the terminal state) is finite and
  within the absolute limit, which itself is finite and positive.
\<close>

theorem integrity_valid_iff_bounded:
  assumes "inspect_rollout_state_integrity r e limit = Inr d"
  shows "\<exists>bnd ts. limit = Fin bnd \<and> integrity_tensors r e = Inr ts \<and>
    (ig_valid d \<longleftrightarrow>
       (\<forall>t \<in> snd ` set ts. \<forall>row \<in> set (t_rows t). \<forall>x \<in> set row. within_limit bnd x))"
  using assms by (rule inspect_valid_iff)

text \<open>
  A validated group has exactly the requested number of trajectories, all in one
  environment condition (task, instruction, suite, layout, environment seed), with pairwise
  distinct policy seeds, on the expected suite and inside the allowed layout pool.
\<close>

theorem validated_group_same_condition:
  assumes "validate_same_condition_group kt opt r = Inr (g, r')"
  shows "\<exists>m. group_metadata_of r = Inr m \<and> length (m_keys m) = nat (o_group_size opt) \<and>
    set (m_keys m) = {g_key g} \<and> g_policy_seeds g = m_seeds m \<and> distinct (g_policy_seeds g) \<and>
    int (length (g_policy_seeds g)) = o_group_size opt \<and>
    (\<forall>s. o_suite opt = Some s \<longrightarrow> set (m_suites m) \<subseteq> {s}) \<and>
    (\<forall>ls. o_layouts opt = Some ls \<longrightarrow> set (m_layouts m) \<subseteq> set ls)"
  using assms by (rule validated_group_homogeneous)

text \<open>
  Under either success criterion a group is informative exactly when at least one
  trajectory succeeded and at least one did not.
\<close>

theorem success_criterion_informative_iff:
  assumes "validate_same_condition_group kt opt r = Inr (g, r')"
    and "o_criterion opt = C_Binary_Success \<or> o_criterion opt = C_Full_Success_Mixed"
    and "length (ro_success r) = ro_len r"
  shows "g_informative g \<longleftrightarrow>
    True \<in> set (trajectory_success r) \<and> False \<in> set (trajectory_success r)"
  using assms(1)
proof (rule validate_Inr_cases)
  fix m process
  assume n: "int (ro_len r) = o_group_size opt"
    and g: "g = build_group_record opt m (trajectory_success r) process"
  have "length (trajectory_success r) = ro_len r"
    using assms(3) by (simp add: trajectory_success_def)
  then show ?thesis
    using assms(2) n mixed_iff [of "trajectory_success r"]
    by (auto simp: g build_group_record_def informative_decision_def Let_def)
qed

text \<open>A group that the collection accepts as informative carries a training signal: with
  binary rewards under a success criterion, and with process rewards under the variance
  criterion, its reward vector has two entries that differ, so group-relative advantages
  are not all zero.
\<close>

theorem informative_group_has_reward_signal:
  assumes "validate_same_condition_group kt opt r = Inr (g, r')"
    and "g_informative g"
    and "o_source opt = Binary_Success \<or> o_criterion opt = C_Reward_Variance"
    and "length (ro_success r) = ro_len r"
  shows "\<exists>x \<in> set (g_reward_vector g). \<exists>y \<in> set (g_reward_vector g). x \<noteq> y"
  using assms(1)
proof (rule validate_Inr_cases)
  fix m process
  assume n: "int (ro_len r) = o_group_size opt"
    and src: "check_sources (o_source opt) (o_criterion opt) = Inr ()"
    and g: "g = build_group_record opt m (trajectory_success r) process"
  have len: "length (trajectory_success r) = ro_len r"
    using assms(4) by (simp add: trajectory_success_def)
  have vary: "rewards_vary (g_reward_vector g)"
  proof (cases "o_criterion opt = C_Reward_Variance")
    case True
    then show ?thesis using assms(2)
      by (auto simp: g build_group_record_def informative_decision_def Let_def)
  next
    case False
    then have "o_source opt = Binary_Success" and
      "o_criterion opt = C_Binary_Success \<or> o_criterion opt = C_Full_Success_Mixed"
      using assms(3) src by (auto simp: check_sources_def split: if_splits)
    moreover from this assms(2) n len have "True \<in> set (trajectory_success r)"
      "False \<in> set (trajectory_success r)"
      using mixed_iff [of "trajectory_success r"]
      by (auto simp: g build_group_record_def informative_decision_def Let_def)
    ultimately show ?thesis
      using binary_mixed_varies by (simp add: g build_group_record_def Let_def)
  qed
  then have ne: "g_reward_vector g \<noteq> []" by (auto simp: rewards_vary_def)
  from vary obtain x where "x \<in> set (g_reward_vector g)" "1 / 10 ^ 7 < \<bar>x - hd (g_reward_vector g)\<bar>"
    unfolding rewards_vary_iff [OF ne] by blast
  then have "x \<noteq> hd (g_reward_vector g)" by auto
  with \<open>x \<in> _\<close> ne show ?thesis by (meson list.set_sel(1))
qed

section \<open>Witnesses\<close>

definition sample_rollout :: rollout where
  "sample_rollout =
     \<lparr>ro_len = 2,
      ro_state = [(''obs.state'', \<lparr>t_trail = [1, 2], t_rows = [[Fin 1, Fin (-2)], [Fin 3, Fin 0]]\<rparr>)],
      ro_ints = [(''obs.task_id'', Col1 [4, 4]), (''obs.suite_id'', ColN [[1, 1], [1, 1]]),
                 (''obs.layout_id'', Col1 [7, 7]), (''obs.environment_seed'', Col1 [5, 5]),
                 (''obs.policy_seed'', Col1 [10, 11])],
      ro_strs = [(''obs.task'', Col1 [''Pick  cup'', ''pick cup ''])],
      ro_success = [[[False], [True]], [[False], [False]]],
      ro_terminated = [[[False], [True]], [[False], [False]]],
      ro_truncated = [[[False], [False]], [[False], [True]]],
      ro_score = None\<rparr>"

definition sample_options :: group_options where
  "sample_options =
     \<lparr>o_group_size = 2, o_group_id = ''candidate_0000'', o_version = 3,
      o_source = Binary_Success, o_criterion = C_Full_Success_Mixed, o_min_partial = 1,
      o_threshold = 3 / 20, o_suite = Some 1, o_layouts = Some [7]\<rparr>"

lemma sample_words:
  "normalized_instruction ''Pick  cup'' = ''pick cup''"
  "normalized_instruction ''pick cup '' = ''pick cup''"
  by code_simp+

definition sample_meta :: group_metadata where
  "sample_meta = \<lparr>m_keys = [(4, ''pick cup'', 1, 7, 5), (4, ''pick cup'', 1, 7, 5)],
                   m_suites = [1, 1], m_layouts = [7, 7], m_seeds = [10, 11]\<rparr>"

lemma sample_metadata: "group_metadata_of sample_rollout = Inr sample_meta"
  by (simp add: group_metadata_of_def sample_rollout_def constant_trajectory_values_def
      constant_row_def sample_words sample_meta_def)

definition sample_result :: "group_record \<times> rollout" where
  "sample_result =
     (build_group_record sample_options sample_meta [True, False] [1, 0],
      annotate_group ''candidate_0000'' 3 2 [] sample_rollout)"

lemma sample_validates:
  "validate_same_condition_group (\<lambda>_. []) sample_options sample_rollout = Inr sample_result"
  by (simp add: validate_same_condition_group_def sample_metadata)
     (simp add: sample_result_def sample_rollout_def sample_meta_def
      sample_options_def check_condition_def check_sources_def process_scores_of_def
      trajectory_success_def with_success_reward_def to_float_def Let_def)

theorem validated_group_same_condition_witness:
  "distinct (g_policy_seeds (fst sample_result)) \<and> int (length (g_policy_seeds (fst sample_result))) = 2"
  using validated_group_same_condition
    [of "\<lambda>_. []" sample_options sample_rollout "fst sample_result" "snd sample_result"] sample_validates
  by (auto simp: sample_options_def)

theorem success_criterion_informative_iff_witness:
  "g_informative (fst sample_result) \<longleftrightarrow>
     True \<in> set (trajectory_success sample_rollout) \<and> False \<in> set (trajectory_success sample_rollout)"
proof (rule success_criterion_informative_iff
    [of "\<lambda>_. []" sample_options sample_rollout "fst sample_result" "snd sample_result"])
  show "validate_same_condition_group (\<lambda>_. []) sample_options sample_rollout =
      Inr (fst sample_result, snd sample_result)"
    by (simp add: sample_validates)
qed (simp_all add: sample_options_def sample_rollout_def)

theorem informative_group_has_reward_signal_witness:
  "\<exists>x \<in> set (g_reward_vector (fst sample_result)).
     \<exists>y \<in> set (g_reward_vector (fst sample_result)). x \<noteq> y"
proof (rule informative_group_has_reward_signal
    [of "\<lambda>_. []" sample_options sample_rollout "fst sample_result" "snd sample_result"])
  show "validate_same_condition_group (\<lambda>_. []) sample_options sample_rollout =
      Inr (fst sample_result, snd sample_result)"
    by (simp add: sample_validates)
  show "g_informative (fst sample_result)"
    by (simp add: sample_result_def build_group_record_def informative_decision_def sample_options_def Let_def)
qed (simp_all add: sample_options_def sample_rollout_def)

definition sample_integrity :: integrity where
  "sample_integrity =
     \<lparr>ig_valid = True, ig_absmax = 3, ig_limit = Fin 100, ig_nonfinite = 0, ig_offending = [],
      ig_tensors = [diagnose ''obs.state'' \<lparr>t_trail = [1, 2], t_rows = [[Fin 1, Fin (-2)], [Fin 3, Fin 0]]\<rparr>]\<rparr>"

lemma sample_inspected:
  "inspect_rollout_state_integrity sample_rollout None (Fin 100) = Inr sample_integrity"
  by code_simp

theorem integrity_valid_iff_bounded_witness:
  "\<exists>bnd ts. Fin 100 = Fin bnd \<and> integrity_tensors sample_rollout None = Inr ts \<and>
    (ig_valid sample_integrity \<longleftrightarrow>
       (\<forall>t \<in> snd ` set ts. \<forall>row \<in> set (t_rows t). \<forall>x \<in> set row. within_limit bnd x))"
  by (rule integrity_valid_iff_bounded [OF sample_inspected])

end
