(* ===== verification/Rollout_Batch.thy ===== *)
theory Rollout_Batch
  imports Tensors
begin

text \<open>
  trainer/grfpo/rollout_batch.py: compaction of padded policy chunks before the actor update,
  and concatenation of rollout groups with different numbers of policy calls.
\<close>

section \<open>Compaction\<close>

definition true_indices :: "bool list \<Rightarrow> nat list" where
  "true_indices bs = filter (\<lambda>i. bs ! i) [0..<length bs]"

definition zero_from :: "nat \<Rightarrow> pyfloat tensor \<Rightarrow> pyfloat tensor" where
  "zero_from n t = t\<lparr>tn_rows := take n (tn_rows t) @ map (map (\<lambda>_. Fin 0)) (drop n (tn_rows t))\<rparr>"

definition zero_field :: "nat \<Rightarrow> string \<Rightarrow> 'n data_proto \<Rightarrow> 'n data_proto result" where
  "zero_field n k d =
     bind_res (dp_get k d) (\<lambda>t. Inr (d\<lparr>dp_tensors := AList.update k (zero_from n t) (dp_tensors d)\<rparr>))"

definition check_mask :: "bool list \<Rightarrow> pyfloat list \<Rightarrow> unit result" where
  "check_mask valids weights =
     (if list_ex (\<lambda>(v, w). v \<and> (\<not> pf_isfinite w \<or> \<not> pf_less (Fin 0) w)) (zip valids weights)
        then Inl ValueError
      else if list_ex (\<lambda>(v, w). \<not> v \<and> pf_bool w) (zip valids weights) then Inl ValueError
      else Inr ())"

definition append_dummies :: "nat \<Rightarrow> 'n data_proto \<Rightarrow> 'n data_proto result" where
  "append_dummies n c =
     (if n = 0 then Inr c
      else
        let c1 = dp_append c (dp_select (replicate n 0) c); start = dp_len c1 - n in
        bind_res (zero_field start ''info.valids'' c1) (\<lambda>c2.
        bind_res (zero_field start ''fpo.loss_weights'' c2) (\<lambda>c3.
        bind_res (zero_field start ''fpo.advantages'' c3)
          (zero_field start ''info.action_valids''))))"

definition check_compacted :: "int \<Rightarrow> nat \<Rightarrow> 'n data_proto \<Rightarrow> unit result" where
  "check_compacted divisor valid_count c =
     bind_res (require (int (dp_len c) mod divisor = 0) AssertionError) (\<lambda>_.
     bind_res (dp_get ''info.valids'' c) (\<lambda>v.
     bind_res (pf_int (pf_sum (concat (tn_rows v)))) (\<lambda>n.
     bind_res (require (n = int valid_count) AssertionError) (\<lambda>_.
     bind_res (dp_get ''fpo.loss_weights'' c) (\<lambda>w.
       require (map (pf_less (Fin 0)) (concat (tn_rows w)) = map pf_bool (concat (tn_rows v)))
         AssertionError)))))"

definition compaction_meta :: "nat \<Rightarrow> nat \<Rightarrow> nat \<Rightarrow> nat \<Rightarrow> dict \<Rightarrow> dict" where
  "compaction_meta original valid_count dummies compacted m =
     foldl (\<lambda>d (k, v). AList.update k v d) m
       [(''fpo_preflattened_valid_chunks'', JBool True),
        (''fpo_original_physical_slots'', JInt (int original)),
        (''fpo_valid_policy_chunks'', JInt (int valid_count)),
        (''fpo_sync_dummy_slots'', JInt (int dummies)),
        (''fpo_compacted_physical_slots'', JInt (int compacted))]"

definition compact_valid_policy_chunks_for_fpo ::
  "'n data_proto \<Rightarrow> int \<Rightarrow> int \<Rightarrow> 'n data_proto result" where
  "compact_valid_policy_chunks_for_fpo d actor_world_size micro_batch_size =
     (if actor_world_size \<le> 0 \<or> micro_batch_size \<le> 0 then Inl ValueError
      else bind_res (dp_get ''info.valids'' d) (\<lambda>v0.
        if length (tn_shape v0) \<noteq> 2 then Inl ValueError
        else bind_res (dp_get ''fpo.loss_weights'' d) (\<lambda>w0.
          if tn_shape w0 \<noteq> tn_shape v0 then Inl ValueError
          else bind_res (flatten_trajectories ''action.action'' d) (\<lambda>flat.
            bind_res (dp_get ''info.valids'' flat) (\<lambda>v.
            bind_res (dp_get ''fpo.loss_weights'' flat) (\<lambda>w.
            let valids = map pf_bool (concat (tn_rows v)) in
            bind_res (check_mask valids (concat (tn_rows w))) (\<lambda>_.
              if true_indices valids = [] then Inl ValueError
              else
                let compact = dp_select (true_indices valids) flat;
                    valid_count = dp_len compact;
                    divisor = actor_world_size * micro_batch_size;
                    dummies = nat ((- int valid_count) mod divisor)
                in bind_res (append_dummies dummies compact) (\<lambda>c.
                   bind_res (check_compacted divisor valid_count c) (\<lambda>_.
                     Inr (c\<lparr>dp_meta :=
                       compaction_meta (dp_len flat) valid_count dummies (dp_len c) (dp_meta c)\<rparr>))))))))))"

section \<open>Concatenation with padding\<close>

definition OBS_PREFIX :: string where
  "OBS_PREFIX = ''obs.''"

text \<open>\<open>value[:, -1]\<close>\<close>

definition tn_last :: "'a tensor \<Rightarrow> 'a tensor result" where
  "tn_last t =
     (case tn_trail t of
        [] \<Rightarrow> Inl IndexError
      | s # _ \<Rightarrow> if s = 0 then Inl IndexError else Inr (tn_step (s - 1) t))"

definition recover_fields ::
  "string list \<Rightarrow> (string \<times> 'a tensor) list \<Rightarrow> (string \<times> 'a tensor) list \<Rightarrow>
   (string \<times> 'a tensor) list result" where
  "recover_fields keys rollout_fields end_fields =
     bind_res
       (traverse
          (\<lambda>k. case map_of rollout_fields (OBS_PREFIX @ k) of
             None \<Rightarrow> Inl ValueError
           | Some t \<Rightarrow> bind_res (tn_last t) (\<lambda>u. Inr (k, u)))
          (filter (\<lambda>k. k \<notin> set (map fst end_fields)) keys))
       (\<lambda>extra. Inr (end_fields @ extra))"

definition normalize_end ::
  "string list \<Rightarrow> string list \<Rightarrow> 'n data_proto \<times> 'n data_proto \<Rightarrow> 'n data_proto result" where
  "normalize_end tensor_keys array_keys = (\<lambda>(rollout, end_obs).
     bind_res (recover_fields tensor_keys (dp_tensors rollout) (dp_tensors end_obs)) (\<lambda>ts.
     bind_res (recover_fields array_keys (dp_arrays rollout) (dp_arrays end_obs)) (\<lambda>as.
       Inr \<lparr>dp_tensors = ts, dp_arrays = as, dp_meta = dp_meta end_obs\<rparr>)))"

definition steps_of :: "'n data_proto \<Rightarrow> nat result" where
  "steps_of d =
     bind_res (dp_get ''action.action'' d) (\<lambda>t.
       case tn_trail t of [] \<Rightarrow> Inl IndexError | s # _ \<Rightarrow> Inr s)"

definition pad_with_terminal ::
  "nat \<Rightarrow> nat \<Rightarrow> 'a tensor option \<Rightarrow> 'a tensor \<Rightarrow> 'a tensor result" where
  "pad_with_terminal batch_size pad_steps end_field value =
     bind_res (case end_field of Some t \<Rightarrow> Inr t | None \<Rightarrow> tn_last value) (\<lambda>terminal.
       if tn_shape terminal \<noteq> batch_size # tl (tn_trail value) then Inl ValueError
       else Inr (tn_cat1 value (tn_repeat1 pad_steps terminal)))"

definition pad_tensor ::
  "nat \<Rightarrow> nat \<Rightarrow> nat \<Rightarrow> (string \<times> pyfloat tensor) list \<Rightarrow> string \<Rightarrow> pyfloat tensor \<Rightarrow>
   pyfloat tensor result" where
  "pad_tensor batch_size steps pad_steps end_fields key value =
     (if take 2 (tn_shape value) \<noteq> [batch_size, steps] then Inl ValueError
      else if pad_steps = 0 then Inr value
      else case strip_prefix OBS_PREFIX key of
        Some field \<Rightarrow> pad_with_terminal batch_size pad_steps (map_of end_fields field) value
      | None \<Rightarrow> Inr (tn_cat1 value (tn_zeros (Fin 0) batch_size (pad_steps # tl (tn_trail value)))))"

definition pad_array ::
  "nat \<Rightarrow> nat \<Rightarrow> nat \<Rightarrow> (string \<times> 'a tensor) list \<Rightarrow> string \<Rightarrow> 'a tensor \<Rightarrow> 'a tensor result" where
  "pad_array batch_size steps pad_steps end_fields key value =
     (if take 2 (tn_shape value) \<noteq> [batch_size, steps] then Inl ValueError
      else if pad_steps = 0 then Inr value
      else pad_with_terminal batch_size pad_steps
        (case strip_prefix OBS_PREFIX key of Some field \<Rightarrow> map_of end_fields field | None \<Rightarrow> None) value)"

definition pad_fields ::
  "(string \<Rightarrow> 'a tensor \<Rightarrow> 'a tensor result) \<Rightarrow> (string \<times> 'a tensor) list \<Rightarrow> (string \<times> 'a tensor) list result" where
  "pad_fields f fs = traverse (\<lambda>(k, t). bind_res (f k t) (\<lambda>u. Inr (k, u))) fs"

definition pad_rollout ::
  "string list \<Rightarrow> string list \<Rightarrow> nat \<Rightarrow> 'n data_proto \<times> 'n data_proto \<Rightarrow> 'n data_proto result" where
  "pad_rollout tensor_keys array_keys max_steps = (\<lambda>(rollout, end_obs).
     if set (map fst (dp_tensors rollout)) \<noteq> set tensor_keys \<or>
        set (map fst (dp_arrays rollout)) \<noteq> set array_keys then Inl ValueError
     else bind_res (steps_of rollout) (\<lambda>steps.
       if steps \<le> 0 then Inl ValueError
       else
         let b = dp_len rollout; pad = max_steps - steps in
         bind_res (pad_fields (pad_tensor b steps pad (dp_tensors end_obs)) (dp_tensors rollout)) (\<lambda>ts.
         bind_res (pad_fields (pad_array b steps pad (dp_arrays end_obs)) (dp_arrays rollout)) (\<lambda>as.
           Inr \<lparr>dp_tensors = ts, dp_arrays = as, dp_meta = dp_meta rollout\<rparr>))))"

definition all_keys :: "(string \<times> 'a) list list \<Rightarrow> string list" where
  "all_keys fss = remdups (concat (map (map fst) fss))"

definition concat_batches :: "'n data_proto list \<Rightarrow> 'n data_proto result" where
  "concat_batches ds = (case ds of [] \<Rightarrow> Inl IndexError | d # ds' \<Rightarrow> Inr (dp_concat d ds'))"

definition concatenate_rollout_groups_with_padding ::
  "'n data_proto list \<Rightarrow> 'n data_proto list \<Rightarrow> ('n data_proto \<times> 'n data_proto) result" where
  "concatenate_rollout_groups_with_padding rollouts end_observations =
     (if rollouts = [] \<or> length rollouts \<noteq> length end_observations then Inl ValueError
      else bind_res
        (traverse (normalize_end (all_keys (map dp_tensors end_observations))
                                 (all_keys (map dp_arrays end_observations)))
           (zip rollouts end_observations)) (\<lambda>ends.
      bind_res (traverse steps_of rollouts) (\<lambda>all_steps.
      bind_res
        (traverse (pad_rollout (map fst (dp_tensors (hd rollouts))) (map fst (dp_arrays (hd rollouts)))
                     (Max (set all_steps)))
           (zip rollouts ends)) (\<lambda>padded.
      bind_res (concat_batches padded) (\<lambda>r.
      bind_res (concat_batches ends) (\<lambda>e. Inr (r, e)))))))"

end
