(* ===== verification/Fpo_Transitions.thy ===== *)
theory Fpo_Transitions
  imports Float_Ops Group_Validation Rollout_Batch
begin

text \<open>
  From an environment rollout to the transitions of the FPO update: prepare_fpo_actor_input of
  trainer/grfpo/grfpo_ray_trainer.py and of trainer/fpo/fpo_ray_trainer.py, the trainer
  settings both read (trainer/grfpo/config.py, trainer/fpo/config.py), and the per-lane audit
  record of summarize_rollout_trajectories. The step tensors of a rollout share their shape;
  torch's broadcasting of axes of size one is not modelled (differing shapes raise).
\<close>

section \<open>Trainer settings\<close>

record grfpo_config =
  gc_total_training_steps :: int
  gc_gamma :: rat
  gc_gae_lambda :: rat
  gc_step_penalty :: rat
  gc_advantage_estimator :: string
  gc_group_size :: int
  gc_accepted_groups_per_update :: int
  gc_concurrent_candidate_groups :: int
  gc_candidate_group_partition :: string
  gc_min_accepted_groups_for_partial_update :: int
  gc_initial_candidate_groups_per_update :: int
  gc_accepted_groups_before_optional_refill :: int
  gc_max_candidate_groups_per_update :: int
  gc_group_reward_source :: string
  gc_accepted_group_reduction :: string
  gc_informative_group_criterion :: string
  gc_min_partial_trajectories_for_score_only_group :: int
  gc_partial_score_threshold :: rat
  gc_async_rollout :: bool
  gc_save_freq :: int
  gc_eval_episodes :: int
  gc_candidate_spool_dir :: "string option"
  gc_candidate_resume_state_path :: "string option"

definition truthy_str :: "string option \<Rightarrow> bool" where
  "truthy_str s = (case s of None \<Rightarrow> False | Some t \<Rightarrow> t \<noteq> [])"

text \<open>Every check of \<open>__post_init__\<close>, in order, each raising \<open>ValueError\<close>.\<close>

definition grfpo_config_checks :: "grfpo_config \<Rightarrow> bool list" where
  "grfpo_config_checks c =
     [0 < gc_total_training_steps c,
      0 < gc_gamma c \<and> gc_gamma c \<le> 1,
      0 \<le> gc_gae_lambda c \<and> gc_gae_lambda c \<le> 1,
      gc_advantage_estimator c = ''grpo_outcome'',
      gc_group_reward_source c \<in> {''binary_success'', ''process_score''},
      gc_accepted_group_reduction c \<in> {''group_equal'', ''task_equal''},
      gc_informative_group_criterion c \<in> {''binary_success'', ''full_success_mixed'', ''reward_variance''},
      0 < gc_min_partial_trajectories_for_score_only_group c,
      0 < gc_partial_score_threshold c \<and> gc_partial_score_threshold c < 1,
      \<not> (gc_informative_group_criterion c = ''reward_variance'' \<and>
         gc_group_reward_source c \<noteq> ''process_score''),
      1 < gc_group_size c,
      0 < gc_accepted_groups_per_update c,
      0 < gc_concurrent_candidate_groups c,
      gc_concurrent_candidate_groups c \<le> gc_accepted_groups_per_update c,
      gc_candidate_group_partition c \<in> {''stage'', ''worker_stage''},
      1 \<le> gc_min_accepted_groups_for_partial_update c \<and>
        gc_min_accepted_groups_for_partial_update c \<le> gc_accepted_groups_per_update c,
      0 \<le> gc_initial_candidate_groups_per_update c \<and> 0 \<le> gc_accepted_groups_before_optional_refill c,
      (gc_initial_candidate_groups_per_update c \<noteq> 0) = (gc_accepted_groups_before_optional_refill c \<noteq> 0),
      gc_accepted_groups_before_optional_refill c \<le> gc_accepted_groups_per_update c,
      0 < gc_max_candidate_groups_per_update c,
      gc_group_size c = 8,
      \<not> gc_async_rollout c,
      gc_accepted_groups_per_update c \<le> gc_max_candidate_groups_per_update c,
      gc_initial_candidate_groups_per_update c \<le> gc_max_candidate_groups_per_update c,
      gc_min_partial_trajectories_for_score_only_group c \<le> gc_group_size c - 1,
      gc_eval_episodes c \<noteq> 0,
      truthy_str (gc_candidate_spool_dir c) = truthy_str (gc_candidate_resume_state_path c),
      \<not> (truthy_str (gc_candidate_spool_dir c) \<and> gc_save_freq c \<noteq> 1)]"

definition grfpo_post_init :: "grfpo_config \<Rightarrow> unit result" where
  "grfpo_post_init c = require (list_all id (grfpo_config_checks c)) ValueError"

record fpo_config =
  fc_total_training_steps :: int
  fc_gamma :: rat
  fc_gae_lambda :: rat
  fc_step_penalty :: rat
  fc_eval_episodes :: int

definition fpo_post_init :: "fpo_config \<Rightarrow> unit result" where
  "fpo_post_init c =
     require
       (0 < fc_total_training_steps c \<and> 0 < fc_gamma c \<and> fc_gamma c \<le> 1 \<and>
        0 \<le> fc_gae_lambda c \<and> fc_gae_lambda c \<le> 1 \<and> fc_eval_episodes c \<noteq> 0) ValueError"

section \<open>Next observations\<close>

definition NEXT_OBS_PREFIX :: string where
  "NEXT_OBS_PREFIX = ''next_obs.''"

text \<open>\<open>value[:, 1:]\<close>\<close>

definition tn_from1 :: "'a tensor \<Rightarrow> 'a tensor" where
  "tn_from1 t =
     \<lparr>tn_trail = (hd (tn_trail t) - 1) # tl (tn_trail t),
      tn_rows = map (drop (prod_list (tl (tn_trail t)))) (tn_rows t)\<rparr>"

definition next_of :: "nat \<Rightarrow> nat \<Rightarrow> 'a tensor \<Rightarrow> 'a tensor \<Rightarrow> 'a tensor result" where
  "next_of b s obs end_obs =
     (if take 2 (tn_shape obs) \<noteq> [b, s] \<or> tn_shape end_obs \<noteq> b # tl (tn_trail obs)
        then Inl ValueError
      else Inr (tn_cat1 (tn_from1 obs) (tn_repeat1 1 end_obs)))"

definition obs_field :: "string \<Rightarrow> string" where
  "obs_field k = drop (length OBS_PREFIX) k"

definition obs_keys :: "(string \<times> 'a tensor) list \<Rightarrow> string list" where
  "obs_keys fs = filter (\<lambda>k. strip_prefix OBS_PREFIX k \<noteq> None) (map fst fs)"

definition is_profile_key :: "string \<Rightarrow> bool" where
  "is_profile_key k \<longleftrightarrow> strip_prefix (OBS_PREFIX @ ''profile.'') k \<noteq> None"

definition trajectory_metadata_fields :: "string list" where
  "trajectory_metadata_fields =
     [''eval_episode_id'', ''layout_id'', ''environment_seed'', ''policy_seed'', ''group_id'',
      ''trajectory_id'', ''group_key'', ''rollout_policy_version'']"

fun align_fields ::
  "nat \<Rightarrow> nat \<Rightarrow> (string \<times> 'a tensor) list \<Rightarrow> string list \<Rightarrow> (string \<times> 'a tensor) list \<Rightarrow>
   (string \<times> 'a tensor) list result" where
  "align_fields b s ends [] fs = Inr fs"
| "align_fields b s ends (k # ks) fs =
     (case (map_of fs k, map_of ends (obs_field k)) of
        (Some obs, Some e) \<Rightarrow>
          bind_res (next_of b s obs e)
            (\<lambda>t. align_fields b s ends ks (AList.update (NEXT_OBS_PREFIX @ obs_field k) t fs))
      | _ \<Rightarrow> Inl KeyError)"

section \<open>Masks and semi-MDP folding\<close>

text \<open>\<open>cumsum\<close> of a boolean row; \<open>up_to_first\<close> is \<open>(d.cumsum - d.long()) == 0\<close>.\<close>

fun cumsum_from :: "nat \<Rightarrow> bool list \<Rightarrow> nat list" where
  "cumsum_from n [] = []"
| "cumsum_from n (d # ds) = (let m = n + of_bool d in m # cumsum_from m ds)"

definition up_to_first :: "bool list \<Rightarrow> bool list" where
  "up_to_first ds = map2 (\<lambda>c d. c - of_bool d = (0::nat)) (cumsum_from 0 ds) ds"

type_synonym lane_dones = "bool list list"

definition chunk_dones :: "lane_dones \<Rightarrow> bool list" where
  "chunk_dones dones = map (list_ex id) dones"

definition valid_substeps :: "bool list \<Rightarrow> lane_dones \<Rightarrow> bool list list" where
  "valid_substeps valids dones = map2 (\<lambda>v ds. map (\<lambda>u. u \<and> v) (up_to_first ds)) valids dones"

definition chunk_reward :: "rat \<Rightarrow> rat \<Rightarrow> bool \<Rightarrow> bool list \<Rightarrow> pyfloat list \<Rightarrow> pyfloat" where
  "chunk_reward gamma penalty v us rs =
     pf_sub
       (pf_sum (map (\<lambda>k. pf_mul (pf_mul (rs ! k) (pf_of_bool (us ! k))) (Fin (gamma ^ k))) [0..<length rs]))
       (Fin (penalty * b2r v))"

definition executed_steps :: "bool list \<Rightarrow> nat" where
  "executed_steps us = length (filter id us)"

definition chunk_discount :: "rat \<Rightarrow> bool \<Rightarrow> bool \<Rightarrow> bool list \<Rightarrow> rat" where
  "chunk_discount base v d us = base ^ executed_steps us * ((1 - b2r d * b2r v) * b2r v)"

text \<open>The columns one lane contributes: one entry per policy chunk.\<close>

record lane_columns =
  lc_rewards :: "pyfloat list"
  lc_dones :: "rat list"
  lc_durations :: "nat list"
  lc_discounts :: "rat list"
  lc_gae_discounts :: "rat list"
  lc_valids :: "bool list"
  lc_action_valids :: "bool list list"

definition fold_lane ::
  "rat \<Rightarrow> rat \<Rightarrow> rat \<Rightarrow> nat \<Rightarrow> bool list \<Rightarrow> lane_dones \<Rightarrow> pyfloat list list \<Rightarrow> lane_columns" where
  "fold_lane gamma lam penalty horizon valids dones rewards =
     (let us = valid_substeps valids dones; n = length dones; ds = chunk_dones dones in
      \<lparr>lc_rewards = map (\<lambda>s. chunk_reward gamma penalty (valids ! s) (us ! s) (rewards ! s)) [0..<n],
       lc_dones = map (\<lambda>s. b2r (ds ! s) * b2r (valids ! s)) [0..<n],
       lc_durations = map executed_steps us,
       lc_discounts = map (\<lambda>s. chunk_discount gamma (valids ! s) (ds ! s) (us ! s)) [0..<n],
       lc_gae_discounts = map (\<lambda>s. chunk_discount (gamma * lam) (valids ! s) (ds ! s) (us ! s)) [0..<n],
       lc_valids = valids,
       lc_action_valids = map (\<lambda>u. u @ replicate (horizon - length u) False) us\<rparr>)"

text \<open>
  GRFPO keeps a finished lane idle until the next reset, so its later chunks are invalid; the
  FPO trainer counts every collected slot.
\<close>

definition grfpo_lane :: "rat \<Rightarrow> rat \<Rightarrow> rat \<Rightarrow> nat \<Rightarrow> lane_dones \<Rightarrow> pyfloat list list \<Rightarrow> lane_columns" where
  "grfpo_lane gamma lam penalty horizon dones =
     fold_lane gamma lam penalty horizon (up_to_first (chunk_dones dones)) dones"

definition fpo_lane :: "rat \<Rightarrow> rat \<Rightarrow> rat \<Rightarrow> nat \<Rightarrow> lane_dones \<Rightarrow> pyfloat list list \<Rightarrow> lane_columns" where
  "fpo_lane gamma lam penalty horizon dones =
     fold_lane gamma lam penalty horizon (replicate (length dones) True) dones"

section \<open>The feedback of a rollout\<close>

record feedback =
  fb_slots :: nat
  fb_actions :: nat
  fb_dones :: "lane_dones list"
  fb_rewards :: "pyfloat list list list"
  fb_success :: "bool list"

definition bool_grid :: "string \<Rightarrow> 'n data_proto \<Rightarrow> bool list list list result" where
  "bool_grid k d = bind_res (dp_get k d) (\<lambda>t. bind_res (grid3 t) (\<lambda>g. Inr (map (map (map pf_bool)) g)))"

text \<open>\<open>success.flatten(start_dim=1).any(dim=1)\<close>\<close>

definition lane_success :: "pyfloat tensor \<Rightarrow> bool list" where
  "lane_success t = map (list_ex pf_bool) (tn_rows t)"

definition or_grid :: "bool list list list \<Rightarrow> bool list list list \<Rightarrow> bool list list list" where
  "or_grid = map2 (map2 (map2 (\<or>)))"

definition same_grid_shape :: "pyfloat tensor \<Rightarrow> pyfloat tensor \<Rightarrow> bool" where
  "same_grid_shape a b \<longleftrightarrow> tn_shape a = tn_shape b"

definition axis2 :: "pyfloat tensor \<Rightarrow> nat result" where
  "axis2 t = (case tn_trail t of _ # k # _ \<Rightarrow> Inr k | _ \<Rightarrow> Inl IndexError)"

definition step_feedback :: "'n data_proto \<Rightarrow> feedback result" where
  "step_feedback d =
     bind_res (dp_get ''next.terminated'' d) (\<lambda>te.
     bind_res (dp_get ''next.truncated'' d) (\<lambda>tr.
     bind_res (dp_get ''next.reward'' d) (\<lambda>re.
     bind_res (bool_grid ''next.terminated'' d) (\<lambda>terminated.
     bind_res (bool_grid ''next.truncated'' d) (\<lambda>truncated.
     bind_res (dp_get ''next.success'' d) (\<lambda>success.
     bind_res (require (same_grid_shape te tr) RuntimeError) (\<lambda>_.
     bind_res (dp_get ''action.action'' d) (\<lambda>act. bind_res (axis2 act) (\<lambda>action_substeps.
     bind_res (dp_get ''action.full_action'' d) (\<lambda>full. bind_res (axis2 full) (\<lambda>horizon.
     bind_res (axis2 re) (\<lambda>reward_substeps.
     bind_res (require (reward_substeps = action_substeps) ValueError) (\<lambda>_.
     bind_res (require (action_substeps \<le> horizon) ValueError) (\<lambda>_.
     bind_res (grid3 re) (\<lambda>rewards.
     bind_res (require (same_grid_shape re te) RuntimeError) (\<lambda>_.
       Inr \<lparr>fb_slots = hd (tn_trail te), fb_actions = horizon, fb_dones = or_grid terminated truncated,
            fb_rewards = rewards, fb_success = lane_success success\<rparr>))))))))))))))))"

definition step_keys :: "string list" where
  "step_keys = [''next.terminated'', ''next.truncated'', ''next.reward'', ''next.success'']"

definition dp_drop :: "string list \<Rightarrow> 'n data_proto \<Rightarrow> 'n data_proto" where
  "dp_drop ks d = d\<lparr>dp_tensors := filter (\<lambda>(k, _). k \<notin> set ks) (dp_tensors d)\<rparr>"

definition put_columns :: "nat \<Rightarrow> nat \<Rightarrow> lane_columns list \<Rightarrow> 'n data_proto \<Rightarrow> 'n data_proto" where
  "put_columns s h ls d =
     (let rats = (\<lambda>f. of_grid2 s (map (map Fin \<circ> f) ls)) in
      dp_put ''info.action_valids'' (of_grid3 s h (map (map (map pf_of_bool) \<circ> lc_action_valids) ls))
      (dp_put ''info.valids'' (of_grid2 s (map (map pf_of_bool \<circ> lc_valids) ls))
      (dp_put ''info.gae_discounts'' (rats lc_gae_discounts)
      (dp_put ''info.discounts'' (rats lc_discounts)
      (dp_put ''info.dones'' (rats lc_dones)
      (dp_put ''info.rewards'' (of_grid2 s (map lc_rewards ls)) d))))))"

text \<open>Only the GRFPO trainer stores the number of executed steps of a chunk.\<close>

definition put_durations :: "nat \<Rightarrow> lane_columns list \<Rightarrow> 'n data_proto \<Rightarrow> 'n data_proto" where
  "put_durations s ls d =
     dp_put ''info.durations'' (of_grid2 s (map (map Fin \<circ> (map of_nat \<circ> lc_durations)) ls)) d"

definition put_meta :: "(string \<times> json) list \<Rightarrow> 'n data_proto \<Rightarrow> 'n data_proto" where
  "put_meta kvs d = d\<lparr>dp_meta := foldl (\<lambda>m (k, v). AList.update k v m) (dp_meta d) kvs\<rparr>"

definition prepared_meta :: "int \<Rightarrow> rat \<Rightarrow> rat \<Rightarrow> nat \<Rightarrow> (string \<times> json) list" where
  "prepared_meta global_steps gamma lam n =
     [(''global_steps'', JInt global_steps), (''gamma'', JFloat (Fin gamma)),
      (''gae_lambda'', JFloat (Fin lam)), (''global_token_num'', JList (replicate n (JInt 0)))]"

section \<open>prepare_fpo_actor_input\<close>

text \<open>The rollout the process scores are read from: its step tensors, flattened by lane.\<close>

definition score_view :: "'n data_proto \<Rightarrow> pyfloat tensor \<Rightarrow> pyfloat tensor \<Rightarrow> pyfloat tensor \<Rightarrow> rollout" where
  "score_view d te tr sc =
     (let bools = (\<lambda>t. map (\<lambda>r. [map pf_bool r]) (tn_rows t)) in
      \<lparr>ro_len = dp_len d, ro_state = [], ro_ints = [], ro_strs = [], ro_success = [],
       ro_terminated = bools te, ro_truncated = bools tr,
       ro_score = Some (map (\<lambda>r. [r]) (tn_rows sc))\<rparr>)"

definition lane_process_scores :: "'n data_proto \<Rightarrow> rat list result" where
  "lane_process_scores d =
     (case dp_get ''next.score'' d of
        Inr sc \<Rightarrow>
          bind_res (dp_get ''next.terminated'' d) (\<lambda>te.
          bind_res (dp_get ''next.truncated'' d) (\<lambda>tr.
            terminal_trajectory_scores (score_view d te tr sc)))
      | Inl _ \<Rightarrow> bind_res (dp_get ''next.success'' d) (\<lambda>su. Inr (map to_float (lane_success su))))"

text \<open>Both trainers align every observation field with its successor first.\<close>

definition align_rollout ::
  "string list \<Rightarrow> 'n data_proto \<Rightarrow> 'n data_proto \<Rightarrow> 'n data_proto result" where
  "align_rollout metadata rollout end_obs =
     bind_res (dp_get ''action.action'' rollout) (\<lambda>act.
       case tn_trail act of
         [] \<Rightarrow> Inl IndexError
       | s # _ \<Rightarrow>
           let b = dp_len rollout in
           bind_res (align_fields b s (dp_tensors end_obs) (obs_keys (dp_tensors rollout)) (dp_tensors rollout)) (\<lambda>ts.
           bind_res (align_fields b s (dp_arrays end_obs)
                       (filter (\<lambda>k. obs_field k \<notin> set metadata) (obs_keys (dp_arrays rollout)))
                       (dp_arrays rollout)) (\<lambda>as.
             Inr (rollout\<lparr>dp_tensors := ts, dp_arrays := as\<rparr>))))"

definition exclude_profile :: "'n data_proto \<Rightarrow> 'n data_proto" where
  "exclude_profile d = d\<lparr>dp_tensors := filter (\<lambda>(k, _). \<not> is_profile_key k) (dp_tensors d)\<rparr>"

definition grfpo_output ::
  "grfpo_config \<Rightarrow> int \<Rightarrow> 'n data_proto \<Rightarrow> feedback \<Rightarrow> rat list \<Rightarrow> 'n data_proto" where
  "grfpo_output cfg global_steps d fb scores =
     (let lanes = map2 (grfpo_lane (gc_gamma cfg) (gc_gae_lambda cfg) (gc_step_penalty cfg) (fb_actions fb))
                    (fb_dones fb) (fb_rewards fb);
          outcome = map pf_of_bool (fb_success fb);
          process = map Fin (with_success_reward (fb_success fb) scores)
      in put_meta (prepared_meta global_steps (gc_gamma cfg) (gc_gae_lambda cfg) (dp_len d))
           (dp_put ''info.trajectory_process_score'' (of_grid1 process)
           (dp_put ''info.trajectory_outcome'' (of_grid1 outcome)
           (put_durations (fb_slots fb) lanes
           (put_columns (fb_slots fb) (fb_actions fb) lanes (dp_drop (step_keys @ [''next.score'']) d))))))"

definition prepare_grfpo_actor_input ::
  "grfpo_config \<Rightarrow> int \<Rightarrow> 'n data_proto \<Rightarrow> 'n data_proto \<Rightarrow> 'n data_proto result" where
  "prepare_grfpo_actor_input cfg global_steps rollout end_obs =
     bind_res (align_rollout trajectory_metadata_fields (exclude_profile rollout) end_obs) (\<lambda>d.
     bind_res (require (gc_group_reward_source cfg \<noteq> ''process_score'' \<or>
                        map_of (dp_tensors d) ''next.score'' \<noteq> None) KeyError) (\<lambda>_.
     bind_res (lane_process_scores d) (\<lambda>scores.
     bind_res (step_feedback d) (\<lambda>fb. Inr (grfpo_output cfg global_steps d fb scores)))))"

definition prepare_fpo_actor_input ::
  "fpo_config \<Rightarrow> int \<Rightarrow> 'n data_proto \<Rightarrow> 'n data_proto \<Rightarrow> 'n data_proto result" where
  "prepare_fpo_actor_input cfg global_steps rollout end_obs =
     bind_res (align_rollout [] rollout end_obs) (\<lambda>d.
     bind_res (step_feedback d) (\<lambda>fb.
       let lanes = map2 (fpo_lane (fc_gamma cfg) (fc_gae_lambda cfg) (fc_step_penalty cfg) (fb_actions fb))
                     (fb_dones fb) (fb_rewards fb)
       in Inr (put_meta (prepared_meta global_steps (fc_gamma cfg) (fc_gae_lambda cfg) (dp_len d))
               (put_columns (fb_slots fb) (fb_actions fb) lanes (dp_drop step_keys d)))))"

section \<open>The audit record of a lane\<close>

record lane_audit =
  au_policy_calls :: nat
  au_action_steps :: nat
  au_return :: pyfloat
  au_success :: bool
  au_terminated :: bool
  au_truncated :: bool

text \<open>
  \<open>summarize_rollout_trajectories\<close> for one lane whose step rows are flat; the lane has at least
  one step (for an empty lane the code indexes before its start). A lane without a done step is
  summarised to its last step.
\<close>

definition final_step :: "bool list \<Rightarrow> nat" where
  "final_step dones = (case first_true dones of Some i \<Rightarrow> i | None \<Rightarrow> length dones - 1)"

definition summarize_lane ::
  "nat \<Rightarrow> nat \<Rightarrow> bool list \<Rightarrow> bool list \<Rightarrow> bool list \<Rightarrow> pyfloat list \<Rightarrow> lane_audit" where
  "summarize_lane policy_slots action_steps terminated truncated success rewards =
     (let n = final_step (map2 (\<or>) terminated truncated) in
      \<lparr>au_policy_calls = min policy_slots (n div action_steps + 1),
       au_action_steps = n + 1,
       au_return = pf_sum (take (n + 1) rewards),
       au_success = list_ex id (take (n + 1) success),
       au_terminated = list_ex id (take (n + 1) terminated),
       au_truncated = list_ex id (take (n + 1) truncated)\<rparr>)"

end
