(* ===== verification/Fpo_Properties.thy ===== *)
theory Fpo_Properties
  imports Fpo_Transitions Fpo_Worker
begin

text \<open>
  What the FPO transitions mean. The chunk-wise masks of a lane are the flat mask "no done step
  strictly before"; folding a lane into chunk rewards and discounts keeps the discounted return
  of its steps; the backward loop of compute_gae is a recursion over the lane, and with
  lambda = 1 its targets are the Monte-Carlo returns of the executed steps.
\<close>

section \<open>Masks\<close>

definition steps_until :: "bool list \<Rightarrow> nat" where
  "steps_until ds = (case first_true ds of Some i \<Rightarrow> Suc i | None \<Rightarrow> length ds)"

lemma steps_until_simps [simp]:
  "steps_until [] = 0" "steps_until (d # ds) = (if d then 1 else Suc (steps_until ds))"
  by (auto simp: steps_until_def split: option.splits)

lemma steps_until_le: "steps_until ds \<le> length ds"
  by (induction ds) auto

lemma steps_until_append:
  "steps_until (xs @ ys) = (if list_ex id xs then steps_until xs else length xs + steps_until ys)"
  by (induction xs) auto

lemma steps_until_none: "\<not> list_ex id ds \<Longrightarrow> steps_until ds = length ds"
  by (induction ds) auto

lemma cumsum_offset: "map2 (\<lambda>c d. c - of_bool d = (0::nat)) (cumsum_from (Suc n) ds) ds = replicate (length ds) False"
  by (induction ds arbitrary: n) (auto simp: Let_def)

lemma up_to_first_simps [simp]:
  "up_to_first [] = []"
  "up_to_first (d # ds) = True # (if d then replicate (length ds) False else up_to_first ds)"
  using cumsum_offset [of 0 ds] by (auto simp: up_to_first_def Let_def)

lemma length_up_to_first [simp]: "length (up_to_first ds) = length ds"
  by (induction ds) auto

lemma up_to_first_prefix:
  "up_to_first ds = replicate (steps_until ds) True @ replicate (length ds - steps_until ds) False"
  by (induction ds) auto

lemma up_to_first_nth: "i < length ds \<Longrightarrow> up_to_first ds ! i \<longleftrightarrow> (\<forall>j<i. \<not> ds ! j)"
proof (induction ds arbitrary: i)
  case (Cons d ds)
  then show ?case by (cases i) (auto simp: All_less_Suc2)
qed simp

lemma executed_up_to_first [simp]: "executed_steps (up_to_first ds) = steps_until ds"
  using steps_until_le [of ds] by (simp add: executed_steps_def up_to_first_prefix)

lemma up_to_first_append:
  "up_to_first (xs @ ys) =
     up_to_first xs @ (if list_ex id xs then replicate (length ys) False else up_to_first ys)"
  by (induction xs) (auto simp: replicate_add)

lemma chunk_dones_simps [simp]:
  "chunk_dones [] = []" "chunk_dones (ds # dones) = list_ex id ds # chunk_dones dones"
  "length (chunk_dones dones) = length dones"
  by (simp_all add: chunk_dones_def)

lemma valid_substeps_simps [simp]:
  "valid_substeps [] [] = []"
  "valid_substeps (v # vs) (ds # dones) =
     (if v then up_to_first ds else replicate (length ds) False) # valid_substeps vs dones"
  by (auto simp: valid_substeps_def map_replicate_const)

lemma valid_substeps_idle:
  "length vs = length dones \<Longrightarrow> set vs \<subseteq> {False} \<Longrightarrow>
   valid_substeps vs dones = map (\<lambda>ds. replicate (length ds) False) dones"
  by (induction vs dones rule: list_induct2) auto

lemma length_valid_substeps [simp]:
  "length (valid_substeps vs dones) = min (length vs) (length dones)"
  by (simp add: valid_substeps_def)

definition lane_mask :: "lane_dones \<Rightarrow> bool list list" where
  "lane_mask dones = valid_substeps (up_to_first (chunk_dones dones)) dones"

lemma lane_mask_Cons:
  "lane_mask (ds # dones) =
     up_to_first ds #
     (if list_ex id ds then map (\<lambda>c. replicate (length c) False) dones else lane_mask dones)"
  by (auto simp: lane_mask_def set_replicate_conv_if intro!: valid_substeps_idle split: if_splits)

lemma concat_idle: "concat (map (\<lambda>c. replicate (length c) False) dones) = replicate (length (concat dones)) False"
  by (induction dones) (auto simp: replicate_add)

lemma concat_lane_mask: "concat (lane_mask dones) = up_to_first (concat dones)"
proof (induction dones)
  case Nil
  show ?case by (simp add: lane_mask_def)
next
  case (Cons ds dones)
  then show ?case by (simp add: lane_mask_Cons up_to_first_append concat_idle)
qed

section \<open>Folding a lane\<close>

text \<open>Rational contents of the columns of a lane whose rewards are finite.\<close>

definition chunk_gain :: "rat \<Rightarrow> bool list \<Rightarrow> rat list \<Rightarrow> rat" where
  "chunk_gain gamma us rs = (\<Sum>k<length rs. rs ! k * b2r (us ! k) * gamma ^ k)"

lemma chunk_reward_Fin:
  "chunk_reward gamma penalty v us (map Fin rs) = Fin (chunk_gain gamma us rs - penalty * b2r v)"
proof -
  have "map (\<lambda>k. pf_mul (pf_mul (map Fin rs ! k) (pf_of_bool (us ! k))) (Fin (gamma ^ k)))
          [0..<length (map Fin rs)] =
        map Fin (map (\<lambda>k. rs ! k * b2r (us ! k) * gamma ^ k) [0..<length rs])" by simp
  then show ?thesis
    unfolding chunk_reward_def
    by (simp only: pf_sum_Fin pf_ops_Fin)
       (simp add: chunk_gain_def interv_sum_list_conv_sum_set_nat atLeast0LessThan)
qed

lemma gain_up_to_first:
  assumes "length ds = length rs"
  shows "chunk_gain gamma (up_to_first ds) rs = (\<Sum>t<steps_until ds. gamma ^ t * rs ! t)"
proof -
  have le: "steps_until ds \<le> length rs" using steps_until_le [of ds] assms by simp
  have "chunk_gain gamma (up_to_first ds) rs =
      (\<Sum>k<length rs. if k < steps_until ds then gamma ^ k * rs ! k else 0)"
    unfolding chunk_gain_def by (intro sum.cong) (use assms in \<open>auto simp: up_to_first_prefix nth_append\<close>)
  also have "\<dots> = (\<Sum>k<steps_until ds. gamma ^ k * rs ! k)"
    using le by (subst sum.inter_filter [symmetric]) (auto intro!: sum.cong)
  finally show ?thesis .
qed

lemma gain_idle: "chunk_gain gamma (replicate n False) rs = 0" if "length rs = n"
  using that by (simp add: chunk_gain_def)

text \<open>The value of a lane read off its chunk columns, bootstrapped with the value after it.\<close>

fun semi_return :: "rat list \<Rightarrow> rat list \<Rightarrow> rat \<Rightarrow> rat" where
  "semi_return (r # rs) (d # ds) v = r + d * semi_return rs ds v"
| "semi_return _ _ v = v"

text \<open>
  The return of the executed steps themselves: their discounted rewards, one discounted
  penalty per executed chunk, and the bootstrap value if the lane never ends.
\<close>

definition flat_return :: "rat \<Rightarrow> rat \<Rightarrow> lane_dones \<Rightarrow> rat list list \<Rightarrow> rat \<Rightarrow> rat" where
  "flat_return gamma penalty dones rewards v =
     (\<Sum>t<steps_until (concat dones). gamma ^ t * concat rewards ! t)
     - penalty * (\<Sum>s<steps_until (chunk_dones dones). gamma ^ length (concat (take s dones)))
     + (if list_ex id (concat dones) then 0 else gamma ^ length (concat dones) * v)"

lemma flat_return_Nil [simp]: "flat_return gamma penalty [] [] v = v"
  by (simp add: flat_return_def)

lemma flat_return_done:
  assumes "list_ex id ds" and "length rs = length ds"
  shows "flat_return gamma penalty (ds # dones) (rs # rewards) v =
     (\<Sum>t<steps_until ds. gamma ^ t * rs ! t) - penalty"
proof -
  have "(\<Sum>t<steps_until ds. gamma ^ t * (rs @ concat rewards) ! t) =
      (\<Sum>t<steps_until ds. gamma ^ t * rs ! t)"
    using steps_until_le [of ds] assms(2) by (intro sum.cong) (auto simp: nth_append)
  then show ?thesis using assms(1) by (simp add: flat_return_def steps_until_append)
qed

lemma flat_return_live:
  assumes "\<not> list_ex id ds" and "length rs = length ds"
  shows "flat_return gamma penalty (ds # dones) (rs # rewards) v =
     (\<Sum>t<length ds. gamma ^ t * rs ! t) - penalty
       + gamma ^ length ds * flat_return gamma penalty dones rewards v"
proof -
  let ?n = "length ds"
  have step_sum: "(\<Sum>t<?n + m. gamma ^ t * (rs @ xs) ! t) =
      (\<Sum>t<?n. gamma ^ t * rs ! t) + gamma ^ ?n * (\<Sum>t<m. gamma ^ t * xs ! t)" for m xs
    using assms(2)
    by (induction m) (auto simp: nth_append sum_distrib_left power_add algebra_simps)
  have chunk_sum: "(\<Sum>s<Suc m. gamma ^ length (concat (take s (ds # dones)))) =
      1 + gamma ^ ?n * (\<Sum>s<m. gamma ^ length (concat (take s dones)))" for m
    by (simp add: sum.lessThan_Suc_shift power_add sum_distrib_left del: sum.lessThan_Suc)
  show ?thesis
    using assms(1) unfolding flat_return_def
    by (simp add: steps_until_append step_sum chunk_sum power_add del: sum.lessThan_Suc)
       (simp add: algebra_simps)
qed

lemma map_upt_Suc: "map f [0..<Suc n] = f 0 # map (f \<circ> Suc) [0..<n]"
  by (subst upt_conv_Cons) (simp_all add: map_Suc_upt [symmetric] del: upt_Suc)

lemma fold_lane_Cons:
  "fold_lane gamma lam penalty h (v # vs) (ds # dones) (rs # rewards) =
     (let us = (if v then up_to_first ds else replicate (length ds) False);
          rest = fold_lane gamma lam penalty h vs dones rewards
      in \<lparr>lc_rewards = chunk_reward gamma penalty v us rs # lc_rewards rest,
          lc_dones = b2r (list_ex id ds) * b2r v # lc_dones rest,
          lc_durations = executed_steps us # lc_durations rest,
          lc_discounts = chunk_discount gamma v (list_ex id ds) us # lc_discounts rest,
          lc_gae_discounts = chunk_discount (gamma * lam) v (list_ex id ds) us # lc_gae_discounts rest,
          lc_valids = v # vs,
          lc_action_valids = (us @ replicate (h - length us) False) # lc_action_valids rest\<rparr>)"
  by (simp add: fold_lane_def Let_def map_upt_Suc comp_def del: upt_Suc)

lemma fold_lane_Nil [simp]:
  "fold_lane gamma lam penalty h [] [] [] =
     \<lparr>lc_rewards = [], lc_dones = [], lc_durations = [], lc_discounts = [], lc_gae_discounts = [],
      lc_valids = [], lc_action_valids = []\<rparr>"
  by (simp add: fold_lane_def)

lemma discount_cases:
  "chunk_discount base True d (up_to_first ds) = (if d then 0 else base ^ steps_until ds)"
  by (simp add: chunk_discount_def)

definition same_shape :: "lane_dones \<Rightarrow> rat list list \<Rightarrow> bool" where
  "same_shape dones rewards \<longleftrightarrow> map length dones = map length rewards"

lemma same_shape_Cons:
  "same_shape (ds # dones) rewards \<longleftrightarrow>
     (\<exists>rs rest. rewards = rs # rest \<and> length rs = length ds \<and> same_shape dones rest)"
  by (cases rewards) (auto simp: same_shape_def)

lemma semi_return_lane:
  "same_shape dones rewards \<Longrightarrow>
   semi_return (map pf_val (lc_rewards (grfpo_lane gamma lam penalty h dones (map (map Fin) rewards))))
     (lc_discounts (grfpo_lane gamma lam penalty h dones (map (map Fin) rewards))) v =
   flat_return gamma penalty dones rewards v"
proof (induction dones arbitrary: rewards)
  case Nil
  then show ?case by (simp add: same_shape_def grfpo_lane_def)
next
  case (Cons ds dones)
  from Cons.prems obtain rs rest where sh: "rewards = rs # rest" "length rs = length ds" "same_shape dones rest"
    by (auto simp: same_shape_Cons)
  show ?case
  proof (cases "list_ex id ds")
    case True
    with sh show ?thesis
      by (simp add: grfpo_lane_def fold_lane_Cons Let_def discount_cases chunk_reward_Fin gain_up_to_first
            flat_return_done)
  next
    case False
    with sh Cons.IH [of rest] show ?thesis
      by (simp add: grfpo_lane_def fold_lane_Cons Let_def discount_cases chunk_reward_Fin gain_up_to_first
            flat_return_live steps_until_none)
  qed
qed

section \<open>The advantage recursion\<close>

record gae_row =
  gr_reward :: rat
  gr_value :: rat
  gr_next_value :: rat
  gr_discount :: rat
  gr_gae_discount :: rat
  gr_valid :: rat

definition gae_input :: "gae_row list \<Rightarrow> gae_lane_input" where
  "gae_input rows =
     \<lparr>gi_rewards = map (Fin \<circ> gr_reward) rows, gi_values = map (Fin \<circ> gr_value) rows,
      gi_next_values = map (Fin \<circ> gr_next_value) rows, gi_discounts = map (Fin \<circ> gr_discount) rows,
      gi_gae_discounts = map (Fin \<circ> gr_gae_discount) rows, gi_valids = map (Fin \<circ> gr_valid) rows\<rparr>"

definition hd0 :: "rat list \<Rightarrow> rat" where
  "hd0 xs = (case xs of [] \<Rightarrow> 0 | x # _ \<Rightarrow> x)"

fun gae_rec :: "gae_row list \<Rightarrow> rat list" where
  "gae_rec [] = []"
| "gae_rec (r # rows) =
     (gr_reward r + gr_discount r * gr_next_value r - gr_value r
        + gr_gae_discount r * hd0 (gae_rec rows)) * gr_valid r # gae_rec rows"

lemma length_gae_rec [simp]: "length (gae_rec rows) = length rows"
  by (induction rows) auto

lemma drop_gae_rec: "drop m (gae_rec rows) = gae_rec (drop m rows)"
proof (induction rows arbitrary: m)
  case (Cons r rows)
  then show ?case by (cases m) auto
qed simp

lemma gae_step_row:
  "m < length rows \<Longrightarrow>
   gae_step (gae_input rows) (adv, Fin x) m =
     (let y = (gr_reward (rows ! m) + gr_discount (rows ! m) * gr_next_value (rows ! m) - gr_value (rows ! m)
               + gr_gae_discount (rows ! m) * x) * gr_valid (rows ! m)
      in (adv[m := Fin y], Fin y))"
  by (simp add: gae_step_def gae_input_def Let_def)

lemma gae_loop:
  assumes "m \<le> length rows"
  shows "foldr (\<lambda>s st. gae_step (gae_input rows) st s) [m..<length rows] (replicate (length rows) (Fin 0), Fin 0) =
     (replicate m (Fin 0) @ map Fin (gae_rec (drop m rows)), Fin (hd0 (gae_rec (drop m rows))))"
  using assms
proof (induction rule: inc_induct)
  case base
  show ?case by (simp add: hd0_def)
next
  case (step m)
  then have drop: "drop m rows = rows ! m # drop (Suc m) rows" by (simp add: Cons_nth_drop_Suc)
  have upt: "[m..<length rows] = m # [Suc m..<length rows]" using step.hyps by (simp add: upt_conv_Cons)
  have rep: "replicate (Suc m) (Fin 0) = replicate m (Fin 0) @ [Fin 0]"
    by (simp add: replicate_append_same)
  show ?case
    unfolding upt foldr.simps o_apply step.IH gae_step_row [OF step.hyps(2)] drop gae_rec.simps rep Let_def
    by (simp add: hd0_def list_update_append)
qed

lemma compute_gae_lane_rec:
  "compute_gae_lane (gae_input rows) =
     (map Fin (gae_rec rows), map2 (\<lambda>a r. Fin (a + gr_value r)) (gae_rec rows) rows)"
proof -
  have "foldl (gae_step (gae_input rows)) (replicate (length rows) (Fin 0), Fin 0) (rev [0..<length rows]) =
      (map Fin (gae_rec rows), Fin (hd0 (gae_rec rows)))"
    using gae_loop [of 0 rows] by (simp add: foldl_conv_foldr)
  moreover have "map2 pf_add (map Fin xs) (map (Fin \<circ> gr_value) rows) =
      map2 (\<lambda>a r. Fin (a + gr_value r)) xs rows" for xs
    by (simp add: zip_map1 zip_map2 split_def)
  ultimately show ?thesis by (simp add: compute_gae_lane_def gae_input_def Let_def)
qed

section \<open>Advantages of a prepared lane\<close>

text \<open>The tensors compute_gae receives for one prepared lane and the critic's two predictions.\<close>

definition gae_lane_of :: "lane_columns \<Rightarrow> rat list \<Rightarrow> rat list \<Rightarrow> gae_lane_input" where
  "gae_lane_of cols vs nvs =
     \<lparr>gi_rewards = lc_rewards cols, gi_values = map Fin vs, gi_next_values = map Fin nvs,
      gi_discounts = map Fin (lc_discounts cols), gi_gae_discounts = map Fin (lc_gae_discounts cols),
      gi_valids = map pf_of_bool (lc_valids cols)\<rparr>"

fun lane_rows ::
  "rat \<Rightarrow> rat \<Rightarrow> rat \<Rightarrow> bool list \<Rightarrow> lane_dones \<Rightarrow> rat list list \<Rightarrow> rat list \<Rightarrow> rat list \<Rightarrow> gae_row list" where
  "lane_rows gamma lam penalty (v # vals) (ds # dones) (rs # rewards) (x # xs) (nx # nxs) =
     (let us = (if v then up_to_first ds else replicate (length ds) False) in
      \<lparr>gr_reward = chunk_gain gamma us rs - penalty * b2r v, gr_value = x, gr_next_value = nx,
       gr_discount = chunk_discount gamma v (list_ex id ds) us,
       gr_gae_discount = chunk_discount (gamma * lam) v (list_ex id ds) us, gr_valid = b2r v\<rparr>
      # lane_rows gamma lam penalty vals dones rewards xs nxs)"
| "lane_rows gamma lam penalty _ _ _ _ _ = []"

lemma lc_valids_fold: "lc_valids (fold_lane gamma lam penalty h vals dones rewards) = vals"
  by (simp add: fold_lane_def Let_def)

lemma gae_input_Cons:
  "gae_input (r # rows) =
     \<lparr>gi_rewards = Fin (gr_reward r) # gi_rewards (gae_input rows),
      gi_values = Fin (gr_value r) # gi_values (gae_input rows),
      gi_next_values = Fin (gr_next_value r) # gi_next_values (gae_input rows),
      gi_discounts = Fin (gr_discount r) # gi_discounts (gae_input rows),
      gi_gae_discounts = Fin (gr_gae_discount r) # gi_gae_discounts (gae_input rows),
      gi_valids = Fin (gr_valid r) # gi_valids (gae_input rows)\<rparr>"
  by (simp add: gae_input_def)

lemma lane_rows_input:
  assumes "same_shape dones rewards" and "length vals = length dones"
    and "length vs = length dones" and "length nvs = length dones"
  shows "gae_lane_of (fold_lane gamma lam penalty h vals dones (map (map Fin) rewards)) vs nvs =
     gae_input (lane_rows gamma lam penalty vals dones rewards vs nvs)"
  using assms
proof (induction dones arbitrary: rewards vals vs nvs)
  case Nil
  then show ?case by (simp add: same_shape_def gae_lane_of_def gae_input_def)
next
  case (Cons ds dones)
  obtain rs rest where r: "rewards = rs # rest" "length rs = length ds" "same_shape dones rest"
    using Cons.prems(1) by (auto simp: same_shape_Cons)
  obtain v vals1 where v: "vals = v # vals1" using Cons.prems(2) by (cases vals) auto
  obtain x xs where x: "vs = x # xs" using Cons.prems(3) by (cases vs) auto
  obtain y ys where y: "nvs = y # ys" using Cons.prems(4) by (cases nvs) auto
  have ih: "gae_lane_of (fold_lane gamma lam penalty h vals1 dones (map (map Fin) rest)) xs ys =
      gae_input (lane_rows gamma lam penalty vals1 dones rest xs ys)"
    using Cons.prems r v x y by (intro Cons.IH) auto
  show ?case
    unfolding r v x y list.map fold_lane_Cons lane_rows.simps Let_def gae_input_Cons ih [symmetric]
    by (simp add: gae_lane_of_def chunk_reward_Fin lc_valids_fold)
qed

lemma length_lane_rows:
  "same_shape dones rewards \<Longrightarrow> length vals = length dones \<Longrightarrow> length vs = length dones \<Longrightarrow>
   length nvs = length dones \<Longrightarrow> length (lane_rows gamma lam penalty vals dones rewards vs nvs) = length dones"
proof -
  assume sh: "same_shape dones rewards" and rest: "length vals = length dones" "length vs = length dones"
    "length nvs = length dones"
  have "length rewards = length dones" using sh unfolding same_shape_def by (metis length_map)
  with rest show ?thesis
    by (induction gamma lam penalty vals dones rewards vs nvs rule: lane_rows.induct) (auto simp: Let_def)
qed

lemma lane_rows_values:
  assumes "same_shape dones rewards" and "length vals = length dones"
    and "length vs = length dones" and "length nvs = length dones"
  shows "map gr_value (lane_rows gamma lam penalty vals dones rewards vs nvs) = vs"
proof -
  have "gi_values (gae_lane_of (fold_lane gamma lam penalty 0 vals dones (map (map Fin) rewards)) vs nvs) =
      gi_values (gae_input (lane_rows gamma lam penalty vals dones rewards vs nvs))"
    by (simp only: lane_rows_input [OF assms])
  then have "map Fin vs = map Fin (map gr_value (lane_rows gamma lam penalty vals dones rewards vs nvs))"
    by (simp add: gae_lane_of_def gae_input_def)
  then show ?thesis by (simp add: inj_map_eq_map inj_def del: map_map)
qed

lemma drop_lane_rows:
  "drop s (lane_rows gamma lam penalty vals dones rewards vs nvs) =
     lane_rows gamma lam penalty (drop s vals) (drop s dones) (drop s rewards) (drop s vs) (drop s nvs)"
proof (induction gamma lam penalty vals dones rewards vs nvs arbitrary: s rule: lane_rows.induct)
  case (1 gamma lam penalty v vals ds dones rs rewards x xs nx nxs)
  then show ?case by (cases s) (auto simp: Let_def)
qed simp_all

text \<open>
  The critic looks at the same observation twice: as the successor of a slot, then as the next slot.
  The successors of a lane are its observations from the second one on and the final observation.
\<close>

definition successor_values :: "rat list \<Rightarrow> rat list \<Rightarrow> bool" where
  "successor_values vs nvs \<longleftrightarrow> length nvs = length vs \<and> (\<forall>s. Suc s < length vs \<longrightarrow> nvs ! s = vs ! Suc s)"

lemma successor_values_Cons:
  "successor_values (x # xs) (y # ys) \<longleftrightarrow> successor_values xs ys \<and> (xs \<noteq> [] \<longrightarrow> y = hd xs)"
  unfolding successor_values_def by (cases xs) (auto simp: nth_Cons' less_Suc_eq_0_disj gr0_conv_Suc)

lemma target_at_head:
  assumes "same_shape dones rewards" and "length vs = length dones" and "successor_values vs nvs"
    and "dones \<noteq> []"
  shows "hd0 (gae_rec (lane_rows gamma 1 penalty (replicate (length dones) True) dones rewards vs nvs)) + hd vs =
     flat_return gamma penalty dones rewards (last nvs)"
  using assms
proof (induction dones arbitrary: rewards vs nvs)
  case (Cons ds dones)
  obtain rs rest where r: "rewards = rs # rest" "length rs = length ds" "same_shape dones rest"
    using Cons.prems(1) by (auto simp: same_shape_Cons)
  obtain x xs where x: "vs = x # xs" using Cons.prems(2) by (cases vs) auto
  obtain y ys where y: "nvs = y # ys" using Cons.prems x by (cases nvs) (auto simp: successor_values_def)
  have succ: "successor_values xs ys" "xs \<noteq> [] \<Longrightarrow> y = hd xs"
    using Cons.prems(3) by (auto simp: x y successor_values_Cons)
  show ?case
  proof (cases "list_ex id ds")
    case True
    with r x y show ?thesis
      by (simp add: discount_cases gain_up_to_first flat_return_done hd0_def)
  next
    case live: False
    show ?thesis
    proof (cases "dones = []")
      case True
      then have "rest = []" "xs = []" "ys = []" using r x Cons.prems succ by (auto simp: same_shape_def successor_values_def)
      with True live r x y show ?thesis
        by (simp add: discount_cases gain_up_to_first flat_return_live hd0_def steps_until_none)
    next
      case False
      have lens: "length xs = length dones" "length ys = length xs"
        using Cons.prems(2) x succ by (auto simp: successor_values_def)
      with False have ne: "xs \<noteq> []" "ys \<noteq> []" by auto
      have ih: "hd0 (gae_rec (lane_rows gamma 1 penalty (replicate (length dones) True) dones rest xs ys)) + hd xs =
          flat_return gamma penalty dones rest (last ys)"
        using r(3) lens succ(1) False by (intro Cons.IH) auto
      show ?thesis
        using live r x y ne succ(2)
        by (simp add: discount_cases gain_up_to_first flat_return_live steps_until_none ih [symmetric])
           (simp add: hd0_def algebra_simps)
    qed
  qed
qed simp

lemma successor_values_map:
  "obs \<noteq> [] \<Longrightarrow> successor_values (map critic obs) (map critic (tl obs @ [e]))"
  by (cases obs) (auto simp: successor_values_def nth_append)

lemma same_shape_drop: "same_shape dones rewards \<Longrightarrow> same_shape (drop s dones) (drop s rewards)"
  by (simp add: same_shape_def drop_map [symmetric])

lemma successor_values_drop: "successor_values vs nvs \<Longrightarrow> successor_values (drop s vs) (drop s nvs)"
  by (auto simp: successor_values_def)

lemma lane_mask_lengths: "map length (lane_mask dones) = map length dones"
proof (induction dones)
  case Nil
  show ?case by (simp add: lane_mask_def)
next
  case (Cons ds dones)
  then show ?case by (simp add: lane_mask_Cons comp_def)
qed

lemma executed_concat: "sum_list (map executed_steps uss) = executed_steps (concat uss)"
  by (induction uss) (auto simp: executed_steps_def)

lemma grfpo_lane_masks:
  "lc_action_valids (grfpo_lane gamma lam penalty h dones rewards) =
     map (\<lambda>u. u @ replicate (h - length u) False) (lane_mask dones)"
  "lc_durations (grfpo_lane gamma lam penalty h dones rewards) = map executed_steps (lane_mask dones)"
  "lc_valids (grfpo_lane gamma lam penalty h dones rewards) = up_to_first (chunk_dones dones)"
  by (simp_all add: grfpo_lane_def fold_lane_def lane_mask_def Let_def)

lemma chunks_reached:
  assumes "\<forall>ds \<in> set dones. length ds = k" and "0 < k" and "dones \<noteq> []"
  shows "0 < steps_until (concat dones) \<and>
    steps_until (chunk_dones dones) = (steps_until (concat dones) - 1) div k + 1"
  using assms
proof (induction dones)
  case (Cons ds dones)
  have ds: "length ds = k" "ds \<noteq> []" using Cons.prems by auto
  have pos: "0 < steps_until ds" "steps_until ds \<le> k" using ds steps_until_le [of ds] by (cases ds; auto)+
  show ?case
  proof (cases "list_ex id ds")
    case True
    with pos Cons.prems(2) show ?thesis by (simp add: steps_until_append)
  next
    case live: False
    show ?thesis
    proof (cases "dones = []")
      case True
      with live ds Cons.prems(2) show ?thesis by (simp add: steps_until_none)
    next
      case False
      with Cons have ih: "0 < steps_until (concat dones)"
        "steps_until (chunk_dones dones) = (steps_until (concat dones) - 1) div k + 1" by auto
      then obtain m where m: "steps_until (concat dones) = Suc m" by (auto simp: gr0_conv_Suc)
      with ih(2) live ds Cons.prems(2) show ?thesis by (simp add: steps_until_append)
    qed
  qed
qed simp

lemma final_step_until: "dones \<noteq> [] \<Longrightarrow> final_step dones + 1 = steps_until dones"
  by (cases dones) (auto simp: final_step_def steps_until_def split: option.splits)

section \<open>Properties\<close>

text \<open>
  C21. The targets of the FPO trainer with lambda = 1 are Monte-Carlo returns. For a lane of chunks as
  \<open>prepare_fpo_actor_input\<close> folds them (every collected slot counts, an ended environment goes on
  with its next episode) and a critic whose value is a function of the observation, evaluated on
  the observations of the slots and on their aligned successors, the value target of every slot is
  the return of the steps executed from there to the end of the episode the slot is in:
  their discounted rewards, one discounted penalty per chunk, and the critic's value of the
  final observation, discounted, only if that episode does not end within the lane. The backward loop,
  the chunk folding and the masks together never leak a reward or a value across an episode end.
\<close>

theorem lambda_one_targets_are_monte_carlo:
  assumes "same_shape dones rewards" and "length obs = length dones" and "s < length dones"
  shows "snd (compute_gae_lane
           (gae_lane_of (fpo_lane gamma 1 penalty h dones (map (map Fin) rewards))
             (map critic obs) (map critic (tl obs @ [end_obs])))) ! s =
     Fin (flat_return gamma penalty (drop s dones) (drop s rewards) (critic end_obs))"
proof -
  let ?vs = "map critic obs" and ?nvs = "map critic (tl obs @ [end_obs])" and ?ok = "replicate (length dones) True"
  let ?rows = "lane_rows gamma 1 penalty ?ok dones rewards ?vs ?nvs"
  have ne: "obs \<noteq> []" using assms(2,3) by auto
  have succ: "successor_values ?vs ?nvs" by (rule successor_values_map [OF ne])
  have lens: "length ?vs = length dones" "length ?nvs = length dones" using assms(2) ne by (cases obs; simp)+
  have n: "length ?rows = length dones" using assms(1) lens by (intro length_lane_rows) auto
  have "gae_lane_of (fpo_lane gamma 1 penalty h dones (map (map Fin) rewards)) ?vs ?nvs = gae_input ?rows"
    using assms(1) lens unfolding fpo_lane_def by (intro lane_rows_input) auto
  then have "snd (compute_gae_lane
      (gae_lane_of (fpo_lane gamma 1 penalty h dones (map (map Fin) rewards)) ?vs ?nvs)) ! s =
      Fin (gae_rec ?rows ! s + gr_value (?rows ! s))"
    using assms(3) n by (simp add: compute_gae_lane_rec)
  also have "gae_rec ?rows ! s = hd0 (drop s (gae_rec ?rows))"
    using assms(3) n by (simp add: hd0_def hd_drop_conv_nth split: list.splits)
       (metis Cons_nth_drop_Suc length_gae_rec list.inject)
  also have "gr_value (?rows ! s) = hd (drop s ?vs)"
    using lane_rows_values [OF assms(1) _ lens] assms(3) n lens
    by (metis hd_drop_conv_nth length_replicate nth_map)
  also have "hd0 (drop s (gae_rec ?rows)) + hd (drop s ?vs) =
      flat_return gamma penalty (drop s dones) (drop s rewards) (last (drop s ?nvs))"
  proof -
    have "drop s ?rows =
        lane_rows gamma 1 penalty (replicate (length (drop s dones)) True) (drop s dones) (drop s rewards)
          (drop s ?vs) (drop s ?nvs)"
      by (simp only: drop_lane_rows drop_replicate length_drop)
    then show ?thesis
      using target_at_head [of "drop s dones" "drop s rewards" "drop s ?vs" "drop s ?nvs" gamma penalty]
        same_shape_drop [OF assms(1), of s] successor_values_drop [OF succ, of s] assms(3) lens
      by (simp only: drop_gae_rec length_drop drop_eq_Nil not_le simp_thms)
  qed
  also have "last (drop s ?nvs) = last ?nvs" using assms(3) lens(2) by (intro last_drop) simp
  also have "last ?nvs = critic end_obs" by simp
  finally show ?thesis .
qed

theorem lambda_one_targets_are_monte_carlo_witness:
  "snd (compute_gae_lane (gae_lane_of
      (fpo_lane (1 / 2) 1 (1 / 4) 3 [[False, False], [False, True], [False, False]]
        (map (map Fin) [[1, 2], [4, 8], [16, 32]])) (map (\<lambda>x. 10 * x) [1, 2, 3]) (map (\<lambda>x. 10 * x) (tl [1, 2, 3] @ [4])))) ! 0 =
   Fin (flat_return (1 / 2) (1 / 4) [[False, False], [False, True], [False, False]]
      [[1, 2], [4, 8], [16, 32]] 40) \<and>
   flat_return (1 / 2) (1 / 4) [[False, False], [False, True], [False, False]]
      [[1, 2], [4, 8], [16, 32]] 40 = 59 / 16"
  using lambda_one_targets_are_monte_carlo
    [of "[[False, False], [False, True], [False, False]]" "[[1, 2], [4, 8], [16, 32]]" "[1, 2, 3]" 0
        "1 / 2" "1 / 4" 3 "\<lambda>x. 10 * x" 4]
  by (simp add: same_shape_def flat_return_def power2_eq_square eval_nat_numeral)

text \<open>
  C22. The masks of a prepared lane describe the executed prefix of its episode. Read along the
  lane, the action mask of the executed positions is the flat mask "no done step strictly
  before"; a chunk is valid exactly if no earlier chunk ended the episode; positions the
  environment never executed are masked; and the audit record written for the lane counts the
  same steps and the same policy calls as these masks.
\<close>

theorem prepared_masks_are_the_executed_prefix:
  assumes "dones \<noteq> []" and "\<forall>ds \<in> set dones. length ds = k" and "0 < k" and "k \<le> h"
    and "map2 (\<or>) te tr = concat dones"
  shows "concat (map (take k) (lc_action_valids (grfpo_lane gamma lam penalty h dones rewards))) =
           up_to_first (concat dones) \<and>
     (\<forall>us \<in> set (lc_action_valids (grfpo_lane gamma lam penalty h dones rewards)).
           length us = h \<and> drop k us = replicate (h - k) False) \<and>
     (\<forall>s < length dones. lc_valids (grfpo_lane gamma lam penalty h dones rewards) ! s \<longleftrightarrow>
           (\<forall>j<s. \<not> list_ex id (dones ! j))) \<and>
     au_action_steps (summarize_lane (length dones) k te tr su rs) =
           sum_list (lc_durations (grfpo_lane gamma lam penalty h dones rewards)) \<and>
     au_policy_calls (summarize_lane (length dones) k te tr su rs) =
           length (filter id (lc_valids (grfpo_lane gamma lam penalty h dones rewards)))"
proof -
  have len: "length u = k" if "u \<in> set (lane_mask dones)" for u
  proof -
    have "length u \<in> set (map length (lane_mask dones))" using that by simp
    then show ?thesis using assms(2) by (auto simp: lane_mask_lengths)
  qed
  have "map (take k) (map (\<lambda>u. u @ replicate (h - length u) False) (lane_mask dones)) = lane_mask dones"
    by (simp add: map_idI len)
  then have mask: "concat (map (take k) (lc_action_valids (grfpo_lane gamma lam penalty h dones rewards))) =
      up_to_first (concat dones)" by (simp only: grfpo_lane_masks concat_lane_mask)
  have rows: "\<forall>us \<in> set (lc_action_valids (grfpo_lane gamma lam penalty h dones rewards)).
      length us = h \<and> drop k us = replicate (h - k) False"
    using assms(4) by (auto simp: grfpo_lane_masks len)
  have valids: "\<forall>s < length dones. lc_valids (grfpo_lane gamma lam penalty h dones rewards) ! s \<longleftrightarrow>
      (\<forall>j<s. \<not> list_ex id (dones ! j))"
    by (auto simp: grfpo_lane_masks up_to_first_nth chunk_dones_def)
  have "concat dones \<noteq> []" using assms(1-3) by (cases dones) auto
  then have final: "steps_until (concat dones) = final_step (concat dones) + 1"
    by (rule final_step_until [symmetric])
  have calls: "steps_until (chunk_dones dones) = final_step (concat dones) div k + 1"
    using chunks_reached [OF assms(2,3,1)] unfolding final by simp
  have "sum_list (lc_durations (grfpo_lane gamma lam penalty h dones rewards)) = final_step (concat dones) + 1"
    by (simp only: grfpo_lane_masks executed_concat concat_lane_mask executed_up_to_first final)
  moreover have "length (filter id (lc_valids (grfpo_lane gamma lam penalty h dones rewards))) =
      final_step (concat dones) div k + 1"
    using executed_up_to_first [of "chunk_dones dones"]
    by (simp only: grfpo_lane_masks executed_steps_def calls)
  moreover have "final_step (concat dones) div k + 1 \<le> length dones"
    using steps_until_le [of "chunk_dones dones"] by (simp only: calls chunk_dones_simps)
  ultimately show ?thesis
    using mask rows valids by (simp only: summarize_lane_def assms(5) Let_def lane_audit.simps min_absorb2 simp_thms)
qed

theorem prepared_masks_are_the_executed_prefix_witness:
  "concat (map (take 2) (lc_action_valids (grfpo_lane 1 1 0 3 [[False, False], [True, False], [False, False]]
       [[Fin 1, Fin 1], [Fin 1, Fin 1], [Fin 1, Fin 1]]))) = [True, True, True, False, False, False]"
  using prepared_masks_are_the_executed_prefix
    [of "[[False, False], [True, False], [False, False]]" 2 3 "[False, False, True, False, False, False]"
        "[False, False, False, False, False, False]" 1 1 0
        "[[Fin 1, Fin 1], [Fin 1, Fin 1], [Fin 1, Fin 1]]" "[]" "[]"]
  by simp

end
