(* ===== verification/Fpo_Batch.thy ===== *)
theory Fpo_Batch
  imports Fpo_Transitions
begin

text \<open>
  The batch that prepare_fpo_actor_input returns: every observation field has its exact
  successor, and every column of the update has the shape the worker expects.
\<close>

section \<open>Successor observations\<close>

definition is_next_key :: "string \<Rightarrow> bool" where
  "is_next_key k \<longleftrightarrow> strip_prefix NEXT_OBS_PREFIX k \<noteq> None"

lemma is_next_append [simp]: "is_next_key (NEXT_OBS_PREFIX @ f)"
  by (simp add: is_next_key_def strip_prefix_iff)

lemma obs_key_cases: "strip_prefix OBS_PREFIX k = Some f \<Longrightarrow> k = OBS_PREFIX @ f \<and> obs_field k = f"
  by (simp add: strip_prefix_iff obs_field_def)

lemma obs_not_next: "strip_prefix OBS_PREFIX k \<noteq> None \<Longrightarrow> \<not> is_next_key k"
  by (auto simp: is_next_key_def strip_prefix_iff OBS_PREFIX_def NEXT_OBS_PREFIX_def)

lemma align_fields_other:
  "align_fields b s ends ks fs = Inr fs' \<Longrightarrow> \<not> is_next_key k \<Longrightarrow> map_of fs' k = map_of fs k"
proof (induction ks arbitrary: fs)
  case (Cons a ks)
  have ne: "k \<noteq> NEXT_OBS_PREFIX @ obs_field a" using Cons.prems(2) is_next_append by metis
  obtain obs e t where "map_of fs a = Some obs" "map_of ends (obs_field a) = Some e"
    and "align_fields b s ends ks (AList.update (NEXT_OBS_PREFIX @ obs_field a) t fs) = Inr fs'"
    using Cons.prems(1) by (auto simp: res_simps split: option.splits)
  from Cons.IH [OF this(3) Cons.prems(2)] ne show ?case by simp
qed simp

lemma align_fields_unwritten:
  "align_fields b s ends ks fs = Inr fs' \<Longrightarrow> f \<notin> obs_field ` set ks \<Longrightarrow>
   map_of fs' (NEXT_OBS_PREFIX @ f) = map_of fs (NEXT_OBS_PREFIX @ f)"
proof (induction ks arbitrary: fs)
  case (Cons a ks)
  then obtain obs e t where "map_of fs a = Some obs" "map_of ends (obs_field a) = Some e"
    and "align_fields b s ends ks (AList.update (NEXT_OBS_PREFIX @ obs_field a) t fs) = Inr fs'"
    by (auto simp: res_simps split: option.splits)
  from Cons.IH [OF this(3)] Cons.prems(2) show ?case by simp
qed simp

lemma obs_field_inj:
  "strip_prefix OBS_PREFIX k \<noteq> None \<Longrightarrow> strip_prefix OBS_PREFIX k' \<noteq> None \<Longrightarrow>
   obs_field k = obs_field k' \<Longrightarrow> k = k'"
  by (auto dest: obs_key_cases)

lemma align_fields_written:
  assumes "align_fields b s ends ks fs = Inr fs'" and "distinct ks"
    and "\<forall>k \<in> set ks. strip_prefix OBS_PREFIX k \<noteq> None" and "k \<in> set ks"
  shows "\<exists>t e u. map_of fs k = Some t \<and> map_of ends (obs_field k) = Some e \<and> next_of b s t e = Inr u \<and>
           map_of fs' (NEXT_OBS_PREFIX @ obs_field k) = Some u"
  using assms
proof (induction ks arbitrary: fs)
  case (Cons a ks)
  obtain obs e t where a: "map_of fs a = Some obs" "map_of ends (obs_field a) = Some e"
    "next_of b s obs e = Inr t"
    and rest: "align_fields b s ends ks (AList.update (NEXT_OBS_PREFIX @ obs_field a) t fs) = Inr fs'"
    using Cons.prems(1) by (auto simp: res_simps split: option.splits)
  show ?case
  proof (cases "k = a")
    case True
    have "obs_field a \<notin> obs_field ` set ks"
      using Cons.prems(2,3) obs_field_inj by (auto simp: image_iff) metis
    from align_fields_unwritten [OF rest this] a True show ?thesis by simp
  next
    case False
    then have k: "k \<in> set ks" using Cons.prems(4) by simp
    have "k \<noteq> NEXT_OBS_PREFIX @ obs_field a"
      using obs_not_next [of k] Cons.prems(3,4) is_next_append by metis
    then show ?thesis using Cons.IH [OF rest] Cons.prems(2,3) k by simp
  qed
qed simp

lemma next_of_step:
  assumes "next_of b s t e = Inr u" and "tn_ok t" and "tn_ok e" and "j < s"
  shows "tn_shape u = tn_shape t \<and> tn_step j u = (if Suc j < s then tn_step (Suc j) t else e)"
proof -
  obtain tr where tr: "tn_trail t = s # tr" "length (tn_rows t) = b" "tn_trail e = tr" "length (tn_rows e) = b"
    and u: "u = tn_cat1 (tn_from1 t) (tn_repeat1 1 e)"
    using assms(1) by (cases "tn_trail t") (auto simp: next_of_def tn_shape_def split: if_splits)
  let ?w = "prod_list tr"
  have rows: "length r = s * ?w" if "r \<in> set (tn_rows t)" for r using assms(2) that tr by (simp add: tn_ok_def)
  have ends: "length r = ?w" if "r \<in> set (tn_rows e)" for r using assms(3) that tr by (simp add: tn_ok_def)
  have trail: "tn_trail u = s # tr" using assms(4) tr by (simp add: u tn_cat1_def tn_from1_def tn_repeat1_def)
  have urows: "tn_rows u = map2 (\<lambda>r x. drop ?w r @ x) (tn_rows t) (tn_rows e)"
    using tr by (simp add: u tn_cat1_def tn_from1_def tn_repeat1_def zip_map1 split_def)
  have shape: "tn_shape u = tn_shape t" using trail urows tr by (simp add: tn_shape_def)
  have cell: "take ?w (drop (j * ?w) (drop ?w r @ x)) = (if Suc j < s then take ?w (drop (Suc j * ?w) r) else x)"
    if "length r = s * ?w" "length x = ?w" for r x :: "'a list"
  proof (cases "Suc j < s")
    case True
    then have "Suc (Suc j) * ?w \<le> s * ?w" by (intro mult_le_mono1) simp
    with that True show ?thesis by (simp add: add.commute)
  next
    case False
    with assms(4) have "s = Suc j" by simp
    with that show ?thesis by simp
  qed
  have "map (\<lambda>r. take ?w (drop (j * ?w) r)) (tn_rows u) =
      (if Suc j < s then map (\<lambda>r. take ?w (drop (Suc j * ?w) r)) (tn_rows t) else tn_rows e)"
    by (rule nth_equalityI) (use tr in \<open>auto simp: urows cell rows ends simp del: drop_append mult_Suc\<close>)
  then show ?thesis
    using shape trail tr by (auto simp: tn_step_def Let_def)
qed

section \<open>Shapes\<close>

lemma grid3_Inr:
  "grid3 t = Inr g \<longleftrightarrow> (\<exists>s k. tn_trail t = [s, k] \<and> g = map (chunks k s) (tn_rows t))"
  by (auto simp: grid3_def split: list.splits)

lemma axis2_Inr: "axis2 t = Inr k \<longleftrightarrow> (\<exists>s r. tn_trail t = s # k # r)"
  by (auto simp: axis2_def split: list.splits)

lemma bool_grid_Inr:
  "bool_grid key d = Inr g \<longleftrightarrow>
     (\<exists>t s k. dp_get key d = Inr t \<and> tn_trail t = [s, k] \<and>
        g = map (map (map pf_bool)) (map (chunks k s) (tn_rows t)))"
  by (auto simp: bool_grid_def res_simps grid3_Inr)

lemma bind_InrE:
  assumes "bind_res r f = Inr y"
  obtains x where "r = Inr x" and "f x = Inr y"
  using assms by (cases r) auto

text \<open>The step tensors of the batch have B rows each, as a TensorDict guarantees.\<close>

definition has_rows :: "nat \<Rightarrow> 'n data_proto \<Rightarrow> bool" where
  "has_rows b d \<longleftrightarrow>
     (\<forall>k \<in> set (step_keys @ [''next.score'']). \<forall>t. dp_get k d = Inr t \<longrightarrow> length (tn_rows t) = b)"

definition lane_grid_ok :: "nat \<Rightarrow> nat \<Rightarrow> 'a list list \<Rightarrow> bool" where
  "lane_grid_ok s k lane \<longleftrightarrow> length lane = s \<and> (\<forall>c \<in> set lane. length c \<le> k)"

lemma chunks_grid_ok [simp]: "lane_grid_ok s k (chunks k s r)"
  by (auto simp: lane_grid_ok_def chunks_def)

lemma map_grid_ok [simp]: "lane_grid_ok s k (map (map f) lane) = lane_grid_ok s k lane"
  by (simp add: lane_grid_ok_def)

lemma or_grid_ok: "lane_grid_ok s k a \<Longrightarrow> lane_grid_ok s k b \<Longrightarrow> lane_grid_ok s k (map2 (map2 (\<or>)) a b)"
  by (auto simp: lane_grid_ok_def dest!: set_zip_leftD)

lemma or_grid_lanes:
  assumes "\<forall>lane \<in> set a. lane_grid_ok s k lane" and "\<forall>lane \<in> set b. lane_grid_ok s k lane"
  shows "\<forall>lane \<in> set (or_grid a b). lane_grid_ok s k lane"
proof
  fix lane
  assume "lane \<in> set (or_grid a b)"
  then obtain x y where "(x, y) \<in> set (zip a b)" "lane = map2 (map2 (\<or>)) x y" by (auto simp: or_grid_def)
  moreover from this(1) have "x \<in> set a" "y \<in> set b" by (auto dest: set_zip_leftD set_zip_rightD)
  ultimately show "lane_grid_ok s k lane" using assms by (auto intro: or_grid_ok)
qed

lemma step_feedback_shapes:
  assumes "step_feedback d = Inr fb" and "has_rows b d"
  obtains te full s k h z r where "dp_get ''next.terminated'' d = Inr te" and "tn_trail te = [s, k]"
    and "dp_get ''action.full_action'' d = Inr full" and "tn_trail full = z # h # r" and "k \<le> h"
    and "fb_slots fb = s" and "fb_actions fb = h" and "length (fb_dones fb) = b" and "length (fb_rewards fb) = b"
    and "length (fb_success fb) = b" and "\<forall>lane \<in> set (fb_dones fb). lane_grid_ok s k lane"
proof -
  obtain te tr re su full h k s z r where get: "dp_get ''next.terminated'' d = Inr te" "dp_get ''next.truncated'' d = Inr tr"
    "dp_get ''next.reward'' d = Inr re" "dp_get ''next.success'' d = Inr su"
    "dp_get ''action.full_action'' d = Inr full"
    and trail: "tn_trail te = [s, k]" "tn_trail tr = [s, k]" "tn_trail re = [s, k]" "tn_trail full = z # h # r" and le: "k \<le> h"
    and fb: "fb = \<lparr>fb_slots = s, fb_actions = h,
      fb_dones = or_grid (map (map (map pf_bool)) (map (chunks k s) (tn_rows te)))
                   (map (map (map pf_bool)) (map (chunks k s) (tn_rows tr))),
      fb_rewards = map (chunks k s) (tn_rows re), fb_success = lane_success su\<rparr>"
    using assms(1) unfolding step_feedback_def
    by (elim bind_InrE)
       (clarsimp simp: bool_grid_Inr grid3_Inr axis2_Inr same_grid_shape_def tn_shape_def require_Inr_iff)
  have rows: "length (tn_rows te) = b" "length (tn_rows tr) = b" "length (tn_rows re) = b" "length (tn_rows su) = b"
    using get assms(2) by (auto simp: has_rows_def step_keys_def)
  have "\<forall>lane \<in> set (fb_dones fb). lane_grid_ok s k lane"
    unfolding fb feedback.simps by (rule or_grid_lanes) auto
  with get trail le rows show thesis
    by (intro that [of te s k full z h r]) (simp_all add: fb or_grid_def lane_success_def)
qed

text \<open>The masks of a lane in its own terms: \<open>k\<close> executed positions out of a horizon \<open>h\<close>.\<close>

definition lane_masked :: "nat \<Rightarrow> nat \<Rightarrow> nat \<Rightarrow> lane_columns \<Rightarrow> bool" where
  "lane_masked s k h l \<longleftrightarrow>
     (\<forall>j < s. drop k (lc_action_valids l ! j) = replicate (h - k) False \<and>
        (\<not> lc_valids l ! j \<longrightarrow> lc_action_valids l ! j = replicate h False) \<and>
        lc_durations l ! j = length (filter id (lc_action_valids l ! j)))"

definition lane_typed :: "nat \<Rightarrow> nat \<Rightarrow> lane_columns \<Rightarrow> bool" where
  "lane_typed s h l \<longleftrightarrow>
     length (lc_rewards l) = s \<and> length (lc_dones l) = s \<and> length (lc_durations l) = s \<and>
     length (lc_discounts l) = s \<and> length (lc_gae_discounts l) = s \<and> length (lc_valids l) = s \<and>
     length (lc_action_valids l) = s \<and> (\<forall>c \<in> set (lc_action_valids l). length c = h)"

lemma length_up_to_first' [simp]: "length (up_to_first ds) = length ds"
proof -
  have "length (cumsum_from n ds) = length ds" for n by (induction ds arbitrary: n) (auto simp: Let_def)
  then show ?thesis by (simp add: up_to_first_def)
qed

lemma fold_lane_typed:
  assumes "lane_grid_ok s h dones" and "length vals = s"
  shows "lane_typed s h (fold_lane gamma lam penalty h vals dones rewards)"
  using assms
  by (auto simp: lane_typed_def fold_lane_def lane_grid_ok_def valid_substeps_def chunk_dones_def Let_def
      dest!: set_zip_rightD)

lemma fold_lane_masked:
  assumes "lane_grid_ok s k dones" and "length vals = s" and "k \<le> h"
  shows "lane_masked s k h (fold_lane gamma lam penalty h vals dones rewards)"
  unfolding lane_masked_def
proof (intro allI impI)
  fix j
  assume j: "j < s"
  let ?us = "map (\<lambda>u. u \<and> vals ! j) (up_to_first (dones ! j))"
  let ?row = "?us @ replicate (h - length ?us) False"
  have d: "length dones = s" "length (dones ! j) \<le> k" using assms(1) j by (auto simp: lane_grid_ok_def)
  have cells: "lc_action_valids (fold_lane gamma lam penalty h vals dones rewards) ! j = ?row"
    "lc_durations (fold_lane gamma lam penalty h vals dones rewards) ! j = executed_steps ?us"
    "lc_valids (fold_lane gamma lam penalty h vals dones rewards) ! j = vals ! j"
    using j d assms(2) by (simp_all add: fold_lane_def valid_substeps_def Let_def)
  have "drop k ?row = replicate (h - k) False" using d assms(3) by simp
  moreover have "\<not> vals ! j \<longrightarrow> ?row = replicate h False"
    using d assms(3) by (auto simp: map_replicate_const replicate_add [symmetric])
  moreover have "executed_steps ?us = length (filter id ?row)" by (simp add: executed_steps_def)
  ultimately show "drop k (lc_action_valids (fold_lane gamma lam penalty h vals dones rewards) ! j) = replicate (h - k) False \<and>
      (\<not> lc_valids (fold_lane gamma lam penalty h vals dones rewards) ! j \<longrightarrow>
        lc_action_valids (fold_lane gamma lam penalty h vals dones rewards) ! j = replicate h False) \<and>
      lc_durations (fold_lane gamma lam penalty h vals dones rewards) ! j =
        length (filter id (lc_action_valids (fold_lane gamma lam penalty h vals dones rewards) ! j))"
    unfolding cells by blast
qed

lemma grfpo_lane_masked:
  "lane_grid_ok s k dones \<Longrightarrow> k \<le> h \<Longrightarrow> lane_masked s k h (grfpo_lane gamma lam penalty h dones rewards)"
  unfolding grfpo_lane_def by (rule fold_lane_masked) (auto simp: lane_grid_ok_def chunk_dones_def)

lemma lane_grid_mono: "lane_grid_ok s k lane \<Longrightarrow> k \<le> h \<Longrightarrow> lane_grid_ok s h lane"
  by (auto simp: lane_grid_ok_def)

lemma grfpo_lane_typed: "lane_grid_ok s h dones \<Longrightarrow> lane_typed s h (grfpo_lane gamma lam penalty h dones rewards)"
  unfolding grfpo_lane_def by (rule fold_lane_typed) (auto simp: lane_grid_ok_def chunk_dones_def)

lemma dp_get_put_meta [simp]: "dp_get k (put_meta kvs d) = dp_get k d"
  by (simp add: dp_get_def put_meta_def)

lemma dp_get_drop: "dp_get k (dp_drop ks d) = (if k \<in> set ks then Inl KeyError else dp_get k d)"
proof -
  have "map_of (filter (\<lambda>(k, _). k \<notin> set ks) xs) k = (if k \<in> set ks then None else map_of xs k)" for xs :: "(string \<times> pyfloat tensor) list"
    by (induction xs) auto
  then show ?thesis by (auto simp: dp_get_def dp_drop_def)
qed

section \<open>The prepared batch\<close>

definition aligned_keys :: "'n data_proto \<Rightarrow> string list" where
  "aligned_keys d = obs_keys (dp_tensors (exclude_profile d))"

lemma map_of_filter_key: "map_of (filter (\<lambda>(k, _). P k) xs) k = (if P k then map_of xs k else None)"
  by (induction xs) auto

lemma dp_get_exclude: "dp_get k (exclude_profile d) = (if is_profile_key k then Inl KeyError else dp_get k d)"
  by (auto simp: dp_get_def exclude_profile_def map_of_filter_key)

lemma dp_get_Inr: "dp_get k d = Inr t \<longleftrightarrow> map_of (dp_tensors d) k = Some t"
  by (auto simp: dp_get_def split: option.splits)

lemma align_rollout_tensors:
  assumes "align_rollout metadata d ends = Inr d'"
  shows "\<exists>b s. align_fields b s (dp_tensors ends) (obs_keys (dp_tensors d)) (dp_tensors d) = Inr (dp_tensors d') \<and>
           b = dp_len d \<and> (\<exists>act r. dp_get ''action.action'' d = Inr act \<and> tn_trail act = s # r)"
  using assms unfolding align_rollout_def
proof (elim bind_InrE)
  fix act
  assume act: "dp_get ''action.action'' d = Inr act"
    and rest: "(case tn_trail act of [] \<Rightarrow> Inl IndexError
      | s # _ \<Rightarrow> let b = dp_len d in
          bind_res (align_fields b s (dp_tensors ends) (obs_keys (dp_tensors d)) (dp_tensors d)) (\<lambda>ts.
          bind_res (align_fields b s (dp_arrays ends)
             (filter (\<lambda>k. obs_field k \<notin> set metadata) (obs_keys (dp_arrays d))) (dp_arrays d)) (\<lambda>as.
            Inr (d\<lparr>dp_tensors := ts, dp_arrays := as\<rparr>)))) = Inr d'"
  then show ?thesis by (cases "tn_trail act") (auto simp: res_simps Let_def)
qed

lemma not_next_keys:
  "\<not> is_next_key ''next.terminated''" "\<not> is_next_key ''next.truncated''" "\<not> is_next_key ''next.reward''"
  "\<not> is_next_key ''next.success''" "\<not> is_next_key ''next.score''"
  by (simp_all add: is_next_key_def NEXT_OBS_PREFIX_def)

lemma align_rollout_get:
  "align_rollout metadata d ends = Inr d' \<Longrightarrow> \<not> is_next_key k \<Longrightarrow> dp_get k d' = dp_get k d"
  using align_rollout_tensors align_fields_other by (fastforce simp: dp_get_def)

text \<open>The result of the GRFPO trainer's function, taken apart.\<close>

lemma prepare_grfpo_parts:
  assumes "prepare_grfpo_actor_input cfg g rollout ends = Inr out"
  obtains d fb scores where "align_rollout trajectory_metadata_fields (exclude_profile rollout) ends = Inr d"
    and "lane_process_scores d = Inr scores" and "step_feedback d = Inr fb"
    and "out = grfpo_output cfg g d fb scores"
  using assms unfolding prepare_grfpo_actor_input_def
  by (elim bind_InrE) (auto intro: that)

lemma score_length:
  assumes "lane_process_scores d = Inr scores" and "has_rows b d"
  shows "length scores = b"
proof (cases "dp_get ''next.score'' d")
  case (Inl e)
  then show ?thesis using assms
    by (auto simp: lane_process_scores_def res_simps has_rows_def step_keys_def lane_success_def)
next
  case (Inr sc)
  then have "length (tn_rows sc) = b" using assms(2) by (simp add: has_rows_def)
  with Inr assms show ?thesis
    by (auto simp: lane_process_scores_def res_simps terminal_trajectory_scores_def score_view_def Let_def
        done_rows_def has_rows_def step_keys_def dest!: traverse_length split: if_splits)
qed

definition shaped :: "string \<Rightarrow> nat list \<Rightarrow> 'n data_proto \<Rightarrow> bool" where
  "shaped k sh d \<longleftrightarrow> (\<exists>t. dp_get k d = Inr t \<and> tn_shape t = sh \<and> tn_ok t)"

lemma shaped_simps:
  "shaped k sh (put_meta kvs d) = shaped k sh d"
  "shaped k sh (dp_put k' t d) = (if k = k' then tn_shape t = sh \<and> tn_ok t else shaped k sh d)"
  by (simp_all add: shaped_def)

lemma grid_shapes:
  "tn_shape (of_grid2 s (map f ls)) = [length ls, s]"
  "tn_shape (of_grid1 xs) = [length xs]" "tn_ok (of_grid1 xs)"
  "tn_shape (of_grid3 s h (map f3 ls)) = [length ls, s, h]"
  "\<forall>l \<in> set ls. length (f l) = s \<Longrightarrow> tn_ok (of_grid2 s (map f ls))"
  "\<forall>l \<in> set ls. length (f3 l) = s \<and> (\<forall>r \<in> set (f3 l). length r = h) \<Longrightarrow> tn_ok (of_grid3 s h (map f3 ls))"
  by (auto simp: tn_shape_def tn_ok_def of_grid2_def of_grid1_def of_grid3_def length_concat_uniform)

definition info_columns :: "string list" where
  "info_columns = [''info.rewards'', ''info.dones'', ''info.durations'', ''info.discounts'',
     ''info.gae_discounts'', ''info.valids'']"

lemma put_columns_shaped:
  assumes "\<forall>l \<in> set ls. lane_typed s h l"
  shows "(\<forall>k \<in> set info_columns. shaped k [length ls, s] (put_durations s ls (put_columns s h ls d))) \<and>
    shaped ''info.action_valids'' [length ls, s, h] (put_durations s ls (put_columns s h ls d))"
  using assms
  by (auto simp: info_columns_def put_columns_def put_durations_def shaped_simps Let_def lane_typed_def grid_shapes
      intro!: grid_shapes(5,6))

text \<open>
  The masks of a batch: the action mask is one of zeros and ones that is zero outside the \<open>k\<close>
  executed positions and in every invalid chunk, and a duration is the number of its ones.
\<close>

definition masks_agree :: "nat \<Rightarrow> nat \<Rightarrow> nat \<Rightarrow> nat \<Rightarrow> 'n data_proto \<Rightarrow> bool" where
  "masks_agree b s k h d \<longleftrightarrow>
     (\<exists>va du av g. dp_get ''info.valids'' d = Inr va \<and> dp_get ''info.durations'' d = Inr du \<and>
        dp_get ''info.action_valids'' d = Inr av \<and> grid3 av = Inr g \<and>
        (\<forall>i < b. \<forall>j < s. set (g ! i ! j) \<subseteq> {Fin 0, Fin 1} \<and>
           drop k (g ! i ! j) = replicate (h - k) (Fin 0) \<and>
           tn_rows va ! i ! j \<in> {Fin 0, Fin 1} \<and>
           (tn_rows va ! i ! j = Fin 0 \<longrightarrow> g ! i ! j = replicate h (Fin 0)) \<and>
           tn_rows du ! i ! j = pf_sum (g ! i ! j)))"

lemma count_trues: "sum_list (map b2r us) = of_nat (length (filter id us))"
  by (induction us) (auto simp: b2r_def)

lemma columns_agree:
  assumes "\<forall>l \<in> set ls. lane_typed s h l \<and> lane_masked s k h l"
  shows "masks_agree (length ls) s k h (put_durations s ls (put_columns s h ls d))"
proof -
  let ?out = "put_durations s ls (put_columns s h ls d)"
  let ?va = "of_grid2 s (map (map pf_of_bool \<circ> lc_valids) ls)"
  let ?du = "of_grid2 s (map (map Fin \<circ> (map of_nat \<circ> lc_durations)) ls)"
  let ?g = "map (map (map pf_of_bool) \<circ> lc_action_valids) ls"
  have get: "dp_get ''info.valids'' ?out = Inr ?va" "dp_get ''info.durations'' ?out = Inr ?du"
    "dp_get ''info.action_valids'' ?out = Inr (of_grid3 s h ?g)"
    by (simp_all add: put_columns_def put_durations_def Let_def)
  have "chunks h s (concat rows) = rows" if "rows \<in> set ?g" for rows
  proof -
    have "length rows = s" "\<forall>c \<in> set rows. length c = h" using that assms by (auto simp: lane_typed_def)
    then show ?thesis using row_chunks_concat [of rows h] by simp
  qed
  then have grid: "grid3 (of_grid3 s h ?g) = Inr ?g"
    by (auto simp: grid3_def of_grid3_def intro!: map_idI)
  have "set (?g ! i ! j) \<subseteq> {Fin 0, Fin 1} \<and> drop k (?g ! i ! j) = replicate (h - k) (Fin 0) \<and>
      tn_rows ?va ! i ! j \<in> {Fin 0, Fin 1} \<and>
      (tn_rows ?va ! i ! j = Fin 0 \<longrightarrow> ?g ! i ! j = replicate h (Fin 0)) \<and>
      tn_rows ?du ! i ! j = pf_sum (?g ! i ! j)" if i: "i < length ls" and j: "j < s" for i j
  proof -
    let ?l = "ls ! i"
    have t: "lane_typed s h ?l" "lane_masked s k h ?l" using assms i by auto
    have len: "length (lc_action_valids ?l) = s" "length (lc_valids ?l) = s" "length (lc_durations ?l) = s"
      using t(1) by (simp_all add: lane_typed_def)
    have m: "drop k (lc_action_valids ?l ! j) = replicate (h - k) False"
      "\<not> lc_valids ?l ! j \<Longrightarrow> lc_action_valids ?l ! j = replicate h False"
      "lc_durations ?l ! j = length (filter id (lc_action_valids ?l ! j))"
      using t(2) j by (auto simp: lane_masked_def)
    have cell: "?g ! i ! j = map pf_of_bool (lc_action_valids ?l ! j)"
      "tn_rows ?va ! i ! j = pf_of_bool (lc_valids ?l ! j)"
      "tn_rows ?du ! i ! j = Fin (of_nat (lc_durations ?l ! j))"
      using i j len by (simp_all add: of_grid2_def)
    have "pf_sum (map pf_of_bool us) = Fin (of_nat (length (filter id us)))" for us
    proof -
      have "map pf_of_bool us = map Fin (map b2r us)" by (simp add: pf_of_bool_def b2r_def)
      then show ?thesis by (simp only: pf_sum_Fin count_trues)
    qed
    then show ?thesis
      unfolding cell using m by (auto simp: pf_of_bool_def drop_map split: if_splits)
  qed
  then show ?thesis
    unfolding masks_agree_def using get grid
    by (intro exI [of _ ?va] exI [of _ ?du] exI [of _ "of_grid3 s h ?g"] exI [of _ ?g]) blast
qed

lemma masks_agree_put:
  "masks_agree b s k h (put_meta kvs d) = masks_agree b s k h d"
  "c \<notin> {''info.valids'', ''info.durations'', ''info.action_valids''} \<Longrightarrow>
     masks_agree b s k h (dp_put c t d) = masks_agree b s k h d"
  by (auto simp: masks_agree_def)

lemma has_rows_aligned:
  assumes "align_rollout metadata (exclude_profile rollout) ends = Inr d" and "has_rows b rollout"
  shows "has_rows b d"
proof -
  have "dp_get k d = dp_get k rollout" if "k \<in> set (step_keys @ [''next.score''])" for k
  proof -
    have "\<not> is_next_key k" using that not_next_keys by (auto simp: step_keys_def)
    moreover have "\<not> is_profile_key k" using that by (auto simp: step_keys_def is_profile_key_def OBS_PREFIX_def)
    ultimately show ?thesis using align_rollout_get [OF assms(1)] by (simp add: dp_get_exclude)
  qed
  then show ?thesis using assms(2) unfolding has_rows_def by auto
qed

lemma with_success_length: "length successes = length scores \<Longrightarrow> length (with_success_reward successes scores) = length scores"
  by (simp add: with_success_reward_def)

lemma next_of_shape:
  assumes "next_of b s t e = Inr u" and "0 < hd (tn_trail t)"
  shows "tn_shape u = tn_shape t"
  using assms by (cases "tn_trail t")
    (auto simp: next_of_def tn_shape_def tn_cat1_def tn_from1_def tn_repeat1_def split: if_splits)

lemma prepared_next_shape:
  assumes "align_rollout trajectory_metadata_fields (exclude_profile rollout) ends = Inr d"
    and "distinct (map fst (dp_tensors rollout))"
    and "dp_get (OBS_PREFIX @ f) rollout = Inr t" and "\<not> is_profile_key (OBS_PREFIX @ f)" and "0 < hd (tn_trail t)"
  shows "\<exists>u. dp_get (NEXT_OBS_PREFIX @ f) (grfpo_output cfg g d fb scores) = Inr u \<and> tn_shape u = tn_shape t"
proof -
  let ?x = "exclude_profile rollout" and ?k = "OBS_PREFIX @ f"
  obtain s where al: "align_fields (dp_len ?x) s (dp_tensors ends) (obs_keys (dp_tensors ?x)) (dp_tensors ?x) =
      Inr (dp_tensors d)" using align_rollout_tensors [OF assms(1)] by blast
  have kt: "map_of (dp_tensors ?x) ?k = Some t"
    using assms(3,4) by (simp add: dp_get_Inr exclude_profile_def map_of_filter_key)
  have kf: "obs_field ?k = f" "strip_prefix OBS_PREFIX ?k = Some f" by (simp_all add: obs_field_def strip_prefix_iff)
  have "?k \<in> set (obs_keys (dp_tensors ?x))"
    using map_of_SomeD [OF kt] kf by (force simp: obs_keys_def)
  moreover have "distinct (obs_keys (dp_tensors ?x))"
    using assms(2) by (simp add: obs_keys_def exclude_profile_def distinct_map_filter)
  moreover have "\<forall>k \<in> set (obs_keys (dp_tensors ?x)). strip_prefix OBS_PREFIX k \<noteq> None"
    by (auto simp: obs_keys_def)
  ultimately obtain e u where "next_of (dp_len ?x) s t e = Inr u" and "dp_get (NEXT_OBS_PREFIX @ f) d = Inr u"
    using align_fields_written [OF al] kt kf by (fastforce simp: dp_get_Inr)
  then show ?thesis
    using next_of_shape [OF _ assms(5)]
    by (auto simp: grfpo_output_def put_columns_def put_durations_def Let_def dp_get_drop step_keys_def NEXT_OBS_PREFIX_def)
qed

lemma aligned_step_tensors:
  assumes "align_rollout metadata (exclude_profile rollout) ends = Inr d"
  shows "dp_get ''next.terminated'' d = dp_get ''next.terminated'' rollout"
    and "dp_get ''action.full_action'' d = dp_get ''action.full_action'' rollout"
  using align_rollout_get [OF assms]
  by (simp_all add: dp_get_exclude is_next_key_def NEXT_OBS_PREFIX_def is_profile_key_def OBS_PREFIX_def)

text \<open>
  C23. A batch prepared by the GRFPO trainer is well typed. Let \<open>[B, S, K]\<close> be the shape of the rollout's done
  flags (S slots of K executed actions) and H the horizon of its native actions, the third axis of
  \<open>action.full_action\<close>. Whenever preparation succeeds, then K is at most H; the columns rewards, dones, durations,
  discounts, gae_discounts and valids have shape [B, S]; the action mask has shape [B, S, H]; the two trajectory
  scores have shape [B]; each has exactly its cells; the action mask consists of zeros and ones, is zero from position K on
  and in every invalid chunk, and the duration of a chunk is the number of its ones; the successor of every tensor
  observation with at least one slot has the shape of that observation; and
  none of the raw step tensors is left.
\<close>

theorem prepared_batch_is_typed:
  assumes "prepare_grfpo_actor_input cfg g rollout ends = Inr out" and "has_rows b rollout"
    and "distinct (map fst (dp_tensors rollout))"
  shows "\<exists>te full s k z h r.
    dp_get ''next.terminated'' rollout = Inr te \<and> tn_trail te = [s, k] \<and>
    dp_get ''action.full_action'' rollout = Inr full \<and> tn_trail full = z # h # r \<and> k \<le> h \<and>
    (\<forall>c \<in> set info_columns. shaped c [b, s] out) \<and> shaped ''info.action_valids'' [b, s, h] out \<and>
    masks_agree b s k h out \<and>
    shaped ''info.trajectory_outcome'' [b] out \<and> shaped ''info.trajectory_process_score'' [b] out \<and>
    (\<forall>f t. dp_get (OBS_PREFIX @ f) rollout = Inr t \<and> \<not> is_profile_key (OBS_PREFIX @ f) \<and> 0 < hd (tn_trail t) \<longrightarrow>
       (\<exists>u. dp_get (NEXT_OBS_PREFIX @ f) out = Inr u \<and> tn_shape u = tn_shape t)) \<and>
    (\<forall>c \<in> set (step_keys @ [''next.score'']). dp_get c out = Inl KeyError)"
proof -
  obtain d fb scores where d: "align_rollout trajectory_metadata_fields (exclude_profile rollout) ends = Inr d"
    and scores: "lane_process_scores d = Inr scores" and fb: "step_feedback d = Inr fb"
    and out: "out = grfpo_output cfg g d fb scores"
    using assms(1) by (rule prepare_grfpo_parts)
  have rows: "has_rows b d" using d assms(2) by (rule has_rows_aligned)
  obtain te full s k h z r where te: "dp_get ''next.terminated'' d = Inr te" "tn_trail te = [s, k]"
    and full: "dp_get ''action.full_action'' d = Inr full" "tn_trail full = z # h # r" and le: "k \<le> h"
    and fbs: "fb_slots fb = s" "fb_actions fb = h" "length (fb_dones fb) = b" "length (fb_rewards fb) = b"
      "length (fb_success fb) = b" "\<forall>lane \<in> set (fb_dones fb). lane_grid_ok s k lane"
    by (rule step_feedback_shapes [OF fb rows])
  let ?lanes = "map2 (grfpo_lane (gc_gamma cfg) (gc_gae_lambda cfg) (gc_step_penalty cfg) h)
    (fb_dones fb) (fb_rewards fb)"
  let ?base = "dp_drop (step_keys @ [''next.score'']) d"
  let ?cols = "put_durations s ?lanes (put_columns s h ?lanes ?base)"
  have len: "length ?lanes = b" using fbs by simp
  have typed: "\<forall>l \<in> set ?lanes. lane_typed s h l \<and> lane_masked s k h l"
    using fbs(6) le by (auto dest!: set_zip_leftD intro!: grfpo_lane_typed grfpo_lane_masked intro: lane_grid_mono)
  then have cols: "(\<forall>c \<in> set info_columns. shaped c [b, s] ?cols) \<and> shaped ''info.action_valids'' [b, s, h] ?cols"
    using put_columns_shaped [of ?lanes s h ?base] unfolding len by blast
  have masks: "masks_agree b s k h ?cols"
    using columns_agree [OF typed, of ?base] unfolding len .
  have gone: "dp_get c out = Inl KeyError" if "c \<in> set (step_keys @ [''next.score''])" for c
  proof -
    have "c \<notin> set info_columns \<union> {''info.action_valids'', ''info.trajectory_outcome'', ''info.trajectory_process_score''}"
      using that by (auto simp: step_keys_def info_columns_def)
    then show ?thesis using that unfolding out
      by (simp add: grfpo_output_def put_columns_def put_durations_def info_columns_def Let_def dp_get_drop)
  qed
  define cols where "cols = ?cols"
  obtain kvs x y where form: "out = put_meta kvs (dp_put ''info.trajectory_process_score'' x
      (dp_put ''info.trajectory_outcome'' y cols))"
    unfolding out grfpo_output_def Let_def fbs cols_def by blast
  have "shaped c sh out \<longleftrightarrow> shaped c sh cols"
    if "c \<notin> {''info.trajectory_process_score'', ''info.trajectory_outcome''}" for c sh
    using that unfolding form by (auto simp: shaped_simps)
  then have "(\<forall>c \<in> set info_columns. shaped c [b, s] out) \<and> shaped ''info.action_valids'' [b, s, h] out"
    using cols unfolding cols_def [symmetric] by (simp add: info_columns_def)
  moreover have "masks_agree b s k h out"
    using masks unfolding cols_def [symmetric] form by (simp add: masks_agree_put)
  moreover have "shaped ''info.trajectory_outcome'' [b] out \<and> shaped ''info.trajectory_process_score'' [b] out"
    using fbs score_length [OF scores rows] unfolding out
    by (simp add: grfpo_output_def Let_def fbs shaped_simps grid_shapes with_success_length)
  moreover have "\<forall>f t. dp_get (OBS_PREFIX @ f) rollout = Inr t \<and> \<not> is_profile_key (OBS_PREFIX @ f) \<and> 0 < hd (tn_trail t) \<longrightarrow>
       (\<exists>u. dp_get (NEXT_OBS_PREFIX @ f) out = Inr u \<and> tn_shape u = tn_shape t)"
    using prepared_next_shape [OF d assms(3)] unfolding out by simp
  ultimately show ?thesis
    using te full le gone unfolding aligned_step_tensors [OF d]
    by (intro exI [of _ te] exI [of _ full] exI [of _ s] exI [of _ k] exI [of _ z] exI [of _ h] exI [of _ r]) simp
qed

text \<open>A rollout of one lane, two chunks of one step each, the second of which ends the episode.\<close>

definition prep_config :: grfpo_config where
  "prep_config =
     \<lparr>gc_total_training_steps = 10, gc_gamma = 1 / 2, gc_gae_lambda = 1, gc_step_penalty = 0,
      gc_advantage_estimator = ''grpo_outcome'', gc_group_size = 8, gc_accepted_groups_per_update = 1,
      gc_concurrent_candidate_groups = 1, gc_candidate_group_partition = ''stage'',
      gc_min_accepted_groups_for_partial_update = 1, gc_initial_candidate_groups_per_update = 0,
      gc_accepted_groups_before_optional_refill = 0, gc_max_candidate_groups_per_update = 6,
      gc_group_reward_source = ''process_score'', gc_accepted_group_reduction = ''group_equal'',
      gc_informative_group_criterion = ''reward_variance'',
      gc_min_partial_trajectories_for_score_only_group = 1, gc_partial_score_threshold = 3 / 20,
      gc_async_rollout = False, gc_save_freq = 1, gc_eval_episodes = 50, gc_candidate_spool_dir = None,
      gc_candidate_resume_state_path = None\<rparr>"

definition prep_state :: "pyfloat tensor" where
  "prep_state = \<lparr>tn_trail = [2, 1], tn_rows = [[Fin 5, Fin 6]]\<rparr>"

definition prep_steps :: "pyfloat list \<Rightarrow> pyfloat tensor" where
  "prep_steps xs = \<lparr>tn_trail = [2, 1], tn_rows = [xs]\<rparr>"

definition prep_rollout :: "int data_proto" where
  "prep_rollout =
     \<lparr>dp_tensors =
        [(''obs.state'', prep_state), (''obs.profile.wall'', prep_state),
         (''action.action'', \<lparr>tn_trail = [2, 1, 1], tn_rows = [[Fin 1, Fin 1]]\<rparr>),
         (''action.full_action'', \<lparr>tn_trail = [2, 2, 1], tn_rows = [[Fin 1, Fin 1, Fin 1, Fin 1]]\<rparr>),
         (''next.terminated'', prep_steps [Fin 0, Fin 1]), (''next.truncated'', prep_steps [Fin 0, Fin 0]),
         (''next.reward'', prep_steps [Fin 0, Fin 1]), (''next.success'', prep_steps [Fin 0, Fin 0]),
         (''next.score'', prep_steps [Fin 0, Fin (3 / 20)])],
      dp_arrays = [], dp_meta = []\<rparr>"

definition prep_ends :: "int data_proto" where
  "prep_ends = \<lparr>dp_tensors = [(''state'', \<lparr>tn_trail = [1], tn_rows = [[Fin 7]]\<rparr>)], dp_arrays = [], dp_meta = []\<rparr>"

lemma prep_succeeds: "\<exists>out. prepare_grfpo_actor_input prep_config 3 prep_rollout prep_ends = Inr out"
proof -
  have "\<not> isl (prepare_grfpo_actor_input prep_config 3 prep_rollout prep_ends)" by code_simp
  then show ?thesis by (cases "prepare_grfpo_actor_input prep_config 3 prep_rollout prep_ends") auto
qed

lemma prep_rows: "has_rows 1 prep_rollout"
  by (simp add: has_rows_def step_keys_def dp_get_def prep_rollout_def prep_steps_def)

theorem prepared_batch_is_typed_witness:
  "\<exists>out. prepare_grfpo_actor_input prep_config 3 prep_rollout prep_ends = Inr out \<and>
     shaped ''info.valids'' [1, 2] out \<and> shaped ''info.action_valids'' [1, 2, 2] out \<and> masks_agree 1 2 1 2 out"
proof -
  obtain out where out: "prepare_grfpo_actor_input prep_config 3 prep_rollout prep_ends = Inr out"
    using prep_succeeds by blast
  have "distinct (map fst (dp_tensors prep_rollout))" by (simp add: prep_rollout_def)
  from prepared_batch_is_typed [OF out prep_rows this] obtain te full s k z h r where
    "dp_get ''next.terminated'' prep_rollout = Inr te" "tn_trail te = [s, k]"
    "dp_get ''action.full_action'' prep_rollout = Inr full" "tn_trail full = z # h # r"
    and typed: "\<forall>c \<in> set info_columns. shaped c [1, s] out" "shaped ''info.action_valids'' [1, s, h] out"
      "masks_agree 1 s k h out"
    by (elim exE conjE) (rule that)
  then have "s = 2 \<and> k = 1 \<and> h = 2" by (auto simp: prep_rollout_def prep_steps_def dp_get_def)
  with typed out show ?thesis by (simp add: info_columns_def)
qed

text \<open>
  Every tensor observation of a prepared batch comes with its exact successor: the next
  observation of a slot is the observation of the following slot, and that of the last slot is
  the observation the environment returned after the final action. The field keeps its shape,
  and the observation itself is left as it was.
\<close>

theorem next_observation_is_the_successor:
  assumes "prepare_grfpo_actor_input cfg g rollout ends = Inr out"
    and "distinct (map fst (dp_tensors rollout))"
    and "dp_get (OBS_PREFIX @ f) rollout = Inr t" and "\<not> is_profile_key (OBS_PREFIX @ f)" and "tn_ok t"
    and "\<forall>e. dp_get f ends = Inr e \<longrightarrow> tn_ok e"
    and "j < hd (tn_trail t)"
  shows "\<exists>u e. dp_get (NEXT_OBS_PREFIX @ f) out = Inr u \<and> dp_get f ends = Inr e \<and>
    tn_shape u = tn_shape t \<and>
    tn_step j u = (if Suc j < hd (tn_trail t) then tn_step (Suc j) t else e) \<and>
    dp_get (OBS_PREFIX @ f) out = Inr t"
proof -
  obtain d fb scores where d: "align_rollout trajectory_metadata_fields (exclude_profile rollout) ends = Inr d"
    and out: "out = grfpo_output cfg g d fb scores"
    using prepare_grfpo_parts [OF assms(1)] by blast
  let ?x = "exclude_profile rollout" and ?k = "OBS_PREFIX @ f"
  obtain s where al: "align_fields (dp_len ?x) s (dp_tensors ends) (obs_keys (dp_tensors ?x)) (dp_tensors ?x) =
      Inr (dp_tensors d)" using align_rollout_tensors [OF d] by blast
  have kt: "map_of (dp_tensors ?x) ?k = Some t"
    using assms(3,4) by (simp add: dp_get_Inr exclude_profile_def map_of_filter_key)
  have kf: "obs_field ?k = f" "strip_prefix OBS_PREFIX ?k = Some f" by (simp_all add: obs_field_def strip_prefix_iff)
  have "?k \<in> set (obs_keys (dp_tensors ?x))"
    using map_of_SomeD [OF kt] kf by (force simp: obs_keys_def)
  moreover have "distinct (obs_keys (dp_tensors ?x))"
    using assms(2) by (simp add: obs_keys_def exclude_profile_def distinct_map_filter)
  moreover have "\<forall>k \<in> set (obs_keys (dp_tensors ?x)). strip_prefix OBS_PREFIX k \<noteq> None"
    by (auto simp: obs_keys_def)
  ultimately obtain e u where e: "map_of (dp_tensors ends) f = Some e" and u: "next_of (dp_len ?x) s t e = Inr u"
    and du: "dp_get (NEXT_OBS_PREFIX @ f) d = Inr u"
    using align_fields_written [OF al] kt kf by (fastforce simp: dp_get_Inr)
  have s: "hd (tn_trail t) = s" using u by (cases "tn_trail t") (auto simp: next_of_def tn_shape_def split: if_splits)
  have "tn_ok e" using assms(6) e by (simp add: dp_get_Inr)
  from next_of_step [OF u assms(5) this] assms(7)
  have step: "tn_shape u = tn_shape t" "tn_step j u = (if Suc j < s then tn_step (Suc j) t else e)" by (auto simp: s)
  have "\<not> is_next_key ?k" using obs_not_next [of ?k] kf by simp
  then have dk: "dp_get ?k d = Inr t" using align_rollout_get [OF d] kt by (simp add: dp_get_Inr)
  have "dp_get (NEXT_OBS_PREFIX @ f) out = Inr u" "dp_get ?k out = Inr t"
    using du dk unfolding out
    by (simp_all add: grfpo_output_def put_columns_def put_durations_def Let_def dp_get_drop step_keys_def
        NEXT_OBS_PREFIX_def OBS_PREFIX_def)
  with step e show ?thesis by (auto simp: s dp_get_Inr)
qed

theorem next_observation_is_the_successor_witness:
  "\<exists>out u. prepare_grfpo_actor_input prep_config 3 prep_rollout prep_ends = Inr out \<and>
     dp_get ''next_obs.state'' out = Inr u \<and> tn_step 0 u = tn_step 1 prep_state"
proof -
  obtain out where out: "prepare_grfpo_actor_input prep_config 3 prep_rollout prep_ends = Inr out"
    using prep_succeeds by blast
  have "distinct (map fst (dp_tensors prep_rollout))" by (simp add: prep_rollout_def)
  moreover have "dp_get (OBS_PREFIX @ ''state'') prep_rollout = Inr prep_state"
    by (simp add: prep_rollout_def OBS_PREFIX_def dp_get_def)
  moreover have "\<not> is_profile_key (OBS_PREFIX @ ''state'')" by (simp add: is_profile_key_def OBS_PREFIX_def)
  moreover have "tn_ok prep_state" by (simp add: tn_ok_def prep_state_def)
  moreover have "\<forall>e. dp_get ''state'' prep_ends = Inr e \<longrightarrow> tn_ok e" by (simp add: prep_ends_def dp_get_def tn_ok_def)
  moreover have "0 < hd (tn_trail prep_state)" by (simp add: prep_state_def)
  ultimately obtain u where "dp_get (NEXT_OBS_PREFIX @ ''state'') out = Inr u"
    and "tn_step 0 u = (if Suc 0 < hd (tn_trail prep_state) then tn_step (Suc 0) prep_state
      else \<lparr>tn_trail = [1], tn_rows = [[Fin 7]]\<rparr>)"
    using next_observation_is_the_successor [OF out, of "''state''" prep_state 0]
    by (auto simp: prep_ends_def dp_get_def)
  then show ?thesis using out by (auto simp: NEXT_OBS_PREFIX_def prep_state_def)
qed

end
