(* ===== verification/Collection_Store.thy ===== *)
theory Collection_Store
  imports Group_Validation
begin

text \<open>
  trainer/grfpo/collection_store.py: the durable collection window. A window directory is the
  record \<open>window\<close>: one field per file or subdirectory, a subdirectory being an association
  list from candidate ids (the file stems) to contents. Every operation that the code runs
  under the window lock is one function on the window, returning the exception or value and
  the new window; clocks and random tokens are arguments. The tensors of a group are values of
  an arbitrary type \<open>'d\<close> with a length function, since \<open>DataProto\<close> is a library type.
\<close>

section \<open>Data\<close>

definition SCHEMA_VERSION :: int where
  "SCHEMA_VERSION = 1"

record policy_identity =
  immutable_base_path :: string
  immutable_base_sha256 :: string
  trainer_checkpoint_path :: "string option"
  rollout_policy_version :: int

record window_spec =
  sp_run_id :: string
  sp_intended_update :: int
  sp_group_size :: int
  sp_target :: int
  sp_minimum :: int
  sp_max :: int
  sp_policy :: policy_identity
  sp_complete_round :: bool
  sp_round_size :: int
  sp_drain :: bool
  sp_task_names :: "string list"
  sp_suite_ids :: "int list"
  sp_manifest_sha256 :: string
  sp_reward_source :: string
  sp_criterion :: string
  sp_reduction :: string
  sp_seed_namespace :: string
  sp_state_limit :: pyfloat
  sp_objective :: string
  sp_noise_level :: pyfloat

definition spec_post_init :: "window_spec \<Rightarrow> unit result" where
  "spec_post_init s =
     (if sp_run_id s = [] \<or> CHR ''/'' \<in> set (sp_run_id s) then Inl ValueError
      else if sp_intended_update s \<le> 0 then Inl ValueError
      else if sp_group_size s \<noteq> 8 then Inl ValueError
      else if \<not> (1 \<le> sp_minimum s \<and> sp_minimum s \<le> sp_target s) then Inl ValueError
      else if sp_max s < sp_target s then Inl ValueError
      else if sp_complete_round s \<and> sp_drain s then Inl ValueError
      else if sp_complete_round s \<and> sp_round_size s \<le> 0 then Inl ValueError
      else if sp_complete_round s \<and> sp_max s mod sp_round_size s \<noteq> 0 then Inl ValueError
      else if sp_reward_source s \<notin> {''binary_success'', ''process_score''} then Inl ValueError
      else if sp_criterion s \<notin> {''binary_success'', ''full_success_mixed'', ''reward_variance''}
        then Inl ValueError
      else if sp_criterion s = ''reward_variance'' \<and> sp_reward_source s \<noteq> ''process_score''
        then Inl ValueError
      else if sp_reduction s \<notin> {''group_equal'', ''task_equal''} then Inl ValueError
      else if \<not> (pf_less (Fin 0) (sp_state_limit s) \<and> pf_less (sp_state_limit s) PosInf)
        then Inl ValueError
      else if sp_objective s \<notin> {''fpo'', ''flow_grpo''} then Inl ValueError
      else if \<not> (pf_less (Fin 0) (sp_noise_level s) \<and> pf_less (sp_noise_level s) PosInf)
        then Inl ValueError
      else Inr ())"

definition policy_dict :: "policy_identity \<Rightarrow> dict" where
  "policy_dict p =
     [(''immutable_base_path'', JStr (immutable_base_path p)),
      (''immutable_base_sha256'', JStr (immutable_base_sha256 p)),
      (''rollout_policy_version'', JInt (rollout_policy_version p)),
      (''trainer_checkpoint_path'',
         case trainer_checkpoint_path p of None \<Rightarrow> JNull | Some s \<Rightarrow> JStr s)]"

definition spec_to_dict :: "window_spec \<Rightarrow> dict" where
  "spec_to_dict s =
     [(''schema_version'', JInt SCHEMA_VERSION),
      (''run_id'', JStr (sp_run_id s)),
      (''intended_update'', JInt (sp_intended_update s)),
      (''group_size'', JInt (sp_group_size s)),
      (''target_accepted_groups'', JInt (sp_target s)),
      (''minimum_accepted_groups'', JInt (sp_minimum s)),
      (''max_candidate_groups'', JInt (sp_max s)),
      (''policy'', JObj (policy_dict (sp_policy s))),
      (''complete_round_after_target'', JBool (sp_complete_round s)),
      (''candidate_round_size'', JInt (sp_round_size s)),
      (''drain_candidate_budget'', JBool (sp_drain s)),
      (''task_names'', JList (map JStr (sp_task_names s))),
      (''suite_ids'', JList (map JInt (sp_suite_ids s))),
      (''condition_manifest_sha256'', JStr (sp_manifest_sha256 s)),
      (''group_reward_source'', JStr (sp_reward_source s)),
      (''informative_group_criterion'', JStr (sp_criterion s)),
      (''accepted_group_reduction'', JStr (sp_reduction s)),
      (''policy_seed_namespace'', JStr (sp_seed_namespace s)),
      (''raw_state_abs_limit'', JFloat (sp_state_limit s)),
      (''actor_objective'', JStr (sp_objective s)),
      (''flow_grpo_noise_level'', JFloat (sp_noise_level s))]"

record assignment =
  a_index :: nat
  a_task_name :: string
  a_task_id :: int
  a_suite_id :: int
  a_layout_id :: int
  a_seeds :: "int list"

definition candidate_name :: "nat \<Rightarrow> string" where
  "candidate_name i = ''candidate_'' @ pad4 i"

definition candidate_id :: "assignment \<Rightarrow> string" where
  "candidate_id a = candidate_name (a_index a)"

definition candidate_number :: "string \<Rightarrow> nat" where
  "candidate_number name = parse_nat (removeprefix ''candidate_'' name)"

record lease =
  l_assignment :: assignment
  l_owner :: string
  l_token :: string
  l_claimed :: rat
  l_heartbeat :: rat
  l_expires :: rat

section \<open>The candidate schedule\<close>

text \<open>
  \<open>seed_hash payload\<close> is \<open>int.from_bytes(sha256(payload).digest()[:8], "big")\<close>; the layout
  pools are a dictionary from (task name, suite) to layout ids.
\<close>

definition seed_payload :: "window_spec \<Rightarrow> int \<Rightarrow> nat \<Rightarrow> string" where
  "seed_payload spec run_seed i =
     (if sp_seed_namespace spec = [] then sp_run_id spec else sp_seed_namespace spec) @ '':'' @
     int_str run_seed @ '':'' @ int_str (rollout_policy_version (sp_policy spec)) @ '':'' @
     int_str (sp_intended_update spec) @ '':'' @ int_str (int i)"

definition layout_slot :: "window_spec \<Rightarrow> nat \<Rightarrow> nat \<Rightarrow> nat \<Rightarrow> nat" where
  "layout_slot spec condition_attempt condition_slot n =
     nat ((int condition_attempt * 7 + int condition_slot * 11 + sp_intended_update spec - 1) mod int n)"

definition candidate_assignment ::
  "(string \<Rightarrow> nat) \<Rightarrow> window_spec \<Rightarrow> int \<Rightarrow> string list \<Rightarrow> int list \<Rightarrow>
   ((string \<times> int) \<times> int list) list \<Rightarrow> int \<Rightarrow> assignment result" where
  "candidate_assignment seed_hash spec candidate_index names suites training_layouts run_seed =
     (if \<not> (0 \<le> candidate_index \<and> candidate_index < sp_max spec) then Inl ValueError
      else if names = [] then Inl ValueError
      else if suites = [] \<or> length (remdups suites) \<noteq> length suites then Inl ValueError
      else
        let index = nat candidate_index;
            condition_count = length names * length suites;
            condition_slot = index mod condition_count;
            task_slot = condition_slot div length suites;
            suite_slot = condition_slot mod length suites;
            task_name = names ! task_slot;
            suite_id = suites ! suite_slot;
            schedule = (case map_of training_layouts (task_name, suite_id) of
                          None \<Rightarrow> [] | Some ls \<Rightarrow> ls)
        in if schedule = [] \<or> length (remdups schedule) \<noteq> length schedule then Inl ValueError
           else
             let condition_attempt = index div condition_count;
                 slot = layout_slot spec condition_attempt condition_slot (length schedule);
                 seed_base = seed_hash (seed_payload spec run_seed index) mod 2000000000
             in Inr \<lparr>a_index = index, a_task_name = task_name, a_task_id = int task_slot,
                     a_suite_id = suite_id, a_layout_id = schedule ! slot,
                     a_seeds = map (\<lambda>m. int (seed_base + m)) [0..<nat (sp_group_size spec)]\<rparr>)"

section \<open>The window\<close>

type_synonym path = "string list"

record 'd group_files =
  f_rollout :: 'd
  f_end_obs :: 'd
  f_candidate :: assignment
  f_policy :: policy_identity
  f_record :: group_record

record rejection =
  rj_candidate :: assignment
  rj_policy :: policy_identity
  rj_record :: group_record

record skip_record =
  sk_reason :: string
  sk_at :: rat

datatype outcome = Insufficient_Informative_Groups | Ready

record closed_payload =
  c_outcome :: outcome
  c_accepted :: nat
  c_rejected :: nat
  c_skipped :: nat
  c_completed :: nat
  c_complete_round :: bool
  c_round_size :: int
  c_drain :: bool
  c_selected :: "path list"
  c_at :: rat

datatype event_kind = Ev_Claim | Ev_Reclaim | Ev_Abandon | Ev_Integrity_Failure

record lease_event =
  ev_kind :: event_kind
  ev_candidate :: string
  ev_owner :: "string option"
  ev_token :: "string option"
  ev_at :: rat

record integrity_failure =
  if_candidate :: assignment
  if_policy :: policy_identity
  if_diagnostics :: integrity
  if_owner :: "string option"
  if_at :: rat

record 'd window =
  w_lock :: bool
  w_manifest :: "dict option"
  w_open :: bool
  w_closed :: "closed_payload option"
  w_accepted :: "(string \<times> 'd group_files) list"
  w_rejected :: "(string \<times> rejection) list"
  w_skipped :: "(string \<times> skip_record) list"
  w_leases :: "(string \<times> lease) list"
  w_events :: "lease_event list"
  w_failures :: "integrity_failure list"
  w_tmp :: "string list"
  w_receipts :: "(path \<times> dict) list"

definition empty_window :: "'d window" where
  "empty_window = \<lparr>w_lock = False, w_manifest = None, w_open = False, w_closed = None,
     w_accepted = [], w_rejected = [], w_skipped = [], w_leases = [], w_events = [],
     w_failures = [], w_tmp = [], w_receipts = []\<rparr>"

definition window_dir :: "path \<Rightarrow> window_spec \<Rightarrow> path" where
  "window_dir rt spec =
     rt @ [sp_run_id spec,
             ''update_'' @ pad4_int (sp_intended_update spec) @ ''_theta_'' @
             pad4_int (rollout_policy_version (sp_policy spec))]"

definition accepted_dir :: "path \<Rightarrow> window_spec \<Rightarrow> path" where
  "accepted_dir rt spec = window_dir rt spec @ [''accepted'']"

definition touch_lock :: "'d window \<Rightarrow> 'd window" where
  "touch_lock w = w\<lparr>w_lock := True\<rparr>"

text \<open>\<open>initialize\<close>: create the window, or verify that an existing one is identical.\<close>

definition normalize_manifest :: "dict \<Rightarrow> dict \<Rightarrow> dict" where
  "normalize_manifest expected actual =
     foldl (\<lambda>d (k, v). setdefault k v d) actual
       [(''complete_round_after_target'', JBool False),
        (''candidate_round_size'', JInt 0),
        (''drain_candidate_budget'', JBool False),
        (''task_names'', the (map_of expected ''task_names'')),
        (''suite_ids'', the (map_of expected ''suite_ids'')),
        (''condition_manifest_sha256'', the (map_of expected ''condition_manifest_sha256'')),
        (''group_reward_source'', JStr ''binary_success''),
        (''informative_group_criterion'', JStr ''full_success_mixed''),
        (''accepted_group_reduction'', JStr ''group_equal''),
        (''policy_seed_namespace'', JStr ''''),
        (''raw_state_abs_limit'', JFloat (Fin 100)),
        (''actor_objective'', JStr ''fpo''),
        (''flow_grpo_noise_level'', JFloat (Fin (1 / 100)))]"

definition init_write_manifest :: "window_spec \<Rightarrow> 'd window \<Rightarrow> 'd window" where
  "init_write_manifest spec w = w\<lparr>w_manifest := Some (spec_to_dict spec)\<rparr>"

definition init_touch_open :: "'d window \<Rightarrow> 'd window" where
  "init_touch_open w = w\<lparr>w_open := True\<rparr>"

definition initialize :: "window_spec \<Rightarrow> 'd window \<Rightarrow> unit result \<times> 'd window" where
  "initialize spec w0 =
     (let w = touch_lock w0; expected = spec_to_dict spec in
      case w_manifest w of
        Some actual \<Rightarrow>
          if dict_eq (normalize_manifest expected actual) expected then (Inr (), w)
          else (Inl RuntimeError, w)
      | None \<Rightarrow> (Inr (), init_touch_open (init_write_manifest spec w)))"

section \<open>Leases\<close>

definition verify_open_locked :: "'d window \<Rightarrow> unit result" where
  "verify_open_locked w = (if w_closed w \<noteq> None \<or> \<not> w_open w then Inl RuntimeError else Inr ())"

definition candidate_complete :: "'d window \<Rightarrow> string \<Rightarrow> bool" where
  "candidate_complete w cid \<longleftrightarrow>
     map_of (w_accepted w) cid \<noteq> None \<or> map_of (w_rejected w) cid \<noteq> None \<or>
     map_of (w_skipped w) cid \<noteq> None"

definition round_ready_to_start :: "window_spec \<Rightarrow> 'd window \<Rightarrow> nat \<Rightarrow> bool" where
  "round_ready_to_start spec w i =
     (if \<not> sp_complete_round spec then True
      else list_all (\<lambda>k. candidate_complete w (candidate_name k))
             [0..<nat ((int i div sp_round_size spec) * sp_round_size spec)])"

definition grant_lease ::
  "assignment \<Rightarrow> string \<Rightarrow> string \<Rightarrow> rat \<Rightarrow> rat \<Rightarrow> bool \<Rightarrow> 'd window \<Rightarrow> lease option \<times> 'd window" where
  "grant_lease a owner token timeout now reclaimed w =
     (let l = \<lparr>l_assignment = a, l_owner = owner, l_token = token, l_claimed = now,
               l_heartbeat = now, l_expires = now + timeout\<rparr>
      in (Some l,
          w\<lparr>w_leases := AList.update (candidate_id a) l (w_leases w),
            w_events := w_events w @
              [\<lparr>ev_kind = (if reclaimed then Ev_Reclaim else Ev_Claim), ev_candidate = candidate_id a,
                ev_owner = Some owner, ev_token = Some token, ev_at = now\<rparr>]\<rparr>))"

fun claim_loop ::
  "window_spec \<Rightarrow> string \<Rightarrow> string \<Rightarrow> rat \<Rightarrow> rat \<Rightarrow> assignment list \<Rightarrow> 'd window \<Rightarrow>
   lease option \<times> 'd window" where
  "claim_loop spec owner token timeout now [] w = (None, w)"
| "claim_loop spec owner token timeout now (a # as) w =
     (if \<not> round_ready_to_start spec w (a_index a) then
        claim_loop spec owner token timeout now as w
      else if candidate_complete w (candidate_id a) then
        claim_loop spec owner token timeout now as
          (w\<lparr>w_leases := AList.delete (candidate_id a) (w_leases w)\<rparr>)
      else case map_of (w_leases w) (candidate_id a) of
        Some cur \<Rightarrow>
          if l_owner cur \<noteq> owner \<and> now < l_expires cur then
            claim_loop spec owner token timeout now as w
          else grant_lease a owner token timeout now True w
      | None \<Rightarrow> grant_lease a owner token timeout now False w)"

definition claim_pool :: "(string \<times> int) option \<Rightarrow> assignment list \<Rightarrow> assignment list" where
  "claim_pool preferred assignments =
     (case preferred of None \<Rightarrow> assignments
      | Some c \<Rightarrow> filter (\<lambda>a. (a_task_name a, a_suite_id a) = c) assignments)"

definition claim_candidate ::
  "window_spec \<Rightarrow> assignment list \<Rightarrow> string \<Rightarrow> rat \<Rightarrow> (string \<times> int) option \<Rightarrow> rat \<Rightarrow> string \<Rightarrow>
   'd window \<Rightarrow> lease option result \<times> 'd window" where
  "claim_candidate spec assignments owner timeout preferred now token w0 =
     (if owner = [] then (Inl ValueError, w0)
      else if timeout \<le> 0 then (Inl ValueError, w0)
      else if \<not> distinct (map candidate_id assignments) then (Inl ValueError, w0)
      else
        let pool = claim_pool preferred assignments; w = touch_lock w0
        in if w_closed w \<noteq> None then (Inr None, w)
           else case verify_open_locked w of
             Inl e \<Rightarrow> (Inl e, w)
           | Inr _ \<Rightarrow>
               (let (l, w') = claim_loop spec owner token timeout now (sort_key a_index pool) w
                in (Inr l, w')))"

definition same_holder :: "lease \<Rightarrow> lease \<Rightarrow> bool" where
  "same_holder cur l \<longleftrightarrow> l_token cur = l_token l \<and> l_owner cur = l_owner l"

definition renew_candidate_lease ::
  "lease \<Rightarrow> rat \<Rightarrow> rat \<Rightarrow> 'd window \<Rightarrow> lease result \<times> 'd window" where
  "renew_candidate_lease l timeout now w0 =
     (if timeout \<le> 0 then (Inl ValueError, w0)
      else let w = touch_lock w0; cid = candidate_id (l_assignment l) in
        case map_of (w_leases w) cid of
          None \<Rightarrow> (Inl RuntimeError, w)
        | Some cur \<Rightarrow>
            if \<not> same_holder cur l then (Inl RuntimeError, w)
            else let renewed = l\<lparr>l_heartbeat := now, l_expires := now + timeout\<rparr>
                 in (Inr renewed, w\<lparr>w_leases := AList.update cid renewed (w_leases w)\<rparr>))"

definition release_candidate_lease :: "lease \<Rightarrow> 'd window \<Rightarrow> bool \<times> 'd window" where
  "release_candidate_lease l w0 =
     (let w = touch_lock w0; cid = candidate_id (l_assignment l) in
      case map_of (w_leases w) cid of
        None \<Rightarrow> (False, w)
      | Some cur \<Rightarrow>
          if \<not> same_holder cur l then (False, w)
          else (True, w\<lparr>w_leases := AList.delete cid (w_leases w)\<rparr>))"

definition lease_is_current_locked :: "lease \<Rightarrow> 'd window \<Rightarrow> bool" where
  "lease_is_current_locked l w =
     (case map_of (w_leases w) (candidate_id (l_assignment l)) of
        None \<Rightarrow> False | Some cur \<Rightarrow> same_holder cur l)"

definition record_integrity_failure ::
  "window_spec \<Rightarrow> assignment \<Rightarrow> integrity \<Rightarrow> lease option \<Rightarrow> rat \<Rightarrow> 'd window \<Rightarrow> bool \<times> 'd window" where
  "record_integrity_failure spec a diag lo now w0 =
     (let w = touch_lock w0; owner = map_option l_owner lo in
      if (case lo of None \<Rightarrow> False | Some l \<Rightarrow> \<not> lease_is_current_locked l w) then (False, w)
      else (True,
        w\<lparr>w_failures := w_failures w @
            [\<lparr>if_candidate = a, if_policy = sp_policy spec, if_diagnostics = diag,
              if_owner = owner, if_at = now\<rparr>],
          w_events := w_events w @
            [\<lparr>ev_kind = Ev_Integrity_Failure, ev_candidate = candidate_id a, ev_owner = owner,
              ev_token = None, ev_at = now\<rparr>]\<rparr>))"

section \<open>Commit\<close>

datatype commit_result = Accepted | Rejected | Duplicate | Late | Stale_Lease

definition drop_tmp :: "string \<Rightarrow> 'd window \<Rightarrow> 'd window" where
  "drop_tmp cid w = w\<lparr>w_tmp := remove1 cid (w_tmp w)\<rparr>"

definition unlink_lease :: "string \<Rightarrow> 'd window \<Rightarrow> 'd window" where
  "unlink_lease cid w = w\<lparr>w_leases := AList.delete cid (w_leases w)\<rparr>"

text \<open>
  \<open>commit_locked\<close> is the body under the lock. The private temporary directory is written
  before it; each early return removes it, but the exception of \<open>_verify_open_locked\<close> does not.
\<close>

definition commit_locked ::
  "window_spec \<Rightarrow> assignment \<Rightarrow> 'd group_files \<Rightarrow> lease option \<Rightarrow> 'd window \<Rightarrow>
   commit_result result \<times> 'd window" where
  "commit_locked spec a files lo w =
     (let cid = candidate_id a;
          informative = g_informative (f_record files);
          discard = (if informative then drop_tmp cid else (\<lambda>w. w))
      in if (case lo of None \<Rightarrow> False | Some l \<Rightarrow> l_assignment l \<noteq> a) then (Inl ValueError, discard w)
         else if (case lo of None \<Rightarrow> False | Some l \<Rightarrow> \<not> lease_is_current_locked l w)
           then (Inr Stale_Lease, discard w)
         else if candidate_complete w cid then (Inr Duplicate, discard w)
         else if w_closed w \<noteq> None then (Inr Late, discard w)
         else case verify_open_locked w of
           Inl e \<Rightarrow> (Inl e, w)
         | Inr _ \<Rightarrow>
             if informative then
               (Inr Accepted,
                unlink_lease cid
                  ((drop_tmp cid w)\<lparr>w_accepted := AList.update cid files (w_accepted w)\<rparr>))
             else
               (Inr Rejected,
                unlink_lease cid
                  (w\<lparr>w_rejected := AList.update cid
                        \<lparr>rj_candidate = a, rj_policy = sp_policy spec, rj_record = f_record files\<rparr>
                        (w_rejected w)\<rparr>)))"

text \<open>
  The temporary directory of an informative group is made before the lock is taken, so it needs
  the window directory. \<open>_locked\<close> creates that directory and opens the lock file in it at once,
  so the directory is there exactly when the lock file is (a receipt written into a window that
  no collector ever opened is the one exception, and it publishes nothing).
\<close>

definition commit_group ::
  "('d \<Rightarrow> nat) \<Rightarrow> window_spec \<Rightarrow> assignment \<Rightarrow> 'd \<Rightarrow> 'd \<Rightarrow> group_record \<Rightarrow> lease option \<Rightarrow>
   'd window \<Rightarrow> commit_result result \<times> 'd window" where
  "commit_group dlen spec a rollout end_obs rec lo w0 =
     (if int (dlen rollout) \<noteq> sp_group_size spec \<or> int (dlen end_obs) \<noteq> sp_group_size spec
        then (Inl ValueError, w0)
      else if g_version rec \<noteq> rollout_policy_version (sp_policy spec) then (Inl ValueError, w0)
      else if g_group_id rec \<noteq> candidate_id a then (Inl ValueError, w0)
      else if g_informative rec \<and> \<not> w_lock w0 then (Inl FileNotFoundError, w0)
      else
        let w1 = (if g_informative rec then w0\<lparr>w_tmp := candidate_id a # w_tmp w0\<rparr> else w0)
        in commit_locked spec a
             \<lparr>f_rollout = rollout, f_end_obs = end_obs, f_candidate = a,
              f_policy = sp_policy spec, f_record = rec\<rparr> lo (touch_lock w1))"

section \<open>Closing and loading\<close>

definition glob_candidates :: "(string \<times> 'a) list \<Rightarrow> string list" where
  "glob_candidates d =
     sort (filter (\<lambda>n. strip_prefix ''candidate_'' n \<noteq> None) (map fst d))"

record scan_result =
  sc_accepted :: "string list"
  sc_rejected :: "string list"
  sc_skipped :: "string list"
  sc_completed :: nat
  sc_closed :: bool

definition scan :: "'d window \<Rightarrow> scan_result" where
  "scan w =
     (let acc = glob_candidates (w_accepted w); rej = glob_candidates (w_rejected w);
          skp = glob_candidates (w_skipped w)
      in \<lparr>sc_accepted = acc, sc_rejected = rej, sc_skipped = skp,
          sc_completed = length acc + length rej + length skp, sc_closed = w_closed w \<noteq> None\<rparr>)"

definition completed_ids :: "scan_result \<Rightarrow> nat list" where
  "completed_ids st =
     remdups (map candidate_number (sc_accepted st @ sc_rejected st @ sc_skipped st))"

definition completed_round :: "window_spec \<Rightarrow> scan_result \<Rightarrow> bool" where
  "completed_round spec st =
     (let ids = completed_ids st in
      ids \<noteq> [] \<and> int (length ids) mod sp_round_size spec = 0 \<and> set ids = set [0..<length ids])"

definition may_close :: "window_spec \<Rightarrow> scan_result \<Rightarrow> bool" where
  "may_close spec st =
     (let accepted_count = int (length (sc_accepted st));
          budget_exhausted = (sp_max spec \<le> int (sc_completed st))
      in if sp_drain spec then budget_exhausted
         else if sp_complete_round spec then
           completed_round spec st \<and> (sp_target spec \<le> accepted_count \<or> budget_exhausted)
         else sp_target spec \<le> accepted_count \<or> budget_exhausted)"

definition close_payload :: "path \<Rightarrow> window_spec \<Rightarrow> rat \<Rightarrow> scan_result \<Rightarrow> closed_payload" where
  "close_payload rt spec now st =
     (let accepted_count = length (sc_accepted st);
          enough = sp_minimum spec \<le> int accepted_count;
          selected = (if \<not> enough then []
                      else if sp_complete_round spec \<or> sp_drain spec then sc_accepted st
                      else take (nat (sp_target spec)) (sc_accepted st))
      in \<lparr>c_outcome = (if enough then Ready else Insufficient_Informative_Groups),
          c_accepted = accepted_count, c_rejected = length (sc_rejected st),
          c_skipped = length (sc_skipped st), c_completed = sc_completed st,
          c_complete_round = sp_complete_round spec, c_round_size = sp_round_size spec,
          c_drain = sp_drain spec,
          c_selected = map (\<lambda>n. accepted_dir rt spec @ [n]) selected, c_at = now\<rparr>)"

definition close_if_ready ::
  "path \<Rightarrow> window_spec \<Rightarrow> rat \<Rightarrow> 'd window \<Rightarrow> closed_payload option \<times> 'd window" where
  "close_if_ready rt spec now w0 =
     (let w = touch_lock w0 in
      case w_closed w of
        Some p \<Rightarrow> (Some p, w)
      | None \<Rightarrow>
          let st = scan w in
          if \<not> may_close spec st then (None, w)
          else let p = close_payload rt spec now st
               in (Some p, w\<lparr>w_closed := Some p, w_open := False\<rparr>))"

definition load_group ::
  "('d \<Rightarrow> nat) \<Rightarrow> path \<Rightarrow> window_spec \<Rightarrow> 'd window \<Rightarrow> path \<Rightarrow> ('d \<times> 'd \<times> group_record) result" where
  "load_group dlen rt spec w p =
     (if p = [] \<or> accepted_dir rt spec \<noteq> butlast p then Inl RuntimeError
      else case map_of (w_accepted w) (last p) of
        None \<Rightarrow> Inl RuntimeError
      | Some f \<Rightarrow>
          if f_policy f \<noteq> sp_policy spec then Inl RuntimeError
          else if int (dlen (f_rollout f)) \<noteq> sp_group_size spec \<or>
                  int (dlen (f_end_obs f)) \<noteq> sp_group_size spec then Inl RuntimeError
          else Inr (f_rollout f, f_end_obs f, f_record f))"

definition load_selected_groups ::
  "('d \<Rightarrow> nat) \<Rightarrow> path \<Rightarrow> window_spec \<Rightarrow> 'd window \<Rightarrow> ('d \<times> 'd \<times> group_record) list result" where
  "load_selected_groups dlen rt spec w =
     (case w_closed w of
        None \<Rightarrow> Inl FileNotFoundError
      | Some p \<Rightarrow>
          if c_outcome p \<noteq> Ready then Inl RuntimeError
          else traverse (load_group dlen rt spec w) (c_selected p))"

section \<open>Operator tools\<close>

fun abandon_loop :: "string \<Rightarrow> rat \<Rightarrow> string list \<Rightarrow> 'd window \<Rightarrow> string list \<times> 'd window" where
  "abandon_loop owner now [] w = ([], w)"
| "abandon_loop owner now (cid # cids) w =
     (case map_of (w_leases w) cid of
        None \<Rightarrow> abandon_loop owner now cids w
      | Some cur \<Rightarrow>
          if l_owner cur \<noteq> owner then abandon_loop owner now cids w
          else
            let w' = (unlink_lease cid w)\<lparr>w_events := w_events w @
                  [\<lparr>ev_kind = Ev_Abandon, ev_candidate = cid, ev_owner = Some owner,
                    ev_token = Some (l_token cur), ev_at = now\<rparr>]\<rparr>;
                (released, w'') = abandon_loop owner now cids w'
            in (cid # released, w''))"

definition abandon_owner_leases ::
  "string \<Rightarrow> rat \<Rightarrow> 'd window \<Rightarrow> string list result \<times> 'd window" where
  "abandon_owner_leases owner now w =
     (if owner = [] then (Inl ValueError, w)
      else if \<not> w_lock w then (Inl FileNotFoundError, w)
      else let (released, w') = abandon_loop owner now (glob_candidates (w_leases w)) w
           in (Inr released, w'))"

definition normalize_candidate :: "int \<Rightarrow> string \<Rightarrow> string result" where
  "normalize_candidate maximum cid =
     (case strip_prefix ''candidate_'' cid of
        None \<Rightarrow> Inl ValueError
      | Some digits \<Rightarrow>
          if \<not> str_isdigit digits then Inl ValueError
          else if maximum \<le> int (parse_nat digits) then Inl ValueError
          else Inr (candidate_name (parse_nat digits)))"

fun skip_loop :: "string \<Rightarrow> rat \<Rightarrow> string list \<Rightarrow> 'd window \<Rightarrow> string list \<times> 'd window" where
  "skip_loop reason now [] w = ([], w)"
| "skip_loop reason now (cid # cids) w =
     (if candidate_complete w cid then skip_loop reason now cids w
      else
        let w' = unlink_lease cid
              (w\<lparr>w_skipped := AList.update cid \<lparr>sk_reason = reason, sk_at = now\<rparr> (w_skipped w)\<rparr>);
            (released, w'') = skip_loop reason now cids w'
        in (cid # released, w''))"

definition manifest_maximum :: "'d window \<Rightarrow> int result" where
  "manifest_maximum w =
     (case w_manifest w of
        None \<Rightarrow> Inl FileNotFoundError
      | Some d \<Rightarrow> (case map_of d ''max_candidate_groups'' of
                     None \<Rightarrow> Inl KeyError | Some (JInt m) \<Rightarrow> Inr m | Some _ \<Rightarrow> Inl TypeError))"

definition skip_window_candidates ::
  "string list \<Rightarrow> string \<Rightarrow> rat \<Rightarrow> 'd window \<Rightarrow> string list result \<times> 'd window" where
  "skip_window_candidates cids reason now w0 =
     (if cids = [] \<or> reason = [] then (Inl ValueError, w0)
      else case bind_res (manifest_maximum w0) (\<lambda>m. traverse (normalize_candidate m) cids) of
        Inl e \<Rightarrow> (Inl e, w0)
      | Inr normalized \<Rightarrow>
          if \<not> distinct normalized then (Inl ValueError, w0)
          else let w = touch_lock w0 in
            case verify_open_locked w of
              Inl e \<Rightarrow> (Inl e, w)
            | Inr _ \<Rightarrow> (let (released, w') = skip_loop reason now normalized w in (Inr released, w')))"

section \<open>The training receipt\<close>

definition receipt_file :: "path \<Rightarrow> window_spec \<Rightarrow> path option \<Rightarrow> path" where
  "receipt_file rt spec rp =
     (case rp of None \<Rightarrow> window_dir rt spec @ [''TRAINED.json''] | Some p \<Rightarrow> p)"

definition write_training_receipt ::
  "path \<Rightarrow> window_spec \<Rightarrow> path option \<Rightarrow> dict \<Rightarrow> 'd window \<Rightarrow> unit result \<times> 'd window" where
  "write_training_receipt rt spec rp payload w =
     (let f = receipt_file rt spec rp in
      if map_of (w_receipts w) f \<noteq> None then (Inl FileExistsError, w)
      else (Inr (), w\<lparr>w_receipts :=
              AList.update f (payload @ [(''schema_version'', JInt SCHEMA_VERSION)]) (w_receipts w)\<rparr>))"

text \<open>The transaction runs its body under the receipt's lock, on the receipt if there is one.\<close>

definition training_transaction ::
  "path \<Rightarrow> window_spec \<Rightarrow> path option \<Rightarrow> (dict option \<Rightarrow> 'd window \<Rightarrow> 'r result \<times> 'd window) \<Rightarrow>
   'd window \<Rightarrow> 'r result \<times> 'd window" where
  "training_transaction rt spec rp body w =
     body (map_of (w_receipts w) (receipt_file rt spec rp)) w"

end
