(* ===== verification/Collection_Invariants.thy ===== *)
theory Collection_Invariants
  imports Collection_Store
begin

text \<open>
  Invariants of the collection window over every interleaving of its operations: the step
  relation \<open>window_step\<close> has one rule per locked operation, with any arguments, any clock and a
  token that was not issued before (\<open>secrets.token_hex\<close>). Each operation is a composition of
  four elementary updates (unlink a lease, put a lease, complete a candidate, close); the
  invariant is proved for these and lifted.
\<close>

section \<open>Step relation\<close>

definition issued_tokens :: "'d window \<Rightarrow> string set" where
  "issued_tokens w = {t. \<exists>e \<in> set (w_events w). ev_token e = Some t}"

lemma issued_tokens_code [code]:
  "issued_tokens w =
     set (concat (map (\<lambda>e. case ev_token e of None \<Rightarrow> [] | Some t \<Rightarrow> [t]) (w_events w)))"
  by (auto simp: issued_tokens_def split: option.splits)

inductive window_step ::
  "('d \<Rightarrow> nat) \<Rightarrow> path \<Rightarrow> window_spec \<Rightarrow> 'd window \<Rightarrow> 'd window \<Rightarrow> bool"
  for dlen rt spec where
  initialize: "window_step dlen rt spec w (snd (initialize spec w))"
| claim: "token \<notin> issued_tokens w \<Longrightarrow>
    window_step dlen rt spec w (snd (claim_candidate spec as owner timeout pref now token w))"
| renew: "window_step dlen rt spec w (snd (renew_candidate_lease l timeout now w))"
| release: "window_step dlen rt spec w (snd (release_candidate_lease l w))"
| integrity: "window_step dlen rt spec w (snd (record_integrity_failure spec a diag lo now w))"
| commit: "window_step dlen rt spec w (snd (commit_group dlen spec a r e rec lo w))"
| close: "window_step dlen rt spec w (snd (close_if_ready rt spec now w))"
| abandon: "window_step dlen rt spec w (snd (abandon_owner_leases owner now w))"
| skip: "window_step dlen rt spec w (snd (skip_window_candidates cids reason now w))"
| receipt: "window_step dlen rt spec w (snd (write_training_receipt rt spec rp payload w))"

section \<open>The invariant\<close>

definition keys_ok :: "'d window \<Rightarrow> bool" where
  "keys_ok w \<longleftrightarrow>
     distinct (map fst (w_accepted w)) \<and> distinct (map fst (w_rejected w)) \<and>
     distinct (map fst (w_skipped w)) \<and>
     fst ` set (w_accepted w) \<inter> fst ` set (w_rejected w) = {} \<and>
     fst ` set (w_accepted w) \<inter> fst ` set (w_skipped w) = {} \<and>
     fst ` set (w_rejected w) \<inter> fst ` set (w_skipped w) = {} \<and>
     fst ` set (w_accepted w) \<union> fst ` set (w_rejected w) \<union> fst ` set (w_skipped w) \<subseteq> range candidate_name"

definition group_ok :: "('d \<Rightarrow> nat) \<Rightarrow> window_spec \<Rightarrow> string \<Rightarrow> 'd group_files \<Rightarrow> bool" where
  "group_ok dlen spec cid f \<longleftrightarrow>
     candidate_id (f_candidate f) = cid \<and> g_group_id (f_record f) = cid \<and>
     g_informative (f_record f) \<and> f_policy f = sp_policy spec \<and>
     g_version (f_record f) = rollout_policy_version (sp_policy spec) \<and>
     int (dlen (f_rollout f)) = sp_group_size spec \<and> int (dlen (f_end_obs f)) = sp_group_size spec"

definition accepted_ok :: "('d \<Rightarrow> nat) \<Rightarrow> window_spec \<Rightarrow> 'd window \<Rightarrow> bool" where
  "accepted_ok dlen spec w \<longleftrightarrow>
     (\<forall>cid f. map_of (w_accepted w) cid = Some f \<longrightarrow> group_ok dlen spec cid f)"

definition leases_ok :: "window_spec \<Rightarrow> 'd window \<Rightarrow> bool" where
  "leases_ok spec w \<longleftrightarrow>
     (\<forall>cid l. map_of (w_leases w) cid = Some l \<longrightarrow>
        candidate_id (l_assignment l) = cid \<and> l_token l \<in> issued_tokens w \<and>
        \<not> candidate_complete w cid \<and> round_ready_to_start spec w (a_index (l_assignment l)))"

definition closed_ok :: "path \<Rightarrow> window_spec \<Rightarrow> 'd window \<Rightarrow> bool" where
  "closed_ok rt spec w \<longleftrightarrow>
     (\<forall>p. w_closed w = Some p \<longrightarrow>
        p = close_payload rt spec (c_at p) (scan w) \<and> may_close spec (scan w))"

definition window_inv :: "('d \<Rightarrow> nat) \<Rightarrow> path \<Rightarrow> window_spec \<Rightarrow> 'd window \<Rightarrow> bool" where
  "window_inv dlen rt spec w \<longleftrightarrow>
     keys_ok w \<and> accepted_ok dlen spec w \<and> leases_ok spec w \<and> closed_ok rt spec w"

lemma window_inv_empty: "window_inv dlen rt spec empty_window"
  by (simp add: window_inv_def keys_ok_def accepted_ok_def leases_ok_def closed_ok_def empty_window_def)

lemma candidate_name_inject [simp]: "candidate_name i = candidate_name j \<longleftrightarrow> i = j"
  by (simp add: candidate_name_def)

lemma candidate_number_name [simp]: "candidate_number (candidate_name i) = i"
  unfolding candidate_number_def candidate_name_def by (simp only: removeprefix_append parse_pad4)

lemma strip_candidate_name [simp]: "strip_prefix ''candidate_'' (candidate_name i) = Some (pad4 i)"
  by (simp add: strip_prefix_iff candidate_name_def)

lemma candidate_complete_iff:
  "candidate_complete w cid \<longleftrightarrow>
     cid \<in> fst ` set (w_accepted w) \<union> fst ` set (w_rejected w) \<union> fst ` set (w_skipped w)"
  by (simp add: candidate_complete_def map_of_eq_None_iff)

section \<open>What a step keeps\<close>

text \<open>
  \<open>advances w w'\<close>: finished candidates stay finished with the same contents, and a closed
  window is frozen.
\<close>

definition advances :: "'d window \<Rightarrow> 'd window \<Rightarrow> bool" where
  "advances w w' \<longleftrightarrow>
     map_of (w_accepted w) \<subseteq>\<^sub>m map_of (w_accepted w') \<and>
     map_of (w_rejected w) \<subseteq>\<^sub>m map_of (w_rejected w') \<and>
     map_of (w_skipped w) \<subseteq>\<^sub>m map_of (w_skipped w') \<and>
     issued_tokens w \<subseteq> issued_tokens w' \<and>
     (w_closed w \<noteq> None \<longrightarrow>
        w_closed w' = w_closed w \<and> w_accepted w' = w_accepted w \<and>
        w_rejected w' = w_rejected w \<and> w_skipped w' = w_skipped w)"

lemma advances_refl: "advances w w"
  by (simp add: advances_def)

lemma advances_trans: "advances u v \<Longrightarrow> advances v w \<Longrightarrow> advances u w"
  unfolding advances_def by (auto intro: map_le_trans)

text \<open>
  \<open>fenced cid t w w'\<close>: a token of candidate \<open>cid\<close> that was issued and lost stays lost.
\<close>

definition holds_token :: "'d window \<Rightarrow> string \<Rightarrow> string \<Rightarrow> bool" where
  "holds_token w cid t \<longleftrightarrow> (\<exists>l. map_of (w_leases w) cid = Some l \<and> l_token l = t)"

lemma holds_token_code [code]:
  "holds_token w cid t \<longleftrightarrow>
     (case map_of (w_leases w) cid of None \<Rightarrow> False | Some l \<Rightarrow> l_token l = t)"
  by (auto simp: holds_token_def split: option.splits)

definition fences :: "'d window \<Rightarrow> 'd window \<Rightarrow> bool" where
  "fences w w' \<longleftrightarrow>
     issued_tokens w \<subseteq> issued_tokens w' \<and>
     (\<forall>cid t. t \<in> issued_tokens w \<longrightarrow> \<not> holds_token w cid t \<longrightarrow> \<not> holds_token w' cid t)"

lemma fences_refl: "fences w w"
  by (simp add: fences_def)

lemma fences_trans: "fences u v \<Longrightarrow> fences v w \<Longrightarrow> fences u w"
  unfolding fences_def by blast

section \<open>The abstract ledger\<close>

text \<open>
  What the window promises, without files, leases or clocks: every candidate is finished at
  most once, only while nothing is published, and one selection of accepted candidates is
  published at most once.
\<close>

record ledger =
  lg_accepted :: "string set"
  lg_rejected :: "string set"
  lg_skipped :: "string set"
  lg_published :: "string list option"

definition undecided :: "ledger \<Rightarrow> string \<Rightarrow> bool" where
  "undecided L c \<longleftrightarrow>
     c \<notin> lg_accepted L \<union> lg_rejected L \<union> lg_skipped L \<and> lg_published L = None"

inductive ledger_step :: "ledger \<Rightarrow> ledger \<Rightarrow> bool" where
  accept: "undecided L c \<Longrightarrow> ledger_step L (L\<lparr>lg_accepted := insert c (lg_accepted L)\<rparr>)"
| reject: "undecided L c \<Longrightarrow> ledger_step L (L\<lparr>lg_rejected := insert c (lg_rejected L)\<rparr>)"
| skip: "undecided L c \<Longrightarrow> ledger_step L (L\<lparr>lg_skipped := insert c (lg_skipped L)\<rparr>)"
| publish: "lg_published L = None \<Longrightarrow> distinct xs \<Longrightarrow> set xs \<subseteq> lg_accepted L \<Longrightarrow>
    ledger_step L (L\<lparr>lg_published := Some xs\<rparr>)"

definition ledger_of :: "'d window \<Rightarrow> ledger" where
  "ledger_of w =
     \<lparr>lg_accepted = fst ` set (w_accepted w), lg_rejected = fst ` set (w_rejected w),
      lg_skipped = fst ` set (w_skipped w),
      lg_published = map_option (\<lambda>p. map last (c_selected p)) (w_closed w)\<rparr>"

definition refines :: "'d window \<Rightarrow> 'd window \<Rightarrow> bool" where
  "refines w w' \<longleftrightarrow> ledger_step\<^sup>*\<^sup>* (ledger_of w) (ledger_of w')"

lemma refines_refl: "refines w w"
  by (simp add: refines_def)

lemma refines_trans: "refines u v \<Longrightarrow> refines v w \<Longrightarrow> refines u w"
  by (simp add: refines_def)

lemma refines_same: "ledger_of w' = ledger_of w \<Longrightarrow> refines w w'"
  by (simp add: refines_def)

lemma refines_one: "ledger_step (ledger_of w) (ledger_of w') \<Longrightarrow> refines w w'"
  by (auto simp: refines_def)

text \<open>The facts of one step, bundled so that every operation has one lemma.\<close>

definition good_step ::
  "('d \<Rightarrow> nat) \<Rightarrow> path \<Rightarrow> window_spec \<Rightarrow> 'd window \<Rightarrow> 'd window \<Rightarrow> bool" where
  "good_step dlen rt spec w w' \<longleftrightarrow>
     (window_inv dlen rt spec w \<longrightarrow>
        window_inv dlen rt spec w' \<and> advances w w' \<and> fences w w' \<and> refines w w')"

lemma good_step_refl: "good_step dlen rt spec w w"
  by (simp add: good_step_def advances_refl fences_refl refines_refl)

lemma good_step_trans:
  "good_step dlen rt spec u v \<Longrightarrow> good_step dlen rt spec v w \<Longrightarrow> good_step dlen rt spec u w"
  unfolding good_step_def by (meson advances_trans fences_trans refines_trans)

section \<open>Elementary updates\<close>

text \<open>Updates of fields the invariant does not read, and new events.\<close>

definition same_core :: "'d window \<Rightarrow> 'd window \<Rightarrow> bool" where
  "same_core w w' \<longleftrightarrow>
     w_accepted w' = w_accepted w \<and> w_rejected w' = w_rejected w \<and> w_skipped w' = w_skipped w \<and>
     w_leases w' = w_leases w \<and> w_closed w' = w_closed w \<and> issued_tokens w \<subseteq> issued_tokens w'"

lemma scan_cong:
  "w_accepted w' = w_accepted w \<Longrightarrow> w_rejected w' = w_rejected w \<Longrightarrow> w_skipped w' = w_skipped w \<Longrightarrow>
   (w_closed w' = None) = (w_closed w = None) \<Longrightarrow> scan w' = scan w"
  by (simp add: scan_def Let_def)

lemma complete_cong:
  "w_accepted w' = w_accepted w \<Longrightarrow> w_rejected w' = w_rejected w \<Longrightarrow> w_skipped w' = w_skipped w \<Longrightarrow>
   candidate_complete w' = candidate_complete w"
  by (simp add: candidate_complete_def fun_eq_iff)

lemma round_ready_cong:
  "candidate_complete w' = candidate_complete w \<Longrightarrow>
   round_ready_to_start spec w' = round_ready_to_start spec w"
  by (simp add: round_ready_to_start_def fun_eq_iff)

lemma round_ready_mono:
  "round_ready_to_start spec w i \<Longrightarrow> (\<And>c. candidate_complete w c \<Longrightarrow> candidate_complete w' c) \<Longrightarrow>
   round_ready_to_start spec w' i"
  by (auto simp: round_ready_to_start_def list_all_iff)

lemma good_same_core: "same_core w w' \<Longrightarrow> good_step dlen rt spec w w'"
proof -
  assume c: "same_core w w'"
  then have scan: "scan w' = scan w" and comp: "candidate_complete w' = candidate_complete w"
    by (auto simp: same_core_def intro!: scan_cong complete_cong)
  have "refines w w'"
    by (rule refines_same) (use c in \<open>simp add: ledger_of_def same_core_def\<close>)
  then show ?thesis
    unfolding good_step_def window_inv_def advances_def fences_def keys_ok_def accepted_ok_def
      leases_ok_def closed_ok_def scan comp round_ready_cong [OF comp]
    using c by (auto simp: same_core_def holds_token_def)
qed

lemma issued_tokens_append:
  "w_events w' = w_events w @ es \<Longrightarrow> issued_tokens w \<subseteq> issued_tokens w'"
  by (auto simp: issued_tokens_def)

lemma good_unlink_lease: "good_step dlen rt spec w (unlink_lease cid w)"
proof -
  have comp: "candidate_complete (unlink_lease cid w) = candidate_complete w"
    by (rule complete_cong) (simp_all add: unlink_lease_def)
  have scan: "scan (unlink_lease cid w) = scan w"
    by (rule scan_cong) (simp_all add: unlink_lease_def)
  have tok: "issued_tokens (unlink_lease cid w) = issued_tokens w"
    by (simp add: issued_tokens_def unlink_lease_def)
  have "refines w (unlink_lease cid w)"
    by (rule refines_same) (simp add: ledger_of_def unlink_lease_def)
  then show ?thesis
    unfolding good_step_def window_inv_def leases_ok_def closed_ok_def advances_def fences_def
      scan comp tok round_ready_cong [OF comp]
    by (auto simp: unlink_lease_def keys_ok_def accepted_ok_def holds_token_def)
qed

lemma good_put_lease:
  assumes w': "w_accepted w' = w_accepted w" "w_rejected w' = w_rejected w" "w_skipped w' = w_skipped w"
    "w_closed w' = w_closed w" "w_leases w' = AList.update cid l (w_leases w)"
    "issued_tokens w \<subseteq> issued_tokens w'"
    and cid: "candidate_id (l_assignment l) = cid" and tok: "l_token l \<in> issued_tokens w'"
    and fresh: "l_token l \<notin> issued_tokens w \<or> holds_token w cid (l_token l)"
    and open_: "\<not> candidate_complete w cid" "round_ready_to_start spec w (a_index (l_assignment l))"
  shows "good_step dlen rt spec w w'"
proof -
  have comp: "candidate_complete w' = candidate_complete w"
    by (rule complete_cong) (simp_all add: w')
  have scan: "scan w' = scan w"
    by (rule scan_cong) (simp_all add: w')
  have "fences w w'"
    using w' fresh by (auto simp: fences_def holds_token_def)
  moreover have "refines w w'"
    by (rule refines_same) (simp add: ledger_of_def w')
  moreover have "leases_ok spec w \<Longrightarrow> leases_ok spec w'"
    using w'(5,6) cid tok open_ unfolding leases_ok_def comp round_ready_cong [OF comp] by auto
  ultimately show ?thesis
    using w' unfolding good_step_def window_inv_def closed_ok_def scan
    by (auto simp: keys_ok_def accepted_ok_def advances_def)
qed

section \<open>Completing a candidate\<close>

text \<open>
  The three ways to finish a candidate (accept, reject, skip) put it into exactly one of the
  three directories and unlink its lease; the window is open while they do.
\<close>

definition finishes :: "string \<Rightarrow> 'd window \<Rightarrow> 'd window \<Rightarrow> bool" where
  "finishes cid w w' \<longleftrightarrow>
     \<not> candidate_complete w cid \<and> cid \<in> range candidate_name \<and> w_closed w = None \<and>
     w_closed w' = None \<and> w_leases w' = AList.delete cid (w_leases w) \<and>
     issued_tokens w' = issued_tokens w"

lemma finishes_leases:
  assumes f: "finishes cid w w'" and lo: "leases_ok spec w"
    and comp: "\<And>c. candidate_complete w' c \<longleftrightarrow> candidate_complete w c \<or> c = cid"
  shows "leases_ok spec w'"
  unfolding leases_ok_def
proof (intro allI impI)
  fix c l assume "map_of (w_leases w') c = Some l"
  then have c: "c \<noteq> cid" and l: "map_of (w_leases w) c = Some l"
    using f by (auto simp: finishes_def split: if_splits)
  from l lo have h: "candidate_id (l_assignment l) = c" "l_token l \<in> issued_tokens w"
    "\<not> candidate_complete w c" "round_ready_to_start spec w (a_index (l_assignment l))"
    by (auto simp: leases_ok_def)
  have "round_ready_to_start spec w' (a_index (l_assignment l))"
    by (rule round_ready_mono [OF h(4)]) (simp add: comp)
  with h c f show "candidate_id (l_assignment l) = c \<and> l_token l \<in> issued_tokens w' \<and>
      \<not> candidate_complete w' c \<and> round_ready_to_start spec w' (a_index (l_assignment l))"
    by (simp add: comp finishes_def)
qed

lemma finishes_fences: "finishes cid w w' \<Longrightarrow> fences w w'"
  by (auto simp: finishes_def fences_def holds_token_def split: if_splits)

lemma map_le_update_new: "k \<notin> fst ` set d \<Longrightarrow> map_of d \<subseteq>\<^sub>m (map_of d)(k \<mapsto> v)"
  by (metis map_le_def map_of_eq_None_iff fun_upd_other domIff)

lemma good_accept:
  assumes f: "finishes cid w w'" and g: "group_ok dlen spec cid gf"
    and w': "w_accepted w' = AList.update cid gf (w_accepted w)" "w_rejected w' = w_rejected w"
      "w_skipped w' = w_skipped w"
  shows "good_step dlen rt spec w w'"
proof -
  have comp: "candidate_complete w' c \<longleftrightarrow> candidate_complete w c \<or> c = cid" for c
    by (auto simp: candidate_complete_iff w')
  have new: "cid \<notin> fst ` set (w_accepted w)" "cid \<notin> fst ` set (w_rejected w)" "cid \<notin> fst ` set (w_skipped w)"
    using f by (auto simp: finishes_def candidate_complete_iff)
  have "keys_ok w \<Longrightarrow> keys_ok w'"
    using f new by (auto simp: keys_ok_def w' AList.distinct_update finishes_def)
  moreover have "accepted_ok dlen spec w \<Longrightarrow> accepted_ok dlen spec w'"
    using g by (auto simp: accepted_ok_def w')
  moreover have "advances w w'"
    using f new by (auto simp: advances_def finishes_def w' intro: map_le_update_new)
  moreover have "refines w w'"
  proof (rule refines_one)
    have "ledger_of w' = (ledger_of w)\<lparr>lg_accepted := insert cid (lg_accepted (ledger_of w))\<rparr>"
      using f by (simp add: ledger_of_def w' finishes_def)
    moreover have "undecided (ledger_of w) cid"
      using f new by (simp add: undecided_def ledger_of_def finishes_def)
    ultimately show "ledger_step (ledger_of w) (ledger_of w')"
      by (simp add: ledger_step.accept)
  qed
  ultimately show ?thesis
    using f finishes_fences [OF f] finishes_leases [OF f _ comp]
    by (auto simp: good_step_def window_inv_def closed_ok_def finishes_def)
qed

lemma good_reject:
  assumes f: "finishes cid w w'"
    and w': "w_accepted w' = w_accepted w" "w_rejected w' = AList.update cid rj (w_rejected w)"
      "w_skipped w' = w_skipped w"
  shows "good_step dlen rt spec w w'"
proof -
  have comp: "candidate_complete w' c \<longleftrightarrow> candidate_complete w c \<or> c = cid" for c
    by (auto simp: candidate_complete_iff w')
  have new: "cid \<notin> fst ` set (w_accepted w)" "cid \<notin> fst ` set (w_rejected w)" "cid \<notin> fst ` set (w_skipped w)"
    using f by (auto simp: finishes_def candidate_complete_iff)
  have "keys_ok w \<Longrightarrow> keys_ok w'"
    using f new by (auto simp: keys_ok_def w' AList.distinct_update finishes_def)
  moreover have "accepted_ok dlen spec w \<Longrightarrow> accepted_ok dlen spec w'"
    by (auto simp: accepted_ok_def w')
  moreover have "advances w w'"
    using f new by (auto simp: advances_def finishes_def w' intro: map_le_update_new)
  moreover have "refines w w'"
  proof (rule refines_one)
    have "ledger_of w' = (ledger_of w)\<lparr>lg_rejected := insert cid (lg_rejected (ledger_of w))\<rparr>"
      using f by (simp add: ledger_of_def w' finishes_def)
    moreover have "undecided (ledger_of w) cid"
      using f new by (simp add: undecided_def ledger_of_def finishes_def)
    ultimately show "ledger_step (ledger_of w) (ledger_of w')"
      by (simp add: ledger_step.reject)
  qed
  ultimately show ?thesis
    using f finishes_fences [OF f] finishes_leases [OF f _ comp]
    by (auto simp: good_step_def window_inv_def closed_ok_def finishes_def)
qed

lemma good_skip_one:
  assumes f: "finishes cid w w'"
    and w': "w_accepted w' = w_accepted w" "w_rejected w' = w_rejected w"
      "w_skipped w' = AList.update cid sk (w_skipped w)"
  shows "good_step dlen rt spec w w'"
proof -
  have comp: "candidate_complete w' c \<longleftrightarrow> candidate_complete w c \<or> c = cid" for c
    by (auto simp: candidate_complete_iff w')
  have new: "cid \<notin> fst ` set (w_accepted w)" "cid \<notin> fst ` set (w_rejected w)" "cid \<notin> fst ` set (w_skipped w)"
    using f by (auto simp: finishes_def candidate_complete_iff)
  have "keys_ok w \<Longrightarrow> keys_ok w'"
    using f new by (auto simp: keys_ok_def w' AList.distinct_update finishes_def)
  moreover have "accepted_ok dlen spec w \<Longrightarrow> accepted_ok dlen spec w'"
    by (auto simp: accepted_ok_def w')
  moreover have "advances w w'"
    using f new by (auto simp: advances_def finishes_def w' intro: map_le_update_new)
  moreover have "refines w w'"
  proof (rule refines_one)
    have "ledger_of w' = (ledger_of w)\<lparr>lg_skipped := insert cid (lg_skipped (ledger_of w))\<rparr>"
      using f by (simp add: ledger_of_def w' finishes_def)
    moreover have "undecided (ledger_of w) cid"
      using f new by (simp add: undecided_def ledger_of_def finishes_def)
    ultimately show "ledger_step (ledger_of w) (ledger_of w')"
      by (simp add: ledger_step.skip)
  qed
  ultimately show ?thesis
    using f finishes_fences [OF f] finishes_leases [OF f _ comp]
    by (auto simp: good_step_def window_inv_def closed_ok_def finishes_def)
qed

section \<open>One lemma per operation\<close>

lemma good_touch_lock: "good_step dlen rt spec w (touch_lock w)"
  by (rule good_same_core) (simp add: same_core_def touch_lock_def issued_tokens_def)

lemma good_initialize: "good_step dlen rt spec w (snd (initialize spec w))"
  by (rule good_same_core)
     (auto simp: initialize_def Let_def same_core_def touch_lock_def init_touch_open_def
       init_write_manifest_def issued_tokens_def split: option.splits)

lemma good_grant:
  assumes "token \<notin> issued_tokens w" "\<not> candidate_complete w (candidate_id a)"
    "round_ready_to_start spec w (a_index a)"
  shows "good_step dlen rt spec w (snd (grant_lease a owner token timeout now re w))"
proof -
  let ?l = "\<lparr>l_assignment = a, l_owner = owner, l_token = token, l_claimed = now,
             l_heartbeat = now, l_expires = now + timeout\<rparr>"
  show ?thesis
    by (rule good_put_lease [where l = ?l and cid = "candidate_id a"])
       (use assms in \<open>auto simp: grant_lease_def Let_def issued_tokens_def\<close>)
qed

lemma good_claim_loop:
  "token \<notin> issued_tokens w \<Longrightarrow>
   good_step dlen rt spec w (snd (claim_loop spec owner token timeout now as w))"
proof (induction as arbitrary: w)
  case Nil
  then show ?case by (simp add: good_step_refl)
next
  case (Cons a as)
  let ?u = "w\<lparr>w_leases := AList.delete (candidate_id a) (w_leases w)\<rparr>"
  have u: "?u = unlink_lease (candidate_id a) w" by (simp add: unlink_lease_def)
  have "token \<notin> issued_tokens ?u" using Cons.prems by (simp add: issued_tokens_def)
  from good_step_trans [OF good_unlink_lease [of dlen rt spec w "candidate_id a"] Cons.IH [OF this, unfolded u]]
  have skip: "good_step dlen rt spec w (snd (claim_loop spec owner token timeout now as ?u))"
    by (simp add: u)
  show ?case
    using Cons skip by (auto intro: good_grant split: option.splits)
qed

lemma good_claim:
  assumes "token \<notin> issued_tokens w"
  shows "good_step dlen rt spec w (snd (claim_candidate spec as owner timeout pref now token w))"
proof -
  have "token \<notin> issued_tokens (touch_lock w)" using assms by (simp add: issued_tokens_def touch_lock_def)
  note loop = good_step_trans [OF good_touch_lock good_claim_loop [OF this]]
  show ?thesis
    unfolding claim_candidate_def Let_def
    by (simp add: good_step_refl good_touch_lock loop case_prod_beta split: sum.split)
qed

lemma good_renew: "good_step dlen rt spec w (snd (renew_candidate_lease l timeout now w))"
proof (cases "0 < timeout \<and> (\<exists>cur. map_of (w_leases w) (candidate_id (l_assignment l)) = Some cur \<and>
    same_holder cur l)")
  case False
  then show ?thesis
    by (auto simp: renew_candidate_lease_def Let_def good_step_refl good_touch_lock split: option.splits)
       (auto simp: touch_lock_def)
next
  case True
  then obtain cur where cur: "map_of (w_leases w) (candidate_id (l_assignment l)) = Some cur"
    and tok: "l_token cur = l_token l" and pos: "0 < timeout" and same: "same_holder cur l"
    by (auto simp: same_holder_def)
  let ?cid = "candidate_id (l_assignment l)"
  let ?r = "l\<lparr>l_heartbeat := now, l_expires := now + timeout\<rparr>"
  show ?thesis
    unfolding good_step_def
  proof
    assume inv: "window_inv dlen rt spec w"
    then have h: "candidate_id (l_assignment cur) = ?cid" "l_token cur \<in> issued_tokens w"
      "\<not> candidate_complete w ?cid" "round_ready_to_start spec w (a_index (l_assignment cur))"
      using cur by (auto simp: window_inv_def leases_ok_def)
    have idx: "a_index (l_assignment cur) = a_index (l_assignment l)"
      using h(1) by (simp add: candidate_id_def)
    have "good_step dlen rt spec w (snd (renew_candidate_lease l timeout now w))"
      by (rule good_put_lease [where l = ?r and cid = ?cid])
         (use cur tok pos same h idx in \<open>auto simp: renew_candidate_lease_def Let_def touch_lock_def
             issued_tokens_def holds_token_def\<close>)
    with inv show "window_inv dlen rt spec (snd (renew_candidate_lease l timeout now w)) \<and>
        advances w (snd (renew_candidate_lease l timeout now w)) \<and>
        fences w (snd (renew_candidate_lease l timeout now w)) \<and>
        refines w (snd (renew_candidate_lease l timeout now w))"
      by (simp add: good_step_def)
  qed
qed

lemma good_release: "good_step dlen rt spec w (snd (release_candidate_lease l w))"
proof -
  have "good_step dlen rt spec w (unlink_lease cid (touch_lock w))" for cid
    by (rule good_step_trans [OF good_touch_lock good_unlink_lease])
  then show ?thesis
    by (auto simp: release_candidate_lease_def Let_def good_touch_lock unlink_lease_def split: option.splits)
qed

lemma good_integrity: "good_step dlen rt spec w (snd (record_integrity_failure spec a diag lo now w))"
  by (rule good_same_core)
     (auto simp: record_integrity_failure_def Let_def same_core_def touch_lock_def issued_tokens_def)

lemma good_drop_tmp: "good_step dlen rt spec w (drop_tmp cid w)"
  by (rule good_same_core) (simp add: same_core_def drop_tmp_def issued_tokens_def)

lemma verify_open_Inr: "verify_open_locked w = Inr u \<longleftrightarrow> w_closed w = None \<and> w_open w"
  by (auto simp: verify_open_locked_def)

definition files_ok :: "('d \<Rightarrow> nat) \<Rightarrow> window_spec \<Rightarrow> assignment \<Rightarrow> 'd group_files \<Rightarrow> bool" where
  "files_ok dlen spec a f \<longleftrightarrow> (g_informative (f_record f) \<longrightarrow> group_ok dlen spec (candidate_id a) f)"

lemma commit_locked_cases:
  fixes w :: "'d window" and spec a f lo
  defines "cid \<equiv> candidate_id a" and "w' \<equiv> snd (commit_locked spec a f lo w)"
  shows "w' = w \<or> w' = drop_tmp cid w \<or>
    \<not> candidate_complete w cid \<and> w_closed w = None \<and>
      (g_informative (f_record f) \<and>
         w' = unlink_lease cid ((drop_tmp cid w)\<lparr>w_accepted := AList.update cid f (w_accepted w)\<rparr>) \<or>
       (\<exists>rj. w' = unlink_lease cid (w\<lparr>w_rejected := AList.update cid rj (w_rejected w)\<rparr>)))"
proof (cases "candidate_complete w cid \<or> w_closed w \<noteq> None \<or> \<not> w_open w")
  case True
  then show ?thesis
    unfolding w'_def cid_def commit_locked_def Let_def verify_open_locked_def
    by simp blast
next
  case False
  then show ?thesis
    unfolding w'_def cid_def commit_locked_def Let_def verify_open_locked_def
    by (cases "g_informative (f_record f)") (simp_all, blast+)
qed

lemma good_commit_locked:
  assumes "files_ok dlen spec a f"
  shows "good_step dlen rt spec w (snd (commit_locked spec a f lo w))"
proof -
  let ?cid = "candidate_id a" and ?w = "snd (commit_locked spec a f lo w)"
  have name: "?cid \<in> range candidate_name" by (simp add: candidate_id_def)
  consider (discard) "?w = w \<or> ?w = drop_tmp ?cid w"
    | (accepted) "g_informative (f_record f)" "\<not> candidate_complete w ?cid" "w_closed w = None"
        "?w = unlink_lease ?cid ((drop_tmp ?cid w)\<lparr>w_accepted := AList.update ?cid f (w_accepted w)\<rparr>)"
    | (rejected) rj where "\<not> candidate_complete w ?cid" "w_closed w = None"
        "?w = unlink_lease ?cid (w\<lparr>w_rejected := AList.update ?cid rj (w_rejected w)\<rparr>)"
    using commit_locked_cases [of spec a f lo w] by (metis (no_types))
  then show ?thesis
  proof cases
    case discard
    then show ?thesis using good_step_refl [of dlen rt spec w] good_drop_tmp [of dlen rt spec w ?cid] by metis
  next
    case accepted
    show ?thesis
      by (rule good_accept [where cid = ?cid and gf = f])
         (use accepted name assms in \<open>auto simp: finishes_def unlink_lease_def drop_tmp_def
             issued_tokens_def files_ok_def\<close>)
  next
    case rejected
    show ?thesis
      by (rule good_reject [where cid = ?cid and rj = rj])
         (use rejected name in \<open>auto simp: finishes_def unlink_lease_def issued_tokens_def\<close>)
  qed
qed

lemma good_commit: "good_step dlen rt spec w (snd (commit_group dlen spec a r e rec lo w))"
proof -
  let ?f = "\<lparr>f_rollout = r, f_end_obs = e, f_candidate = a, f_policy = sp_policy spec, f_record = rec\<rparr>"
  have tmp: "good_step dlen rt spec w
      (touch_lock (if g_informative rec then w\<lparr>w_tmp := candidate_id a # w_tmp w\<rparr> else w))"
    by (rule good_same_core) (simp add: same_core_def touch_lock_def issued_tokens_def)
  show ?thesis
  proof (cases "int (dlen r) = sp_group_size spec \<and> int (dlen e) = sp_group_size spec \<and>
      g_version rec = rollout_policy_version (sp_policy spec) \<and> g_group_id rec = candidate_id a")
    case True
    then have "files_ok dlen spec a ?f" by (simp add: files_ok_def group_ok_def)
    from good_step_trans [OF tmp good_commit_locked [OF this]] True show ?thesis
      by (simp add: commit_group_def Let_def good_step_refl)
  next
    case False
    then show ?thesis by (auto simp: commit_group_def good_step_refl)
  qed
qed

lemma close_payload_at: "c_at (close_payload rt spec now st) = now"
  by (simp add: close_payload_def Let_def)

text \<open>Neither the closing test nor the payload reads the flag \<open>closed\<close> of a scan.\<close>

lemma scan_closed_irrelevant:
  "sc_accepted st' = sc_accepted st \<Longrightarrow> sc_rejected st' = sc_rejected st \<Longrightarrow>
   sc_skipped st' = sc_skipped st \<Longrightarrow> sc_completed st' = sc_completed st \<Longrightarrow>
   may_close spec st' = may_close spec st \<and> close_payload rt spec now st' = close_payload rt spec now st"
  by (simp add: may_close_def completed_round_def completed_ids_def close_payload_def Let_def)

lemma glob_candidates_keys: "set (glob_candidates d) \<subseteq> fst ` set d"
  by (auto simp: glob_candidates_def)

lemma glob_candidates_distinct: "distinct (map fst d) \<Longrightarrow> distinct (glob_candidates d)"
  by (simp add: glob_candidates_def)

lemma selected_names:
  fixes rt spec now st
  defines "xs \<equiv> map last (c_selected (close_payload rt spec now st))"
  shows "set xs \<subseteq> set (sc_accepted st)" and "distinct (sc_accepted st) \<Longrightarrow> distinct xs"
  by (auto simp: xs_def close_payload_def Let_def comp_def dest: in_set_takeD)

lemma refines_close:
  assumes "keys_ok w" and "w_closed w = None"
  shows "refines w (w\<lparr>w_closed := Some (close_payload rt spec now (scan w)), w_open := False\<rparr>)"
    (is "refines w ?w")
proof (rule refines_one)
  let ?xs = "map last (c_selected (close_payload rt spec now (scan w)))"
  have acc: "sc_accepted (scan w) = glob_candidates (w_accepted w)"
    by (simp add: scan_def Let_def)
  have eq: "ledger_of ?w = (ledger_of w)\<lparr>lg_published := Some ?xs\<rparr>"
    by (simp add: ledger_of_def)
  have "distinct ?xs"
    using assms(1) acc by (simp add: selected_names(2) glob_candidates_distinct keys_ok_def)
  moreover have "set ?xs \<subseteq> lg_accepted (ledger_of w)"
    using selected_names(1) [of rt spec now "scan w"] glob_candidates_keys [of "w_accepted w"]
    unfolding acc by (auto simp: ledger_of_def)
  ultimately show "ledger_step (ledger_of w) (ledger_of ?w)"
    unfolding eq using assms(2) by (intro ledger_step.publish) (simp_all add: ledger_of_def)
qed

lemma good_close: "good_step dlen rt spec w (snd (close_if_ready rt spec now w))"
proof (cases "w_closed w = None \<and> may_close spec (scan (touch_lock w))")
  case False
  then show ?thesis
    by (auto simp: close_if_ready_def Let_def touch_lock_def good_touch_lock [unfolded touch_lock_def]
        split: option.splits)
next
  case True
  let ?p = "close_payload rt spec now (scan (touch_lock w))"
  let ?w = "(touch_lock w)\<lparr>w_closed := Some ?p, w_open := False\<rparr>"
  have eq: "snd (close_if_ready rt spec now w) = ?w"
    using True by (simp add: close_if_ready_def Let_def touch_lock_def)
  have comp: "candidate_complete ?w = candidate_complete w"
    by (rule complete_cong) (simp_all add: touch_lock_def)
  have sc: "sc_accepted (scan ?w) = sc_accepted (scan (touch_lock w))"
    "sc_rejected (scan ?w) = sc_rejected (scan (touch_lock w))"
    "sc_skipped (scan ?w) = sc_skipped (scan (touch_lock w))"
    "sc_completed (scan ?w) = sc_completed (scan (touch_lock w))"
    by (simp_all add: scan_def Let_def)
  have "closed_ok rt spec ?w"
    using True scan_closed_irrelevant [OF sc] by (auto simp: closed_ok_def close_payload_at)
  moreover have "keys_ok w \<Longrightarrow> refines w ?w"
    using refines_close [of "touch_lock w" rt spec now] True
    by (auto simp: touch_lock_def keys_ok_def refines_def ledger_of_def)
  ultimately show ?thesis
    unfolding eq good_step_def window_inv_def leases_ok_def comp round_ready_cong [OF comp]
    using True by (auto simp: keys_ok_def accepted_ok_def advances_def fences_def holds_token_def
        touch_lock_def issued_tokens_def)
qed

lemma good_abandon_loop: "good_step dlen rt spec w (snd (abandon_loop owner now cids w))"
proof (induction cids arbitrary: w)
  case Nil
  then show ?case by (simp add: good_step_refl)
next
  case (Cons cid cids)
  have "good_step dlen rt spec w
      ((unlink_lease cid w)\<lparr>w_events := w_events w @ [ev]\<rparr>)" for ev
    by (rule good_step_trans [OF good_unlink_lease [where cid = cid] good_same_core])
       (auto simp: same_core_def unlink_lease_def issued_tokens_def)
  from good_step_trans [OF this Cons.IH] Cons.IH show ?case
    by (simp add: Let_def case_prod_beta split: option.split)
qed

lemma good_abandon: "good_step dlen rt spec w (snd (abandon_owner_leases owner now w))"
  by (simp add: abandon_owner_leases_def good_step_refl good_abandon_loop case_prod_beta)

lemma normalize_candidate_range: "normalize_candidate m c = Inr n \<Longrightarrow> n \<in> range candidate_name"
  by (auto simp: normalize_candidate_def split: option.splits if_splits)

lemma good_skip_loop:
  "w_closed w = None \<Longrightarrow> set cids \<subseteq> range candidate_name \<Longrightarrow>
   good_step dlen rt spec w (snd (skip_loop reason now cids w))"
proof (induction cids arbitrary: w)
  case Nil
  then show ?case by (simp add: good_step_refl)
next
  case (Cons cid cids)
  let ?sk = "\<lparr>sk_reason = reason, sk_at = now\<rparr>"
  let ?w = "unlink_lease cid (w\<lparr>w_skipped := AList.update cid ?sk (w_skipped w)\<rparr>)"
  have closed: "w_closed ?w = None" using Cons.prems by (simp add: unlink_lease_def)
  have "good_step dlen rt spec w ?w" if "\<not> candidate_complete w cid"
    by (rule good_skip_one [where cid = cid and sk = ?sk])
       (use that Cons.prems in \<open>auto simp: finishes_def unlink_lease_def issued_tokens_def\<close>)
  with good_step_trans [OF _ Cons.IH [OF closed]] Cons show ?case
    by (auto simp: Let_def case_prod_beta)
qed

lemma good_skip: "good_step dlen rt spec w (snd (skip_window_candidates cids reason now w))"
proof -
  have names: "set ns \<subseteq> range candidate_name" if "traverse (normalize_candidate m) cids = Inr ns" for m ns
    using that
    by (auto simp: traverse_Inr_list_all2 list_all2_conv_all_nth in_set_conv_nth
        dest!: normalize_candidate_range)
  have "good_step dlen rt spec w (snd (skip_loop reason now ns (touch_lock w)))"
    if "w_closed w = None" "set ns \<subseteq> range candidate_name" for ns
    by (rule good_step_trans [OF good_touch_lock good_skip_loop]) (use that in \<open>auto simp: touch_lock_def\<close>)
  with names show ?thesis
    by (auto simp: skip_window_candidates_def Let_def good_step_refl good_touch_lock verify_open_locked_def
        case_prod_beta res_simps touch_lock_def split: sum.split)
       (auto simp: good_step_refl good_touch_lock [unfolded touch_lock_def])
qed

lemma good_receipt: "good_step dlen rt spec w (snd (write_training_receipt rt spec rp payload w))"
  by (rule good_same_core)
     (auto simp: write_training_receipt_def Let_def same_core_def issued_tokens_def)

lemma window_step_good: "window_step dlen rt spec w w' \<Longrightarrow> good_step dlen rt spec w w'"
  by (induction rule: window_step.induct)
     (auto intro: good_initialize good_claim good_renew good_release good_integrity good_commit
       good_close good_abandon good_skip good_receipt)

section \<open>Interpretations\<close>

interpretation window: stable_relation
  "\<lambda>w. w = empty_window" "window_step dlen rt spec" "window_inv dlen rt spec" advances
  for dlen rt spec
  by unfold_locales
     (auto simp: window_inv_empty advances_refl good_step_def intro: advances_trans dest!: window_step_good)

interpretation fencing: stable_relation
  "\<lambda>w. w = empty_window" "window_step dlen rt spec" "window_inv dlen rt spec" fences
  for dlen rt spec
  by unfold_locales
     (auto simp: window_inv_empty fences_refl good_step_def intro: fences_trans dest!: window_step_good)

interpretation ledger: stable_relation
  "\<lambda>w. w = empty_window" "window_step dlen rt spec" "window_inv dlen rt spec" refines
  for dlen rt spec
  by unfold_locales
     (auto simp: window_inv_empty refines_refl good_step_def intro: refines_trans dest!: window_step_good)

end
