(* ===== verification/Collection_Properties.thy ===== *)
theory Collection_Properties
  imports Collection_Invariants
begin

text \<open>
  The correctness properties of the collection window: what every execution from an empty
  directory guarantees, and the functional behaviour of claiming, closing, loading and
  initialising.
\<close>

abbreviation reachable ::
  "('d \<Rightarrow> nat) \<Rightarrow> path \<Rightarrow> window_spec \<Rightarrow> 'd window \<Rightarrow> bool" where
  "reachable dlen rt spec \<equiv> (window_step dlen rt spec)\<^sup>*\<^sup>* empty_window"

lemma window_inv_reachable: "reachable dlen rt spec w \<Longrightarrow> window_inv dlen rt spec w"
  by (rule window.reachable_inv [OF refl])

section \<open>Sample executions\<close>

definition sample_policy :: policy_identity where
  "sample_policy = \<lparr>immutable_base_path = ''/m'', immutable_base_sha256 = ''00'',
     trainer_checkpoint_path = Some ''/c/global_step_3'', rollout_policy_version = 3\<rparr>"

definition sample_spec :: window_spec where
  "sample_spec = \<lparr>sp_run_id = ''run'', sp_intended_update = 4, sp_group_size = 8, sp_target = 1,
     sp_minimum = 1, sp_max = 2, sp_policy = sample_policy, sp_complete_round = False,
     sp_round_size = 0, sp_drain = False, sp_task_names = [''t''], sp_suite_ids = [0, 1],
     sp_manifest_sha256 = ''ab'', sp_reward_source = ''binary_success'',
     sp_criterion = ''full_success_mixed'', sp_reduction = ''group_equal'', sp_seed_namespace = [],
     sp_state_limit = Fin 100, sp_objective = ''fpo'', sp_noise_level = Fin (1 / 100)\<rparr>"

definition round_spec :: window_spec where
  "round_spec = sample_spec\<lparr>sp_complete_round := True, sp_round_size := 2\<rparr>"

definition sample_assignment :: "nat \<Rightarrow> assignment" where
  "sample_assignment i = \<lparr>a_index = i, a_task_name = ''t'', a_task_id = 0, a_suite_id = int i,
     a_layout_id = 4, a_seeds = map int [0..<8]\<rparr>"

definition sample_record :: "nat \<Rightarrow> bool \<Rightarrow> group_record" where
  "sample_record i b = \<lparr>g_group_id = candidate_name i, g_key = (0, [], int i, 4, 0), g_version = 3,
     g_policy_seeds = map int [0..<8], g_reward_source = Binary_Success, g_reward_vector = [],
     g_binary_vector = [], g_process_vector = [], g_successes = 1, g_partial_only = 0,
     g_partial_or_better = 1, g_binary_mixed = b, g_reward_varies = b, g_informative = b,
     g_reason = Mixed_Full_Success\<rparr>"

text \<open>In the samples a batch is its own length.\<close>

definition sample_commit :: "window_spec \<Rightarrow> nat \<Rightarrow> bool \<Rightarrow> lease option \<Rightarrow> nat window \<Rightarrow> commit_result result \<times> nat window" where
  "sample_commit spec i b lo w =
     commit_group id spec (sample_assignment i) 8 8 (sample_record i b) lo w"

definition w_init :: "nat window" where
  "w_init = snd (initialize sample_spec empty_window)"

definition w_accept :: "nat window" where
  "w_accept = snd (sample_commit sample_spec 0 True None w_init)"

definition w_closed_sample :: "nat window" where
  "w_closed_sample = snd (close_if_ready [] sample_spec 5 w_accept)"

definition w_claim :: "nat window" where
  "w_claim = snd (claim_candidate sample_spec [sample_assignment 0] ''A'' 10 None 0 ''ta'' w_init)"

definition w_reclaim :: "nat window" where
  "w_reclaim = snd (claim_candidate sample_spec [sample_assignment 0] ''B'' 10 None 20 ''tb'' w_claim)"

definition lease_A :: lease where
  "lease_A = \<lparr>l_assignment = sample_assignment 0, l_owner = ''A'', l_token = ''ta'',
     l_claimed = 0, l_heartbeat = 0, l_expires = 10\<rparr>"

lemma reach_init: "reachable id [] sample_spec w_init"
  unfolding w_init_def by (rule r_into_rtranclp, rule window_step.initialize)

lemma reach_accept: "reachable id [] sample_spec w_accept"
  unfolding w_accept_def sample_commit_def
  by (rule rtranclp.rtrancl_into_rtrancl [OF reach_init window_step.commit])

lemma step_closed: "window_step id [] sample_spec w_accept w_closed_sample"
  unfolding w_closed_sample_def by (rule window_step.close)

lemma steps_closed: "(window_step id [] sample_spec)\<^sup>*\<^sup>* w_accept w_closed_sample"
  using step_closed by (rule r_into_rtranclp)

lemma reach_closed: "reachable id [] sample_spec w_closed_sample"
  by (rule rtranclp.rtrancl_into_rtrancl [OF reach_accept step_closed])

lemma reach_claim: "reachable id [] sample_spec w_claim"
proof -
  have "window_step id [] sample_spec w_init w_claim"
    unfolding w_claim_def by (rule window_step.claim) code_simp
  with reach_init show ?thesis by (rule rtranclp.rtrancl_into_rtrancl)
qed

lemma step_reclaim: "window_step id [] sample_spec w_claim w_reclaim"
  unfolding w_reclaim_def by (rule window_step.claim) code_simp

lemma reach_reclaim: "reachable id [] sample_spec w_reclaim"
  by (rule rtranclp.rtrancl_into_rtrancl [OF reach_claim step_reclaim])

section \<open>Executions\<close>

text \<open>
  C1. A finished candidate keeps its outcome: once a group is accepted in a window, every
  later state of any interleaving holds the same group and the candidate is never rejected
  or skipped.
\<close>

theorem accepted_group_immutable:
  assumes "reachable dlen rt spec w" and "(window_step dlen rt spec)\<^sup>*\<^sup>* w w'"
    and "map_of (w_accepted w) cid = Some f"
  shows "map_of (w_accepted w') cid = Some f \<and> map_of (w_rejected w') cid = None \<and>
    map_of (w_skipped w') cid = None"
proof -
  have inv: "window_inv dlen rt spec w" by (rule window_inv_reachable [OF assms(1)])
  have "advances w w'" by (rule window.steps_rel [OF assms(2) inv])
  then have acc: "map_of (w_accepted w') cid = Some f"
    using assms(3) by (auto simp: advances_def map_le_def dom_def)
  have "window_inv dlen rt spec w'" by (rule window.steps_inv [OF assms(2) inv])
  then have "fst ` set (w_accepted w') \<inter> fst ` set (w_rejected w') = {}"
    "fst ` set (w_accepted w') \<inter> fst ` set (w_skipped w') = {}"
    by (auto simp: window_inv_def keys_ok_def)
  moreover have "cid \<in> fst ` set (w_accepted w')" using map_of_SomeD [OF acc] by force
  ultimately have "cid \<notin> fst ` set (w_rejected w')" "cid \<notin> fst ` set (w_skipped w')" by blast+
  with acc show ?thesis by (simp add: map_of_eq_None_iff)
qed

theorem accepted_group_immutable_witness:
  "map_of (w_accepted w_closed_sample) (candidate_name 0) \<noteq> None \<and>
   map_of (w_rejected w_closed_sample) (candidate_name 0) = None"
proof -
  have "map_of (w_accepted w_accept) (candidate_name 0) =
      Some \<lparr>f_rollout = 8, f_end_obs = 8, f_candidate = sample_assignment 0, f_policy = sample_policy,
            f_record = sample_record 0 True\<rparr>"
    by code_simp
  from accepted_group_immutable [OF reach_accept steps_closed this]
  show ?thesis by simp
qed

text \<open>A window in which a token was ever issued has its directory and lock file.\<close>

lemma lock_kept:
  "w_lock (snd (claim_loop spec owner token timeout now as w)) = w_lock w"
  "w_lock (snd (abandon_loop owner now cids w)) = w_lock w"
  "w_lock (snd (skip_loop reason now cids w)) = w_lock w"
  "w_lock (snd (commit_locked spec a f lo w)) = w_lock w"
proof -
  show "w_lock (snd (claim_loop spec owner token timeout now as w)) = w_lock w"
    by (induction as arbitrary: w) (auto simp: grant_lease_def Let_def split: option.split)
  show "w_lock (snd (abandon_loop owner now cids w)) = w_lock w"
    by (induction cids arbitrary: w)
       (auto simp: Let_def case_prod_beta unlink_lease_def split: option.split)
  show "w_lock (snd (skip_loop reason now cids w)) = w_lock w"
    by (induction cids arbitrary: w) (auto simp: Let_def case_prod_beta unlink_lease_def)
  show "w_lock (snd (commit_locked spec a f lo w)) = w_lock w"
    using commit_locked_cases [of spec a f lo w] by (auto simp: unlink_lease_def drop_tmp_def)
qed

lemma step_locks:
  assumes "window_step dlen rt spec w w'"
  shows "w_lock w' \<or> issued_tokens w' = issued_tokens w \<and> w_lock w' = w_lock w"
  using assms
proof cases
  case initialize
  then show ?thesis
    by (auto simp: initialize_def Let_def touch_lock_def init_touch_open_def init_write_manifest_def
        split: option.split)
next
  case (claim token as owner timeout pref now)
  then show ?thesis
    by (auto simp: claim_candidate_def Let_def touch_lock_def case_prod_beta lock_kept split: sum.split)
next
  case (renew l timeout now)
  then show ?thesis
    by (auto simp: renew_candidate_lease_def Let_def touch_lock_def split: option.split)
next
  case (release l)
  then show ?thesis
    by (auto simp: release_candidate_lease_def Let_def touch_lock_def split: option.split)
next
  case (integrity a diag lo now)
  then show ?thesis by (auto simp: record_integrity_failure_def Let_def touch_lock_def)
next
  case (commit a r e rec lo)
  then show ?thesis by (auto simp: commit_group_def Let_def touch_lock_def lock_kept)
next
  case (close now)
  then show ?thesis by (auto simp: close_if_ready_def Let_def touch_lock_def split: option.split)
next
  case (abandon owner now)
  then show ?thesis by (auto simp: abandon_owner_leases_def case_prod_beta lock_kept)
next
  case (skip cids reason now)
  then show ?thesis
    by (auto simp: skip_window_candidates_def Let_def touch_lock_def case_prod_beta lock_kept
        split: sum.split)
next
  case (receipt rp payload)
  then show ?thesis by (auto simp: write_training_receipt_def Let_def issued_tokens_def)
qed

lemma steps_lock:
  assumes "(window_step dlen rt spec)\<^sup>*\<^sup>* w w'" and "issued_tokens w \<noteq> {} \<longrightarrow> w_lock w"
  shows "issued_tokens w' \<noteq> {} \<longrightarrow> w_lock w'"
  using assms by (induction rule: rtranclp_induct) (use step_locks in fastforce)+

lemma issued_needs_lock: "reachable dlen rt spec w \<Longrightarrow> issued_tokens w \<noteq> {} \<longrightarrow> w_lock w"
  by (erule steps_lock) (simp add: issued_tokens_def empty_window_def)

text \<open>
  C2. Fencing: once an issued token is no longer the one on file for its candidate (the lease
  expired and was reclaimed, or was abandoned or released), a late worker holding it can never
  publish: in every later state its commit is a stale lease (or a rejected argument), it cannot
  renew, its release does nothing, and each of the three calls leaves the whole window (accepted,
  rejected and skipped candidates, leases, closing record, events, temporary directories) as it
  was, apart from the lock file that it touches.
\<close>

theorem lost_lease_never_publishes:
  assumes "reachable dlen rt spec w" and "(window_step dlen rt spec)\<^sup>*\<^sup>* w w'"
    and "l_token l \<in> issued_tokens w"
    and "\<not> holds_token w (candidate_id (l_assignment l)) (l_token l)"
  shows "fst (commit_group dlen spec a r e rec (Some l) w') \<in> {Inl ValueError, Inr Stale_Lease} \<and>
    snd (commit_group dlen spec a r e rec (Some l) w') \<in> {w', touch_lock w'} \<and>
    fst (renew_candidate_lease l timeout now w') \<in> {Inl ValueError, Inl RuntimeError} \<and>
    snd (renew_candidate_lease l timeout now w') \<in> {w', touch_lock w'} \<and>
    release_candidate_lease l w' = (False, touch_lock w')"
proof -
  have "fences w w'" by (rule fencing.steps_rel [OF assms(2) window_inv_reachable [OF assms(1)]])
  then have lost: "\<not> holds_token w' (candidate_id (l_assignment l)) (l_token l)"
    using assms(3,4) by (auto simp: fences_def)
  have cur: "\<not> same_holder c l" if "map_of (w_leases w') (candidate_id (l_assignment l)) = Some c" for c
    using lost that by (auto simp: holds_token_def same_holder_def)
  have "\<not> lease_is_current_locked l u" if "w_leases u = w_leases w'" for u :: "'a window"
    using that cur by (auto simp: lease_is_current_locked_def split: option.splits)
  moreover have "w_lock w'"
  proof -
    have "l_token l \<in> issued_tokens w'" using \<open>fences w w'\<close> assms(3) by (auto simp: fences_def)
    then show ?thesis using issued_needs_lock [of dlen rt spec w'] assms(1,2) by (auto dest: rtranclp_trans)
  qed
  ultimately have "fst (commit_group dlen spec a r e rec (Some l) w') \<in> {Inl ValueError, Inr Stale_Lease} \<and>
      snd (commit_group dlen spec a r e rec (Some l) w') \<in> {w', touch_lock w'}"
    by (auto simp: commit_group_def commit_locked_def Let_def touch_lock_def drop_tmp_def)
  with cur show ?thesis
    by (auto simp: renew_candidate_lease_def release_candidate_lease_def Let_def touch_lock_def
        split: option.splits)
qed

theorem lost_lease_never_publishes_witness:
  "fst (sample_commit sample_spec 0 True (Some lease_A) w_reclaim) \<in> {Inl ValueError, Inr Stale_Lease} \<and>
   w_accepted (snd (sample_commit sample_spec 0 True (Some lease_A) w_reclaim)) = []"
proof -
  have "l_token lease_A \<in> issued_tokens w_reclaim" and
    "\<not> holds_token w_reclaim (candidate_id (l_assignment lease_A)) (l_token lease_A)"
    by code_simp+
  note lost = lost_lease_never_publishes [OF reach_reclaim rtranclp.rtrancl_refl this]
  have "w_accepted w_reclaim = []" by code_simp
  then have "w_accepted u = []" if "u \<in> {w_reclaim, touch_lock w_reclaim}" for u
    using that by (auto simp: touch_lock_def)
  with lost show ?thesis by (simp add: sample_commit_def)
qed

lemma commit_locked_closed:
  assumes "w_closed w = Some p"
  shows "fst (commit_locked spec a f lo w) \<notin> {Inr Accepted, Inr Rejected}"
proof -
  have "fst (commit_locked spec a f lo w) \<in> {Inl ValueError, Inr Stale_Lease, Inr Duplicate, Inr Late}"
    unfolding commit_locked_def Let_def by (simp add: assms)
  then show ?thesis by auto
qed

text \<open>
  C3. A closed window is frozen: its closing record, its accepted, rejected and skipped
  candidates are the same in every later state, no further candidate is claimed, and no commit
  is accepted or rejected any more.
\<close>

theorem closed_window_frozen:
  assumes "reachable dlen rt spec w" and "(window_step dlen rt spec)\<^sup>*\<^sup>* w w'" and "w_closed w = Some p"
  shows "w_closed w' = Some p \<and> w_accepted w' = w_accepted w \<and> w_rejected w' = w_rejected w \<and>
    w_skipped w' = w_skipped w \<and>
    fst (claim_candidate spec as owner timeout pref now token w') \<in> {Inl ValueError, Inr None} \<and>
    fst (commit_group dlen spec a r e rec lo w') \<notin> {Inr Accepted, Inr Rejected}"
proof -
  have "advances w w'" by (rule window.steps_rel [OF assms(2) window_inv_reachable [OF assms(1)]])
  then have frozen: "w_closed w' = Some p \<and> w_accepted w' = w_accepted w \<and>
      w_rejected w' = w_rejected w \<and> w_skipped w' = w_skipped w"
    using assms(3) by (simp add: advances_def)
  then have "fst (claim_candidate spec as owner timeout pref now token w') \<in> {Inl ValueError, Inr None}"
    by (simp add: claim_candidate_def Let_def touch_lock_def)
  moreover have "fst (commit_group dlen spec a r e rec lo w') \<notin> {Inr Accepted, Inr Rejected}"
  proof -
    have "w_closed (touch_lock (if g_informative rec then w'\<lparr>w_tmp := candidate_id a # w_tmp w'\<rparr> else w')) = Some p"
      using frozen by (simp add: touch_lock_def)
    from commit_locked_closed [OF this] show ?thesis
      unfolding commit_group_def Let_def by simp
  qed
  ultimately show ?thesis using frozen by blast
qed

definition sample_closed_payload :: closed_payload where
  "sample_closed_payload = \<lparr>c_outcome = Ready, c_accepted = 1, c_rejected = 0, c_skipped = 0,
     c_completed = 1, c_complete_round = False, c_round_size = 0, c_drain = False,
     c_selected = [accepted_dir [] sample_spec @ [candidate_name 0]], c_at = 5\<rparr>"

lemma sample_closed: "w_closed w_closed_sample = Some sample_closed_payload"
  by code_simp

theorem closed_window_frozen_witness:
  "fst (sample_commit sample_spec 1 True None w_closed_sample) \<notin> {Inr Accepted, Inr Rejected}"
  using closed_window_frozen [OF reach_closed rtranclp.rtrancl_refl sample_closed]
  by (simp add: sample_commit_def)

lemma glob_candidates_set:
  "fst ` set d \<subseteq> range candidate_name \<Longrightarrow> set (glob_candidates d) = fst ` set d"
proof -
  assume "fst ` set d \<subseteq> range candidate_name"
  then have "strip_prefix ''candidate_'' n \<noteq> None" if "n \<in> fst ` set d" for n
    using that by auto
  then show ?thesis by (auto simp: glob_candidates_def)
qed

lemma scan_sets:
  assumes "keys_ok w"
  shows "set (sc_accepted (scan w)) = fst ` set (w_accepted w)"
    and "set (sc_rejected (scan w)) = fst ` set (w_rejected w)"
    and "set (sc_skipped (scan w)) = fst ` set (w_skipped w)"
    and "distinct (sc_accepted (scan w))"
  using assms by (auto simp: scan_def Let_def keys_ok_def glob_candidates_set glob_candidates_distinct)

lemma completed_ids_iff:
  assumes "keys_ok w"
  shows "i \<in> set (completed_ids (scan w)) \<longleftrightarrow> candidate_complete w (candidate_name i)"
proof -
  let ?K = "fst ` set (w_accepted w) \<union> fst ` set (w_rejected w) \<union> fst ` set (w_skipped w)"
  have ids: "set (completed_ids (scan w)) = candidate_number ` ?K"
    by (auto simp: completed_ids_def scan_sets [OF assms])
  have sub: "?K \<subseteq> range candidate_name" using assms by (simp add: keys_ok_def)
  have "i \<in> candidate_number ` ?K \<longleftrightarrow> candidate_name i \<in> ?K"
  proof
    assume "i \<in> candidate_number ` ?K"
    then obtain n where n: "n \<in> ?K" "i = candidate_number n" by blast
    then obtain j where "n = candidate_name j" using sub by blast
    with n show "candidate_name i \<in> ?K" by (metis candidate_number_name)
  next
    assume "candidate_name i \<in> ?K"
    then show "i \<in> candidate_number ` ?K" by (metis candidate_number_name imageI)
  qed
  then show ?thesis unfolding ids candidate_complete_iff .
qed

text \<open>The selected names of a payload that is ready.\<close>

lemma ready_payload:
  assumes "c_outcome (close_payload rt spec now st) = Ready" and "spec_post_init spec = Inr ()"
  obtains sel where "c_selected (close_payload rt spec now st) = map (\<lambda>n. accepted_dir rt spec @ [n]) sel"
    "set sel \<subseteq> set (sc_accepted st)" "distinct (sc_accepted st) \<Longrightarrow> distinct sel"
    "sp_minimum spec \<le> int (length sel)"
proof -
  let ?sel = "if sp_complete_round spec \<or> sp_drain spec then sc_accepted st
              else take (nat (sp_target spec)) (sc_accepted st)"
  have enough: "sp_minimum spec \<le> int (length (sc_accepted st))"
    using assms(1) by (auto simp: close_payload_def Let_def split: if_splits)
  have "1 \<le> sp_minimum spec \<and> sp_minimum spec \<le> sp_target spec"
    using assms(2) by (auto simp: spec_post_init_def split: if_splits)
  with enough have "sp_minimum spec \<le> int (length ?sel)" by (auto simp: min_def)
  then show thesis
    using enough by (intro that [of ?sel]) (auto simp: close_payload_def Let_def dest: in_set_takeD)
qed

lemma load_group_accepted:
  assumes "accepted_ok dlen spec w" and "map_of (w_accepted w) n = Some f"
  shows "load_group dlen rt spec w (accepted_dir rt spec @ [n]) = Inr (f_rollout f, f_end_obs f, f_record f)"
  using assms by (auto simp: load_group_def accepted_ok_def group_ok_def)

text \<open>
  C8. A window that closed as ready is trainable: in every reachable state, loading its
  selected groups succeeds and yields, in the order of the selection, exactly one group for each
  selected path, namely the tensors and the record that were stored under that candidate's name;
  these are at least the minimum number of groups, each complete (exactly G trajectories and G
  terminal observations), informative, generated by the window's policy version, and no two with
  the same candidate id.
\<close>

theorem ready_window_loads:
  assumes "reachable dlen rt spec w" and "spec_post_init spec = Inr ()"
    and "w_closed w = Some p" and "c_outcome p = Ready"
  shows "\<exists>gs. load_selected_groups dlen rt spec w = Inr gs \<and>
    c_selected p = map (\<lambda>(_, _, g). accepted_dir rt spec @ [g_group_id g]) gs \<and>
    (\<forall>(r, e, g) \<in> set gs. \<exists>f. map_of (w_accepted w) (g_group_id g) = Some f \<and>
       r = f_rollout f \<and> e = f_end_obs f \<and> g = f_record f) \<and>
    sp_minimum spec \<le> int (length gs) \<and>
    distinct (map (\<lambda>(_, _, g). g_group_id g) gs) \<and>
    (\<forall>(r, e, g) \<in> set gs. int (dlen r) = sp_group_size spec \<and> int (dlen e) = sp_group_size spec \<and>
       g_informative g \<and> g_version g = rollout_policy_version (sp_policy spec))"
proof -
  have inv: "keys_ok w" "accepted_ok dlen spec w" "closed_ok rt spec w"
    using window_inv_reachable [OF assms(1)] by (auto simp: window_inv_def)
  then have p: "p = close_payload rt spec (c_at p) (scan w)"
    using assms(3) by (simp add: closed_ok_def)
  obtain sel where sel: "c_selected p = map (\<lambda>n. accepted_dir rt spec @ [n]) sel"
    "set sel \<subseteq> set (sc_accepted (scan w))" "distinct sel" "sp_minimum spec \<le> int (length sel)"
    using ready_payload [of rt spec "c_at p" "scan w"] p assms(2,4) scan_sets(4) [OF inv(1)] by metis
  let ?f = "\<lambda>n. the (map_of (w_accepted w) n)"
  have f: "map_of (w_accepted w) n = Some (?f n)" if "n \<in> set sel" for n
    using that sel(2) scan_sets(1) [OF inv(1)] by (metis domIff dom_map_of_conv_image_fst option.collapse subsetD)
  let ?g = "\<lambda>n. (f_rollout (?f n), f_end_obs (?f n), f_record (?f n))"
  have "traverse (load_group dlen rt spec w) (c_selected p) = Inr (map ?g sel)"
    unfolding sel(1) traverse_Inr_list_all2 list_all2_map1 list_all2_map2
    using load_group_accepted [OF inv(2) f] by (auto intro!: list.rel_refl_strong)
  then have "load_selected_groups dlen rt spec w = Inr (map ?g sel)"
    using assms(3,4) by (simp add: load_selected_groups_def)
  moreover have ok: "group_ok dlen spec n (?f n)" if "n \<in> set sel" for n
    using f [OF that] inv(2) by (simp add: accepted_ok_def)
  moreover have "map (\<lambda>(_, _, g). g_group_id g) (map ?g sel) = sel"
    using ok by (simp add: group_ok_def map_idI)
  moreover have "c_selected p = map (\<lambda>(_, _, g). accepted_dir rt spec @ [g_group_id g]) (map ?g sel)"
    using ok by (simp add: sel(1) group_ok_def)
  moreover have "\<forall>(r, e, g) \<in> set (map ?g sel). \<exists>f. map_of (w_accepted w) (g_group_id g) = Some f \<and>
       r = f_rollout f \<and> e = f_end_obs f \<and> g = f_record f"
    using ok f by (fastforce simp: group_ok_def)
  ultimately show ?thesis
    using sel(3,4) by (intro exI [of _ "map ?g sel"] conjI) (auto simp: group_ok_def)
qed

theorem ready_window_loads_witness:
  "\<exists>gs. load_selected_groups id [] sample_spec w_closed_sample = Inr gs \<and> length gs = 1 \<and> 1 \<le> int (length gs)"
proof -
  have "spec_post_init sample_spec = Inr ()" by code_simp
  moreover have "c_outcome sample_closed_payload = Ready" by (simp add: sample_closed_payload_def)
  ultimately obtain gs where gs: "load_selected_groups id [] sample_spec w_closed_sample = Inr gs"
    "c_selected sample_closed_payload =
       map (\<lambda>(_, _, g). accepted_dir [] sample_spec @ [g_group_id g]) gs"
    using ready_window_loads [OF reach_closed _ sample_closed] by blast
  from arg_cong [OF gs(2), of length] have "length gs = 1"
    by (simp add: sample_closed_payload_def)
  with gs(1) show ?thesis by simp
qed

section \<open>Rounds\<close>

text \<open>
  C9. In round-balanced mode a window closes only on whole rounds: the candidates complete in
  a closed window are exactly the first \<open>k\<close> rounds, with no gap and no partial round.
\<close>

theorem closes_on_whole_rounds:
  assumes "reachable dlen rt spec w" and "spec_post_init spec = Inr ()"
    and "sp_complete_round spec" and "w_closed w = Some p"
  shows "\<exists>k. \<forall>i. candidate_complete w (candidate_name i) \<longleftrightarrow> int i < k * sp_round_size spec"
proof -
  have inv: "keys_ok w" "closed_ok rt spec w"
    using window_inv_reachable [OF assms(1)] by (auto simp: window_inv_def)
  have "\<not> sp_drain spec" using assms(2,3) by (auto simp: spec_post_init_def split: if_splits)
  with inv(2) assms(3,4) have round: "completed_round spec (scan w)"
    by (auto simp: closed_ok_def may_close_def Let_def)
  let ?n = "length (completed_ids (scan w))"
  have "candidate_complete w (candidate_name i) \<longleftrightarrow> i < ?n" for i
    using round completed_ids_iff [OF inv(1), of i] by (simp add: completed_round_def Let_def)
  moreover have "sp_round_size spec dvd int ?n"
    using round by (auto simp: completed_round_def Let_def)
  then obtain k where "int ?n = k * sp_round_size spec" by (metis dvd_div_mult_self)
  ultimately show ?thesis by (metis of_nat_less_iff)
qed

definition r_init :: "nat window" where
  "r_init = snd (initialize round_spec empty_window)"

definition r_two :: "nat window" where
  "r_two = snd (sample_commit round_spec 1 False None (snd (sample_commit round_spec 0 True None r_init)))"

definition r_closed :: "nat window" where
  "r_closed = snd (close_if_ready [] round_spec 5 r_two)"

lemma reach_r_init: "reachable id [] round_spec r_init"
  unfolding r_init_def by (rule r_into_rtranclp, rule window_step.initialize)

lemma reach_r_two: "reachable id [] round_spec r_two"
  unfolding r_two_def sample_commit_def
  by (rule rtranclp.rtrancl_into_rtrancl [OF rtranclp.rtrancl_into_rtrancl
        [OF reach_r_init window_step.commit] window_step.commit])

lemma reach_r_closed: "reachable id [] round_spec r_closed"
  unfolding r_closed_def by (rule rtranclp.rtrancl_into_rtrancl [OF reach_r_two window_step.close])

lemma r_closed_Some: "\<exists>p. w_closed r_closed = Some p"
proof -
  have "w_closed r_closed \<noteq> None" by code_simp
  then show ?thesis by simp
qed

lemma round_spec_ok: "spec_post_init round_spec = Inr ()" "sp_complete_round round_spec"
  by code_simp+

theorem closes_on_whole_rounds_witness:
  "\<exists>k. \<forall>i. candidate_complete r_closed (candidate_name i) \<longleftrightarrow> int i < k * sp_round_size round_spec"
proof -
  obtain p where "w_closed r_closed = Some p" using r_closed_Some by blast
  from closes_on_whole_rounds [OF reach_r_closed round_spec_ok this] show ?thesis .
qed

text \<open>
  C10. The round barrier: in round-balanced mode, whoever holds a lease on candidate \<open>i\<close> holds
  it after every candidate of the earlier rounds has been finished, and a candidate under
  lease is itself unfinished.
\<close>

theorem lease_respects_round_barrier:
  assumes "reachable dlen rt spec w" and "sp_complete_round spec"
    and "map_of (w_leases w) (candidate_name i) = Some l"
  shows "(\<forall>j. int j < (int i div sp_round_size spec) * sp_round_size spec \<longrightarrow>
            candidate_complete w (candidate_name j)) \<and>
    \<not> candidate_complete w (candidate_name i) \<and> a_index (l_assignment l) = i"
proof -
  have "leases_ok spec w" using window_inv_reachable [OF assms(1)] by (simp add: window_inv_def)
  with assms(3) have h: "candidate_id (l_assignment l) = candidate_name i"
    "\<not> candidate_complete w (candidate_name i)"
    "round_ready_to_start spec w (a_index (l_assignment l))"
    by (auto simp: leases_ok_def)
  from h(1) have idx: "a_index (l_assignment l) = i" by (simp add: candidate_id_def)
  have "candidate_complete w (candidate_name j)"
    if "int j < (int i div sp_round_size spec) * sp_round_size spec" for j
    using h(3) assms(2) that by (auto simp: round_ready_to_start_def list_all_iff idx nat_less_iff)
  with h(2) idx show ?thesis by blast
qed

definition four_spec :: window_spec where
  "four_spec = round_spec\<lparr>sp_max := 4, sp_target := 3\<rparr>"

definition f_claim :: "nat window" where
  "f_claim = snd (claim_candidate four_spec [sample_assignment 2] ''A'' 10 None 0 ''ta''
     (snd (sample_commit four_spec 1 False None
       (snd (sample_commit four_spec 0 True None (snd (initialize four_spec empty_window)))))))"

lemma reach_f_claim: "reachable id [] four_spec f_claim"
  unfolding f_claim_def sample_commit_def
proof (rule rtranclp.rtrancl_into_rtrancl [OF rtranclp.rtrancl_into_rtrancl [OF
      rtranclp.rtrancl_into_rtrancl [OF r_into_rtranclp [where r = "window_step id [] four_spec"]
        window_step.commit] window_step.commit] window_step.claim])
  show "window_step id [] four_spec empty_window (snd (initialize four_spec empty_window))"
    by (rule window_step.initialize)
qed code_simp

theorem lease_respects_round_barrier_witness:
  "candidate_complete f_claim (candidate_name 1) \<and> \<not> candidate_complete f_claim (candidate_name 2)"
proof -
  have "map_of (w_leases f_claim) (candidate_name 2) =
      Some \<lparr>l_assignment = sample_assignment 2, l_owner = ''A'', l_token = ''ta'',
        l_claimed = 0, l_heartbeat = 0, l_expires = 10\<rparr>"
    by code_simp
  moreover have "sp_complete_round four_spec" and "int 1 < (int 2 div sp_round_size four_spec) * sp_round_size four_spec"
    by code_simp+
  ultimately show ?thesis using lease_respects_round_barrier [OF reach_f_claim] by blast
qed

section \<open>Claiming\<close>

definition eligible :: "window_spec \<Rightarrow> 'd window \<Rightarrow> string \<Rightarrow> rat \<Rightarrow> assignment \<Rightarrow> bool" where
  "eligible spec w owner now a \<longleftrightarrow>
     round_ready_to_start spec w (a_index a) \<and> \<not> candidate_complete w (candidate_id a) \<and>
     (case map_of (w_leases w) (candidate_id a) of
        None \<Rightarrow> True | Some cur \<Rightarrow> l_owner cur = owner \<or> l_expires cur \<le> now)"

lemma eligible_unlink:
  assumes "candidate_complete w cid"
  shows "eligible spec (w\<lparr>w_leases := AList.delete cid (w_leases w)\<rparr>) owner now a =
    eligible spec w owner now a"
proof -
  let ?w = "w\<lparr>w_leases := AList.delete cid (w_leases w)\<rparr>"
  have comp: "candidate_complete ?w = candidate_complete w" by (rule complete_cong) simp_all
  show ?thesis
    unfolding eligible_def comp round_ready_cong [OF comp] using assms by auto
qed

definition lease_for :: "assignment \<Rightarrow> string \<Rightarrow> string \<Rightarrow> rat \<Rightarrow> rat \<Rightarrow> lease" where
  "lease_for a owner token timeout now = \<lparr>l_assignment = a, l_owner = owner, l_token = token,
     l_claimed = now, l_heartbeat = now, l_expires = now + timeout\<rparr>"

lemma claim_loop_result:
  "case fst (claim_loop spec owner token timeout now as w) of
     None \<Rightarrow> \<forall>a \<in> set as. \<not> eligible spec w owner now a
   | Some l \<Rightarrow> \<exists>pre a post. as = pre @ a # post \<and> eligible spec w owner now a \<and>
       (\<forall>b \<in> set pre. \<not> eligible spec w owner now b) \<and> l = lease_for a owner token timeout now"
proof (induction as arbitrary: w)
  case Nil
  then show ?case by simp
next
  case (Cons a as)
  let ?u = "w\<lparr>w_leases := AList.delete (candidate_id a) (w_leases w)\<rparr>"
  let ?v = "if candidate_complete w (candidate_id a) \<and> round_ready_to_start spec w (a_index a) then ?u else w"
  show ?case
  proof (cases "eligible spec w owner now a")
    case True
    then have "fst (claim_loop spec owner token timeout now (a # as) w) = Some (lease_for a owner token timeout now)"
      by (auto simp: eligible_def grant_lease_def lease_for_def Let_def split: option.splits)
    with True show ?thesis by (auto intro!: exI [of _ "[]"])
  next
    case False
    define v where "v = ?v"
    have eq: "claim_loop spec owner token timeout now (a # as) w =
        claim_loop spec owner token timeout now as v"
      using False by (auto simp: eligible_def v_def split: option.splits)
    have el: "eligible spec v owner now b = eligible spec w owner now b" for b
      by (simp add: eligible_unlink v_def)
    show ?thesis
    proof (cases "fst (claim_loop spec owner token timeout now as v)")
      case None
      then have "\<forall>b \<in> set as. \<not> eligible spec w owner now b" using Cons.IH [of v] by (simp add: el)
      with False show ?thesis unfolding eq None by simp
    next
      case (Some l)
      then obtain pre b post where b: "as = pre @ b # post" "eligible spec w owner now b"
        "\<forall>c \<in> set pre. \<not> eligible spec w owner now c" "l = lease_for b owner token timeout now"
        using Cons.IH [of v] by (auto simp: el)
      have "a # as = (a # pre) @ b # post" by (simp add: b(1))
      moreover have "\<forall>c \<in> set (a # pre). \<not> eligible spec w owner now c" using b(3) False by simp
      ultimately show ?thesis unfolding eq Some option.case using b(2,4) by blast
    qed
  qed
qed

text \<open>
  A claim on an open window takes the unfinished, ready and free candidate (unleased,
  expired, or leased by the same owner) with the lowest index of its pool, for the full
  timeout; it returns nothing only if the pool has no such candidate.
\<close>

theorem claim_takes_first_eligible:
  assumes "owner \<noteq> []" and "0 < timeout" and "distinct (map candidate_id as)"
    and "w_closed w = None" and "w_open w"
  shows "case fst (claim_candidate spec as owner timeout pref now token w) of
     Inl _ \<Rightarrow> False
   | Inr None \<Rightarrow> \<forall>a \<in> set (claim_pool pref as). \<not> eligible spec w owner now a
   | Inr (Some l) \<Rightarrow> \<exists>a \<in> set (claim_pool pref as). eligible spec w owner now a \<and>
       l = lease_for a owner token timeout now \<and>
       (\<forall>b \<in> set (claim_pool pref as). eligible spec w owner now b \<longrightarrow> a_index a \<le> a_index b)"
proof -
  let ?pool = "sort_key a_index (claim_pool pref as)"
  have el: "eligible spec (touch_lock w) owner now b = eligible spec w owner now b" for b
  proof -
    have comp: "candidate_complete (touch_lock w) = candidate_complete w"
      by (rule complete_cong) (simp_all add: touch_lock_def)
    show ?thesis unfolding eligible_def comp round_ready_cong [OF comp] by (simp add: touch_lock_def)
  qed
  have claim: "fst (claim_candidate spec as owner timeout pref now token w) =
      Inr (fst (claim_loop spec owner token timeout now ?pool (touch_lock w)))"
    using assms by (simp add: claim_candidate_def Let_def verify_open_locked_def touch_lock_def case_prod_beta)
  have sorted: "sorted (map a_index ?pool)" by simp
  show ?thesis
  proof (cases "fst (claim_loop spec owner token timeout now ?pool (touch_lock w))")
    case None
    then show ?thesis
      using claim_loop_result [where w = "touch_lock w" and as = ?pool and spec = spec and owner = owner
            and token = token and timeout = timeout and now = now] claim by (simp add: el)
  next
    case (Some l)
    then obtain pre a post where split: "?pool = pre @ a # post" and a: "eligible spec w owner now a"
      "\<forall>b \<in> set pre. \<not> eligible spec w owner now b" "l = lease_for a owner token timeout now"
      using claim_loop_result [where w = "touch_lock w" and as = ?pool and spec = spec and owner = owner
            and token = token and timeout = timeout and now = now] by (auto simp: el)
    have "set (claim_pool pref as) = set pre \<union> insert a (set post)"
      using arg_cong [OF split, of set] by simp
    moreover have "\<forall>b \<in> set post. a_index a \<le> a_index b"
      using sorted unfolding split by (simp add: sorted_append)
    ultimately show ?thesis
      using a Some claim by auto
  qed
qed

theorem claim_takes_first_eligible_witness:
  "fst (claim_candidate sample_spec [sample_assignment 1, sample_assignment 0] ''B'' 10 None 20 ''tb'' w_claim)
     \<noteq> Inr None"
proof -
  have pre: "distinct (map candidate_id [sample_assignment 1, sample_assignment 0])"
    "w_closed w_claim = None" "w_open w_claim"
    "eligible sample_spec w_claim ''B'' 20 (sample_assignment 1)"
    by code_simp+
  have "sample_assignment 1 \<in> set (claim_pool None [sample_assignment 1, sample_assignment 0])"
    by (simp add: claim_pool_def)
  then show ?thesis
    using claim_takes_first_eligible [where owner = "''B''" and timeout = 10 and spec = sample_spec
        and pref = None and now = 20 and token = "''tb''", OF _ _ pre(1-3)] pre(4)
    by auto
qed

section \<open>Closing, opening and the ledger\<close>

lemma names_below: "candidate_name ` {..<n} \<subseteq> K \<Longrightarrow> finite K \<Longrightarrow> n \<le> card K"
proof -
  assume sub: "candidate_name ` {..<n} \<subseteq> K" and fin: "finite K"
  have "card (candidate_name ` {..<n}) = n" by (simp add: card_image inj_on_def)
  with card_mono [OF fin sub] show ?thesis by simp
qed

lemma completed_count:
  assumes "keys_ok w"
  shows "sc_completed (scan w) =
    card (fst ` set (w_accepted w) \<union> fst ` set (w_rejected w) \<union> fst ` set (w_skipped w))"
proof -
  let ?A = "fst ` set (w_accepted w)" and ?R = "fst ` set (w_rejected w)" and ?S = "fst ` set (w_skipped w)"
  have count: "length (glob_candidates d) = card (fst ` set d)"
    if "distinct (map fst d)" "fst ` set d \<subseteq> range candidate_name" for d :: "(string \<times> 'x) list"
    using distinct_card [OF glob_candidates_distinct [OF that(1)]] glob_candidates_set [OF that(2)] by simp
  have "sc_completed (scan w) = card ?A + card ?R + card ?S"
    using assms by (simp add: scan_def Let_def keys_ok_def count)
  also have "\<dots> = card (?A \<union> ?R \<union> ?S)"
  proof -
    have "card (?A \<union> ?R) = card ?A + card ?R"
      by (rule card_Un_disjoint) (use assms in \<open>simp_all add: keys_ok_def\<close>)
    moreover have "card (?A \<union> ?R \<union> ?S) = card (?A \<union> ?R) + card ?S"
      by (rule card_Un_disjoint) (use assms in \<open>auto simp: keys_ok_def\<close>)
    ultimately show ?thesis by simp
  qed
  finally show ?thesis .
qed

text \<open>A window cannot stay open for ever: once all predeclared candidates (and, in
  round-balanced mode, only those) are finished, the next call of \<open>close_if_ready\<close> closes it,
  whatever the outcomes were.
\<close>

theorem finished_budget_closes:
  assumes "reachable dlen rt spec w" and "spec_post_init spec = Inr ()"
    and "\<And>i. candidate_complete w (candidate_name i) \<longleftrightarrow> int i < sp_max spec"
  shows "fst (close_if_ready rt spec now w) \<noteq> None"
proof (cases "w_closed w")
  case (Some p)
  then show ?thesis by (simp add: close_if_ready_def Let_def touch_lock_def)
next
  case None
  have inv: "keys_ok w" using window_inv_reachable [OF assms(1)] by (simp add: window_inv_def)
  let ?n = "nat (sp_max spec)"
  have "candidate_name ` {..<?n} \<subseteq>
      fst ` set (w_accepted w) \<union> fst ` set (w_rejected w) \<union> fst ` set (w_skipped w)"
  proof (rule image_subsetI)
    fix i assume "i \<in> {..<?n}"
    then have "candidate_complete w (candidate_name i)" using assms(3) by auto
    then show "candidate_name i \<in>
        fst ` set (w_accepted w) \<union> fst ` set (w_rejected w) \<union> fst ` set (w_skipped w)"
      by (simp only: candidate_complete_iff)
  qed
  from names_below [OF this] have budget: "sp_max spec \<le> int (sc_completed (scan w))"
    by (simp add: completed_count [OF inv])
  have set_ids: "set (completed_ids (scan w)) = {..<?n}"
    using completed_ids_iff [OF inv] assms(3) by auto
  have "distinct (completed_ids (scan w))" by (simp add: completed_ids_def)
  from distinct_card [OF this] have len: "length (completed_ids (scan w)) = ?n"
    by (simp add: set_ids)
  have pos: "0 < sp_max spec" and round: "sp_complete_round spec \<Longrightarrow> sp_max spec mod sp_round_size spec = 0"
    using assms(2) by (auto simp: spec_post_init_def split: if_splits)
  have "completed_round spec (scan w)" if "sp_complete_round spec"
  proof -
    have "completed_ids (scan w) \<noteq> []" using len pos by (metis list.size(3) less_irrefl nat_0_iff not_le)
    moreover have "int ?n mod sp_round_size spec = 0" using round [OF that] pos by simp
    moreover have "{..<?n} = set [0..<?n]" by (simp add: atLeast0LessThan)
    ultimately show ?thesis unfolding completed_round_def Let_def len set_ids by blast
  qed
  then have "may_close spec (scan w)" using budget by (auto simp: may_close_def Let_def)
  moreover have "scan (touch_lock w) = scan w" by (rule scan_cong) (simp_all add: touch_lock_def)
  ultimately show ?thesis using None by (simp add: close_if_ready_def Let_def touch_lock_def)
qed

lemma r_two_complete: "candidate_complete r_two (candidate_name i) \<longleftrightarrow> int i < sp_max round_spec"
proof -
  have keys: "map fst (w_accepted r_two) = [candidate_name 0]" "map fst (w_rejected r_two) = [candidate_name 1]"
    "map fst (w_skipped r_two) = []" and m: "sp_max round_spec = 2"
    by code_simp+
  then have "fst ` set (w_accepted r_two) = {candidate_name 0}"
    "fst ` set (w_rejected r_two) = {candidate_name 1}" "fst ` set (w_skipped r_two) = {}"
    by (simp_all only: list.set flip: set_map)
  then show ?thesis unfolding m candidate_complete_iff by (simp only: Un_iff) (simp, arith)
qed

theorem finished_budget_closes_witness: "fst (close_if_ready [] round_spec 5 r_two) \<noteq> None"
  by (rule finished_budget_closes [OF reach_r_two round_spec_ok(1) r_two_complete])

lemma setdefault_present: "map_of d k \<noteq> None \<Longrightarrow> setdefault k v d = d"
  by (auto simp: setdefault_def)

lemma normalize_full: "normalize_manifest e (spec_to_dict s) = spec_to_dict s"
  by (simp add: normalize_manifest_def setdefault_present spec_to_dict_def)

lemma inj_JStr: "map JStr xs = map JStr ys \<longleftrightarrow> xs = ys" and inj_JInt: "map JInt is = map JInt js \<longleftrightarrow> is = js"
  by (auto simp: inj_map_eq_map inj_on_def)

lemma policy_dict_inject: "policy_dict p = policy_dict q \<longleftrightarrow> p = q"
  by (cases p; cases q) (auto simp: policy_dict_def split: option.splits)

lemma spec_to_dict_eq_iff: "dict_eq (spec_to_dict a) (spec_to_dict b) \<longleftrightarrow> a = b"
  by (cases a; cases b)
     (auto simp: dict_eq_def spec_to_dict_def inj_JStr inj_JInt policy_dict_inject)

text \<open>
  The first collector pins the window's contract: after one collector created the window,
  another collector can join it exactly if its whole specification (policy identity,
  candidate budget, tasks, reward and closing rules) is the same, and joining changes nothing
  but the lock file.
\<close>

theorem window_pins_spec:
  "(fst (initialize spec' (snd (initialize spec (empty_window :: 'd window)))) = Inr () \<longleftrightarrow> spec' = spec) \<and>
   snd (initialize spec' (snd (initialize spec (empty_window :: 'd window)))) =
     snd (initialize spec (empty_window :: 'd window))"
proof -
  define w :: "'d window" where "w = snd (initialize spec empty_window)"
  have man: "w_manifest w = Some (spec_to_dict spec)" and lock: "w_lock w"
    by (simp_all add: w_def initialize_def empty_window_def Let_def touch_lock_def init_touch_open_def
        init_write_manifest_def)
  have "fst (initialize spec' w) = Inr () \<longleftrightarrow> spec' = spec"
    by (auto simp: initialize_def Let_def touch_lock_def man normalize_full spec_to_dict_eq_iff)
  moreover have "snd (initialize spec' w) = w"
    using lock by (simp add: initialize_def Let_def touch_lock_def man)
  ultimately show ?thesis unfolding w_def by blast
qed

definition crashed_window :: "window_spec \<Rightarrow> 'd window" where
  "crashed_window spec = init_write_manifest spec (touch_lock empty_window)"

text \<open>
  A window whose creator died between writing the manifest and touching \<open>OPEN\<close> (two
  separate file operations) is stuck: later collectors initialise it without an error, but
  every well-formed claim and every commit of a new group raises, and initialising again never
  opens it.
\<close>

theorem creator_crash_blocks_window:
  assumes "owner \<noteq> []" and "0 < timeout" and "distinct (map candidate_id as)"
  shows "initialize spec (crashed_window spec :: 'd window) = (Inr (), (crashed_window spec :: 'd window)) \<and>
    fst (claim_candidate spec as owner timeout pref now token (crashed_window spec :: 'd window)) = Inl RuntimeError \<and>
    fst (commit_group dlen spec a r e rec None (crashed_window spec :: 'd window)) \<in> {Inl ValueError, Inl RuntimeError}"
proof -
  have "initialize spec (crashed_window spec :: 'd window) = (Inr (), (crashed_window spec :: 'd window))"
    by (simp add: crashed_window_def initialize_def Let_def touch_lock_def init_write_manifest_def
        normalize_full spec_to_dict_eq_iff)
  moreover have "fst (claim_candidate spec as owner timeout pref now token (crashed_window spec :: 'd window)) = Inl RuntimeError"
    using assms by (simp add: crashed_window_def claim_candidate_def Let_def touch_lock_def init_write_manifest_def
        empty_window_def verify_open_locked_def)
  moreover have "fst (commit_group dlen spec a r e rec None (crashed_window spec :: 'd window)) \<in> {Inl ValueError, Inl RuntimeError}"
    by (simp add: crashed_window_def commit_group_def commit_locked_def Let_def touch_lock_def init_write_manifest_def
        empty_window_def verify_open_locked_def candidate_complete_def)
  ultimately show ?thesis by blast
qed

theorem creator_crash_blocks_window_witness:
  "fst (claim_candidate sample_spec [sample_assignment 0] ''A'' 10 None 0 ''t''
     (crashed_window sample_spec :: nat window)) = Inl RuntimeError"
  by (rule creator_crash_blocks_window [THEN conjunct2, THEN conjunct1]) simp_all

text \<open>
  C11. Refinement: forgetting files, leases and clocks, every operation of the window is a
  (possibly empty) sequence of steps of the ledger, so in every reachable state the ledger has
  decided each candidate at most once and published at most one selection of accepted
  candidates.
\<close>

theorem window_refines_ledger:
  assumes "reachable dlen rt spec w" and "window_step dlen rt spec w w'"
  shows "ledger_step\<^sup>*\<^sup>* (ledger_of w) (ledger_of w')"
proof -
  have "refines w w'"
  proof (rule ledger.steps_rel [OF _ window_inv_reachable [OF assms(1)]])
    show "(window_step dlen rt spec)\<^sup>*\<^sup>* w w'" using assms(2) by (rule r_into_rtranclp)
  qed
  then show ?thesis by (simp add: refines_def)
qed

theorem window_refines_ledger_witness:
  "ledger_step\<^sup>*\<^sup>* (ledger_of w_accept) (ledger_of w_closed_sample)"
  by (rule window_refines_ledger [OF reach_accept step_closed])

end
