(* ===== verification/Collection_Schedule.thy ===== *)
theory Collection_Schedule
  imports Collection_Store
begin

text \<open>
  The predeclared candidate schedule (\<open>candidate_assignment\<close> of collection_store.py): which
  condition, layout and policy seeds each candidate index gets.
\<close>

section \<open>One assignment\<close>

definition schedule_ok :: "window_spec \<Rightarrow> int \<Rightarrow> string list \<Rightarrow> int list \<Rightarrow> bool" where
  "schedule_ok spec i names suites \<longleftrightarrow>
     0 \<le> i \<and> i < sp_max spec \<and> names \<noteq> [] \<and> suites \<noteq> [] \<and> distinct suites"

lemma length_remdups_distinct: "length (remdups xs) = length xs \<longleftrightarrow> distinct xs"
  by (metis card_distinct distinct_card length_remdups_card_conv)

lemma candidate_assignment_ok:
  assumes "candidate_assignment h spec i names suites layouts run_seed = Inr a"
  shows "schedule_ok spec i names suites"
  using assms unfolding candidate_assignment_def schedule_ok_def length_remdups_distinct
  by (simp only: Let_def split: if_splits) simp_all

lemma candidate_assignment_Inr:
  assumes "candidate_assignment h spec i names suites layouts run_seed = Inr a"
  defines "c \<equiv> length names * length suites"
  obtains ls where
    "map_of layouts (names ! (nat i mod c div length suites), suites ! (nat i mod c mod length suites)) = Some ls"
    "ls \<noteq> []" "distinct ls"
    "a = \<lparr>a_index = nat i, a_task_name = names ! (nat i mod c div length suites),
          a_task_id = int (nat i mod c div length suites),
          a_suite_id = suites ! (nat i mod c mod length suites),
          a_layout_id = ls ! layout_slot spec (nat i div c) (nat i mod c) (length ls),
          a_seeds = map (\<lambda>m. int (h (seed_payload spec run_seed (nat i)) mod 2000000000 + m))
            [0..<nat (sp_group_size spec)]\<rparr>"
proof -
  have ok: "\<not> \<not> (0 \<le> i \<and> i < sp_max spec)" "names \<noteq> []"
    "\<not> (suites = [] \<or> length (remdups suites) \<noteq> length suites)"
    using candidate_assignment_ok [OF assms(1)] by (auto simp: schedule_ok_def length_remdups_distinct)
  note e = assms(1) [unfolded candidate_assignment_def if_not_P [OF ok(1)] if_not_P [OF ok(2)]
      if_not_P [OF ok(3)] Let_def, folded c_def]
  show thesis
  proof (cases "map_of layouts
      (names ! (nat i mod c div length suites), suites ! (nat i mod c mod length suites))")
    case None
    with e show thesis by simp
  next
    case (Some ls)
    note e' = e [unfolded Some option.case length_remdups_distinct]
    then have ls: "ls \<noteq> []" "distinct ls" by (auto split: if_splits)
    then have "\<not> (ls = [] \<or> \<not> distinct ls)" by simp
    from e' [unfolded if_not_P [OF this] sum.inject] show thesis
      by (intro that [OF Some ls]) (rule sym)
  qed
qed

lemma layout_slot_less: "ls \<noteq> [] \<Longrightarrow> layout_slot spec k s (length ls) < length ls"
  by (simp add: layout_slot_def nat_less_iff)

text \<open>
  Assignments are reproducible and give independent members: every assignment has one
  policy seed per group member, pairwise distinct, and depends on nothing but the
  specification, the index, the schedule and the run seed; its layout comes from the pool
  registered for its own task and suite.
\<close>

theorem assignment_well_formed:
  assumes "candidate_assignment h spec i names suites layouts run_seed = Inr a"
  shows "a_index a = nat i \<and> distinct (a_seeds a) \<and> length (a_seeds a) = nat (sp_group_size spec) \<and>
    a_task_name a \<in> set names \<and> a_suite_id a \<in> set suites \<and>
    (\<exists>ls. map_of layouts (a_task_name a, a_suite_id a) = Some ls \<and> a_layout_id a \<in> set ls)"
proof -
  have len: "0 < length names" "0 < length suites"
    using candidate_assignment_ok [OF assms] by (auto simp: schedule_ok_def)
  then have "nat i mod (length names * length suites) < length names * length suites" by simp
  then have task: "nat i mod (length names * length suites) div length suites < length names"
    by (rule less_mult_imp_div_less)
  from candidate_assignment_Inr [OF assms] obtain ls where ls: "ls \<noteq> []"
    and *: "map_of layouts (a_task_name a, a_suite_id a) = Some ls"
      "a_layout_id a = ls ! layout_slot spec (nat i div (length names * length suites))
        (nat i mod (length names * length suites)) (length ls)"
      "a_index a = nat i" "a_task_name a \<in> set names" "a_suite_id a \<in> set suites"
      "a_seeds a = map (\<lambda>m. int (h (seed_payload spec run_seed (nat i)) mod 2000000000 + m))
        [0..<nat (sp_group_size spec)]"
    using task len(2) by (metis assignment.select_convs mod_less_divisor nth_mem)
  have "distinct (a_seeds a)" unfolding *(6) distinct_map by (simp add: inj_on_def)
  with * ls show ?thesis by (simp add: layout_slot_less)
qed

text \<open>A sample schedule: two suites of one task, four layouts each.\<close>

definition schedule_spec :: window_spec where
  "schedule_spec = \<lparr>sp_run_id = ''run'', sp_intended_update = 1, sp_group_size = 8, sp_target = 1,
     sp_minimum = 1, sp_max = 2,
     sp_policy = \<lparr>immutable_base_path = ''/m'', immutable_base_sha256 = ''00'',
       trainer_checkpoint_path = None, rollout_policy_version = 3\<rparr>,
     sp_complete_round = False,
     sp_round_size = 0, sp_drain = False, sp_task_names = [''t''], sp_suite_ids = [0, 1],
     sp_manifest_sha256 = ''ab'', sp_reward_source = ''binary_success'',
     sp_criterion = ''full_success_mixed'', sp_reduction = ''group_equal'', sp_seed_namespace = [],
     sp_state_limit = Fin 100, sp_objective = ''fpo'', sp_noise_level = Fin (1 / 100)\<rparr>"

definition sample_layouts :: "((string \<times> int) \<times> int list) list" where
  "sample_layouts = [((''t'', 0), [0, 1, 2, 3]), ((''t'', 1), [4, 5, 6, 7])]"

definition sample_hash :: "string \<Rightarrow> nat" where
  "sample_hash s = 1000003 * length s + 17"

definition sample_slot :: "nat \<Rightarrow> assignment" where
  "sample_slot i = projr (candidate_assignment sample_hash schedule_spec (int i) [''t''] [0, 1] sample_layouts 9)"

lemma sample_assigned:
  assumes "i \<in> {0, 1}"
  shows "candidate_assignment sample_hash schedule_spec (int i) [''t''] [0, 1] sample_layouts 9 =
    Inr (sample_slot i)"
proof -
  have "\<not> isl (candidate_assignment sample_hash schedule_spec (int 0) [''t''] [0, 1] sample_layouts 9)"
    by (simp add: candidate_assignment_def Let_def schedule_spec_def sample_layouts_def)
  moreover
  have "\<not> isl (candidate_assignment sample_hash schedule_spec (int 1) [''t''] [0, 1] sample_layouts 9)"
    by (simp add: candidate_assignment_def Let_def schedule_spec_def sample_layouts_def)
  ultimately show ?thesis using assms unfolding sample_slot_def
    by (metis empty_iff insert_iff sum.collapse(2))
qed

theorem assignment_well_formed_witness:
  "a_index (sample_slot 1) = 1 \<and> distinct (a_seeds (sample_slot 1)) \<and> length (a_seeds (sample_slot 1)) = 8"
proof -
  have "1 \<in> {0, 1 :: nat}" by simp
  from assignment_well_formed [OF sample_assigned [OF this]] show ?thesis
    by (simp add: schedule_spec_def)
qed

section \<open>A round visits every condition once\<close>

lemma slot_decode: "(t * m + s) div m = t \<and> (t * m + s) mod m = s" if "s < m" for s :: nat
  using that by (simp add: div_mult_self3)

text \<open>Rounds are balanced: in any block of as many consecutive candidate indices as there are
  (task, suite) conditions, starting at a multiple of that count, every task slot and suite
  occurs at exactly one index.
\<close>

theorem round_covers_conditions_once:
  assumes sched: "\<And>i. k * (length names * length suites) \<le> i \<Longrightarrow>
      i < Suc k * (length names * length suites) \<Longrightarrow>
      candidate_assignment h spec (int i) names suites layouts run_seed = Inr (f i)"
    and t: "t < length names" and s: "s < length suites"
  shows "\<exists>!i. k * (length names * length suites) \<le> i \<and> i < Suc k * (length names * length suites) \<and>
    a_task_id (f i) = int t \<and> a_suite_id (f i) = suites ! s"
proof -
  let ?m = "length suites" and ?c = "length names * length suites"
  have len: "0 < ?m" "0 < ?c" using t s by auto
  define x where "x = t * ?m + s"
  have "t * ?m + s < Suc t * ?m" using s by simp
  also have "\<dots> \<le> ?c" using t by (intro mult_le_mono) auto
  finally have x: "x < ?c" by (simp add: x_def)
  have dec: "a_task_id (f i) = int (i mod ?c div ?m)" "a_suite_id (f i) = suites ! (i mod ?c mod ?m)"
    "distinct suites" if "k * ?c \<le> i" "i < Suc k * ?c" for i
    using candidate_assignment_ok [OF sched [OF that]]
    by (auto simp: schedule_ok_def intro: candidate_assignment_Inr [OF sched [OF that]])
  let ?i = "k * ?c + x"
  have i: "k * ?c \<le> ?i" "?i < Suc k * ?c" "?i mod ?c = x" using x by simp_all
  show ?thesis
  proof (rule ex1I [of _ ?i])
    show "k * ?c \<le> ?i \<and> ?i < Suc k * ?c \<and> a_task_id (f ?i) = int t \<and> a_suite_id (f ?i) = suites ! s"
      using i dec(1,2) [OF i(1,2)] slot_decode [OF s, of t] by (simp add: x_def)
  next
    fix j assume j: "k * ?c \<le> j \<and> j < Suc k * ?c \<and> a_task_id (f j) = int t \<and> a_suite_id (f j) = suites ! s"
    then have "j mod ?c div ?m = t" and "suites ! (j mod ?c mod ?m) = suites ! s"
      using dec(1,2) [of j] by auto
    moreover from this(2) have "j mod ?c mod ?m = s"
      using dec(3) [of j] j s len by (simp add: nth_eq_iff_index_eq)
    ultimately have "j mod ?c = x" unfolding x_def by (metis div_mult_mod_eq)
    moreover have "j = k * ?c + (j - k * ?c)" and "j - k * ?c < ?c" using j by auto
    ultimately show "j = ?i" by (metis mod_less mod_mult_self3)
  qed
qed

theorem round_covers_conditions_once_witness:
  "\<exists>!i. 0 * (length [''t''] * length [0, 1 :: int]) \<le> i \<and>
     i < Suc 0 * (length [''t''] * length [0, 1 :: int]) \<and>
     a_task_id (sample_slot i) = int 0 \<and> a_suite_id (sample_slot i) = [0, 1] ! 1"
proof (rule round_covers_conditions_once [where h = sample_hash and spec = schedule_spec
      and layouts = sample_layouts and run_seed = 9])
  fix i :: nat
  assume "i < Suc 0 * (length [''t''] * length [0, 1 :: int])"
  then have "i \<in> {0, 1}" by auto
  then show "candidate_assignment sample_hash schedule_spec (int i) [''t''] [0, 1] sample_layouts 9 =
      Inr (sample_slot i)"
    by (rule sample_assigned)
qed simp_all

section \<open>Layout rotation\<close>

lemma layout_slot_inj:
  assumes "coprime (7 :: int) (int n)" and "a < n" and "b < n"
    and "layout_slot spec (k + a) slot n = layout_slot spec (k + b) slot n"
  shows "a = b"
proof -
  have n: "0 < int n" using assms(2) by simp
  let ?x = "\<lambda>a. int (k + a) * 7 + int slot * 11 + sp_intended_update spec - 1"
  have "?x a mod int n = ?x b mod int n"
    using assms(4) n by (simp add: layout_slot_def eq_nat_nat_iff)
  then have "int n dvd ?x a - ?x b" by (simp add: mod_eq_dvd_iff)
  moreover have "?x a - ?x b = 7 * (int a - int b)" by simp
  ultimately have "int n dvd 7 * (int a - int b)" by metis
  then have "int n dvd int a - int b"
    using assms(1) by (metis coprime_commute coprime_dvd_mult_right_iff)
  then have "int a mod int n = int b mod int n" by (simp add: mod_eq_dvd_iff)
  with assms(2,3) show ?thesis by simp
qed

text \<open>Layout rotation: within one (task, suite) lane whose pool has a size not divisible by 7,
  any run of as many consecutive attempts as the pool has layouts uses every layout exactly
  once, whatever the lane, the update and the starting attempt.
\<close>

theorem rotation_visits_all_layouts:
  assumes "coprime (7 :: int) (int (length ls))" and "distinct ls"
  shows "distinct (map (\<lambda>a. ls ! layout_slot spec (k + a) slot (length ls)) [0..<length ls]) \<and>
    set (map (\<lambda>a. ls ! layout_slot spec (k + a) slot (length ls)) [0..<length ls]) = set ls"
proof -
  let ?n = "length ls" and ?f = "\<lambda>a. ls ! layout_slot spec (k + a) slot (length ls)"
  have bound: "layout_slot spec (k + a) slot ?n < ?n" if "a < ?n" for a
    using that by (intro layout_slot_less) auto
  have inj: "inj_on ?f {0..<?n}"
  proof (rule inj_onI)
    fix a b assume ab: "a \<in> {0..<?n}" "b \<in> {0..<?n}" "?f a = ?f b"
    then have "layout_slot spec (k + a) slot ?n = layout_slot spec (k + b) slot ?n"
      using assms(2) bound [of a] bound [of b] by (simp add: nth_eq_iff_index_eq)
    with ab assms(1) show "a = b" by (auto intro: layout_slot_inj)
  qed
  have sub: "?f ` {0..<?n} \<subseteq> set ls" using bound by auto
  have "card (?f ` {0..<?n}) = card (set ls)"
    using inj assms(2) by (simp add: card_image distinct_card)
  with sub have "?f ` {0..<?n} = set ls" by (intro card_subset_eq) auto
  with inj show ?thesis by (simp add: distinct_map)
qed

theorem rotation_visits_all_layouts_witness:
  "set (map (\<lambda>a. [0, 1, 2, 3 :: int] ! layout_slot schedule_spec (5 + a) 1 (length [0, 1, 2, 3 :: int]))
     [0..<length [0, 1, 2, 3 :: int]]) = set [0, 1, 2, 3]"
proof -
  have "coprime (7 :: int) (int (length [0, 1, 2, 3 :: int]))" and "distinct [0, 1, 2, 3 :: int]"
    by code_simp+
  from rotation_visits_all_layouts [OF this, of schedule_spec 5 1] show ?thesis by (rule conjunct2)
qed

text \<open>
  The stride 7 does not rotate a pool of seven layouts: such a lane uses the same layout
  at every attempt of an update.
\<close>

theorem seven_layouts_never_rotate: "layout_slot spec k slot 7 = layout_slot spec 0 slot 7"
proof -
  have "int k * 7 + int slot * 11 + sp_intended_update spec - 1 =
      (int slot * 11 + sp_intended_update spec - 1) + int k * 7"
    by simp
  then have "(int k * 7 + int slot * 11 + sp_intended_update spec - 1) mod 7 =
      (int slot * 11 + sp_intended_update spec - 1) mod 7"
    by (simp only: mod_mult_self1)
  moreover have "int 7 = 7" by simp
  ultimately show ?thesis unfolding layout_slot_def by simp
qed

end
