(* ===== verification/Action_Executor.thy ===== *)
theory Action_Executor
  imports Prelude
begin

text \<open>
  envs/action_executor.py: interpolation and smoothing of action chunks, the serial executor,
  and the asynchronous executor as a machine whose steps are the sections that its threads run
  under the condition's lock. A chunk is a list over time: entry t is \<open>actions[:, t]\<close>, a list over
  the batch of action vectors, and \<open>values[:, t]\<close> a list over the batch. Arithmetic is exact.
  Waiting on the condition is modelled by enabledness: a thread may run a section as soon as the
  predicate it waits for holds. That every change of a predicate is followed by \<open>notify_all\<close> is
  read off the source, not expressed. There is one caller of \<open>exchange\<close>, as in the environment
  worker, which serves one command at a time.
\<close>

section \<open>Configuration\<close>

record interpolation_config =
  ip_enable :: bool
  ip_factor :: int

definition interpolation_post_init :: "interpolation_config \<Rightarrow> unit result" where
  "interpolation_post_init c = require (2 \<le> ip_factor c) ValueError"

record smoothing_config =
  sm_enable :: bool
  sm_execution_steps :: int
  sm_blend_steps :: int

definition smoothing_post_init :: "smoothing_config \<Rightarrow> unit result" where
  "smoothing_post_init c =
     (if sm_execution_steps c \<le> 0 then Inl ValueError
      else if sm_blend_steps c < 2 then Inl ValueError else Inr ())"

record execution_config =
  ex_mode :: string
  ex_replan_after_steps :: int
  ex_smooth_overlapping :: bool
  ex_interpolation :: interpolation_config
  ex_smoothing :: smoothing_config

definition execution_post_init :: "execution_config \<Rightarrow> unit result" where
  "execution_post_init c =
     (if ex_mode c \<notin> {''serial'', ''async''} then Inl ValueError
      else if ex_replan_after_steps c \<le> 0 then Inl ValueError else Inr ())"

definition interpolation_factor :: "interpolation_config \<Rightarrow> nat" where
  "interpolation_factor c = (if ip_enable c then nat (ip_factor c) else 1)"

section \<open>Chunks\<close>

type_synonym vec = "rat list"
type_synonym actions = "vec list list"
type_synonym action_values = "rat list list"

definition normalize_action_chunk ::
  "actions \<Rightarrow> action_values \<Rightarrow> (actions \<times> action_values) result" where
  "normalize_action_chunk actions values =
     (if actions = [] then Inl ValueError
      else if length values \<noteq> length actions \<or> \<not> list_all (\<lambda>v. length v = length (hd actions)) values
        then Inl ValueError
      else Inr (actions, values))"

definition lerp :: "rat \<Rightarrow> rat \<Rightarrow> rat \<Rightarrow> rat" where
  "lerp w a b = (1 - w) * a + w * b"

definition lerp_actions :: "rat \<Rightarrow> vec list \<Rightarrow> vec list \<Rightarrow> vec list" where
  "lerp_actions w = map2 (map2 (lerp w))"

text \<open>\<open>np.linspace(0.0, b, n)\<close>: a single point is the start.\<close>

definition linspace0 :: "rat \<Rightarrow> nat \<Rightarrow> nat \<Rightarrow> rat" where
  "linspace0 b n i = (if n = 1 then 0 else of_nat i * b / of_nat (n - 1))"

definition interpolate_at :: "(rat \<Rightarrow> 'a \<Rightarrow> 'a \<Rightarrow> 'a) \<Rightarrow> 'a list \<Rightarrow> rat \<Rightarrow> 'a" where
  "interpolate_at mix xs position =
     (let left = nat \<lfloor>position\<rfloor>; right = nat \<lceil>position\<rceil>; weight = position - of_nat left
      in mix weight (xs ! left) (xs ! right))"

definition interpolate_action_chunk ::
  "nat \<Rightarrow> actions \<Rightarrow> action_values \<Rightarrow> actions \<times> action_values" where
  "interpolate_action_chunk factor actions values =
     (if factor = 1 then (actions, values)
      else
        let output_steps = length actions * factor;
            positions = map (linspace0 (of_nat (length actions - 1)) output_steps) [0..<output_steps]
        in (map (interpolate_at lerp_actions actions) positions,
            map (interpolate_at (\<lambda>w. map2 (lerp w)) values) positions))"

definition prepare :: "nat \<Rightarrow> actions \<Rightarrow> action_values \<Rightarrow> (actions \<times> action_values) result" where
  "prepare factor actions values =
     bind_res (normalize_action_chunk actions values)
       (\<lambda>(a, v). Inr (interpolate_action_chunk factor a v))"

definition smooth_weight :: "nat \<Rightarrow> nat \<Rightarrow> rat" where
  "smooth_weight n i = (let w = linspace0 1 n i in w * w * (3 - 2 * w))"

definition smooth_action_chunk_overlap :: "actions \<Rightarrow> actions \<Rightarrow> actions" where
  "smooth_action_chunk_overlap previous_actions next_actions =
     (let overlap = min (length previous_actions) (length next_actions) in
      map (\<lambda>i. if i < overlap
               then lerp_actions (smooth_weight overlap i) (previous_actions ! i) (next_actions ! i)
               else next_actions ! i)
        [0..<length next_actions])"

definition chunk_shape :: "actions \<Rightarrow> nat list list" where
  "chunk_shape actions = map (map length) actions"

definition smooth_serial_action_chunks ::
  "actions option \<Rightarrow> actions \<Rightarrow> nat \<Rightarrow> nat \<Rightarrow> bool list option \<Rightarrow> actions result" where
  "smooth_serial_action_chunks previous next_actions execution_steps blend_steps previous_valid =
     (if length next_actions < execution_steps + blend_steps then Inl ValueError
      else case previous of
        None \<Rightarrow> Inr next_actions
      | Some prev \<Rightarrow>
          if chunk_shape prev \<noteq> chunk_shape next_actions then Inl ValueError
          else
            let valid = (case previous_valid of
                  None \<Rightarrow> replicate (length (hd next_actions)) True | Some v \<Rightarrow> v)
            in Inr (map (\<lambda>t. if t < blend_steps
                   then map (\<lambda>b. if valid ! b
                          then map2 (lerp (smooth_weight blend_steps t))
                                 (prev ! (execution_steps + t) ! b) (next_actions ! t ! b)
                          else next_actions ! t ! b)
                        [0..<length (next_actions ! t)]
                   else next_actions ! t)
                 [0..<length next_actions]))"

section \<open>The serial executor\<close>

record serial_executor =
  se_factor :: nat
  se_smoothing :: smoothing_config
  se_previous_actions :: "actions option"
  se_previous_valid :: "bool list option"

text \<open>\<open>step_fn\<close> and \<open>finish_fn\<close> act on the environment state \<open>'e\<close>.\<close>

fun run_steps ::
  "(vec list \<Rightarrow> rat list \<Rightarrow> bool \<Rightarrow> 'e \<Rightarrow> 'f result \<times> 'e) \<Rightarrow> (vec list \<times> rat list) list \<Rightarrow> bool \<Rightarrow> 'e \<Rightarrow>
   'f list result \<times> 'e" where
  "run_steps step_fn [] first e = (Inr [], e)"
| "run_steps step_fn ((a, v) # xs) first e =
     (case step_fn a v first e of
        (Inl err, e') \<Rightarrow> (Inl err, e')
      | (Inr f, e') \<Rightarrow>
          (case run_steps step_fn xs False e' of
             (Inl err, e'') \<Rightarrow> (Inl err, e'')
           | (Inr fs, e'') \<Rightarrow> (Inr (f # fs), e'')))"

definition plan_serial ::
  "serial_executor \<Rightarrow> actions \<Rightarrow> action_values \<Rightarrow> (serial_executor \<times> actions \<times> action_values) result" where
  "plan_serial se actions values =
     (let sm = se_smoothing se; n = nat (sm_execution_steps sm) in
      if \<not> sm_enable sm then Inr (se, actions, values)
      else bind_res
        (smooth_serial_action_chunks (se_previous_actions se) actions n (nat (sm_blend_steps sm))
           (se_previous_valid se))
        (\<lambda>smoothed.
          Inr (se\<lparr>se_previous_actions := Some smoothed,
                  se_previous_valid := Some (replicate (length (hd smoothed)) True)\<rparr>,
               take n smoothed, take n values)))"

definition serial_exchange ::
  "(vec list \<Rightarrow> rat list \<Rightarrow> bool \<Rightarrow> 'e \<Rightarrow> 'f result \<times> 'e) \<Rightarrow>
   ('f list \<Rightarrow> 'e \<Rightarrow> ('r \<times> bool list) result \<times> 'e) \<Rightarrow> actions \<Rightarrow> action_values \<Rightarrow>
   serial_executor \<Rightarrow> 'e \<Rightarrow> 'r result \<times> serial_executor \<times> 'e" where
  "serial_exchange step_fn finish_fn actions values se e =
     (case bind_res (prepare (se_factor se) actions values) (\<lambda>(a, v). plan_serial se a v) of
        Inl err \<Rightarrow> (Inl err, se, e)
      | Inr (se1, a, v) \<Rightarrow>
          (case run_steps step_fn (zip a v) True e of
             (Inl err, e1) \<Rightarrow> (Inl err, se1, e1)
           | (Inr steps, e1) \<Rightarrow>
               (case finish_fn steps e1 of
                  (Inl err, e2) \<Rightarrow> (Inl err, se1, e2)
                | (Inr (r, reset_mask), e2) \<Rightarrow>
                    (Inr r,
                     se1\<lparr>se_previous_valid :=
                       map_option (\<lambda>valid. map2 (\<lambda>v m. v \<and> \<not> m) valid reset_mask) (se_previous_valid se1)\<rparr>,
                     e2))))"

definition serial_reset :: "serial_executor \<Rightarrow> serial_executor" where
  "serial_reset se = se\<lparr>se_previous_actions := None, se_previous_valid := None\<rparr>"

section \<open>The asynchronous executor\<close>

record queued_action =
  qa_action :: "vec list"
  qa_value :: "rat list"
  qa_chunk_started :: bool

text \<open>
  \<open>as_executed\<close> records the actions passed to \<open>step_fn\<close>; \<open>as_thread_alive\<close> is false once the
  control thread has returned; \<open>as_waiting\<close> says that a caller is inside \<open>exchange\<close>, past its
  submission, and \<open>as_resetting\<close> that one is inside \<open>reset\<close> and waits for the running step.
\<close>

record async_executor =
  as_factor :: nat
  as_replan :: nat
  as_smooth :: bool
  as_queue :: "queued_action list"
  as_completed :: nat
  as_origin :: nat
  as_return_target :: "nat option"
  as_paused :: bool
  as_in_step :: "queued_action option"
  as_closed :: bool
  as_error :: bool
  as_thread_alive :: bool
  as_waiting :: bool
  as_resetting :: bool
  as_executed :: "queued_action list"

definition new_async_executor :: "interpolation_config \<Rightarrow> int \<Rightarrow> bool \<Rightarrow> async_executor result" where
  "new_async_executor ip replan smooth =
     (if replan \<le> 0 then Inl ValueError
      else Inr \<lparr>as_factor = interpolation_factor ip, as_replan = nat replan, as_smooth = smooth,
                as_queue = [], as_completed = 0, as_origin = 0, as_return_target = None,
                as_paused = True, as_in_step = None, as_closed = False, as_error = False,
                as_thread_alive = True, as_waiting = False, as_resetting = False, as_executed = []\<rparr>)"

definition elapsed_steps :: "async_executor \<Rightarrow> nat" where
  "elapsed_steps s = (as_completed s + (if as_in_step s = None then 0 else 1)) - as_origin s"

definition replacement_queue :: "async_executor \<Rightarrow> actions \<Rightarrow> action_values \<Rightarrow> queued_action list" where
  "replacement_queue s actions values =
     (let k = elapsed_steps s;
          tail = drop k actions;
          blended = (if as_smooth s \<and> as_queue s \<noteq> []
                     then smooth_action_chunk_overlap (map qa_action (as_queue s)) tail else tail)
      in map (\<lambda>i. \<lparr>qa_action = blended ! i, qa_value = values ! (k + i), qa_chunk_started = (i = 0)\<rparr>)
           [0..<length blended])"

text \<open>The part of \<open>exchange\<close> before its waiting loop.\<close>

definition exchange_submit ::
  "actions \<Rightarrow> action_values \<Rightarrow> async_executor \<Rightarrow> unit result \<times> async_executor" where
  "exchange_submit actions values s =
     (case prepare (as_factor s) actions values of
        Inl e \<Rightarrow> (Inl e, s)
      | Inr (a, v) \<Rightarrow>
          if length a < as_replan s then (Inl ValueError, s)
          else if as_error s then (Inl RuntimeError, s)
          else if as_return_target s \<noteq> None then (Inl RuntimeError, s)
          else (Inr (), s\<lparr>as_queue := replacement_queue s a v, as_paused := False,
                          as_return_target := Some (as_origin s + as_replan s), as_waiting := True\<rparr>))"

text \<open>The part after it: \<open>reset_any\<close> says whether the snapshot's reset mask has a set lane.\<close>

definition exchange_return :: "bool \<Rightarrow> async_executor \<Rightarrow> async_executor" where
  "exchange_return reset_any s =
     s\<lparr>as_queue := (if reset_any then [] else as_queue s), as_origin := as_completed s,
       as_return_target := None, as_waiting := False\<rparr>"

definition target_reached :: "async_executor \<Rightarrow> bool" where
  "target_reached s \<longleftrightarrow> (case as_return_target s of None \<Rightarrow> False | Some t \<Rightarrow> t \<le> as_completed s)"

text \<open>The control thread waits unless it may take an action or has to stop.\<close>

definition control_ready :: "async_executor \<Rightarrow> bool" where
  "control_ready s \<longleftrightarrow> \<not> (as_paused s \<or> as_queue s = [] \<or> target_reached s)"

definition control_take :: "async_executor \<Rightarrow> async_executor" where
  "control_take s =
     s\<lparr>as_queue := tl (as_queue s), as_in_step := Some (hd (as_queue s)),
       as_executed := as_executed s @ [hd (as_queue s)]\<rparr>"

definition control_finish :: "async_executor \<Rightarrow> async_executor" where
  "control_finish s = s\<lparr>as_completed := as_completed s + 1, as_in_step := None\<rparr>"

definition control_fail :: "async_executor \<Rightarrow> async_executor" where
  "control_fail s = s\<lparr>as_in_step := None, as_error := True, as_paused := True, as_thread_alive := False\<rparr>"

definition reset_begin :: "async_executor \<Rightarrow> async_executor" where
  "reset_begin s = s\<lparr>as_paused := True, as_queue := [], as_return_target := None, as_resetting := True\<rparr>"

definition reset_end :: "async_executor \<Rightarrow> unit result \<times> async_executor" where
  "reset_end s =
     ((if as_error s then Inl RuntimeError else Inr ()),
      s\<lparr>as_completed := 0, as_origin := 0, as_resetting := False\<rparr>)"

text \<open>
  One caller uses the executor: it submits, resets or closes only when it is not already inside
  a call. \<open>close\<close> may come from another thread at any time. A caller that waits may see the
  error of the control thread, and leaves \<open>exchange\<close> with the return target still set.
\<close>

inductive async_step :: "async_executor \<Rightarrow> async_executor \<Rightarrow> bool" where
  submit: "\<not> as_waiting s \<Longrightarrow> \<not> as_resetting s \<Longrightarrow> exchange_submit a v s = (r, s') \<Longrightarrow> async_step s s'"
| returns: "as_waiting s \<Longrightarrow> target_reached s \<Longrightarrow> async_step s (exchange_return reset_any s)"
| snapshot_failed: "as_waiting s \<Longrightarrow> target_reached s \<Longrightarrow>
    async_step s (s\<lparr>as_return_target := None, as_waiting := False\<rparr>)"
| failed: "as_waiting s \<Longrightarrow> \<not> target_reached s \<Longrightarrow> as_error s \<Longrightarrow> async_step s (s\<lparr>as_waiting := False\<rparr>)"
| take: "as_thread_alive s \<Longrightarrow> as_in_step s = None \<Longrightarrow> \<not> as_closed s \<Longrightarrow> control_ready s \<Longrightarrow>
    async_step s (control_take s)"
| finish: "as_thread_alive s \<Longrightarrow> as_in_step s \<noteq> None \<Longrightarrow> async_step s (control_finish s)"
| fail: "as_thread_alive s \<Longrightarrow> as_in_step s \<noteq> None \<Longrightarrow> async_step s (control_fail s)"
| stop: "as_thread_alive s \<Longrightarrow> as_in_step s = None \<Longrightarrow> as_closed s \<Longrightarrow>
    async_step s (s\<lparr>as_thread_alive := False\<rparr>)"
| reset1: "\<not> as_waiting s \<Longrightarrow> \<not> as_resetting s \<Longrightarrow> async_step s (reset_begin s)"
| reset2: "as_resetting s \<Longrightarrow> as_in_step s = None \<Longrightarrow> reset_end s = (r, s') \<Longrightarrow> async_step s s'"
| close: "async_step s (s\<lparr>as_closed := True\<rparr>)"

inductive_cases async_stepE: "async_step s s'"

end
