(* ===== verification/Action_Executor_Properties.thy ===== *)
theory Action_Executor_Properties
  imports Action_Executor
begin

text \<open>The properties of the action executors.\<close>

section \<open>The asynchronous executor never starves a waiting caller\<close>

definition async_start :: "async_executor \<Rightarrow> bool" where
  "async_start s \<longleftrightarrow> (\<exists>ip replan smooth. new_async_executor ip replan smooth = Inr s)"

definition in_step_count :: "async_executor \<Rightarrow> nat" where
  "in_step_count s = (if as_in_step s = None then 0 else 1)"

definition async_inv :: "async_executor \<Rightarrow> bool" where
  "async_inv s \<longleftrightarrow>
     as_origin s \<le> as_completed s \<and>
     (\<not> as_error s \<and> \<not> as_closed s \<longrightarrow> as_thread_alive s) \<and>
     (as_waiting s \<longrightarrow> \<not> as_resetting s \<and> as_return_target s = Some (as_origin s + as_replan s)) \<and>
     (as_waiting s \<and> \<not> as_error s \<longrightarrow> \<not> as_paused s \<and>
        as_origin s + as_replan s \<le> as_completed s + in_step_count s + length (as_queue s))"

lemma length_overlap [simp]: "length (smooth_action_chunk_overlap p n) = length n"
  by (simp add: smooth_action_chunk_overlap_def Let_def)

lemma length_replacement: "length (replacement_queue s a v) = length a - elapsed_steps s"
  by (simp add: replacement_queue_def Let_def)

lemma exchange_submit_cases:
  assumes "exchange_submit a v s = (r, s')"
  obtains "s' = s" | a1 v1 where "as_replan s \<le> length a1" "\<not> as_error s"
    "s' = s\<lparr>as_queue := replacement_queue s a1 v1, as_paused := False,
        as_return_target := Some (as_origin s + as_replan s), as_waiting := True\<rparr>"
proof (cases "prepare (as_factor s) a v")
  case (Inl e)
  with assms have "s' = s" by (simp add: exchange_submit_def)
  then show thesis by (rule that(1))
next
  case (Inr av)
  obtain a1 v1 where av: "av = (a1, v1)" by (cases av)
  show thesis
  proof (cases "length a1 < as_replan s \<or> as_error s \<or> as_return_target s \<noteq> None")
    case True
    then have "s' = s" using assms Inr av unfolding exchange_submit_def
      by (auto split: if_splits)
    then show thesis by (rule that(1))
  next
    case False
    with assms Inr av that(2) [of a1 v1] show thesis by (simp add: exchange_submit_def)
  qed
qed

lemma submit_inv:
  assumes inv: "async_inv s" and idle: "\<not> as_resetting s" and sub: "exchange_submit a v s = (r, s')"
  shows "async_inv s'"
  using sub
proof (cases rule: exchange_submit_cases)
  case 1
  with inv show ?thesis by simp
next
  case (2 a1 v1)
  have "as_origin s \<le> as_completed s" using inv by (simp add: async_inv_def)
  then have "as_origin s + as_replan s \<le>
      as_completed s + in_step_count s + (length a1 - elapsed_steps s)"
    using 2(1) by (auto simp: elapsed_steps_def in_step_count_def)
  with inv idle show ?thesis by (simp add: 2(3) async_inv_def length_replacement in_step_count_def)
qed

lemma take_inv:
  assumes inv: "async_inv s" and "as_in_step s = None" and "control_ready s"
  shows "async_inv (control_take s)"
proof -
  have "as_queue s \<noteq> []" using assms(3) by (simp add: control_ready_def)
  with inv assms(2) show ?thesis by (auto simp: async_inv_def control_take_def in_step_count_def)
qed

lemma async_step_inv: "async_step s s' \<Longrightarrow> async_inv s \<Longrightarrow> async_inv s'"
proof (induction rule: async_step.induct)
  case (submit s a v r s')
  then show ?case using submit_inv by blast
next
  case (take s)
  then show ?case using take_inv by blast
next
  case (finish s)
  then show ?case by (auto simp: async_inv_def control_finish_def in_step_count_def)
qed (auto simp: async_inv_def control_fail_def exchange_return_def reset_begin_def reset_end_def
    in_step_count_def)

lemma async_start_inv: "async_start s \<Longrightarrow> async_inv s"
  by (auto simp: async_start_def new_async_executor_def async_inv_def split: if_splits)

interpretation async: transition_system async_start async_step async_inv
  by standard (auto intro: async_start_inv async_step_inv)

definition async_reachable :: "async_executor \<Rightarrow> bool" where
  "async_reachable s \<longleftrightarrow> (\<exists>s0. async_start s0 \<and> async_step\<^sup>*\<^sup>* s0 s)"

lemma async_reachable_inv: "async_reachable s \<Longrightarrow> async_inv s"
  unfolding async_reachable_def using async.reachable_inv by blast

lemma async_reachable_step: "async_reachable s \<Longrightarrow> async_step s t \<Longrightarrow> async_reachable t"
  unfolding async_reachable_def by (meson rtranclp.rtrancl_into_rtrancl)

definition work_left :: "async_executor \<Rightarrow> nat" where
  "work_left s =
     (case as_return_target s of
        None \<Rightarrow> 0 | Some t \<Rightarrow> 2 * (t - as_completed s) - in_step_count s)"

text \<open>
  C31. A caller that waits in \<open>exchange\<close> is never starved: as long as the executor is neither
  closed nor failed, either the caller can return, or the control thread can start or complete
  a control tick, which brings the return target closer. The queue cannot run dry first.
\<close>

theorem waiting_exchange_progresses:
  assumes "async_reachable s" and "as_waiting s" and "\<not> as_closed s" and "\<not> as_error s"
  shows "target_reached s \<or>
    (\<exists>s'. async_step s s' \<and> s' \<in> {control_take s, control_finish s} \<and> as_waiting s' \<and>
       work_left s' < work_left s)"
proof (cases "target_reached s")
  case False
  let ?t = "as_origin s + as_replan s"
  have inv: "as_thread_alive s" "as_return_target s = Some ?t" "\<not> as_paused s"
    "?t \<le> as_completed s + in_step_count s + length (as_queue s)"
    using async_reachable_inv [OF assms(1)] assms(2-4) by (auto simp: async_inv_def)
  have todo: "as_completed s < ?t" using False inv(2) by (simp add: target_reached_def)
  show ?thesis
  proof (cases "as_in_step s")
    case None
    then have "as_queue s \<noteq> []" using inv(4) todo by (auto simp: in_step_count_def)
    then have "control_ready s" using inv(3) False by (simp add: control_ready_def)
    with inv(1) None assms(3) have "async_step s (control_take s)" by (intro async_step.take)
    moreover have "work_left (control_take s) < work_left s"
      using None inv(2) todo by (simp add: work_left_def control_take_def in_step_count_def)
    ultimately show ?thesis using assms(2) by (auto simp: control_take_def)
  next
    case (Some q)
    then have "async_step s (control_finish s)" using inv(1) by (intro async_step.finish) simp_all
    moreover have "work_left (control_finish s) < work_left s"
      using Some inv(2) todo by (simp add: work_left_def control_finish_def in_step_count_def)
    ultimately show ?thesis using assms(2) by (auto simp: control_finish_def)
  qed
qed simp

definition sample_ip :: interpolation_config where
  "sample_ip = \<lparr>ip_enable = False, ip_factor = 2\<rparr>"

definition sample_actions :: actions where
  "sample_actions = [[[0]], [[1]], [[2]]]"

definition async_idle :: async_executor where
  "async_idle = projr (new_async_executor sample_ip 2 False)"

definition async_waiting :: async_executor where
  "async_waiting = snd (exchange_submit sample_actions [[0], [0], [0]] async_idle)"

lemma async_waiting_reachable: "async_reachable async_waiting"
proof -
  have "new_async_executor sample_ip 2 False = Inr async_idle"
    by (simp add: async_idle_def new_async_executor_def)
  then have "async_start async_idle" unfolding async_start_def by blast
  then have "async_reachable async_idle" unfolding async_reachable_def by blast
  moreover have "async_step async_idle async_waiting"
    unfolding async_waiting_def
    by (rule async_step.submit [OF _ _ prod.collapse [symmetric]])
      (simp_all add: async_idle_def new_async_executor_def)
  ultimately show ?thesis by (rule async_reachable_step)
qed

theorem waiting_exchange_progresses_witness:
  "\<exists>s'. async_step async_waiting s' \<and> as_waiting s' \<and> work_left s' < work_left async_waiting"
proof -
  have "as_waiting async_waiting" "\<not> as_closed async_waiting" "\<not> as_error async_waiting"
    "\<not> target_reached async_waiting" by code_simp+
  with waiting_exchange_progresses [OF async_waiting_reachable] show ?thesis by blast
qed

text \<open>
  A caller that waits on a closed executor whose thread has gone waits forever: no step of the
  machine reaches its target or lets it see an error.
\<close>

lemma closed_exchange_never_returns:
  assumes "as_waiting s" "\<not> as_resetting s" "\<not> as_thread_alive s" "\<not> as_error s" "\<not> target_reached s"
    and "async_step\<^sup>*\<^sup>* s t"
  shows "as_waiting t \<and> \<not> as_resetting t \<and> \<not> as_thread_alive t \<and> \<not> as_error t \<and> \<not> target_reached t"
  using assms(6)
proof (induction rule: rtranclp_induct)
  case base
  show ?case using assms by blast
next
  case (step t u)
  from step.hyps(2) step.IH show ?case
    by (cases rule: async_step.cases) (auto simp: target_reached_def split: option.splits)
qed

section \<open>Interpolation\<close>

lemma lerp_between: "0 \<le> w \<Longrightarrow> w \<le> 1 \<Longrightarrow> min a b \<le> lerp w a b \<and> lerp w a b \<le> max a b"
proof -
  assume w: "0 \<le> w" "w \<le> 1"
  have e1: "lerp w a b = a + w * (b - a)" and e2: "lerp w a b = b + (1 - w) * (a - b)"
    by (simp_all add: lerp_def algebra_simps)
  show ?thesis
  proof (cases "a \<le> b")
    case True
    then have "0 \<le> w * (b - a)" "(1 - w) * (a - b) \<le> 0"
      using w by (simp_all add: mult_nonneg_nonpos)
    with True e1 e2 show ?thesis by simp
  next
    case False
    then have "w * (b - a) \<le> 0" "0 \<le> (1 - w) * (a - b)"
      using w by (simp_all add: mult_nonneg_nonpos)
    with False e1 e2 show ?thesis by simp
  qed
qed

lemma lerp_0 [simp]: "lerp 0 a b = a" and lerp_1 [simp]: "lerp 1 a b = b"
  by (simp_all add: lerp_def)

text \<open>A chunk whose steps all have \<open>b\<close> lanes of \<open>d\<close> action values.\<close>

definition chunk_ok :: "nat \<Rightarrow> nat \<Rightarrow> actions \<Rightarrow> bool" where
  "chunk_ok b d a \<longleftrightarrow> (\<forall>s \<in> set a. length s = b \<and> (\<forall>v \<in> set s. length v = d))"

lemma chunk_ok_nth: "chunk_ok b d a \<Longrightarrow> t < length a \<Longrightarrow> length (a ! t) = b"
  "chunk_ok b d a \<Longrightarrow> t < length a \<Longrightarrow> i < b \<Longrightarrow> length (a ! t ! i) = d"
  by (simp add: chunk_ok_def) (metis chunk_ok_def nth_mem)

lemma lerp_actions_nth:
  assumes "length x = b" "length y = b" "i < b" "length (x ! i) = d" "length (y ! i) = d" "j < d"
  shows "lerp_actions w x y ! i ! j = lerp w (x ! i ! j) (y ! i ! j)"
  using assms by (simp add: lerp_actions_def)

lemma lerp_actions_0: "length x = length y \<Longrightarrow> \<forall>i < length x. length (x ! i) = length (y ! i) \<Longrightarrow> lerp_actions 0 x y = x"
  unfolding lerp_actions_def by (intro nth_equalityI) (auto intro: nth_equalityI)

lemma interpolate_at_between:
  assumes "0 \<le> p" and "p \<le> of_nat (T - 1)" and "0 < T"
  shows "\<exists>l r w. l \<le> r \<and> r \<le> l + 1 \<and> r < T \<and> 0 \<le> w \<and> w \<le> 1 \<and>
    interpolate_at lrp xs p = lrp w (xs ! l) (xs ! r)"
proof -
  have fl: "0 \<le> \<lfloor>p\<rfloor>" using assms(1) by simp
  have "\<lceil>p\<rceil> \<le> int (T - 1)" using assms(2) by (simp add: ceiling_le_iff)
  moreover have "\<lceil>p\<rceil> \<le> \<lfloor>p\<rfloor> + 1" by linarith
  moreover have "\<lfloor>p\<rfloor> \<le> \<lceil>p\<rceil>" by (rule floor_le_ceiling)
  ultimately have lr: "nat \<lfloor>p\<rfloor> \<le> nat \<lceil>p\<rceil>" "nat \<lceil>p\<rceil> \<le> nat \<lfloor>p\<rfloor> + 1" "nat \<lceil>p\<rceil> < T"
    using fl assms(3) by (auto intro!: nat_mono floor_le_ceiling)
  have "of_nat (nat \<lfloor>p\<rfloor>) = (of_int \<lfloor>p\<rfloor> :: rat)" using fl by simp
  then have w: "0 \<le> p - of_nat (nat \<lfloor>p\<rfloor>)" "p - of_nat (nat \<lfloor>p\<rfloor>) \<le> 1" by linarith+
  have e: "interpolate_at lrp xs p = lrp (p - of_nat (nat \<lfloor>p\<rfloor>)) (xs ! nat \<lfloor>p\<rfloor>) (xs ! nat \<lceil>p\<rceil>)"
    unfolding interpolate_at_def Let_def by (rule refl)
  show ?thesis using lr w e by blast
qed

text \<open>
  Interpolation: the upsampled chunk has factor times as many steps, starts at the first
  and ends at the last commanded action, and every interpolated value lies between the values
  of two neighbouring commanded steps, so interpolation never leaves the commanded range.
\<close>

theorem interpolation_stays_in_range:
  assumes ok: "chunk_ok b d actions" and "actions \<noteq> []" and "2 \<le> factor"
    and result: "interpolate_action_chunk factor actions values = (out, out_values)"
  shows "length out = length actions * factor \<and> out ! 0 = hd actions \<and>
    out ! (length out - 1) = last actions \<and>
    (\<forall>i < length out. \<exists>l r. l \<le> r \<and> r \<le> l + 1 \<and> r < length actions \<and>
       (\<forall>k < b. \<forall>j < d. min (actions ! l ! k ! j) (actions ! r ! k ! j) \<le> out ! i ! k ! j \<and>
          out ! i ! k ! j \<le> max (actions ! l ! k ! j) (actions ! r ! k ! j)))"
proof -
  let ?T = "length actions" and ?n = "length actions * factor"
  let ?pos = "linspace0 (of_nat (?T - 1)) ?n"
  have T: "0 < ?T" using assms(2) by simp
  then have "1 * 2 \<le> ?n" using assms(3) by (intro mult_le_mono) (simp_all add: Suc_leI)
  then have n: "1 < ?n" by simp
  have out: "out = map (\<lambda>i. interpolate_at lerp_actions actions (?pos i)) [0..<?n]"
    using result assms(3) by (auto simp: interpolate_action_chunk_def Let_def)
  have pos: "?pos i = of_nat i * of_nat (?T - 1) / of_nat (?n - 1)" for i
    using n by (simp add: linspace0_def)
  have range: "0 \<le> ?pos i \<and> ?pos i \<le> of_nat (?T - 1)" if "i < ?n" for i
  proof -
    have "(of_nat i :: rat) \<le> of_nat (?n - 1)" using that by simp
    moreover have "(0 :: rat) < of_nat (?n - 1)" using n by simp
    ultimately have "of_nat i * of_nat (?T - 1) \<le> of_nat (?n - 1) * (of_nat (?T - 1) :: rat)"
      by (intro mult_right_mono) auto
    with \<open>(0 :: rat) < of_nat (?n - 1)\<close> show ?thesis
      unfolding pos by (simp add: pos_divide_le_eq mult.commute)
  qed
  have at: "\<exists>l r w. l \<le> r \<and> r \<le> l + 1 \<and> r < ?T \<and> 0 \<le> w \<and> w \<le> 1 \<and>
      interpolate_at lerp_actions actions (?pos i) = lerp_actions w (actions ! l) (actions ! r)"
    if "i < ?n" for i
    using range [OF that] T by (intro interpolate_at_between) auto
  have len: "length out = ?n" by (simp add: out)
  have same: "lerp_actions 0 (actions ! t) (actions ! t) = actions ! t" for t
    by (rule lerp_actions_0) simp_all
  have nth: "out ! i = interpolate_at lerp_actions actions (?pos i)" if "i < ?n" for i
    using that unfolding out by (subst nth_map) auto
  have grid: "interpolate_at lerp_actions actions (of_nat t) = actions ! t" for t
    by (simp add: interpolate_at_def same)
  have "?pos 0 = of_nat 0" unfolding pos by simp
  then have first: "out ! 0 = hd actions"
    using nth [of 0] assms(2,3) grid [of 0] by (simp add: hd_conv_nth)
  have "?pos (?n - 1) = of_nat (?T - 1)" using n unfolding pos by simp
  then have "out ! (?n - 1) = last actions"
    using nth [of "?n - 1"] n grid [of "?T - 1"] assms(2)
    by (simp add: last_conv_nth)
  moreover have "\<exists>l r. l \<le> r \<and> r \<le> l + 1 \<and> r < ?T \<and>
       (\<forall>k < b. \<forall>j < d. min (actions ! l ! k ! j) (actions ! r ! k ! j) \<le> out ! i ! k ! j \<and>
          out ! i ! k ! j \<le> max (actions ! l ! k ! j) (actions ! r ! k ! j))" if i: "i < length out" for i
  proof -
    obtain l r w where lr: "l \<le> r" "r \<le> l + 1" "r < ?T" "0 \<le> w" "w \<le> 1"
      and e: "out ! i = lerp_actions w (actions ! l) (actions ! r)"
      using at [of i] i by (auto simp: out)
    have "out ! i ! k ! j = lerp w (actions ! l ! k ! j) (actions ! r ! k ! j)" if "k < b" "j < d" for k j
      unfolding e using that lr ok
      by (intro lerp_actions_nth [where b = b and d = d]) (auto simp: chunk_ok_nth)
    with lerp_between [OF lr(4,5)] lr(1-3) show ?thesis by (intro exI [of _ l] exI [of _ r]) auto
  qed
  ultimately show ?thesis using len first by auto
qed

theorem interpolation_stays_in_range_witness:
  "length (fst (interpolate_action_chunk 2 sample_actions [[0], [0], [0]])) = 6 \<and>
   fst (interpolate_action_chunk 2 sample_actions [[0], [0], [0]]) ! 5 = [[2]]"
proof -
  have ok: "chunk_ok 1 1 sample_actions" "sample_actions \<noteq> []" "(2 :: nat) \<le> 2"
    by (simp_all add: chunk_ok_def sample_actions_def)
  let ?out = "fst (interpolate_action_chunk 2 sample_actions [[0], [0], [0]])"
  have "length ?out = length sample_actions * 2 \<and> ?out ! (length ?out - 1) = last sample_actions"
    using interpolation_stays_in_range [OF ok prod.collapse [symmetric], of "[[0], [0], [0]]"] by blast
  moreover have "length sample_actions * 2 = 6" "last sample_actions = [[2]]" "(6 :: nat) - 1 = 5"
    by (simp_all add: sample_actions_def)
  ultimately have len: "length ?out = 6" and "?out ! 5 = [[2]]" by metis+
  then show ?thesis by blast
qed

section \<open>Serial smoothing\<close>

lemma smooth_weight_ends: "smooth_weight n 0 = 0" "2 \<le> n \<Longrightarrow> smooth_weight n (n - 1) = 1"
  by (simp_all add: smooth_weight_def linspace0_def Let_def)

lemma smooth_weight_range:
  assumes "i < n" shows "0 \<le> smooth_weight n i \<and> smooth_weight n i \<le> 1"
proof -
  let ?w = "linspace0 1 n i"
  have w: "0 \<le> ?w" "?w \<le> 1" using assms by (auto simp: linspace0_def divide_le_eq)
  have "0 \<le> ?w * ?w * (3 - 2 * ?w)" using w by (intro mult_nonneg_nonneg) auto
  moreover have "1 - ?w * ?w * (3 - 2 * ?w) = (1 - ?w) * (1 - ?w) * (1 + 2 * ?w)"
    by (simp add: algebra_simps)
  then have "?w * ?w * (3 - 2 * ?w) \<le> 1"
    using w by (metis add_nonneg_nonneg diff_ge_0_iff_ge mult_nonneg_nonneg zero_le_numeral zero_le_one)
  ultimately show ?thesis by (simp add: smooth_weight_def Let_def)
qed

text \<open>Serial smoothing: the first action of the smoothed plan continues the previous plan's
  unexecuted tail exactly, the blend ends exactly on the new plan, nothing after the blend and
  no lane that was reset is changed, and in between every value lies between the old and the
  new plan.
\<close>

theorem serial_smoothing_continuous:
  assumes res: "smooth_serial_action_chunks (Some prev) plan n m (Some valid) = Inr out"
    and ok: "chunk_ok b d plan" and m: "2 \<le> m"
    and i: "i < b" and j: "j < d" and t: "t < length plan"
  shows "length out = length plan \<and>
    (valid ! i \<longrightarrow> out ! 0 ! i ! j = prev ! n ! i ! j \<and> out ! (m - 1) ! i ! j = plan ! (m - 1) ! i ! j) \<and>
    (m \<le> t \<or> \<not> valid ! i \<longrightarrow> out ! t ! i = plan ! t ! i) \<and>
    (t < m \<and> valid ! i \<longrightarrow>
       min (prev ! (n + t) ! i ! j) (plan ! t ! i ! j) \<le> out ! t ! i ! j \<and>
       out ! t ! i ! j \<le> max (prev ! (n + t) ! i ! j) (plan ! t ! i ! j))"
proof -
  have fits: "n + m \<le> length plan" and shape: "chunk_shape prev = chunk_shape plan"
    and out: "out = map (\<lambda>t. if t < m
                   then map (\<lambda>b. if valid ! b
                          then map2 (lerp (smooth_weight m t)) (prev ! (n + t) ! b) (plan ! t ! b)
                          else plan ! t ! b) [0..<length (plan ! t)]
                   else plan ! t) [0..<length plan]"
    using res by (auto simp: smooth_serial_action_chunks_def Let_def split: if_splits)
  have lens: "length (prev ! k ! i) = d" if "k < length plan" for k
  proof -
    have "map (map length) prev ! k ! i = map (map length) plan ! k ! i"
      using shape by (simp add: chunk_shape_def)
    moreover have "length prev = length plan" using shape unfolding chunk_shape_def by (rule map_eq_imp_length_eq)
    moreover have "length (prev ! k) = length (plan ! k)"
      using shape that calculation(2) unfolding chunk_shape_def by (metis length_map nth_map)
    ultimately show ?thesis using that i chunk_ok_nth [OF ok that] by simp
  qed
  have at: "out ! k ! i ! j = lerp (smooth_weight m k) (prev ! (n + k) ! i ! j) (plan ! k ! i ! j)"
    if "k < m" "valid ! i" for k
    using that fits i j chunk_ok_nth [OF ok] lens [of "n + k"] by (simp add: out)
  have "out ! 0 ! i ! j = prev ! n ! i ! j" if "valid ! i"
    using at [of 0] that m by (simp add: smooth_weight_ends)
  moreover have "out ! (m - 1) ! i ! j = plan ! (m - 1) ! i ! j" if "valid ! i"
    using at [of "m - 1"] that m unfolding smooth_weight_ends(2) [OF m] lerp_1 by simp
  moreover have "out ! t ! i = plan ! t ! i" if "m \<le> t \<or> \<not> valid ! i"
    using that t i chunk_ok_nth [OF ok t] by (auto simp: out)
  moreover have "min (prev ! (n + t) ! i ! j) (plan ! t ! i ! j) \<le> out ! t ! i ! j \<and>
       out ! t ! i ! j \<le> max (prev ! (n + t) ! i ! j) (plan ! t ! i ! j)" if "t < m" "valid ! i"
    unfolding at [OF that] using smooth_weight_range [OF that(1)] by (intro lerp_between) auto
  ultimately show ?thesis by (simp add: out)
qed

definition prev_plan :: actions where
  "prev_plan = [[[0]], [[10]], [[20]], [[30]]]"

definition next_plan :: actions where
  "next_plan = [[[5]], [[6]], [[7]], [[8]]]"

theorem serial_smoothing_continuous_witness:
  "\<exists>out. smooth_serial_action_chunks (Some prev_plan) next_plan 1 3 (Some [True]) = Inr out \<and>
     out ! 0 ! 0 ! 0 = 10 \<and> out ! 2 ! 0 ! 0 = 7"
proof -
  have "\<not> isl (smooth_serial_action_chunks (Some prev_plan) next_plan 1 3 (Some [True]))" by code_simp
  then obtain out where out: "smooth_serial_action_chunks (Some prev_plan) next_plan 1 3 (Some [True]) = Inr out"
    by (cases "smooth_serial_action_chunks (Some prev_plan) next_plan 1 3 (Some [True])") auto
  have ok: "chunk_ok 1 1 next_plan" by (simp add: chunk_ok_def next_plan_def)
  have "out ! 0 ! 0 ! 0 = prev_plan ! 1 ! 0 ! 0 \<and> out ! (3 - 1) ! 0 ! 0 = next_plan ! (3 - 1) ! 0 ! 0"
    using serial_smoothing_continuous [OF out ok, of 0 0 0] by (simp add: next_plan_def)
  then show ?thesis using out by (simp add: prev_plan_def next_plan_def)
qed

end
