(* ===== verification/Base_Env.thy ===== *)
theory Base_Env
  imports Action_Executor Stateful
begin

text \<open>
  envs/base.py: the vector environment that executes action chunks over a simulator, with
  teleoperation and recording, and the part of teleop/teleop_controller.py it polls.

  The simulator is a record of hooks over its own state \<open>'s\<close> (\<open>env_step\<close>, \<open>env_reset\<close>,
  \<open>finalize_execution_observation\<close> and the reading of a state vector), since it is what
  subclasses provide. \<open>ev_log\<close> is the sequence of calls made on the simulator, the recorder and
  the teleoperation controllers. \<open>ev_script\<close> is what the controllers answer, one entry per poll;
  after the last entry the operator has let go. Contents of \<open>np.empty\<close> and the initial \<open>None\<close>
  entries are the arbitrary values of \<open>uninit\<close>. Timing, latency printing and images are left out.

  Two simplifications concern calls that raise. The calls on the recorder are taken to return: an
  asynchronous recorder whose queue is closed, or a dataset writer out of space, raises out of
  \<open>record_step_result\<close>, and the model has no such branch. And the source merges the results of
  one step into the dictionary of the previous steps in place; the model threads it through
  \<open>ln_merged\<close> and writes \<open>ev_merged\<close> when the step is over, so that a step which raises after
  an operator's action leaves the older results here and a mixture in the source. Either way the
  chunk has failed, and the next reset clears the results.
\<close>

section \<open>Indexing and masks\<close>

definition get_at :: "'a list \<Rightarrow> nat \<Rightarrow> 'a result" where
  "get_at xs i = (if i < length xs then Inr (xs ! i) else Inl IndexError)"

definition gather :: "nat list \<Rightarrow> 'a list \<Rightarrow> 'a list result" where
  "gather ids xs = traverse (get_at xs) ids"

fun scatter :: "nat list \<Rightarrow> 'a list \<Rightarrow> 'a list \<Rightarrow> 'a list result" where
  "scatter [] vals dst = Inr dst"
| "scatter (i # ids) [] dst = Inl IndexError"
| "scatter (i # ids) (v # vals) dst =
     (if i < length dst then scatter ids vals (dst[i := v]) else Inl IndexError)"

definition flatnonzero :: "bool list \<Rightarrow> nat list" where
  "flatnonzero msk = filter (\<lambda>i. msk ! i) [0..<length msk]"

definition m_and :: "bool list \<Rightarrow> bool list \<Rightarrow> bool list" where
  "m_and = map2 (\<and>)"

definition m_or :: "bool list \<Rightarrow> bool list \<Rightarrow> bool list" where
  "m_or = map2 (\<or>)"

definition m_not :: "bool list \<Rightarrow> bool list" where
  "m_not = map Not"

definition m_any :: "bool list \<Rightarrow> bool" where
  "m_any = list_ex id"

definition set_where :: "bool list \<Rightarrow> 'a list \<Rightarrow> 'a list \<Rightarrow> 'a list result" where
  "set_where msk new old =
     (if length msk = length old \<and> length new = length old
      then Inr (map (\<lambda>i. if msk ! i then new ! i else old ! i) [0..<length old])
      else Inl IndexError)"

definition fill_where :: "bool list \<Rightarrow> 'a \<Rightarrow> 'a list \<Rightarrow> 'a list" where
  "fill_where msk v old = map2 (\<lambda>m x. if m then v else x) msk old"

section \<open>Observations and step results\<close>

definition EPISODE_IDENTITY_FIELDS :: "string list" where
  "EPISODE_IDENTITY_FIELDS =
     [''suite_id'', ''eval_episode_id'', ''layout_id'', ''environment_seed'', ''policy_seed'']"

record 'o obs =
  ob_observation :: "'o list"
  ob_task :: "string list"
  ob_task_id :: "int list"
  ob_identity :: "(string \<times> int list) list"

record 'o step_result = "'o obs" +
  sr_reward :: "rat list"
  sr_terminated :: "bool list"
  sr_truncated :: "bool list"
  sr_success :: "bool list"
  sr_score :: "rat list option"

definition identity_of :: "('o, 'z) obs_scheme \<Rightarrow> (string \<times> int list) list" where
  "identity_of r = filter (\<lambda>p. fst p \<in> set EPISODE_IDENTITY_FIELDS) (ob_identity r)"

definition obs_of :: "('o, 'z) obs_scheme \<Rightarrow> 'o obs" where
  "obs_of r = \<lparr>ob_observation = ob_observation r, ob_task = ob_task r, ob_task_id = ob_task_id r,
               ob_identity = identity_of r\<rparr>"

record 'o frame =
  fr_observation :: 'o
  fr_action :: vec
  fr_task :: string
  fr_reward :: rat
  fr_terminated :: bool
  fr_truncated :: bool
  fr_success :: bool
  fr_intervention :: bool
  fr_critic :: rat

datatype 'o event =
    Step "nat list" | Ended "nat list" | SimReset "nat list" bool | SimClose
  | Frame nat "'o frame" | Save nat | Clear nat | Flush | SetMode string bool | Finalize
  | Publish nat | TeleopReset | Confirm nat | TeleopClose

record 'o uninit =
  un_obs :: 'o
  un_task :: string
  un_int :: int
  un_num :: rat
  un_bool :: bool

record 'o env_config =
  ec_num_envs :: nat
  ec_auto_reset :: bool
  ec_teleop :: bool
  ec_confirm :: bool
  ec_uninit :: "'o uninit"

record ('o, 's) hooks =
  hk_step :: "vec list \<Rightarrow> nat list \<Rightarrow> ('s, 'o step_result) stm"
  hk_reset :: "nat list \<Rightarrow> bool \<Rightarrow> ('s, 'o obs) stm"
  hk_finalize :: "'o step_result \<Rightarrow> nat list \<Rightarrow> ('s, 'o step_result) stm"
  hk_state :: "'o \<Rightarrow> vec"

section \<open>Teleoperation controllers\<close>

record device_answer =
  da_intervening :: bool
  da_apply :: "vec \<Rightarrow> vec"
  da_reward :: bool
  da_restart :: bool
  da_stop :: bool

type_synonym teleop_round = "device_answer list list"

definition controller_is_intervening :: "device_answer list \<Rightarrow> bool" where
  "controller_is_intervening ds = list_ex da_intervening ds"

definition controller_apply_action ::
  "device_answer list \<Rightarrow> vec \<Rightarrow> vec \<times> bool \<times> bool \<times> bool" where
  "controller_apply_action ds a =
     (fold (\<lambda>d x. if da_intervening d then da_apply d x else x) ds a,
      list_ex da_reward ds, list_ex da_restart ds, list_ex da_stop ds)"

record answers =
  an_action :: "vec list"
  an_mask :: "bool list"
  an_reward :: "bool list"
  an_restart :: "bool list"
  an_stop :: "bool list"

definition devices_at :: "teleop_round \<Rightarrow> nat \<Rightarrow> device_answer list" where
  "devices_at r i = (if i < length r then r ! i else [])"

definition apply_teleop_action :: "nat \<Rightarrow> teleop_round \<Rightarrow> vec list \<Rightarrow> answers result" where
  "apply_teleop_action n r action =
     (if length action < n then Inl IndexError
      else
        let reply = (\<lambda>i. controller_apply_action (devices_at r i) (action ! i));
            busy = (\<lambda>i. i < n \<and> controller_is_intervening (devices_at r i))
        in Inr \<lparr>an_action = map (\<lambda>i. if busy i then fst (reply i) else action ! i) [0..<length action],
                an_mask = map busy [0..<n],
                an_reward = map (\<lambda>i. fst (snd (reply i))) [0..<n],
                an_restart = map (\<lambda>i. fst (snd (snd (reply i)))) [0..<n],
                an_stop = map (\<lambda>i. snd (snd (snd (reply i)))) [0..<n]\<rparr>)"

section \<open>The state of the environment\<close>

record ('o, 's) env_state =
  ev_sim :: 's
  ev_latest_obs :: "'o obs option"
  ev_recorder :: bool
  ev_recorder_done :: "bool list"
  ev_chunk_intervened :: "bool list"
  ev_merged :: "'o step_result option"
  ev_restart :: "bool list"
  ev_done :: "bool list"
  ev_script :: "teleop_round list"
  ev_log :: "'o event list"

definition new_env :: "'o env_config \<Rightarrow> bool \<Rightarrow> 's \<Rightarrow> teleop_round list \<Rightarrow> ('o, 's) env_state" where
  "new_env cfg recorder sim script =
     \<lparr>ev_sim = sim, ev_latest_obs = None, ev_recorder = recorder,
      ev_recorder_done = replicate (ec_num_envs cfg) False,
      ev_chunk_intervened = replicate (ec_num_envs cfg) False, ev_merged = None,
      ev_restart = replicate (ec_num_envs cfg) False, ev_done = replicate (ec_num_envs cfg) False,
      ev_script = script, ev_log = []\<rparr>"

definition emit :: "'o event list \<Rightarrow> ('o, 's) env_state \<Rightarrow> ('o, 's) env_state" where
  "emit es s = s\<lparr>ev_log := ev_log s @ es\<rparr>"

definition call_sim :: "('s, 'a) stm \<Rightarrow> (('o, 's) env_state, 'a) stm" where
  "call_sim m s = (case m (ev_sim s) of (r, sim) \<Rightarrow> (r, s\<lparr>ev_sim := sim\<rparr>))"

section \<open>Manual overrides\<close>

fun override_loop ::
  "(nat \<Rightarrow> bool) \<Rightarrow> (nat \<Rightarrow> nat \<Rightarrow> 'o step_result \<Rightarrow> 'o step_result) \<Rightarrow> nat \<Rightarrow> nat \<Rightarrow> nat list \<Rightarrow> 'o step_result \<Rightarrow>
   'o step_result result" where
  "override_loop hit change n k [] r = Inr r"
| "override_loop hit change n k (i # ids) r =
     (if n \<le> i then Inl IndexError
      else if \<not> hit i then override_loop hit change n (Suc k) ids r
      else if k < length (sr_reward r) \<and> k < length (sr_success r) \<and>
              k < length (sr_terminated r) \<and> k < length (sr_truncated r)
        then override_loop hit change n (Suc k) ids (change k i r)
      else Inl IndexError)"

definition override_row :: "rat \<Rightarrow> bool \<Rightarrow> nat \<Rightarrow> 'o step_result \<Rightarrow> 'o step_result" where
  "override_row reward success k r =
     r\<lparr>sr_reward := (sr_reward r)[k := reward],
       sr_success := (sr_success r)[k := success],
       sr_terminated := (sr_terminated r)[k := success],
       sr_truncated := (sr_truncated r)[k := \<not> success]\<rparr>"

definition apply_manual_step_overrides ::
  "'o step_result \<Rightarrow> nat list \<Rightarrow> rat list option \<Rightarrow> bool list option \<Rightarrow> 'o step_result result" where
  "apply_manual_step_overrides r ids manual_reward force_truncated =
     bind_res
       (case manual_reward of
          None \<Rightarrow> Inr r
        | Some m \<Rightarrow> override_loop (\<lambda>i. 0 < m ! i) (\<lambda>k i. override_row (m ! i) True k) (length m) 0 ids r)
       (\<lambda>r1. case force_truncated of
          None \<Rightarrow> Inr r1
        | Some f \<Rightarrow> override_loop (\<lambda>i. f ! i) (\<lambda>k i. override_row 0 False k) (length f) 0 ids r1)"

section \<open>Merging results and observations\<close>

fun merge_identity ::
  "nat list \<Rightarrow> int list \<Rightarrow> (string \<times> int list) list \<Rightarrow> (string \<times> int list) list \<Rightarrow>
   (string \<times> int list) list result" where
  "merge_identity ids fresh [] dst = Inr dst"
| "merge_identity ids fresh ((f, vals) # src) dst =
     bind_res (scatter ids vals (case map_of dst f of None \<Rightarrow> fresh | Some c \<Rightarrow> c))
       (\<lambda>c. merge_identity ids fresh src (AList.update f c dst))"

fun update_identity ::
  "nat list \<Rightarrow> (string \<times> int list) list \<Rightarrow> (string \<times> int list) list \<Rightarrow> (string \<times> int list) list result" where
  "update_identity ids [] dst = Inr dst"
| "update_identity ids ((f, vals) # src) dst =
     (case map_of dst f of
        None \<Rightarrow> update_identity ids src dst
      | Some c \<Rightarrow> bind_res (scatter ids vals c) (\<lambda>c'. update_identity ids src (AList.update f c' dst)))"

definition empty_result :: "'o env_config \<Rightarrow> 'o step_result" where
  "empty_result cfg =
     (let n = ec_num_envs cfg; u = ec_uninit cfg in
      \<lparr>ob_observation = replicate n (un_obs u), ob_task = replicate n (un_task u),
       ob_task_id = replicate n (un_int u), ob_identity = [],
       sr_reward = replicate n (un_num u), sr_terminated = replicate n (un_bool u),
       sr_truncated = replicate n (un_bool u), sr_success = replicate n (un_bool u), sr_score = None\<rparr>)"

definition merge_scores ::
  "'o env_config \<Rightarrow> nat list \<Rightarrow> rat list option \<Rightarrow> rat list option \<Rightarrow> rat list option result" where
  "merge_scores cfg ids scores current =
     (case scores of
        None \<Rightarrow> Inr current
      | Some sc \<Rightarrow>
          bind_res (scatter ids sc (case current of
              None \<Rightarrow> replicate (ec_num_envs cfg) (un_num (ec_uninit cfg)) | Some c \<Rightarrow> c))
            (\<lambda>c. Inr (Some c)))"

definition update_step_result ::
  "'o env_config \<Rightarrow> 'o step_result option \<Rightarrow> nat list \<Rightarrow> 'o step_result \<Rightarrow> 'o step_result result" where
  "update_step_result cfg merged ids r =
     (let m = (case merged of None \<Rightarrow> empty_result cfg | Some m \<Rightarrow> m);
          fresh = replicate (ec_num_envs cfg) (un_int (ec_uninit cfg))
      in bind_res (scatter ids (ob_observation r) (ob_observation m)) (\<lambda>observation.
         bind_res (scatter ids (ob_task r) (ob_task m)) (\<lambda>task.
         bind_res (scatter ids (ob_task_id r) (ob_task_id m)) (\<lambda>task_id.
         bind_res (scatter ids (sr_reward r) (sr_reward m)) (\<lambda>reward.
         bind_res (scatter ids (sr_terminated r) (sr_terminated m)) (\<lambda>terminated.
         bind_res (scatter ids (sr_truncated r) (sr_truncated m)) (\<lambda>truncated.
         bind_res (scatter ids (sr_success r) (sr_success m)) (\<lambda>success.
         bind_res (merge_scores cfg ids (sr_score r) (sr_score m)) (\<lambda>score.
         bind_res (merge_identity ids fresh (identity_of r) (ob_identity m)) (\<lambda>identity.
           Inr \<lparr>ob_observation = observation, ob_task = task, ob_task_id = task_id,
                ob_identity = identity, sr_reward = reward, sr_terminated = terminated,
                sr_truncated = truncated, sr_success = success, sr_score = score\<rparr>))))))))))"

definition update_obs :: "nat list \<Rightarrow> ('o, 'y) obs_scheme \<Rightarrow> ('o, 'z) obs_scheme \<Rightarrow> ('o, 'z) obs_scheme result" where
  "update_obs ids src dst =
     bind_res (scatter ids (ob_observation src) (ob_observation dst)) (\<lambda>observation.
     bind_res (scatter ids (ob_task src) (ob_task dst)) (\<lambda>task.
     bind_res (scatter ids (ob_task_id src) (ob_task_id dst)) (\<lambda>task_id.
     bind_res (update_identity ids (identity_of src) (ob_identity dst)) (\<lambda>identity.
       Inr (dst\<lparr>ob_observation := observation, ob_task := task, ob_task_id := task_id,
               ob_identity := identity\<rparr>)))))"

definition update_latest_obs :: "nat list \<Rightarrow> 'o step_result \<Rightarrow> (('o, 's) env_state, unit) stm" where
  "update_latest_obs ids r s =
     (case ev_latest_obs s of
        None \<Rightarrow> if ids = [] then (Inr (), s) else (Inl TypeError, s)
      | Some latest \<Rightarrow>
          (case update_obs ids r latest of
             Inl e \<Rightarrow> (Inl e, s)
           | Inr latest' \<Rightarrow> (Inr (), s\<lparr>ev_latest_obs := Some latest'\<rparr>)))"

definition slice_latest_obs :: "nat list \<Rightarrow> ('o, 's) env_state \<Rightarrow> 'o obs result" where
  "slice_latest_obs ids s =
     (case ev_latest_obs s of
        None \<Rightarrow> if ids = [] then Inr \<lparr>ob_observation = [], ob_task = [], ob_task_id = [], ob_identity = []\<rparr>
               else Inl TypeError
      | Some latest \<Rightarrow>
          bind_res (gather ids (ob_observation latest)) (\<lambda>observation.
          bind_res (gather ids (ob_task latest)) (\<lambda>task.
          bind_res (gather ids (ob_task_id latest)) (\<lambda>task_id.
          bind_res (traverse (\<lambda>(f, vals). bind_res (gather ids vals) (\<lambda>c. Inr (f, c))) (identity_of latest))
            (\<lambda>identity. Inr \<lparr>ob_observation = observation, ob_task = task, ob_task_id = task_id,
                                ob_identity = identity\<rparr>)))))"

section \<open>Recording\<close>

definition frame_at ::
  "'o obs \<Rightarrow> 'o step_result \<Rightarrow> vec list \<Rightarrow> bool list \<Rightarrow> rat list \<Rightarrow> nat \<Rightarrow> nat \<Rightarrow> 'o frame result" where
  "frame_at source r acts is_intervention critic k i =
     bind_res (get_at (sr_terminated r) k) (\<lambda>terminated.
     bind_res (get_at (sr_truncated r) k) (\<lambda>truncated.
     bind_res (get_at (ob_observation source) k) (\<lambda>observation.
     bind_res (get_at acts k) (\<lambda>action.
     bind_res (get_at (ob_task source) k) (\<lambda>task.
     bind_res (get_at (sr_reward r) k) (\<lambda>reward.
     bind_res (get_at (sr_success r) k) (\<lambda>success.
     bind_res (get_at is_intervention i) (\<lambda>intervention.
     bind_res (get_at critic k) (\<lambda>value.
       Inr \<lparr>fr_observation = observation, fr_action = action, fr_task = task, fr_reward = reward,
            fr_terminated = terminated, fr_truncated = truncated, fr_success = success,
            fr_intervention = intervention, fr_critic = value\<rparr>)))))))))"

definition record_frame :: "nat \<Rightarrow> 'o frame \<Rightarrow> ('o, 's) env_state \<Rightarrow> ('o, 's) env_state" where
  "record_frame i f s =
     (if fr_terminated f \<or> fr_truncated f
      then (emit [Frame i f, Save i] s)\<lparr>ev_recorder_done := (ev_recorder_done s)[i := True]\<rparr>
      else emit [Frame i f] s)"

fun record_loop ::
  "(nat \<Rightarrow> nat \<Rightarrow> 'o frame result) \<Rightarrow> nat \<Rightarrow> nat list \<Rightarrow> (('o, 's) env_state, unit) stm" where
  "record_loop frame k [] s = (Inr (), s)"
| "record_loop frame k (i # ids) s =
     (if length (ev_recorder_done s) \<le> i then (Inl IndexError, s)
      else if ev_recorder_done s ! i then record_loop frame (Suc k) ids s
      else case frame k i of
        Inl e \<Rightarrow> (Inl e, s)
      | Inr f \<Rightarrow> record_loop frame (Suc k) ids (record_frame i f s))"

definition record_step_result ::
  "'o step_result \<Rightarrow> vec list \<Rightarrow> nat list \<Rightarrow> bool list \<Rightarrow> rat list \<Rightarrow> (('o, 's) env_state, unit) stm" where
  "record_step_result r acts ids is_intervention critic s =
     (if \<not> ev_recorder s then (Inr (), s)
      else case slice_latest_obs ids s of
        Inl e \<Rightarrow> (Inl e, s)
      | Inr source \<Rightarrow> record_loop (frame_at source r acts is_intervention critic) 0 ids s)"

fun reset_recorder_envs :: "nat list \<Rightarrow> (('o, 's) env_state, unit) stm" where
  "reset_recorder_envs [] s = (Inr (), s)"
| "reset_recorder_envs (i # ids) s =
     (if \<not> ev_recorder s then (Inr (), s)
      else if length (ev_recorder_done s) \<le> i then (Inl IndexError, s)
      else reset_recorder_envs ids
             ((emit [Clear i] s)\<lparr>ev_recorder_done := (ev_recorder_done s)[i := False]\<rparr>))"

definition save_open :: "nat \<Rightarrow> ('o, 's) env_state \<Rightarrow> ('o, 's) env_state" where
  "save_open i s =
     (if ev_recorder_done s ! i then s
      else (emit [Save i] s)\<lparr>ev_recorder_done := (ev_recorder_done s)[i := True]\<rparr>)"

definition finish_rollout :: "'o env_config \<Rightarrow> ('o, 's) env_state \<Rightarrow> ('o, 's) env_state" where
  "finish_rollout cfg s =
     (if ec_auto_reset cfg \<or> \<not> ev_recorder s then s
      else emit [Flush] (fold save_open [0..<ec_num_envs cfg] s))"

text \<open>\<open>completed\<close> is what \<open>recorder.pop_completed()\<close> answers.\<close>

definition close_recorder :: "bool \<Rightarrow> ('o, 's) env_state \<Rightarrow> ('o, 's) env_state" where
  "close_recorder completed s =
     (if \<not> ev_recorder s then s
      else (if completed then s else emit [Finalize] s)\<lparr>ev_recorder := False\<rparr>)"

definition close_env :: "'o env_config \<Rightarrow> bool \<Rightarrow> ('o, 's) env_state \<Rightarrow> ('o, 's) env_state" where
  "close_env cfg completed s =
     emit ((if ec_teleop cfg then [TeleopClose] else []) @ [SimClose]) (close_recorder completed s)"

section \<open>One masked step\<close>

definition ended_ids :: "nat list \<Rightarrow> 'o step_result \<Rightarrow> nat list" where
  "ended_ids ids r =
     map fst (filter (\<lambda>(i, t, u). t \<or> u) (zip ids (zip (sr_terminated r) (sr_truncated r))))"

definition mask_step ::
  "'o env_config \<Rightarrow> ('o, 's) hooks \<Rightarrow> vec list \<Rightarrow> bool list \<Rightarrow> bool list \<Rightarrow> rat list \<Rightarrow>
   rat list option \<Rightarrow> bool list option \<Rightarrow> (('o, 's) env_state, 'o step_result) stm" where
  "mask_step cfg hk action execute_mask is_intervention critic manual_reward force_truncated =
     (let ids = flatnonzero execute_mask in
      bnd (lift_res (gather ids action)) (\<lambda>acts.
      bnd (upd (emit [Step ids])) (\<lambda>_.
      bnd (call_sim (hk_step hk acts ids)) (\<lambda>r0.
      bnd (lift_res (apply_manual_step_overrides r0 ids manual_reward force_truncated)) (\<lambda>r.
      bnd (upd (emit [Ended (ended_ids ids r)])) (\<lambda>_.
      bnd (lift_res (gather ids critic)) (\<lambda>value.
      bnd (upd (emit (if ec_teleop cfg then map Publish ids else []))) (\<lambda>_.
      bnd (record_step_result r acts ids is_intervention value) (\<lambda>_.
      bnd (update_latest_obs ids r) (\<lambda>_.
      lift_res (Inr r)))))))))))"

section \<open>A low-level step with teleoperation\<close>

record 'o lanes =
  ln_action :: "vec list"
  ln_intervened :: "bool list"
  ln_done :: "bool list"
  ln_manual :: "rat list"
  ln_forced :: "bool list"
  ln_restart :: "bool list"
  ln_chunk :: "bool list"
  ln_merged :: "'o step_result option"

definition note_controls :: "answers \<Rightarrow> 'o lanes \<Rightarrow> 'o lanes" where
  "note_controls a L =
     (let live = m_not (ln_done L) in
      L\<lparr>ln_manual := fill_where (m_and (an_reward a) live) 1 (ln_manual L),
        ln_restart := m_or (ln_restart L) (m_and (an_restart a) live),
        ln_forced := m_or (ln_forced L) (m_and (an_stop a) live)\<rparr>)"

definition execute_lanes ::
  "'o env_config \<Rightarrow> ('o, 's) hooks \<Rightarrow> rat list \<Rightarrow> bool list \<Rightarrow> bool list \<Rightarrow> 'o lanes \<Rightarrow>
   (('o, 's) env_state, 'o step_result \<times> 'o lanes) stm" where
  "execute_lanes cfg hk critic execute_mask is_intervention L =
     bnd (mask_step cfg hk (ln_action L) execute_mask is_intervention critic
            (Some (ln_manual L)) (Some (ln_forced L)))
       (\<lambda>r. bnd (lift_res (update_step_result cfg (ln_merged L) (flatnonzero execute_mask) r))
         (\<lambda>m. lift_res (Inr (r, L\<lparr>ln_merged := Some m\<rparr>))))"

definition mark_done :: "nat list \<Rightarrow> 'o step_result \<Rightarrow> bool list \<Rightarrow> bool list result" where
  "mark_done ids r finished =
     (if length (sr_terminated r) = length ids \<and> length (sr_truncated r) = length ids
      then Inr (map (\<lambda>i. finished ! i \<or> i \<in> set (ended_ids ids r)) [0..<length finished])
      else Inl ValueError)"

definition take_over :: "answers \<Rightarrow> bool list \<Rightarrow> 'o lanes \<Rightarrow> 'o lanes result" where
  "take_over a busy L =
     (let active = m_and busy (m_not (ln_done L)) in
      bind_res (set_where active (an_action a) (ln_action L)) (\<lambda>action.
        Inr (L\<lparr>ln_action := action, ln_intervened := m_or (ln_intervened L) active,
               ln_chunk := m_or (ln_chunk L) active\<rparr>)))"

definition serve_busy ::
  "'o env_config \<Rightarrow> ('o, 's) hooks \<Rightarrow> rat list \<Rightarrow> bool list \<Rightarrow> 'o lanes \<Rightarrow> (('o, 's) env_state, 'o lanes) stm" where
  "serve_busy cfg hk critic busy L =
     (let need = m_and (ln_intervened L) busy in
      if m_any need
      then bnd (execute_lanes cfg hk critic need busy L)
             (\<lambda>(r, L2). bnd (lift_res (mark_done (flatnonzero need) r (ln_done L2)))
               (\<lambda>d. lift_res (Inr (L2\<lparr>ln_done := d\<rparr>))))
      else lift_res (Inr L))"

definition teleop_poll ::
  "'o env_config \<Rightarrow> ('o, 's) hooks \<Rightarrow> rat list \<Rightarrow> teleop_round \<Rightarrow> 'o lanes \<Rightarrow>
   (('o, 's) env_state, 'o lanes \<times> bool) stm" where
  "teleop_poll cfg hk critic r L =
     bnd (lift_res (apply_teleop_action (ec_num_envs cfg) r (ln_action L))) (\<lambda>a.
       let L1 = note_controls a L; busy = m_and (an_mask a) (m_not (ln_done L1)) in
       if \<not> m_any busy then lift_res (Inr (L1, False))
       else bnd (serve_busy cfg hk critic busy L1)
              (\<lambda>L2. bnd (lift_res (take_over a busy L2)) (\<lambda>L3. lift_res (Inr (L3, True)))))"

fun teleop_loop ::
  "'o env_config \<Rightarrow> ('o, 's) hooks \<Rightarrow> rat list \<Rightarrow> teleop_round list \<Rightarrow> 'o lanes \<Rightarrow>
   (('o, 's) env_state, 'o lanes \<times> teleop_round list) stm" where
  "teleop_loop cfg hk critic [] L = lift_res (Inr (L, []))"
| "teleop_loop cfg hk critic (r # rs) L =
     bnd (teleop_poll cfg hk critic r L)
       (\<lambda>(L', again). if again then teleop_loop cfg hk critic rs L' else lift_res (Inr (L', rs)))"

definition start_lanes ::
  "'o env_config \<Rightarrow> vec list \<Rightarrow> ('o, 's) env_state \<Rightarrow> 'o lanes" where
  "start_lanes cfg action s =
     (let none = replicate (ec_num_envs cfg) False in
      \<lparr>ln_action = action, ln_intervened = none, ln_done = ev_done s,
       ln_manual = replicate (ec_num_envs cfg) 0, ln_forced = none, ln_restart = none,
       ln_chunk = ev_chunk_intervened s, ln_merged = ev_merged s\<rparr>)"

definition policy_mask :: "bool list \<Rightarrow> 'o lanes \<Rightarrow> bool list" where
  "policy_mask chunk_before L =
     m_and (m_not (ln_done L)) (m_or (m_not chunk_before) (ln_intervened L))"

definition step_with_teleop_and_recording ::
  "'o env_config \<Rightarrow> ('o, 's) hooks \<Rightarrow> vec list \<Rightarrow> rat list \<Rightarrow> (('o, 's) env_state, 'o lanes) stm" where
  "step_with_teleop_and_recording cfg hk action critic = reading (\<lambda>s.
     bnd (teleop_loop cfg hk critic (if ec_teleop cfg then ev_script s else []) (start_lanes cfg action s))
       (\<lambda>(L, rest).
          bnd (upd (\<lambda>t. if ec_teleop cfg then t\<lparr>ev_script := rest\<rparr> else t)) (\<lambda>_.
          let execute_mask = policy_mask (ev_chunk_intervened s) L in
          if m_any execute_mask
          then bnd (execute_lanes cfg hk critic execute_mask (ln_intervened L) L)
                 (\<lambda>(_, L'). lift_res (Inr L'))
          else lift_res (Inr L))))"

section \<open>Executing a chunk\<close>

record feedback =
  fb_reward :: "rat list"
  fb_terminated :: "bool list"
  fb_truncated :: "bool list"
  fb_success :: "bool list"
  fb_score :: "rat list option"

definition feedback_of :: "bool list \<Rightarrow> 'o step_result \<Rightarrow> feedback" where
  "feedback_of done_before m =
     \<lparr>fb_reward = fill_where done_before 0 (sr_reward m),
      fb_terminated = fill_where done_before False (sr_terminated m),
      fb_truncated = fill_where done_before False (sr_truncated m),
      fb_success = fill_where done_before False (sr_success m),
      fb_score = map_option (fill_where done_before 0) (sr_score m)\<rparr>"

definition execute_action_step ::
  "'o env_config \<Rightarrow> ('o, 's) hooks \<Rightarrow> vec list \<Rightarrow> rat list \<Rightarrow> bool \<Rightarrow> (('o, 's) env_state, feedback) stm" where
  "execute_action_step cfg hk action critic chunk_started = reading (\<lambda>s.
     bnd (upd (\<lambda>t. if chunk_started
                   then t\<lparr>ev_chunk_intervened := replicate (ec_num_envs cfg) False\<rparr> else t)) (\<lambda>_.
     bnd (step_with_teleop_and_recording cfg hk action critic) (\<lambda>L.
     bnd (upd (\<lambda>t. t\<lparr>ev_merged := ln_merged L, ev_chunk_intervened := ln_chunk L,
                     ev_restart := m_or (ev_restart t) (ln_restart L)\<rparr>)) (\<lambda>_.
     case ln_merged L of
       None \<Rightarrow> lift_res (Inl TypeError)
     | Some m \<Rightarrow>
         bnd (upd (\<lambda>t. t\<lparr>ev_done := m_or (m_or (ev_done t) (sr_terminated m)) (sr_truncated m)\<rparr>)) (\<lambda>_.
         lift_res (Inr (feedback_of (ev_done s) m)))))))"

definition confirm_before_record :: "'o env_config \<Rightarrow> nat list \<Rightarrow> ('o, 's) env_state \<Rightarrow> ('o, 's) env_state" where
  "confirm_before_record cfg ids =
     emit (if ec_confirm cfg \<and> ec_teleop cfg then map Confirm ids else [])"

definition publish_reset_obs_to_teleop ::
  "'o env_config \<Rightarrow> nat list \<Rightarrow> ('o, 's) env_state \<Rightarrow> ('o, 's) env_state" where
  "publish_reset_obs_to_teleop cfg ids = emit (if ec_teleop cfg then map Publish ids else [])"

definition reset_done_envs ::
  "'o env_config \<Rightarrow> ('o, 's) hooks \<Rightarrow> 'o step_result \<Rightarrow> bool list \<Rightarrow> (('o, 's) env_state, 'o step_result) stm" where
  "reset_done_envs cfg hk r done_mask =
     (let ids = flatnonzero done_mask in
      if \<not> ec_auto_reset cfg \<or> ids = [] then lift_res (Inr r)
      else
        bnd (upd (emit [SimReset ids False])) (\<lambda>_.
        bnd (call_sim (hk_reset hk ids False)) (\<lambda>reset_obs.
        bnd (lift_res (update_obs ids reset_obs r)) (\<lambda>r'.
        bnd (reset_recorder_envs ids) (\<lambda>_.
        bnd (upd (\<lambda>t. confirm_before_record cfg ids (publish_reset_obs_to_teleop cfg ids t))) (\<lambda>_.
        lift_res (Inr r')))))))"

record 'o chunk_result =
  cr_obs :: "'o obs"
  cr_reward :: "rat list list"
  cr_terminated :: "bool list list"
  cr_truncated :: "bool list list"
  cr_success :: "bool list list"
  cr_score :: "rat list list option"

definition stack_steps :: "nat \<Rightarrow> 'a list list \<Rightarrow> 'a list list" where
  "stack_steps n steps = map (\<lambda>i. map (\<lambda>xs. xs ! i) steps) [0..<n]"

definition stack_scores :: "nat \<Rightarrow> feedback list \<Rightarrow> rat list list option result" where
  "stack_scores n steps =
     (case steps of
        [] \<Rightarrow> Inr None
      | f # _ \<Rightarrow>
          (case fb_score f of
             None \<Rightarrow> Inr None
           | Some _ \<Rightarrow>
               if list_all (\<lambda>g. fb_score g \<noteq> None) steps
               then Inr (Some (stack_steps n (map (\<lambda>g. the (fb_score g)) steps)))
               else Inl KeyError))"

definition finish_execution_slice ::
  "'o env_config \<Rightarrow> ('o, 's) hooks \<Rightarrow> feedback list \<Rightarrow>
   (('o, 's) env_state, 'o chunk_result \<times> bool list) stm" where
  "finish_execution_slice cfg hk steps = reading (\<lambda>s.
     (let n = ec_num_envs cfg;
          done_mask = map (\<lambda>i. list_ex (\<lambda>f. fb_terminated f ! i \<or> fb_truncated f ! i) steps) [0..<n];
          reset_mask = m_or done_mask (ev_restart s)
      in if steps = [] then lift_res (Inl RuntimeError)
         else
           bnd (lift_res (stack_scores n steps)) (\<lambda>score_steps.
           case ev_merged s of
             None \<Rightarrow> lift_res (Inl TypeError)
           | Some m0 \<Rightarrow>
               bnd (call_sim (hk_finalize hk m0 [0..<n])) (\<lambda>m.
               bnd (upd (\<lambda>t. t\<lparr>ev_merged := Some m\<rparr>)) (\<lambda>_.
               bnd (reset_done_envs cfg hk m reset_mask) (\<lambda>r.
               bnd (upd (\<lambda>t. t\<lparr>ev_merged := Some r, ev_latest_obs := Some (obs_of r),
                               ev_restart := replicate n False,
                               ev_done := (if ec_auto_reset cfg then replicate n False else ev_done t)\<rparr>)) (\<lambda>_.
               lift_res (Inr (\<lparr>cr_obs = obs_of r,
                     cr_reward = stack_steps n (map fb_reward steps),
                     cr_terminated = stack_steps n (map fb_terminated steps),
                     cr_truncated = stack_steps n (map fb_truncated steps),
                     cr_success = stack_steps n (map fb_success steps),
                     cr_score = score_steps\<rparr>,
                   if ec_auto_reset cfg then reset_mask else replicate n False)))))))))"

definition no_feedback :: "'o obs \<Rightarrow> nat \<times> nat \<Rightarrow> 'o chunk_result" where
  "no_feedback obs shape =
     (let none = replicate (fst shape) (replicate (snd shape) False) in
      \<lparr>cr_obs = obs, cr_reward = replicate (fst shape) (replicate (snd shape) 0),
       cr_terminated = none, cr_truncated = none, cr_success = none, cr_score = None\<rparr>)"

definition async_execution_result ::
  "'o env_config \<Rightarrow> ('o, 's) hooks \<Rightarrow> nat \<times> nat \<Rightarrow> (('o, 's) env_state, 'o chunk_result \<times> bool list) stm" where
  "async_execution_result cfg hk shape = reading (\<lambda>s.
     (let n = ec_num_envs cfg; reset_mask = m_or (ev_done s) (ev_restart s) in
      case ev_merged s of
        None \<Rightarrow> lift_res (Inl TypeError)
      | Some m \<Rightarrow>
          bnd (reset_done_envs cfg hk m reset_mask) (\<lambda>r.
          bnd (upd (\<lambda>t. t\<lparr>ev_merged := Some r, ev_latest_obs := Some (obs_of r),
                          ev_restart := replicate n False,
                          ev_done := (if ec_auto_reset cfg then replicate n False else ev_done t)\<rparr>)) (\<lambda>_.
          lift_res (Inr (no_feedback (obs_of r) shape,
                         if ec_auto_reset cfg then reset_mask else replicate n False))))))"

section \<open>The public interface\<close>

datatype chunk_values = NoValues | PerEnv "rat list" | PerStep "rat list list"

definition broadcast_row :: "rat list \<Rightarrow> nat \<Rightarrow> rat list result" where
  "broadcast_row v b =
     (if length v = b then Inr v
      else if length v = 1 then Inr (replicate b (hd v)) else Inl ValueError)"

fun chunk_values_of :: "actions \<Rightarrow> chunk_values \<Rightarrow> action_values result" where
  "chunk_values_of actions NoValues = Inr (map (\<lambda>a. replicate (length a) 0) actions)"
| "chunk_values_of actions (PerEnv v) = traverse (\<lambda>a. broadcast_row v (length a)) actions"
| "chunk_values_of actions (PerStep v) = Inr v"

definition step_chunk ::
  "'o env_config \<Rightarrow> ('o, 's) hooks \<Rightarrow> actions \<Rightarrow> chunk_values \<Rightarrow> serial_executor \<Rightarrow> ('o, 's) env_state \<Rightarrow>
   'o chunk_result result \<times> serial_executor \<times> ('o, 's) env_state" where
  "step_chunk cfg hk actions values se s =
     (case chunk_values_of actions values of
        Inl e \<Rightarrow> (Inl e, se, s)
      | Inr v \<Rightarrow> serial_exchange (execute_action_step cfg hk) (finish_execution_slice cfg hk) actions v se s)"

record reset_options =
  ro_env_idx :: "nat list option"
  ro_reset_eval :: bool
  ro_mode :: string

definition reset_env_ids :: "'o env_config \<Rightarrow> reset_options \<Rightarrow> nat list" where
  "reset_env_ids cfg opts =
     (case ro_env_idx opts of
        None \<Rightarrow> [0..<ec_num_envs cfg]
      | Some ids \<Rightarrow> if ro_reset_eval opts then [0..<ec_num_envs cfg] else ids)"

text \<open>\<open>mode_changed\<close> is what \<open>recorder.set_mode(mode)\<close> answers.\<close>

definition reset_flags :: "'o env_config \<Rightarrow> bool \<Rightarrow> string \<Rightarrow> ('o, 's) env_state \<Rightarrow> ('o, 's) env_state" where
  "reset_flags cfg mode_changed mode s =
     (let none = replicate (ec_num_envs cfg) False;
          s1 = s\<lparr>ev_merged := None, ev_restart := none, ev_done := none\<rparr>
      in if \<not> ev_recorder s then s1
         else (emit [SetMode mode mode_changed] s1)
                \<lparr>ev_recorder_done := (if mode_changed then none else ev_recorder_done s)\<rparr>)"

definition reset_env ::
  "'o env_config \<Rightarrow> ('o, 's) hooks \<Rightarrow> bool \<Rightarrow> reset_options \<Rightarrow> (('o, 's) env_state, 'o obs) stm" where
  "reset_env cfg hk mode_changed opts =
     bnd (upd (reset_flags cfg mode_changed (ro_mode opts))) (\<lambda>_. reading (\<lambda>s.
       case (if ec_auto_reset cfg \<and> \<not> ro_reset_eval opts then ev_latest_obs s else None) of
         Some latest \<Rightarrow> lift_res (Inr latest)
       | None \<Rightarrow>
           (let ids = reset_env_ids cfg opts in
            bnd (upd (emit [SimReset ids (ro_reset_eval opts)])) (\<lambda>_.
            bnd (call_sim (hk_reset hk ids (ro_reset_eval opts))) (\<lambda>obs.
            bnd (upd (\<lambda>t. emit (if ec_teleop cfg then [TeleopReset] else []) (t\<lparr>ev_latest_obs := Some obs\<rparr>))) (\<lambda>_.
            bnd (reset_recorder_envs ids) (\<lambda>_.
            bnd (upd (\<lambda>t. confirm_before_record cfg ids (publish_reset_obs_to_teleop cfg ids t))) (\<lambda>_.
            lift_res (Inr obs)))))))))"

section \<open>Replaying a recorded episode\<close>

record replay_stats =
  rs_square_sum :: rat
  rs_count :: nat
  rs_max_error :: rat
  rs_executed :: nat
  rs_return :: rat
  rs_success :: bool
  rs_stopped :: bool

definition replay_start :: replay_stats where
  "replay_start = \<lparr>rs_square_sum = 0, rs_count = 0, rs_max_error = 0, rs_executed = 0,
                   rs_return = 0, rs_success = False, rs_stopped = False\<rparr>"

definition state_error :: "vec \<Rightarrow> vec \<Rightarrow> replay_stats \<Rightarrow> replay_stats result" where
  "state_error current expected st =
     (let delta = map2 (-) current expected in
      if length current \<noteq> length expected \<or> delta = [] then Inl ValueError
      else Inr (st\<lparr>rs_square_sum := rs_square_sum st + sum_list (map (\<lambda>d. d * d) delta),
                   rs_count := rs_count st + length delta,
                   rs_max_error := max (rs_max_error st) (Max (set (map abs delta)))\<rparr>))"

definition check_state ::
  "('o, 's) hooks \<Rightarrow> vec list option \<Rightarrow> nat \<Rightarrow> replay_stats \<Rightarrow> (('o, 's) env_state, replay_stats) stm" where
  "check_state hk states k st = reading (\<lambda>s.
     case states of
       None \<Rightarrow> lift_res (Inr st)
     | Some xs \<Rightarrow>
         (case ev_latest_obs s of
            None \<Rightarrow> lift_res (Inl TypeError)
          | Some latest \<Rightarrow> lift_res
              (bind_res (get_at (ob_observation latest) 0) (\<lambda>o0.
               bind_res (get_at xs k) (\<lambda>expected. state_error (hk_state hk o0) expected st)))))"

definition count_replayed :: "nat \<Rightarrow> nat \<Rightarrow> 'o step_result \<Rightarrow> replay_stats \<Rightarrow> (replay_stats \<times> bool) result" where
  "count_replayed frames k r st =
     bind_res (get_at (sr_reward r) 0) (\<lambda>reward.
     bind_res (get_at (sr_success r) 0) (\<lambda>success.
     bind_res (get_at (sr_terminated r) 0) (\<lambda>terminated.
     bind_res (get_at (sr_truncated r) 0) (\<lambda>truncated.
       Inr (st\<lparr>rs_executed := Suc (rs_executed st), rs_return := rs_return st + reward,
               rs_success := (rs_success st \<or> success),
               rs_stopped := ((terminated \<or> truncated) \<and> Suc k < frames)\<rparr>,
            terminated \<or> truncated)))))"

fun replay_loop ::
  "'o env_config \<Rightarrow> ('o, 's) hooks \<Rightarrow> vec list option \<Rightarrow> nat \<Rightarrow> nat \<Rightarrow> vec list \<Rightarrow> replay_stats \<Rightarrow>
   (('o, 's) env_state, replay_stats) stm" where
  "replay_loop cfg hk states frames k [] st = lift_res (Inr st)"
| "replay_loop cfg hk states frames k (a # as) st =
     bnd (check_state hk states k st) (\<lambda>st1.
     bnd (mask_step cfg hk [a] [True] [False] [0] None None) (\<lambda>r.
     bnd (lift_res (count_replayed frames k r st1)) (\<lambda>(st', finished).
       if finished then lift_res (Inr st') else replay_loop cfg hk states frames (Suc k) as st')))"

definition replay_episode ::
  "'o env_config \<Rightarrow> ('o, 's) hooks \<Rightarrow> bool \<Rightarrow> vec list \<Rightarrow> vec list option \<Rightarrow> (('o, 's) env_state, replay_stats) stm" where
  "replay_episode cfg hk mode_changed actions states =
     (if ec_num_envs cfg \<noteq> 1 then lift_res (Inl ValueError)
      else bnd (reset_env cfg hk mode_changed
                  \<lparr>ro_env_idx = Some [0], ro_reset_eval = False, ro_mode = ''train''\<rparr>)
             (\<lambda>_. replay_loop cfg hk states (length actions) 0 actions replay_start))"

end
