(* ===== verification/Base_Env_Properties.thy ===== *)
theory Base_Env_Properties
  imports Base_Env
begin

text \<open>
  The properties of the vector environment: finished environments are left alone until they are
  reset, the recorder sees well-formed episodes, and merging and overriding act row by row.
\<close>

section \<open>Indexing\<close>

lemma flatnonzero_distinct [simp]: "distinct (flatnonzero m)"
  by (simp add: flatnonzero_def)

lemma set_flatnonzero [simp]: "set (flatnonzero m) = {i. i < length m \<and> m ! i}"
  by (auto simp: flatnonzero_def)

lemma m_and_simps [simp]: "length (m_and a b) = min (length a) (length b)"
  "i < length a \<Longrightarrow> i < length b \<Longrightarrow> m_and a b ! i \<longleftrightarrow> a ! i \<and> b ! i"
  by (simp_all add: m_and_def)

lemma m_or_simps [simp]: "length (m_or a b) = min (length a) (length b)"
  "i < length a \<Longrightarrow> i < length b \<Longrightarrow> m_or a b ! i \<longleftrightarrow> a ! i \<or> b ! i"
  by (simp_all add: m_or_def)

lemma m_not_simps [simp]: "length (m_not a) = length a" "i < length a \<Longrightarrow> m_not a ! i \<longleftrightarrow> \<not> a ! i"
  by (simp_all add: m_not_def)

lemma fill_where_simps [simp]: "length (fill_where m v a) = min (length m) (length a)"
  "i < length m \<Longrightarrow> i < length a \<Longrightarrow> fill_where m v a ! i = (if m ! i then v else a ! i)"
  by (simp_all add: fill_where_def)

lemma scatter_spec:
  assumes "scatter ids vals dst = Inr out" and "distinct ids"
  shows "length out = length dst" and "length ids \<le> length vals" and "set ids \<subseteq> {..<length dst}"
    and "\<And>k. k < length ids \<Longrightarrow> out ! (ids ! k) = vals ! k"
    and "\<And>i. i \<notin> set ids \<Longrightarrow> out ! i = dst ! i"
proof -
  have "length out = length dst \<and> length ids \<le> length vals \<and> set ids \<subseteq> {..<length dst} \<and>
      (\<forall>k < length ids. out ! (ids ! k) = vals ! k) \<and> (\<forall>i. i \<notin> set ids \<longrightarrow> out ! i = dst ! i)"
    using assms
  proof (induction ids vals dst rule: scatter.induct)
    case (3 i ids v vals dst)
    then have i: "i < length dst" and IH: "length out = length dst" "length ids \<le> length vals"
      "set ids \<subseteq> {..<length dst}" "\<forall>k < length ids. out ! (ids ! k) = vals ! k"
      "\<forall>j. j \<notin> set ids \<longrightarrow> out ! j = dst[i := v] ! j"
      by (auto split: if_splits)
    have "out ! ((i # ids) ! k) = (v # vals) ! k" if "k < length (i # ids)" for k
      using that IH(4,5) i 3(3) by (cases k) auto
    moreover have "out ! j = dst ! j" if "j \<notin> set (i # ids)" for j
      using that IH(5) by simp
    ultimately show ?case using IH(1-3) i by (simp del: nth_Cons_0)
  qed simp_all
  then show "length out = length dst" and "length ids \<le> length vals" and "set ids \<subseteq> {..<length dst}"
    and "\<And>k. k < length ids \<Longrightarrow> out ! (ids ! k) = vals ! k"
    and "\<And>i. i \<notin> set ids \<Longrightarrow> out ! i = dst ! i"
    by blast+
qed

lemma gather_spec:
  "gather ids xs = Inr ys \<Longrightarrow> ys = map ((!) xs) ids \<and> (\<forall>i \<in> set ids. i < length xs)"
proof (induction ids arbitrary: ys)
  case (Cons i ids)
  then show ?case by (auto simp: gather_def res_simps get_at_def split: if_splits)
qed (simp add: gather_def)

section \<open>Manual overrides\<close>

definition rows_ok :: "nat \<Rightarrow> 'o step_result \<Rightarrow> bool" where
  "rows_ok k r \<longleftrightarrow> k \<le> length (sr_reward r) \<and> k \<le> length (sr_success r) \<and>
     k \<le> length (sr_terminated r) \<and> k \<le> length (sr_truncated r)"

definition row_at :: "'o step_result \<Rightarrow> nat \<Rightarrow> rat \<times> bool \<times> bool \<times> bool" where
  "row_at r k = (sr_reward r ! k, sr_success r ! k, sr_terminated r ! k, sr_truncated r ! k)"

definition same_lengths :: "'o step_result \<Rightarrow> 'o step_result \<Rightarrow> bool" where
  "same_lengths r r' \<longleftrightarrow> length (sr_reward r') = length (sr_reward r) \<and>
     length (sr_success r') = length (sr_success r) \<and>
     length (sr_terminated r') = length (sr_terminated r) \<and>
     length (sr_truncated r') = length (sr_truncated r) \<and> obs_of r' = obs_of r \<and>
     ob_identity r' = ob_identity r \<and> sr_score r' = sr_score r"

lemma override_row_at:
  "k < length (sr_reward r) \<Longrightarrow> k < length (sr_success r) \<Longrightarrow> k < length (sr_terminated r) \<Longrightarrow>
   k < length (sr_truncated r) \<Longrightarrow>
   row_at (override_row w b k r) j = (if j = k then (w, b, b, \<not> b) else row_at r j)"
  by (simp add: row_at_def override_row_def)

lemma override_row_same: "same_lengths r (override_row w b k r)"
  by (simp add: same_lengths_def override_row_def obs_of_def identity_of_def)

lemma same_lengths_trans: "same_lengths a b \<Longrightarrow> same_lengths b c \<Longrightarrow> same_lengths a c"
  by (simp add: same_lengths_def)

lemma override_loop_spec:
  assumes "override_loop hit (\<lambda>k i. override_row (w i) b k) n k ids r = Inr r'"
  shows "same_lengths r r' \<and> (\<forall>j. row_at r' j =
     (if k \<le> j \<and> j < k + length ids \<and> hit (ids ! (j - k)) then (w (ids ! (j - k)), b, b, \<not> b) else row_at r j))"
  using assms
proof (induction ids arbitrary: k r)
  case (Cons i ids)
  define r1 where "r1 = (if hit i then override_row (w i) b k r else r)"
  have loop: "override_loop hit (\<lambda>k i. override_row (w i) b k) n (Suc k) ids r1 = Inr r'"
    using Cons.prems by (auto simp: r1_def split: if_splits)
  have r1: "same_lengths r r1" "row_at r1 j = (if j = k \<and> hit i then (w i, b, b, \<not> b) else row_at r j)" for j
    using Cons.prems by (auto simp: r1_def override_row_same override_row_at split: if_splits)
      (simp add: same_lengths_def)
  have "row_at r' j = (if k \<le> j \<and> j < k + length (i # ids) \<and> hit ((i # ids) ! (j - k))
      then (w ((i # ids) ! (j - k)), b, b, \<not> b) else row_at r j)" for j
    using Cons.IH [OF loop] r1(2) [of j] by (cases "j = k") (auto simp: nth_Cons' diff_Suc split: nat.splits)
  with Cons.IH [OF loop] r1(1) show ?case by (blast intro: same_lengths_trans)
qed (auto simp: same_lengths_def)

text \<open>
  Manual control of one step: a stop request of an environment turns exactly its own row
  into a failed truncation with no reward, whatever else was requested; otherwise a positive
  manual reward turns it into a successful termination with that reward; every other row, the
  observations, scores and identities stay what the simulator answered.
\<close>

theorem manual_overrides_by_row:
  assumes "apply_manual_step_overrides r ids (Some rewards) (Some forced) = Inr r'"
  shows "obs_of r' = obs_of r \<and> sr_score r' = sr_score r \<and>
    (\<forall>k < length ids. row_at r' k =
       (if forced ! (ids ! k) then (0, False, False, True)
        else if 0 < rewards ! (ids ! k) then (rewards ! (ids ! k), True, True, False)
        else row_at r k)) \<and>
    (\<forall>k \<ge> length ids. row_at r' k = row_at r k)"
proof -
  obtain r1 where
    1: "override_loop (\<lambda>i. 0 < rewards ! i) (\<lambda>k i. override_row (rewards ! i) True k) (length rewards) 0 ids r = Inr r1"
    and 2: "override_loop (\<lambda>i. forced ! i) (\<lambda>k i. override_row 0 False k) (length forced) 0 ids r1 = Inr r'"
    using assms by (auto simp: apply_manual_step_overrides_def res_simps)
  have a: "same_lengths r r1" "row_at r1 j =
     (if j < length ids \<and> 0 < rewards ! (ids ! j) then (rewards ! (ids ! j), True, True, False) else row_at r j)" for j
    using override_loop_spec [OF 1] by auto
  have b: "same_lengths r1 r'" "row_at r' j =
     (if j < length ids \<and> forced ! (ids ! j) then (0, False, False, True) else row_at r1 j)" for j
    using override_loop_spec [OF 2] by auto
  show ?thesis using a b by (simp add: same_lengths_def)
qed

definition sample_result :: "nat step_result" where
  "sample_result = \<lparr>ob_observation = [7, 8], ob_task = [''a'', ''b''], ob_task_id = [0, 1], ob_identity = [],
     sr_reward = [1/2, 1/2], sr_terminated = [True, False], sr_truncated = [False, False],
     sr_success = [True, False], sr_score = None\<rparr>"

theorem manual_overrides_by_row_witness:
  "\<exists>r'. apply_manual_step_overrides sample_result [2, 0] (Some [1, 0, 1]) (Some [False, False, True]) = Inr r' \<and>
     row_at r' 0 = (0, False, False, True) \<and> row_at r' 1 = (1, True, True, False)"
proof -
  have "\<exists>r'. apply_manual_step_overrides sample_result [2, 0] (Some [1, 0, 1]) (Some [False, False, True]) = Inr r'"
    by (simp add: apply_manual_step_overrides_def sample_result_def override_row_def)
  then obtain r' where r':
    "apply_manual_step_overrides sample_result [2, 0] (Some [1, 0, 1]) (Some [False, False, True]) = Inr r'" ..
  have "row_at r' 0 = (0, False, False, True) \<and> row_at r' 1 = (1, True, True, False)"
    using manual_overrides_by_row [OF r'] by (simp add: numeral_2_eq_2 All_less_Suc)
  with r' show ?thesis by blast
qed

section \<open>Well-formed recordings\<close>

text \<open>
  What a recorder must see: after an episode of an environment is saved nothing more of it is
  recorded or saved until it is cleared or the recording mode changes, and an episode is saved
  as soon as its final frame is recorded. The state of the reader is the set of saved
  environments, the environment whose final frame was the last event, and the verdict.
\<close>

fun rec_event :: "'o event \<Rightarrow> nat set \<times> nat option \<times> bool \<Rightarrow> nat set \<times> nat option \<times> bool" where
  "rec_event (Frame i f) (saved, last_frame, ok) =
     (saved, if fr_terminated f \<or> fr_truncated f then Some i else None, ok \<and> last_frame = None \<and> i \<notin> saved)"
| "rec_event (Save i) (saved, last_frame, ok) =
     (insert i saved, None, ok \<and> (last_frame = None \<or> last_frame = Some i) \<and> i \<notin> saved)"
| "rec_event (Clear i) (saved, last_frame, ok) = (saved - {i}, None, ok \<and> last_frame = None)"
| "rec_event (SetMode m changed) (saved, last_frame, ok) =
     (if changed then {} else saved, None, ok \<and> last_frame = None)"
| "rec_event e (saved, last_frame, ok) = (saved, None, ok \<and> last_frame = None)"

definition rec_read :: "'o event list \<Rightarrow> nat set \<times> nat option \<times> bool" where
  "rec_read evs = fold rec_event evs ({}, None, True)"

definition well_recorded :: "'o event list \<Rightarrow> bool" where
  "well_recorded evs \<longleftrightarrow> (\<exists>saved. rec_read evs = (saved, None, True))"

definition rec_inv :: "'o env_config \<Rightarrow> ('o, 's) env_state \<Rightarrow> bool" where
  "rec_inv cfg s \<longleftrightarrow> length (ev_recorder_done s) = ec_num_envs cfg \<and>
     rec_read (ev_log s) = ({i. i < ec_num_envs cfg \<and> ev_recorder_done s ! i}, None, True)"

fun other_event :: "'o event \<Rightarrow> bool" where
  "other_event (Frame _ _) \<longleftrightarrow> False"
| "other_event (Save _) \<longleftrightarrow> False"
| "other_event (Clear _) \<longleftrightarrow> False"
| "other_event (SetMode _ _) \<longleftrightarrow> False"
| "other_event _ \<longleftrightarrow> True"

lemma rec_read_append: "rec_read (evs @ es) = fold rec_event es (rec_read evs)"
  by (simp add: rec_read_def)

lemma rec_other: "other_event e \<Longrightarrow> rec_event e (saved, None, ok) = (saved, None, ok)"
  by (cases e) auto

lemma rec_others: "list_all other_event es \<Longrightarrow> fold rec_event es (saved, None, ok) = (saved, None, ok)"
  by (induction es) (auto simp: rec_other)

lemma rec_inv_emit: "rec_inv cfg s \<Longrightarrow> list_all other_event es \<Longrightarrow> rec_inv cfg (emit es s)"
  by (simp add: rec_inv_def emit_def rec_read_append rec_others)

lemma rec_inv_update:
  "ev_recorder_done s' = ev_recorder_done s \<Longrightarrow> ev_log s' = ev_log s \<Longrightarrow> rec_inv cfg s \<Longrightarrow> rec_inv cfg s'"
  by (simp add: rec_inv_def)

lemma set_done_list:
  "i < n \<Longrightarrow> length d = n \<Longrightarrow> {j. j < n \<and> d[i := b] ! j} = (if b then insert i {j. j < n \<and> d ! j} else {j. j < n \<and> d ! j} - {i})"
  by (auto simp: nth_list_update split: if_splits)

lemma rec_inv_record_frame:
  "rec_inv cfg s \<Longrightarrow> i < ec_num_envs cfg \<Longrightarrow> \<not> ev_recorder_done s ! i \<Longrightarrow> rec_inv cfg (record_frame i f s)"
  by (simp add: rec_inv_def record_frame_def emit_def rec_read_append set_done_list)

lemma rec_inv_length: "rec_inv cfg s \<Longrightarrow> length (ev_recorder_done s) = ec_num_envs cfg"
  by (simp add: rec_inv_def)

lemma record_loop_keeps: "keeps (rec_inv cfg) (record_loop frame k ids)"
proof (rule keepsI)
  fix s :: "('a, 'b) env_state"
  show "rec_inv cfg s \<Longrightarrow> rec_inv cfg (snd (record_loop frame k ids s))"
    by (induction frame k ids s rule: record_loop.induct)
      (auto split: sum.split simp: rec_inv_record_frame rec_inv_length not_le)
qed

lemma record_step_result_keeps [keeps_rules]: "keeps (rec_inv cfg) (record_step_result r acts ids iv critic)"
  by (rule keepsI) (auto simp: record_step_result_def intro: keepsD [OF record_loop_keeps] split: sum.split)

lemma reset_recorder_envs_keeps [keeps_rules]: "keeps (rec_inv cfg) (reset_recorder_envs ids)"
proof (rule keepsI)
  fix s :: "('a, 'b) env_state"
  show "rec_inv cfg s \<Longrightarrow> rec_inv cfg (snd (reset_recorder_envs ids s))"
    by (induction ids s rule: reset_recorder_envs.induct)
      (auto simp: rec_inv_def emit_def rec_read_append set_done_list not_le)
qed

lemma update_latest_obs_keeps [keeps_rules]: "keeps (rec_inv cfg) (update_latest_obs ids r)"
  by (auto simp: keeps_def update_latest_obs_def rec_inv_def split: option.split sum.split)

lemma call_sim_keeps [keeps_rules]: "keeps (rec_inv cfg) (call_sim m)"
  by (auto simp: keeps_def call_sim_def rec_inv_def split: prod.split)

lemma emit_keeps [keeps_rules]: "list_all other_event es \<Longrightarrow> keeps (rec_inv cfg) (upd (emit es))"
  by (auto intro: keeps_upd rec_inv_emit)

lemma mask_step_keeps [keeps_rules]: "keeps (rec_inv cfg) (mask_step cfg' hk a m iv critic rew forced)"
  unfolding mask_step_def Let_def by (intro keeps_rules) (auto simp: list_all_iff)

lemma execute_lanes_keeps [keeps_rules]: "keeps (rec_inv cfg) (execute_lanes cfg' hk critic m iv L)"
  unfolding execute_lanes_def by (intro keeps_rules)

lemma teleop_poll_keeps [keeps_rules]: "keeps (rec_inv cfg) (teleop_poll cfg' hk critic r L)"
  unfolding teleop_poll_def serve_busy_def Let_def by (intro keeps_rules)

lemma teleop_loop_keeps [keeps_rules]: "keeps (rec_inv cfg) (teleop_loop cfg' hk critic rs L)"
proof (induction rs arbitrary: L)
  case (Cons r rs)
  then show ?case unfolding teleop_loop.simps by (intro keeps_rules)
qed (simp add: keeps_lift)

lemma step_with_teleop_keeps [keeps_rules]:
  "keeps (rec_inv cfg) (step_with_teleop_and_recording cfg' hk a critic)"
  unfolding step_with_teleop_and_recording_def Let_def
  by (intro keeps_rules) (simp add: rec_inv_def)

lemma execute_action_step_keeps [keeps_rules]:
  "keeps (rec_inv cfg) (execute_action_step cfg' hk a critic started)"
  unfolding execute_action_step_def by (intro keeps_rules) (simp_all add: rec_inv_def)

lemma reset_done_envs_keeps [keeps_rules]: "keeps (rec_inv cfg) (reset_done_envs cfg' hk r m)"
  unfolding reset_done_envs_def Let_def
  by (intro keeps_rules)
    (auto simp: list_all_iff confirm_before_record_def publish_reset_obs_to_teleop_def intro!: rec_inv_emit)

lemma finish_execution_slice_keeps [keeps_rules]:
  "keeps (rec_inv cfg) (finish_execution_slice cfg' hk steps)"
  unfolding finish_execution_slice_def Let_def by (intro keeps_rules) (simp_all add: rec_inv_def)

lemma async_execution_result_keeps [keeps_rules]:
  "keeps (rec_inv cfg) (async_execution_result cfg' hk shape)"
  unfolding async_execution_result_def Let_def by (intro keeps_rules) (simp_all add: rec_inv_def)

lemma reset_flags_keeps: "rec_inv cfg s \<Longrightarrow> rec_inv cfg (reset_flags cfg changed m s)"
  by (auto simp: rec_inv_def reset_flags_def emit_def rec_read_append Let_def)

lemma reset_env_keeps [keeps_rules]: "keeps (rec_inv cfg) (reset_env cfg hk changed opts)"
  unfolding reset_env_def Let_def
  by (intro keeps_rules)
    (auto simp: list_all_iff confirm_before_record_def publish_reset_obs_to_teleop_def reset_flags_keeps
       intro!: rec_inv_emit intro: rec_inv_update)

lemma replay_loop_keeps [keeps_rules]: "keeps (rec_inv cfg) (replay_loop cfg' hk states n k as st)"
proof (induction as arbitrary: k st)
  case (Cons a as)
  then show ?case unfolding replay_loop.simps check_state_def by (intro keeps_rules)
qed (simp add: keeps_lift)

lemma replay_episode_keeps [keeps_rules]: "keeps (rec_inv cfg) (replay_episode cfg hk changed actions states)"
  unfolding replay_episode_def by (intro keeps_rules)

lemma save_open_keeps: "rec_inv cfg s \<Longrightarrow> i < ec_num_envs cfg \<Longrightarrow> rec_inv cfg (save_open i s)"
  by (simp add: rec_inv_def save_open_def emit_def rec_read_append set_done_list)

lemma finish_rollout_keeps: "rec_inv cfg s \<Longrightarrow> rec_inv cfg (finish_rollout cfg s)"
proof -
  have "rec_inv cfg (fold save_open ids s)" if "rec_inv cfg s" "\<forall>i \<in> set ids. i < ec_num_envs cfg" for ids
    using that by (induction ids arbitrary: s) (simp_all add: save_open_keeps)
  then show "rec_inv cfg s \<Longrightarrow> ?thesis" by (simp add: finish_rollout_def rec_inv_emit)
qed

lemma close_env_keeps: "rec_inv cfg s \<Longrightarrow> rec_inv cfg (close_env cfg' completed s)"
proof -
  assume "rec_inv cfg s"
  then have "rec_inv cfg (close_recorder completed s)"
    by (auto simp: close_recorder_def simp: rec_inv_def emit_def rec_read_append)
  then show ?thesis unfolding close_env_def by (rule rec_inv_emit) simp
qed


lemma run_steps_keeps:
  assumes step: "\<And>a v b. keeps P (f a v b)"
  shows "P s \<Longrightarrow> P (snd (run_steps f xs first s))"
proof (induction xs arbitrary: first s)
  case (Cons x xs)
  obtain a v where x: "x = (a, v)" by (cases x)
  obtain r s1 where f: "f a v first s = (r, s1)" by (cases "f a v first s")
  with keepsD [OF step Cons.prems] have "P s1" by (metis snd_conv)
  with Cons.IH have "P (snd (run_steps f xs False s1))" by blast
  with \<open>P s1\<close> f x show ?case by (auto split: prod.splits sum.splits)
qed simp

lemma serial_exchange_keeps:
  assumes step: "\<And>a v b. keeps P (f a v b)" and finish: "\<And>steps. keeps P (g steps)" and "P s"
  shows "P (snd (snd (serial_exchange f g actions values se s)))"
proof -
  have run: "P (snd (run_steps f xs first s))" for xs first using run_steps_keeps [OF step assms(3)] .
  have "P t \<Longrightarrow> P (snd (g steps t))" for steps t using finish by (rule keepsD)
  moreover have "P t" if "run_steps f xs first s = (r, t)" for xs first r t using run [of xs first] that by simp
  ultimately show ?thesis using assms(3) unfolding serial_exchange_def
    by (auto split: prod.split sum.split) (metis snd_conv)+
qed

text \<open>The calls a client makes, with the ticks that the asynchronous control thread adds.\<close>

inductive base_call ::
  "'o env_config \<Rightarrow> ('o, 's) hooks \<Rightarrow> serial_executor \<times> ('o, 's) env_state \<Rightarrow>
   serial_executor \<times> ('o, 's) env_state \<Rightarrow> bool" for cfg hk where
  chunk: "step_chunk cfg hk actions vals se s = (r, se', s') \<Longrightarrow> base_call cfg hk (se, s) (se', s')"
| tick: "execute_action_step cfg hk a v started s = (r, s') \<Longrightarrow> base_call cfg hk (se, s) (se, s')"
| exchange: "async_execution_result cfg hk shape s = (r, s') \<Longrightarrow> base_call cfg hk (se, s) (se, s')"
| reset: "reset_env cfg hk changed opts s = (r, s') \<Longrightarrow> base_call cfg hk (se, s) (serial_reset se, s')"
| replay: "replay_episode cfg hk changed acts states s = (r, s') \<Longrightarrow> base_call cfg hk (se, s) (serial_reset se, s')"
| finish: "base_call cfg hk (se, s) (serial_reset se, finish_rollout cfg s)"
| close: "base_call cfg hk (se, s) (se, close_env cfg completed s)"

definition base_start ::
  "'o env_config \<Rightarrow> serial_executor \<times> ('o, 's) env_state \<Rightarrow> bool" where
  "base_start cfg c \<longleftrightarrow> (\<exists>se recorder sim script. c = (se, new_env cfg recorder sim script))"

lemma base_call_rec_inv: "base_call cfg hk c c' \<Longrightarrow> rec_inv cfg (snd c) \<Longrightarrow> rec_inv cfg (snd c')"
proof (induction rule: base_call.induct)
  case (chunk actions vals se s r se' s')
  have "rec_inv cfg (snd (snd (step_chunk cfg hk actions vals se s)))"
    using chunk.prems unfolding step_chunk_def
    by (auto split: sum.split intro: serial_exchange_keeps keeps_rules)
  with chunk.hyps show ?case by simp
next
  case (tick a v started s r s' se)
  then show ?case using keepsD [OF execute_action_step_keeps, of cfg s cfg hk a v started] by simp
next
  case (exchange shape s r s' se)
  then show ?case using keepsD [OF async_execution_result_keeps, of cfg s cfg hk shape] by simp
next
  case (reset changed opts s r s' se)
  then show ?case using keepsD [OF reset_env_keeps, of cfg s hk changed opts] by simp
next
  case (replay changed acts states s r s' se)
  then show ?case using keepsD [OF replay_episode_keeps, of cfg s hk changed acts states] by simp
qed (simp_all add: finish_rollout_keeps close_env_keeps)

lemma base_start_rec_inv: "rec_inv cfg (new_env cfg recorder sim script)"
  by (simp add: new_env_def rec_inv_def rec_read_def)

interpretation recording: transition_system "base_start cfg" "base_call cfg hk" "\<lambda>c. rec_inv cfg (snd c)"
  for cfg :: "'o env_config" and hk :: "('o, 's) hooks"
  by unfold_locales
    (auto simp: base_start_def base_start_rec_inv intro: base_call_rec_inv)

text \<open>
  C32. Whatever calls are made on an environment, in whatever order and even when some of them
  raise, its recorder sees well-formed episodes: after an episode is saved nothing more of that
  environment is recorded or saved until its buffer is cleared or the recording mode changes,
  and an episode is saved immediately after its final frame.
\<close>

theorem recorder_sees_whole_episodes:
  assumes "base_start cfg c" and "(base_call cfg hk)\<^sup>*\<^sup>* c c'"
  shows "well_recorded (ev_log (snd c'))"
proof -
  from assms have "rec_inv cfg (snd c')" by (rule recording.reachable_inv)
  then show ?thesis unfolding rec_inv_def well_recorded_def by blast
qed

definition toy_config :: "nat env_config" where
  "toy_config = \<lparr>ec_num_envs = 2, ec_auto_reset = False, ec_teleop = False, ec_confirm = False,
     ec_uninit = \<lparr>un_obs = 0, un_task = '''', un_int = 0, un_num = 0, un_bool = False\<rparr>\<rparr>"

text \<open>Counters: environment i terminates when its counter reaches i + 1.\<close>

definition toy_hooks :: "(nat, nat list) hooks" where
  "toy_hooks = \<lparr>hk_step = (\<lambda>acts ids sim.
       let sim' = map (\<lambda>i. if i \<in> set ids then Suc (sim ! i) else sim ! i) [0..<length sim];
           over = map (\<lambda>i. sim' ! i = Suc i) ids
       in (Inr \<lparr>ob_observation = map (\<lambda>i. sim' ! i) ids, ob_task = map (\<lambda>_. ''t'') ids,
                ob_task_id = map int ids, ob_identity = [], sr_reward = map (\<lambda>_. 1) ids,
                sr_terminated = over, sr_truncated = map (\<lambda>_. False) ids, sr_success = over,
                sr_score = None\<rparr>, sim')),
     hk_reset = (\<lambda>ids _ sim.
       (Inr \<lparr>ob_observation = replicate (length sim) 0, ob_task = replicate (length sim) ''t'',
             ob_task_id = map int [0..<length sim], ob_identity = []\<rparr>,
        map (\<lambda>i. if i \<in> set ids then 0 else sim ! i) [0..<length sim])),
     hk_finalize = (\<lambda>m ids sim. (Inr m, sim)), hk_state = (\<lambda>o1. [of_nat o1])\<rparr>"

definition toy_executor :: serial_executor where
  "toy_executor = \<lparr>se_factor = 1, se_smoothing = \<lparr>sm_enable = False, sm_execution_steps = 1, sm_blend_steps = 2\<rparr>,
     se_previous_actions = None, se_previous_valid = None\<rparr>"

definition toy_env :: "(nat, nat list) env_state" where
  "toy_env = snd (reset_env toy_config toy_hooks False
     \<lparr>ro_env_idx = None, ro_reset_eval = True, ro_mode = ''eval''\<rparr> (new_env toy_config True [0, 0] []))"

definition toy_actions :: actions where
  "toy_actions = [[[0], [0]], [[0], [0]], [[0], [0]]]"

definition toy_after :: "(nat, nat list) env_state" where
  "toy_after = snd (snd (step_chunk toy_config toy_hooks toy_actions NoValues toy_executor toy_env))"

theorem recorder_sees_whole_episodes_witness:
  "well_recorded (ev_log toy_after) \<and> Save 0 \<in> set (ev_log toy_after) \<and> Save 1 \<in> set (ev_log toy_after)"
proof -
  have start: "base_start toy_config (toy_executor, new_env toy_config True [0, 0] [])"
    unfolding base_start_def by blast
  have "base_call toy_config toy_hooks (toy_executor, new_env toy_config True [0, 0] []) (serial_reset toy_executor, toy_env)"
    unfolding toy_env_def by (rule base_call.reset [OF prod.collapse [symmetric]])
  moreover have "serial_reset toy_executor = toy_executor" by (simp add: serial_reset_def toy_executor_def)
  moreover have "base_call toy_config toy_hooks (toy_executor, toy_env)
      (fst (snd (step_chunk toy_config toy_hooks toy_actions NoValues toy_executor toy_env)), toy_after)"
    unfolding toy_after_def
    by (rule base_call.chunk [of _ _ _ _ _ _ "fst (step_chunk toy_config toy_hooks toy_actions NoValues toy_executor toy_env)"]) simp
  ultimately have "well_recorded (ev_log (snd
      (fst (snd (step_chunk toy_config toy_hooks toy_actions NoValues toy_executor toy_env)), toy_after)))"
    using recorder_sees_whole_episodes [OF start] by (metis converse_rtranclp_into_rtranclp rtranclp.rtrancl_refl)
  moreover have "Save 0 \<in> set (ev_log toy_after)" "Save 1 \<in> set (ev_log toy_after)" by code_simp+
  ultimately show ?thesis by simp
qed

end
