(* ===== verification/Base_Env_Safety.thy ===== *)
theory Base_Env_Safety
  imports Base_Env_Properties
begin

text \<open>
  An environment that has reported the end of its episode is not stepped again before it is
  reset, whatever the operator does and however long the policy keeps sending chunks.
\<close>

section \<open>Reading the simulator's calls\<close>

fun sim_event :: "'o event \<Rightarrow> nat set \<times> bool \<Rightarrow> nat set \<times> bool" where
  "sim_event (Step ids) (over, ok) = (over, ok \<and> list_all (\<lambda>i. i \<notin> over) ids)"
| "sim_event (Ended ids) (over, ok) = (over \<union> set ids, ok)"
| "sim_event (SimReset ids eval) (over, ok) = (over - set ids, ok)"
| "sim_event e (over, ok) = (over, ok)"

definition sim_read :: "'o event list \<Rightarrow> nat set \<times> bool" where
  "sim_read evs = fold sim_event evs ({}, True)"

definition never_stepped_after_end :: "'o event list \<Rightarrow> bool" where
  "never_stepped_after_end evs \<longleftrightarrow> snd (sim_read evs)"

abbreviation ok_log :: "('o, 's) env_state \<Rightarrow> bool" where
  "ok_log s \<equiv> never_stepped_after_end (ev_log s)"

abbreviation over :: "('o, 's) env_state \<Rightarrow> nat set" where
  "over s \<equiv> fst (sim_read (ev_log s))"

lemma sim_read_append: "sim_read (evs @ es) = fold sim_event es (sim_read evs)"
  by (simp add: sim_read_def)

fun no_sim :: "'o event \<Rightarrow> bool" where
  "no_sim (Step _) \<longleftrightarrow> False"
| "no_sim (Ended _) \<longleftrightarrow> False"
| "no_sim (SimReset _ _) \<longleftrightarrow> False"
| "no_sim _ \<longleftrightarrow> True"

lemma sim_event_quiet: "no_sim e \<Longrightarrow> sim_event e p = p"
  by (cases e; cases p) auto

lemma no_sim_read: "list_all no_sim es \<Longrightarrow> fold sim_event es p = p"
proof (induction es arbitrary: p)
  case (Cons e es)
  then have "sim_event e p = p" by (cases e; cases p) auto
  with Cons show ?case by simp
qed simp

section \<open>The control state\<close>

type_synonym 'o core = "bool list \<times> bool list \<times> bool list \<times> 'o step_result option"

definition core :: "('o, 's) env_state \<Rightarrow> 'o core" where
  "core s = (ev_done s, ev_chunk_intervened s, ev_restart s, ev_merged s)"

definition at_core :: "'o core \<Rightarrow> nat set \<times> bool \<Rightarrow> ('o, 's) env_state \<Rightarrow> bool" where
  "at_core c p s \<longleftrightarrow> core s = c \<and> sim_read (ev_log s) = p"

lemma at_core_emit: "at_core c p s \<Longrightarrow> at_core c (fold sim_event es p) (emit es s)"
  by (simp add: at_core_def core_def emit_def sim_read_append)

lemma quiet_emit [keeps_rules]: "list_all no_sim es \<Longrightarrow> keeps (at_core c p) (upd (emit es))"
  by (rule keeps_upd) (metis at_core_emit no_sim_read)

lemma quiet_call_sim [keeps_rules]: "keeps (at_core c p) (call_sim m)"
  by (auto simp: keeps_def call_sim_def at_core_def core_def split: prod.split)

lemma quiet_record_frame: "at_core c p s \<Longrightarrow> at_core c p (record_frame i f s)"
  by (cases p) (auto simp: record_frame_def at_core_def core_def emit_def sim_read_append)

lemma quiet_record_loop: "at_core c p s \<Longrightarrow> at_core c p (snd (record_loop frame k ids s))"
  by (induction frame k ids s rule: record_loop.induct) (auto split: sum.split simp: quiet_record_frame)

lemma quiet_record [keeps_rules]: "keeps (at_core c p) (record_step_result r acts ids iv critic)"
  by (rule keepsI) (auto simp: record_step_result_def quiet_record_loop split: sum.split)

lemma quiet_reset_recorder [keeps_rules]: "keeps (at_core c p) (reset_recorder_envs ids)"
proof (rule keepsI)
  fix s :: "('a, 'b) env_state"
  show "at_core c p s \<Longrightarrow> at_core c p (snd (reset_recorder_envs ids s))"
    by (induction ids s rule: reset_recorder_envs.induct)
      (cases p; auto simp: at_core_def core_def emit_def sim_read_append)+
qed

lemma quiet_update_latest [keeps_rules]: "keeps (at_core c p) (update_latest_obs ids r)"
  by (auto simp: keeps_def update_latest_obs_def at_core_def core_def split: option.split sum.split)

lemma ended_ids_subset: "set (ended_ids ids r) \<subseteq> set ids"
  by (auto simp: ended_ids_def dest: set_zip_leftD)

lemma at_core_ok: "at_core c (F, True) s \<Longrightarrow> ok_log s"
  by (simp add: at_core_def never_stepped_after_end_def)

lemma triple_quiet: "keeps (at_core c (F, True)) m \<Longrightarrow> triple (at_core c (F, True)) m (\<lambda>_. at_core c (F, True)) ok_log"
  by (rule tripleI) (metis at_core_ok keepsD snd_conv)+

lemma triple_lift_res: "(\<And>x. r = Inr x \<Longrightarrow> P' x) \<Longrightarrow> (\<And>s. P s \<Longrightarrow> E s) \<Longrightarrow> triple P (lift_res r) (\<lambda>x s. P s \<and> P' x) E"
  by (auto simp: triple_def lift_res_def split: sum.split)

lemma mask_step_triple:
  assumes "F \<inter> set (flatnonzero m) = {}"
  shows "triple (at_core c (F, True)) (mask_step cfg hk a m iv critic rew forced)
    (\<lambda>r. at_core c (F \<union> set (ended_ids (flatnonzero m) r), True)) ok_log"
proof -
  let ?ids = "flatnonzero m"
  have free: "list_all (\<lambda>i. i \<notin> F) ?ids" using assms by (auto simp: list_all_iff)
  have publish: "list_all no_sim (if ec_teleop cfg then map Publish ?ids else [])" by (auto simp: list_all_iff)
  have step: "triple (at_core c (F, True)) (upd (emit [Step ?ids])) (\<lambda>_. at_core c (F, True)) ok_log"
  proof (rule triple_pre [OF triple_upd])
    fix s assume "at_core c (F, True) s"
    from at_core_emit [OF this, of "[Step ?ids]"]
    show "at_core c (F, True) (emit [Step ?ids] s)" using free by simp
  qed
  have ended: "triple (at_core c (F, True)) (upd (emit [Ended (ended_ids ?ids r)]))
      (\<lambda>_. at_core c (F \<union> set (ended_ids ?ids r), True)) ok_log" for r
  proof (rule triple_pre [OF triple_upd])
    fix s assume "at_core c (F, True) s"
    from at_core_emit [OF this, of "[Ended (ended_ids ?ids r)]"]
    show "at_core c (F \<union> set (ended_ids ?ids r), True) (emit [Ended (ended_ids ?ids r)] s)" by simp
  qed
  have lift: "triple (at_core c (F', True)) (lift_res q) (\<lambda>_. at_core c (F', True)) ok_log" for F' q
    by (rule triple_quiet) (rule keeps_rules)
  show ?thesis unfolding mask_step_def Let_def
    apply (rule triple_bnd [OF lift])
    apply (rule triple_bnd [OF step])
    apply (rule triple_bnd [OF triple_quiet], rule keeps_rules)
    apply (rule triple_bnd [OF lift])
    apply (rule triple_bnd [OF ended])
    apply (rule triple_bnd [OF lift])
    apply (rule triple_bnd [OF triple_quiet], rule quiet_emit, rule publish)
    apply (rule triple_bnd [OF triple_quiet], rule keeps_rules)
    apply (rule triple_bnd [OF triple_quiet], rule keeps_rules)
    apply (rule triple_pre [OF triple_lift])
    apply simp
    done
qed

section \<open>Lanes\<close>

definition flagged :: "'o step_result option \<Rightarrow> nat \<Rightarrow> bool" where
  "flagged m i = (case m of None \<Rightarrow> False | Some r \<Rightarrow> sr_terminated r ! i \<or> sr_truncated r ! i)"

definition flags_len :: "nat \<Rightarrow> 'o step_result option \<Rightarrow> bool" where
  "flags_len n m \<longleftrightarrow> (\<forall>r. m = Some r \<longrightarrow> length (sr_terminated r) = n \<and> length (sr_truncated r) = n)"

text \<open>The lanes of a step: every ended environment is marked done, for a reason that stays visible.\<close>

definition lanes_ok :: "nat \<Rightarrow> bool list \<Rightarrow> nat set \<Rightarrow> 'o lanes \<Rightarrow> bool" where
  "lanes_ok n before F L \<longleftrightarrow> length (ln_done L) = n \<and> length (ln_intervened L) = n \<and> length (ln_chunk L) = n \<and>
     length (ln_restart L) = n \<and> flags_len n (ln_merged L) \<and> F \<subseteq> {i. i < n \<and> ln_done L ! i} \<and>
     (\<forall>i < n. ln_done L ! i \<longrightarrow> before ! i \<or> flagged (ln_merged L) i)"

lemma update_step_result_flags:
  assumes upd: "update_step_result cfg old ids r = Inr m" and "distinct ids" and old: "flags_len (ec_num_envs cfg) old"
  shows "flags_len (ec_num_envs cfg) (Some m)"
    and "i \<in> set (ended_ids ids r) \<Longrightarrow> flagged (Some m) i"
    and "i \<notin> set ids \<Longrightarrow> flagged old i \<Longrightarrow> flagged (Some m) i"
    and "set ids \<subseteq> {..<ec_num_envs cfg}"
proof -
  define b where "b = (case old of None \<Rightarrow> empty_result cfg | Some m \<Rightarrow> m)"
  have term1: "scatter ids (sr_terminated r) (sr_terminated b) = Inr (sr_terminated m)"
    and trunc: "scatter ids (sr_truncated r) (sr_truncated b) = Inr (sr_truncated m)"
    using upd by (auto simp: update_step_result_def Let_def res_simps b_def)
  have len: "length (sr_terminated b) = ec_num_envs cfg" "length (sr_truncated b) = ec_num_envs cfg"
    using old by (auto simp: b_def flags_len_def empty_result_def Let_def split: option.split)
  note t1 = scatter_spec [OF term1 assms(2)] and t2 = scatter_spec [OF trunc assms(2)]
  show "flags_len (ec_num_envs cfg) (Some m)" using t1(1) t2(1) len by (simp add: flags_len_def)
  show "set ids \<subseteq> {..<ec_num_envs cfg}" using t1(3) len by simp
  show "flagged (Some m) i" if "i \<notin> set ids" "flagged old i"
    using that t1(5) t2(5) by (auto simp: flagged_def b_def split: option.splits)
  show "flagged (Some m) i" if e: "i \<in> set (ended_ids ids r)"
  proof -
    obtain p where "p \<in> {p \<in> set (zip ids (zip (sr_terminated r) (sr_truncated r))). case p of (i, t, u) \<Rightarrow> t \<or> u}"
      "i = fst p"
      using e unfolding ended_ids_def set_map set_filter by (rule imageE)
    then obtain t u where tu: "(i, t, u) \<in> set (zip ids (zip (sr_terminated r) (sr_truncated r)))" "t \<or> u"
      by (cases p) auto
    then obtain k where "k < length (zip ids (zip (sr_terminated r) (sr_truncated r)))"
      "zip ids (zip (sr_terminated r) (sr_truncated r)) ! k = (i, t, u)" by (meson in_set_conv_nth)
    with tu(2) have "k < length ids" "i = ids ! k" "sr_terminated r ! k \<or> sr_truncated r ! k" by auto
    then show ?thesis using t1(4) t2(4) by (simp add: flagged_def)
  qed
qed

lemma execute_lanes_triple:
  assumes "F \<inter> set (flatnonzero m) = {}"
  shows "triple (at_core c (F, True)) (execute_lanes cfg hk critic m iv L)
    (\<lambda>(r, L') s. at_core c (F \<union> set (ended_ids (flatnonzero m) r), True) s \<and>
       (\<exists>res. update_step_result cfg (ln_merged L) (flatnonzero m) r = Inr res \<and>
          L' = L\<lparr>ln_merged := Some res\<rparr>)) ok_log"
  unfolding execute_lanes_def
  apply (rule triple_bnd [OF mask_step_triple [OF assms]])
  apply (rule triple_bnd [OF triple_lift_res])
    apply assumption
   apply (rule at_core_ok, assumption)
  apply (rule triple_pre [OF triple_lift])
  apply auto
  done

definition lanes_at :: "nat \<Rightarrow> 'o core \<Rightarrow> 'o lanes \<Rightarrow> ('o, 's) env_state \<Rightarrow> bool" where
  "lanes_at n c L s \<longleftrightarrow> (\<exists>F. lanes_ok n (fst c) F L \<and> at_core c (F, True) s)"

lemma lanes_at_ok: "lanes_at n c L s \<Longrightarrow> ok_log s"
  by (auto simp: lanes_at_def intro: at_core_ok)

lemma execute_done_lanes:
  assumes ok: "lanes_ok n before F L" and n: "n = ec_num_envs cfg"
    and upd: "update_step_result cfg (ln_merged L) (flatnonzero m) r = Inr res"
    and skip: "\<And>i. i < n \<Longrightarrow> i < length m \<Longrightarrow> m ! i \<Longrightarrow> \<not> ln_done L ! i"
  shows "lanes_ok n before (F \<union> set (ended_ids (flatnonzero m) r))
     (L\<lparr>ln_merged := Some res, ln_done := map (\<lambda>i. ln_done L ! i \<or> i \<in> set (ended_ids (flatnonzero m) r)) [0..<n]\<rparr>)"
proof -
  have old: "flags_len (ec_num_envs cfg) (ln_merged L)" using ok n by (simp add: lanes_ok_def)
  note res = update_step_result_flags [OF upd flatnonzero_distinct old]
  have "set (ended_ids (flatnonzero m) r) \<subseteq> {..<n}" using ended_ids_subset res(4) n by blast
  moreover have "flagged (Some res) i" if "i < n" "ln_done L ! i" "flagged (ln_merged L) i" for i
    using res(3) [of i] that skip by auto
  ultimately show ?thesis using ok res(1,2) n by (auto simp: lanes_ok_def)
qed

lemma serve_busy_triple:
  fixes hk :: "('o, 's) hooks"
  assumes n: "n = ec_num_envs cfg" and busy: "length busy = n" "\<And>i. i < n \<Longrightarrow> busy ! i \<Longrightarrow> \<not> ln_done L ! i"
  shows "triple (lanes_at n c L) (serve_busy cfg hk critic busy L) (\<lambda>L'. lanes_at n c L') ok_log"
proof (rule tripleI)
  fix s t :: "('o, 's) env_state"
  assume at: "lanes_at n c L s"
  then obtain F where ok: "lanes_ok n (fst c) F L" and core: "at_core c (F, True) s" by (auto simp: lanes_at_def)
  let ?need = "m_and (ln_intervened L) busy"
  have need: "length ?need = n" "\<And>i. i < n \<Longrightarrow> ?need ! i \<Longrightarrow> \<not> ln_done L ! i"
    using ok busy by (auto simp: lanes_ok_def)
  then have F: "F \<inter> set (flatnonzero ?need) = {}" using ok by (auto simp: lanes_ok_def)
  note run = execute_lanes_triple [OF F, of c cfg hk critic busy L]
  {
    fix L'
    assume "serve_busy cfg hk critic busy L s = (Inr L', t)"
    then consider "L' = L" "t = s" | res d r' where "execute_lanes cfg hk critic ?need busy L s = (Inr (r', res), t)"
        "mark_done (flatnonzero ?need) r' (ln_done res) = Inr d" "L' = res\<lparr>ln_done := d\<rparr>"
      by (auto simp: serve_busy_def Let_def stm_simps split: if_splits prod.splits)
    then show "lanes_at n c L' t"
    proof cases
      case 1
      with at show ?thesis by simp
    next
      case (2 res d r')
      from triple_InrD [OF run core 2(1)] obtain m where
        t: "at_core c (F \<union> set (ended_ids (flatnonzero ?need) r'), True) t"
        and m: "update_step_result cfg (ln_merged L) (flatnonzero ?need) r' = Inr m" "res = L\<lparr>ln_merged := Some m\<rparr>"
        by auto
      have "length (ln_done L) = n" using ok by (simp add: lanes_ok_def)
      then have "L' = L\<lparr>ln_merged := Some m, ln_done := map (\<lambda>i. ln_done L ! i \<or> i \<in> set (ended_ids (flatnonzero ?need) r')) [0..<n]\<rparr>"
        using 2(2,3) m(2) by (auto simp: mark_done_def split: if_splits)
      with execute_done_lanes [OF ok n m(1)] need(2) t show ?thesis by (auto simp: lanes_at_def)
    qed
  next
    fix e
    assume "serve_busy cfg hk critic busy L s = (Inl e, t)"
    then consider "execute_lanes cfg hk critic ?need busy L s = (Inl e, t)"
      | x where "execute_lanes cfg hk critic ?need busy L s = (Inr x, t)"
      by (auto simp: serve_busy_def Let_def bnd_def lift_res_def split: if_splits prod.splits sum.splits)
    then show "ok_log t"
      using triple_InlD [OF run core] triple_InrD [OF run core] by cases (auto intro: at_core_ok)
  }
qed

section \<open>The teleoperation loop\<close>

lemma apply_teleop_lengths: "apply_teleop_action n r a = Inr x \<Longrightarrow> length (an_mask x) = n \<and> length (an_restart x) = n"
  by (auto simp: apply_teleop_action_def Let_def split: if_splits)

lemma lanes_ok_note: "lanes_ok n b F L \<Longrightarrow> length (an_restart a) = n \<Longrightarrow> lanes_ok n b F (note_controls a L)"
  by (simp add: lanes_ok_def note_controls_def Let_def)

lemma lanes_ok_take_over:
  "take_over a busy L = Inr L' \<Longrightarrow> length busy = n \<Longrightarrow> lanes_ok n b F L \<Longrightarrow> lanes_ok n b F L'"
  by (auto simp: take_over_def Let_def res_simps lanes_ok_def)

lemma teleop_poll_triple:
  fixes hk :: "('o, 's) hooks"
  assumes n: "n = ec_num_envs cfg"
  shows "triple (lanes_at n c L) (teleop_poll cfg hk critic r L) (\<lambda>(L', again). lanes_at n c L') ok_log"
proof (rule tripleI)
  fix s t :: "('o, 's) env_state"
  assume at: "lanes_at n c L s"
  define noted where "noted a = note_controls a L" for a
  define busy where "busy a = m_and (an_mask a) (m_not (ln_done (noted a)))" for a
  have facts: "lanes_at n c (noted a) s \<and> length (busy a) = n \<and> (\<forall>i < n. busy a ! i \<longrightarrow> \<not> ln_done (noted a) ! i)"
    if "apply_teleop_action (ec_num_envs cfg) r (ln_action L) = Inr a" for a
  proof -
    have len: "length (an_mask a) = n" "length (an_restart a) = n"
      using apply_teleop_lengths [OF that] n by auto
    obtain F where "lanes_ok n (fst c) F L" "at_core c (F, True) s" using at by (auto simp: lanes_at_def)
    with lanes_ok_note [OF _ len(2)] have "lanes_ok n (fst c) F (noted a)" "at_core c (F, True) s" by (auto simp: noted_def)
    then show ?thesis using len(1) by (auto simp: lanes_at_def busy_def lanes_ok_def)
  qed
  have run: "triple (lanes_at n c (noted a)) (serve_busy cfg hk critic (busy a) (noted a)) (\<lambda>L'. lanes_at n c L') ok_log"
    if "apply_teleop_action (ec_num_envs cfg) r (ln_action L) = Inr a" for a
    using facts [OF that] by (intro serve_busy_triple [OF n]) auto
  have poll: "teleop_poll cfg hk critic r L s = bnd (lift_res (apply_teleop_action (ec_num_envs cfg) r (ln_action L)))
     (\<lambda>a. if \<not> m_any (busy a) then lift_res (Inr (noted a, False))
        else bnd (serve_busy cfg hk critic (busy a) (noted a))
              (\<lambda>L2. bnd (lift_res (take_over a (busy a) L2)) (\<lambda>L3. lift_res (Inr (L3, True))))) s"
    unfolding teleop_poll_def Let_def noted_def busy_def by (rule refl)
  show "(case x of (L', again) \<Rightarrow> lanes_at n c L') t" if "teleop_poll cfg hk critic r L s = (Inr x, t)" for x
  proof -
    from that obtain a where a: "apply_teleop_action (ec_num_envs cfg) r (ln_action L) = Inr a"
      and "x = (noted a, False) \<and> t = s \<or> (\<exists>L2 L3. serve_busy cfg hk critic (busy a) (noted a) s = (Inr L2, t) \<and>
           take_over a (busy a) L2 = Inr L3 \<and> x = (L3, True))"
      unfolding poll by (auto simp: stm_simps split: if_splits)
    then consider "x = (noted a, False)" "t = s" | L2 L3 where
      "serve_busy cfg hk critic (busy a) (noted a) s = (Inr L2, t)" "take_over a (busy a) L2 = Inr L3" "x = (L3, True)"
      by auto
    then show ?thesis
    proof cases
      case 1
      with facts [OF a] show ?thesis by simp
    next
      case (2 L2 L3)
      from facts [OF a] triple_InrD [OF run [OF a] _ 2(1)] have "lanes_at n c L2 t" by blast
      with 2(2,3) facts [OF a] show ?thesis by (auto simp: lanes_at_def intro: lanes_ok_take_over)
    qed
  qed
  show "ok_log t" if "teleop_poll cfg hk critic r L s = (Inl e, t)" for e
  proof (cases "apply_teleop_action (ec_num_envs cfg) r (ln_action L)")
    case (Inl e')
    with that at show ?thesis unfolding poll by (auto simp: bnd_def lift_res_def intro: lanes_at_ok)
  next
    case (Inr a)
    with that consider "serve_busy cfg hk critic (busy a) (noted a) s = (Inl e, t)"
      | L2 where "serve_busy cfg hk critic (busy a) (noted a) s = (Inr L2, t)"
      unfolding poll by (auto simp: bnd_def lift_res_def split: if_splits prod.splits sum.splits)
    then show ?thesis
    proof cases
      case 1
      with facts [OF Inr] triple_InlD [OF run [OF Inr]] show ?thesis by blast
    next
      case (2 L2)
      with facts [OF Inr] triple_InrD [OF run [OF Inr]] have "lanes_at n c L2 t" by blast
      then show ?thesis by (rule lanes_at_ok)
    qed
  qed
qed

lemma teleop_loop_triple:
  fixes hk :: "('o, 's) hooks"
  assumes n: "n = ec_num_envs cfg"
  shows "triple (lanes_at n c L) (teleop_loop cfg hk critic rs L) (\<lambda>(L', rest). lanes_at n c L') ok_log"
proof (induction rs arbitrary: L)
  case Nil
  show ?case unfolding teleop_loop.simps by (rule triple_pre [OF triple_lift]) simp
next
  case (Cons r rs)
  show ?case unfolding teleop_loop.simps
  proof (rule triple_bnd [OF teleop_poll_triple [OF n]])
    fix x :: "'o lanes \<times> bool"
    obtain L' again where x: "x = (L', again)" by (cases x)
    show "triple (case x of (L', again) \<Rightarrow> lanes_at n c L')
      (case x of (L', again) \<Rightarrow> if again then teleop_loop cfg hk critic rs L' else lift_res (Inr (L', rs)))
      (\<lambda>(L', rest). lanes_at n c L') ok_log"
    proof (cases again)
      case True
      with Cons.IH show ?thesis by (simp add: x)
    next
      case False
      then show ?thesis unfolding x prod.case by (simp, intro triple_pre [OF triple_lift]) simp
    qed
  qed
qed

section \<open>A low-level step\<close>

definition step_inv :: "nat \<Rightarrow> ('o, 's) env_state \<Rightarrow> bool" where
  "step_inv n s \<longleftrightarrow> ok_log s \<and> length (ev_done s) = n \<and> length (ev_chunk_intervened s) = n \<and>
     length (ev_restart s) = n \<and> flags_len n (ev_merged s) \<and> over s \<subseteq> {i. i < n \<and> ev_done s ! i}"

lemma lanes_at_start:
  assumes "step_inv n s" and "n = ec_num_envs cfg"
  shows "lanes_at n (core s) (start_lanes cfg a s) s"
  unfolding lanes_at_def
proof (intro exI conjI)
  show "lanes_ok n (fst (core s)) (over s) (start_lanes cfg a s)"
    using assms by (auto simp: lanes_ok_def step_inv_def start_lanes_def core_def Let_def)
  show "at_core (core s) (over s, True) s"
    using assms by (simp add: at_core_def step_inv_def never_stepped_after_end_def prod_eq_iff)
qed

definition stepped :: "nat \<Rightarrow> ('o, 's) env_state \<Rightarrow> 'o lanes \<Rightarrow> ('o, 's) env_state \<Rightarrow> bool" where
  "stepped n s L t \<longleftrightarrow> ok_log t \<and> core t = core s \<and> length (ln_chunk L) = n \<and> length (ln_restart L) = n \<and>
     flags_len n (ln_merged L) \<and> over t \<subseteq> {i. i < n \<and> (ev_done s ! i \<or> flagged (ln_merged L) i)}"

lemma lanes_ok_stepped:
  "lanes_ok n (ev_done s) F L \<Longrightarrow> at_core (core s) (F, True) t \<Longrightarrow> stepped n s L t"
  by (auto simp: stepped_def lanes_ok_def at_core_def never_stepped_after_end_def)

lemma stepped_done [simp]: "stepped n s (L\<lparr>ln_done := d\<rparr>) t = stepped n s L t"
  by (simp add: stepped_def)

lemma step_with_teleop_spec:
  fixes hk :: "('o, 's) hooks" and s :: "('o, 's) env_state"
  assumes inv: "step_inv n s" and n: "n = ec_num_envs cfg"
    and run: "step_with_teleop_and_recording cfg hk a critic s = (r, t)"
  shows "case r of Inr L \<Rightarrow> stepped n s L t | Inl e \<Rightarrow> ok_log t"
proof -
  define rs where "rs = (if ec_teleop cfg then ev_script s else [])"
  define polish :: "teleop_round list \<Rightarrow> ('o, 's) env_state \<Rightarrow> ('o, 's) env_state"
    where "polish rest u = (if ec_teleop cfg then u\<lparr>ev_script := rest\<rparr> else u)" for rest u
  define pm where "pm L = policy_mask (ev_chunk_intervened s) L" for L :: "'o lanes"
  have body: "step_with_teleop_and_recording cfg hk a critic s =
    bnd (teleop_loop cfg hk critic rs (start_lanes cfg a s))
       (\<lambda>(L, rest). bnd (upd (polish rest)) (\<lambda>_.
          if m_any (pm L) then bnd (execute_lanes cfg hk critic (pm L) (ln_intervened L) L)
                 (\<lambda>(_, L'). lift_res (Inr L')) else lift_res (Inr L))) s"
    unfolding step_with_teleop_and_recording_def reading_def Let_def rs_def polish_def pm_def by (rule refl)
  note loop = teleop_loop_triple [OF n, of "core s" "start_lanes cfg a s" hk critic rs]
  note start = lanes_at_start [OF inv n, of a]
  show ?thesis
  proof (cases "teleop_loop cfg hk critic rs (start_lanes cfg a s) s")
    case (Pair q u)
    show ?thesis
    proof (cases q)
      case (Inl e)
      with Pair run triple_InlD [OF loop start] show ?thesis unfolding body by (auto simp: bnd_def)
    next
      case (Inr x)
      obtain L rest where x: "x = (L, rest)" by (cases x)
      with triple_InrD [OF loop start, of x u] Pair Inr have "lanes_at n (core s) L u" by simp
      then obtain F where ok: "lanes_ok n (ev_done s) F L" and "at_core (core s) (F, True) u"
        by (auto simp: lanes_at_def core_def)
      then have at: "at_core (core s) (F, True) (polish rest u)" by (simp add: at_core_def core_def polish_def)
      have rest: "(if m_any (pm L) then bnd (execute_lanes cfg hk critic (pm L) (ln_intervened L) L)
                 (\<lambda>(_, L'). lift_res (Inr L')) else lift_res (Inr L)) (polish rest u) = (r, t)"
        using run unfolding body by (simp add: bnd_def Pair Inr x upd_def)
      have len: "length (pm L) = n" "\<And>i. i < n \<Longrightarrow> pm L ! i \<Longrightarrow> \<not> ln_done L ! i"
        using ok inv by (auto simp: pm_def policy_mask_def lanes_ok_def step_inv_def)
      then have F: "F \<inter> set (flatnonzero (pm L)) = {}" using ok by (auto simp: lanes_ok_def)
      note exec = execute_lanes_triple [OF F, of "core s" cfg hk critic "ln_intervened L" L]
      show ?thesis
      proof (cases "m_any (pm L)")
        case False
        with rest have "r = Inr L" "t = polish rest u" by (auto simp: lift_res_def)
        with lanes_ok_stepped [OF ok at] show ?thesis by simp
      next
        case True
        show ?thesis
        proof (cases "execute_lanes cfg hk critic (pm L) (ln_intervened L) L (polish rest u)")
          case step: (Pair q' v)
          show ?thesis
          proof (cases q')
            case (Inl e)
            with step rest True triple_InlD [OF exec at] show ?thesis by (auto simp: bnd_def)
          next
            case (Inr y)
            obtain r' L' where y: "y = (r', L')" by (cases y)
            then have res: "r = Inr L'" "t = v" using rest True step Inr by (auto simp: bnd_def lift_res_def)
            from triple_InrD [OF exec at, of y v] step Inr y obtain m where
              v: "at_core (core s) (F \<union> set (ended_ids (flatnonzero (pm L)) r'), True) v"
              and m: "update_step_result cfg (ln_merged L) (flatnonzero (pm L)) r' = Inr m" "L' = L\<lparr>ln_merged := Some m\<rparr>"
              by auto
            from execute_done_lanes [OF ok n m(1)] len
            have "lanes_ok n (ev_done s) (F \<union> set (ended_ids (flatnonzero (pm L)) r'))
              (L'\<lparr>ln_done := map (\<lambda>i. ln_done L ! i \<or> i \<in> set (ended_ids (flatnonzero (pm L)) r')) [0..<n]\<rparr>)"
              by (simp add: m(2))
            from lanes_ok_stepped [OF this v] res show ?thesis by simp
          qed
        qed
      qed
    qed
  qed
qed

definition fb_over :: "feedback \<Rightarrow> nat \<Rightarrow> bool" where
  "fb_over f i \<longleftrightarrow> fb_terminated f ! i \<or> fb_truncated f ! i"

lemma execute_action_step_spec:
  assumes inv: "step_inv n s" and n: "n = ec_num_envs cfg"
    and run: "execute_action_step cfg hk a critic started s = (r, t)"
  shows "case r of Inr f \<Rightarrow> step_inv n t \<and> (\<forall>i < n. ev_done t ! i \<longrightarrow> ev_done s ! i \<or> fb_over f i)
     | Inl e \<Rightarrow> ok_log t"
proof -
  define s0 where "s0 = (if started then s\<lparr>ev_chunk_intervened := replicate (ec_num_envs cfg) False\<rparr> else s)"
  have inv0: "step_inv n s0" "ev_done s0 = ev_done s" using inv n by (auto simp: s0_def step_inv_def)
  obtain q u where step: "step_with_teleop_and_recording cfg hk a critic s0 = (q, u)"
    by (cases "step_with_teleop_and_recording cfg hk a critic s0")
  note spec = step_with_teleop_spec [OF inv0(1) n step]
  show ?thesis
  proof (cases q)
    case (Inl e)
    with run step spec show ?thesis
      by (auto simp: execute_action_step_def reading_def bnd_def upd_def s0_def split: if_splits)
  next
    case (Inr L)
    with spec have st: "stepped n s0 L u" by simp
    define t0 where "t0 = u\<lparr>ev_merged := ln_merged L, ev_chunk_intervened := ln_chunk L,
        ev_restart := m_or (ev_restart u) (ln_restart L)\<rparr>"
    have run0: "(case ln_merged L of None \<Rightarrow> lift_res (Inl TypeError)
       | Some m \<Rightarrow> bnd (upd (\<lambda>t. t\<lparr>ev_done := m_or (m_or (ev_done t) (sr_terminated m)) (sr_truncated m)\<rparr>)) (\<lambda>_.
           lift_res (Inr (feedback_of (ev_done s) m)))) t0 = (r, t)"
      using run step Inr unfolding t0_def
      by (simp add: execute_action_step_def reading_def bnd_def upd_def flip: s0_def)
    show ?thesis
    proof (cases "ln_merged L")
      case None
      with run0 st show ?thesis by (auto simp: lift_res_def t0_def stepped_def)
    next
      case (Some m)
      with run0 have r: "r = Inr (feedback_of (ev_done s) m)"
        and t: "t = t0\<lparr>ev_done := m_or (m_or (ev_done t0) (sr_terminated m)) (sr_truncated m)\<rparr>"
        by (auto simp: bnd_def upd_def lift_res_def)
      have len: "length (sr_terminated m) = n" "length (sr_truncated m) = n" "length (ev_done s) = n"
        using st Some inv by (auto simp: stepped_def flags_len_def step_inv_def)
      have core: "ev_done u = ev_done s" "length (ev_restart u) = n"
        using st inv0 by (auto simp: stepped_def core_def step_inv_def)
      have "step_inv n t"
        using st Some len core inv0 by (auto simp: step_inv_def stepped_def t t0_def flagged_def)
      moreover have "ev_done t ! i \<longrightarrow> ev_done s ! i \<or> fb_over (feedback_of (ev_done s) m) i" if "i < n" for i
        using that len core by (simp add: t t0_def fb_over_def feedback_of_def)
      ultimately show ?thesis by (simp add: r)
    qed
  qed
qed

lemma run_steps_spec:
  assumes "step_inv n s" and "n = ec_num_envs cfg"
    and "run_steps (execute_action_step cfg hk) xs first s = (r, t)"
  shows "case r of Inr fs \<Rightarrow> step_inv n t \<and> length fs = length xs \<and>
       (\<forall>i < n. ev_done t ! i \<longrightarrow> ev_done s ! i \<or> (\<exists>f \<in> set fs. fb_over f i))
     | Inl e \<Rightarrow> ok_log t"
  using assms
proof (induction xs arbitrary: first s r t)
  case (Cons x xs)
  obtain a v where x: "x = (a, v)" by (cases x)
  obtain q u where step: "execute_action_step cfg hk a v first s = (q, u)"
    by (cases "execute_action_step cfg hk a v first s")
  note spec = execute_action_step_spec [OF Cons.prems(1,2) step]
  show ?case
  proof (cases q)
    case (Inl e)
    with spec step Cons.prems(3) x show ?thesis by auto
  next
    case (Inr f)
    obtain q' w where more: "run_steps (execute_action_step cfg hk) xs False u = (q', w)"
      by (cases "run_steps (execute_action_step cfg hk) xs False u")
    from spec Inr have "step_inv n u" by simp
    from Cons.IH [OF this Cons.prems(2) more] spec step Cons.prems(3) x Inr more
    show ?thesis by (auto split: sum.splits) blast
  qed
qed auto

section \<open>The end of a chunk\<close>

text \<open>
  What the hook for deferred observations must keep: it may replace observations, not the
  done flags, which the code documents as "preserving per-control-step reward/done feedback".
\<close>

definition finalize_keeps_flags :: "('o, 's) hooks \<Rightarrow> bool" where
  "finalize_keeps_flags hk \<longleftrightarrow> (\<forall>m ids sim m' sim'. hk_finalize hk m ids sim = (Inr m', sim') \<longrightarrow>
     sr_terminated m' = sr_terminated m \<and> sr_truncated m' = sr_truncated m)"

lemma update_obs_flags:
  "update_obs ids src dst = Inr dst' \<Longrightarrow> sr_terminated dst' = sr_terminated dst \<and> sr_truncated dst' = sr_truncated dst"
  for dst :: "'o step_result"
  by (auto simp: update_obs_def res_simps)

lemma confirm_quiet: "list_all no_sim (if ec_confirm cfg \<and> ec_teleop cfg then map Confirm ids else [])"
  and publish_quiet: "list_all no_sim (if ec_teleop cfg then map Publish ids else [])"
  by (auto simp: list_all_iff)

lemma after_reset_quiet:
  "at_core c p s \<Longrightarrow> at_core c p (confirm_before_record cfg ids (publish_reset_obs_to_teleop cfg ids s))"
  unfolding confirm_before_record_def publish_reset_obs_to_teleop_def
  by (metis at_core_emit no_sim_read confirm_quiet publish_quiet)

lemma sim_reset_triple:
  "triple (at_core c (F, True)) (upd (emit [SimReset ids b])) (\<lambda>_. at_core c (F - set ids, True)) ok_log"
proof (rule triple_pre [OF triple_upd])
  fix s assume "at_core c (F, True) s"
  from at_core_emit [OF this, of "[SimReset ids b]"]
  show "at_core c (F - set ids, True) (emit [SimReset ids b] s)" by simp
qed

lemma reset_done_envs_triple:
  "triple (at_core c (F, True)) (reset_done_envs cfg hk r m)
     (\<lambda>r' s. at_core c (F - (if ec_auto_reset cfg then set (flatnonzero m) else {}), True) s \<and>
        sr_terminated r' = sr_terminated r \<and> sr_truncated r' = sr_truncated r) ok_log"
proof (cases "\<not> ec_auto_reset cfg \<or> flatnonzero m = []")
  case True
  then have "reset_done_envs cfg hk r m = lift_res (Inr r)"
    and "F - (if ec_auto_reset cfg then set (flatnonzero m) else {}) = F"
    by (auto simp: reset_done_envs_def simp del: set_flatnonzero)
  then show ?thesis by (simp add: triple_def lift_res_def)
next
  case False
  let ?ids = "flatnonzero m"
  define rest where "rest = bnd (call_sim (hk_reset hk ?ids False)) (\<lambda>reset_obs.
        bnd (lift_res (update_obs ?ids reset_obs r)) (\<lambda>r'.
        bnd (reset_recorder_envs ?ids) (\<lambda>_.
        bnd (upd (\<lambda>t. confirm_before_record cfg ?ids (publish_reset_obs_to_teleop cfg ?ids t))) (\<lambda>_.
        lift_res (Inr r')))))"
  have body: "reset_done_envs cfg hk r m = bnd (upd (emit [SimReset ?ids False])) (\<lambda>_. rest)"
    using False by (simp add: reset_done_envs_def rest_def Let_def)
  have quiet: "keeps (at_core c (F - set ?ids, True)) rest"
    unfolding rest_def by (intro keeps_rules) (rule after_reset_quiet)
  have flags: "sr_terminated r' = sr_terminated r \<and> sr_truncated r' = sr_truncated r"
    if "rest s = (Inr r', t)" for s r' t
    using that update_obs_flags by (auto simp: rest_def stm_simps)
  have "triple (at_core c (F - set ?ids, True)) rest
     (\<lambda>r' s. at_core c (F - set ?ids, True) s \<and> sr_terminated r' = sr_terminated r \<and> sr_truncated r' = sr_truncated r) ok_log"
    using flags keepsD [OF quiet] by (intro tripleI) (metis snd_conv at_core_ok)+
  with False show ?thesis unfolding body by (simp add: triple_bnd [OF sim_reset_triple])
qed

lemma step_inv_core: "at_core c (F, True) s \<Longrightarrow> fst c = d \<Longrightarrow> over s = F \<and> ok_log s \<and> core s = c"
  by (simp add: at_core_def never_stepped_after_end_def)

text \<open>Between chunks: with automatic reset no environment is left in its final state.\<close>

definition chunk_inv :: "'o env_config \<Rightarrow> ('o, 's) env_state \<Rightarrow> bool" where
  "chunk_inv cfg s \<longleftrightarrow> step_inv (ec_num_envs cfg) s \<and>
     (ec_auto_reset cfg \<longrightarrow> (\<forall>i < ec_num_envs cfg. \<not> ev_done s ! i))"

lemma finish_execution_slice_spec:
  assumes inv: "step_inv n s" and n: "n = ec_num_envs cfg" and hk: "finalize_keeps_flags hk"
    and shown: "ec_auto_reset cfg \<Longrightarrow> \<forall>i < n. ev_done s ! i \<longrightarrow> (\<exists>f \<in> set steps. fb_over f i)"
    and run: "finish_execution_slice cfg hk steps s = (r, t)"
  shows "case r of Inr y \<Rightarrow> chunk_inv cfg t | Inl e \<Rightarrow> ok_log t"
proof -
  define done_mask where "done_mask = map (\<lambda>i. list_ex (\<lambda>f. fb_terminated f ! i \<or> fb_truncated f ! i) steps) [0..<n]"
  define reset_mask where "reset_mask = m_or done_mask (ev_restart s)"
  have ok: "ok_log s" and at: "at_core (core s) (over s, True) s"
    using inv by (simp_all add: step_inv_def at_core_def never_stepped_after_end_def prod_eq_iff)
  show ?thesis
  proof (cases "steps = [] \<or> isl (stack_scores n steps) \<or> ev_merged s = None")
    case True
    then have "\<exists>e. finish_execution_slice cfg hk steps s = (Inl e, s)"
      by (cases "steps = []"; cases "stack_scores n steps")
        (simp_all add: finish_execution_slice_def reading_def Let_def bnd_def lift_res_def flip: n)
    with run ok show ?thesis by auto
  next
    case False
    then obtain m0 sc where m0: "ev_merged s = Some m0" and sc: "stack_scores n steps = Inr sc" and "steps \<noteq> []"
      by (auto simp: isl_def) (metis sum.exhaust)
    define s1 where "s1 = snd (call_sim (hk_finalize hk m0 [0..<n]) s)"
    define tail where "tail m = bnd (upd (\<lambda>t. t\<lparr>ev_merged := Some m\<rparr>)) (\<lambda>_.
               bnd (reset_done_envs cfg hk m reset_mask) (\<lambda>r.
               bnd (upd (\<lambda>t. t\<lparr>ev_merged := Some r, ev_latest_obs := Some (obs_of r),
                               ev_restart := replicate n False,
                               ev_done := (if ec_auto_reset cfg then replicate n False else ev_done t)\<rparr>)) (\<lambda>_.
               lift_res (Inr (\<lparr>cr_obs = obs_of r,
                     cr_reward = stack_steps n (map fb_reward steps),
                     cr_terminated = stack_steps n (map fb_terminated steps),
                     cr_truncated = stack_steps n (map fb_truncated steps),
                     cr_success = stack_steps n (map fb_success steps),
                     cr_score = sc\<rparr>,
                   if ec_auto_reset cfg then reset_mask else replicate n False)))))" for m
    have body: "finish_execution_slice cfg hk steps s = bnd (call_sim (hk_finalize hk m0 [0..<n])) tail s"
      using \<open>steps \<noteq> []\<close> m0 sc unfolding finish_execution_slice_def reading_def tail_def done_mask_def reset_mask_def n
      by (simp add: Let_def bnd_def lift_res_def)
    have at1: "at_core (core s) (over s, True) s1"
      unfolding s1_def by (rule keepsD [OF quiet_call_sim at])
    show ?thesis
    proof (cases "fst (call_sim (hk_finalize hk m0 [0..<n]) s)")
      case (Inl e)
      with run at1 show ?thesis unfolding body s1_def
        by (auto simp: bnd_def split: prod.splits intro: at_core_ok)
    next
      case (Inr m)
      then have call: "call_sim (hk_finalize hk m0 [0..<n]) s = (Inr m, s1)" by (simp add: s1_def prod_eq_iff)
      then have "sr_terminated m = sr_terminated m0 \<and> sr_truncated m = sr_truncated m0"
        using hk unfolding finalize_keeps_flags_def call_sim_def
        by (metis (no_types, lifting) prod.case_eq_if prod.collapse prod.inject)
      then have lens: "length (sr_terminated m) = n" "length (sr_truncated m) = n"
        using inv m0 by (auto simp: step_inv_def flags_len_def)
      have tail: "tail m s1 = (r, t)" using run call unfolding body by (simp add: bnd_def)
      define s2 where "s2 = s1\<lparr>ev_merged := Some m\<rparr>"
      have at2: "at_core (ev_done s, ev_chunk_intervened s, ev_restart s, Some m) (over s, True) s2"
        using at1 by (simp add: at_core_def core_def s2_def)
      note reset = reset_done_envs_triple [of "(ev_done s, ev_chunk_intervened s, ev_restart s, Some m)" "over s" cfg hk m reset_mask]
      show ?thesis
      proof (cases "reset_done_envs cfg hk m reset_mask s2")
        case (Pair q u)
        show ?thesis
        proof (cases q)
          case (Inl e)
          with tail Pair triple_InlD [OF reset at2] show ?thesis
            by (auto simp: tail_def bnd_def upd_def s2_def)
        next
          case (Inr r1)
          from triple_InrD [OF reset at2, of r1 u] Pair Inr
          have u: "over u = over s - (if ec_auto_reset cfg then set (flatnonzero reset_mask) else {})" "ok_log u"
            "ev_done u = ev_done s" "ev_chunk_intervened u = ev_chunk_intervened s"
            and r1: "length (sr_terminated r1) = n" "length (sr_truncated r1) = n"
            using lens by (auto simp: at_core_def core_def never_stepped_after_end_def)
          have t: "t = u\<lparr>ev_merged := Some r1, ev_latest_obs := Some (obs_of r1), ev_restart := replicate n False,
               ev_done := (if ec_auto_reset cfg then replicate n False else ev_done u)\<rparr>" and "isl r = False"
            using tail Pair Inr by (auto simp: tail_def bnd_def upd_def s2_def lift_res_def)
          have "over u = {}" if "ec_auto_reset cfg"
          proof -
            have "i \<in> set (flatnonzero reset_mask)" if "i \<in> over s" for i
            proof -
              have i: "i < n" "ev_done s ! i" using that inv by (auto simp: step_inv_def)
              with shown \<open>ec_auto_reset cfg\<close> have "done_mask ! i"
                by (auto simp: done_mask_def list_ex_iff fb_over_def)
              then show ?thesis using i inv by (auto simp: reset_mask_def done_mask_def step_inv_def)
            qed
            with u(1) that show ?thesis by auto
          qed
          then have "chunk_inv cfg t"
            using inv u r1 n by (auto simp: chunk_inv_def step_inv_def t flags_len_def)
          with \<open>isl r = False\<close> show ?thesis by (cases r) auto
        qed
      qed
    qed
  qed
qed

section \<open>Sessions of chunks and resets\<close>

text \<open>
  A client of the serial executor that stays within its contract: chunks that succeed, and resets
  that succeed and cover every environment that has finished. The repository's own clients reset all
  environments; what a reset of only some does is shown below (\<open>partial_reset_steps_finished\<close>).
\<close>

inductive session ::
  "'o env_config \<Rightarrow> ('o, 's) hooks \<Rightarrow> serial_executor \<times> ('o, 's) env_state \<Rightarrow>
   serial_executor \<times> ('o, 's) env_state \<Rightarrow> bool" for cfg hk where
  chunk: "step_chunk cfg hk actions vals se s = (Inr r, se', s') \<Longrightarrow> session cfg hk (se, s) (se', s')"
| reset: "reset_env cfg hk changed opts s = (Inr obs, s') \<Longrightarrow>
    \<forall>i < ec_num_envs cfg. ev_done s ! i \<longrightarrow> i \<in> set (reset_env_ids cfg opts) \<Longrightarrow>
    session cfg hk (se, s) (serial_reset se, s')"

inductive_cases session_cases: "session cfg hk c c'"

lemma step_chunk_spec:
  assumes inv: "chunk_inv cfg s" and hk: "finalize_keeps_flags hk"
    and run: "step_chunk cfg hk actions vals se s = (r, se', t)"
  shows "ok_log t \<and> (\<forall>y. r = Inr y \<longrightarrow> chunk_inv cfg t)"
proof -
  let ?n = "ec_num_envs cfg"
  have s: "step_inv ?n s" "ok_log s" using inv by (auto simp: chunk_inv_def step_inv_def)
  have finish: "case q of Inr y \<Rightarrow> chunk_inv cfg t' | Inl e \<Rightarrow> ok_log t'"
    if steps: "run_steps (execute_action_step cfg hk) xs True s = (Inr fs, u)"
      and fin: "finish_execution_slice cfg hk fs u = (q, t')" for xs fs u q t'
  proof -
    have u: "step_inv ?n u" "\<forall>i < ?n. ev_done u ! i \<longrightarrow> ev_done s ! i \<or> (\<exists>f \<in> set fs. fb_over f i)"
      using run_steps_spec [OF s(1) refl steps] by auto
    show ?thesis
      by (rule finish_execution_slice_spec [OF u(1) refl hk _ fin]) (use u(2) inv in \<open>auto simp: chunk_inv_def\<close>)
  qed
  have error: "ok_log u" if "run_steps (execute_action_step cfg hk) xs True s = (Inl e, u)" for xs e u
    using run_steps_spec [OF s(1) refl that] by simp
  have inv_ok: "chunk_inv cfg t' \<Longrightarrow> ok_log t'" for t' :: "('a, 'b) env_state"
    by (simp add: chunk_inv_def step_inv_def)
  show ?thesis
  proof (cases "chunk_values_of actions vals")
    case (Inl e)
    with run s show ?thesis by (auto simp: step_chunk_def)
  next
    case (Inr v)
    show ?thesis
    proof (cases "bind_res (prepare (se_factor se) actions v) (\<lambda>(a, v). plan_serial se a v)")
      case (Inl e)
      with run s \<open>chunk_values_of actions vals = Inr v\<close> show ?thesis
        by (auto simp: step_chunk_def serial_exchange_def)
    next
      case plan: (Inr p)
      obtain se1 a1 v1 where p: "p = (se1, a1, v1)" by (cases p)
      obtain q u where steps: "run_steps (execute_action_step cfg hk) (zip a1 v1) True s = (q, u)"
        by (cases "run_steps (execute_action_step cfg hk) (zip a1 v1) True s")
      have exch: "step_chunk cfg hk actions vals se s =
        (case q of Inl err \<Rightarrow> (Inl err, se1, u)
         | Inr fs \<Rightarrow> (case finish_execution_slice cfg hk fs u of
              (Inl err, e2) \<Rightarrow> (Inl err, se1, e2)
            | (Inr (r, reset_mask), e2) \<Rightarrow> (Inr r, se1\<lparr>se_previous_valid :=
                map_option (\<lambda>valid. map2 (\<lambda>v m. v \<and> \<not> m) valid reset_mask) (se_previous_valid se1)\<rparr>, e2)))"
        using Inr plan p steps by (simp add: step_chunk_def serial_exchange_def split: sum.split)
      show ?thesis
      proof (cases q)
        case (Inl e)
        with exch run steps error show ?thesis by auto
      next
        case (Inr fs)
        obtain q' t' where fin: "finish_execution_slice cfg hk fs u = (q', t')"
          by (cases "finish_execution_slice cfg hk fs u")
        have "case q' of Inr y \<Rightarrow> chunk_inv cfg t' | Inl e \<Rightarrow> ok_log t'"
          using finish steps Inr fin by blast
        with exch run Inr fin inv_ok show ?thesis by (auto split: sum.splits prod.splits)
      qed
    qed
  qed
qed

lemma reset_env_spec:
  assumes inv: "chunk_inv cfg s"
    and cover: "\<forall>i < ec_num_envs cfg. ev_done s ! i \<longrightarrow> i \<in> set (reset_env_ids cfg opts)"
    and run: "reset_env cfg hk changed opts s = (Inr obs, t)"
  shows "chunk_inv cfg t"
proof -
  let ?n = "ec_num_envs cfg" and ?ids = "reset_env_ids cfg opts"
  let ?none = "replicate ?n False"
  define c where "c = (?none, ev_chunk_intervened s, ?none, None :: 'a step_result option)"
  define s0 where "s0 = reset_flags cfg changed (ro_mode opts) s"
  have ok: "ok_log s" "over s \<subseteq> {i. i < ?n \<and> ev_done s ! i}" "length (ev_chunk_intervened s) = ?n"
    using inv by (auto simp: chunk_inv_def step_inv_def)
  have s0: "at_core c (over s, True) s0"
    using ok(1) by (auto simp: s0_def c_def reset_flags_def at_core_def core_def emit_def sim_read_append Let_def
        never_stepped_after_end_def prod_eq_iff sim_event_quiet)
  have inv_at: "chunk_inv cfg u" if "at_core c ({}, True) u" for u :: "('a, 'b) env_state"
    using that ok(3) by (auto simp: at_core_def core_def c_def chunk_inv_def step_inv_def flags_len_def
        never_stepped_after_end_def)
  define cached where "cached = (if ec_auto_reset cfg \<and> \<not> ro_reset_eval opts then ev_latest_obs s0 else None)"
  define rest where "rest = bnd (call_sim (hk_reset hk ?ids (ro_reset_eval opts))) (\<lambda>obs.
            bnd (upd (\<lambda>t. emit (if ec_teleop cfg then [TeleopReset] else []) (t\<lparr>ev_latest_obs := Some obs\<rparr>))) (\<lambda>_.
            bnd (reset_recorder_envs ?ids) (\<lambda>_.
            bnd (upd (\<lambda>t. confirm_before_record cfg ?ids (publish_reset_obs_to_teleop cfg ?ids t))) (\<lambda>_.
            lift_res (Inr obs)))))"
  have body: "reset_env cfg hk changed opts s =
     (case cached of Some latest \<Rightarrow> (Inr latest, s0)
      | None \<Rightarrow> rest (emit [SimReset ?ids (ro_reset_eval opts)] s0))"
    by (simp add: reset_env_def bnd_def upd_def reading_def lift_res_def cached_def s0_def rest_def Let_def split: option.split)
  have quiet: "keeps (at_core c p) rest" for p
  proof -
    have "at_core c p (emit (if ec_teleop cfg then [TeleopReset] else []) (t\<lparr>ev_latest_obs := Some obs\<rparr>))"
      if "at_core c p t" for t :: "('a, 'b) env_state" and obs
      using that by (cases p) (auto simp: at_core_def core_def emit_def sim_read_append)
    then show ?thesis unfolding rest_def by (intro keeps_rules after_reset_quiet)
  qed
  show ?thesis
  proof (cases cached)
    case (Some latest)
    then have "over s = {}" using inv ok(2) by (auto simp: cached_def chunk_inv_def split: if_splits)
    with s0 run Some show ?thesis unfolding body by (auto intro: inv_at)
  next
    case None
    from at_core_emit [OF s0, of "[SimReset ?ids (ro_reset_eval opts)]"] ok(2) cover
    have "at_core c ({}, True) (emit [SimReset ?ids (ro_reset_eval opts)] s0)"
      by (auto simp: Diff_eq_empty_iff [THEN iffD2] subset_iff)
    from keepsD [OF quiet this] run None show ?thesis unfolding body by (auto intro: inv_at)
  qed
qed

definition hooked :: "('o, 's) hooks \<Rightarrow> 'o env_config \<Rightarrow> serial_executor \<times> ('o, 's) env_state \<Rightarrow> bool" where
  "hooked hk cfg c \<longleftrightarrow> finalize_keeps_flags hk \<and> base_start cfg c"

interpretation stepping: transition_system "hooked hk cfg" "session cfg hk"
  "\<lambda>c. finalize_keeps_flags hk \<and> chunk_inv cfg (snd c)"
  for cfg :: "'o env_config" and hk :: "('o, 's) hooks"
proof unfold_locales
  fix c :: "serial_executor \<times> ('o, 's) env_state"
  assume "hooked hk cfg c"
  then show "finalize_keeps_flags hk \<and> chunk_inv cfg (snd c)"
    by (auto simp: hooked_def base_start_def new_env_def chunk_inv_def step_inv_def flags_len_def
        never_stepped_after_end_def sim_read_def)
next
  fix c c' :: "serial_executor \<times> ('o, 's) env_state"
  assume "session cfg hk c c'" "finalize_keeps_flags hk \<and> chunk_inv cfg (snd c)"
  then show "finalize_keeps_flags hk \<and> chunk_inv cfg (snd c')"
    by (elim session_cases) (auto dest: step_chunk_spec reset_env_spec)
qed

text \<open>
  C33. In a session of successful chunks and of successful resets that cover every finished environment (with the
  serial executor and a simulator whose \<open>finalize\<close> does not change the done flags), however an
  operator intervenes, rewards, restarts or stops, and however many chunks the policy sends, an
  environment that has reported the end of its episode is never stepped again before the
  simulator resets it; this includes the next chunk, whether it succeeds or raises.
\<close>

theorem finished_environment_never_stepped:
  assumes "base_start cfg c" and "(session cfg hk)\<^sup>*\<^sup>* c (se, s)" and "finalize_keeps_flags hk"
    and "step_chunk cfg hk actions vals se s = (r, se', s')"
  shows "never_stepped_after_end (ev_log s')"
proof -
  have "hooked hk cfg c" using assms(1,3) by (simp add: hooked_def)
  from stepping.reachable_inv [OF this assms(2)] have "chunk_inv cfg s" by simp
  from step_chunk_spec [OF this assms(3,4)] show ?thesis by blast
qed

theorem finished_environment_never_stepped_witness:
  "never_stepped_after_end (ev_log toy_after) \<and> Step [1] \<in> set (ev_log toy_after)"
proof -
  have start: "base_start toy_config (toy_executor, new_env toy_config True [0, 0] [])"
    unfolding base_start_def by blast
  have "\<not> isl (fst (reset_env toy_config toy_hooks False
     \<lparr>ro_env_idx = None, ro_reset_eval = True, ro_mode = ''eval''\<rparr> (new_env toy_config True [0, 0] [])))" by code_simp
  then obtain obs where "reset_env toy_config toy_hooks False
     \<lparr>ro_env_idx = None, ro_reset_eval = True, ro_mode = ''eval''\<rparr> (new_env toy_config True [0, 0] []) = (Inr obs, toy_env)"
    unfolding toy_env_def by (metis prod.collapse sum.collapse(2))
  then have "session toy_config toy_hooks (toy_executor, new_env toy_config True [0, 0] []) (serial_reset toy_executor, toy_env)"
    by (rule session.reset) (simp add: new_env_def toy_config_def)
  moreover have "serial_reset toy_executor = toy_executor" by (simp add: serial_reset_def toy_executor_def)
  ultimately have run: "(session toy_config toy_hooks)\<^sup>*\<^sup>* (toy_executor, new_env toy_config True [0, 0] []) (toy_executor, toy_env)"
    by auto
  have hk: "finalize_keeps_flags toy_hooks" by (simp add: finalize_keeps_flags_def toy_hooks_def)
  have "step_chunk toy_config toy_hooks toy_actions NoValues toy_executor toy_env =
    (fst (step_chunk toy_config toy_hooks toy_actions NoValues toy_executor toy_env),
     fst (snd (step_chunk toy_config toy_hooks toy_actions NoValues toy_executor toy_env)), toy_after)"
    by (simp add: toy_after_def)
  from finished_environment_never_stepped [OF start run hk this]
  have "never_stepped_after_end (ev_log toy_after)" .
  moreover have "Step [1] \<in> set (ev_log toy_after)" by code_simp
  ultimately show ?thesis ..
qed

text \<open>
  The condition on resets is needed: \<open>BaseEnv.reset\<close> clears the done flags of all environments, also of those
  that \<open>env_idx\<close> does not name. Here both environments finish, only environment 0 is reset, and the
  next chunk steps environment 1 past its end.
\<close>

definition toy_partial :: "(nat, nat list) env_state" where
  "toy_partial = snd (reset_env toy_config toy_hooks False
     \<lparr>ro_env_idx = Some [0], ro_reset_eval = False, ro_mode = ''eval''\<rparr> toy_after)"

lemma partial_reset_steps_finished:
  "fst (sim_read (ev_log toy_partial)) = {1}"
  "\<not> never_stepped_after_end (ev_log (snd (snd
      (step_chunk toy_config toy_hooks toy_actions NoValues toy_executor toy_partial))))"
  by code_simp+

end
