(* ===== verification/Base_Env_Step.thy ===== *)
theory Base_Env_Step
  imports Base_Env_Safety
begin

text \<open>What one low-level step reports when no operator is attached.\<close>

section \<open>A policy step without an operator\<close>

lemma override_loop_none:
  "override_loop hit change n k ids r = Inr r' \<Longrightarrow> \<forall>i \<in> set ids. \<not> hit i \<Longrightarrow> r' = r"
  by (induction ids arbitrary: k) (auto split: if_splits)

lemma no_override:
  assumes "apply_manual_step_overrides r ids (Some (replicate n 0)) (Some (replicate n False)) = Inr r'"
    and "\<forall>i \<in> set ids. i < n"
  shows "r' = r"
  using assms by (auto simp: apply_manual_step_overrides_def res_simps dest!: override_loop_none)

lemma update_step_result_rows:
  assumes "update_step_result cfg old ids r = Inr m" and "distinct ids" and "k < length ids"
  shows "row_at m (ids ! k) = row_at r k \<and> ob_observation m ! (ids ! k) = ob_observation r ! k \<and>
    (\<forall>sc. sr_score r = Some sc \<longrightarrow> (\<exists>sm. sr_score m = Some sm \<and> sm ! (ids ! k) = sc ! k))"
  using assms
  by (auto simp: update_step_result_def Let_def res_simps row_at_def merge_scores_def scatter_spec(4) split: option.splits)

text \<open>One low-level step without teleoperation calls the simulator once, on exactly the
  environments that have not finished and with exactly their rows of the action; the feedback
  of such an environment is its own row of the simulator's answer, and the feedback of an
  environment that had finished is no reward and no flag.
\<close>

theorem policy_step_feedback:
  assumes run: "execute_action_step cfg hk a critic True s = (Inr f, t)"
    and idle: "\<not> ec_teleop cfg" and inv: "step_inv (ec_num_envs cfg) s"
    and merged: "\<forall>m0. ev_merged s = Some m0 \<longrightarrow>
      length (sr_reward m0) = ec_num_envs cfg \<and> length (sr_success m0) = ec_num_envs cfg"
    and live: "flatnonzero (m_not (ev_done s)) = ids" "ids \<noteq> []"
  shows "\<exists>r sim. hk_step hk (map ((!) a) ids) ids (ev_sim s) = (Inr r, sim) \<and> ev_sim t = sim \<and>
    (\<forall>k < length ids. fb_reward f ! (ids ! k) = sr_reward r ! k \<and> fb_success f ! (ids ! k) = sr_success r ! k \<and>
       fb_terminated f ! (ids ! k) = sr_terminated r ! k \<and> fb_truncated f ! (ids ! k) = sr_truncated r ! k) \<and>
    (\<forall>i < ec_num_envs cfg. i \<notin> set ids \<longrightarrow> \<not> fb_terminated f ! i \<and> \<not> fb_truncated f ! i)"
proof -
  let ?n = "ec_num_envs cfg"
  have len: "length (ev_done s) = ?n" using inv by (simp add: step_inv_def)
  define s0 where "s0 = s\<lparr>ev_chunk_intervened := replicate ?n False\<rparr>"
  define L where "L = start_lanes cfg a s0"
  have pm: "policy_mask (ev_chunk_intervened s0) L = m_not (ev_done s)"
    using len by (intro nth_equalityI) (simp_all add: policy_mask_def L_def start_lanes_def s0_def Let_def)
  have any: "m_any (m_not (ev_done s))"
  proof -
    have "hd ids \<in> set (flatnonzero (m_not (ev_done s)))" using live by simp
    then have "hd ids < length (m_not (ev_done s))" "m_not (ev_done s) ! hd ids"
      unfolding set_flatnonzero by blast+
    then show ?thesis unfolding m_any_def list_ex_iff id_def by (metis nth_mem)
  qed
  obtain L' u where step: "step_with_teleop_and_recording cfg hk a critic s0 = (Inr L', u)"
    and u: "\<exists>m. ln_merged L' = Some m \<and> f = feedback_of (ev_done s) m" "ev_sim t = ev_sim u"
    using run unfolding execute_action_step_def reading_def s0_def
    by (auto simp: stm_simps split: option.splits)
  have "\<exists>r. execute_lanes cfg hk critic (m_not (ev_done s)) (ln_intervened L) L s0 = (Inr (r, L'), u)"
    using step idle any unfolding step_with_teleop_and_recording_def reading_def
    by (auto simp: stm_simps Let_def pm [unfolded L_def] L_def)
  then obtain r m where "mask_step cfg hk (ln_action L) (m_not (ev_done s)) (ln_intervened L) critic
        (Some (ln_manual L)) (Some (ln_forced L)) s0 = (Inr r, u)"
    and "update_step_result cfg (ln_merged L) (flatnonzero (m_not (ev_done s))) r = Inr m"
    and m': "ln_merged L' = Some m"
    unfolding execute_lanes_def stm_simps by auto
  moreover have "ln_action L = a" "ln_manual L = replicate ?n 0" "ln_forced L = replicate ?n False"
    by (simp_all add: L_def start_lanes_def Let_def)
  ultimately have mask_step: "mask_step cfg hk a (m_not (ev_done s)) (ln_intervened L) critic
        (Some (replicate ?n 0)) (Some (replicate ?n False)) s0 = (Inr r, u)"
    and m: "update_step_result cfg (ln_merged L) ids r = Inr m" "ln_merged L' = Some m"
    using live(1) m' by simp_all
  have ids: "distinct ids" "set ids = {i. i < ?n \<and> \<not> ev_done s ! i}"
    unfolding live(1) [symmetric] using len by auto
  have quiet_sim: "ev_sim (snd (record_loop fr k is w)) = ev_sim w" for fr k "is" and w :: "('a, 'b) env_state"
    by (induction fr k "is" w rule: record_loop.induct) (auto split: sum.split simp: record_frame_def emit_def)
  have rec: "ev_sim y = ev_sim w" if "record_step_result r acts is iv vals w = (Inr x, y)"
    for acts "is" iv vals x and w y :: "('a, 'b) env_state"
    using that quiet_sim by (auto simp: record_step_result_def split: if_splits sum.splits) (metis snd_conv)
  have upd: "ev_sim y = ev_sim w" if "update_latest_obs ids r w = (Inr x, y)" for x and w y :: "('a, 'b) env_state"
    using that by (auto simp: update_latest_obs_def split: option.splits sum.splits if_splits)
  have "gather ids a = Inr (map ((!) a) ids)"
    using mask_step unfolding mask_step_def Let_def live(1) by (auto simp: stm_simps dest: gather_spec)
  moreover obtain q sim where hq: "hk_step hk (map ((!) a) ids) ids (ev_sim s) = (q, sim)"
    by (cases "hk_step hk (map ((!) a) ids) ids (ev_sim s)")
  ultimately obtain r0 val ua w where q: "q = Inr r0"
    and over: "apply_manual_step_overrides r0 ids (Some (replicate ?n 0)) (Some (replicate ?n False)) = Inr r"
    and w: "record_step_result r (map ((!) a) ids) ids (ln_intervened L) val w = (Inr (), ua)" "ev_sim w = sim"
    and ua: "update_latest_obs ids r ua = (Inr (), u)"
    using mask_step unfolding mask_step_def Let_def live(1)
    by (auto simp: stm_simps call_sim_def emit_def s0_def)
  then have hk: "hk_step hk (map ((!) a) ids) ids (ev_sim s) = (Inr r0, sim)" and sim: "ev_sim u = sim"
    using hq rec [OF w(1)] upd [OF ua] by simp_all
  have r: "r = r0" using no_override [OF over] ids by auto
  from u(1) m(2) have f: "f = feedback_of (ev_done s) m" by auto
  have len_m: "length (sr_terminated m) = ?n" "length (sr_truncated m) = ?n"
    "length (sr_reward m) = ?n" "length (sr_success m) = ?n"
    using m(1) ids(1) inv merged
    by (auto simp: update_step_result_def Let_def res_simps L_def start_lanes_def s0_def empty_result_def
        step_inv_def flags_len_def scatter_spec(1) split: option.splits)
  have row: "fb_reward f ! (ids ! k) = sr_reward r ! k \<and> fb_success f ! (ids ! k) = sr_success r ! k \<and>
       fb_terminated f ! (ids ! k) = sr_terminated r ! k \<and> fb_truncated f ! (ids ! k) = sr_truncated r ! k"
    if k: "k < length ids" for k
  proof -
    have "ids ! k \<in> set ids" using k by simp
    then have "ids ! k < ?n" "\<not> ev_done s ! (ids ! k)" using ids(2) by auto
    with update_step_result_rows [OF m(1) ids(1) k] len_m len show ?thesis
      by (simp add: f feedback_of_def row_at_def)
  qed
  have "\<not> fb_terminated f ! i \<and> \<not> fb_truncated f ! i" if "i < ?n" "i \<notin> set ids" for i
    using that ids(2) len_m len by (simp add: f feedback_of_def)
  with row hk sim r u(2) show ?thesis by auto
qed

theorem policy_step_feedback_witness:
  "\<exists>f t. execute_action_step toy_config toy_hooks [[0], [0]] [0, 0] True toy_env = (Inr f, t) \<and>
     fb_terminated f ! 0 \<and> \<not> fb_terminated f ! 1"
proof -
  have "\<not> isl (fst (execute_action_step toy_config toy_hooks [[0], [0]] [0, 0] True toy_env))" by code_simp
  then obtain f t where run: "execute_action_step toy_config toy_hooks [[0], [0]] [0, 0] True toy_env = (Inr f, t)"
    by (metis prod.collapse sum.collapse(2))
  have "\<not> ec_teleop toy_config" by (simp add: toy_config_def)
  moreover have merged: "ev_merged toy_env = None" by code_simp
  moreover have "ok_log toy_env" "ev_done toy_env = [False, False]" "ev_chunk_intervened toy_env = [False, False]"
    "ev_restart toy_env = [False, False]" "sim_read (ev_log toy_env) = ({}, True)" by code_simp+
  then have "step_inv (ec_num_envs toy_config) toy_env"
    using merged by (simp add: step_inv_def flags_len_def toy_config_def)
  moreover have "flatnonzero (m_not (ev_done toy_env)) = [0, 1]" by code_simp
  ultimately obtain r sim where
    "hk_step toy_hooks (map ((!) [[0], [0]]) [0, 1]) [0, 1] (ev_sim toy_env) = (Inr r, sim)"
    and row: "\<forall>k < length [0 :: nat, 1]. fb_terminated f ! ([0, 1] ! k) = sr_terminated r ! k"
    using policy_step_feedback [OF run, of "[0, 1]"] by auto
  moreover have "ev_sim toy_env = [0, 0]" by code_simp
  ultimately have "sr_terminated r = [True, False]" by (auto simp: toy_hooks_def Let_def)
  with row have "fb_terminated f ! 0" "\<not> fb_terminated f ! 1" by (auto simp: All_less_Suc)
  with run show ?thesis by blast
qed

end
