(* ===== verification/Replay_Pool.thy ===== *)
theory Replay_Pool
  imports Prelude
begin

text \<open>
  utils/replay_pool.py: per-task dual ring buffers of transitions (\<open>SACReplayPool\<close>). A batch is
  a list of rows, a row being its valid flag, its flattened success mask and the remaining
  columns: every column of a batch is gathered and scattered with the same indices. Random
  permutations are arguments, one per drawing site.
\<close>

section \<open>State\<close>

record 'r row =
  r_valid :: bool
  r_success :: "bool list"
  r_data :: 'r

record 'r dual_pool =
  positive_pool :: "'r row list option"
  negative_pool :: "'r row list option"
  positive_size :: nat
  negative_size :: nat
  positive_position :: nat
  negative_position :: nat

record 'r replay =
  single_pool_capacity :: nat
  positive_only :: bool
  task_pools :: "(string \<times> 'r dual_pool) list"
  total_size :: nat
  total_positive :: nat
  total_negative :: nat
  invalid_sample :: "'r row option"

definition replay_init :: "nat \<Rightarrow> bool \<Rightarrow> 'r replay" where
  "replay_init cap pos_only =
     \<lparr>single_pool_capacity = cap, positive_only = pos_only, task_pools = [], total_size = 0,
      total_positive = 0, total_negative = 0, invalid_sample = None\<rparr>"

definition refresh_global_stats :: "'r replay \<Rightarrow> 'r replay" where
  "refresh_global_stats s =
     (let p = sum_list (map (positive_size \<circ> snd) (task_pools s));
          n = sum_list (map (negative_size \<circ> snd) (task_pools s))
      in s\<lparr>total_positive := p, total_negative := n, total_size := p + n\<rparr>)"

section \<open>Insertion\<close>

text \<open>\<open>pool[(position + i) % capacity] = source[i]\<close> for every row of the block.\<close>

fun write_rows :: "nat \<Rightarrow> nat \<Rightarrow> 'a list \<Rightarrow> 'a list \<Rightarrow> 'a list" where
  "write_rows cap pos [] rows = rows"
| "write_rows cap pos (x # xs) rows = write_rows cap (Suc pos) xs (rows[pos mod cap := x])"

definition insert_block_to_pool ::
  "'r replay \<Rightarrow> bool \<Rightarrow> 'r row list \<Rightarrow> 'r dual_pool \<Rightarrow> 'r dual_pool result" where
  "insert_block_to_pool s is_positive source st =
     (let cap = single_pool_capacity s; n = min (length source) cap in
      if source = [] then Inr st
      else if is_positive then
        (case positive_pool st of
           None \<Rightarrow> Inl AssertionError
         | Some rows \<Rightarrow>
             if cap = 0 then Inl ZeroDivisionError
             else Inr (st\<lparr>positive_pool := Some (write_rows cap (positive_position st) (take n source) rows),
                          positive_position := (positive_position st + n) mod cap,
                          positive_size := min (positive_size st + n) cap\<rparr>))
      else if positive_only s then Inl RuntimeError
      else
        (case negative_pool st of
           None \<Rightarrow> Inl AssertionError
         | Some rows \<Rightarrow>
             if cap = 0 then Inl ZeroDivisionError
             else Inr (st\<lparr>negative_pool := Some (write_rows cap (negative_position st) (take n source) rows),
                          negative_position := (negative_position st + n) mod cap,
                          negative_size := min (negative_size st + n) cap\<rparr>)))"

text \<open>\<open>blank\<close> is a row of the freshly allocated storage (zeros, or uninitialised memory).\<close>

definition new_task_pool :: "'r row \<Rightarrow> 'r replay \<Rightarrow> 'r dual_pool" where
  "new_task_pool blank s =
     \<lparr>positive_pool = Some (replicate (single_pool_capacity s) blank),
      negative_pool = (if positive_only s then None
                       else Some (replicate (single_pool_capacity s) blank)),
      positive_size = 0, negative_size = 0, positive_position = 0, negative_position = 0\<rparr>"

definition get_or_create_task_pool ::
  "'r row \<Rightarrow> string \<Rightarrow> 'r replay \<Rightarrow> 'r dual_pool \<times> 'r replay" where
  "get_or_create_task_pool blank k s =
     (case map_of (task_pools s) k of
        Some st \<Rightarrow> (st, s)
      | None \<Rightarrow> (new_task_pool blank s,
                 s\<lparr>task_pools := AList.update k (new_task_pool blank s) (task_pools s)\<rparr>))"

definition put_pool :: "string \<Rightarrow> 'r dual_pool \<Rightarrow> 'r replay \<Rightarrow> 'r replay" where
  "put_pool k st s = s\<lparr>task_pools := AList.update k st (task_pools s)\<rparr>"

type_synonym 'r groups = "(string \<times> 'r row list \<times> 'r row list) list"

definition add_to_group :: "string \<Rightarrow> bool \<Rightarrow> 'r row \<Rightarrow> 'r groups \<Rightarrow> 'r groups" where
  "add_to_group k positive r gs =
     (let (ps, ns) = (case map_of gs k of None \<Rightarrow> ([], []) | Some g \<Rightarrow> g)
      in AList.update k (if positive then (ps @ [r], ns) else (ps, ns @ [r])) gs)"

definition is_positive_row :: "'r replay \<Rightarrow> 'r row \<Rightarrow> bool" where
  "is_positive_row s r \<longleftrightarrow> positive_only s \<or> list_ex id (r_success r)"

definition grouped_rows :: "'r replay \<Rightarrow> (string \<times> 'r row) list \<Rightarrow> 'r groups" where
  "grouped_rows s rows =
     foldl (\<lambda>gs (k, r). add_to_group k (is_positive_row s r) r gs) [] rows"

fun insert_groups :: "'r row \<Rightarrow> 'r groups \<Rightarrow> 'r replay \<Rightarrow> unit result \<times> 'r replay" where
  "insert_groups blank [] s = (Inr (), s)"
| "insert_groups blank ((k, ps, ns) # gs) s =
     (let (st, s1) = get_or_create_task_pool blank k s in
      case insert_block_to_pool s1 True ps st of
        Inl e \<Rightarrow> (Inl e, s1)
      | Inr st1 \<Rightarrow>
          let s2 = put_pool k st1 s1 in
          if ns = [] \<or> positive_only s then insert_groups blank gs s2
          else case insert_block_to_pool s2 False ns st1 of
            Inl e \<Rightarrow> (Inl e, s2)
          | Inr st2 \<Rightarrow> insert_groups blank gs (put_pool k st2 s2))"

definition mark_success :: "'r replay \<Rightarrow> 'r row \<Rightarrow> 'r row" where
  "mark_success s r = (if positive_only s then r\<lparr>r_success := map (\<lambda>_. True) (r_success r)\<rparr> else r)"

definition add_batch ::
  "'r row \<Rightarrow> 'r row list \<Rightarrow> string list \<Rightarrow> 'r replay \<Rightarrow> unit result \<times> 'r replay" where
  "add_batch blank batch task_ids s =
     (if batch = [] then (Inr (), s)
      else if length task_ids \<noteq> length batch then (Inl ValueError, s)
      else
        let valid = filter (\<lambda>(_, r). r_valid r) (zip task_ids batch) in
        if valid = [] then
          (Inr (), if total_size s = 0 \<and> invalid_sample s = None
                   then s\<lparr>invalid_sample := Some (hd batch)\<rparr> else s)
        else
          let rows = map (\<lambda>(k, r). (k, mark_success s r)) valid in
          case insert_groups blank (grouped_rows s rows) s of
            (Inl e, s') \<Rightarrow> (Inl e, s')
          | (Inr _, s') \<Rightarrow> (Inr (), refresh_global_stats s'))"

section \<open>Allocation over tasks\<close>

fun alloc_pass ::
  "('t \<Rightarrow> nat) \<Rightarrow> 't list \<Rightarrow> ('t \<Rightarrow> nat) \<Rightarrow> nat \<Rightarrow> bool \<Rightarrow> ('t \<Rightarrow> nat) \<times> nat \<times> bool" where
  "alloc_pass sizes [] alloc remaining progressed = (alloc, remaining, progressed)"
| "alloc_pass sizes (t # ts) alloc remaining progressed =
     (if alloc t < sizes t then
        let alloc' = alloc(t := alloc t + 1) in
        if remaining - 1 = 0 then (alloc', 0, True)
        else alloc_pass sizes ts alloc' (remaining - 1) True
      else alloc_pass sizes ts alloc remaining progressed)"

lemma alloc_pass_progress:
  "alloc_pass sizes ts alloc r p = (alloc', r', p') \<Longrightarrow> 0 < r \<Longrightarrow>
   r' \<le> r \<and> (p' \<longrightarrow> p \<or> r' < r)"
  by (induction ts arbitrary: alloc r p) (force simp: Let_def split: if_splits)+

function alloc_loop :: "('t \<Rightarrow> nat) \<Rightarrow> 't list \<Rightarrow> ('t \<Rightarrow> nat) \<Rightarrow> nat \<Rightarrow> ('t \<Rightarrow> nat) result" where
  "alloc_loop sizes order alloc remaining =
     (if remaining = 0 then Inr alloc
      else case alloc_pass sizes order alloc remaining False of
        (alloc', remaining', progressed) \<Rightarrow>
          if \<not> progressed then Inl RuntimeError
          else alloc_loop sizes order alloc' remaining')"
  by pat_completeness auto

termination alloc_loop
  by (relation "measure (\<lambda>(_, _, _, r). r)") (auto dest: alloc_pass_progress [OF sym])

declare alloc_loop.simps [simp del]

definition size_lookup :: "(string \<times> nat) list \<Rightarrow> string \<Rightarrow> nat" where
  "size_lookup task_sizes t = (case map_of task_sizes t of None \<Rightarrow> 0 | Some n \<Rightarrow> n)"

definition allocate_counts_across_tasks ::
  "(string \<times> nat) list \<Rightarrow> nat \<Rightarrow> (string \<times> nat) list result" where
  "allocate_counts_across_tasks task_sizes total_count =
     (if sum_list (map snd task_sizes) < total_count then Inl ValueError
      else bind_res
        (alloc_loop (size_lookup task_sizes) (map fst task_sizes) (\<lambda>_. 0) total_count)
        (\<lambda>alloc. Inr (map (\<lambda>t. (t, alloc t)) (map fst task_sizes))))"

section \<open>Sampling\<close>

definition side_size :: "bool \<Rightarrow> 'r dual_pool \<Rightarrow> nat" where
  "side_size is_positive st = (if is_positive then positive_size st else negative_size st)"

definition side_pool :: "bool \<Rightarrow> 'r dual_pool \<Rightarrow> 'r row list option" where
  "side_pool is_positive st = (if is_positive then positive_pool st else negative_pool st)"

definition sample_from_single_task_pool ::
  "(nat \<Rightarrow> nat list) \<Rightarrow> bool \<Rightarrow> nat \<Rightarrow> 'r dual_pool \<Rightarrow> 'r row list result" where
  "sample_from_single_task_pool randperm is_positive n st =
     (case side_pool is_positive st of
        None \<Rightarrow> Inl AssertionError
      | Some rows \<Rightarrow> Inr (map (\<lambda>i. rows ! i) (take n (randperm (side_size is_positive st)))))"

definition task_sizes_of :: "bool \<Rightarrow> 'r replay \<Rightarrow> (string \<times> nat) list" where
  "task_sizes_of is_positive s =
     filter (\<lambda>(_, n). 0 < n) (map (\<lambda>(k, st). (k, side_size is_positive st)) (task_pools s))"

text \<open>\<open>concat_nothing\<close> is what \<open>DataProto.concat([])\<close> does.\<close>

definition concat_parts :: "'r row list result \<Rightarrow> 'r row list list \<Rightarrow> 'r row list result" where
  "concat_parts concat_nothing parts = (if parts = [] then concat_nothing else Inr (concat parts))"

definition sample_from_task_pools ::
  "'r row list result \<Rightarrow> (bool \<Rightarrow> string \<Rightarrow> nat \<Rightarrow> nat list) \<Rightarrow> bool \<Rightarrow> nat \<Rightarrow> 'r replay \<Rightarrow>
   'r row list result" where
  "sample_from_task_pools concat_nothing draw is_positive n s =
     bind_res (allocate_counts_across_tasks (task_sizes_of is_positive s) n) (\<lambda>alloc.
     bind_res
       (traverse
          (\<lambda>(t, c). case map_of (task_pools s) t of
             None \<Rightarrow> Inl KeyError
           | Some st \<Rightarrow> sample_from_single_task_pool (draw is_positive t) is_positive c st)
          (filter (\<lambda>(_, c). 0 < c) alloc))
       (concat_parts concat_nothing))"

definition sample_split :: "nat \<Rightarrow> rat \<Rightarrow> nat \<Rightarrow> nat \<Rightarrow> nat \<times> nat" where
  "sample_split batch_size ratio pos_size neg_size =
     (let target_positive = nat (py_round (of_nat batch_size * ratio));
          target_negative = batch_size - target_positive;
          p = min target_positive pos_size;
          n = min target_negative neg_size;
          deficit = batch_size - p - n
      in if 0 < deficit then
           let rp = pos_size - p; rn = neg_size - n in
           if rn \<le> rp then
             let extra = min deficit rp in (p + extra, n + min (deficit - extra) rn)
           else
             let extra = min deficit rn in (p + min (deficit - extra) rp, n + extra)
         else (p, n))"

definition pad_sampled_batch :: "nat \<Rightarrow> 'r row list \<Rightarrow> 'r row list" where
  "pad_sampled_batch target rows =
     (if target \<le> length rows then rows
      else rows @ replicate (target - length rows) ((hd rows)\<lparr>r_valid := False\<rparr>))"

definition sample_invalid_batch :: "nat \<Rightarrow> 'r row \<Rightarrow> 'r row list" where
  "sample_invalid_batch n r = replicate n (r\<lparr>r_valid := False\<rparr>)"

record sample_info =
  si_ratio :: rat
  si_positive :: nat
  si_negative :: nat
  si_tasks :: nat

definition clamp_ratio :: "'r replay \<Rightarrow> rat \<Rightarrow> rat" where
  "clamp_ratio s ratio = (if positive_only s then 1 else max 0 (min 1 ratio))"

definition sample_batch ::
  "'r row list result \<Rightarrow> (bool \<Rightarrow> string \<Rightarrow> nat \<Rightarrow> nat list) \<Rightarrow> (nat \<Rightarrow> nat list) \<Rightarrow> nat \<Rightarrow> rat \<Rightarrow>
   'r replay \<Rightarrow> ('r row list \<times> sample_info) result" where
  "sample_batch concat_nothing draw shuffle batch_size ratio s =
     (let info = (\<lambda>x. \<lparr>si_ratio = x, si_positive = total_positive s, si_negative = total_negative s,
                       si_tasks = length (task_pools s)\<rparr>) in
      if total_size s = 0 then
        (case invalid_sample s of
           None \<Rightarrow> Inl ValueError
         | Some r \<Rightarrow> Inr (sample_invalid_batch batch_size r, info 0))
      else
        let (p, n) = sample_split batch_size (clamp_ratio s ratio) (total_positive s) (total_negative s)
        in bind_res (if 0 < p then sample_from_task_pools concat_nothing draw True p s else Inr []) (\<lambda>ps.
           bind_res (if 0 < n then sample_from_task_pools concat_nothing draw False n s else Inr []) (\<lambda>ns.
           bind_res (concat_parts concat_nothing
                       ((if 0 < p then [ps] else []) @ (if 0 < n then [ns] else []))) (\<lambda>rows.
             let padded = pad_sampled_batch batch_size rows
             in Inr (map (\<lambda>i. padded ! i) (shuffle batch_size),
                     info (of_nat p / of_nat (max batch_size 1)))))))"

definition insert_and_resample ::
  "'r row \<Rightarrow> 'r row list result \<Rightarrow> (bool \<Rightarrow> string \<Rightarrow> nat \<Rightarrow> nat list) \<Rightarrow> (nat \<Rightarrow> nat list) \<Rightarrow>
   'r row list \<Rightarrow> string list \<Rightarrow> 'r replay \<Rightarrow> 'r row list result \<times> 'r replay" where
  "insert_and_resample blank concat_nothing draw shuffle source task_ids s =
     (case add_batch blank source task_ids s of
        (Inl e, s') \<Rightarrow> (Inl e, s')
      | (Inr _, s') \<Rightarrow>
          (bind_res (sample_batch concat_nothing draw shuffle (length source) (1 / 2) s')
             (\<lambda>(rows, _). Inr rows), s'))"

section \<open>Saving and loading\<close>

record 'r saved_task =
  st_positive_pool :: "'r row list"
  st_negative_pool :: "'r row list option"
  st_positive_size :: nat
  st_negative_size :: nat
  st_positive_position :: nat
  st_negative_position :: nat

record 'r saved_pool =
  sv_version :: "nat option"
  sv_capacity :: nat
  sv_positive_only :: "bool option"
  sv_tasks :: "(string \<times> 'r saved_task) list"

definition save_task :: "'r dual_pool \<Rightarrow> 'r saved_task result" where
  "save_task st =
     (case positive_pool st of
        None \<Rightarrow> Inl AssertionError
      | Some rows \<Rightarrow>
          Inr \<lparr>st_positive_pool = rows, st_negative_pool = negative_pool st,
               st_positive_size = positive_size st, st_negative_size = negative_size st,
               st_positive_position = positive_position st,
               st_negative_position = negative_position st\<rparr>)"

definition save_pool :: "'r replay \<Rightarrow> 'r saved_pool result" where
  "save_pool s =
     bind_res (traverse (\<lambda>(k, st). bind_res (save_task st) (\<lambda>p. Inr (k, p))) (task_pools s))
       (\<lambda>ts. Inr \<lparr>sv_version = Some 5, sv_capacity = single_pool_capacity s,
                  sv_positive_only = Some (positive_only s), sv_tasks = ts\<rparr>)"

text \<open>\<open>tensors_of\<close> drops the non-tensor columns, which files older than version 4 do not hold.\<close>

definition load_task ::
  "('r row \<Rightarrow> 'r row) \<Rightarrow> nat \<Rightarrow> bool \<Rightarrow> 'r saved_task \<Rightarrow> 'r dual_pool result" where
  "load_task tensors_of version pos_only p =
     (let mk = (\<lambda>pos neg. \<lparr>positive_pool = Some pos, negative_pool = neg,
                 positive_size = st_positive_size p,
                 negative_size = (if pos_only then 0 else st_negative_size p),
                 positive_position = st_positive_position p,
                 negative_position = st_negative_position p\<rparr>)
      in if 4 \<le> version then
           Inr (mk (st_positive_pool p) (if pos_only then None else st_negative_pool p))
         else if pos_only then Inr (mk (map tensors_of (st_positive_pool p)) None)
         else case st_negative_pool p of
           None \<Rightarrow> Inl KeyError
         | Some neg \<Rightarrow> Inr (mk (map tensors_of (st_positive_pool p)) (Some (map tensors_of neg))))"

text \<open>The task loop of \<open>load\<close> fills the new dictionary, so an exception leaves a partial one.\<close>

fun load_tasks ::
  "('r row \<Rightarrow> 'r row) \<Rightarrow> nat \<Rightarrow> (string \<times> 'r saved_task) list \<Rightarrow> 'r replay \<Rightarrow> unit result \<times> 'r replay" where
  "load_tasks tensors_of version [] s = (Inr (), s)"
| "load_tasks tensors_of version ((k, p) # ps) s =
     (case load_task tensors_of version (positive_only s) p of
        Inl e \<Rightarrow> (Inl e, s)
      | Inr st \<Rightarrow> load_tasks tensors_of version ps (put_pool k st s))"

definition load_pool ::
  "('r row \<Rightarrow> 'r row) \<Rightarrow> 'r saved_pool option \<Rightarrow> 'r replay \<Rightarrow> bool result \<times> 'r replay" where
  "load_pool tensors_of file s =
     (case file of
        None \<Rightarrow> (Inr False, s)
      | Some sv \<Rightarrow>
          let version = (case sv_version sv of None \<Rightarrow> 3 | Some v \<Rightarrow> v);
              s0 = s\<lparr>positive_only := (case sv_positive_only sv of None \<Rightarrow> positive_only s | Some b \<Rightarrow> b),
                     single_pool_capacity := sv_capacity sv, task_pools := []\<rparr>
          in case load_tasks tensors_of version (sv_tasks sv) s0 of
               (Inl e, s') \<Rightarrow> (Inl e, s')
             | (Inr _, s') \<Rightarrow> (Inr True, refresh_global_stats s'))"

definition pool_from_path ::
  "('r row \<Rightarrow> 'r row) \<Rightarrow> 'r saved_pool option \<Rightarrow> 'r replay result" where
  "pool_from_path tensors_of file =
     (case file of
        None \<Rightarrow> Inl FileNotFoundError
      | Some sv \<Rightarrow>
          (case load_pool tensors_of file
                  (replay_init (sv_capacity sv)
                     (case sv_positive_only sv of None \<Rightarrow> False | Some b \<Rightarrow> b)) of
             (Inl e, _) \<Rightarrow> Inl e
           | (Inr ok, s) \<Rightarrow> if ok then Inr s else Inl RuntimeError))"

end
