(* ===== verification/Replay_Invariants.thy ===== *)
theory Replay_Invariants
  imports Replay_Pool
begin

text \<open>
  The replay pool's invariant. Each side of a task pool is a ring whose contents, oldest row
  first, behave as a bounded queue; \<open>bounded_fifo\<close> is that interface and the ring its
  implementation. The invariant says that rings are well formed, that positive and negative
  rows are kept apart and valid, and that the cached totals are the sums.
\<close>

section \<open>Bounded queues\<close>

locale bounded_fifo =
  fixes bound :: "'q \<Rightarrow> nat"
    and ok :: "'q \<Rightarrow> bool"
    and push :: "'q \<Rightarrow> 'a list \<Rightarrow> 'q"
    and contents :: "'q \<Rightarrow> 'a list"
  assumes push_ok: "ok q \<Longrightarrow> ok (push q xs)"
    and push_bound: "ok q \<Longrightarrow> bound (push q xs) = bound q"
    and push_contents: "ok q \<Longrightarrow>
      contents (push q xs) =
        drop (length (contents q) + length (take (bound q) xs) - bound q)
          (contents q @ take (bound q) xs)"
    and contents_bounded: "ok q \<Longrightarrow> length (contents q) \<le> bound q"
begin

lemma push_subset: "ok q \<Longrightarrow> set (contents (push q xs)) \<subseteq> set (contents q) \<union> set xs"
  unfolding push_contents using set_drop_subset set_take_subset by fastforce

lemma push_all: "ok q \<Longrightarrow> \<forall>x \<in> set (contents q). P x \<Longrightarrow> \<forall>x \<in> set xs. P x \<Longrightarrow>
    \<forall>x \<in> set (contents (push q xs)). P x"
  using push_subset by fastforce

lemma push_length: "ok q \<Longrightarrow>
    length (contents (push q xs)) = min (length (contents q) + length xs) (bound q)"
  using contents_bounded [of q] by (simp add: push_contents)

lemma pushes_ok: "ok q \<Longrightarrow> ok (foldl push q xss)"
  by (induction xss arbitrary: q) (auto simp: push_ok)

lemma pushes_bound: "ok q \<Longrightarrow> bound (foldl push q xss) = bound q"
  by (induction xss arbitrary: q) (auto simp: push_ok push_bound)

text \<open>Blocks that fit are kept whole: the queue is the most recent part of everything pushed.\<close>

lemma pushes_recent:
  assumes "ok q" and "\<forall>xs \<in> set xss. length xs \<le> bound q"
  shows "\<exists>d. contents (foldl push q xss) = drop d (contents q @ concat xss)"
  using assms
proof (induction xss arbitrary: q)
  case Nil
  then show ?case by (auto intro: exI [of _ 0])
next
  case (Cons xs xss)
  then have "\<forall>ys \<in> set xss. length ys \<le> bound (push q xs)" by (simp add: push_bound)
  from Cons.IH [OF push_ok [OF Cons.prems(1)] this]
  obtain d where d: "contents (foldl push (push q xs) xss) = drop d (contents (push q xs) @ concat xss)"
    by blast
  let ?k = "length (contents q) + length xs - bound q"
  have k: "?k \<le> length (contents q @ xs)" by simp
  have "contents (push q xs) = drop ?k (contents q @ xs)"
    using Cons.prems by (simp add: push_contents)
  then have "contents (push q xs) @ concat xss = drop ?k (contents q @ xs @ concat xss)"
    by simp
  with d have "contents (foldl push q (xs # xss)) = drop (d + ?k) (contents q @ concat (xs # xss))"
    by (simp only: foldl_Cons drop_drop concat.simps append_assoc)
  then show ?case by blast
qed

end

section \<open>The ring\<close>

record 'a ring =
  g_cap :: nat
  g_pos :: nat
  g_size :: nat
  g_rows :: "'a list"

definition ring_ok :: "'a ring \<Rightarrow> bool" where
  "ring_ok g \<longleftrightarrow> length (g_rows g) = g_cap g \<and> g_size g \<le> g_cap g \<and> g_pos g < g_cap g \<and>
     (g_size g < g_cap g \<longrightarrow> g_pos g = g_size g)"

definition ring_push :: "'a ring \<Rightarrow> 'a list \<Rightarrow> 'a ring" where
  "ring_push g xs =
     (let n = min (length xs) (g_cap g) in
      g\<lparr>g_pos := (g_pos g + n) mod g_cap g, g_size := min (g_size g + n) (g_cap g),
        g_rows := write_rows (g_cap g) (g_pos g) (take n xs) (g_rows g)\<rparr>)"

definition ring_contents :: "'a ring \<Rightarrow> 'a list" where
  "ring_contents g =
     map (\<lambda>i. g_rows g ! ((g_pos g + (g_cap g - g_size g) + i) mod g_cap g)) [0..<g_size g]"

lemma length_write_rows [simp]: "length (write_rows cap pos xs rows) = length rows"
  by (induction xs arbitrary: pos rows) auto

lemma mod_shift_eq: "(p + i) mod c = p mod c \<Longrightarrow> i < c \<Longrightarrow> i = (0 :: nat)"
  by (metis add_diff_cancel_left' dvd_imp_le mod_eq_dvd_iff_nat le_add1 not_less not_gr_zero)

lemma write_rows_nth:
  assumes "length rows = cap" and "length xs \<le> cap" and "i < cap"
  shows "write_rows cap pos xs rows ! ((pos + i) mod cap) =
    (if i < length xs then xs ! i else rows ! ((pos + i) mod cap))"
  using assms
proof (induction xs arbitrary: pos rows i)
  case Nil
  then show ?case by simp
next
  case (Cons x xs)
  let ?rows = "rows[pos mod cap := x]"
  have pos: "pos mod cap < cap" using Cons.prems(3) by simp
  show ?case
  proof (cases i)
    case 0
    have "(Suc pos + (cap - 1)) mod cap = pos mod cap"
      using Cons.prems(3) by (simp add: mod_add_self2)
    moreover have "write_rows cap (Suc pos) xs ?rows ! ((Suc pos + (cap - 1)) mod cap) =
        ?rows ! ((Suc pos + (cap - 1)) mod cap)"
    proof -
      have short: "\<not> cap - 1 < length xs" using Cons.prems(2,3) by auto
      show ?thesis
        using Cons.IH [of ?rows "cap - 1" "Suc pos", unfolded if_not_P [OF short]] Cons.prems by simp
    qed
    ultimately show ?thesis using pos Cons.prems(1) by (simp add: 0)
  next
    case (Suc j)
    have ne: "(pos + i) mod cap \<noteq> pos mod cap"
      using mod_shift_eq [of pos i cap] Cons.prems(3) Suc by blast
    have "write_rows cap (Suc pos) xs ?rows ! ((Suc pos + j) mod cap) =
        (if j < length xs then xs ! j else ?rows ! ((Suc pos + j) mod cap))"
      by (rule Cons.IH) (use Cons.prems Suc in simp_all)
    then show ?thesis using ne by (auto simp: Suc)
  qed
qed

lemma ring_push_ok:
  assumes "ring_ok g" shows "ring_ok (ring_push g xs)"
proof -
  have cap: "0 < g_cap g" using assms by (auto simp: ring_ok_def)
  let ?n = "min (length xs) (g_cap g)"
  have "(g_pos g + ?n) mod g_cap g = g_size g + ?n" if "g_size g + ?n < g_cap g"
  proof -
    have "g_size g < g_cap g" using that by simp
    then have "g_pos g = g_size g" using assms by (simp add: ring_ok_def)
    with that show ?thesis by simp
  qed
  with assms cap show ?thesis by (auto simp: ring_ok_def ring_push_def Let_def min_def)
qed

lemma length_ring_contents [simp]: "length (ring_contents g) = g_size g"
  by (simp add: ring_contents_def)

lemma ring_index_shift:
  "s \<le> c \<Longrightarrow> n + (c - min (s + n) c) + i = (c - s) + ((s + n - c) + i)" for s n c i :: nat
  by (cases "s + n \<le> c") auto

lemma ring_length_after: "s + n - (s + n - c) = min (s + n) c" for s n c :: nat
  by simp

lemma ring_window_write:
  fixes ys rows :: "'a list" and c p s :: nat
  defines "s' \<equiv> min (s + length ys) c" and "d \<equiv> s + length ys - c"
    and "old \<equiv> map (\<lambda>i. rows ! ((p + (c - s) + i) mod c)) [0..<s]"
  assumes c: "length rows = c" "s \<le> c" "length ys \<le> c"
  shows "map (\<lambda>i. write_rows c p ys rows ! (((p + length ys) mod c + (c - s') + i) mod c)) [0..<s'] =
    drop d (old @ ys)" (is "?l = ?r")
proof (rule nth_equalityI)
  have old: "length old = s" by (simp add: old_def)
  have "s + length ys - d = s'" by (simp add: s'_def d_def)
  then show "length ?l = length ?r" by (simp add: old)
  fix i assume "i < length ?l"
  then have i: "i < s'" by simp
  have d: "d \<le> length (old @ ys)" by (simp add: old d_def)
  define k where "k = d + i"
  have shift: "length ys + (c - s') + i = (c - s) + k"
    unfolding s'_def d_def k_def by (rule ring_index_shift [OF c(2)])
  have k: "k < s + length ys" using i unfolding k_def s'_def d_def by linarith
  have "((p + length ys) mod c + (c - s') + i) mod c = (p + (length ys + (c - s') + i)) mod c"
    by (metis (no_types, lifting) add.assoc mod_add_left_eq)
  then have l: "?l ! i = write_rows c p ys rows ! ((p + ((c - s) + k)) mod c)"
    using i by (simp add: shift)
  have r: "?r ! i = (old @ ys) ! k" unfolding k_def by (rule nth_drop [OF d])
  show "?l ! i = ?r ! i"
  proof (cases "k < s")
    case True
    then have bound: "(c - s) + k < c" and new: "\<not> (c - s) + k < length ys"
      using c(2) shift by linarith+
    have "?l ! i = rows ! ((p + ((c - s) + k)) mod c)"
      unfolding l using write_rows_nth [OF c(1) c(3) bound, of p] new by simp
    also have "\<dots> = ?r ! i"
      unfolding r using True by (simp add: nth_append old) (simp add: old_def add.assoc)
    finally show ?thesis .
  next
    case False
    then have new: "k - s < length ys" and bound: "k - s < c" using k c(3) by linarith+
    have "p + ((c - s) + k) = p + (k - s) + c" using False c(2) by linarith
    then have "(p + ((c - s) + k)) mod c = (p + (k - s)) mod c" by (metis mod_add_self2)
    then have "?l ! i = write_rows c p ys rows ! ((p + (k - s)) mod c)" unfolding l by (rule arg_cong)
    also have "\<dots> = ys ! (k - s)"
      using write_rows_nth [OF c(1) c(3) bound, of p] new by simp
    also have "\<dots> = ?r ! i" unfolding r using False by (simp add: nth_append old)
    finally show ?thesis .
  qed
qed

lemma ring_contents_push:
  assumes ok: "ring_ok g"
  shows "ring_contents (ring_push g xs) =
    drop (g_size g + length (take (g_cap g) xs) - g_cap g) (ring_contents g @ take (g_cap g) xs)"
proof -
  obtain c p s rows where g: "g = \<lparr>g_cap = c, g_pos = p, g_size = s, g_rows = rows\<rparr>" by (cases g)
  have n: "min (length xs) c = length (take c xs)" by simp
  have take: "take (length (take c xs)) xs = take c xs" by (simp add: min_def)
  show ?thesis
    unfolding ring_contents_def ring_push_def Let_def g ring.simps n take
    by (rule ring_window_write) (use ok g in \<open>auto simp: ring_ok_def\<close>)
qed

interpretation ring: bounded_fifo g_cap ring_ok ring_push ring_contents
proof
  fix g :: "'a ring" and xs
  assume ok: "ring_ok g"
  show "ring_ok (ring_push g xs)" by (rule ring_push_ok [OF ok])
  show "g_cap (ring_push g xs) = g_cap g" by (simp add: ring_push_def Let_def)
  show "ring_contents (ring_push g xs) =
      drop (length (ring_contents g) + length (take (g_cap g) xs) - g_cap g)
        (ring_contents g @ take (g_cap g) xs)"
    unfolding length_ring_contents by (rule ring_contents_push [OF ok])
  show "length (ring_contents g) \<le> g_cap g" using ok by (simp add: ring_ok_def)
qed

text \<open>The stored rows are the first \<open>size\<close> cells, where sampling draws its indices.\<close>

lemma ring_cell:
  assumes "ring_ok g" and "i < g_size g"
  shows "g_rows g ! i \<in> set (ring_contents g)"
proof -
  let ?c = "g_cap g" and ?p = "g_pos g" and ?s = "g_size g"
  have c: "0 < ?c" "?s \<le> ?c" "?p < ?c" "?s < ?c \<longrightarrow> ?p = ?s" using assms(1) by (auto simp: ring_ok_def)
  obtain j where "j < ?s" "(?p + (?c - ?s) + j) mod ?c = i"
  proof (cases "?s < ?c")
    case True
    then have "(?p + (?c - ?s) + i) mod ?c = i" using c assms(2) by simp
    with assms(2) that show thesis by blast
  next
    case False
    then have full: "?s = ?c" using c(2) by simp
    show thesis
    proof (cases "?p \<le> i")
      case True
      then have "(?p + (?c - ?s) + (i - ?p)) mod ?c = i" using full assms(2) by simp
      with that [of "i - ?p"] assms(2) show thesis by simp
    next
      case False
      then have "?p + (?c - ?s) + (i + ?c - ?p) = i + ?c" using full c(3) by simp
      then have "(?p + (?c - ?s) + (i + ?c - ?p)) mod ?c = i" using full assms(2) by simp
      moreover have "i + ?c - ?p < ?s" using False full c(3) by linarith
      ultimately show thesis by (intro that)
    qed
  qed
  then show ?thesis unfolding ring_contents_def by force
qed

section \<open>The invariant of the pool\<close>

definition side_position :: "bool \<Rightarrow> 'r dual_pool \<Rightarrow> nat" where
  "side_position is_positive st = (if is_positive then positive_position st else negative_position st)"

definition side_ring :: "bool \<Rightarrow> nat \<Rightarrow> 'r dual_pool \<Rightarrow> 'r row ring" where
  "side_ring is_positive cap st =
     \<lparr>g_cap = cap, g_pos = side_position is_positive st, g_size = side_size is_positive st,
      g_rows = (case side_pool is_positive st of None \<Rightarrow> [] | Some rows \<Rightarrow> rows)\<rparr>"

definition row_belongs :: "bool \<Rightarrow> bool \<Rightarrow> 'r row \<Rightarrow> bool" where
  "row_belongs pos_only is_positive r \<longleftrightarrow>
     r_valid r \<and> (if is_positive then pos_only \<or> list_ex id (r_success r) else \<not> list_ex id (r_success r))"

definition side_ok :: "bool \<Rightarrow> bool \<Rightarrow> nat \<Rightarrow> 'r dual_pool \<Rightarrow> bool" where
  "side_ok pos_only is_positive cap st \<longleftrightarrow>
     side_pool is_positive st \<noteq> None \<and> ring_ok (side_ring is_positive cap st) \<and>
     (\<forall>r \<in> set (ring_contents (side_ring is_positive cap st)). row_belongs pos_only is_positive r)"

definition dual_ok :: "nat \<Rightarrow> bool \<Rightarrow> 'r dual_pool \<Rightarrow> bool" where
  "dual_ok cap pos_only st \<longleftrightarrow>
     side_ok pos_only True cap st \<and>
     (if pos_only then negative_pool st = None \<and> negative_size st = 0 \<and> negative_position st = 0
      else side_ok pos_only False cap st)"

definition pools_ok :: "'r replay \<Rightarrow> bool" where
  "pools_ok s \<longleftrightarrow> 0 < single_pool_capacity s \<and> distinct (map fst (task_pools s)) \<and>
     (\<forall>st \<in> snd ` set (task_pools s). dual_ok (single_pool_capacity s) (positive_only s) st)"

definition replay_inv :: "'r replay \<Rightarrow> bool" where
  "replay_inv s \<longleftrightarrow> pools_ok s \<and> refresh_global_stats s = s"

lemmas side_simps = side_pool_def side_size_def side_position_def side_ring_def

lemma insert_block_cases:
  assumes "0 < single_pool_capacity s" and "side_pool is_positive st \<noteq> None"
    and "is_positive \<or> \<not> positive_only s"
    and ring: "ring_ok (side_ring is_positive (single_pool_capacity s) st)"
  obtains st' where "insert_block_to_pool s is_positive source st = Inr st'"
    "side_ring is_positive (single_pool_capacity s) st' =
       ring_push (side_ring is_positive (single_pool_capacity s) st) source"
    "side_pool is_positive st' \<noteq> None"
    "side_ring (\<not> is_positive) (single_pool_capacity s) st' = side_ring (\<not> is_positive) (single_pool_capacity s) st"
    "side_pool (\<not> is_positive) st' = side_pool (\<not> is_positive) st"
proof (cases "source = []")
  case True
  have "ring_push (side_ring is_positive (single_pool_capacity s) st) [] =
      side_ring is_positive (single_pool_capacity s) st"
    using ring by (simp add: ring_push_def Let_def ring_ok_def)
  with True that [of st] assms show thesis by (simp add: insert_block_to_pool_def Let_def)
next
  case False
  with assms that show thesis
    by (cases is_positive)
       (auto simp: insert_block_to_pool_def Let_def side_simps ring_push_def min.commute)
qed

lemma insert_block_ok:
  assumes ok: "dual_ok (single_pool_capacity s) (positive_only s) st" and cap: "0 < single_pool_capacity s"
    and side: "is_positive \<or> \<not> positive_only s"
    and rows: "\<forall>r \<in> set source. row_belongs (positive_only s) is_positive r"
  obtains st' where "insert_block_to_pool s is_positive source st = Inr st'"
    "dual_ok (single_pool_capacity s) (positive_only s) st'"
proof -
  let ?cap = "single_pool_capacity s" and ?po = "positive_only s"
  have this_side: "side_ok ?po is_positive ?cap st"
    using ok side by (cases is_positive) (auto simp: dual_ok_def)
  then have pool: "side_pool is_positive st \<noteq> None" and ring: "ring_ok (side_ring is_positive ?cap st)"
    and all: "\<forall>r \<in> set (ring_contents (side_ring is_positive ?cap st)). row_belongs ?po is_positive r"
    by (simp_all add: side_ok_def)
  obtain st' where st': "insert_block_to_pool s is_positive source st = Inr st'"
    "side_ring is_positive ?cap st' = ring_push (side_ring is_positive ?cap st) source"
    "side_pool is_positive st' \<noteq> None"
    "side_ring (\<not> is_positive) ?cap st' = side_ring (\<not> is_positive) ?cap st"
    "side_pool (\<not> is_positive) st' = side_pool (\<not> is_positive) st"
    by (rule insert_block_cases [OF cap pool side ring])
  have new: "side_ok ?po is_positive ?cap st'"
    unfolding side_ok_def st'(2) using st'(3) ring.push_ok [OF ring] ring.push_all [OF ring all rows] by simp
  have other: "side_ok ?po (\<not> is_positive) ?cap st' \<longleftrightarrow> side_ok ?po (\<not> is_positive) ?cap st"
    unfolding side_ok_def st'(4,5) ..
  have "dual_ok ?cap ?po st'"
    using ok new other side st'(4,5)
    by (cases is_positive) (auto simp: dual_ok_def side_simps)
  with st'(1) that show thesis by blast
qed

lemma new_task_pool_ok:
  "0 < single_pool_capacity s \<Longrightarrow> dual_ok (single_pool_capacity s) (positive_only s) (new_task_pool blank s)"
  by (simp add: dual_ok_def side_ok_def side_simps new_task_pool_def ring_ok_def ring_contents_def)

lemma pools_ok_put:
  "pools_ok s \<Longrightarrow> dual_ok (single_pool_capacity s) (positive_only s) st \<Longrightarrow> pools_ok (put_pool k st s)"
  by (auto simp: pools_ok_def put_pool_def distinct_update dest!: in_set_update)

lemma put_pool_simps [simp]:
  "single_pool_capacity (put_pool k st s) = single_pool_capacity s"
  "positive_only (put_pool k st s) = positive_only s"
  by (simp_all add: put_pool_def)

lemma pools_ok_lookup:
  "pools_ok s \<Longrightarrow> map_of (task_pools s) k = Some st \<Longrightarrow> dual_ok (single_pool_capacity s) (positive_only s) st"
  by (force simp: pools_ok_def dest: map_of_SomeD)

lemma get_or_create_ok:
  assumes "pools_ok s"
  obtains st s1 where "get_or_create_task_pool blank k s = (st, s1)" "pools_ok s1"
    "dual_ok (single_pool_capacity s) (positive_only s) st"
    "single_pool_capacity s1 = single_pool_capacity s" "positive_only s1 = positive_only s"
proof (cases "map_of (task_pools s) k")
  case None
  have "dual_ok (single_pool_capacity s) (positive_only s) (new_task_pool blank s)"
    using assms by (intro new_task_pool_ok) (simp add: pools_ok_def)
  moreover from pools_ok_put [OF assms this, of k]
  have "pools_ok (s\<lparr>task_pools := AList.update k (new_task_pool blank s) (task_pools s)\<rparr>)"
    by (simp add: put_pool_def)
  ultimately show thesis using None
    by (intro that [of "new_task_pool blank s"
          "s\<lparr>task_pools := AList.update k (new_task_pool blank s) (task_pools s)\<rparr>"])
       (simp_all add: get_or_create_task_pool_def)
next
  case (Some st)
  with assms that [of st s] show thesis
    by (simp add: get_or_create_task_pool_def pools_ok_lookup)
qed

definition groups_ok :: "bool \<Rightarrow> 'r groups \<Rightarrow> bool" where
  "groups_ok pos_only gs \<longleftrightarrow>
     (\<forall>(k, ps, ns) \<in> set gs.
        (\<forall>r \<in> set ps. row_belongs pos_only True r) \<and> (\<forall>r \<in> set ns. row_belongs pos_only False r))"

lemma add_to_group_ok:
  assumes "groups_ok pos_only gs" and "row_belongs pos_only positive r"
  shows "groups_ok pos_only (add_to_group k positive r gs)"
proof -
  obtain ps ns where g: "(case map_of gs k of None \<Rightarrow> ([], []) | Some g \<Rightarrow> g) = (ps, ns)"
    by (cases "case map_of gs k of None \<Rightarrow> ([], []) | Some g \<Rightarrow> g") auto
  have old: "(\<forall>r \<in> set ps. row_belongs pos_only True r) \<and> (\<forall>r \<in> set ns. row_belongs pos_only False r)"
    using g assms(1) by (auto simp: groups_ok_def split: option.splits dest!: map_of_SomeD)
  have "add_to_group k positive r gs = AList.update k (if positive then (ps @ [r], ns) else (ps, ns @ [r])) gs"
    by (simp add: add_to_group_def g)
  with old assms show ?thesis unfolding groups_ok_def
    by (auto dest!: in_set_update split: if_splits)
qed

lemma row_belongs_positive:
  "r_valid r \<Longrightarrow> row_belongs (positive_only s) (is_positive_row s r) r"
  by (simp add: row_belongs_def is_positive_row_def)

lemma grouped_rows_ok:
  assumes "\<forall>(k, r) \<in> set rows. r_valid r"
  shows "groups_ok (positive_only s) (grouped_rows s rows)"
proof -
  have gen: "groups_ok (positive_only s)
      (foldl (\<lambda>gs (k, r). add_to_group k (is_positive_row s r) r gs) gs rows)"
    if "groups_ok (positive_only s) gs" for gs
    using that assms
    by (induction rows arbitrary: gs)
       (auto intro!: add_to_group_ok row_belongs_positive)
  show ?thesis unfolding grouped_rows_def by (rule gen) (simp add: groups_ok_def)
qed

lemma insert_groups_ok:
  assumes "pools_ok s" and "groups_ok (positive_only s) gs"
  shows "\<exists>s'. insert_groups blank gs s = (Inr (), s') \<and> pools_ok s' \<and>
    single_pool_capacity s' = single_pool_capacity s \<and> positive_only s' = positive_only s"
  using assms
proof (induction gs arbitrary: s)
  case Nil
  then show ?case by simp
next
  case (Cons g gs)
  obtain k ps ns where g: "g = (k, ps, ns)" by (cases g)
  from Cons.prems(2) have ps: "\<forall>r \<in> set ps. row_belongs (positive_only s) True r"
    and ns: "\<forall>r \<in> set ns. row_belongs (positive_only s) False r"
    and gs: "groups_ok (positive_only s) gs"
    by (auto simp: groups_ok_def g)
  obtain st s1 where s1: "get_or_create_task_pool blank k s = (st, s1)" "pools_ok s1"
    "dual_ok (single_pool_capacity s) (positive_only s) st"
    "single_pool_capacity s1 = single_pool_capacity s" "positive_only s1 = positive_only s"
    by (rule get_or_create_ok [OF Cons.prems(1)])
  have cap: "0 < single_pool_capacity s" using Cons.prems(1) by (simp add: pools_ok_def)
  obtain st1 where st1: "insert_block_to_pool s1 True ps st = Inr st1"
    "dual_ok (single_pool_capacity s) (positive_only s) st1"
    using insert_block_ok [of s1 st True ps] s1(3-5) cap ps by auto
  let ?s2 = "put_pool k st1 s1"
  have s2: "pools_ok ?s2" using pools_ok_put [OF s1(2)] st1(2) s1(4,5) by simp
  show ?case
  proof (cases "ns = [] \<or> positive_only s")
    case True
    with Cons.IH [OF s2] gs s1 st1 show ?thesis by (auto simp: g)
  next
    case False
    obtain st2 where st2: "insert_block_to_pool ?s2 False ns st1 = Inr st2"
      "dual_ok (single_pool_capacity s) (positive_only s) st2"
      using insert_block_ok [of ?s2 st1 False ns] st1(2) s1(4,5) cap ns False by auto
    have "pools_ok (put_pool k st2 ?s2)" using pools_ok_put [OF s2] st2(2) s1(4,5) by simp
    from Cons.IH [OF this] gs False s1 st1 st2 show ?thesis by (auto simp: g)
  qed
qed

lemma refresh_simps [simp]:
  "single_pool_capacity (refresh_global_stats s) = single_pool_capacity s"
  "positive_only (refresh_global_stats s) = positive_only s"
  "task_pools (refresh_global_stats s) = task_pools s"
  "refresh_global_stats (refresh_global_stats s) = refresh_global_stats s"
  by (simp_all add: refresh_global_stats_def Let_def)

lemma pools_ok_refresh [simp]: "pools_ok (refresh_global_stats s) = pools_ok s"
  by (simp add: pools_ok_def)

lemma add_batch_inv:
  assumes "replay_inv s" and "length task_ids = length batch"
  shows "\<exists>s'. add_batch blank batch task_ids s = (Inr (), s') \<and> replay_inv s' \<and>
    single_pool_capacity s' = single_pool_capacity s \<and> positive_only s' = positive_only s"
proof (cases "batch = [] \<or> filter (\<lambda>(_, r). r_valid r) (zip task_ids batch) = []")
  case True
  have "refresh_global_stats (s\<lparr>invalid_sample := x\<rparr>) = (refresh_global_stats s)\<lparr>invalid_sample := x\<rparr>" for x
    by (simp add: refresh_global_stats_def Let_def)
  then have "replay_inv (s\<lparr>invalid_sample := x\<rparr>)" for x
    using assms(1) by (simp add: replay_inv_def pools_ok_def)
  with True assms show ?thesis by (auto simp: add_batch_def Let_def)
next
  case False
  let ?valid = "filter (\<lambda>(_, r). r_valid r) (zip task_ids batch)"
  let ?rows = "map (\<lambda>(k, r). (k, mark_success s r)) ?valid"
  have "\<forall>(k, r) \<in> set ?rows. r_valid r" by (auto simp: mark_success_def)
  then obtain s' where "insert_groups blank (grouped_rows s ?rows) s = (Inr (), s')" "pools_ok s'"
    "single_pool_capacity s' = single_pool_capacity s" "positive_only s' = positive_only s"
    using insert_groups_ok grouped_rows_ok assms(1) unfolding replay_inv_def by blast
  with False assms(2) show ?thesis by (simp add: add_batch_def Let_def replay_inv_def)
qed

end
