(* ===== verification/Replay_Properties.thy ===== *)
theory Replay_Properties
  imports Replay_Invariants "HOL-Library.Multiset"
begin

text \<open>The properties of the replay pool: allocation, sampling, ring insertion and persistence.\<close>

section \<open>Allocation\<close>

lemma alloc_pass_frame:
  "alloc_pass sizes ts a r p = (a', r', p') \<Longrightarrow> t \<notin> set ts \<Longrightarrow> a' t = a t"
  by (induction ts arbitrary: a r p) (auto simp: Let_def split: if_splits)

lemma alloc_pass_True: "alloc_pass sizes ts a r True = (a', r', p') \<Longrightarrow> p'"
  by (induction ts arbitrary: a r) (auto simp: Let_def split: if_splits)

lemma alloc_pass_sum:
  "alloc_pass sizes ts a r p = (a', r', p') \<Longrightarrow> distinct ts \<Longrightarrow> 0 < r \<Longrightarrow>
   sum_list (map a' ts) + r' = sum_list (map a ts) + r"
proof (induction ts arbitrary: a r p)
  case (Cons t ts)
  have same: "map (a(t := x)) ts = map a ts" for x
    using Cons.prems(2) by auto
  show ?case
  proof (cases "a t < sizes t")
    case False
    with Cons.prems have "alloc_pass sizes ts a r p = (a', r', p')" by simp
    moreover from this Cons.prems(2) have "a' t = a t" by (intro alloc_pass_frame) auto
    ultimately show ?thesis using Cons.IH Cons.prems by simp
  next
    case lt: True
    show ?thesis
    proof (cases "r - 1 = 0")
      case True
      with lt Cons.prems have e: "a' = a(t := a t + 1)" "r' = 0" "r = 1" by (auto simp: Let_def)
      have "sum_list (map a' (t # ts)) = a t + 1 + sum_list (map a ts)" unfolding e list.map same by simp
      with e(2,3) show ?thesis by simp
    next
      case False
      with lt Cons.prems have pass: "alloc_pass sizes ts (a(t := a t + 1)) (r - 1) True = (a', r', p')"
        by (simp add: Let_def)
      moreover from this Cons.prems(2) have "a' t = a t + 1"
        using alloc_pass_frame [OF pass, of t] by simp
      ultimately show ?thesis
        using Cons.IH [OF pass, unfolded same] Cons.prems(2,3) False by simp
    qed
  qed
qed simp

lemma alloc_pass_level:
  "alloc_pass sizes ts a r p = (a', r', p') \<Longrightarrow> distinct ts \<Longrightarrow> 0 < r \<Longrightarrow>
   \<forall>t \<in> set ts. a t = min k (sizes t) \<Longrightarrow>
   (\<forall>t \<in> set ts. a' t = min (Suc k) (sizes t) \<or> (r' = 0 \<and> a' t = min k (sizes t))) \<and>
   (\<not> p' \<longrightarrow> (\<forall>t \<in> set ts. sizes t \<le> k))"
proof (induction ts arbitrary: a r p)
  case (Cons t ts)
  have head: "a t = min k (sizes t)" using Cons.prems(4) by simp
  have rest: "\<forall>u \<in> set ts. (a(t := x)) u = min k (sizes u)" for x
    using Cons.prems(2,4) by auto
  show ?case
  proof (cases "a t < sizes t")
    case False
    then have le: "sizes t \<le> k" using head by simp
    from False Cons.prems have pass: "alloc_pass sizes ts a r p = (a', r', p')" by simp
    from alloc_pass_frame [OF pass, of t] Cons.prems(2) have "a' t = a t" by simp
    with le head have "a' t = min (Suc k) (sizes t)" by simp
    with Cons.IH [OF pass] Cons.prems le show ?thesis by auto
  next
    case lt: True
    show ?thesis
    proof (cases "r - 1 = 0")
      case True
      with lt have "alloc_pass sizes (t # ts) a r p = (a(t := a t + 1), 0, True)" by (simp add: Let_def)
      with Cons.prems(1) have e: "a' = a(t := a t + 1)" "r' = 0" p' by simp_all
      have "a' t = min (Suc k) (sizes t)" using lt head e(1) by simp
      moreover have "\<forall>u \<in> set ts. a' u = min k (sizes u)" unfolding e(1) by (rule rest)
      ultimately show ?thesis using e(2,3) by simp
    next
      case False
      with lt Cons.prems(1) have pass: "alloc_pass sizes ts (a(t := a t + 1)) (r - 1) True = (a', r', p')"
        by (simp add: Let_def)
      from alloc_pass_frame [OF pass, of t] Cons.prems(2) have "a' t = a t + 1" by simp
      with lt head have t: "a' t = min (Suc k) (sizes t)" by simp
      have progressed: p'
        using pass by (rule alloc_pass_True)
      from Cons.IH [OF pass _ _ rest] Cons.prems(2) False t progressed show ?thesis by auto
    qed
  qed
qed auto

lemma alloc_loop_result:
  assumes "distinct order" and "\<forall>t \<in> set order. a t = min k (sizes t)"
    and "r + sum_list (map a order) \<le> sum_list (map sizes order)"
  shows "\<exists>a' l. alloc_loop sizes order a r = Inr a' \<and>
    sum_list (map a' order) = sum_list (map a order) + r \<and>
    (\<forall>t \<in> set order. a' t = min l (sizes t) \<or> a' t = min (Suc l) (sizes t))"
  using assms
proof (induction r arbitrary: a k rule: less_induct)
  case (less r)
  show ?case
  proof (cases "r = 0")
    case True
    with less.prems show ?thesis by (subst alloc_loop.simps) auto
  next
    case False
    obtain a1 r1 p1 where pass: "alloc_pass sizes order a r False = (a1, r1, p1)"
      by (cases "alloc_pass sizes order a r False") auto
    have sum: "sum_list (map a1 order) + r1 = sum_list (map a order) + r"
      using alloc_pass_sum [OF pass] less.prems(1) False by simp
    have level: "(\<forall>t \<in> set order. a1 t = min (Suc k) (sizes t) \<or> (r1 = 0 \<and> a1 t = min k (sizes t)))"
      "\<not> p1 \<longrightarrow> (\<forall>t \<in> set order. sizes t \<le> k)"
      using alloc_pass_level [OF pass less.prems(1) _ less.prems(2)] False by auto
    have p1: p1
    proof (rule ccontr)
      assume "\<not> p1"
      with level(2) less.prems(2) have "map a order = map sizes order" by auto
      with less.prems(3) False show False by simp
    qed
    with alloc_pass_progress [OF pass] False have r1: "r1 < r" by simp
    have step: "alloc_loop sizes order a r = alloc_loop sizes order a1 r1"
      using False p1 pass by (subst alloc_loop.simps) simp
    show ?thesis
    proof (cases "r1 = 0")
      case True
      then have "alloc_loop sizes order a r = Inr a1" unfolding step by (simp add: alloc_loop.simps)
      with True level(1) sum show ?thesis by auto
    next
      case False
      with level(1) have "\<forall>t \<in> set order. a1 t = min (Suc k) (sizes t)" by simp
      from less.IH [OF r1 less.prems(1) this] sum less.prems(3) step show ?thesis by auto
    qed
  qed
qed

lemma size_lookup_mem: "distinct (map fst ts) \<Longrightarrow> (t, n) \<in> set ts \<Longrightarrow> size_lookup ts t = n"
  by (simp add: size_lookup_def map_of_eq_Some_iff)

lemma sum_lookup:
  assumes "distinct (map fst ts)"
  shows "sum_list (map (size_lookup ts) (map fst ts)) = sum_list (map snd ts)"
proof -
  have "map (size_lookup ts) (map fst ts) = map snd ts"
    using assms by (simp add: size_lookup_mem)
  then show ?thesis by (simp only:)
qed

lemma allocate_result:
  assumes d: "distinct (map fst sizes)" and wanted: "wanted \<le> sum_list (map snd sizes)"
  shows "\<exists>alloc l. allocate_counts_across_tasks sizes wanted = Inr (map (\<lambda>t. (t, alloc t)) (map fst sizes)) \<and>
    sum_list (map alloc (map fst sizes)) = wanted \<and>
    (\<forall>(t, n) \<in> set sizes. alloc t = min l n \<or> alloc t = min (Suc l) n)"
proof -
  have "\<exists>a l. alloc_loop (size_lookup sizes) (map fst sizes) (\<lambda>_. 0) wanted = Inr a \<and>
      sum_list (map a (map fst sizes)) = sum_list (map (\<lambda>_. 0) (map fst sizes)) + wanted \<and>
      (\<forall>t \<in> set (map fst sizes). a t = min l (size_lookup sizes t) \<or> a t = min (Suc l) (size_lookup sizes t))"
  proof (rule alloc_loop_result [where k = 0])
    have z: "sum_list (map (\<lambda>_. 0 :: nat) (map fst sizes)) = 0" by (induction sizes) auto
    show "wanted + sum_list (map (\<lambda>_. 0) (map fst sizes)) \<le>
        sum_list (map (size_lookup sizes) (map fst sizes))"
      unfolding sum_lookup [OF d] z using wanted by simp
  qed (use d in simp_all)
  then obtain a l where a: "alloc_loop (size_lookup sizes) (map fst sizes) (\<lambda>_. 0) wanted = Inr a"
    "sum_list (map a (map fst sizes)) = sum_list (map (\<lambda>_. 0) (map fst sizes)) + wanted"
    "\<forall>t \<in> set (map fst sizes). a t = min l (size_lookup sizes t) \<or> a t = min (Suc l) (size_lookup sizes t)"
    by blast
  have "\<forall>(t, n) \<in> set sizes. a t = min l n \<or> a t = min (Suc l) n"
    using a(3) size_lookup_mem [OF d] by force
  moreover have "allocate_counts_across_tasks sizes wanted = Inr (map (\<lambda>t. (t, a t)) (map fst sizes))"
    using a(1) wanted by (simp add: allocate_counts_across_tasks_def)
  moreover have "sum_list (map a (map fst sizes)) = wanted" using a(2) by (simp add: comp_def)
  ultimately show ?thesis by blast
qed

text \<open>
  C26. Allocation over tasks: as long as enough rows are available, the round-robin allocation
  terminates, gives every task at most what it has, adds up to the request, and is fair: some
  level is reached by every task that has that many rows, and no task exceeds it by more
  than one.
\<close>

theorem allocation_exact_and_fair:
  assumes "distinct (map fst sizes)" and "wanted \<le> sum_list (map snd sizes)"
  shows "\<exists>alloc level. allocate_counts_across_tasks sizes wanted = Inr alloc \<and>
    map fst alloc = map fst sizes \<and> sum_list (map snd alloc) = wanted \<and>
    (\<forall>(t, n) \<in> set sizes. size_lookup alloc t \<le> n \<and> min level n \<le> size_lookup alloc t \<and>
       size_lookup alloc t \<le> Suc level)"
proof -
  obtain a l where a: "allocate_counts_across_tasks sizes wanted = Inr (map (\<lambda>t. (t, a t)) (map fst sizes))"
    "sum_list (map a (map fst sizes)) = wanted"
    "\<forall>(t, n) \<in> set sizes. a t = min l n \<or> a t = min (Suc l) n"
    using allocate_result [OF assms] by blast
  let ?alloc = "map (\<lambda>t. (t, a t)) (map fst sizes)"
  have "size_lookup ?alloc t = a t" if "(t, n) \<in> set sizes" for t n
    using that assms(1) by (intro size_lookup_mem) (auto simp: comp_def rev_image_eqI)
  then have "\<forall>(t, n) \<in> set sizes. size_lookup ?alloc t \<le> n \<and> min l n \<le> size_lookup ?alloc t \<and>
      size_lookup ?alloc t \<le> Suc l"
    using a(3) by fastforce
  moreover have "map fst ?alloc = map fst sizes" and "sum_list (map snd ?alloc) = wanted"
    using a(2) by (simp_all add: comp_def)
  ultimately show ?thesis using a(1) by blast
qed

theorem allocation_exact_and_fair_witness:
  "\<exists>alloc level. allocate_counts_across_tasks [(''a'', 5), (''b'', 1), (''c'', 3)] 6 = Inr alloc \<and>
    sum_list (map snd alloc) = 6"
proof -
  have "distinct (map fst [(''a'', 5 :: nat), (''b'', 1), (''c'', 3)])"
    and "6 \<le> sum_list (map snd [(''a'', 5 :: nat), (''b'', 1), (''c'', 3)])" by simp_all
  from allocation_exact_and_fair [OF this] show ?thesis by blast
qed

section \<open>Persistence\<close>

definition saved_of :: "'r dual_pool \<Rightarrow> 'r saved_task" where
  "saved_of st =
     \<lparr>st_positive_pool = the (positive_pool st), st_negative_pool = negative_pool st,
      st_positive_size = positive_size st, st_negative_size = negative_size st,
      st_positive_position = positive_position st, st_negative_position = negative_position st\<rparr>"

definition saved_pools :: "'r replay \<Rightarrow> 'r saved_pool" where
  "saved_pools s =
     \<lparr>sv_version = Some 5, sv_capacity = single_pool_capacity s, sv_positive_only = Some (positive_only s),
      sv_tasks = map (\<lambda>(k, st). (k, saved_of st)) (task_pools s)\<rparr>"

lemma save_task_ok: "dual_ok cap po st \<Longrightarrow> save_task st = Inr (saved_of st)"
  by (auto simp: dual_ok_def side_ok_def side_pool_def save_task_def saved_of_def)

lemma load_saved_task:
  "dual_ok cap po st \<Longrightarrow> load_task tensors_of 5 po (saved_of st) = Inr st"
  by (cases st) (auto simp: dual_ok_def side_ok_def side_pool_def load_task_def saved_of_def)

lemma update_new_key: "k \<notin> fst ` set d \<Longrightarrow> AList.update k v d = d @ [(k, v)]"
  by (induction d) auto

lemma load_saved_tasks:
  assumes "\<forall>st \<in> snd ` set xs. dual_ok cap (positive_only s) st"
    and "distinct (map fst xs)" and "fst ` set xs \<inter> fst ` set (task_pools s) = {}"
  shows "load_tasks tensors_of 5 (map (\<lambda>(k, st). (k, saved_of st)) xs) s =
    (Inr (), s\<lparr>task_pools := task_pools s @ xs\<rparr>)"
  using assms
proof (induction xs arbitrary: s)
  case (Cons x xs)
  obtain k st where x: "x = (k, st)" by (cases x)
  have new: "k \<notin> fst ` set (task_pools s)" using Cons.prems(3) by (auto simp: x)
  then have put: "put_pool k st s = s\<lparr>task_pools := task_pools s @ [(k, st)]\<rparr>"
    by (simp add: put_pool_def update_new_key)
  have "load_task tensors_of 5 (positive_only s) (saved_of st) = Inr st"
    using Cons.prems(1) by (intro load_saved_task [of cap]) (simp add: x)
  then have "load_tasks tensors_of 5 (map (\<lambda>(k, st). (k, saved_of st)) (x # xs)) s =
      load_tasks tensors_of 5 (map (\<lambda>(k, st). (k, saved_of st)) xs) (put_pool k st s)"
    by (simp add: x)
  also have "\<dots> = (Inr (), (put_pool k st s)\<lparr>task_pools := task_pools (put_pool k st s) @ xs\<rparr>)"
    by (rule Cons.IH) (use Cons.prems in \<open>auto simp: put x\<close>)
  finally show ?case by (simp add: put x)
qed simp

lemma save_pool_ok:
  assumes "pools_ok s" shows "save_pool s = Inr (saved_pools s)"
proof -
  have "traverse (\<lambda>(k, st). bind_res (save_task st) (\<lambda>p. Inr (k, p))) (task_pools s) =
      Inr (map (\<lambda>(k, st). (k, saved_of st)) (task_pools s))"
    using assms by (intro traverse_map_Inr) (auto simp: pools_ok_def save_task_ok)
  then show ?thesis by (simp add: save_pool_def saved_pools_def)
qed

lemma load_saved_pool:
  assumes "replay_inv s"
  shows "load_pool tensors_of (Some (saved_pools s)) s0 =
    (Inr True, s\<lparr>invalid_sample := invalid_sample s0\<rparr>)"
proof -
  let ?s1 = "s0\<lparr>positive_only := positive_only s, single_pool_capacity := single_pool_capacity s,
      task_pools := []\<rparr>"
  have "load_tasks tensors_of 5 (map (\<lambda>(k, st). (k, saved_of st)) (task_pools s)) ?s1 =
      (Inr (), ?s1\<lparr>task_pools := task_pools ?s1 @ task_pools s\<rparr>)"
    using assms by (intro load_saved_tasks [of _ "single_pool_capacity s"])
      (auto simp: replay_inv_def pools_ok_def)
  then have "load_pool tensors_of (Some (saved_pools s)) s0 =
      (Inr True, refresh_global_stats (?s1\<lparr>task_pools := task_pools s\<rparr>))"
    by (simp add: load_pool_def saved_pools_def)
  moreover have "refresh_global_stats (?s1\<lparr>task_pools := task_pools s\<rparr>) =
      (refresh_global_stats s)\<lparr>invalid_sample := invalid_sample s0\<rparr>"
    by (simp add: refresh_global_stats_def Let_def)
  ultimately show ?thesis using assms by (simp add: replay_inv_def)
qed

text \<open>A pool is created empty, then filled by batches and replaced by what a checkpoint holds.\<close>

inductive replay_step :: "'r replay \<Rightarrow> 'r replay \<Rightarrow> bool" where
  add: "add_batch blank batch task_ids s = (r, s') \<Longrightarrow> replay_step s s'"
| restore: "save_pool s = Inr sv \<Longrightarrow> load_pool tensors_of (Some sv) s0 = (r, s') \<Longrightarrow> replay_step s s'"

inductive_cases replay_stepE: "replay_step s s'"

definition replay_start :: "'r replay \<Rightarrow> bool" where
  "replay_start s \<longleftrightarrow> (\<exists>cap po. 0 < cap \<and> s = replay_init cap po)"

lemma invalid_sample_inv: "replay_inv s \<Longrightarrow> replay_inv (s\<lparr>invalid_sample := x\<rparr>)"
proof -
  have "refresh_global_stats (s\<lparr>invalid_sample := x\<rparr>) = (refresh_global_stats s)\<lparr>invalid_sample := x\<rparr>"
    by (simp add: refresh_global_stats_def Let_def)
  then show "replay_inv s \<Longrightarrow> replay_inv (s\<lparr>invalid_sample := x\<rparr>)"
    by (simp add: replay_inv_def pools_ok_def)
qed

interpretation replay: transition_system replay_start replay_step replay_inv
proof
  show "replay_start s \<Longrightarrow> replay_inv s" for s :: "'r replay"
    by (auto simp: replay_start_def replay_inv_def pools_ok_def replay_init_def
        refresh_global_stats_def)
  fix s s' :: "'r replay"
  assume step: "replay_step s s'" and inv: "replay_inv s"
  from step show "replay_inv s'"
  proof (cases rule: replay_step.cases)
    case (add blank batch task_ids r)
    show ?thesis
    proof (cases "length task_ids = length batch")
      case True
      from add_batch_inv [OF inv True, of blank] add show ?thesis by auto
    next
      case False
      with add inv show ?thesis by (auto simp: add_batch_def split: if_splits)
    qed
  next
    case (restore sv tensors_of s0 r)
    have "save_pool s = Inr (saved_pools s)" using inv by (intro save_pool_ok) (simp add: replay_inv_def)
    then have "sv = saved_pools s" using restore(1) by simp
    with restore(2) load_saved_pool [OF inv] invalid_sample_inv [OF inv] show ?thesis by auto
  qed
qed

abbreviation replay_reachable :: "'r replay \<Rightarrow> bool" where
  "replay_reachable s \<equiv> \<exists>s0. replay_start s0 \<and> replay_step\<^sup>*\<^sup>* s0 s"

lemma replay_reachable_inv: "replay_reachable s \<Longrightarrow> replay_inv s"
  using replay.reachable_inv by blast

lemma sample_batch_placeholder:
  "sample_batch concat_nothing draw shuffle bs ratio (s\<lparr>invalid_sample := None\<rparr>) =
     (if total_size s = 0 then Inl ValueError else sample_batch concat_nothing draw shuffle bs ratio s)"
proof -
  have "sample_from_task_pools concat_nothing draw b k (s\<lparr>invalid_sample := None\<rparr>) =
      sample_from_task_pools concat_nothing draw b k s" for b k
    by (simp add: sample_from_task_pools_def task_sizes_of_def)
  then show ?thesis by (simp add: sample_batch_def clamp_ratio_def Let_def split_beta)
qed

text \<open>
  C27. Checkpoint round trip: saving any reachable pool succeeds, and building a pool from the
  saved file gives the same pool back, except that the placeholder of an empty pool, which is not
  saved, is forgotten. A pool that holds rows then answers every request as before; one that holds
  none raises \<open>ValueError\<close>, also where the pool before the round trip had a placeholder and returned
  invalid rows.
\<close>

theorem replay_save_load_roundtrip:
  assumes "replay_reachable s"
  shows "\<exists>sv s'. save_pool s = Inr sv \<and> pool_from_path tensors_of (Some sv) = Inr s' \<and>
    s' = s\<lparr>invalid_sample := None\<rparr> \<and>
    (\<forall>concat_nothing draw shuffle bs ratio. sample_batch concat_nothing draw shuffle bs ratio s' =
       (if total_size s = 0 then Inl ValueError else sample_batch concat_nothing draw shuffle bs ratio s))"
proof -
  have inv: "replay_inv s" by (rule replay_reachable_inv [OF assms])
  have "pool_from_path tensors_of (Some (saved_pools s)) = Inr (s\<lparr>invalid_sample := None\<rparr>)"
    by (simp add: pool_from_path_def load_saved_pool [OF inv]) (simp add: replay_init_def)
  with save_pool_ok inv show ?thesis by (auto simp: replay_inv_def sample_batch_placeholder)
qed

definition sample_row :: "bool \<Rightarrow> nat \<Rightarrow> nat row" where
  "sample_row success i = \<lparr>r_valid = True, r_success = [success], r_data = i\<rparr>"

definition filled_pool :: "nat replay" where
  "filled_pool = snd (add_batch (sample_row False 0) (map (\<lambda>i. sample_row (i < 3) i) [0..<5])
     [''a'', ''a'', ''b'', ''b'', ''b''] (replay_init 2 False))"

lemma filled_reachable: "replay_reachable filled_pool"
proof -
  have "replay_start (replay_init 2 False :: nat replay)"
    unfolding replay_start_def by (intro exI conjI) (auto intro: refl)
  moreover have "replay_step (replay_init 2 False) filled_pool"
    unfolding filled_pool_def by (rule replay_step.add) (rule prod.collapse [symmetric])
  ultimately show ?thesis by blast
qed

text \<open>A pool whose first batch had no valid row holds the placeholder only.\<close>

definition placeholder_pool :: "nat replay" where
  "placeholder_pool = snd (add_batch (sample_row False 0) [(sample_row False 7)\<lparr>r_valid := False\<rparr>] [''a''] (replay_init 2 False))"

lemma placeholder_reachable: "replay_reachable placeholder_pool"
proof -
  have "replay_start (replay_init 2 False :: nat replay)"
    unfolding replay_start_def by (intro exI conjI) (auto intro: refl)
  moreover have "replay_step (replay_init 2 False) placeholder_pool"
    unfolding placeholder_pool_def by (rule replay_step.add) (rule prod.collapse [symmetric])
  ultimately show ?thesis by blast
qed

theorem replay_save_load_roundtrip_witness:
  "(\<exists>sv. save_pool filled_pool = Inr sv \<and>
     pool_from_path id (Some sv) = Inr (filled_pool\<lparr>invalid_sample := None\<rparr>)) \<and>
   (\<exists>sv s'. save_pool placeholder_pool = Inr sv \<and> pool_from_path id (Some sv) = Inr s' \<and>
      \<not> isl (sample_batch (Inl IndexError) (\<lambda>_ _ k. [0..<k]) (\<lambda>k. [0..<k]) 2 (1 / 2) placeholder_pool) \<and>
      sample_batch (Inl IndexError) (\<lambda>_ _ k. [0..<k]) (\<lambda>k. [0..<k]) 2 (1 / 2) s' = Inl ValueError)"
proof -
  have "total_size placeholder_pool = 0"
    "\<not> isl (sample_batch (Inl IndexError) (\<lambda>_ _ k. [0..<k]) (\<lambda>k. [0..<k]) 2 (1 / 2) placeholder_pool)"
    by code_simp+
  then show ?thesis
    using replay_save_load_roundtrip [OF filled_reachable, of id]
      replay_save_load_roundtrip [OF placeholder_reachable, of id] by fastforce
qed

section \<open>Rings\<close>

text \<open>
  C25. Each side of a task pool is a bounded queue: in a reachable pool, inserting a block
  drops exactly the oldest rows that no longer fit and appends the rows of the block (its
  first \<open>capacity\<close> rows), and leaves the other side alone.
\<close>

theorem insertion_is_bounded_fifo:
  assumes "replay_reachable s" and "map_of (task_pools s) k = Some st"
    and "is_positive \<or> \<not> positive_only s"
  shows "\<exists>st'. insert_block_to_pool s is_positive source st = Inr st' \<and>
    ring_contents (side_ring is_positive (single_pool_capacity s) st') =
      drop (side_size is_positive st + min (length source) (single_pool_capacity s) - single_pool_capacity s)
        (ring_contents (side_ring is_positive (single_pool_capacity s) st) @
         take (single_pool_capacity s) source) \<and>
    side_ring (\<not> is_positive) (single_pool_capacity s) st' =
      side_ring (\<not> is_positive) (single_pool_capacity s) st"
proof -
  let ?cap = "single_pool_capacity s"
  have inv: "pools_ok s" using replay_reachable_inv [OF assms(1)] by (simp add: replay_inv_def)
  then have cap: "0 < ?cap" by (simp add: pools_ok_def)
  have "side_ok (positive_only s) is_positive ?cap st"
    using pools_ok_lookup [OF inv assms(2)] assms(3) by (cases is_positive) (auto simp: dual_ok_def)
  then have side: "side_pool is_positive st \<noteq> None" "ring_ok (side_ring is_positive ?cap st)"
    by (simp_all add: side_ok_def)
  obtain st' where st': "insert_block_to_pool s is_positive source st = Inr st'"
    "side_ring is_positive ?cap st' = ring_push (side_ring is_positive ?cap st) source"
    "side_ring (\<not> is_positive) ?cap st' = side_ring (\<not> is_positive) ?cap st"
    by (rule insert_block_cases [OF cap side(1) assms(3) side(2)])
  have "ring_contents (side_ring is_positive ?cap st') =
      drop (side_size is_positive st + min (length source) ?cap - ?cap)
        (ring_contents (side_ring is_positive ?cap st) @ take ?cap source)"
    using ring.push_contents [OF side(2), of source] by (simp add: st'(2)) (simp add: side_ring_def)
  with st'(1,3) show ?thesis by blast
qed

theorem insertion_is_bounded_fifo_witness:
  "\<exists>st'. insert_block_to_pool filled_pool True [sample_row True 7]
      (the (map_of (task_pools filled_pool) ''a'')) = Inr st' \<and>
    map r_data (ring_contents (side_ring True 2 st')) = [1, 7]"
proof -
  have "map_of (task_pools filled_pool) ''a'' = Some (the (map_of (task_pools filled_pool) ''a''))"
    by code_simp
  from insertion_is_bounded_fifo [OF filled_reachable this, of True "[sample_row True 7]"]
  obtain st' where st': "insert_block_to_pool filled_pool True [sample_row True 7]
      (the (map_of (task_pools filled_pool) ''a'')) = Inr st'"
    "ring_contents (side_ring True (single_pool_capacity filled_pool) st') =
      drop (side_size True (the (map_of (task_pools filled_pool) ''a'')) +
          min (length [sample_row True 7]) (single_pool_capacity filled_pool) - single_pool_capacity filled_pool)
        (ring_contents (side_ring True (single_pool_capacity filled_pool)
            (the (map_of (task_pools filled_pool) ''a''))) @
         take (single_pool_capacity filled_pool) [sample_row True 7])" by auto
  have "single_pool_capacity filled_pool = 2" by code_simp
  moreover have "map r_data (drop (side_size True (the (map_of (task_pools filled_pool) ''a'')) +
          min (length [sample_row True 7]) 2 - 2)
        (ring_contents (side_ring True 2 (the (map_of (task_pools filled_pool) ''a''))) @
         take 2 [sample_row True 7])) = [1, 7]"
    by code_simp
  ultimately show ?thesis using st' by auto
qed

section \<open>Sampling\<close>

definition is_perm :: "nat list \<Rightarrow> nat \<Rightarrow> bool" where
  "is_perm xs n \<longleftrightarrow> distinct xs \<and> set xs = set [0..<n]"

lemma is_perm_length: "is_perm xs n \<Longrightarrow> length xs = n"
  by (metis is_perm_def distinct_card distinct_upt length_upt minus_nat.diff_0)

lemma is_perm_mset: "is_perm p (length xs) \<Longrightarrow> mset (map (\<lambda>i. xs ! i) p) = mset xs"
proof -
  assume p: "is_perm p (length xs)"
  have "mset p = mset [0..<length xs]"
    using p set_eq_iff_mset_eq_distinct [of p "[0..<length xs]"] by (simp add: is_perm_def)
  then have "mset (map ((!) xs) p) = mset (map ((!) xs) [0..<length xs])" by simp
  then show ?thesis by (simp add: map_nth)
qed

lemma sample_split_result:
  assumes "0 \<le> ratio" and "ratio \<le> 1" and "sample_split bs ratio P N = (p, n)"
  shows "p + n = min bs (P + N) \<and> p \<le> P \<and> n \<le> N"
proof -
  have "of_nat bs * ratio \<le> of_int (int bs)"
    using assms(1,2) mult_left_le [of ratio "of_nat bs"] by simp
  then have "py_round (of_nat bs * ratio) \<le> int bs" by (rule py_round_le)
  then have t: "nat (py_round (of_nat bs * ratio)) \<le> bs" by simp
  define t where "t = nat (py_round (of_nat bs * ratio))"
  from assms(3) t show ?thesis unfolding sample_split_def Let_def t_def [symmetric]
    by (auto split: if_splits simp: min_def)
qed

definition stored_rows :: "bool \<Rightarrow> 'r replay \<Rightarrow> 'r row set" where
  "stored_rows is_positive s =
     (\<Union>st \<in> snd ` set (task_pools s). set (ring_contents (side_ring is_positive (single_pool_capacity s) st)))"

lemma single_pool_sample:
  assumes "side_ok po is_positive cap st" and "\<And>n. is_perm (perm n) n" and "c \<le> side_size is_positive st"
  obtains rows where "sample_from_single_task_pool perm is_positive c st = Inr rows" "length rows = c"
    "set rows \<subseteq> set (ring_contents (side_ring is_positive cap st))"
proof -
  obtain cells where cells: "side_pool is_positive st = Some cells"
    and ring: "ring_ok (side_ring is_positive cap st)"
    using assms(1) by (auto simp: side_ok_def)
  let ?n = "side_size is_positive st"
  let ?rows = "map (\<lambda>i. cells ! i) (take c (perm ?n))"
  have "set (take c (perm ?n)) \<subseteq> {..<?n}"
    using set_take_subset [of c "perm ?n"] assms(2) [of ?n] by (auto simp: is_perm_def)
  moreover have "cells ! i \<in> set (ring_contents (side_ring is_positive cap st))" if "i < ?n" for i
    using ring_cell [OF ring, of i] that by (simp add: side_ring_def cells)
  ultimately have "set ?rows \<subseteq> set (ring_contents (side_ring is_positive cap st))" by auto
  moreover have "length ?rows = c" using is_perm_length [OF assms(2)] assms(3) by simp
  ultimately show thesis
    using that [of ?rows] cells by (simp add: sample_from_single_task_pool_def)
qed

lemma sum_positive_sizes:
  "sum_list (map snd (filter (\<lambda>(_, n). 0 < n) xs)) = sum_list (map snd (xs :: ('a \<times> nat) list))"
  by (induction xs) auto

lemma task_sizes_sum: "sum_list (map snd (task_sizes_of is_positive s)) =
    sum_list (map (side_size is_positive \<circ> snd) (task_pools s))"
proof -
  have "map snd (map (\<lambda>(k, st). (k, side_size is_positive st)) (task_pools s)) =
      map (side_size is_positive \<circ> snd) (task_pools s)" by auto
  then show ?thesis unfolding task_sizes_of_def sum_positive_sizes by (simp only:)
qed

lemma task_sizes_distinct:
  "distinct (map fst (task_pools s)) \<Longrightarrow> distinct (map fst (task_sizes_of is_positive s))"
proof -
  have "map fst (map (\<lambda>(k, st). (k, side_size is_positive st)) (task_pools s)) = map fst (task_pools s)"
    by auto
  then show "distinct (map fst (task_pools s)) \<Longrightarrow> distinct (map fst (task_sizes_of is_positive s))"
    unfolding task_sizes_of_def by (metis distinct_map_filter)
qed

lemma traverse_samples:
  assumes "\<forall>(t, c) \<in> set xs. \<exists>rows. f (t, c) = Inr rows \<and> length rows = c \<and> set rows \<subseteq> A"
  shows "\<exists>parts. traverse f xs = Inr parts \<and> length (concat parts) = sum_list (map snd xs) \<and>
    set (concat parts) \<subseteq> A \<and> length parts = length xs"
  using assms
proof (induction xs)
  case (Cons x xs)
  then obtain rows where "f x = Inr rows" "length rows = snd x" "set rows \<subseteq> A"
    by (cases x) auto
  moreover obtain parts where "traverse f xs = Inr parts" "length (concat parts) = sum_list (map snd xs)"
    "set (concat parts) \<subseteq> A" "length parts = length xs"
    using Cons by auto
  ultimately show ?case by simp
qed simp

lemma sample_pools_ok:
  assumes inv: "pools_ok s" and side: "is_positive \<or> \<not> positive_only s" and "0 < n"
    and avail: "n \<le> sum_list (map (side_size is_positive \<circ> snd) (task_pools s))"
    and perm: "\<And>t k. is_perm (draw is_positive t k) k"
  obtains rows where "sample_from_task_pools concat_nothing draw is_positive n s = Inr rows"
    "length rows = n" "set rows \<subseteq> stored_rows is_positive s"
proof -
  let ?sizes = "task_sizes_of is_positive s"
  have d: "distinct (map fst (task_pools s))" using inv by (simp add: pools_ok_def)
  obtain alloc l where alloc: "allocate_counts_across_tasks ?sizes n = Inr (map (\<lambda>t. (t, alloc t)) (map fst ?sizes))"
    "sum_list (map alloc (map fst ?sizes)) = n"
    "\<forall>(t, m) \<in> set ?sizes. alloc t = min l m \<or> alloc t = min (Suc l) m"
    using allocate_result [OF task_sizes_distinct [OF d]] avail unfolding task_sizes_sum by blast
  let ?used = "filter (\<lambda>(_, c). 0 < c) (map (\<lambda>t. (t, alloc t)) (map fst ?sizes))"
  let ?f = "\<lambda>(t, c). case map_of (task_pools s) t of
             None \<Rightarrow> Inl KeyError
           | Some st \<Rightarrow> sample_from_single_task_pool (draw is_positive t) is_positive c st"
  have "\<exists>rows. ?f (t, c) = Inr rows \<and> length rows = c \<and> set rows \<subseteq> stored_rows is_positive s"
    if tc: "(t, c) \<in> set ?used" for t c
  proof -
    obtain m where m: "(t, m) \<in> set ?sizes" "c = alloc t" using tc by auto
    then obtain st where st: "(t, st) \<in> set (task_pools s)" "m = side_size is_positive st"
      by (auto simp: task_sizes_of_def)
    then have lookup: "map_of (task_pools s) t = Some st" using d by simp
    have ok: "side_ok (positive_only s) is_positive (single_pool_capacity s) st"
      using pools_ok_lookup [OF inv lookup] side by (cases is_positive) (auto simp: dual_ok_def)
    have c: "c \<le> side_size is_positive st" using alloc(3) m st(2) by force
    obtain rows where "sample_from_single_task_pool (draw is_positive t) is_positive c st = Inr rows"
      "length rows = c" "set rows \<subseteq> set (ring_contents (side_ring is_positive (single_pool_capacity s) st))"
      by (rule single_pool_sample [OF ok _ c, of "draw is_positive t"]) (rule perm)
    moreover have "set (ring_contents (side_ring is_positive (single_pool_capacity s) st)) \<subseteq>
        stored_rows is_positive s"
      using st(1) unfolding stored_rows_def by force
    ultimately show ?thesis using lookup by auto
  qed
  then obtain parts where parts: "traverse ?f ?used = Inr parts"
    "length (concat parts) = sum_list (map snd ?used)" "set (concat parts) \<subseteq> stored_rows is_positive s"
    "length parts = length ?used"
    using traverse_samples [of ?used ?f "stored_rows is_positive s"] by blast
  have sum: "sum_list (map snd ?used) = n"
    unfolding sum_positive_sizes using alloc(2) by (simp add: comp_def)
  have "length (concat parts) = n" using parts(2) sum by (rule trans)
  then have "parts \<noteq> []" using \<open>0 < n\<close> by (cases parts) simp_all
  then show thesis
    using that [of "concat parts"] parts sum alloc(1)
    by (simp add: sample_from_task_pools_def concat_parts_def)
qed

lemma stored_rows_valid:
  assumes "pools_ok s" and "is_positive \<or> \<not> positive_only s" and "r \<in> stored_rows is_positive s"
  shows "row_belongs (positive_only s) is_positive r"
proof -
  obtain st where st: "st \<in> snd ` set (task_pools s)"
    "r \<in> set (ring_contents (side_ring is_positive (single_pool_capacity s) st))"
    using assms(3) by (auto simp: stored_rows_def)
  have "dual_ok (single_pool_capacity s) (positive_only s) st" 
    using assms(1) st(1) by (auto simp: pools_ok_def)
  with assms(2) have "side_ok (positive_only s) is_positive (single_pool_capacity s) st"
    by (cases is_positive) (auto simp: dual_ok_def)
  with st(2) show ?thesis by (simp add: side_ok_def)
qed

lemma totals:
  assumes "replay_inv s"
  shows "total_positive s = sum_list (map (side_size True \<circ> snd) (task_pools s))"
    "total_negative s = sum_list (map (side_size False \<circ> snd) (task_pools s))"
    "total_size s = total_positive s + total_negative s"
proof -
  have s: "refresh_global_stats s = s" using assms by (simp add: replay_inv_def)
  have side: "side_size True = positive_size" "side_size False = negative_size"
    by (auto simp: side_size_def)
  have "total_positive (refresh_global_stats s) = sum_list (map (positive_size \<circ> snd) (task_pools s))"
    "total_negative (refresh_global_stats s) = sum_list (map (negative_size \<circ> snd) (task_pools s))"
    by (simp_all add: refresh_global_stats_def Let_def)
  then show "total_positive s = sum_list (map (side_size True \<circ> snd) (task_pools s))"
    "total_negative s = sum_list (map (side_size False \<circ> snd) (task_pools s))"
    unfolding s side .
  have "total_size (refresh_global_stats s) =
      total_positive (refresh_global_stats s) + total_negative (refresh_global_stats s)"
    by (simp add: refresh_global_stats_def Let_def)
  then show "total_size s = total_positive s + total_negative s" unfolding s .
qed

lemma no_negatives: "replay_inv s \<Longrightarrow> positive_only s \<Longrightarrow> total_negative s = 0"
  unfolding totals(2) by (auto simp: replay_inv_def pools_ok_def dual_ok_def side_size_def)

lemma padded_valid_count:
  assumes "\<forall>r \<in> set rows. r_valid r" and "length rows \<le> bs"
  shows "length (pad_sampled_batch bs rows) = bs \<and>
    filter r_valid (pad_sampled_batch bs rows) = rows"
  using assms by (auto simp: pad_sampled_batch_def filter_id_conv filter_empty_conv)

text \<open>
  C24. Sampling is exact: a non-empty reachable pool answers every request for a positive
  number of rows with exactly that many rows, as many of them valid as the pool holds (the
  rest is zero-weight padding), each valid one a row stored in the pool, whatever the requested
  ratio and the random permutations.
\<close>

theorem sample_batch_exact:
  assumes reach: "replay_reachable s" and nonempty: "0 < total_size s" and "0 < bs"
    and draw: "\<And>b t k. is_perm (draw b t k) k" and shuffle: "\<And>k. is_perm (shuffle k) k"
  shows "\<exists>rows info. sample_batch concat_nothing draw shuffle bs ratio s = Inr (rows, info) \<and>
    length rows = bs \<and> length (filter r_valid rows) = min bs (total_size s) \<and>
    set (filter r_valid rows) \<subseteq> stored_rows True s \<union> stored_rows False s"
proof -
  have inv: "replay_inv s" by (rule replay_reachable_inv [OF reach])
  then have pools: "pools_ok s" by (simp add: replay_inv_def)
  note tot = totals [OF inv]
  obtain p n where split: "sample_split bs (clamp_ratio s ratio) (total_positive s) (total_negative s) = (p, n)"
    by (cases "sample_split bs (clamp_ratio s ratio) (total_positive s) (total_negative s)")
  have pn: "p + n = min bs (total_size s)" "p \<le> total_positive s" "n \<le> total_negative s"
    using sample_split_result [OF _ _ split] tot(3) by (auto simp: clamp_ratio_def)
  have side: "\<not> positive_only s" if "0 < n" using that pn(3) no_negatives [OF inv] by auto
  let ?A = "stored_rows True s \<union> stored_rows False s"
  have "\<exists>ps. (if 0 < p then sample_from_task_pools concat_nothing draw True p s else Inr []) = Inr ps \<and>
      length ps = p \<and> set ps \<subseteq> stored_rows True s"
    using sample_pools_ok [OF pools, of True p draw concat_nothing] draw pn(2) tot(1) by auto
  then obtain ps where ps: "(if 0 < p then sample_from_task_pools concat_nothing draw True p s else Inr []) = Inr ps"
    "length ps = p" "set ps \<subseteq> stored_rows True s" by blast
  have "\<exists>ns. (if 0 < n then sample_from_task_pools concat_nothing draw False n s else Inr []) = Inr ns \<and>
      length ns = n \<and> set ns \<subseteq> stored_rows False s"
    using sample_pools_ok [OF pools, of False n draw concat_nothing] draw pn(3) tot(2) side by auto
  then obtain ns where ns: "(if 0 < n then sample_from_task_pools concat_nothing draw False n s else Inr []) = Inr ns"
    "length ns = n" "set ns \<subseteq> stored_rows False s" by blast
  have "0 < p + n" using pn(1) nonempty \<open>0 < bs\<close> by simp
  then have parts: "concat_parts concat_nothing ((if 0 < p then [ps] else []) @ (if 0 < n then [ns] else [])) =
      Inr (ps @ ns)"
    using ps(2) ns(2) by (auto simp: concat_parts_def)
  have valid: "\<forall>r \<in> set (ps @ ns). r_valid r"
    using ps(3) ns(2,3) side stored_rows_valid [OF pools] by (fastforce simp: row_belongs_def)
  let ?padded = "pad_sampled_batch bs (ps @ ns)"
  have padded: "length ?padded = bs" "filter r_valid ?padded = ps @ ns"
    using padded_valid_count [OF valid, of bs] pn(1) ps(2) ns(2) by auto
  let ?rows = "map (\<lambda>i. ?padded ! i) (shuffle bs)"
  have m: "mset ?rows = mset ?padded" using is_perm_mset [of "shuffle bs" ?padded] shuffle padded(1) by simp
  then have "mset (filter r_valid ?rows) = mset (ps @ ns)" using padded(2) by (metis mset_filter)
  then have "length (filter r_valid ?rows) = p + n" "set (filter r_valid ?rows) = set (ps @ ns)"
    using ps(2) ns(2) by (metis length_append size_mset, metis set_mset_mset)
  moreover have "length ?rows = bs" using m padded(1) by (metis size_mset)
  moreover have "sample_batch concat_nothing draw shuffle bs ratio s =
      Inr (?rows, \<lparr>si_ratio = of_nat p / of_nat (max bs 1), si_positive = total_positive s,
        si_negative = total_negative s, si_tasks = length (task_pools s)\<rparr>)"
    using nonempty by (simp add: sample_batch_def split ps(1) ns(1) parts del: upt_Suc)
  ultimately show ?thesis using pn(1) ps(3) ns(3) by auto
qed

theorem sample_batch_exact_witness:
  "\<exists>rows info. sample_batch (Inl IndexError) (\<lambda>_ _ k. rev [0..<k]) (\<lambda>k. [0..<k]) 6 (1 / 2) filled_pool =
      Inr (rows, info) \<and> length rows = 6 \<and> length (filter r_valid rows) = min 6 5"
proof -
  have "total_size filled_pool = 5" by code_simp
  moreover have "is_perm (rev [0..<k]) k" "is_perm [0..<k] k" for k by (simp_all add: is_perm_def)
  ultimately show ?thesis
    using sample_batch_exact [OF filled_reachable, of 6 "\<lambda>_ _ k. rev [0..<k]" "\<lambda>k. [0..<k]"
        "Inl IndexError" "1 / 2"] by auto
qed

end
