(* ===== verification/Rollout_Batch_Properties.thy ===== *)
theory Rollout_Batch_Properties
  imports Rollout_Batch
begin

text \<open>The properties of rollout-batch assembly.\<close>

section \<open>Batches of uniform length\<close>

definition uniform :: "nat \<Rightarrow> 'n data_proto \<Rightarrow> bool" where
  "uniform n d \<longleftrightarrow> dp_tensors d \<noteq> [] \<and> (\<forall>t \<in> snd ` set (dp_tensors d). length (tn_rows t) = n)"

abbreviation look :: "'n data_proto \<Rightarrow> string \<Rightarrow> pyfloat tensor option" where
  "look d \<equiv> map_of (dp_tensors d)"

lemma uniform_len: "uniform n d \<Longrightarrow> dp_len d = n"
  by (cases "dp_tensors d") (auto simp: uniform_def dp_len_def)

lemma dp_len_meta [simp]: "dp_len (d\<lparr>dp_meta := x\<rparr>) = dp_len d"
  by (simp add: dp_len_def split: list.split)

lemma uniform_look: "uniform n d \<Longrightarrow> look d k = Some t \<Longrightarrow> length (tn_rows t) = n"
  by (force simp: uniform_def dest: map_of_SomeD)

lemma uniform_select: "uniform n d \<Longrightarrow> uniform (length idx) (dp_select idx d)"
  by (auto simp: uniform_def dp_select_def map_fields_def)

lemma look_select [simp]: "look (dp_select idx d) k = map_option (tn_select idx) (look d k)"
  by (simp add: dp_select_def)

lemma dp_get_look: "dp_get k d = (case look d k of None \<Rightarrow> Inl KeyError | Some t \<Rightarrow> Inr t)"
  by (simp add: dp_get_def)

lemma look_zero_field:
  "look d k = Some t \<Longrightarrow> \<exists>d'. zero_field n k d = Inr d' \<and> look d' = (look d)(k \<mapsto> zero_from n t)"
  by (simp add: zero_field_def dp_get_def)

lemma length_zero_from [simp]: "length (tn_rows (zero_from n t)) = length (tn_rows t)"
  by (simp add: zero_from_def)

lemma uniform_zero_field:
  "uniform m d \<Longrightarrow> zero_field n k d = Inr d' \<Longrightarrow> uniform m d'"
proof -
  assume u: "uniform m d" and z: "zero_field n k d = Inr d'"
  then obtain t where t: "look d k = Some t"
    "d' = d\<lparr>dp_tensors := AList.update k (zero_from n t) (dp_tensors d)\<rparr>"
    by (auto simp: zero_field_def dp_get_def split: option.splits)
  have "length (tn_rows t) = m" by (rule uniform_look [OF u t(1)])
  with u t(2) show "uniform m d'" by (force simp: uniform_def dest: in_set_update)
qed

text \<open>What the dummies do to a field: repeat the first row, and zero the mask fields there.\<close>

definition zeroed_keys :: "string list" where
  "zeroed_keys = [''info.valids'', ''fpo.loss_weights'', ''fpo.advantages'', ''info.action_valids'']"

definition with_dummies :: "nat \<Rightarrow> nat \<Rightarrow> string \<Rightarrow> pyfloat tensor \<Rightarrow> pyfloat tensor" where
  "with_dummies m n k t =
     (let u = t\<lparr>tn_rows := tn_rows t @ replicate n (tn_rows t ! 0)\<rparr>
      in if k \<in> set zeroed_keys then zero_from m u else u)"

lemma with_dummies_take:
  "length (tn_rows t) = m \<Longrightarrow> take m (tn_rows (with_dummies m n k t)) = tn_rows t"
  by (simp add: with_dummies_def Let_def zero_from_def)

lemma with_dummies_length [simp]:
  "length (tn_rows (with_dummies m n k t)) = length (tn_rows t) + n"
  by (simp add: with_dummies_def Let_def)

lemma with_dummies_zeroed:
  assumes "length (tn_rows t) = m" and "k \<in> set zeroed_keys" and "tn_rows t ! 0 = [x]"
  shows "tn_rows (with_dummies m n k t) = tn_rows t @ replicate n [Fin 0]"
  using assms by (simp add: with_dummies_def Let_def zero_from_def)

lemma zeroed_distinct: "distinct zeroed_keys"
  by (simp add: zeroed_keys_def)

lemma append_dummies_result:
  assumes u: "uniform m c" and keys: "\<forall>k \<in> set zeroed_keys. look c k \<noteq> None"
  shows "\<exists>c'. append_dummies n c = Inr c' \<and> uniform (m + n) c' \<and>
    (\<forall>k. look c' k = map_option (with_dummies m n k) (look c k))"
proof (cases "n = 0")
  case True
  have "look c k = map_option (with_dummies m 0 k) (look c k)" for k
  proof (cases "look c k")
    case (Some t)
    with uniform_look [OF u] have "length (tn_rows t) = m" by blast
    then show ?thesis by (cases t) (simp add: Some with_dummies_def Let_def zero_from_def)
  qed simp
  with True u show ?thesis by (auto simp: append_dummies_def)
next
  case False
  let ?sel = "dp_select (replicate n 0) c" and ?c1 = "dp_append c (dp_select (replicate n 0) c)"
  have look1: "look ?c1 k = map_option (\<lambda>t. t\<lparr>tn_rows := tn_rows t @ replicate n (tn_rows t ! 0)\<rparr>) (look c k)" for k
    by (cases "look c k") (simp_all add: map_of_dp_append tn_cat0_def map_replicate)
  have u1: "uniform (m + n) ?c1"
    unfolding uniform_def
  proof (intro conjI ballI)
    show "dp_tensors ?c1 \<noteq> []" using u by (simp add: uniform_def dp_append_def)
    fix t assume "t \<in> snd ` set (dp_tensors ?c1)"
    then obtain k t0 where t0: "(k, t0) \<in> set (dp_tensors c)"
      "t = snd (cat_field (dp_tensors ?sel) (k, t0))"
      by (auto simp: dp_append_def)
    have len0: "length (tn_rows t0) = m" using u t0(1) by (force simp: uniform_def)
    obtain t1 where t1: "look c k = Some t1" using t0(1) by (metis map_of_eq_None_iff not_None_eq fst_conv image_eqI)
    have "look ?sel k = Some (tn_select (replicate n 0) t1)" by (simp add: t1)
    then have "t = tn_cat0 t0 (tn_select (replicate n 0) t1)"
      using t0(2) unfolding cat_field_def fst_conv snd_conv by (simp only: option.case snd_conv)
    then show "length (tn_rows t) = m + n" using len0 by simp
  qed
  have start: "dp_len ?c1 - n = m" using uniform_len [OF u1] by simp
  let ?t = "\<lambda>k. the (look ?c1 k)"
  have present: "look ?c1 k = Some (?t k)" if "k \<in> set zeroed_keys" for k
    using keys that look1 by (cases "look c k") auto
  have ks: "''info.valids'' \<in> set zeroed_keys" "''fpo.loss_weights'' \<in> set zeroed_keys"
    "''fpo.advantages'' \<in> set zeroed_keys" "''info.action_valids'' \<in> set zeroed_keys"
    by (simp_all add: zeroed_keys_def)
  obtain c2 where c2: "zero_field m ''info.valids'' ?c1 = Inr c2"
    "look c2 = (look ?c1)(''info.valids'' \<mapsto> zero_from m (?t ''info.valids''))"
    using look_zero_field [OF present [OF ks(1)]] by blast
  have "look c2 ''fpo.loss_weights'' = Some (?t ''fpo.loss_weights'')" using present [OF ks(2)] by (simp add: c2(2))
  from look_zero_field [OF this] obtain c3 where c3: "zero_field m ''fpo.loss_weights'' c2 = Inr c3"
    "look c3 = (look c2)(''fpo.loss_weights'' \<mapsto> zero_from m (?t ''fpo.loss_weights''))" by blast
  have "look c3 ''fpo.advantages'' = Some (?t ''fpo.advantages'')" using present [OF ks(3)] by (simp add: c2(2) c3(2))
  from look_zero_field [OF this] obtain c4 where c4: "zero_field m ''fpo.advantages'' c3 = Inr c4"
    "look c4 = (look c3)(''fpo.advantages'' \<mapsto> zero_from m (?t ''fpo.advantages''))" by blast
  have "look c4 ''info.action_valids'' = Some (?t ''info.action_valids'')" using present [OF ks(4)] by (simp add: c2(2) c3(2) c4(2))
  from look_zero_field [OF this] obtain c5 where c5: "zero_field m ''info.action_valids'' c4 = Inr c5"
    "look c5 = (look c4)(''info.action_valids'' \<mapsto> zero_from m (?t ''info.action_valids''))" by blast
  have res: "append_dummies n c = Inr c5"
    using False by (simp add: append_dummies_def Let_def start c2(1) c3(1) c4(1) c5(1))
  have u5: "uniform (m + n) c5"
    using uniform_zero_field c2(1) c3(1) c4(1) c5(1) u1 by blast
  have look5: "look c5 k = (if k \<in> set zeroed_keys then Some (zero_from m (?t k)) else look ?c1 k)" for k
    by (simp add: c2(2) c3(2) c4(2) c5(2) zeroed_keys_def)
  have "look c5 k = map_option (with_dummies m n k) (look c k)" for k
  proof (cases "look c k")
    case None
    then have "k \<notin> set zeroed_keys" using keys by auto
    then show ?thesis using None by (simp add: look5 look1)
  next
    case (Some t)
    then show ?thesis by (simp add: look5 look1 with_dummies_def Let_def)
  qed
  with res u5 show ?thesis by blast
qed

section \<open>Compaction\<close>

text \<open>
  A logical batch ready for compaction: every field is trajectory shaped, the needed fields
  exist, the valid mask is 0/1 and the loss weights are positive exactly on valid slots.
\<close>

definition weight_ok :: "pyfloat \<Rightarrow> pyfloat \<Rightarrow> bool" where
  "weight_ok v w \<longleftrightarrow> v = Fin 0 \<and> w = Fin 0 \<or> v = Fin 1 \<and> pf_isfinite w \<and> pf_less (Fin 0) w"

definition fpo_ready :: "nat \<Rightarrow> nat \<Rightarrow> 'n data_proto \<Rightarrow> pyfloat tensor \<Rightarrow> pyfloat tensor \<Rightarrow> bool" where
  "fpo_ready b s d v w \<longleftrightarrow>
     (\<forall>t \<in> snd ` set (dp_tensors d). is_trajectory_field b s t \<and> tn_ok t) \<and>
     look d ''action.action'' \<noteq> None \<and> look d ''fpo.advantages'' \<noteq> None \<and>
     look d ''info.action_valids'' \<noteq> None \<and>
     look d ''info.valids'' = Some v \<and> tn_trail v = [s] \<and>
     look d ''fpo.loss_weights'' = Some w \<and> tn_trail w = [s] \<and>
     list_all2 weight_ok (concat (tn_rows v)) (concat (tn_rows w)) \<and>
     Fin 1 \<in> set (concat (tn_rows v))"

definition valid_slots :: "pyfloat tensor \<Rightarrow> nat list" where
  "valid_slots v = true_indices (map pf_bool (concat (tn_rows v)))"

lemma chunks_one: "length r = s \<Longrightarrow> chunks 1 s r = map (\<lambda>x. [x]) r"
  by (rule nth_equalityI) (simp_all add: chunks_nth take_Suc_conv_app_nth hd_drop_conv_nth take_Suc)

lemma flatten_scalar_cells:
  assumes "tn_ok t" and "tn_trail t = [s]"
  shows "tn_rows (flatten_field s t) = map (\<lambda>x. [x]) (concat (tn_rows t))"
proof -
  have "\<forall>r \<in> set (tn_rows t). length r = s" using assms by (simp add: tn_ok_def)
  then have "map (chunks 1 s) (tn_rows t) = map (map (\<lambda>x. [x])) (tn_rows t)"
    by (intro map_cong refl) (rule chunks_one, blast)
  moreover have "tn_rows (flatten_field s t) = concat (map (chunks 1 s) (tn_rows t))"
    by (simp add: flatten_field_def assms(2))
  ultimately show ?thesis by (simp only: map_concat)
qed

lemma flatten_uniform:
  assumes "\<forall>t \<in> snd ` set (dp_tensors d). is_trajectory_field b s t" and "dp_tensors d \<noteq> []"
  shows "uniform (b * s) (map_fields (flatten_tensor b s) g d)"
proof -
  have "length (tn_rows (flatten_tensor b s t)) = b * s" if "is_trajectory_field b s t" for t :: "pyfloat tensor"
  proof -
    have "length (concat (map (chunks k s) (tn_rows t))) = length (map (chunks k s) (tn_rows t)) * s" for k
      by (rule length_concat_uniform) auto
    with that show ?thesis by (simp add: flatten_tensor_def flatten_field_def is_trajectory_field_def)
  qed
  with assms show ?thesis by (auto simp: uniform_def map_fields_def)
qed

lemma true_indices_less: "i \<in> set (true_indices bs) \<Longrightarrow> i < length bs \<and> bs ! i"
  by (auto simp: true_indices_def)

lemma true_indices_nonempty: "True \<in> set bs \<Longrightarrow> true_indices bs \<noteq> []"
  by (auto simp: true_indices_def filter_empty_conv in_set_conv_nth)

lemma pf_sum_ones: "pf_sum (replicate m (Fin 1) @ replicate n (Fin 0)) = Fin (of_nat m)"
proof -
  have ones: "foldl pf_add (Fin q) (replicate k (Fin 1)) = Fin (q + of_nat k)" for q k
    by (induction k arbitrary: q) (simp_all add: algebra_simps)
  have zeros: "foldl pf_add (Fin q) (replicate k (Fin 0)) = Fin q" for q k
    by (induction k arbitrary: q) simp_all
  show ?thesis by (simp add: pf_sum_def ones zeros)
qed

lemma check_mask_ok:
  assumes "list_all2 weight_ok vs ws"
  shows "check_mask (map pf_bool vs) ws = Inr ()"
proof -
  have "\<forall>(v, w) \<in> set (zip (map pf_bool vs) ws). v \<longrightarrow> pf_isfinite w \<and> pf_less (Fin 0) w"
    "\<forall>(v, w) \<in> set (zip (map pf_bool vs) ws). \<not> v \<longrightarrow> \<not> pf_bool w"
    using assms by (auto simp: list_all2_iff zip_map1 weight_ok_def pf_bool_def)
  then show ?thesis by (auto simp: check_mask_def list_ex_iff)
qed

text \<open>
  C28. Compaction before the actor update: for a well-formed logical batch it succeeds (none of
  its closing assertions can fire), the physical batch is divisible by world size times
  micro-batch size with fewer dummies than that product, its first rows are exactly the valid
  slots of every field in order, and the dummies carry zero valid mask and zero loss weight.
\<close>

theorem compaction_correct:
  fixes d :: "'n data_proto"
  assumes ready: "fpo_ready b s d v w" and pos: "0 < world" "0 < micro"
  defines "idx \<equiv> valid_slots v" and "m \<equiv> length (valid_slots v)"
  shows "\<exists>c n. compact_valid_policy_chunks_for_fpo d world micro = Inr c \<and> dp_len c = m + n \<and>
    int (dp_len c) mod (world * micro) = 0 \<and> int n < world * micro \<and>
    (\<forall>k t. look d k = Some t \<longrightarrow>
       (\<exists>u. look c k = Some u \<and> length (tn_rows u) = dp_len c \<and>
            take m (tn_rows u) = map (\<lambda>i. tn_rows (flatten_field s t) ! i) idx)) \<and>
    map_option (concat \<circ> tn_rows) (look c ''info.valids'') =
      Some (replicate m (Fin 1) @ replicate n (Fin 0)) \<and>
    map_option (concat \<circ> tn_rows) (look c ''fpo.loss_weights'') =
      Some (map (\<lambda>i. concat (tn_rows w) ! i) idx @ replicate n (Fin 0))"
proof -
  let ?V = "concat (tn_rows v)" and ?W = "concat (tn_rows w)"
  have r: "\<forall>t \<in> snd ` set (dp_tensors d). is_trajectory_field b s t" "look d ''info.valids'' = Some v"
    "look d ''fpo.loss_weights'' = Some w" "tn_trail v = [s]" "tn_trail w = [s]"
    "list_all2 weight_ok ?V ?W" "Fin 1 \<in> set ?V"
    using ready by (auto simp: fpo_ready_def)
  have traj: "is_trajectory_field b s t \<and> tn_ok t" if "look d k = Some t" for k t
    using ready that by (force simp: fpo_ready_def dest: map_of_SomeD)
  obtain a where a: "look d ''action.action'' = Some a" using ready by (auto simp: fpo_ready_def)
  let ?F = "map_fields (flatten_tensor b s) (flatten_array b s) d"
  have flat: "flatten_trajectories ''action.action'' d = Inr ?F"
    using traj [OF a] by (auto simp: flatten_trajectories_def dp_get_def a is_trajectory_field_def
        Let_def split: list.splits)
  have lookF: "look ?F k = map_option (flatten_field s) (look d k)" for k
    using traj by (cases "look d k") (auto simp: flatten_tensor_def)
  have cells: "tn_rows (flatten_field s v) = map (\<lambda>x. [x]) ?V" "tn_rows (flatten_field s w) = map (\<lambda>x. [x]) ?W"
    using flatten_scalar_cells traj r(2-5) by blast+
  have concat_single: "concat (map (\<lambda>x. [x]) xs) = xs" for xs :: "pyfloat list" by (induction xs) auto
  have lens: "length ?W = length ?V" using r(6) by (auto dest: list_all2_lengthD)
  have idx: "idx = true_indices (map pf_bool ?V)" by (simp add: idx_def valid_slots_def)
  have idx_valid: "i < length ?V \<and> ?V ! i = Fin 1 \<and> pf_less (Fin 0) (?W ! i)" if "i \<in> set idx" for i
  proof -
    have i: "i < length ?V" "pf_bool (?V ! i)" using true_indices_less [of i "map pf_bool ?V"] that by (auto simp: idx)
    with list_all2_nthD [OF r(6), of i] show ?thesis by (auto simp: weight_ok_def pf_bool_def)
  qed
  have nonempty: "idx \<noteq> []" unfolding idx using r(7)
    by (intro true_indices_nonempty) (force simp: pf_bool_def)
  define c0 where "c0 = dp_select idx ?F"
  have "dp_tensors d \<noteq> []" using r(2) by auto
  then have u0: "uniform m c0"
    using uniform_select [OF flatten_uniform [OF r(1)]] by (simp add: m_def idx_def c0_def)
  have len0: "dp_len c0 = m" by (rule uniform_len [OF u0])
  have look0: "look c0 k = map_option (tn_select idx \<circ> flatten_field s) (look d k)" for k
    unfolding c0_def look_select lookF option.map_comp ..
  define n where "n = nat ((- int m) mod (world * micro))"
  have prod: "0 < world * micro" using pos by simp
  have n: "int n < world * micro" "int (m + n) mod (world * micro) = 0"
  proof -
    have e: "int n = (- int m) mod (world * micro)" using prod by (simp add: n_def)
    then show "int n < world * micro" using prod by simp
    have "(int m + int n) mod (world * micro) = (int m + - int m) mod (world * micro)"
      unfolding e by (simp only: mod_add_right_eq)
    then show "int (m + n) mod (world * micro) = 0" by simp
  qed
  have keys: "\<forall>k \<in> set zeroed_keys. look c0 k \<noteq> None"
    unfolding look0 using ready by (auto simp: zeroed_keys_def fpo_ready_def)
  obtain c1 where c1: "append_dummies n c0 = Inr c1" "uniform (m + n) c1"
    "\<forall>k. look c1 k = map_option (with_dummies m n k) (look c0 k)"
    using append_dummies_result [OF u0 keys, of n] by blast
  have len1: "dp_len c1 = m + n" by (rule uniform_len [OF c1(2)])
  have zeroed: "look c1 k = Some u \<Longrightarrow> concat (tn_rows u) = map (\<lambda>i. X ! i) idx @ replicate n (Fin 0)"
    if "look d k = Some t" "tn_rows (flatten_field s t) = map (\<lambda>x. [x]) X" "length X = length ?V"
      "k \<in> set zeroed_keys" for k t X u
  proof -
    assume u: "look c1 k = Some u"
    let ?t = "tn_select idx (flatten_field s t)"
    have rows: "tn_rows ?t = map (\<lambda>i. [X ! i]) idx"
      using that(2,3) idx_valid by auto
    then have "tn_rows ?t ! 0 = [X ! (idx ! 0)]" "length (tn_rows ?t) = m"
      using nonempty by (simp_all add: m_def idx_def)
    then have "tn_rows (with_dummies m n k ?t) = tn_rows ?t @ replicate n [Fin 0]"
      using that(4) by (intro with_dummies_zeroed)
    then have "tn_rows (with_dummies m n k ?t) = map (\<lambda>i. [X ! i]) idx @ replicate n [Fin 0]"
      unfolding rows .
    moreover have "u = with_dummies m n k ?t" using u c1(3) look0 that(1) by simp
    moreover have "concat (map (\<lambda>i. [X ! i]) is) = map (\<lambda>i. X ! i) is" for "is" by (induction "is") auto
    moreover have "concat (replicate n [Fin 0]) = replicate n (Fin 0)" by (induction n) auto
    ultimately show "concat (tn_rows u) = map (\<lambda>i. X ! i) idx @ replicate n (Fin 0)"
      by simp
  qed
  obtain v1 where v1: "look c1 ''info.valids'' = Some v1" using c1(3) look0 r(2) by simp
  obtain w1 where w1: "look c1 ''fpo.loss_weights'' = Some w1" using c1(3) look0 r(3) by simp
  have "concat (tn_rows v1) = map (\<lambda>i. ?V ! i) idx @ replicate n (Fin 0)"
    by (rule zeroed [OF r(2) cells(1) _ _ v1]) (simp_all add: zeroed_keys_def)
  also have "map (\<lambda>i. ?V ! i) idx = replicate m (Fin 1)"
    using idx_valid by (simp add: m_def idx_def map_replicate_const [symmetric])
  finally have vcells: "concat (tn_rows v1) = replicate m (Fin 1) @ replicate n (Fin 0)" .
  have wcells: "concat (tn_rows w1) = map (\<lambda>i. ?W ! i) idx @ replicate n (Fin 0)"
    by (rule zeroed [OF r(3) cells(2) lens _ w1]) (simp add: zeroed_keys_def)
  have check: "check_compacted (world * micro) m c1 = Inr ()"
  proof -
    have pos_mask: "map (pf_less (Fin 0)) (concat (tn_rows w1)) = map pf_bool (concat (tn_rows v1))"
    proof -
      have "map (pf_less (Fin 0)) (map (\<lambda>i. ?W ! i) idx) = replicate m True"
        using idx_valid by (simp add: m_def idx_def map_replicate_const [symmetric])
      then show ?thesis by (simp add: vcells wcells pf_bool_def map_replicate)
    qed
    have "pf_sum (concat (tn_rows v1)) = Fin (of_nat m)" unfolding vcells by (rule pf_sum_ones)
    then have "pf_int (pf_sum (concat (tn_rows v1))) = Inr (int m)" by (simp add: rat_trunc_def)
    then show ?thesis
      using n(2) pos_mask by (simp add: check_compacted_def len1 dp_get_def v1 w1)
  qed
  let ?c = "c1\<lparr>dp_meta := compaction_meta (dp_len ?F) m n (dp_len c1) (dp_meta c1)\<rparr>"
  have shapes: "length (tn_shape v) = 2" "tn_shape w = tn_shape v"
    using r(4,5) traj r(2,3) by (auto simp: tn_shape_def is_trajectory_field_def)
  have mask: "check_mask (map pf_bool ?V) ?W = Inr ()" by (rule check_mask_ok [OF r(6)])
  have vF: "dp_get ''info.valids'' ?F = Inr (flatten_field s v)"
    "dp_get ''fpo.loss_weights'' ?F = Inr (flatten_field s w)"
    unfolding dp_get_look lookF r(2,3) by simp_all
  have vd: "dp_get ''info.valids'' d = Inr v" "dp_get ''fpo.loss_weights'' d = Inr w"
    unfolding dp_get_look r(2,3) by simp_all
  have result: "compact_valid_policy_chunks_for_fpo d world micro = Inr ?c"
    using pos shapes mask nonempty check c1(1) len0
    by (simp add: compact_valid_policy_chunks_for_fpo_def flat vF vd cells concat_single
        idx [symmetric] c0_def [symmetric] Let_def n_def)
  have same: "look ?c = look c1" "dp_len ?c = dp_len c1" by simp_all
  have "\<exists>u. look ?c k = Some u \<and> length (tn_rows u) = dp_len ?c \<and>
      take m (tn_rows u) = map (\<lambda>i. tn_rows (flatten_field s t) ! i) idx" if "look d k = Some t" for k t
  proof -
    let ?t = "tn_select idx (flatten_field s t)"
    have "length (tn_rows ?t) = m" by (simp add: m_def idx_def)
    moreover have "look ?c k = Some (with_dummies m n k ?t)" using c1(3) look0 that same by simp
    ultimately show ?thesis using with_dummies_take [of ?t m n k] same len1 by simp
  qed
  then show ?thesis
    using result n len1 same vcells wcells v1 w1 by auto
qed

text \<open>A sample logical batch of two trajectories with three slots, four of them valid.\<close>

definition sample_valids :: "pyfloat tensor" where
  "sample_valids = \<lparr>tn_trail = [3], tn_rows = [[Fin 1, Fin 1, Fin 0], [Fin 1, Fin 1, Fin 0]]\<rparr>"

definition sample_weights :: "pyfloat tensor" where
  "sample_weights = \<lparr>tn_trail = [3],
     tn_rows = [[Fin (1 / 2), Fin (1 / 2), Fin 0], [Fin 1, Fin 2, Fin 0]]\<rparr>"

definition sample_fpo :: "int data_proto" where
  "sample_fpo =
     \<lparr>dp_tensors =
        [(''action.action'', \<lparr>tn_trail = [3, 2],
            tn_rows = [map (\<lambda>i. Fin (of_nat i)) [0..<6], map (\<lambda>i. Fin (of_nat i)) [6..<12]]\<rparr>),
         (''info.valids'', sample_valids), (''fpo.loss_weights'', sample_weights),
         (''fpo.advantages'', sample_weights), (''info.action_valids'', sample_valids)],
      dp_arrays = [], dp_meta = []\<rparr>"

lemma sample_fpo_ready: "fpo_ready 2 3 sample_fpo sample_valids sample_weights"
proof -
  have "list_all (\<lambda>t. is_trajectory_field 2 3 t \<and> list_all (\<lambda>r. length r = prod_list (tn_trail t)) (tn_rows t))
      (map snd (dp_tensors sample_fpo))" by code_simp
  then have "\<forall>t \<in> snd ` set (dp_tensors sample_fpo). is_trajectory_field 2 3 t \<and> tn_ok t"
    by (simp add: list_all_iff tn_ok_def)
  moreover have "look sample_fpo ''action.action'' \<noteq> None \<and> look sample_fpo ''fpo.advantages'' \<noteq> None \<and>
     look sample_fpo ''info.action_valids'' \<noteq> None \<and>
     look sample_fpo ''info.valids'' = Some sample_valids \<and> tn_trail sample_valids = [3] \<and>
     look sample_fpo ''fpo.loss_weights'' = Some sample_weights \<and> tn_trail sample_weights = [3] \<and>
     list_all2 weight_ok (concat (tn_rows sample_valids)) (concat (tn_rows sample_weights)) \<and>
     Fin 1 \<in> set (concat (tn_rows sample_valids))"
    by (simp add: sample_fpo_def sample_valids_def sample_weights_def weight_ok_def)
  ultimately show ?thesis by (simp add: fpo_ready_def)
qed

theorem compaction_correct_witness:
  "\<exists>c n. compact_valid_policy_chunks_for_fpo sample_fpo 2 3 = Inr c \<and>
     dp_len c = length (valid_slots sample_valids) + n \<and> int (dp_len c) mod (2 * 3) = 0"
proof -
  have "(0 :: int) < 2" "(0 :: int) < 3" by simp_all
  from compaction_correct [OF sample_fpo_ready this] show ?thesis
    by (elim exE conjE) (intro exI conjI)
qed

section \<open>Concatenation with padding\<close>

lemma traverse_fields_lookup:
  assumes "traverse (\<lambda>(k, t). bind_res (f k t) (\<lambda>u. Inr (k, u))) xs = Inr ys"
  shows "(\<forall>k t. map_of xs k = Some t \<longrightarrow> (\<exists>u. f k t = Inr u \<and> map_of ys k = Some u)) \<and> map fst ys = map fst xs"
  using assms
proof (induction xs arbitrary: ys)
  case (Cons x xs)
  then show ?case by (cases x) (auto simp: res_simps)
qed simp

lemma recover_lookup:
  assumes "recover_fields keys rf ef = Inr fs"
  shows "map_of fs k = (case map_of ef k of
      Some t \<Rightarrow> Some t
    | None \<Rightarrow> if k \<in> set keys then map_option (\<lambda>t. projr (tn_last t)) (map_of rf (OBS_PREFIX @ k)) else None)"
proof -
  let ?g = "\<lambda>k. case map_of rf (OBS_PREFIX @ k) of
       None \<Rightarrow> Inl ValueError | Some t \<Rightarrow> bind_res (tn_last t) (\<lambda>u. Inr (k, u))"
  obtain extra where extra: "traverse ?g (filter (\<lambda>k. k \<notin> set (map fst ef)) keys) = Inr extra" "fs = ef @ extra"
    using assms by (auto simp: recover_fields_def res_simps)
  have gen: "map_of extra k = (if k \<in> set ks then map_option (\<lambda>t. projr (tn_last t)) (map_of rf (OBS_PREFIX @ k)) else None)"
    if "traverse ?g ks = Inr extra" for ks extra
    using that
  proof (induction ks arbitrary: extra)
    case (Cons a ks)
    from Cons.prems obtain y ys where ys: "?g a = Inr y" "traverse ?g ks = Inr ys" "extra = y # ys"
      by (auto simp: res_simps)
    obtain t where t: "map_of rf (OBS_PREFIX @ a) = Some t" "y = (a, projr (tn_last t))"
      using ys(1) by (auto simp: res_simps split: option.splits)
    show ?case using Cons.IH [OF ys(2)] t by (auto simp: ys(3))
  qed simp
  show ?thesis
  proof (cases "map_of ef k")
    case None
    then have "k \<notin> set (map fst ef)" by (simp add: map_of_eq_None_iff)
    then show ?thesis using gen [OF extra(1)] None by (simp add: extra(2) map_add_def split: option.split)
  next
    case (Some t)
    then have "k \<in> set (map fst ef)" by (metis map_of_eq_None_iff not_None_eq set_map)
    then have "map_of extra k = None" using gen [OF extra(1)] by simp
    then show ?thesis using Some by (simp add: extra(2) map_add_def)
  qed
qed

lemma look_concat:
  assumes "look d k = Some t" and "\<forall>d' \<in> set ds. look d' k \<noteq> None"
  shows "\<exists>u. look (dp_concat d ds) k = Some u \<and> tn_trail u = tn_trail t \<and>
    tn_rows u = tn_rows t @ concat (map (\<lambda>d'. tn_rows (the (look d' k))) ds)"
  using assms
proof (induction ds arbitrary: d t)
  case (Cons e ds)
  obtain u where u: "look e k = Some u" using Cons.prems(2) by auto
  have "look (dp_append d e) k = Some (tn_cat0 t u)" using Cons.prems(1) u by (simp add: map_of_dp_append)
  from Cons.IH [OF this] Cons.prems(2) show ?case by (auto simp: u)
qed auto

text \<open>The padded rows of one group: zeros, or copies of the trajectory's terminal observation.\<close>

definition terminal_field :: "'n data_proto \<Rightarrow> string \<Rightarrow> pyfloat tensor \<Rightarrow> pyfloat tensor" where
  "terminal_field e f t =
     (case look e f of Some te \<Rightarrow> te | None \<Rightarrow> projr (tn_last t))"

definition padded_rows :: "nat \<Rightarrow> string \<Rightarrow> 'n data_proto \<Rightarrow> 'n data_proto \<Rightarrow> pyfloat list list" where
  "padded_rows max_steps k r e =
     (let t = the (look r k); pad = max_steps - hd (tn_trail t) in
      if pad = 0 then tn_rows t
      else case strip_prefix OBS_PREFIX k of
        None \<Rightarrow> map (\<lambda>row. row @ replicate (pad * prod_list (tl (tn_trail t))) (Fin 0)) (tn_rows t)
      | Some f \<Rightarrow> map2 (\<lambda>row last. row @ concat (replicate pad last)) (tn_rows t) (tn_rows (terminal_field e f t)))"

lemma map2_replicate_right: "map2 f xs (replicate (length xs) y) = map (\<lambda>x. f x y) xs"
  by (induction xs) auto

lemma pad_tensor_rows:
  assumes e': "map_of (dp_tensors e') f = (case map_of (dp_tensors e) f of
      Some t \<Rightarrow> Some t
    | None \<Rightarrow> if f \<in> K then map_option (\<lambda>t. projr (tn_last t)) (look r (OBS_PREFIX @ f)) else None)"
    and f: "strip_prefix OBS_PREFIX k = Some f" and t: "look r k = Some t"
    and pad: "pad_tensor b s (S - s) (dp_tensors e') k t = Inr u" and s: "S \<noteq> s" "s \<le> S"
  shows "tn_rows u = padded_rows S k r e"
proof -
  have k: "k = OBS_PREFIX @ f" using f by (simp add: strip_prefix_iff)
  have shape: "take 2 (tn_shape t) = [b, s]" using pad by (auto simp: pad_tensor_def split: if_splits)
  then have trail: "hd (tn_trail t) = s" by (cases "tn_trail t") (auto simp: tn_shape_def)
  have pos: "S - s \<noteq> 0" using s by simp
  from pad shape pos f have pw: "pad_with_terminal b (S - s) (map_of (dp_tensors e') f) t = Inr u"
    by (simp add: pad_tensor_def)
  have tm: "(case map_of (dp_tensors e') f of Some t \<Rightarrow> Inr t | None \<Rightarrow> tn_last t) = Inr (terminal_field e f t)"
    using pw e' t by (auto simp: terminal_field_def pad_with_terminal_def res_simps k split: option.splits if_splits)
  from pw have "u = tn_cat1 t (tn_repeat1 (S - s) (terminal_field e f t))"
    unfolding pad_with_terminal_def tm by (auto split: if_splits)
  then show ?thesis
    using pos by (auto simp: padded_rows_def t f trail Let_def tn_cat1_def tn_repeat1_def zip_map2)
qed

text \<open>
  Concatenating rollout groups with different numbers of policy calls keeps every
  trajectory: the rows of each field of the result are, group after group, the original rows
  followed by padding up to the longest group, which repeats the trajectory's terminal
  observation for observation fields and is zero for all others.
\<close>

theorem concatenation_pads_exactly:
  assumes result: "concatenate_rollout_groups_with_padding rs es = Inr (R, E)"
    and field: "look (hd rs) k \<noteq> None"
  shows "\<exists>S t. traverse steps_of rs = Inr S \<and> look R k = Some t \<and>
    tn_rows t = concat (map (\<lambda>(r, e). padded_rows (Max (set S)) k r e) (zip rs es))"
proof -
  obtain ends S padded where rs: "rs \<noteq> []" "length rs = length es"
    and ends: "traverse (normalize_end (all_keys (map dp_tensors es)) (all_keys (map dp_arrays es))) (zip rs es) = Inr ends"
    and S: "traverse steps_of rs = Inr S"
    and padded: "traverse (pad_rollout (map fst (dp_tensors (hd rs))) (map fst (dp_arrays (hd rs))) (Max (set S)))
        (zip rs ends) = Inr padded"
    and R: "concat_batches padded = Inr R"
    using result by (auto simp: concatenate_rollout_groups_with_padding_def res_simps split: if_splits)
  let ?K = "set (all_keys (map dp_tensors es))" and ?M = "Max (set S)"
  have n: "length ends = length rs" "length padded = length rs" "length S = length rs"
    using traverse_length [OF ends] traverse_length [OF padded] traverse_length [OF S] rs by auto
  have end_at: "normalize_end (all_keys (map dp_tensors es)) (all_keys (map dp_arrays es)) (rs ! i, es ! i) =
      Inr (ends ! i)" if "i < length rs" for i
    using ends that rs n unfolding traverse_Inr_list_all2 by (auto simp: list_all2_conv_all_nth)
  have pad_at: "pad_rollout (map fst (dp_tensors (hd rs))) (map fst (dp_arrays (hd rs))) ?M (rs ! i, ends ! i) =
      Inr (padded ! i)" if "i < length rs" for i
    using padded that rs n unfolding traverse_Inr_list_all2 by (auto simp: list_all2_conv_all_nth)
  have step_at: "steps_of (rs ! i) = Inr (S ! i) \<and> S ! i \<le> ?M" if "i < length rs" for i
    using S that n unfolding traverse_Inr_list_all2 by (auto simp: list_all2_conv_all_nth)
  have each: "\<exists>u. look (padded ! i) k = Some u \<and> tn_rows u = padded_rows ?M k (rs ! i) (es ! i)"
    if i: "i < length rs" for i
  proof -
    let ?r = "rs ! i" and ?s = "S ! i" and ?b = "dp_len (rs ! i)"
    have keys: "set (map fst (dp_tensors ?r)) = set (map fst (dp_tensors (hd rs)))"
      and pf: "pad_fields (pad_tensor ?b ?s (?M - ?s) (dp_tensors (ends ! i))) (dp_tensors ?r) = Inr (dp_tensors (padded ! i))"
      using pad_at [OF i] step_at [OF i]
      by (auto simp: pad_rollout_def res_simps Let_def split: if_splits dest!: sym [of _ "padded ! i"])
    obtain t where t: "look ?r k = Some t"
      using field keys by (metis map_of_eq_None_iff not_None_eq set_map)
    obtain u where u: "pad_tensor ?b ?s (?M - ?s) (dp_tensors (ends ! i)) k t = Inr u" "look (padded ! i) k = Some u"
      using traverse_fields_lookup [OF pf [unfolded pad_fields_def]] t by blast
    have recover: "recover_fields (all_keys (map dp_tensors es)) (dp_tensors ?r) (dp_tensors (es ! i)) =
        Inr (dp_tensors (ends ! i))"
      using end_at [OF i] by (auto simp: normalize_end_def res_simps dest!: sym [of _ "ends ! i"])
    have shape: "take 2 (tn_shape t) = [?b, ?s]" using u(1) by (auto simp: pad_tensor_def split: if_splits)
    then have trail: "hd (tn_trail t) = ?s" and rows: "length (tn_rows t) = ?b"
      by (cases "tn_trail t"; simp add: tn_shape_def)+
    have "tn_rows u = padded_rows ?M k ?r (es ! i)"
    proof (cases "strip_prefix OBS_PREFIX k")
      case None
      have zero: "tn_rows (tn_cat1 t (tn_zeros (Fin 0) ?b ((?M - ?s) # tl (tn_trail t)))) =
          map (\<lambda>row. row @ replicate ((?M - ?s) * prod_list (tl (tn_trail t))) (Fin 0)) (tn_rows t)"
        by (simp add: tn_cat1_def tn_zeros_def rows [symmetric] map2_replicate_right)
      show ?thesis
        using u(1) shape None zero
        by (auto simp: pad_tensor_def padded_rows_def t trail Let_def split: if_splits)
    next
      case (Some f)
      show ?thesis
      proof (cases "?M = ?s")
        case True
        then have "u = t" using u(1) by (simp add: pad_tensor_def split: if_splits)
        then show ?thesis
          using True Some by (simp add: padded_rows_def t trail Let_def)
      next
        case False
        show ?thesis
          by (rule pad_tensor_rows [OF recover_lookup [OF recover] Some t u(1) False])
             (use step_at [OF i] in simp)
      qed
    qed
    with u(2) show ?thesis by blast
  qed
  obtain p ps where ps: "padded = p # ps" using n rs(1) by (cases padded) auto
  have "look p k \<noteq> None" using each [of 0] rs(1) by (auto simp: ps)
  moreover have others: "\<forall>d' \<in> set ps. look d' k \<noteq> None"
  proof
    fix d' assume "d' \<in> set ps"
    then obtain j where "j < length ps" "ps ! j = d'" by (auto simp: in_set_conv_nth)
    then show "look d' k \<noteq> None" using each [of "Suc j"] n by (auto simp: ps)
  qed
  ultimately obtain t where t: "look R k = Some t"
    "tn_rows t = tn_rows (the (look p k)) @ concat (map (\<lambda>d'. tn_rows (the (look d' k))) ps)"
    using look_concat [of p k _ ps] R by (auto simp: concat_batches_def ps)
  have "map (\<lambda>d'. tn_rows (the (look d' k))) padded = map (\<lambda>(r, e). padded_rows ?M k r e) (zip rs es)"
  proof (rule nth_equalityI)
    show "length (map (\<lambda>d'. tn_rows (the (look d' k))) padded) = length (map (\<lambda>(r, e). padded_rows ?M k r e) (zip rs es))"
      using n rs by simp
    fix i assume "i < length (map (\<lambda>d'. tn_rows (the (look d' k))) padded)"
    then show "map (\<lambda>d'. tn_rows (the (look d' k))) padded ! i = map (\<lambda>(r, e). padded_rows ?M k r e) (zip rs es) ! i"
      using each [of i] n rs by auto
  qed
  moreover have "tn_rows t = concat (map (\<lambda>d'. tn_rows (the (look d' k))) padded)"
    using t(2) by (simp add: ps)
  ultimately have "tn_rows t = concat (map (\<lambda>(r, e). padded_rows ?M k r e) (zip rs es))"
    by (simp only:)
  with S t(1) show ?thesis by blast
qed

text \<open>Two groups of one trajectory each, with two and one policy calls.\<close>

definition group_of :: "pyfloat list \<Rightarrow> int data_proto" where
  "group_of xs =
     \<lparr>dp_tensors = [(''action.action'', \<lparr>tn_trail = [length xs], tn_rows = [xs]\<rparr>),
                    (''obs.state'', \<lparr>tn_trail = [length xs], tn_rows = [xs]\<rparr>)],
      dp_arrays = [], dp_meta = []\<rparr>"

definition end_of :: "pyfloat \<Rightarrow> int data_proto" where
  "end_of x = \<lparr>dp_tensors = [(''state'', \<lparr>tn_trail = [], tn_rows = [[x]]\<rparr>)], dp_arrays = [], dp_meta = []\<rparr>"

definition padded_pair :: "int data_proto \<times> int data_proto" where
  "padded_pair = projr (concatenate_rollout_groups_with_padding
     [group_of [Fin 1, Fin 2], group_of [Fin 3]] [end_of (Fin 8), end_of (Fin 9)])"

lemma padded_pair_result:
  "concatenate_rollout_groups_with_padding [group_of [Fin 1, Fin 2], group_of [Fin 3]]
     [end_of (Fin 8), end_of (Fin 9)] = Inr (fst padded_pair, snd padded_pair)"
proof -
  have "\<not> isl (concatenate_rollout_groups_with_padding [group_of [Fin 1, Fin 2], group_of [Fin 3]]
     [end_of (Fin 8), end_of (Fin 9)])"
    by code_simp
  then show ?thesis unfolding padded_pair_def by (simp add: sum.collapse(2))
qed

theorem concatenation_pads_exactly_witness:
  "\<exists>t. look (fst padded_pair) ''obs.state'' = Some t \<and> tn_rows t = [[Fin 1, Fin 2], [Fin 3, Fin 9]]"
proof -
  have "look (hd [group_of [Fin 1, Fin 2], group_of [Fin 3]]) ''obs.state'' \<noteq> None"
    by (simp add: group_of_def)
  from concatenation_pads_exactly [OF padded_pair_result this] obtain S t where
    S: "traverse steps_of [group_of [Fin 1, Fin 2], group_of [Fin 3]] = Inr S"
    and t: "look (fst padded_pair) ''obs.state'' = Some t"
      "tn_rows t = concat (map (\<lambda>(r, e). padded_rows (Max (set S)) ''obs.state'' r e)
         (zip [group_of [Fin 1, Fin 2], group_of [Fin 3]] [end_of (Fin 8), end_of (Fin 9)]))"
    by blast
  have "S = [2, 1]" using S by (auto simp: steps_of_def dp_get_def group_of_def numeral_2_eq_2)
  then have "Max (set S) = 2" by simp
  moreover have "concat (map (\<lambda>(r, e). padded_rows 2 ''obs.state'' r e)
         (zip [group_of [Fin 1, Fin 2], group_of [Fin 3]] [end_of (Fin 8), end_of (Fin 9)])) =
      [[Fin 1, Fin 2], [Fin 3, Fin 9]]"
    by code_simp
  ultimately show ?thesis using t by auto
qed

end
