(* ===== verification/Trajectories.thy ===== *)
theory Trajectories
  imports Tensors
begin

text \<open>
  Trajectory bookkeeping: the transition masks, progress counting and transition fields of
  utils/data.py, and the per-lane episode buffer of trainer/sac/episode_buffer.py.
\<close>

section \<open>Reducing substep axes\<close>

definition reduce_last :: "('a list \<Rightarrow> 'a) \<Rightarrow> 'a tensor \<Rightarrow> 'a tensor" where
  "reduce_last f t =
     (let k = last (tn_trail t); n = prod_list (butlast (tn_trail t)) in
      \<lparr>tn_trail = butlast (tn_trail t), tn_rows = map (\<lambda>r. map f (chunks k n r)) (tn_rows t)\<rparr>)"

definition pf_any :: "pyfloat list \<Rightarrow> pyfloat" where
  "pf_any xs = (if list_ex pf_bool xs then Fin 1 else Fin 0)"

function reduce_substep_dims :: "string \<Rightarrow> pyfloat tensor \<Rightarrow> pyfloat tensor result" where
  "reduce_substep_dims reduction t =
     (if length (tn_shape t) \<le> 2 then Inr t
      else if reduction = ''any'' then reduce_substep_dims reduction (reduce_last pf_any t)
      else if reduction = ''sum'' then reduce_substep_dims reduction (reduce_last pf_sum t)
      else Inl ValueError)"
  by pat_completeness auto

termination reduce_substep_dims
  by (relation "measure (\<lambda>(_, t). length (tn_trail t))")
     (auto simp: reduce_last_def Let_def tn_shape_def)

declare reduce_substep_dims.simps [simp del]

definition bool_rows :: "pyfloat tensor \<Rightarrow> bool list list" where
  "bool_rows t = map (map pf_bool) (tn_rows t)"

section \<open>Transition masks\<close>

definition set_range :: "nat \<Rightarrow> nat \<Rightarrow> bool list \<Rightarrow> bool list" where
  "set_range a b xs = map (\<lambda>i. if a \<le> i \<and> i < b then True else xs ! i) [0..<length xs]"

text \<open>The loop over the done indices of one batch row, with \<open>start_idx\<close> as its state.\<close>

fun mask_loop :: "bool list \<Rightarrow> nat list \<Rightarrow> nat \<Rightarrow> bool list \<Rightarrow> bool list \<Rightarrow> bool list \<times> bool list" where
  "mask_loop success [] start valid_mask success_mask = (valid_mask, success_mask)"
| "mask_loop success (d # ds) start valid_mask success_mask =
     (if d < start then mask_loop success ds start valid_mask success_mask
      else mask_loop success ds (d + 1) (set_range start (d + 1) valid_mask)
             (if list_ex (\<lambda>i. success ! i) [start..<d + 1]
              then set_range start (d + 1) success_mask else success_mask))"

definition done_indices :: "bool list \<Rightarrow> nat list" where
  "done_indices row = filter (\<lambda>i. row ! i) [0..<length row]"

definition build_sac_transition_masks ::
  "bool list list \<Rightarrow> bool list list \<Rightarrow> bool list list \<times> bool list list" where
  "build_sac_transition_masks done_steps success_steps =
     (let rows = map2 (\<lambda>d s. mask_loop s (done_indices d) 0 (replicate (length d) False)
                                (replicate (length d) False)) done_steps success_steps
      in (map fst rows, map snd rows))"

section \<open>Progress counts\<close>

record progress =
  done_eps :: nat
  succ_eps :: nat

record lane_state =
  ls_done :: "bool list"
  ls_success :: "bool list"

record chunk_state =
  ck_prev :: "bool list"
  ck_success :: "bool list"
  ck_completed :: "bool list"
  ck_counts :: progress

definition count_true :: "bool list \<Rightarrow> nat" where
  "count_true bs = length (filter id bs)"

definition progress_step :: "bool list \<times> bool list \<Rightarrow> chunk_state \<Rightarrow> chunk_state" where
  "progress_step = (\<lambda>(step_done, step_success) c.
     let active = map2 (\<lambda>p m. \<not> p \<and> \<not> m) (ck_prev c) (ck_completed c);
         carried = map2 (\<lambda>a (s, x). if a then s \<or> x else s) active (zip (ck_success c) step_success);
         newly = map2 (\<and>) active step_done;
         counts = \<lparr>done_eps = done_eps (ck_counts c) + count_true newly,
                   succ_eps = succ_eps (ck_counts c) + count_true (map2 (\<and>) newly carried)\<rparr>;
         prev = map2 (\<or>) (ck_prev c) newly;
         completed = map2 (\<or>) (ck_completed c) newly;
         carried1 = map2 (\<lambda>n s. if n then False else s) newly carried;
         resumed = map2 (\<lambda>p d. p \<and> \<not> d) prev step_done
     in \<lparr>ck_prev = map2 (\<lambda>r p. if r then False else p) resumed prev,
         ck_success = map2 (\<lambda>r s. if r then False else s) resumed carried1,
         ck_completed = completed, ck_counts = counts\<rparr>)"

text \<open>
  \<open>dones\<close> and \<open>successes\<close> list the columns of a chunk, one list over the lanes per step; the
  lane state of a stage is created on first use.
\<close>

definition update_progress_trajectory_counts ::
  "nat \<Rightarrow> bool list list \<Rightarrow> bool list list \<Rightarrow> int \<Rightarrow> progress \<Rightarrow> (int \<times> lane_state) list \<Rightarrow>
   progress \<times> (int \<times> lane_state) list" where
  "update_progress_trajectory_counts batch_size dones successes stage_id counts lanes =
     (let fresh = \<lparr>ls_done = replicate batch_size False, ls_success = replicate batch_size False\<rparr>;
          st = (case map_of lanes stage_id of None \<Rightarrow> fresh | Some s \<Rightarrow> s);
          c = foldl (\<lambda>c x. progress_step x c)
                \<lparr>ck_prev = ls_done st, ck_success = ls_success st,
                 ck_completed = replicate (length (ls_done st)) False, ck_counts = counts\<rparr>
                (zip dones successes)
      in (ck_counts c,
          AList.update stage_id \<lparr>ls_done = ck_prev c, ls_success = ck_success c\<rparr> lanes))"

section \<open>Transition fields\<close>

text \<open>\<open>next_steps\<close> and \<open>replace_boundary_steps\<close> on one trajectory row, cut into its step blocks.\<close>

definition next_steps :: "'a list list \<Rightarrow> 'a list list" where
  "next_steps blocks = (case blocks of [] \<Rightarrow> [] | _ # rest \<Rightarrow> rest @ [last blocks])"

definition replace_boundary_steps :: "bool list option \<Rightarrow> 'a list list \<Rightarrow> 'a list list \<Rightarrow> 'a list list" where
  "replace_boundary_steps boundary next_value current_value =
     (case boundary of None \<Rightarrow> next_value
      | Some m \<Rightarrow> map2 (\<lambda>b (n, c). if b then c else n) m (zip next_value current_value))"

definition step_blocks :: "'a tensor \<Rightarrow> 'a list \<Rightarrow> 'a list list" where
  "step_blocks t r = chunks (prod_list (tl (tn_trail t))) (hd (tn_trail t)) r"

definition next_field :: "bool list list option \<Rightarrow> bool \<Rightarrow> 'a tensor \<Rightarrow> 'a tensor" where
  "next_field boundary is_obs t =
     (let mask_row = (\<lambda>i. map_option (\<lambda>m. m ! i) boundary) in
      t\<lparr>tn_rows := map (\<lambda>i. let bs = step_blocks t (tn_rows t ! i); n = next_steps bs
                           in concat (if is_obs then replace_boundary_steps (mask_row i) n bs else n))
          [0..<length (tn_rows t)]\<rparr>)"

definition has_prefix :: "string \<Rightarrow> string \<Rightarrow> bool" where
  "has_prefix p k \<longleftrightarrow> strip_prefix p k \<noteq> None"

definition prefixed_fields ::
  "bool list list option \<Rightarrow> (string \<times> 'a tensor) list \<Rightarrow> (string \<times> 'a tensor) list" where
  "prefixed_fields boundary fs =
     foldl (\<lambda>acc (k, t).
         AList.delete k (AList.update (''t1.'' @ k) (next_field boundary (has_prefix ''obs.'' k) t)
           (AList.update (''t0.'' @ k) t acc)))
       fs (filter (\<lambda>(k, _). has_prefix ''obs.'' k \<or> has_prefix ''action.'' k) fs)"

definition add_transition_prefixes :: "bool list list option \<Rightarrow> 'n data_proto \<Rightarrow> 'n data_proto" where
  "add_transition_prefixes boundary d =
     d\<lparr>dp_tensors := prefixed_fields boundary (dp_tensors d),
       dp_arrays := prefixed_fields boundary (dp_arrays d)\<rparr>"

definition slice_dataproto_batch :: "nat \<Rightarrow> nat \<Rightarrow> 'n data_proto \<Rightarrow> 'n data_proto" where
  "slice_dataproto_batch a b d =
     \<lparr>dp_tensors = map (\<lambda>(k, t). (k, \<lparr>tn_trail = (min b (hd (tn_trail t)) - a) # tl (tn_trail t),
          tn_rows = map (\<lambda>r. concat (take (b - a) (drop a (step_blocks t r)))) (tn_rows t)\<rparr>)) (dp_tensors d),
      dp_arrays = [], dp_meta = dp_meta d\<rparr>"

section \<open>The episode buffer\<close>

record 'd episode_buffer =
  eb_auto_reset :: bool
  eb_lanes :: "'d list list option"

definition new_episode_buffer :: "bool \<Rightarrow> 'd episode_buffer" where
  "new_episode_buffer auto_reset = \<lparr>eb_auto_reset = auto_reset, eb_lanes = None\<rparr>"

definition step_slice :: "nat \<Rightarrow> nat \<Rightarrow> 'a tensor \<Rightarrow> 'a tensor" where
  "step_slice lane step t =
     \<lparr>tn_trail = 1 # tl (tn_trail t), tn_rows = [step_blocks t (tn_rows t ! lane) ! step]\<rparr>"

definition select_step :: "'n data_proto \<Rightarrow> nat \<Rightarrow> nat \<Rightarrow> 'n data_proto" where
  "select_step d lane step = (map_fields (step_slice lane step) (step_slice lane step) d)\<lparr>dp_meta := []\<rparr>"

definition cat_steps_field ::
  "(string \<times> 'a tensor) list list \<Rightarrow> string \<times> 'a tensor \<Rightarrow> (string \<times> 'a tensor) result" where
  "cat_steps_field others = (\<lambda>(k, t).
     bind_res
       (traverse (\<lambda>fs. case map_of fs k of None \<Rightarrow> Inl KeyError | Some u \<Rightarrow> Inr u) others)
       (\<lambda>us. Inr (k, foldl tn_cat1 t us)))"

definition concat_steps :: "'n data_proto list \<Rightarrow> 'n data_proto result" where
  "concat_steps steps =
     (case steps of [] \<Rightarrow> Inl IndexError
      | d # ds \<Rightarrow>
          bind_res (traverse (cat_steps_field (map dp_tensors ds)) (dp_tensors d)) (\<lambda>ts.
          bind_res (traverse (cat_steps_field (map dp_arrays ds)) (dp_arrays d)) (\<lambda>as.
            Inr \<lparr>dp_tensors = ts, dp_arrays = as, dp_meta = []\<rparr>)))"

text \<open>One lane: the steps of the rollout with their done flags, and the lane's buffer.\<close>

fun ingest_lane ::
  "('d list \<Rightarrow> 'e result) \<Rightarrow> ('d \<times> bool) list \<Rightarrow> 'd list \<Rightarrow> 'e list result \<times> 'd list" where
  "ingest_lane join [] buffer = (Inr [], buffer)"
| "ingest_lane join ((x, d) # xs) buffer =
     (let buffer' = buffer @ [x] in
      if \<not> d then ingest_lane join xs buffer'
      else if \<not> 1 < length buffer' then ingest_lane join xs []
      else case join buffer' of
        Inl e \<Rightarrow> (Inl e, buffer')
      | Inr ep \<Rightarrow>
          (case ingest_lane join xs [] of
             (Inl e, b) \<Rightarrow> (Inl e, b)
           | (Inr eps, b) \<Rightarrow> (Inr (ep # eps), b)))"

fun ingest_lanes ::
  "('d list \<Rightarrow> 'e result) \<Rightarrow> ('d \<times> bool) list list \<Rightarrow> 'd list list \<Rightarrow> 'e list result \<times> 'd list list" where
  "ingest_lanes join [] lanes = (Inr [], lanes)"
| "ingest_lanes join (xs # xss) [] = (Inl IndexError, [])"
| "ingest_lanes join (xs # xss) (b # bs) =
     (case ingest_lane join xs b of
        (Inl e, b') \<Rightarrow> (Inl e, b' # bs)
      | (Inr eps, b') \<Rightarrow>
          (case ingest_lanes join xss bs of
             (Inl e, bs') \<Rightarrow> (Inl e, b' # bs')
           | (Inr eps', bs') \<Rightarrow> (Inr (eps @ eps'), b' # bs')))"

definition ingest_steps ::
  "('d list \<Rightarrow> 'e result) \<Rightarrow> ('d \<times> bool) list list \<Rightarrow> 'd episode_buffer \<Rightarrow>
   'e list result \<times> 'd episode_buffer" where
  "ingest_steps join steps eb =
     (let lanes = (case eb_lanes eb of None \<Rightarrow> replicate (length steps) [] | Some l \<Rightarrow> l)
      in case ingest_lanes join steps lanes of
        (Inl e, lanes') \<Rightarrow> (Inl e, eb\<lparr>eb_lanes := Some lanes'\<rparr>)
      | (Inr eps, lanes') \<Rightarrow>
          if \<not> eb_auto_reset eb \<and> list_ex (\<lambda>b. b \<noteq> []) lanes'
          then (Inl ValueError, eb\<lparr>eb_lanes := Some lanes'\<rparr>)
          else (Inr eps, eb\<lparr>eb_lanes := Some lanes'\<rparr>))"

definition rollout_dones :: "'n data_proto \<Rightarrow> bool list list result" where
  "rollout_dones d =
     bind_res (dp_get ''next.terminated'' d) (\<lambda>te.
     bind_res (reduce_substep_dims ''any'' te) (\<lambda>te'.
     bind_res (dp_get ''next.truncated'' d) (\<lambda>tr.
     bind_res (reduce_substep_dims ''any'' tr) (\<lambda>tr'.
       Inr (map2 (map2 (\<or>)) (bool_rows te') (bool_rows tr'))))))"

definition ingest ::
  "'n data_proto \<Rightarrow> 'n data_proto episode_buffer \<Rightarrow>
   'n data_proto list result \<times> 'n data_proto episode_buffer" where
  "ingest d eb =
     (case rollout_dones d of
        Inl e \<Rightarrow> (Inl e, eb)
      | Inr dones \<Rightarrow>
          ingest_steps concat_steps
            (map (\<lambda>lane. map (\<lambda>step. (select_step d lane step, dones ! lane ! step))
                           [0..<length (dones ! lane)]) [0..<length dones]) eb)"

definition clear_episodes :: "'d episode_buffer \<Rightarrow> 'd episode_buffer" where
  "clear_episodes eb = eb\<lparr>eb_lanes := map_option (map (\<lambda>_. [])) (eb_lanes eb)\<rparr>"

end
