(* ===== verification/Trajectory_Properties.thy ===== *)
theory Trajectory_Properties
  imports Trajectories
begin

text \<open>The properties of trajectory bookkeeping.\<close>

section \<open>Transition masks\<close>

lemma filter_upt_Cons:
  assumes "filter P [a..<b] = x # xs"
  shows "a \<le> x \<and> x < b \<and> P x \<and> (\<forall>k. a \<le> k \<and> k < x \<longrightarrow> \<not> P k) \<and> xs = filter P [Suc x..<b]"
  using assms
proof (induction "b - a" arbitrary: a)
  case 0
  then show ?case by simp
next
  case (Suc n)
  then have ab: "a < b" by simp
  then have upt: "[a..<b] = a # [Suc a..<b]" by (rule upt_conv_Cons)
  show ?case
  proof (cases "P a")
    case True
    with Suc.prems upt ab show ?thesis by (auto simp: le_less_trans)
  next
    case False
    then have "filter P [Suc a..<b] = x # xs" using Suc.prems upt by simp
    moreover have "n = b - Suc a" using Suc.hyps(2) by simp
    ultimately have "Suc a \<le> x \<and> x < b \<and> P x \<and> (\<forall>k. Suc a \<le> k \<and> k < x \<longrightarrow> \<not> P k) \<and> xs = filter P [Suc x..<b]"
      using Suc.hyps(1) by blast
    with False show ?thesis by (metis Suc_leD Suc_leI le_neq_implies_less)
  qed
qed

lemma set_range_simps:
  "length (set_range a b xs) = length xs"
  "i < length xs \<Longrightarrow> set_range a b xs ! i \<longleftrightarrow> a \<le> i \<and> i < b \<or> xs ! i"
  by (auto simp: set_range_def)

text \<open>Step \<open>i\<close> is in the episode that ends at the done step \<open>j\<close>; so is step \<open>k\<close>.\<close>

definition same_episode :: "bool list \<Rightarrow> nat \<Rightarrow> nat \<Rightarrow> nat \<Rightarrow> bool" where
  "same_episode d i k j \<longleftrightarrow>
     i \<le> j \<and> k \<le> j \<and> j < length d \<and> d ! j \<and> (\<forall>l. min i k \<le> l \<and> l < j \<longrightarrow> \<not> d ! l)"

lemma mask_loop_result:
  assumes "ds = filter (\<lambda>i. d ! i) [start..<length d]" and "length v = length d" "length m = length d"
    and "\<forall>i < length d. start \<le> i \<longrightarrow> \<not> v ! i \<and> \<not> m ! i"
    and "mask_loop s ds start v m = (v', m')"
  shows "length v' = length d \<and> length m' = length d \<and>
    (\<forall>i < length d. v' ! i = (if i < start then v ! i else \<exists>j \<ge> i. j < length d \<and> d ! j) \<and>
       m' ! i = (if i < start then m ! i else \<exists>j k. start \<le> k \<and> same_episode d i k j \<and> s ! k))"
  using assms
proof (induction ds arbitrary: start v m)
  case Nil
  then have none: "\<not> d ! j" if "start \<le> j" "j < length d" for j
    using that by (metis atLeastLessThan_iff empty_filter_conv set_upt)
  have later: "\<not> (\<exists>j \<ge> i. j < length d \<and> d ! j)" "\<not> (\<exists>j k. start \<le> k \<and> same_episode d i k j \<and> s ! k)"
    if "\<not> i < start" for i
    using none that unfolding same_episode_def by (meson linorder_not_less order_trans)+
  have same: "v' = v" "m' = m" using Nil.prems(5) by simp_all
  show ?case
  proof (intro conjI allI impI)
    fix i assume i: "i < length d"
    show "v' ! i = (if i < start then v ! i else \<exists>j \<ge> i. j < length d \<and> d ! j)"
      using later(1) [of i] Nil.prems(4) i unfolding same by (cases "i < start") auto
    show "m' ! i = (if i < start then m ! i else \<exists>j k. start \<le> k \<and> same_episode d i k j \<and> s ! k)"
      using later(2) [of i] Nil.prems(4) i unfolding same by (cases "i < start") auto
  qed (use Nil.prems same in simp_all)
next
  case (Cons x ds)
  from filter_upt_Cons [OF Cons.prems(1) [symmetric]]
  have x: "start \<le> x" "x < length d" "d ! x" "\<forall>k. start \<le> k \<and> k < x \<longrightarrow> \<not> d ! k"
    and ds: "ds = filter (\<lambda>i. d ! i) [Suc x..<length d]" by auto
  let ?v = "set_range start (Suc x) v"
  let ?any = "list_ex (\<lambda>i. s ! i) [start..<Suc x]"
  let ?m = "if ?any then set_range start (Suc x) m else m"
  have loop: "mask_loop s ds (Suc x) ?v ?m = (v', m')" using Cons.prems(5) x(1)
    by (cases ?any) (simp_all del: upt_Suc)
  have lens: "length ?v = length d" "length ?m = length d"
    using Cons.prems(2,3) by (simp_all add: set_range_simps)
  have clean: "\<forall>i < length d. Suc x \<le> i \<longrightarrow> \<not> ?v ! i \<and> \<not> ?m ! i"
    using Cons.prems(2-4) x(1) by (auto simp: set_range_simps)
  note IH = Cons.IH [OF ds lens clean loop]
  have any: "?any \<longleftrightarrow> (\<exists>k. start \<le> k \<and> k \<le> x \<and> s ! k)" by (auto simp: list_ex_iff simp del: upt_Suc)
  show ?case
  proof (intro conjI allI impI)
    show "length v' = length d" "length m' = length d" using IH by simp_all
    fix i assume i: "i < length d"
    show "v' ! i = (if i < start then v ! i else \<exists>j \<ge> i. j < length d \<and> d ! j)"
      using IH i x Cons.prems(2) by (auto simp: set_range_simps)
    consider "i < start" | "start \<le> i" "i \<le> x" | "x < i" by linarith
    then show "m' ! i = (if i < start then m ! i else \<exists>j k. start \<le> k \<and> same_episode d i k j \<and> s ! k)"
    proof cases
      case 1
      then have "m' ! i = ?m ! i" using IH i x(1) by simp
      then show ?thesis using 1 i Cons.prems(3) by (simp add: set_range_simps)
    next
      case 2
      then have "m' ! i = ?any"
        using IH i Cons.prems(3,4) by (simp add: set_range_simps)
      also have "\<dots> \<longleftrightarrow> (\<exists>j k. start \<le> k \<and> same_episode d i k j \<and> s ! k)"
      proof
        assume ?any
        then obtain k where "start \<le> k" "k \<le> x" "s ! k" using any by blast
        with x 2 have "same_episode d i k x" by (auto simp: same_episode_def)
        with \<open>start \<le> k\<close> \<open>s ! k\<close> show "\<exists>j k. start \<le> k \<and> same_episode d i k j \<and> s ! k" by blast
      next
        assume "\<exists>j k. start \<le> k \<and> same_episode d i k j \<and> s ! k"
        then obtain j k where jk: "start \<le> k" "same_episode d i k j" "s ! k" by blast
        have "j \<le> x"
        proof (rule ccontr)
          assume "\<not> j \<le> x"
          with jk(2) 2 x(3) show False by (auto simp: same_episode_def)
        qed
        with jk any show ?any by (auto simp: same_episode_def)
      qed
      finally show ?thesis using 2 by simp
    next
      case 3
      then have "m' ! i = (\<exists>j k. Suc x \<le> k \<and> same_episode d i k j \<and> s ! k)" using IH i by simp
      also have "\<dots> \<longleftrightarrow> (\<exists>j k. start \<le> k \<and> same_episode d i k j \<and> s ! k)"
      proof
        show "\<exists>j k. Suc x \<le> k \<and> same_episode d i k j \<and> s ! k \<Longrightarrow> \<exists>j k. start \<le> k \<and> same_episode d i k j \<and> s ! k"
          using x(1) by (meson Suc_leD order_trans)
        assume "\<exists>j k. start \<le> k \<and> same_episode d i k j \<and> s ! k"
        then obtain j k where jk: "start \<le> k" "same_episode d i k j" "s ! k" by blast
        have "Suc x \<le> k"
        proof (rule ccontr)
          assume "\<not> Suc x \<le> k"
          with jk(2) 3 x(3) show False by (auto simp: same_episode_def)
        qed
        with jk show "\<exists>j k. Suc x \<le> k \<and> same_episode d i k j \<and> s ! k" by blast
      qed
      finally show ?thesis using 3 x(1) by simp
    qed
  qed
qed

text \<open>
  C29. Transition masks: a step is valid exactly if some later (or the same) step of its row is
  done, and it is marked successful exactly if its own completed episode contains a successful
  step; steps after the last done step are neither.
\<close>

theorem transition_masks_by_episode:
  assumes "length success_row = length done_row" and "i < length done_row"
    and "build_sac_transition_masks [done_row] [success_row] = (valid, success)"
  shows "(hd valid ! i \<longleftrightarrow> (\<exists>j \<ge> i. j < length done_row \<and> done_row ! j)) \<and>
    (hd success ! i \<longleftrightarrow> (\<exists>j k. same_episode done_row i k j \<and> success_row ! k))"
proof -
  let ?none = "replicate (length done_row) False"
  obtain v m where vm: "mask_loop success_row (done_indices done_row) 0 ?none ?none = (v, m)"
    by (cases "mask_loop success_row (done_indices done_row) 0 ?none ?none")
  have "valid = [v]" "success = [m]"
    using assms(3) vm by (auto simp: build_sac_transition_masks_def Let_def)
  moreover have "(\<forall>i < length done_row. v ! i = (\<exists>j \<ge> i. j < length done_row \<and> done_row ! j) \<and>
       m ! i = (\<exists>j k. same_episode done_row i k j \<and> success_row ! k))"
    using mask_loop_result [OF _ _ _ _ vm] by (auto simp: done_indices_def)
  ultimately show ?thesis using assms(2) by simp
qed

theorem transition_masks_by_episode_witness:
  "build_sac_transition_masks [[False, True, False, True, False]] [[True, False, False, False, True]] =
     ([[True, True, True, True, False]], [[True, True, False, False, False]]) \<and>
   (hd [[True, True, False, False, False]] ! 1 \<longleftrightarrow>
      (\<exists>j k. same_episode [False, True, False, True, False] 1 k j \<and> [True, False, False, False, True] ! k))"
proof -
  have r: "build_sac_transition_masks [[False, True, False, True, False]] [[True, False, False, False, True]] =
     ([[True, True, True, True, False]], [[True, True, False, False, False]])"
    by code_simp
  have "length [True, False, False, False, True] = length [False, True, False, True, False]"
    and "1 < length [False, True, False, True, False]" by simp_all
  from transition_masks_by_episode [OF this r] r show ?thesis by blast
qed

section \<open>Progress counts\<close>

fun rises :: "bool list \<Rightarrow> bool" where
  "rises (a # b # xs) \<longleftrightarrow> (\<not> a \<and> b) \<or> rises (b # xs)"
| "rises _ \<longleftrightarrow> False"

lemma rises_snoc: "xs \<noteq> [] \<Longrightarrow> rises (xs @ [y]) \<longleftrightarrow> rises xs \<or> (\<not> last xs \<and> y)"
  by (induction xs rule: rises.induct) auto

lemma count_true_nth: "count_true bs = length (filter (\<lambda>i. bs ! i) [0..<length bs])"
proof -
  have "filter id bs = map ((!) bs) (filter (\<lambda>i. bs ! i) [0..<length bs])"
    by (metis (no_types, lifting) filter_map map_nth comp_apply filter_cong id_apply)
  then show ?thesis by (simp add: count_true_def)
qed

lemma count_true_disjoint:
  "length xs = length ys \<Longrightarrow> \<forall>i < length xs. \<not> (xs ! i \<and> ys ! i) \<Longrightarrow>
   count_true (map2 (\<or>) xs ys) = count_true xs + count_true ys"
proof (induction xs ys rule: list_induct2)
  case (Cons x xs y ys)
  then have "\<forall>i < length xs. \<not> (xs ! i \<and> ys ! i)" by auto
  moreover have "\<not> (x \<and> y)" using Cons.prems by auto
  ultimately show ?case using Cons.IH by (auto simp: count_true_def)
qed (simp add: count_true_def)

lemma count_true_le: "length xs = length ys \<Longrightarrow> count_true (map2 (\<and>) xs ys) \<le> count_true xs"
  by (induction xs ys rule: list_induct2) (auto simp: count_true_def)

definition chunk_inv :: "nat \<Rightarrow> progress \<Rightarrow> bool list \<Rightarrow> bool list list \<Rightarrow> chunk_state \<Rightarrow> bool" where
  "chunk_inv n base prev cols c \<longleftrightarrow>
     length (ck_prev c) = n \<and> length (ck_success c) = n \<and> length (ck_completed c) = n \<and>
     done_eps (ck_counts c) = done_eps base + count_true (ck_completed c) \<and>
     succ_eps base \<le> succ_eps (ck_counts c) \<and>
     succ_eps (ck_counts c) \<le> succ_eps base + count_true (ck_completed c) \<and>
     (\<forall>i < n. ck_completed c ! i = rises (prev ! i # map (\<lambda>col. col ! i) cols) \<and>
        (\<not> ck_completed c ! i \<longrightarrow> ck_prev c ! i = last (prev ! i # map (\<lambda>col. col ! i) cols)))"

lemma progress_step_inv:
  assumes inv: "chunk_inv n base prev cols c" and len: "length sd = n" "length ss = n"
  shows "chunk_inv n base prev (cols @ [sd]) (progress_step (sd, ss) c)"
proof -
  let ?active = "map2 (\<lambda>p m. \<not> p \<and> \<not> m) (ck_prev c) (ck_completed c)"
  let ?newly = "map2 (\<and>) ?active sd"
  let ?carried = "map2 (\<lambda>a (s, x). if a then s \<or> x else s) ?active (zip (ck_success c) ss)"
  let ?c = "progress_step (sd, ss) c"
  have l: "length (ck_prev c) = n" "length (ck_success c) = n" "length (ck_completed c) = n"
    using inv by (simp_all add: chunk_inv_def)
  have comp: "ck_completed ?c = map2 (\<or>) (ck_completed c) ?newly"
    by (simp add: progress_step_def Let_def)
  have counts: "done_eps (ck_counts ?c) = done_eps (ck_counts c) + count_true ?newly"
    "succ_eps (ck_counts ?c) = succ_eps (ck_counts c) + count_true (map2 (\<and>) ?newly ?carried)"
    by (simp_all add: progress_step_def Let_def)
  have disjoint: "count_true (ck_completed ?c) = count_true (ck_completed c) + count_true ?newly"
    unfolding comp by (rule count_true_disjoint) (use l len in auto)
  have succ: "count_true (map2 (\<and>) ?newly ?carried) \<le> count_true ?newly"
    by (rule count_true_le) (use l len in simp)
  have prev: "ck_prev ?c ! i = (let p = ck_prev c ! i \<or> ?newly ! i in p \<and> (sd ! i))"
    if "i < n" for i
    using that l len by (auto simp: progress_step_def Let_def)
  have lens: "length (ck_prev ?c) = n" "length (ck_success ?c) = n" "length (ck_completed ?c) = n"
    using l len by (simp_all add: progress_step_def Let_def)
  have each: "ck_completed ?c ! i = rises (prev ! i # map (\<lambda>col. col ! i) (cols @ [sd])) \<and>
      (\<not> ck_completed ?c ! i \<longrightarrow> ck_prev ?c ! i = last (prev ! i # map (\<lambda>col. col ! i) (cols @ [sd])))"
    if i: "i < n" for i
  proof -
    let ?h = "prev ! i # map (\<lambda>col. col ! i) cols"
    have old: "ck_completed c ! i = rises ?h" "\<not> ck_completed c ! i \<longrightarrow> ck_prev c ! i = last ?h"
      using inv i by (simp_all add: chunk_inv_def)
    have new: "?newly ! i \<longleftrightarrow> \<not> ck_prev c ! i \<and> \<not> ck_completed c ! i \<and> sd ! i" using i l len by auto
    have rise: "rises (?h @ [sd ! i]) \<longleftrightarrow> rises ?h \<or> (\<not> last ?h \<and> sd ! i)" by (rule rises_snoc) simp
    have c1: "ck_completed ?c ! i \<longleftrightarrow> ck_completed c ! i \<or> ?newly ! i" using i l len by (simp add: comp)
    have "ck_completed ?c ! i = rises (?h @ [sd ! i])" unfolding c1 new rise using old by blast
    moreover have "\<not> ck_completed ?c ! i \<longrightarrow> ck_prev ?c ! i = sd ! i"
      unfolding prev [OF i] Let_def c1 new by blast
    ultimately show ?thesis by simp
  qed
  show ?thesis unfolding chunk_inv_def
    using lens counts disjoint succ each inv by (auto simp: chunk_inv_def)
qed

lemma progress_fold_inv:
  assumes "chunk_inv n base prev cols c" and "length ds = length ss"
    and "\<forall>col \<in> set ds. length col = n" and "\<forall>col \<in> set ss. length col = n"
  shows "chunk_inv n base prev (cols @ ds) (foldl (\<lambda>c x. progress_step x c) c (zip ds ss))"
  using assms(2,1,3,4)
proof (induction ds ss arbitrary: cols c rule: list_induct2)
  case (Cons d ds s ss)
  have "chunk_inv n base prev (cols @ [d]) (progress_step (d, s) c)"
    using Cons.prems by (intro progress_step_inv) auto
  from Cons.IH [OF this] Cons.prems show ?case by simp
qed simp

text \<open>
  Progress counts: over one chunk the number of finished episodes grows by exactly the
  number of lanes whose done flag rises within the chunk (counting the flag carried over from
  the previous chunk), at most one per lane however often it falls and rises, and the number
  of successful episodes grows by at most as much.
\<close>

theorem progress_counts_rising_lanes:
  assumes "map_of lanes stage = Some st" and "length (ls_done st) = n" "length (ls_success st) = n"
    and "length dones = length successes"
    and "\<forall>col \<in> set dones. length col = n" "\<forall>col \<in> set successes. length col = n"
    and "update_progress_trajectory_counts b dones successes stage counts lanes = (counts', lanes')"
  shows "done_eps counts' = done_eps counts +
      length (filter (\<lambda>i. rises (ls_done st ! i # map (\<lambda>col. col ! i) dones)) [0..<n]) \<and>
    succ_eps counts \<le> succ_eps counts' \<and>
    succ_eps counts' - succ_eps counts \<le> done_eps counts' - done_eps counts"
proof -
  let ?init = "\<lparr>ck_prev = ls_done st, ck_success = ls_success st, ck_completed = replicate n False, ck_counts = counts\<rparr>"
  let ?c = "foldl (\<lambda>c x. progress_step x c) ?init (zip dones successes)"
  have "chunk_inv n counts (ls_done st) [] ?init"
    using assms(2,3) by (simp add: chunk_inv_def count_true_def)
  then have inv: "chunk_inv n counts (ls_done st) dones ?c"
    by (rule progress_fold_inv [OF _ assms(4-6), of counts "ls_done st" "[]" ?init, unfolded append_Nil])
  have c': "counts' = ck_counts ?c"
    using assms(1,2,7) by (simp add: update_progress_trajectory_counts_def Let_def)
  have "count_true (ck_completed ?c) =
      length (filter (\<lambda>i. rises (ls_done st ! i # map (\<lambda>col. col ! i) dones)) [0..<n])"
    using inv unfolding count_true_nth chunk_inv_def
    by (intro arg_cong [where f = length]) (auto intro: filter_cong)
  with inv show ?thesis by (auto simp: chunk_inv_def c')
qed

theorem progress_counts_rising_lanes_witness:
  "done_eps (fst (update_progress_trajectory_counts 2 [[True, False], [False, True], [True, True]]
      [[False, False], [False, True], [False, False]] 0 \<lparr>done_eps = 4, succ_eps = 1\<rparr>
      [(0, \<lparr>ls_done = [True, False], ls_success = [False, False]\<rparr>)])) = 6"
proof -
  obtain c l where r: "update_progress_trajectory_counts 2 [[True, False], [False, True], [True, True]]
      [[False, False], [False, True], [False, False]] 0 \<lparr>done_eps = 4, succ_eps = 1\<rparr>
      [(0, \<lparr>ls_done = [True, False], ls_success = [False, False]\<rparr>)] = (c, l)"
    by (cases "update_progress_trajectory_counts 2 [[True, False], [False, True], [True, True]]
      [[False, False], [False, True], [False, False]] 0 \<lparr>done_eps = 4, succ_eps = 1\<rparr>
      [(0, \<lparr>ls_done = [True, False], ls_success = [False, False]\<rparr>)]")
  have "done_eps c = 4 + length (filter (\<lambda>i. rises ([True, False] ! i #
      map (\<lambda>col. col ! i) [[True, False], [False, True], [True, True]])) [0..<2])"
    using progress_counts_rising_lanes [OF _ _ _ _ _ _ r, of "\<lparr>ls_done = [True, False], ls_success = [False, False]\<rparr>" 2]
    by simp
  also have "\<dots> = 6" by code_simp
  finally show ?thesis unfolding r fst_conv .
qed

section \<open>The episode buffer\<close>

definition closed_segment :: "('d \<times> bool) list \<Rightarrow> bool" where
  "closed_segment seg \<longleftrightarrow> seg \<noteq> [] \<and> snd (last seg) \<and> (\<forall>x \<in> set (butlast seg). \<not> snd x)"

definition open_steps :: "'d list \<Rightarrow> ('d \<times> bool) list" where
  "open_steps buffer = map (\<lambda>x. (x, False)) buffer"

definition lane_partition ::
  "('d list \<Rightarrow> 'e result) \<Rightarrow> ('d \<times> bool) list \<Rightarrow> 'd list \<Rightarrow> 'e list \<Rightarrow> 'd list \<Rightarrow> bool" where
  "lane_partition join xs buffer eps buffer' \<longleftrightarrow>
     (\<exists>segs. open_steps buffer @ xs = concat segs @ open_steps buffer' \<and>
        (\<forall>seg \<in> set segs. closed_segment seg) \<and>
        traverse join (map (map fst) (filter (\<lambda>seg. 1 < length seg) segs)) = Inr eps)"

lemma open_steps_snoc: "open_steps (b @ [x]) = open_steps b @ [(x, False)]"
  by (simp add: open_steps_def)

lemma closed_segment_snoc: "closed_segment (open_steps b @ [(x, True)])"
  by (auto simp: closed_segment_def open_steps_def)

lemma ingest_lane_partition:
  "ingest_lane join xs buffer = (Inr eps, buffer') \<Longrightarrow> lane_partition join xs buffer eps buffer'"
proof (induction xs arbitrary: buffer eps)
  case Nil
  then show ?case by (auto simp: lane_partition_def intro: exI [of _ "[]"])
next
  case (Cons xd xs)
  obtain x d where xd: "xd = (x, d)" by (cases xd)
  let ?b = "buffer @ [x]"
  show ?case
  proof (cases d)
    case False
    with Cons.prems xd have "ingest_lane join xs ?b = (Inr eps, buffer')" by (simp add: Let_def)
    from Cons.IH [OF this] show ?thesis
      using False by (simp add: lane_partition_def open_steps_snoc xd)
  next
    case True
    let ?seg = "open_steps buffer @ [(x, True)]"
    have fst_seg: "map fst ?seg = ?b" by (simp add: open_steps_def comp_def)
    have head: "lane_partition join (xd # xs) buffer eps' buffer'"
      if rest: "lane_partition join xs [] eps0 buffer'"
        and eps': "(1 < length ?b \<longrightarrow> (\<exists>e. join ?b = Inr e \<and> eps' = e # eps0)) \<and>
          (\<not> 1 < length ?b \<longrightarrow> eps' = eps0)" for eps0 eps'
    proof -
      obtain segs where segs: "xs = concat segs @ open_steps buffer'"
        "\<forall>seg \<in> set segs. closed_segment seg"
        "traverse join (map (map fst) (filter (\<lambda>seg. 1 < length seg) segs)) = Inr eps0"
        using rest by (auto simp: lane_partition_def open_steps_def)
      have len: "length ?seg = length ?b" by (simp add: open_steps_def)
      have "traverse join (map (map fst) (filter (\<lambda>seg. 1 < length seg) (?seg # segs))) = Inr eps'"
        using segs(3) eps' len fst_seg by (cases "1 < length ?b") auto
      moreover have "\<forall>seg \<in> set (?seg # segs). closed_segment seg"
        using segs(2) closed_segment_snoc by auto
      moreover have "open_steps buffer @ xd # xs = concat (?seg # segs) @ open_steps buffer'"
        using True segs(1) by (simp add: xd)
      ultimately show ?thesis unfolding lane_partition_def by blast
    qed
    show ?thesis
    proof (cases "1 < length ?b")
      case False
      then have "ingest_lane join xs [] = (Inr eps, buffer')" using Cons.prems xd True by (simp add: Let_def)
      from head [OF Cons.IH [OF this]] False show ?thesis by blast
    next
      case long: True
      obtain ep eps0 where "join ?b = Inr ep" "ingest_lane join xs [] = (Inr eps0, buffer')" "eps = ep # eps0"
        using Cons.prems xd True long by (auto simp: Let_def split: sum.splits prod.splits)
      with head [OF Cons.IH [of "[]" eps0]] long show ?thesis by blast
    qed
  qed
qed

lemma ingest_lanes_partition:
  "ingest_lanes join xss lanes = (Inr eps, lanes') \<Longrightarrow>
   \<exists>epss. eps = concat epss \<and> length epss = length xss \<and> length xss \<le> length lanes \<and>
     length lanes' = length lanes \<and>
     (\<forall>i < length xss. lane_partition join (xss ! i) (lanes ! i) (epss ! i) (lanes' ! i)) \<and>
     (\<forall>i. length xss \<le> i \<longrightarrow> lanes' ! i = lanes ! i)"
proof (induction join xss lanes arbitrary: eps lanes' rule: ingest_lanes.induct)
  case (1 join lanes)
  then show ?case by (auto intro: exI [of _ "[]"])
next
  case (3 join xs xss b bs)
  obtain e1 b' e2 bs' where r: "ingest_lane join xs b = (Inr e1, b')" "ingest_lanes join xss bs = (Inr e2, bs')"
    "eps = e1 @ e2" "lanes' = b' # bs'"
    using "3.prems" by (auto split: sum.splits prod.splits)
  obtain epss where epss: "e2 = concat epss" "length epss = length xss" "length xss \<le> length bs"
    "length bs' = length bs"
    "\<forall>i < length xss. lane_partition join (xss ! i) (bs ! i) (epss ! i) (bs' ! i)"
    "\<forall>i. length xss \<le> i \<longrightarrow> bs' ! i = bs ! i"
    using "3.IH" [OF r(1) [symmetric] refl r(2)] by blast
  have "\<forall>i < length (xs # xss). lane_partition join ((xs # xss) ! i) ((b # bs) ! i) ((e1 # epss) ! i) (lanes' ! i)"
    using epss(5) ingest_lane_partition [OF r(1)] r(4) by (auto simp: nth_Cons split: nat.splits)
  moreover have "\<forall>i. length (xs # xss) \<le> i \<longrightarrow> lanes' ! i = (b # bs) ! i"
    using epss(6) r(4) by (auto simp: nth_Cons split: nat.splits)
  ultimately show ?case using epss(1-4) r by (intro exI [of _ "e1 # epss"]) simp
qed simp

text \<open>
  C30. The episode buffer loses no step: after a rollout is ingested, each lane's buffered steps
  followed by its new steps split into segments that end exactly at the done steps, plus what
  stays buffered; the episodes returned are those segments, lane by lane and in order, except
  that segments of one step are dropped; and without auto reset nothing stays buffered.
\<close>

theorem episodes_partition_lane_steps:
  assumes "ingest_steps join steps eb = (Inr eps, eb')" and "eb_lanes eb = Some lanes"
  shows "\<exists>epss lanes'. eb_lanes eb' = Some lanes' \<and> eps = concat epss \<and> length epss = length steps \<and>
    (\<forall>i < length steps. lane_partition join (steps ! i) (lanes ! i) (epss ! i) (lanes' ! i)) \<and>
    (\<not> eb_auto_reset eb \<longrightarrow> (\<forall>b \<in> set lanes'. b = []))"
proof -
  obtain lanes' where l: "ingest_lanes join steps lanes = (Inr eps, lanes')"
    "eb_lanes eb' = Some lanes'" "\<not> eb_auto_reset eb \<longrightarrow> \<not> list_ex (\<lambda>b. b \<noteq> []) lanes'"
    using assms by (auto simp: ingest_steps_def split: sum.splits prod.splits if_splits)
  from ingest_lanes_partition [OF l(1)] l(2,3) show ?thesis
    by (auto simp: list_ex_iff)
qed

definition sample_buffer :: "nat episode_buffer" where
  "sample_buffer = \<lparr>eb_auto_reset = True, eb_lanes = Some [[1], []]\<rparr>"

theorem episodes_partition_lane_steps_witness:
  "\<exists>epss lanes'. eb_lanes (snd (ingest_steps Inr [[(2 :: nat, True), (3, True)], [(4 :: nat, False), (5, True)]] sample_buffer)) =
     Some lanes' \<and> [[1, 2], [4, 5 :: nat]] = concat epss \<and>
     lane_partition Inr [(2 :: nat, True), (3, True)] [1] (epss ! 0) (lanes' ! 0)"
proof -
  have r: "ingest_steps Inr [[(2 :: nat, True), (3, True)], [(4 :: nat, False), (5, True)]] sample_buffer =
      (Inr [[1, 2], [4, 5 :: nat]], \<lparr>eb_auto_reset = True, eb_lanes = Some [[], []]\<rparr>)"
    by (simp add: ingest_steps_def sample_buffer_def)
  have lanes: "eb_lanes sample_buffer = Some [[1], []]" by (simp add: sample_buffer_def)
  obtain epss lanes' where e: "eb_lanes \<lparr>eb_auto_reset = True, eb_lanes = Some [[], []]\<rparr> = Some lanes'"
    "[[1, 2], [4, 5 :: nat]] = concat epss"
    "\<forall>i < length [[(2 :: nat, True), (3, True)], [(4 :: nat, False), (5, True)]].
       lane_partition Inr ([[(2 :: nat, True), (3, True)], [(4 :: nat, False), (5, True)]] ! i) ([[1], []] ! i) (epss ! i) (lanes' ! i)"
    using episodes_partition_lane_steps [OF r lanes] by blast
  from e(3) [rule_format, of 0] have "lane_partition Inr [(2 :: nat, True), (3, True)] [1] (epss ! 0) (lanes' ! 0)" by simp
  with e(1,2) show ?thesis unfolding r snd_conv by blast
qed

end
