(* ===== verification/Env_Manager.thy ===== *)
theory Env_Manager
  imports Stateful
begin

text \<open>
  workers/env/env_manager.py and the recovery of workers/env/env_worker.py: a simulator in a
  child process behind a command queue and a result queue.

  The environment class is a record of functions over its state \<open>'e\<close>; method arguments are \<open>'q\<close> and
  everything a method returns, the saved state included, is \<open>'a\<close>. The child answers one command at
  a time, in order. What a wait of the parent meets is its argument \<open>timing\<close>: the child answers in
  time, or too late (the command stays queued and is served later), or it dies. Between two calls
  the child may serve queued commands, which is \<open>worker_step\<close>. NUMA binding, logging, garbage
  collection and copies out of shared memory are left out.
\<close>

section \<open>The environment class and the child\<close>

record ('e, 'q, 'a) env_class =
  cl_create :: "'e result"
  cl_method :: "string \<Rightarrow> 'q \<Rightarrow> 'e \<Rightarrow> 'a result \<times> 'e"
  cl_setattr :: "string \<Rightarrow> 'a \<Rightarrow> 'e \<Rightarrow> 'e result"
  cl_load_state :: "'a \<Rightarrow> 'e \<Rightarrow> 'e result"
  cl_truthy :: "'a \<Rightarrow> bool"
  cl_no_args :: 'q
  cl_none :: 'a

datatype ('q, 'a) command = Method string 'q | Set_Attr string 'a | Shutdown

datatype 'a reply = Ready | Success 'a | Error_Reply

record ('e, 'q, 'a) manager =
  em_child :: "'e option option"
  em_commands :: "('q, 'a) command list"
  em_results :: "'a reply list"
  em_state_buffer :: "'a option"
  em_cold_start_pending :: bool

text \<open>
  \<open>em_child\<close>: \<open>None\<close> without a process, \<open>Some None\<close> with one that has exited, \<open>Some (Some e)\<close> with one
  that serves \<open>e\<close>.
\<close>

definition new_manager :: "('e, 'q, 'a) manager" where
  "new_manager = \<lparr>em_child = None, em_commands = [], em_results = [], em_state_buffer = None,
                  em_cold_start_pending = False\<rparr>"

definition alive :: "('e, 'q, 'a) manager \<Rightarrow> bool" where
  "alive m = (case em_child m of Some (Some e) \<Rightarrow> True | _ \<Rightarrow> False)"

definition boot :: "('e, 'q, 'a) env_class \<Rightarrow> 'a option \<Rightarrow> 'e result" where
  "boot cl buffer =
     bind_res (cl_create cl) (\<lambda>e.
       case buffer of
         Some st \<Rightarrow> if cl_truthy cl st then cl_load_state cl st e else Inr e
       | None \<Rightarrow> Inr e)"

definition answer :: "'a result \<Rightarrow> 'a reply" where
  "answer r = (case r of Inl _ \<Rightarrow> Error_Reply | Inr a \<Rightarrow> Success a)"

text \<open>The child takes the first command; every command but the shutdown has one reply.\<close>

definition worker_step :: "('e, 'q, 'a) env_class \<Rightarrow> ('e, 'q, 'a) manager \<Rightarrow> ('e, 'q, 'a) manager" where
  "worker_step cl m =
     (case (em_child m, em_commands m) of
        (Some (Some e), c # cs) \<Rightarrow>
          (case c of
             Shutdown \<Rightarrow> m\<lparr>em_child := Some None, em_commands := cs\<rparr>
           | Method name q \<Rightarrow>
               (case cl_method cl name q e of (r, e') \<Rightarrow>
                  m\<lparr>em_child := Some (Some e'), em_commands := cs, em_results := em_results m @ [answer r]\<rparr>)
           | Set_Attr name a \<Rightarrow>
               (case cl_setattr cl name a e of
                  Inr e' \<Rightarrow> m\<lparr>em_child := Some (Some e'), em_commands := cs,
                             em_results := em_results m @ [Success (cl_none cl)]\<rparr>
                | Inl _ \<Rightarrow> m\<lparr>em_commands := cs, em_results := em_results m @ [Error_Reply]\<rparr>))
      | _ \<Rightarrow> m)"

section \<open>Waiting for a reply\<close>

datatype timing = Responds | Late | Dies

type_synonym ('e, 'q, 'a, 'r) em_stm = "(('e, 'q, 'a) manager, 'r) stm"

text \<open>
  A reply that is already queued is taken at once, whatever it answers. \<open>on_late\<close> and \<open>on_death\<close>
  are what the wait raises otherwise. A wait without a deadline is never late: \<open>unbounded\<close>.
\<close>

definition unbounded :: "timing \<Rightarrow> timing" where
  "unbounded t = (if t = Late then Responds else t)"

definition next_reply ::
  "('e, 'q, 'a) env_class \<Rightarrow> py_error \<Rightarrow> py_error \<Rightarrow> timing \<Rightarrow> ('e, 'q, 'a, 'a reply) em_stm" where
  "next_reply cl on_late on_death t m =
     (case em_results m of
        r # rs \<Rightarrow> (Inr r, m\<lparr>em_results := rs\<rparr>)
      | [] \<Rightarrow>
          (case t of
             Late \<Rightarrow> (Inl on_late, m)
           | Dies \<Rightarrow> (Inl on_death, m\<lparr>em_child := Some None\<rparr>)
           | Responds \<Rightarrow>
               (let m' = worker_step cl m in
                case em_results m' of
                  r # rs \<Rightarrow> (Inr r, m'\<lparr>em_results := rs\<rparr>)
                | [] \<Rightarrow> (Inl on_death, m'))))"

section \<open>The parent's operations\<close>

definition start_simulator ::
  "('e, 'q, 'a) env_class \<Rightarrow> timing \<Rightarrow> ('e, 'q, 'a, unit) em_stm" where
  "start_simulator cl t m =
     (if em_child m \<noteq> None then (Inr (), m)
      else
        let booted = boot cl (em_state_buffer m);
            m1 = m\<lparr>em_child := Some (case booted of Inr e \<Rightarrow> Some e | Inl _ \<Rightarrow> None), em_commands := [],
                   em_results := [case booted of Inr _ \<Rightarrow> Ready | Inl _ \<Rightarrow> Error_Reply]\<rparr>
        in case t of
             Late \<Rightarrow> (Inl RuntimeError, m1)
           | Dies \<Rightarrow> (Inl RuntimeError, m1\<lparr>em_child := Some None, em_results := []\<rparr>)
           | Responds \<Rightarrow>
               (let m2 = m1\<lparr>em_results := []\<rparr> in
                case booted of
                  Inl _ \<Rightarrow> (Inl RuntimeError, m2)
                | Inr _ \<Rightarrow> (Inr (), m2\<lparr>em_cold_start_pending := True\<rparr>)))"

definition put_command :: "('q, 'a) command \<Rightarrow> ('e, 'q, 'a, unit) em_stm" where
  "put_command c = upd (\<lambda>m. m\<lparr>em_commands := em_commands m @ [c]\<rparr>)"

definition drop_process :: "('e, 'q, 'a) manager \<Rightarrow> ('e, 'q, 'a) manager" where
  "drop_process m = m\<lparr>em_child := None, em_commands := [], em_results := []\<rparr>"

definition stop_simulator :: "('e, 'q, 'a) env_class \<Rightarrow> timing \<Rightarrow> ('e, 'q, 'a, unit) em_stm" where
  "stop_simulator cl t = reading (\<lambda>m.
     if em_child m = None then lift_res (Inr ())
     else
       bnd (put_command (Method ''get_state'' (cl_no_args cl))) (\<lambda>_.
       bnd (next_reply cl QueueEmpty QueueEmpty t) (\<lambda>r.
       bnd (case r of Success st \<Rightarrow> upd (\<lambda>m. m\<lparr>em_state_buffer := Some st\<rparr>) | _ \<Rightarrow> lift_res (Inr ())) (\<lambda>_.
         upd drop_process))))"

definition force_stop_simulator :: "('e, 'q, 'a, unit) em_stm" where
  "force_stop_simulator = upd drop_process"

text \<open>\<open>result["data"]\<close>: the message of a child that has just come up has none.\<close>

definition reply_data :: "'a reply \<Rightarrow> 'a result" where
  "reply_data r = (case r of Error_Reply \<Rightarrow> Inl RuntimeError | Ready \<Rightarrow> Inl KeyError | Success a \<Rightarrow> Inr a)"

definition call ::
  "('e, 'q, 'a) env_class \<Rightarrow> string \<Rightarrow> 'q \<Rightarrow> rat option \<Rightarrow> timing \<Rightarrow> ('e, 'q, 'a, 'a) em_stm" where
  "call cl name q timeout_s t = reading (\<lambda>m.
     bnd (lift_res (require (alive m) RuntimeError)) (\<lambda>_.
     bnd (lift_res (require (case timeout_s of None \<Rightarrow> True | Some s \<Rightarrow> 0 < s) ValueError)) (\<lambda>_.
     bnd (put_command (Method name q)) (\<lambda>_.
     bnd (next_reply cl TimeoutError RuntimeError (if timeout_s = None then unbounded t else t)) (\<lambda>r.
     bnd (if name = ''reset'' \<and> r \<noteq> Error_Reply then upd (\<lambda>m. m\<lparr>em_cold_start_pending := False\<rparr>)
          else lift_res (Inr ())) (\<lambda>_.
       lift_res (reply_data r)))))))"

text \<open>The wait for this reply does not look at the child: \<open>None\<close> says that it never ends.\<close>

definition set_attribute ::
  "('e, 'q, 'a) env_class \<Rightarrow> string \<Rightarrow> 'a \<Rightarrow> timing \<Rightarrow> ('e, 'q, 'a, unit option) em_stm" where
  "set_attribute cl name a t = reading (\<lambda>m.
     bnd (lift_res (require (alive m) RuntimeError)) (\<lambda>_.
     bnd (put_command (Set_Attr name a)) (\<lambda>_.
       if t = Dies \<and> em_results m = [] then bnd (upd (\<lambda>m. m\<lparr>em_child := Some None\<rparr>)) (\<lambda>_. lift_res (Inr None))
       else
         bnd (next_reply cl RuntimeError RuntimeError (unbounded t)) (\<lambda>r.
         bnd (lift_res (require (r \<noteq> Error_Reply) RuntimeError)) (\<lambda>_. lift_res (Inr (Some ())))))))"

definition snapshot_state ::
  "('e, 'q, 'a) env_class \<Rightarrow> rat option \<Rightarrow> timing \<Rightarrow> ('e, 'q, 'a, 'a) em_stm" where
  "snapshot_state cl timeout_s t =
     bnd (call cl ''get_state'' (cl_no_args cl) timeout_s t) (\<lambda>st.
     bnd (upd (\<lambda>m. m\<lparr>em_state_buffer := Some st\<rparr>)) (\<lambda>_. lift_res (Inr st)))"

section \<open>Recovery of a reset\<close>

text \<open>What one attempt meets: its reset, its snapshot, and the start of a replacement.\<close>

record attempt =
  at_reset :: timing
  at_snapshot :: timing
  at_start :: timing

definition reset_attempt ::
  "('e, 'q, 'a) env_class \<Rightarrow> 'q \<Rightarrow> rat \<Rightarrow> attempt \<Rightarrow> ('e, 'q, 'a, 'a) em_stm" where
  "reset_attempt cl options timeout_s a =
     bnd (call cl ''reset'' options (Some timeout_s) (at_reset a)) (\<lambda>r.
     bnd (snapshot_state cl (Some (min timeout_s 30)) (at_snapshot a)) (\<lambda>_. lift_res (Inr r)))"

fun reset_with_recovery ::
  "('e, 'q, 'a) env_class \<Rightarrow> 'q \<Rightarrow> rat \<Rightarrow> nat \<Rightarrow> nat \<Rightarrow> (nat \<Rightarrow> attempt) \<Rightarrow> ('e, 'q, 'a, 'a \<times> nat) em_stm" where
  "reset_with_recovery cl options timeout_s left restarts sched m =
     (case reset_attempt cl options timeout_s (sched restarts) m of
        (Inr r, m') \<Rightarrow> (Inr (r, restarts), m')
      | (Inl TimeoutError, m') \<Rightarrow>
          (case left of
             0 \<Rightarrow> (Inl TimeoutError, m')
           | Suc left' \<Rightarrow>
               bnd force_stop_simulator (\<lambda>_.
               bnd (start_simulator cl (at_start (sched restarts))) (\<lambda>_.
                 reset_with_recovery cl options timeout_s left' (Suc restarts) sched)) m')
      | (Inl e, m') \<Rightarrow> (Inl e, m'))"

declare reset_with_recovery.simps [simp del]

definition reset_simulator_with_recovery ::
  "('e, 'q, 'a) env_class \<Rightarrow> 'q \<Rightarrow> rat \<Rightarrow> nat \<Rightarrow> (nat \<Rightarrow> attempt) \<Rightarrow> ('e, 'q, 'a, 'a \<times> nat) em_stm" where
  "reset_simulator_with_recovery cl options timeout_s max_restarts sched =
     reset_with_recovery cl options timeout_s max_restarts 0 sched"

section \<open>Restarting the stages of a worker\<close>

text \<open>Each stage has its environment class, and the timings that stopping and starting it meet.\<close>

fun restart_one_by_one ::
  "(('e, 'q, 'a) env_class \<times> timing \<times> timing) list \<Rightarrow> ('e, 'q, 'a) manager list \<Rightarrow>
   unit result \<times> ('e, 'q, 'a) manager list" where
  "restart_one_by_one ts [] = (Inr (), [])"
| "restart_one_by_one [] (m # ms) = (Inr (), m # ms)"
| "restart_one_by_one ((cl, t1, t2) # ts) (m # ms) =
     (case bnd (stop_simulator cl t1) (\<lambda>_. start_simulator cl t2) m of
        (Inl e, m') \<Rightarrow> (Inl e, m' # ms)
      | (Inr _, m') \<Rightarrow> (case restart_one_by_one ts ms of (r, ms') \<Rightarrow> (r, m' # ms')))"

fun stop_all ::
  "(('e, 'q, 'a) env_class \<times> timing \<times> timing) list \<Rightarrow> ('e, 'q, 'a) manager list \<Rightarrow>
   unit result \<times> ('e, 'q, 'a) manager list" where
  "stop_all ts [] = (Inr (), [])"
| "stop_all [] (m # ms) = (Inr (), m # ms)"
| "stop_all (t # ts) (m # ms) =
     (case stop_simulator (fst t) (fst (snd t)) m of
        (Inl e, m') \<Rightarrow> (Inl e, m' # ms)
      | (Inr _, m') \<Rightarrow> (case stop_all ts ms of (r, ms') \<Rightarrow> (r, m' # ms')))"

text \<open>The concurrent starts touch one manager each; the first failure in stage order is raised.\<close>

fun start_all ::
  "(('e, 'q, 'a) env_class \<times> timing \<times> timing) list \<Rightarrow> ('e, 'q, 'a) manager list \<Rightarrow>
   unit result \<times> ('e, 'q, 'a) manager list" where
  "start_all ts [] = (Inr (), [])"
| "start_all [] (m # ms) = (Inr (), m # ms)"
| "start_all (t # ts) (m # ms) =
     (case start_simulator (fst t) (snd (snd t)) m of (r, m') \<Rightarrow>
        (case start_all ts ms of (r', ms') \<Rightarrow> (bind_res r (\<lambda>_. r'), m' # ms')))"

definition restart_with_parallel_start ::
  "(('e, 'q, 'a) env_class \<times> timing \<times> timing) list \<Rightarrow> ('e, 'q, 'a) manager list \<Rightarrow>
   unit result \<times> ('e, 'q, 'a) manager list" where
  "restart_with_parallel_start ts ms =
     (case stop_all ts ms of
        (Inl e, ms') \<Rightarrow> (Inl e, ms')
      | (Inr _, ms') \<Rightarrow> start_all ts ms')"

end
