(* ===== verification/Env_Manager_Properties.thy ===== *)
theory Env_Manager_Properties
  imports Env_Manager
begin

text \<open>
  What the manager promises over a simulator whose saved state carries its schedule. The locale
  \<open>resumable_env\<close> is that contract of the environment class; the RoboDojo simulator provides it.
\<close>

section \<open>Waiting and starting\<close>

lemma next_reply_Inr:
  "next_reply cl a b t m = (Inr r, m') \<Longrightarrow>
   (em_results m = r # em_results m' \<and> m' = m\<lparr>em_results := em_results m'\<rparr>) \<or>
   (em_results m = [] \<and> t = Responds \<and> em_results (worker_step cl m) = r # em_results m' \<and>
     m' = (worker_step cl m)\<lparr>em_results := em_results m'\<rparr>)"
  by (auto simp: next_reply_def Let_def split: list.splits timing.splits)

lemma worker_step_buffer [simp]: "em_state_buffer (worker_step cl m) = em_state_buffer m"
  by (auto simp: worker_step_def split: option.splits list.splits command.splits prod.splits sum.splits)

lemma next_reply_buffer: "em_state_buffer (snd (next_reply cl a b t m)) = em_state_buffer m"
  by (auto simp: next_reply_def Let_def split: list.splits timing.splits)

abbreviation idle :: "('e, 'q, 'a) manager \<Rightarrow> 'e \<Rightarrow> bool" where
  "idle m e \<equiv> em_child m = Some (Some e) \<and> em_commands m = [] \<and> em_results m = []"

text \<open>A call that returns on an idle child returns what the method answered and leaves it idle.\<close>

lemma call_idle:
  assumes "idle m e" and "call cl name q s t m = (Inr a, m')"
  shows "\<exists>e'. cl_method cl name q e = (Inr a, e') \<and> idle m' e' \<and> em_state_buffer m' = em_state_buffer m"
  using assms
  by (auto simp: call_def reading_def stm_simps require_Inr_iff put_command_def next_reply_def worker_step_def
      Let_def answer_def reply_data_def split: timing.splits prod.splits sum.splits if_splits)

lemma call_buffer: "em_state_buffer (snd (call cl name q s t m)) = em_state_buffer m"
proof -
  have "keeps (\<lambda>m'. em_state_buffer m' = em_state_buffer m) (call cl name q s t)"
    unfolding call_def put_command_def
    by (intro keeps_rules) (auto simp: keeps_def next_reply_buffer intro: keeps_rules)
  then show ?thesis by (simp add: keeps_def)
qed

lemma call_answers:
  assumes "idle m e" and "cl_method cl name q e = (Inr a, e')" and "case s of None \<Rightarrow> True | Some x \<Rightarrow> 0 < x"
    and "(if s = None then unbounded t else t) = Responds"
  shows "\<exists>m'. call cl name q s t m = (Inr a, m') \<and> idle m' e' \<and> em_state_buffer m' = em_state_buffer m"
  using assms
  by (auto simp: call_def reading_def bnd_def lift_res_def upd_def alive_def require_def put_command_def next_reply_def
      worker_step_def Let_def answer_def reply_data_def split: option.splits)

lemma call_late:
  assumes "idle m e" and "0 < s"
  shows "\<exists>m'. call cl name q (Some s) Late m = (Inl TimeoutError, m') \<and> em_state_buffer m' = em_state_buffer m"
  using assms
  by (auto simp: call_def reading_def bnd_def lift_res_def upd_def alive_def require_def put_command_def next_reply_def)

section \<open>Simulators whose saved state is their schedule\<close>

text \<open>
  \<open>cur\<close> is the place in the schedule, \<open>advance q c\<close> what a reset with the options \<open>q\<close> draws at \<open>c\<close> and where
  it goes, \<open>seen\<close> what the answer to a reset shows of the draw. Whatever else the environment
  does, a reset that answers follows the schedule, and saving and loading keep the place.
\<close>

locale resumable_env =
  fixes cl :: "('e, 'q, 'a) env_class" and ok :: "'e \<Rightarrow> bool" and cur :: "'e \<Rightarrow> 'c" and start :: 'c
    and state_of :: "'c \<Rightarrow> 'a" and seen :: "'a \<Rightarrow> 'd" and advance :: "'q \<Rightarrow> 'c \<Rightarrow> ('d \<times> 'c) option"
  assumes created: "cl_create cl = Inr e \<Longrightarrow> ok e \<and> cur e = start"
    and saved: "ok e \<Longrightarrow> cl_method cl ''get_state'' (cl_no_args cl) e = (Inr (state_of (cur e)), e)"
    and truthy: "cl_truthy cl (state_of c)"
    and loaded: "ok e \<Longrightarrow> cl_load_state cl (state_of c) e = Inr e' \<Longrightarrow> ok e' \<and> cur e' = c"
    and reset: "ok e \<Longrightarrow> cl_method cl ''reset'' q e = (Inr a, e') \<Longrightarrow>
                  ok e' \<and> advance q (cur e) = Some (seen a, cur e')"
begin

definition saved_at :: "('e, 'q, 'a) manager \<Rightarrow> 'c \<Rightarrow> bool" where
  "saved_at m c \<longleftrightarrow> (em_state_buffer m = None \<and> c = start) \<or> em_state_buffer m = Some (state_of c)"

definition in_step :: "('e, 'q, 'a) manager \<Rightarrow> 'c \<Rightarrow> bool" where
  "in_step m c \<longleftrightarrow> saved_at m c \<and> (\<exists>e. idle m e \<and> ok e \<and> cur e = c)"

lemma saved_at_buffer: "saved_at m c \<Longrightarrow> em_state_buffer m' = em_state_buffer m \<Longrightarrow> saved_at m' c"
  by (simp add: saved_at_def)

lemma booted: "boot cl (em_state_buffer m) = Inr e \<Longrightarrow> saved_at m c \<Longrightarrow> ok e \<and> cur e = c"
  using created truthy [of c] loaded [of _ c]
  by (auto simp: boot_def saved_at_def bind_res_Inr_iff)

lemma started:
  assumes "saved_at m c" and "em_child m = None" and "start_simulator cl t m = (Inr (), m')"
  shows "in_step m' c"
proof -
  from assms(2,3) obtain e where e: "boot cl (em_state_buffer m) = Inr e" "idle m' e"
    "em_state_buffer m' = em_state_buffer m"
    by (auto simp: start_simulator_def Let_def split: timing.splits sum.splits)
  with booted [OF e(1) assms(1)] assms(1) show ?thesis by (auto simp: in_step_def saved_at_def)
qed

lemma snapshot:
  assumes "idle m e" and "ok e" and "snapshot_state cl s t m = (Inr a, m')"
  shows "in_step m' (cur e)"
proof -
  from assms(3) obtain m1 where c: "call cl ''get_state'' (cl_no_args cl) s t m = (Inr a, m1)"
    and m': "m' = m1\<lparr>em_state_buffer := Some a\<rparr>"
    by (auto simp: snapshot_state_def stm_simps)
  from call_idle [OF assms(1) c] saved [OF assms(2)] have "idle m1 e" "a = state_of (cur e)" by auto
  with m' assms(2) show ?thesis by (auto simp: in_step_def saved_at_def)
qed

lemma attempt_returns:
  assumes "in_step m c" and "reset_attempt cl q s a m = (Inr r, m')"
  shows "\<exists>c'. advance q c = Some (seen r, c') \<and> in_step m' c'"
proof -
  from assms(1) obtain e where e: "idle m e" "ok e" "cur e = c" by (auto simp: in_step_def)
  from assms(2) obtain m1 b where c: "call cl ''reset'' q (Some s) (at_reset a) m = (Inr r, m1)"
    and n: "snapshot_state cl (Some (min s 30)) (at_snapshot a) m1 = (Inr b, m')"
    by (auto simp: reset_attempt_def stm_simps)
  from call_idle [OF e(1) c] obtain e1 where e1: "cl_method cl ''reset'' q e = (Inr r, e1)" "idle m1 e1" by blast
  from reset [OF e(2) e1(1)] e(3) have r: "ok e1" "advance q c = Some (seen r, cur e1)" by simp_all
  from snapshot [OF e1(2) r(1) n] r(2) show ?thesis by blast
qed

lemma snapshot_raises_buffer: "snapshot_state cl s t m = (Inl x, m') \<Longrightarrow> em_state_buffer m' = em_state_buffer m"
  using call_buffer [of cl "''get_state''" "cl_no_args cl" s t m]
  by (auto simp: snapshot_state_def bnd_def upd_def lift_res_def split: prod.splits sum.splits)

lemma attempt_raises_buffer:
  assumes "reset_attempt cl q s a m = (Inl x, m')"
  shows "em_state_buffer m' = em_state_buffer m"
proof (cases "call cl ''reset'' q (Some s) (at_reset a) m")
  case (Pair r m1)
  then have "em_state_buffer m1 = em_state_buffer m" using call_buffer [of cl "''reset''" q "Some s" "at_reset a" m] by simp
  with Pair assms show ?thesis
    by (cases r) (auto simp: reset_attempt_def bnd_def lift_res_def dest: snapshot_raises_buffer
        split: prod.splits sum.splits)
qed

text \<open>Whatever timed out on the way, a reset that returns is the next one of the schedule.\<close>

lemma recovered:
  assumes "in_step m c" and "reset_with_recovery cl q s left k sched m = (Inr (r, j), m')"
  shows "\<exists>c'. advance q c = Some (seen r, c') \<and> in_step m' c' \<and> k \<le> j \<and> j \<le> k + left"
  using assms
proof (induction left arbitrary: k m)
  case 0
  then obtain n where "reset_attempt cl q s (sched k) m = (Inr r, m')" "j = k"
    by (auto simp: reset_with_recovery.simps split: prod.splits sum.splits py_error.splits)
  with attempt_returns [OF 0(1)] show ?case by auto
next
  case (Suc left)
  show ?case
  proof (cases "reset_attempt cl q s (sched k) m")
    case (Pair o1 m1)
    show ?thesis
    proof (cases o1)
      case (Inr r')
      with Pair Suc.prems(2) have "reset_attempt cl q s (sched k) m = (Inr r, m')" "j = k"
        by (auto simp: reset_with_recovery.simps)
      with attempt_returns [OF Suc.prems(1)] show ?thesis by (meson le_add1 order_refl)
    next
      case (Inl x)
      with Pair Suc.prems(2) obtain m2 where
        m2: "start_simulator cl (at_start (sched k)) (drop_process m1) = (Inr (), m2)"
        and rest: "reset_with_recovery cl q s left (Suc k) sched m2 = (Inr (r, j), m')"
        by (auto simp: reset_with_recovery.simps force_stop_simulator_def stm_simps split: py_error.splits)
      have "saved_at (drop_process m1) c"
        using Suc.prems(1) attempt_raises_buffer [of q s "sched k" m x m1] Pair Inl
        by (auto simp: in_step_def saved_at_def drop_process_def)
      from started [OF this _ m2] have "in_step m2 c" by (simp add: drop_process_def)
      from Suc.IH [OF this rest] show ?thesis by auto
    qed
  qed
qed

text \<open>Progress: what a simulator must do so that a reset that is given enough attempts returns.\<close>

definition revivable :: bool where
  "revivable \<longleftrightarrow> (\<exists>e. cl_create cl = Inr e) \<and> (\<forall>e c. ok e \<longrightarrow> (\<exists>e'. cl_load_state cl (state_of c) e = Inr e'))"

definition answers :: "'q \<Rightarrow> 'c \<Rightarrow> bool" where
  "answers q c \<longleftrightarrow> (\<forall>e. ok e \<and> cur e = c \<longrightarrow> (\<exists>a e'. cl_method cl ''reset'' q e = (Inr a, e')))"

lemma revivableI:
  "cl_create cl = Inr e \<Longrightarrow> \<forall>e c. ok e \<longrightarrow> (\<exists>e'. cl_load_state cl (state_of c) e = Inr e') \<Longrightarrow> revivable"
  by (auto simp: revivable_def)

lemma answersI: "\<forall>e. ok e \<and> cur e = c \<longrightarrow> (\<exists>a e'. cl_method cl ''reset'' q e = (Inr a, e')) \<Longrightarrow> answers q c"
  by (simp add: answers_def)

lemma restart_succeeds:
  assumes "saved_at m c" and "revivable"
  shows "\<exists>m'. start_simulator cl Responds (drop_process m) = (Inr (), m') \<and> in_step m' c"
proof -
  from assms(2) obtain e0 where e0: "cl_create cl = Inr e0" by (auto simp: revivable_def)
  with created have "ok e0" by blast
  with assms(2) obtain e1 where "cl_load_state cl (state_of c) e0 = Inr e1" unfolding revivable_def by blast
  with truthy [of c] e0 assms(1) obtain e where "boot cl (em_state_buffer m) = Inr e"
    by (auto simp: boot_def saved_at_def)
  then obtain m' where m': "start_simulator cl Responds (drop_process m) = (Inr (), m')"
    by (auto simp: start_simulator_def drop_process_def)
  have "saved_at (drop_process m) c" using assms(1) by (simp add: saved_at_def drop_process_def)
  from started [OF this _ m'] m' show ?thesis by (auto simp: drop_process_def)
qed

lemma attempt_times_out:
  assumes "in_step m c" and "answers q c" and "0 < s"
    and "at_reset a = Late \<or> (at_reset a = Responds \<and> at_snapshot a = Late)"
  shows "\<exists>m'. reset_attempt cl q s a m = (Inl TimeoutError, m') \<and> saved_at m' c"
proof -
  from assms(1) obtain e where e: "idle m e" "ok e" "cur e = c" by (auto simp: in_step_def)
  have "saved_at m c" using assms(1) by (simp add: in_step_def)
  moreover have "\<exists>m'. reset_attempt cl q s a m = (Inl TimeoutError, m')"
  proof (cases "at_reset a = Late")
    case True
    with call_late [OF e(1) assms(3), of cl "''reset''" q] show ?thesis by (auto simp: reset_attempt_def bnd_def)
  next
    case False
    with assms(4) have t: "at_reset a = Responds" "at_snapshot a = Late" by simp_all
    from assms(2) e obtain r e1 where "cl_method cl ''reset'' q e = (Inr r, e1)" by (auto simp: answers_def)
    from call_answers [OF e(1) this, of "Some s" "at_reset a"] assms(3) t(1)
    obtain m1 where m1: "call cl ''reset'' q (Some s) (at_reset a) m = (Inr r, m1)" "idle m1 e1" by auto
    from call_late [OF m1(2), of "min s 30" cl "''get_state''" "cl_no_args cl"] assms(3)
    obtain m2 where "snapshot_state cl (Some (min s 30)) Late m1 = (Inl TimeoutError, m2)"
      by (auto simp: snapshot_state_def bnd_def)
    with m1(1) t(2) show ?thesis by (simp add: reset_attempt_def bnd_def)
  qed
  ultimately show ?thesis using saved_at_buffer attempt_raises_buffer by blast
qed

lemma attempt_succeeds:
  assumes "in_step m c" and "answers q c" and "0 < s" and "at_reset a = Responds" and "at_snapshot a = Responds"
  shows "\<exists>r m'. reset_attempt cl q s a m = (Inr r, m')"
proof -
  from assms(1) obtain e where e: "idle m e" "ok e" "cur e = c" by (auto simp: in_step_def)
  from assms(2) e obtain r e1 where r: "cl_method cl ''reset'' q e = (Inr r, e1)" by (auto simp: answers_def)
  from call_answers [OF e(1) r, of "Some s" "at_reset a"] assms(3,4)
  obtain m1 where m1: "call cl ''reset'' q (Some s) (at_reset a) m = (Inr r, m1)" "idle m1 e1" by auto
  from reset [OF e(2) r] have "ok e1" by simp
  from call_answers [OF m1(2) saved [OF this], of "Some (min s 30)" "at_snapshot a"] assms(3,5)
  obtain m2 where "call cl ''get_state'' (cl_no_args cl) (Some (min s 30)) (at_snapshot a) m1 = (Inr (state_of (cur e1)), m2)"
    by auto
  with m1(1) show ?thesis by (auto simp: reset_attempt_def snapshot_state_def bnd_def upd_def lift_res_def)
qed

lemma recovery_returns:
  assumes "in_step m c" and "revivable" and "answers q c" and "0 < s" and "n \<le> left"
    and "\<forall>i < n. (at_reset (sched (k + i)) = Late \<or>
           (at_reset (sched (k + i)) = Responds \<and> at_snapshot (sched (k + i)) = Late)) \<and>
         at_start (sched (k + i)) = Responds"
    and "at_reset (sched (k + n)) = Responds" and "at_snapshot (sched (k + n)) = Responds"
  shows "\<exists>r m'. reset_with_recovery cl q s left k sched m = (Inr (r, k + n), m')"
  using assms
proof (induction n arbitrary: left k m)
  case 0
  with attempt_succeeds [OF 0(1,3,4), of "sched k"] show ?case by (auto simp: reset_with_recovery.simps)
next
  case (Suc n)
  from Suc.prems(5) obtain left' where left: "left = Suc left'" "n \<le> left'" by (cases left) auto
  from Suc.prems(6) have h: "at_reset (sched k) = Late \<or> (at_reset (sched k) = Responds \<and> at_snapshot (sched k) = Late)"
    "at_start (sched k) = Responds" by force+
  from attempt_times_out [OF Suc.prems(1,3,4) h(1)] obtain m1 where
    m1: "reset_attempt cl q s (sched k) m = (Inl TimeoutError, m1)" "saved_at m1 c" by blast
  from restart_succeeds [OF m1(2) Suc.prems(2)] obtain m2 where
    m2: "start_simulator cl Responds (drop_process m1) = (Inr (), m2)" "in_step m2 c" by blast
  have "\<exists>r m'. reset_with_recovery cl q s left' (Suc k) sched m2 = (Inr (r, Suc k + n), m')"
    using Suc.prems(6-8) by (intro Suc.IH [OF m2(2) Suc.prems(2-4) left(2)]) force+
  with m1 m2 left h show ?case
    by (auto simp: reset_with_recovery.simps force_stop_simulator_def bnd_def upd_def)
qed

lemma exhausted:
  assumes "in_step m c" and "revivable" and "answers q c" and "0 < s"
    and "\<forall>i \<le> left. (at_reset (sched (k + i)) = Late \<or>
           (at_reset (sched (k + i)) = Responds \<and> at_snapshot (sched (k + i)) = Late)) \<and>
         at_start (sched (k + i)) = Responds"
  shows "\<exists>m'. reset_with_recovery cl q s left k sched m = (Inl TimeoutError, m') \<and> saved_at m' c"
  using assms
proof (induction left arbitrary: k m)
  case 0
  with attempt_times_out [OF 0(1,3,4), of "sched k"] show ?case by (auto simp: reset_with_recovery.simps)
next
  case (Suc left)
  from Suc.prems(5) have h: "at_reset (sched k) = Late \<or> (at_reset (sched k) = Responds \<and> at_snapshot (sched k) = Late)"
    "at_start (sched k) = Responds" by force+
  from attempt_times_out [OF Suc.prems(1,3,4) h(1)] obtain m1 where
    m1: "reset_attempt cl q s (sched k) m = (Inl TimeoutError, m1)" "saved_at m1 c" by blast
  from restart_succeeds [OF m1(2) Suc.prems(2)] obtain m2 where
    m2: "start_simulator cl Responds (drop_process m1) = (Inr (), m2)" "in_step m2 c" by blast
  have "\<exists>m'. reset_with_recovery cl q s left (Suc k) sched m2 = (Inl TimeoutError, m') \<and> saved_at m' c"
    using Suc.prems(5) by (intro Suc.IH [OF m2(2) Suc.prems(2-4)]) force
  with m1 m2 h show ?case
    by (auto simp: reset_with_recovery.simps force_stop_simulator_def bnd_def upd_def)
qed

lemma stopped:
  assumes "idle m e" and "ok e" and "stop_simulator cl t m = (Inr (), m')"
  shows "em_child m' = None \<and> saved_at m' (cur e)"
  using assms(1,3) saved [OF assms(2)]
  by (auto simp: stop_simulator_def reading_def stm_simps put_command_def next_reply_def worker_step_def Let_def
      answer_def drop_process_def saved_at_def split: timing.splits)

text \<open>A planned restart continues the schedule where the stopped child was, whatever was saved before.\<close>

lemma planned_restart:
  assumes "idle m e" and "ok e" and "bnd (stop_simulator cl t1) (\<lambda>_. start_simulator cl t2) m = (Inr (), m')"
  shows "in_step m' (cur e)"
proof -
  from assms(3) obtain m1 where "stop_simulator cl t1 m = (Inr (), m1)" and s: "start_simulator cl t2 m1 = (Inr (), m')"
    by (auto simp: stm_simps)
  from stopped [OF assms(1,2) this(1)] have "em_child m1 = None" "saved_at m1 (cur e)" by simp_all
  from started [OF this(2,1) s] show ?thesis .
qed

end

section \<open>Restarting several stages\<close>

lemma serial_restart_Inr:
  "restart_one_by_one (t # ts) (m # ms) = (Inr (), ms') \<longleftrightarrow>
   (\<exists>m1 m2 ms2. stop_simulator (fst t) (fst (snd t)) m = (Inr (), m1) \<and> start_simulator (fst t) (snd (snd t)) m1 = (Inr (), m2) \<and>
      restart_one_by_one ts ms = (Inr (), ms2) \<and> ms' = m2 # ms2)"
  by (cases t) (auto simp: bnd_def split: prod.splits sum.splits)

lemma parallel_restart_Inr:
  "restart_with_parallel_start (t # ts) (m # ms) = (Inr (), ms') \<longleftrightarrow>
   (\<exists>m1 m2 ms2. stop_simulator (fst t) (fst (snd t)) m = (Inr (), m1) \<and> start_simulator (fst t) (snd (snd t)) m1 = (Inr (), m2) \<and>
      restart_with_parallel_start ts ms = (Inr (), ms2) \<and> ms' = m2 # ms2)"
  by (auto simp: restart_with_parallel_start_def bind_res_Inr_iff split: prod.splits sum.splits)

text \<open>
  The concurrent restart of the stages of a worker succeeds exactly when restarting them one
  after the other does, and leaves the same managers, each over the child it would have had.
\<close>

theorem parallel_restart_is_serial_restart:
  "restart_with_parallel_start ts ms = (Inr (), ms') \<longleftrightarrow> restart_one_by_one ts ms = (Inr (), ms')"
proof (induction ts arbitrary: ms ms')
  case Nil
  then show ?case by (cases ms) (simp_all add: restart_with_parallel_start_def)
next
  case (Cons t ts)
  then show ?case
    by (cases ms) (simp_all add: serial_restart_Inr parallel_restart_Inr, simp add: restart_with_parallel_start_def)
qed

section \<open>What the protocol does not protect\<close>

text \<open>
  Replies carry no identity. After a call has timed out on a child that is merely slow, the next call
  is answered with the late result of the previous one, whatever it asked for: only a forced stop,
  which drops the queues, makes the manager usable again.
\<close>

theorem late_reply_answers_the_next_call:
  assumes "idle m e" and "0 < s" and "cl_method cl first q e = (Inr a, e')"
    and "second \<noteq> ''reset''"
  shows "\<exists>m1 m2. call cl first q (Some s) Late m = (Inl TimeoutError, m1) \<and>
           call cl second q' None Responds m1 = (Inr a, m2)"
  using assms
  by (auto simp: call_def reading_def bnd_def lift_res_def upd_def alive_def require_def put_command_def next_reply_def
      worker_step_def Let_def answer_def reply_data_def unbounded_def)

text \<open>
  A start that times out leaves the process behind, so that starting again returns at once without having
  waited for anything; the first call then takes the child's announcement for its own
  answer and raises KeyError, although the child is up.
\<close>

theorem start_after_timeout_is_not_ready:
  assumes "boot cl (em_state_buffer m) = Inr e" and "em_child m = None"
  shows "\<exists>m1 m2. start_simulator cl Late m = (Inl RuntimeError, m1) \<and>
           start_simulator cl t m1 = (Inr (), m1) \<and> call cl name q None t' m1 = (Inl KeyError, m2)"
  using assms
  by (auto simp: start_simulator_def call_def reading_def bnd_def lift_res_def upd_def alive_def require_def
      put_command_def next_reply_def Let_def reply_data_def)

section \<open>A run\<close>

definition counter_class :: "(nat, nat, nat) env_class" where
  "counter_class =
     \<lparr>cl_create = Inr 0, cl_method = \<lambda>name q e. if name = ''reset'' then (Inr e, e + q) else (Inr e, e),
      cl_setattr = \<lambda>name a e. Inr a, cl_load_state = \<lambda>a e. Inr a, cl_truthy = \<lambda>a. a \<noteq> 0,
      cl_no_args = 0, cl_none = 0\<rparr>"

definition counter_at :: "nat \<Rightarrow> (nat, nat, nat) manager" where
  "counter_at e = new_manager\<lparr>em_child := Some (Some e)\<rparr>"

theorem late_reply_answers_the_next_call_witness:
  "\<exists>m1 m2. call counter_class ''reset'' 3 (Some 240) Late (counter_at 5) = (Inl TimeoutError, m1) \<and>
     call counter_class ''get_state'' 0 None Responds m1 = (Inr 5, m2)"
  by (rule late_reply_answers_the_next_call [where e = 5 and e' = 8])
    (simp_all add: counter_at_def new_manager_def counter_class_def)

theorem start_after_timeout_is_not_ready_witness:
  "\<exists>m1 m2. start_simulator counter_class Late new_manager = (Inl RuntimeError, m1) \<and>
     start_simulator counter_class Responds m1 = (Inr (), m1) \<and> call counter_class ''reset'' 3 None Responds m1 = (Inl KeyError, m2)"
  by (rule start_after_timeout_is_not_ready [where e = 0]) (simp_all add: boot_def counter_class_def new_manager_def)

end
