(* ===== verification/Env_Worker.thy ===== *)
theory Env_Worker
  imports Env_Manager Base_Env
begin

text \<open>
  workers/env/env_worker.py: one worker with a simulator manager per pipeline stage. It selects the
  simulators of a mode, resets all stages, steps one stage, and restarts simulators. The environment
  class of stage \<open>i\<close> is \<open>cls i\<close> (its configuration is bound when the manager is built). The
  stages of a reset run concurrently on separate managers, so each has its own outcome.
  Start-up staggering, profiling, durations and the merging of recorded datasets are left out.
\<close>

section \<open>The worker\<close>

record ('e, 'q, 'a) env_worker =
  ew_simulators :: "('e, 'q, 'a) manager list"
  ew_eval_simulators :: "('e, 'q, 'a) manager list"

record robodojo_settings =
  rb_reset_rpc_timeout_s :: rat
  rb_reset_process_max_restarts :: nat
  rb_parallel_restart_stages :: bool

record worker_config =
  wc_simulator_type :: string
  wc_stage_num :: nat
  wc_num_envs :: nat
  wc_modes :: "string list"
  wc_robodojo :: "robodojo_settings option"

definition shared_simulator_types :: "string list" where
  "shared_simulator_types = [''arena'', ''isaac'', ''lerobot'', ''piper'', ''robodojo'']"

text \<open>Whether the evaluation simulators are the ones to use.\<close>

definition uses_eval_simulators :: "worker_config \<Rightarrow> string \<Rightarrow> ('e, 'q, 'a) env_worker \<Rightarrow> bool result" where
  "uses_eval_simulators cfg mode w =
     (if mode = ''eval'' then
        (if ew_eval_simulators w \<noteq> [] then Inr True
         else if wc_simulator_type cfg \<in> set shared_simulator_types \<and> ew_simulators w \<noteq> [] then Inr False
         else Inl RuntimeError)
      else Inr False)"

definition simulators :: "bool \<Rightarrow> ('e, 'q, 'a) env_worker \<Rightarrow> ('e, 'q, 'a) manager list" where
  "simulators eval_list w = (if eval_list then ew_eval_simulators w else ew_simulators w)"

definition put_simulators ::
  "bool \<Rightarrow> ('e, 'q, 'a) manager list \<Rightarrow> ('e, 'q, 'a) env_worker \<Rightarrow> ('e, 'q, 'a) env_worker" where
  "put_simulators eval_list ms w = (if eval_list then w\<lparr>ew_eval_simulators := ms\<rparr> else w\<lparr>ew_simulators := ms\<rparr>)"

section \<open>Start-up\<close>

text \<open>Managers are created for every stage, then started one after the other.\<close>

fun start_simulators ::
  "(nat \<Rightarrow> ('e, 'q, 'a) env_class) \<Rightarrow> nat \<Rightarrow> timing list \<Rightarrow> ('e, 'q, 'a) manager list \<Rightarrow>
   unit result \<times> ('e, 'q, 'a) manager list" where
  "start_simulators cls i ts [] = (Inr (), [])"
| "start_simulators cls i [] (m # ms) = (Inr (), m # ms)"
| "start_simulators cls i (t # ts) (m # ms) =
     (case start_simulator (cls i) t m of
        (Inl e, m') \<Rightarrow> (Inl e, m' # ms)
      | (Inr _, m') \<Rightarrow> (case start_simulators cls (Suc i) ts ms of (r, ms') \<Rightarrow> (r, m' # ms')))"

definition init_worker ::
  "worker_config \<Rightarrow> (nat \<Rightarrow> ('e, 'q, 'a) env_class) \<Rightarrow> (nat \<Rightarrow> ('e, 'q, 'a) env_class) \<Rightarrow> timing list \<Rightarrow> timing list \<Rightarrow>
   unit result \<times> ('e, 'q, 'a) env_worker" where
  "init_worker cfg cls eval_cls ts eval_ts =
     (let modes = set (wc_modes cfg); fresh = replicate (wc_stage_num cfg) new_manager;
          none = \<lparr>ew_simulators = [], ew_eval_simulators = []\<rparr>
      in if wc_simulator_type cfg = ''libero'' then
           if \<not> modes \<subseteq> {''train'', ''eval''} then (Inl ValueError, none)
           else
             (case start_simulators cls 0 ts (if ''train'' \<in> modes then fresh else []) of
                (Inl e, ms) \<Rightarrow> (Inl e, \<lparr>ew_simulators = ms, ew_eval_simulators = (if ''eval'' \<in> modes then fresh else [])\<rparr>)
              | (Inr _, ms) \<Rightarrow>
                  (case start_simulators eval_cls 0 eval_ts (if ''eval'' \<in> modes then fresh else []) of
                     (r, es) \<Rightarrow> (r, \<lparr>ew_simulators = ms, ew_eval_simulators = es\<rparr>)))
         else if wc_simulator_type cfg \<in> set shared_simulator_types then
           (case start_simulators cls 0 ts fresh of (r, ms) \<Rightarrow> (r, none\<lparr>ew_simulators := ms\<rparr>))
         else (Inl NotImplementedError, none))"

section \<open>Reset\<close>

definition reset_stage ::
  "worker_config \<Rightarrow> ('e, 'q, 'a) env_class \<Rightarrow> 'q \<Rightarrow> (nat \<Rightarrow> attempt) \<Rightarrow> ('e, 'q, 'a, 'a \<times> nat) em_stm" where
  "reset_stage cfg cl options sched =
     (case wc_robodojo cfg of
        None \<Rightarrow> bnd (call cl ''reset'' options None (at_reset (sched 0))) (\<lambda>a. lift_res (Inr (a, 0)))
      | Some rb \<Rightarrow>
          reset_simulator_with_recovery cl options (rb_reset_rpc_timeout_s rb) (rb_reset_process_max_restarts rb) sched)"

text \<open>\<open>result_list\<close> and the new managers. A single stage is reset without the pool, stage 0 in any case.\<close>

definition reset_stages ::
  "worker_config \<Rightarrow> (nat \<Rightarrow> ('e, 'q, 'a) env_class) \<Rightarrow> 'q \<Rightarrow> (nat \<Rightarrow> nat \<Rightarrow> attempt) \<Rightarrow> ('e, 'q, 'a) manager list \<Rightarrow>
   ('a \<times> nat) list result \<times> ('e, 'q, 'a) manager list" where
  "reset_stages cfg cls options sched ms =
     (let n = max 1 (wc_stage_num cfg);
          outs = map (\<lambda>i. reset_stage cfg (cls i) options (sched i) (ms ! i)) [0..<min n (length ms)]
      in (bind_res (traverse fst outs) (\<lambda>results. if length ms < n then Inl IndexError else Inr results),
          map snd outs @ drop n ms))"

definition identity_field :: "'o obs \<Rightarrow> string \<Rightarrow> int list" where
  "identity_field ob field = (case map_of (ob_identity ob) field of None \<Rightarrow> [] | Some v \<Rightarrow> v)"

definition joined_identity :: "'o obs list \<Rightarrow> string \<Rightarrow> (string \<times> int list) list" where
  "joined_identity obs field =
     (let vals = concat (map (\<lambda>ob. identity_field ob field) obs)
      in if vals = [] then [] else [(field, vals)])"

definition join_observations :: "'o obs list \<Rightarrow> 'o obs" where
  "join_observations obs =
     \<lparr>ob_observation = concat (map ob_observation obs), ob_task = concat (map ob_task obs),
      ob_task_id = concat (map ob_task_id obs),
      ob_identity = concat (map (joined_identity obs) [''eval_episode_id'', ''layout_id'', ''environment_seed'', ''policy_seed''])\<rparr>"

text \<open>The observations of all stages in stage order, with \<open>profile.reset_process_restarts\<close> for each row.\<close>

definition reset_env ::
  "worker_config \<Rightarrow> (nat \<Rightarrow> ('e, 'q, 'a) env_class) \<Rightarrow> ('a \<Rightarrow> 'o obs result) \<Rightarrow> string \<Rightarrow> 'q \<Rightarrow> (nat \<Rightarrow> nat \<Rightarrow> attempt) \<Rightarrow>
   ('e, 'q, 'a) env_worker \<Rightarrow> ('o obs \<times> nat list) result \<times> ('e, 'q, 'a) env_worker" where
  "reset_env cfg cls read_obs mode options sched w =
     (case uses_eval_simulators cfg mode w of
        Inl e \<Rightarrow> (Inl e, w)
      | Inr ev \<Rightarrow>
          (case reset_stages cfg cls options sched (simulators ev w) of
             (r, ms) \<Rightarrow>
               (bind_res r (\<lambda>results.
                bind_res (traverse (\<lambda>(a, k). read_obs a) results) (\<lambda>obs.
                  Inr (join_observations obs,
                       concat (map2 (\<lambda>ob (a, k). replicate (length (ob_observation ob)) k) obs results)))),
                put_simulators ev ms w)))"

section \<open>Stepping and restarting\<close>

definition worker_interact_step ::
  "worker_config \<Rightarrow> (nat \<Rightarrow> ('e, 'q, 'a) env_class) \<Rightarrow> string \<Rightarrow> nat \<Rightarrow> 'q \<Rightarrow> timing \<Rightarrow> ('e, 'q, 'a) env_worker \<Rightarrow>
   'a result \<times> ('e, 'q, 'a) env_worker" where
  "worker_interact_step cfg cls mode stage_id actions t w =
     (case uses_eval_simulators cfg mode w of
        Inl e \<Rightarrow> (Inl e, w)
      | Inr ev \<Rightarrow>
          let ms = simulators ev w in
          if length ms \<le> stage_id then (Inl IndexError, w)
          else (case call (cls stage_id) ''step'' actions None t (ms ! stage_id) of
                  (r, m') \<Rightarrow> (r, put_simulators ev (ms[stage_id := m']) w)))"

definition restart_simulators ::
  "worker_config \<Rightarrow> string \<Rightarrow> (('e, 'q, 'a) env_class \<times> timing \<times> timing) list \<Rightarrow> ('e, 'q, 'a) env_worker \<Rightarrow>
   unit result \<times> ('e, 'q, 'a) env_worker" where
  "restart_simulators cfg mode ts w =
     (case uses_eval_simulators cfg mode w of
        Inl e \<Rightarrow> (Inl e, w)
      | Inr ev \<Rightarrow>
          (case (if (case wc_robodojo cfg of Some rb \<Rightarrow> rb_parallel_restart_stages rb | None \<Rightarrow> False)
                 then restart_with_parallel_start ts (simulators ev w)
                 else restart_one_by_one ts (simulators ev w)) of
             (r, ms) \<Rightarrow> (r, put_simulators ev ms w)))"

end
