(* ===== verification/Robodojo_Cases.thy ===== *)
theory Robodojo_Cases
  imports Stateful
begin

text \<open>
  envs/robodojo/config.py and the case schedule of envs/robodojo/robodojo_env.py: the checks of
  the simulator configuration, the task each worker-stage process owns, and the deterministic
  stream of (layout, policy seed, case id) triples every process draws its reset waves from,
  with the cursors \<open>get_state\<close> saves and \<open>load_state\<close> restores. Numpy integers are \<open>int\<close>.
\<close>

section \<open>Python sequences\<close>

text \<open>\<open>xs[i]\<close>: a negative index counts from the end, anything else out of range raises.\<close>

definition py_at :: "'a list \<Rightarrow> int \<Rightarrow> 'a result" where
  "py_at xs i =
     (if 0 \<le> i \<and> i < int (length xs) then Inr (xs ! nat i)
      else if i < 0 \<and> - int (length xs) \<le> i then Inr (xs ! nat (int (length xs) + i))
      else Inl IndexError)"

definition py_mod :: "int \<Rightarrow> int \<Rightarrow> int result" where
  "py_mod i n = (if n = 0 then Inl ZeroDivisionError else Inr (i mod n))"

fun py_index :: "'a list \<Rightarrow> 'a \<Rightarrow> nat result" where
  "py_index [] y = Inl ValueError"
| "py_index (x # xs) y =
     (if x = y then Inr 0 else bind_res (py_index xs y) (\<lambda>k. Inr (Suc k)))"

text \<open>\<open>xs or ys\<close> on lists\<close>

definition or_else :: "'a list \<Rightarrow> 'a list \<Rightarrow> 'a list" where
  "or_else xs ys = (if xs = [] then ys else xs)"

section \<open>The simulator configuration\<close>

record robodojo_config =
  rd_root :: string
  rd_task_name :: string
  rd_task_names :: "string list"
  rd_task_id :: int
  rd_worker_stage_task_schedule :: "string list"
  rd_action_type :: string
  rd_layout_ids :: "int list"
  rd_train_layout_schedule :: "int list"
  rd_train_policy_seed_schedule :: "int list"
  rd_train_layout_repeat :: int
  rd_train_policy_seed_start :: "int option"
  rd_train_case_cursor_start :: int
  rd_eval_policy_seed_schedule :: "int list"
  rd_allow_held_out_eval_layouts :: bool
  rd_seed :: int
  rd_reset_max_attempts :: int
  rd_reset_rpc_timeout_s :: rat
  rd_reset_process_max_restarts :: int
  rd_restart_every_rollouts :: int
  rd_parallel_restart_stages :: bool
  rd_defer_chunk_observations :: bool

definition HELD_OUT :: "int list" where
  "HELD_OUT = [6, 7, 8, 9]"

definition valid_task_name :: "string \<Rightarrow> bool" where
  "valid_task_name t \<longleftrightarrow>
     t \<noteq> [] \<and> list_all (\<lambda>c. c \<noteq> CHR ''/'' \<and> c \<noteq> CHR 0x5C \<and> c \<noteq> CHR ''.'') t"

definition robodojo_post_init :: "robodojo_config \<Rightarrow> unit result" where
  "robodojo_post_init c =
     (let ok = (\<lambda>b. require b ValueError) in
      bind_res (ok (rd_root c \<noteq> [])) (\<lambda>_.
      bind_res (ok (list_all valid_task_name [rd_task_name c])) (\<lambda>_.
      bind_res (ok (list_all valid_task_name (rd_task_names c))) (\<lambda>_.
      bind_res (ok (list_all valid_task_name (rd_worker_stage_task_schedule c))) (\<lambda>_.
      bind_res (ok (distinct (rd_task_names c))) (\<lambda>_.
      bind_res (ok (rd_task_names c = [] \<or> rd_task_name c \<in> set (rd_task_names c))) (\<lambda>_.
      bind_res (ok (list_all (\<lambda>t. t \<in> set (rd_task_names c)) (rd_worker_stage_task_schedule c))) (\<lambda>_.
      bind_res (ok (0 \<le> rd_task_id c)) (\<lambda>_.
      bind_res (ok (rd_action_type c = ''joint'')) (\<lambda>_.
      bind_res (ok (rd_layout_ids c \<noteq> [])) (\<lambda>_.
      bind_res (ok (list_all (\<lambda>l. l \<notin> set HELD_OUT) (rd_train_layout_schedule c))) (\<lambda>_.
      bind_res (ok (list_all (\<lambda>l. l \<notin> set HELD_OUT) (rd_layout_ids c)
                    \<or> rd_allow_held_out_eval_layouts c)) (\<lambda>_.
      bind_res (ok (rd_train_policy_seed_schedule c = []
                    \<or> length (rd_train_policy_seed_schedule c) = length (rd_train_layout_schedule c))) (\<lambda>_.
      bind_res (ok (0 < rd_train_layout_repeat c)) (\<lambda>_.
      bind_res (ok (rd_train_layout_repeat c = 1 \<or> rd_train_policy_seed_schedule c = [])) (\<lambda>_.
      bind_res (ok (rd_train_policy_seed_start c = None \<or> rd_train_policy_seed_schedule c = [])) (\<lambda>_.
      bind_res (ok (0 \<le> rd_train_case_cursor_start c)) (\<lambda>_.
      bind_res (ok (rd_eval_policy_seed_schedule c = []
                    \<or> length (rd_eval_policy_seed_schedule c) = length (rd_layout_ids c))) (\<lambda>_.
      bind_res (ok (1 \<le> rd_reset_max_attempts c)) (\<lambda>_.
      bind_res (ok (0 < rd_reset_rpc_timeout_s c)) (\<lambda>_.
      bind_res (ok (0 \<le> rd_reset_process_max_restarts c)) (\<lambda>_.
        ok (1 \<le> rd_restart_every_rollouts c)))))))))))))))))))))))"

definition task_assignment ::
  "robodojo_config \<Rightarrow> int \<Rightarrow> int \<Rightarrow> int \<Rightarrow> int \<Rightarrow> (string \<times> int) result" where
  "task_assignment c worker_rank worker_world_size stage_id stage_num =
     (if \<not> (0 \<le> worker_rank \<and> worker_rank < worker_world_size) then Inl ValueError
      else if \<not> (0 \<le> stage_id \<and> stage_id < stage_num) then Inl ValueError
      else if rd_worker_stage_task_schedule c = [] then Inr (rd_task_name c, rd_task_id c)
      else if int (length (rd_worker_stage_task_schedule c)) \<noteq> worker_world_size * stage_num
        then Inl ValueError
      else
        bind_res (py_at (rd_worker_stage_task_schedule c) (stage_id * worker_world_size + worker_rank)) (\<lambda>t.
        bind_res (py_index (rd_task_names c) t) (\<lambda>k. Inr (t, int k))))"

section \<open>The case stream\<close>

text \<open>One simulator process: which slots of the logical batch it fills.\<close>

record env_slot =
  sl_rank :: int
  sl_world_size :: int
  sl_stage_id :: int
  sl_stage_num :: int
  sl_num_envs :: int

record case_state =
  cs_train_case_cursor :: int
  cs_eval_case_cursor :: int
  cs_runtime_eval_layout_ids :: "int list option"
  cs_runtime_eval_policy_seeds :: "int list option"

definition new_cases :: "robodojo_config \<Rightarrow> case_state" where
  "new_cases c =
     \<lparr>cs_train_case_cursor = rd_train_case_cursor_start c, cs_eval_case_cursor = 0,
      cs_runtime_eval_layout_ids = None, cs_runtime_eval_policy_seeds = None\<rparr>"

type_synonym cases = "int list \<times> int list \<times> int list"

definition absolute_indices :: "env_slot \<Rightarrow> int \<Rightarrow> int list result" where
  "absolute_indices sl cursor =
     (if sl_num_envs sl = 0 then Inl ZeroDivisionError
      else
        let reset_wave = cursor div sl_num_envs sl;
            parallel_width = sl_world_size sl * sl_stage_num sl * sl_num_envs sl;
            local_offset = (sl_stage_id sl * sl_world_size sl + sl_rank sl) * sl_num_envs sl
        in Inr (map (\<lambda>k. reset_wave * parallel_width + local_offset + k) [0..sl_num_envs sl - 1]))"

definition eval_tables :: "robodojo_config \<Rightarrow> case_state \<Rightarrow> int list \<times> int list" where
  "eval_tables c s =
     (let layouts = (case cs_runtime_eval_layout_ids s of Some ls \<Rightarrow> ls | None \<Rightarrow> rd_layout_ids c);
          seeds = (case cs_runtime_eval_policy_seeds s of Some ss \<Rightarrow> ss
                   | None \<Rightarrow> rd_eval_policy_seed_schedule c)
      in (layouts, or_else seeds (replicate (length layouts) (rd_seed c))))"

definition train_tables :: "robodojo_config \<Rightarrow> int list \<times> int list" where
  "train_tables c =
     (let layouts = or_else (rd_train_layout_schedule c) (rd_layout_ids c)
      in (layouts, or_else (rd_train_policy_seed_schedule c) (replicate (length layouts) (rd_seed c))))"

definition pick_cases :: "int list \<Rightarrow> int list \<Rightarrow> int list \<Rightarrow> cases result" where
  "pick_cases layouts seeds indices =
     bind_res (traverse (py_at layouts) indices) (\<lambda>ls.
     bind_res (traverse (py_at seeds) indices) (\<lambda>ss. Inr (ls, ss, indices)))"

definition next_eval_cases :: "robodojo_config \<Rightarrow> env_slot \<Rightarrow> (case_state, cases) stm" where
  "next_eval_cases c sl = reading (\<lambda>s.
     let (layouts, seeds) = eval_tables c s; cursor = cs_eval_case_cursor s in
     bnd (lift_res (absolute_indices sl cursor)) (\<lambda>absolute.
     bnd (lift_res (traverse (\<lambda>i. py_mod i (int (length layouts))) absolute)) (\<lambda>indices.
     bnd (upd (\<lambda>s. s\<lparr>cs_eval_case_cursor := cursor + sl_num_envs sl\<rparr>)) (\<lambda>_.
       lift_res (pick_cases layouts seeds indices)))))"

text \<open>Repeated layouts: every process maps its wave into one global stream of seeds.\<close>

definition next_repeated_cases :: "robodojo_config \<Rightarrow> env_slot \<Rightarrow> (case_state, cases) stm" where
  "next_repeated_cases c sl = reading (\<lambda>s.
     let layouts = fst (train_tables c); cursor = cs_train_case_cursor s; repeat = rd_train_layout_repeat c;
         seed_start = (case rd_train_policy_seed_start c of Some n \<Rightarrow> n | None \<Rightarrow> rd_seed c) in
     bnd (lift_res (absolute_indices sl cursor)) (\<lambda>absolute.
     bnd (lift_res (traverse (\<lambda>i. py_mod i (int (length layouts) * repeat)) absolute)) (\<lambda>expanded.
     bnd (lift_res (traverse (\<lambda>i. py_at layouts (i div repeat)) expanded)) (\<lambda>selected.
     bnd (upd (\<lambda>s. s\<lparr>cs_train_case_cursor := cursor + sl_num_envs sl\<rparr>)) (\<lambda>_.
       lift_res (Inr (selected, map (\<lambda>i. seed_start + i) absolute, expanded)))))))"

definition next_rotating_cases :: "robodojo_config \<Rightarrow> env_slot \<Rightarrow> (case_state, cases) stm" where
  "next_rotating_cases c sl = reading (\<lambda>s.
     let (layouts, seeds) = train_tables c; cursor = cs_train_case_cursor s; n = int (length layouts) in
     bnd (lift_res (traverse (\<lambda>k. py_mod (cursor + k) n) [0..sl_num_envs sl - 1])) (\<lambda>indices.
     bnd (lift_res (py_mod (cursor + sl_num_envs sl) n)) (\<lambda>cursor'.
     bnd (upd (\<lambda>s. s\<lparr>cs_train_case_cursor := cursor'\<rparr>)) (\<lambda>_.
       lift_res (pick_cases layouts seeds indices)))))"

datatype mode = Train | Eval

definition next_cases :: "robodojo_config \<Rightarrow> env_slot \<Rightarrow> mode \<Rightarrow> (case_state, cases) stm" where
  "next_cases c sl m =
     (if m = Eval then next_eval_cases c sl
      else if rd_train_layout_repeat c \<noteq> 1 \<or> rd_train_policy_seed_start c \<noteq> None
        then next_repeated_cases c sl
      else next_rotating_cases c sl)"

definition set_runtime_eval_cases :: "env_slot \<Rightarrow> int list \<Rightarrow> int list \<Rightarrow> (case_state, unit) stm" where
  "set_runtime_eval_cases sl layout_ids policy_seeds =
     (if int (length layout_ids) \<noteq> sl_num_envs sl \<or> int (length policy_seeds) \<noteq> sl_num_envs sl
      then lift_res (Inl ValueError)
      else upd (\<lambda>s. s\<lparr>cs_runtime_eval_layout_ids := Some layout_ids,
                      cs_runtime_eval_policy_seeds := Some policy_seeds, cs_eval_case_cursor := 0\<rparr>))"

section \<open>State kept across a fresh process\<close>

record cursors =
  cu_train_case_cursor :: int
  cu_eval_case_cursor :: int

definition get_state :: "case_state \<Rightarrow> cursors" where
  "get_state s = \<lparr>cu_train_case_cursor = cs_train_case_cursor s, cu_eval_case_cursor = cs_eval_case_cursor s\<rparr>"

definition load_state :: "cursors \<Rightarrow> case_state \<Rightarrow> case_state" where
  "load_state st s =
     s\<lparr>cs_train_case_cursor := cu_train_case_cursor st, cs_eval_case_cursor := cu_eval_case_cursor st\<rparr>"

end
