(* ===== verification/Robodojo_Env.thy ===== *)
theory Robodojo_Env
  imports Robodojo_Cases Base_Env
begin

text \<open>
  envs/robodojo/robodojo_env.py: the RoboDojo vector simulator as an implementation of the hooks
  of the vector environment. The native backend and the pixel and joint conversions around it
  are the record \<open>backend\<close> over a state \<open>'b\<close>; a raw observation is its dictionary of instruction
  fields with a payload \<open>'r\<close>. The backend's loader, the application launcher and the
  recorder-only \<open>extra\<close> rows are left out.
\<close>

section \<open>The backend\<close>

datatype reset_reply = Reset_Done | Unstable_Scene | Reset_Raised py_error

record 'r raw_obs =
  rw_fields :: "(string \<times> json) list"
  rw_payload :: 'r

record ('r, 'o, 'b) backend =
  bk_reset :: "int list \<Rightarrow> 'b \<Rightarrow> reset_reply \<times> 'b"
  bk_unstable_envs :: "'b \<Rightarrow> int list"
  bk_episode_nums :: "'b \<Rightarrow> int option"
  bk_run_reward :: "('b, unit) stm"
  bk_get_obs_batch :: "nat list \<Rightarrow> ('b, 'r raw_obs list) stm"
  bk_take_action_batch :: "vec list \<Rightarrow> nat list \<Rightarrow> ('b, unit) stm"
  bk_end_flag :: "'b \<Rightarrow> bool list"
  bk_success :: "'b \<Rightarrow> bool list"
  bk_gated_scores :: "'b \<Rightarrow> rat list option"
  bk_canonical :: "'r \<Rightarrow> 'o result"

record 'b robo_state =
  rs_cases :: case_state
  rs_backend :: 'b
  rs_episode_ids :: "int list"
  rs_layout_ids :: "int list"
  rs_policy_seeds :: "int list"
  rs_deferred_steps :: nat
  rs_captures :: nat

definition new_robodojo :: "robodojo_config \<Rightarrow> nat \<Rightarrow> 'b \<Rightarrow> 'b robo_state" where
  "new_robodojo c n b =
     \<lparr>rs_cases = new_cases c, rs_backend = b, rs_episode_ids = replicate n (- 1),
      rs_layout_ids = replicate n (- 1), rs_policy_seeds = replicate n (rd_seed c),
      rs_deferred_steps = 0, rs_captures = 0\<rparr>"

definition check_deferral :: "robodojo_config \<Rightarrow> string \<Rightarrow> bool \<Rightarrow> bool \<Rightarrow> bool \<Rightarrow> unit result" where
  "check_deferral c execution_mode auto_reset teleops recorder =
     (if \<not> rd_defer_chunk_observations c then Inr ()
      else bind_res (require (execution_mode = ''serial'') ValueError) (\<lambda>_.
           bind_res (require (\<not> auto_reset) ValueError) (\<lambda>_.
           bind_res (require (\<not> teleops) ValueError) (\<lambda>_. require (\<not> recorder) ValueError))))"

definition on_cases :: "(case_state, 'a) stm \<Rightarrow> ('b robo_state, 'a) stm" where
  "on_cases m s = (case m (rs_cases s) of (r, cs) \<Rightarrow> (r, s\<lparr>rs_cases := cs\<rparr>))"

definition on_backend :: "('b, 'a) stm \<Rightarrow> ('b robo_state, 'a) stm" where
  "on_backend m s = (case m (rs_backend s) of (r, b) \<Rightarrow> (r, s\<lparr>rs_backend := b\<rparr>))"

section \<open>Reset\<close>

definition run_progress :: "('b, unit) stm option \<Rightarrow> ('b, unit) stm" where
  "run_progress progress = (case progress of None \<Rightarrow> lift_res (Inr ()) | Some call \<Rightarrow> call)"

definition whole_vector_ready :: "('r, 'o, 'b) backend \<Rightarrow> nat \<Rightarrow> 'b \<Rightarrow> bool" where
  "whole_vector_ready bk n b \<longleftrightarrow>
     bk_unstable_envs bk b = [] \<and>
     (case bk_episode_nums bk b of None \<Rightarrow> True | Some k \<Rightarrow> k = int n)"

fun reset_attempts ::
  "('r, 'o, 'b) backend \<Rightarrow> ('b, unit) stm option \<Rightarrow> nat \<Rightarrow> int list \<Rightarrow> nat \<Rightarrow> ('b, unit) stm" where
  "reset_attempts bk progress n layouts 0 = lift_res (Inl RuntimeError)"
| "reset_attempts bk progress n layouts (Suc attempts) =
     bnd (run_progress progress) (\<lambda>_. \<lambda>b.
       (case bk_reset bk layouts b of
          (Reset_Raised e, b') \<Rightarrow> (Inl e, b')
        | (Unstable_Scene, b') \<Rightarrow>
            bnd (run_progress progress) (\<lambda>_. reset_attempts bk progress n layouts attempts) b'
        | (Reset_Done, b') \<Rightarrow>
            if whole_vector_ready bk n b' then run_progress progress b'
            else bnd (run_progress progress) (\<lambda>_. reset_attempts bk progress n layouts attempts) b'))"

definition reset_backend_stably ::
  "robodojo_config \<Rightarrow> ('r, 'o, 'b) backend \<Rightarrow> ('b, unit) stm option \<Rightarrow> nat \<Rightarrow> int list \<Rightarrow> ('b, unit) stm" where
  "reset_backend_stably c bk progress n layouts =
     reset_attempts bk progress n layouts (nat (rd_reset_max_attempts c))"

section \<open>Observations\<close>

definition py_strip :: "string \<Rightarrow> string" where
  "py_strip s =
     (let blank = (\<lambda>c. let n = (of_char c :: nat) in (9 \<le> n \<and> n \<le> 13) \<or> (28 \<le> n \<and> n \<le> 32))
      in rev (dropWhile blank (rev (dropWhile blank s))))"

text \<open>The first of the three keys that is present; a list stands for its first element.\<close>

definition instruction_value :: "(string \<times> json) list \<Rightarrow> json" where
  "instruction_value d =
     (case map_of d ''task_instruction'' of Some v \<Rightarrow> v
      | None \<Rightarrow> (case map_of d ''instruction'' of Some v \<Rightarrow> v
      | None \<Rightarrow> (case map_of d ''instructions'' of Some v \<Rightarrow> v | None \<Rightarrow> JNull)))"

definition first_of_list :: "json \<Rightarrow> json" where
  "first_of_list v = (case v of JList [] \<Rightarrow> JStr [] | JList (x # xs) \<Rightarrow> x | _ \<Rightarrow> v)"

text \<open>\<open>str(value or "")\<close> for text; the rendering of other values is the argument \<open>show\<close>.\<close>

definition instruction :: "(json \<Rightarrow> string) \<Rightarrow> (string \<times> json) list \<Rightarrow> string result" where
  "instruction render d =
     (let text = (case first_of_list (instruction_value d) of
                    JStr s \<Rightarrow> s | JNull \<Rightarrow> [] | v \<Rightarrow> render v);
          value = py_strip text
      in if value = [] then Inl RuntimeError else Inr value)"

definition np_take :: "nat list \<Rightarrow> 'a list \<Rightarrow> 'a list result" where
  "np_take ids xs = gather ids xs"

definition observations ::
  "robodojo_config \<Rightarrow> ('r, 'o, 'b) backend \<Rightarrow> (json \<Rightarrow> string) \<Rightarrow> nat list \<Rightarrow> ('b robo_state, 'o obs) stm" where
  "observations c bk render ids =
     bnd (on_backend (bk_get_obs_batch bk ids)) (\<lambda>rows.
     bnd (lift_res (traverse (\<lambda>r. bk_canonical bk (rw_payload r)) rows)) (\<lambda>obs.
     bnd (lift_res (traverse (\<lambda>r. instruction render (rw_fields r)) rows)) (\<lambda>tasks.
     reading (\<lambda>s.
       bnd (lift_res (np_take ids (rs_episode_ids s))) (\<lambda>episodes.
       bnd (lift_res (np_take ids (rs_layout_ids s))) (\<lambda>layouts.
       bnd (lift_res (np_take ids (rs_policy_seeds s))) (\<lambda>seeds.
         lift_res (Inr
           \<lparr>ob_observation = obs, ob_task = tasks, ob_task_id = replicate (length ids) (rd_task_id c),
            ob_identity =
              [(''suite_id'', replicate (length ids) (rd_seed c)), (''eval_episode_id'', episodes),
               (''layout_id'', layouts), (''environment_seed'', layouts), (''policy_seed'', seeds)]\<rparr>))))))))"

text \<open>\<open>arr[:] = values\<close>: the lengths must agree, as a single value is never assigned here.\<close>

definition assign_all :: "int list \<Rightarrow> int list \<Rightarrow> int list result" where
  "assign_all old vals = (if length vals = length old then Inr vals else Inl ValueError)"

definition note_cases :: "cases \<Rightarrow> ('b robo_state, unit) stm" where
  "note_cases cs = (case cs of (layouts, seeds, ids) \<Rightarrow> reading (\<lambda>s.
     bnd (lift_res (assign_all (rs_episode_ids s) ids)) (\<lambda>e.
     bnd (upd (\<lambda>s. s\<lparr>rs_episode_ids := e\<rparr>)) (\<lambda>_.
     bnd (lift_res (assign_all (rs_layout_ids s) layouts)) (\<lambda>l.
     bnd (upd (\<lambda>s. s\<lparr>rs_layout_ids := l\<rparr>)) (\<lambda>_.
     bnd (lift_res (assign_all (rs_policy_seeds s) seeds)) (\<lambda>p.
       upd (\<lambda>s. s\<lparr>rs_policy_seeds := p\<rparr>))))))))"

record 'b reset_extra =
  rx_mode :: "string option"
  rx_progress :: "('b, unit) stm option"

definition reset_mode :: "bool \<Rightarrow> string option \<Rightarrow> mode result" where
  "reset_mode reset_eval m =
     (let text = (case m of Some t \<Rightarrow> t | None \<Rightarrow> if reset_eval then ''eval'' else ''train'')
      in if text = ''eval'' then Inr Eval else if text = ''train'' then Inr Train else Inl ValueError)"

definition env_reset ::
  "robodojo_config \<Rightarrow> env_slot \<Rightarrow> ('r, 'o, 'b) backend \<Rightarrow> (json \<Rightarrow> string) \<Rightarrow> 'b reset_extra \<Rightarrow>
   nat list \<Rightarrow> bool \<Rightarrow> ('b robo_state, 'o obs) stm" where
  "env_reset c sl bk render extra ids reset_eval =
     bnd (lift_res (reset_mode reset_eval (rx_mode extra))) (\<lambda>m.
     let n = nat (sl_num_envs sl) in
     bnd (lift_res (require (ids = [0..<n]) NotImplementedError)) (\<lambda>_.
     bnd (if reset_eval then on_cases (upd (\<lambda>s. s\<lparr>cs_eval_case_cursor := 0\<rparr>)) else lift_res (Inr ())) (\<lambda>_.
     bnd (on_cases (next_cases c sl m)) (\<lambda>cs.
     bnd (on_backend (reset_backend_stably c bk (rx_progress extra) n (fst cs))) (\<lambda>_.
     bnd (on_backend (bk_run_reward bk)) (\<lambda>_.
     bnd (note_cases cs) (\<lambda>_. observations c bk render [0..<n])))))))"

section \<open>Stepping\<close>

definition ACTION_DIM :: nat where
  "ACTION_DIM = 14"

definition process_scores :: "bool list \<Rightarrow> rat list \<Rightarrow> rat list" where
  "process_scores success gated = map2 (\<lambda>ok q. if ok then 1 else q / 100) success gated"

definition step_observation ::
  "robodojo_config \<Rightarrow> ('r, 'o, 'b) backend \<Rightarrow> (json \<Rightarrow> string) \<Rightarrow> 'o obs result \<Rightarrow> nat list \<Rightarrow>
   ('b robo_state, 'o obs) stm" where
  "step_observation c bk render latest ids =
     (if rd_defer_chunk_observations c then
        bnd (lift_res latest) (\<lambda>obs.
        bnd (upd (\<lambda>s. s\<lparr>rs_deferred_steps := rs_deferred_steps s + length ids\<rparr>)) (\<lambda>_. lift_res (Inr obs)))
      else observations c bk render ids)"

definition env_step ::
  "robodojo_config \<Rightarrow> ('r, 'o, 'b) backend \<Rightarrow> (json \<Rightarrow> string) \<Rightarrow> 'o obs result \<Rightarrow> vec list \<Rightarrow> nat list \<Rightarrow>
   ('b robo_state, 'o step_result) stm" where
  "env_step c bk render latest action ids =
     bnd (lift_res (require (length action = length ids \<and> list_all (\<lambda>a. length a = ACTION_DIM) action)
                      ValueError)) (\<lambda>_.
     bnd (on_backend (bk_take_action_batch bk action ids)) (\<lambda>_.
     bnd (step_observation c bk render latest ids) (\<lambda>obs.
     reading (\<lambda>s.
       bnd (lift_res (gather ids (bk_end_flag bk (rs_backend s)))) (\<lambda>ended.
       bnd (lift_res (gather ids (bk_success bk (rs_backend s)))) (\<lambda>flags.
         let success = m_and ended flags in
         bnd (lift_res (case bk_gated_scores bk (rs_backend s) of
                          None \<Rightarrow> Inr None
                        | Some gated \<Rightarrow>
                            bind_res (gather ids gated) (\<lambda>q. Inr (Some (process_scores success q))))) (\<lambda>score.
         lift_res (Inr
           \<lparr>ob_observation = ob_observation obs, ob_task = ob_task obs, ob_task_id = ob_task_id obs,
            ob_identity = ob_identity obs,
            sr_reward = map (\<lambda>b. if b then 1 else 0) success,
            sr_terminated = success,
            sr_truncated = m_and ended (m_not success),
            sr_success = success,
            sr_score = score\<rparr>))))))))"

section \<open>The observation at a chunk's end\<close>

fun merge_fresh_identity ::
  "nat list \<Rightarrow> (string \<times> int list) list \<Rightarrow> (string \<times> int list) list \<Rightarrow> (string \<times> int list) list result" where
  "merge_fresh_identity ids fresh [] = Inr []"
| "merge_fresh_identity ids fresh ((f, vals) # rest) =
     bind_res (if f \<in> set EPISODE_IDENTITY_FIELDS
               then (case map_of fresh f of None \<Rightarrow> Inr vals | Some new \<Rightarrow> scatter ids new vals)
               else Inr vals) (\<lambda>vals'.
     bind_res (merge_fresh_identity ids fresh rest) (\<lambda>rest'. Inr ((f, vals') # rest')))"

definition finalize_execution_observation ::
  "robodojo_config \<Rightarrow> ('r, 'o, 'b) backend \<Rightarrow> (json \<Rightarrow> string) \<Rightarrow> 'o step_result \<Rightarrow> nat list \<Rightarrow>
   ('b robo_state, 'o step_result) stm" where
  "finalize_execution_observation c bk render merged ids =
     (if \<not> rd_defer_chunk_observations c then lift_res (Inr merged)
      else
        bnd (observations c bk render ids) (\<lambda>fresh.
        bnd (lift_res
               (bind_res (scatter ids (ob_observation fresh) (ob_observation merged)) (\<lambda>o'.
                bind_res (scatter ids (ob_task fresh) (ob_task merged)) (\<lambda>t.
                bind_res (scatter ids (ob_task_id fresh) (ob_task_id merged)) (\<lambda>i.
                bind_res (merge_fresh_identity ids (ob_identity fresh) (ob_identity merged)) (\<lambda>d.
                  Inr (merged\<lparr>ob_observation := o', ob_task := t, ob_task_id := i, ob_identity := d\<rparr>)))))))
          (\<lambda>merged'.
        bnd (upd (\<lambda>s. s\<lparr>rs_captures := rs_captures s + 1\<rparr>)) (\<lambda>_. lift_res (Inr merged')))))"

definition env_benchmark_size :: "robodojo_config \<Rightarrow> nat" where
  "env_benchmark_size c = length (rd_layout_ids c)"

text \<open>The hooks the vector environment calls, when observations are not deferred.\<close>

definition robodojo_hooks ::
  "robodojo_config \<Rightarrow> env_slot \<Rightarrow> ('r, 'o, 'b) backend \<Rightarrow> (json \<Rightarrow> string) \<Rightarrow> 'b reset_extra \<Rightarrow> ('o \<Rightarrow> vec) \<Rightarrow>
   ('o, 'b robo_state) hooks" where
  "robodojo_hooks c sl bk render extra state_of =
     \<lparr>hk_step = env_step c bk render (Inl RuntimeError),
      hk_reset = env_reset c sl bk render extra,
      hk_finalize = finalize_execution_observation c bk render,
      hk_state = state_of\<rparr>"

end
