(* ===== verification/Robodojo_Case_Properties.thy ===== *)
theory Robodojo_Case_Properties
  imports Robodojo_Cases
begin

text \<open>
  What the case stream promises: all processes of a fleet together walk one global stream in
  stage-major order, so a fixed-case evaluation meets every case once before it repeats, and
  every stage of a training wave is one condition with policy seeds of its own.
\<close>

section \<open>Lists of consecutive numbers\<close>

lemma upto_upt: "[0..int n - 1] = map int [0..<n]"
  by (rule nth_equalityI) auto

lemma concat_blocks:
  "concat (map (\<lambda>i. map (\<lambda>k. b + i * n + k) [0..<n]) [0..<m]) = [b..<b + m * n]"
proof (induction m)
  case (Suc m)
  have "map (\<lambda>k. b + m * n + k) [0..<n] = [b + m * n..<b + m * n + n]"
    by (rule nth_equalityI) simp_all
  moreover have "[b..<b + m * n] @ [b + m * n..<b + m * n + n] = [b..<b + Suc m * n]"
    using upt_add_eq_append [of b "b + m * n" n] by (simp add: ac_simps)
  ultimately show ?case using Suc.IH by simp
qed simp

lemma concat_upt_blocks: "concat (map (\<lambda>i. [b + i * n..<b + i * n + n]) [0..<m]) = [b..<b + m * n]"
proof -
  have "[b + i * n..<b + i * n + n] = map (\<lambda>k. b + i * n + k) [0..<n]" for i
    by (rule nth_equalityI) simp_all
  then show ?thesis by (simp add: concat_blocks)
qed

lemma slice_map_upt:
  assumes "a + m \<le> len"
  shows "take m (drop a (map h [b..<b + len])) = map (\<lambda>i. h (b + a + i)) [0..<m]"
  using assms by (intro nth_equalityI) (simp_all add: take_map drop_map ac_simps)

lemma traverse_Inr_map: "list_all (\<lambda>x. f x = Inr (g x)) xs \<Longrightarrow> traverse f xs = Inr (map g xs)"
  by (induction xs) auto

section \<open>One process\<close>

definition slot_at :: "nat \<Rightarrow> nat \<Rightarrow> nat \<Rightarrow> nat \<Rightarrow> nat \<Rightarrow> env_slot" where
  "slot_at world stages n r st =
     \<lparr>sl_rank = int r, sl_world_size = int world, sl_stage_id = int st, sl_stage_num = int stages,
      sl_num_envs = int n\<rparr>"

fun draws :: "robodojo_config \<Rightarrow> env_slot \<Rightarrow> mode \<Rightarrow> nat \<Rightarrow> (case_state, cases list) stm" where
  "draws c sl m 0 = lift_res (Inr [])"
| "draws c sl m (Suc k) =
     bnd (next_cases c sl m) (\<lambda>x. bnd (draws c sl m k) (\<lambda>xs. lift_res (Inr (x # xs))))"

text \<open>The slots of the global stream that a process fills in a wave.\<close>

definition wave_slots :: "nat \<Rightarrow> nat \<Rightarrow> nat \<Rightarrow> nat \<Rightarrow> nat \<Rightarrow> nat \<Rightarrow> nat list" where
  "wave_slots world stages n r st w =
     map (\<lambda>k. w * (stages * (world * n)) + (st * world + r) * n + k) [0..<n]"

lemma absolute_indices_wave:
  assumes "0 < n"
  shows "absolute_indices (slot_at world stages n r st) (int w * int n) =
           Inr (map int (wave_slots world stages n r st w))"
  using assms
  by (simp add: absolute_indices_def slot_at_def Let_def wave_slots_def upto_upt ac_simps)

lemma stage_slots:
  "concat (map (\<lambda>r. wave_slots world stages n r st w) [0..<world]) =
     [(w * stages + st) * (world * n)..<(w * stages + st) * (world * n) + world * n]"
proof -
  have "wave_slots world stages n r st w =
          map (\<lambda>k. (w * stages + st) * (world * n) + r * n + k) [0..<n]" for r
    by (simp add: wave_slots_def algebra_simps)
  then show ?thesis using concat_blocks [of "(w * stages + st) * (world * n)" n world] by simp
qed

lemma fleet_slots:
  "concat (map (\<lambda>st. concat (map (\<lambda>r. wave_slots world stages n r st w) [0..<world])) [0..<stages]) =
     [w * (stages * (world * n))..<w * (stages * (world * n)) + stages * (world * n)]"
proof -
  have "[(w * stages + st) * (world * n)..<(w * stages + st) * (world * n) + world * n] =
        [w * (stages * (world * n)) + st * (world * n)..<
           w * (stages * (world * n)) + st * (world * n) + world * n]" for st
    by (simp add: algebra_simps)
  then show ?thesis
    using concat_upt_blocks [of "w * (stages * (world * n))" "world * n" stages]
    by (simp add: stage_slots)
qed

lemma pick_cases_ok:
  assumes "list_all (\<lambda>i. i < length layouts) idx" and "length layouts \<le> length seeds"
  shows "pick_cases layouts seeds (map int idx) =
           Inr (map ((!) layouts) idx, map ((!) seeds) idx, map int idx)"
proof -
  have "traverse (py_at layouts) (map int idx) = Inr (map (\<lambda>i. layouts ! nat i) (map int idx))"
    using assms(1) by (intro traverse_Inr_map) (auto simp: list_all_iff py_at_def)
  moreover have "traverse (py_at seeds) (map int idx) = Inr (map (\<lambda>i. seeds ! nat i) (map int idx))"
    using assms by (intro traverse_Inr_map) (auto simp: list_all_iff py_at_def)
  ultimately show ?thesis by (simp add: pick_cases_def comp_def)
qed

lemma traverse_mod: "0 < L \<Longrightarrow> traverse (\<lambda>i. py_mod i (int L)) (map int xs) = Inr (map (\<lambda>i. int (i mod L)) xs)"
  by (induction xs) (auto simp: py_mod_def zmod_int)

section \<open>Evaluation\<close>

definition eval_seeds :: "robodojo_config \<Rightarrow> int list" where
  "eval_seeds c =
     or_else (rd_eval_policy_seed_schedule c) (replicate (length (rd_layout_ids c)) (rd_seed c))"

definition eval_wave :: "robodojo_config \<Rightarrow> nat list \<Rightarrow> cases" where
  "eval_wave c slots =
     (let ids = map (\<lambda>i. i mod length (rd_layout_ids c)) slots
      in (map ((!) (rd_layout_ids c)) ids, map ((!) (eval_seeds c)) ids, map int ids))"

lemma post_init_eval:
  assumes "robodojo_post_init c = Inr ()"
  shows "rd_layout_ids c \<noteq> []" and "length (eval_seeds c) = length (rd_layout_ids c)"
  using assms by (auto simp: robodojo_post_init_def Let_def res_simps eval_seeds_def or_else_def)

lemma next_eval_wave:
  assumes ok: "robodojo_post_init c = Inr ()" and n: "0 < n"
    and s: "cs_eval_case_cursor s = int w * int n" "cs_runtime_eval_layout_ids s = None"
      "cs_runtime_eval_policy_seeds s = None"
  shows "next_cases c (slot_at world stages n r st) Eval s =
           (Inr (eval_wave c (wave_slots world stages n r st w)),
            s\<lparr>cs_eval_case_cursor := int (Suc w) * int n\<rparr>)"
proof -
  let ?L = "length (rd_layout_ids c)"
  let ?ids = "map (\<lambda>i. i mod ?L) (wave_slots world stages n r st w)"
  have L: "0 < ?L" using post_init_eval(1) [OF ok] by simp
  have pick: "pick_cases (rd_layout_ids c) (eval_seeds c) (map int ?ids) =
      Inr (map ((!) (rd_layout_ids c)) ?ids, map ((!) (eval_seeds c)) ?ids, map int ?ids)"
    by (rule pick_cases_ok) (use L post_init_eval(2) [OF ok] in \<open>auto simp: list_all_iff\<close>)
  have tables: "eval_tables c s = (rd_layout_ids c, eval_seeds c)"
    using s by (simp add: eval_tables_def eval_seeds_def Let_def)
  have slots: "absolute_indices (slot_at world stages n r st) (cs_eval_case_cursor s) =
      Inr (map int (wave_slots world stages n r st w))"
    unfolding s(1) by (rule absolute_indices_wave [OF n])
  have mods: "traverse (\<lambda>i. py_mod i (int ?L)) (map int (wave_slots world stages n r st w)) =
      Inr (map int ?ids)"
    by (subst traverse_mod [OF L]) simp
  have cursor: "cs_eval_case_cursor s + sl_num_envs (slot_at world stages n r st) = int (Suc w) * int n"
    by (simp add: s(1) slot_at_def algebra_simps)
  show ?thesis
    by (simp only: next_cases_def next_eval_cases_def reading_def tables Let_def prod.case bnd_def
        lift_res_def upd_def sum.case slots mods pick cursor if_True simp_thms eval_wave_def)
qed

lemma draws_eval:
  assumes ok: "robodojo_post_init c = Inr ()" and n: "0 < n"
    and s: "cs_eval_case_cursor s = int w * int n" "cs_runtime_eval_layout_ids s = None"
      "cs_runtime_eval_policy_seeds s = None"
  shows "fst (draws c (slot_at world stages n r st) Eval k s) =
           Inr (map (\<lambda>j. eval_wave c (wave_slots world stages n r st (w + j))) [0..<k])"
  using s
proof (induction k arbitrary: s w)
  case (Suc k)
  let ?t = "s\<lparr>cs_eval_case_cursor := int (Suc w) * int n\<rparr>"
  have "fst (draws c (slot_at world stages n r st) Eval k ?t) =
          Inr (map (\<lambda>j. eval_wave c (wave_slots world stages n r st (Suc w + j))) [0..<k])"
    by (rule Suc.IH) (use Suc.prems in simp_all)
  then obtain u where u: "draws c (slot_at world stages n r st) Eval k ?t =
      (Inr (map (\<lambda>j. eval_wave c (wave_slots world stages n r st (Suc w + j))) [0..<k]), u)"
    by (metis prod.collapse)
  have split: "[0..<Suc k] = 0 # map Suc [0..<k]" by (simp add: upt_conv_Cons map_Suc_upt del: upt_Suc)
  show ?case
    unfolding split
    using u by (simp add: bnd_def next_eval_wave [OF ok n Suc.prems] lift_res_def comp_def)
qed (simp add: lift_res_def)

section \<open>The fleet\<close>

text \<open>All processes in stage-major order, the order \<open>EnvLoop\<close> collates their rows in.\<close>

definition fleet :: "nat \<Rightarrow> nat \<Rightarrow> nat \<Rightarrow> env_slot list" where
  "fleet world stages n = concat (map (\<lambda>st. map (\<lambda>r. slot_at world stages n r st) [0..<world]) [0..<stages])"

definition fleet_draws ::
  "robodojo_config \<Rightarrow> nat \<Rightarrow> nat \<Rightarrow> nat \<Rightarrow> mode \<Rightarrow> nat \<Rightarrow> case_state \<Rightarrow> cases list list result" where
  "fleet_draws c world stages n m k s =
     traverse (\<lambda>sl. fst (draws c sl m k s)) (fleet world stages n)"

definition case_ids :: "cases \<Rightarrow> int list" where
  "case_ids x = snd (snd x)"

definition case_layouts :: "cases \<Rightarrow> int list" where
  "case_layouts x = fst x"

definition case_seeds :: "cases \<Rightarrow> int list" where
  "case_seeds x = fst (snd x)"

text \<open>One column of the collated batches of the first \<open>k\<close> waves.\<close>

definition collated :: "(cases \<Rightarrow> int list) \<Rightarrow> nat \<Rightarrow> cases list list \<Rightarrow> int list" where
  "collated col k ds = concat (map (\<lambda>w. concat (map (\<lambda>d. col (d ! w)) ds)) [0..<k])"

definition fleet_table :: "(nat \<Rightarrow> nat \<Rightarrow> 'a) \<Rightarrow> nat \<Rightarrow> nat \<Rightarrow> 'a list" where
  "fleet_table f world stages = concat (map (\<lambda>st. map (\<lambda>r. f st r) [0..<world]) [0..<stages])"

lemma fleet_draws_table:
  assumes "\<And>st r. fst (draws c (slot_at world stages n r st) m k s) = Inr (f st r)"
  shows "fleet_draws c world stages n m k s = Inr (fleet_table f world stages)"
proof -
  have "traverse (\<lambda>sl. fst (draws c sl m k s)) (map (\<lambda>r. slot_at world stages n r st) rs) =
          Inr (map (f st) rs)" for st rs
    by (induction rs) (simp_all add: assms)
  then have *: "traverse (\<lambda>sl. fst (draws c sl m k s))
               (concat (map (\<lambda>st. map (\<lambda>r. slot_at world stages n r st) [0..<world]) sts)) =
             Inr (concat (map (\<lambda>st. map (f st) [0..<world]) sts))" for sts
    by (induction sts) (simp_all add: traverse_append)
  show ?thesis by (simp add: fleet_draws_def fleet_def fleet_table_def *)
qed

text \<open>Every column is a function of the global slot number.\<close>

lemma concat_map_table:
  "concat (map h (fleet_table f world stages)) =
     concat (map (\<lambda>st. concat (map (\<lambda>r. h (f st r)) [0..<world])) [0..<stages])"
proof -
  have "concat (map h (concat (map (\<lambda>st. map (f st) rs) sts))) =
          concat (map (\<lambda>st. concat (map (\<lambda>r. h (f st r)) rs)) sts)" for rs and sts :: "nat list"
    by (induction sts) (simp_all add: comp_def)
  then show ?thesis by (simp add: fleet_table_def)
qed

lemma concat_map_map: "concat (map (\<lambda>x. map g (h x)) xs) = map g (concat (map h xs))"
  by (induction xs) simp_all

text \<open>Every column is a function of the global slot number.\<close>

lemma collated_fleet:
  assumes "\<And>st r w. w < k \<Longrightarrow> col (f st r ! w) = map g (wave_slots world stages n r st (w0 + w))"
  shows "collated col k (fleet_table f world stages) =
           map g [w0 * (stages * (world * n))..<(w0 + k) * (stages * (world * n))]"
proof -
  let ?W = "stages * (world * n)"
  have wave: "concat (map (\<lambda>d. col (d ! w)) (fleet_table f world stages)) =
          map g [w0 * ?W + w * ?W..<w0 * ?W + w * ?W + ?W]" if "w < k" for w
    using that fleet_slots [of world stages n "w0 + w"]
    by (simp add: concat_map_table assms concat_map_map distrib_right)
  have "collated col k (fleet_table f world stages) =
          concat (map (\<lambda>w. map g [w0 * ?W + w * ?W..<w0 * ?W + w * ?W + ?W]) [0..<k])"
    unfolding collated_def by (rule arg_cong [where f = concat], rule map_cong) (simp_all add: wave)
  then show ?thesis
    by (simp add: concat_map_map concat_upt_blocks distrib_right)
qed

text \<open>A fixed-case evaluation: with every process drawing one wave after another, the collated
  case ids run through \<open>0, 1, 2, \<dots>\<close> modulo the benchmark size, each row on the layout of its
  case; so the first rows are every benchmark case exactly once, before any case repeats.\<close>

theorem evaluation_shards_the_benchmark:
  assumes "robodojo_post_init c = Inr ()" and "0 < n"
  shows "\<exists>ds. fleet_draws c world stages n Eval k (new_cases c) = Inr ds \<and>
           (let L = length (rd_layout_ids c); rows = k * (stages * (world * n)); ids = collated case_ids k ds
            in ids = map (\<lambda>i. int (i mod L)) [0..<rows] \<and>
               collated case_layouts k ds = map (\<lambda>i. rd_layout_ids c ! (i mod L)) [0..<rows] \<and>
               (L \<le> rows \<longrightarrow> take L ids = map int [0..<L]))"
proof -
  let ?L = "length (rd_layout_ids c)" and ?rows = "k * (stages * (world * n))"
  define f where "f st r = map (\<lambda>j. eval_wave c (wave_slots world stages n r st j)) [0..<k]" for st r
  have new: "cs_eval_case_cursor (new_cases c) = int 0 * int n" "cs_runtime_eval_layout_ids (new_cases c) = None"
    "cs_runtime_eval_policy_seeds (new_cases c) = None"
    by (simp_all add: new_cases_def)
  have draws: "fleet_draws c world stages n Eval k (new_cases c) = Inr (fleet_table f world stages)"
    by (rule fleet_draws_table) (use draws_eval [OF assms new] in \<open>simp add: f_def\<close>)
  have ids: "collated case_ids k (fleet_table f world stages) = map (\<lambda>i. int (i mod ?L)) [0..<?rows]"
    using collated_fleet [of k case_ids f "\<lambda>i. int (i mod ?L)" world stages n 0]
    by (simp add: f_def case_ids_def eval_wave_def Let_def comp_def)
  moreover have "collated case_layouts k (fleet_table f world stages) =
      map (\<lambda>i. rd_layout_ids c ! (i mod ?L)) [0..<?rows]"
    using collated_fleet [of k case_layouts f "\<lambda>i. rd_layout_ids c ! (i mod ?L)" world stages n 0]
    by (simp add: f_def case_layouts_def eval_wave_def Let_def comp_def)
  moreover have "take ?L (map (\<lambda>i. int (i mod ?L)) [0..<?rows]) = map int [0..<?L]" if "?L \<le> ?rows"
    using that by (intro nth_equalityI) auto
  ultimately show ?thesis using draws by (simp add: Let_def)
qed

section \<open>Training with repeated layouts\<close>

definition repeated_mode :: "robodojo_config \<Rightarrow> bool" where
  "repeated_mode c \<longleftrightarrow> rd_train_layout_repeat c \<noteq> 1 \<or> rd_train_policy_seed_start c \<noteq> None"

definition seed_base :: "robodojo_config \<Rightarrow> int" where
  "seed_base c = (case rd_train_policy_seed_start c of Some s \<Rightarrow> s | None \<Rightarrow> rd_seed c)"

definition train_layouts :: "robodojo_config \<Rightarrow> int list" where
  "train_layouts c = or_else (rd_train_layout_schedule c) (rd_layout_ids c)"

definition train_layout_at :: "robodojo_config \<Rightarrow> nat \<Rightarrow> int" where
  "train_layout_at c i =
     (let R = nat (rd_train_layout_repeat c) in train_layouts c ! (i div R mod length (train_layouts c)))"

definition train_wave :: "robodojo_config \<Rightarrow> nat list \<Rightarrow> cases" where
  "train_wave c slots =
     (map (train_layout_at c) slots, map (\<lambda>i. seed_base c + int i) slots,
      map (\<lambda>i. int (i mod (length (train_layouts c) * nat (rd_train_layout_repeat c)))) slots)"

lemma post_init_train:
  assumes "robodojo_post_init c = Inr ()"
  shows "0 < rd_train_layout_repeat c" and "train_layouts c \<noteq> []" and "0 \<le> rd_train_case_cursor_start c"
  using assms by (auto simp: robodojo_post_init_def Let_def res_simps train_layouts_def or_else_def)

lemma expanded_layout:
  fixes i :: nat
  assumes "0 < R" and "0 < L"
  shows "i mod (L * R) div R = i div R mod L"
proof -
  have "i mod (R * L) div R = (R * (i div R mod L) + i mod R) div R"
    by (simp add: mod_mult2_eq)
  also have "\<dots> = i div R mod L"
    using assms by simp
  finally show ?thesis by (simp add: mult.commute)
qed

lemma pick_expanded:
  assumes "0 < R" and "layouts \<noteq> []"
  shows "traverse (\<lambda>i. py_at layouts (i div int R)) (map (\<lambda>i. int (i mod (length layouts * R))) slots) =
           Inr (map (\<lambda>i. layouts ! (i div R mod length layouts)) slots)"
proof -
  have "py_at layouts (int (i mod (length layouts * R)) div int R) =
          Inr (layouts ! (i div R mod length layouts))" for i
  proof -
    have e: "int (i mod (length layouts * R)) div int R = int (i div R mod length layouts)"
      using expanded_layout [OF assms(1), of "length layouts" i] assms(2) by (simp flip: zdiv_int)
    show ?thesis using assms(2) unfolding e py_at_def by simp
  qed
  then show ?thesis by (induction slots) simp_all
qed

lemma next_repeated_wave:
  assumes ok: "robodojo_post_init c = Inr ()" and n: "0 < n" and rep: "repeated_mode c"
    and s: "cs_train_case_cursor s = int w * int n"
  shows "next_cases c (slot_at world stages n r st) Train s =
           (Inr (train_wave c (wave_slots world stages n r st w)),
            s\<lparr>cs_train_case_cursor := int (Suc w) * int n\<rparr>)"
proof -
  let ?R = "nat (rd_train_layout_repeat c)" and ?L = "length (train_layouts c)"
  let ?slots = "wave_slots world stages n r st w"
  note pos = post_init_train [OF ok]
  have R: "rd_train_layout_repeat c = int ?R" "0 < ?R" using pos(1) by simp_all
  have slots: "absolute_indices (slot_at world stages n r st) (cs_train_case_cursor s) = Inr (map int ?slots)"
    unfolding s by (rule absolute_indices_wave [OF n])
  have width: "int ?L * rd_train_layout_repeat c = int (?L * ?R)" using R(1) by simp
  have mods: "traverse (\<lambda>i. py_mod i (int (?L * ?R))) (map int ?slots) =
      Inr (map (\<lambda>i. int (i mod (?L * ?R))) ?slots)"
    by (rule traverse_mod) (use R pos(2) in simp)
  have picked: "traverse (\<lambda>i. py_at (train_layouts c) (i div rd_train_layout_repeat c))
      (map (\<lambda>i. int (i mod (?L * ?R))) ?slots) = Inr (map (train_layout_at c) ?slots)"
    using pick_expanded [OF R(2) pos(2), of ?slots] R(1)
    by (simp add: train_layout_at_def [abs_def] Let_def)
  have cursor: "cs_train_case_cursor s + sl_num_envs (slot_at world stages n r st) = int (Suc w) * int n"
    by (simp add: s slot_at_def algebra_simps)
  have tables: "fst (train_tables c) = train_layouts c"
    by (simp add: train_tables_def train_layouts_def Let_def)
  have cond: "(rd_train_layout_repeat c \<noteq> 1 \<or> rd_train_policy_seed_start c \<noteq> None) = True"
    using rep by (simp add: repeated_mode_def)
  have seeds: "map (\<lambda>i. seed_base c + i) (map int ?slots) = map (\<lambda>i. seed_base c + int i) ?slots"
    by simp
  have eval: "(Train = Eval) = False" by simp
  show ?thesis
    by (simp only: next_cases_def next_repeated_cases_def reading_def tables Let_def prod.case bnd_def
        lift_res_def upd_def sum.case slots width mods picked cursor cond eval if_True if_False
        seed_base_def [symmetric] seeds train_wave_def)
qed

lemma draws_repeated:
  assumes ok: "robodojo_post_init c = Inr ()" and n: "0 < n" and rep: "repeated_mode c"
    and s: "cs_train_case_cursor s = int w * int n"
  shows "fst (draws c (slot_at world stages n r st) Train k s) =
           Inr (map (\<lambda>j. train_wave c (wave_slots world stages n r st (w + j))) [0..<k])"
  using s
proof (induction k arbitrary: s w)
  case (Suc k)
  let ?t = "s\<lparr>cs_train_case_cursor := int (Suc w) * int n\<rparr>"
  have "fst (draws c (slot_at world stages n r st) Train k ?t) =
          Inr (map (\<lambda>j. train_wave c (wave_slots world stages n r st (Suc w + j))) [0..<k])"
    by (rule Suc.IH) simp
  then obtain u where u: "draws c (slot_at world stages n r st) Train k ?t =
      (Inr (map (\<lambda>j. train_wave c (wave_slots world stages n r st (Suc w + j))) [0..<k]), u)"
    by (metis prod.collapse)
  have split: "[0..<Suc k] = 0 # map Suc [0..<k]" by (simp add: upt_conv_Cons map_Suc_upt del: upt_Suc)
  show ?case
    unfolding split
    using u by (simp add: bnd_def next_repeated_wave [OF ok n rep Suc.prems] lift_res_def comp_def)
qed (simp add: lift_res_def)

text \<open>The collated rows of the waves a fleet draws from a cursor at the beginning of a wave.\<close>

lemma training_rows:
  fixes world stages :: nat
  assumes "robodojo_post_init c = Inr ()" and "0 < n" and "repeated_mode c"
    and "rd_train_case_cursor_start c = int (w0 * n)"
  defines "base \<equiv> w0 * (stages * (world * n))"
  shows "\<exists>ds. fleet_draws c world stages n Train k (new_cases c) = Inr ds \<and>
    collated case_layouts k ds = map (train_layout_at c) [base..<base + k * (stages * (world * n))] \<and>
    collated case_seeds k ds = map (\<lambda>i. seed_base c + int i) [base..<base + k * (stages * (world * n))]"
proof -
  define f where "f st r = map (\<lambda>j. train_wave c (wave_slots world stages n r st (w0 + j))) [0..<k]" for st r
  have new: "cs_train_case_cursor (new_cases c) = int w0 * int n"
    using assms(4) by (simp add: new_cases_def)
  have "fleet_draws c world stages n Train k (new_cases c) = Inr (fleet_table f world stages)"
    by (rule fleet_draws_table) (use draws_repeated [OF assms(1-3) new] in \<open>simp add: f_def\<close>)
  moreover have "(w0 + k) * (stages * (world * n)) = base + k * (stages * (world * n))"
    by (simp add: base_def distrib_right)
  ultimately show ?thesis
    using collated_fleet [of k case_layouts f "train_layout_at c" world stages n w0]
      collated_fleet [of k case_seeds f "\<lambda>i. seed_base c + int i" world stages n w0]
    by (simp add: f_def case_layouts_def case_seeds_def train_wave_def base_def)
qed

text \<open>With groups of \<open>G = repeat\<close> rows, group \<open>g\<close> is one layout with seeds of its own.\<close>

lemma training_group:
  fixes h :: "nat \<Rightarrow> int"
  assumes "g < m" and "rd_train_layout_repeat c = int G" and "0 < G"
  shows "take G (drop (g * G) (map h [s0 * G..<s0 * G + m * G])) = map (\<lambda>i. h ((s0 + g) * G + i)) [0..<G]"
    and "map (\<lambda>i. train_layout_at c ((s0 + g) * G + i)) [0..<G] =
      replicate G (train_layouts c ! ((s0 + g) mod length (train_layouts c)))"
proof -
  have "g * G + G \<le> m * G" using assms(1) by (metis add.commute mult_Suc mult_le_mono1 Suc_leI)
  then show "take G (drop (g * G) (map h [s0 * G..<s0 * G + m * G])) = map (\<lambda>i. h ((s0 + g) * G + i)) [0..<G]"
    using slice_map_upt [of "g * G" G "m * G" h "s0 * G"] by (simp add: distrib_right)
  have "((s0 + g) * G + i) div G = s0 + g" if "i < G" for i using that by simp
  then show "map (\<lambda>i. train_layout_at c ((s0 + g) * G + i)) [0..<G] =
      replicate G (train_layouts c ! ((s0 + g) mod length (train_layouts c)))"
    by (intro nth_equalityI) (simp_all add: train_layout_at_def Let_def assms(2))
qed

text \<open>Training with repeated layouts, one group of \<open>G = repeat\<close> rows per stage: starting the
  cursors at the beginning of a wave, every group of \<open>G\<close> consecutive rows of the collated batches
  is one layout, taken in the order of the schedule, with \<open>G\<close> consecutive policy seeds, and no
  seed is ever used twice.\<close>

theorem repeated_layouts_form_condition_groups:
  assumes "robodojo_post_init c = Inr ()" and "0 < n" and "repeated_mode c"
    and "rd_train_layout_repeat c = int (world * n)"
    and "rd_train_case_cursor_start c = int (w0 * n)"
  shows "\<exists>ds. fleet_draws c world stages n Train k (new_cases c) = Inr ds \<and>
           (let G = world * n; seeds = collated case_seeds k ds; layouts = collated case_layouts k ds
            in length layouts = k * stages * G \<and> distinct seeds \<and>
               (\<forall>g < k * stages.
                  take G (drop (g * G) layouts) =
                    replicate G (train_layouts c ! ((w0 * stages + g) mod length (train_layouts c))) \<and>
                  take G (drop (g * G) seeds) =
                    map (\<lambda>i. seed_base c + int ((w0 * stages + g) * G + i)) [0..<G]))"
proof -
  let ?G = "world * n"
  have G: "0 < ?G" using assms(4) post_init_train(1) [OF assms(1)] by (cases ?G) simp_all
  obtain ds where ds: "fleet_draws c world stages n Train k (new_cases c) = Inr ds"
    and rows: "collated case_layouts k ds = map (train_layout_at c) [w0 * stages * ?G..<w0 * stages * ?G + k * stages * ?G]"
      "collated case_seeds k ds = map (\<lambda>i. seed_base c + int i) [w0 * stages * ?G..<w0 * stages * ?G + k * stages * ?G]"
    using training_rows [OF assms(1-3,5), of world stages k] by (auto simp: mult.assoc)
  have "distinct (collated case_seeds k ds)" unfolding rows by (simp add: distinct_map inj_on_def)
  with ds show ?thesis
    unfolding Let_def rows using training_group [OF _ assms(4) G, of _ "k * stages"]
    by (intro exI [of _ ds]) (simp add: rows)
qed

section \<open>A concrete fleet\<close>

definition sample_robodojo :: robodojo_config where
  "sample_robodojo =
     \<lparr>rd_root = ''/robodojo'', rd_task_name = ''stack_bowls'', rd_task_names = [''stack_bowls'', ''sort''],
      rd_task_id = 0, rd_worker_stage_task_schedule = [], rd_action_type = ''joint'',
      rd_layout_ids = [0, 1, 2, 3, 4, 5], rd_train_layout_schedule = [3, 1], rd_train_policy_seed_schedule = [],
      rd_train_layout_repeat = 4, rd_train_policy_seed_start = Some 100, rd_train_case_cursor_start = 2,
      rd_eval_policy_seed_schedule = [], rd_allow_held_out_eval_layouts = False, rd_seed = 7,
      rd_reset_max_attempts = 3, rd_reset_rpc_timeout_s = 240, rd_reset_process_max_restarts = 2,
      rd_restart_every_rollouts = 1, rd_parallel_restart_stages = False, rd_defer_chunk_observations = False\<rparr>"

lemma sample_robodojo_ok: "robodojo_post_init sample_robodojo = Inr ()"
  by code_simp

lemma sample_robodojo_facts:
  "length (rd_layout_ids sample_robodojo) = 6" "repeated_mode sample_robodojo"
  "rd_train_layout_repeat sample_robodojo = int (2 * 2)" "rd_train_case_cursor_start sample_robodojo = int (1 * 2)"
  "train_layouts sample_robodojo = [3, 1]" "seed_base sample_robodojo = 100"
  by (simp_all add: sample_robodojo_def repeated_mode_def train_layouts_def or_else_def seed_base_def)

theorem evaluation_shards_the_benchmark_witness:
  "\<exists>ds. fleet_draws sample_robodojo 1 2 2 Eval 2 (new_cases sample_robodojo) = Inr ds \<and>
        take 6 (collated case_ids 2 ds) = [0, 1, 2, 3, 4, 5]"
  using evaluation_shards_the_benchmark [OF sample_robodojo_ok, of 2 1 2 2]
  by (auto simp: sample_robodojo_facts Let_def upt_rec)

theorem repeated_layouts_form_condition_groups_witness:
  "\<exists>ds. fleet_draws sample_robodojo 2 2 2 Train 1 (new_cases sample_robodojo) = Inr ds \<and>
        take 4 (collated case_seeds 1 ds) = [108, 109, 110, 111] \<and>
        take 4 (collated case_layouts 1 ds) = [3, 3, 3, 3]"
proof -
  have four: "replicate 4 (3 :: int) = [3, 3, 3, 3]" by (simp add: numeral_eq_Suc)
  show ?thesis
    using repeated_layouts_form_condition_groups
        [OF sample_robodojo_ok _ sample_robodojo_facts(2-4), of 2 1]
    by (force simp: sample_robodojo_facts(5,6) Let_def upt_rec four)
qed

end
