(* ===== verification/Robodojo_Recovery.thy ===== *)
theory Robodojo_Recovery
  imports Env_Manager_Properties Env_Worker Robodojo_Env Robodojo_Case_Properties
begin

text \<open>
  The RoboDojo simulator behind its manager: however often resets time out and the process is
  replaced, the cases it plays are those of the uninterrupted schedule.
\<close>

section \<open>The simulator as an environment class\<close>

datatype 'o robo_answer = Obs "'o obs" | Cursors cursors | No_Data

type_synonym 'b reset_request = "('b reset_extra \<times> nat list \<times> bool) option"

text \<open>
  \<open>new_backend\<close> is the native simulator a fresh process builds; what other methods and
  attribute assignments do is left open by \<open>others\<close> and \<open>assign\<close>. The command \<open>reset\<close> enters the
  class through \<open>reset\<close> of envs/base.py, which clears the flags of the executor, the chunk and the
  recorder, reads mode, indices and the evaluation flag from the options and then calls
  \<open>env_reset\<close>. Those flags do not reach the cursors, so the request is given here by what
  the wrapper reads from the options, and the hook is called directly; the wrapper itself is
  \<open>reset_env\<close> of Base_Env.
\<close>

definition robodojo_class ::
  "robodojo_config \<Rightarrow> env_slot \<Rightarrow> ('r, 'o, 'b) backend \<Rightarrow> (json \<Rightarrow> string) \<Rightarrow> 'b result \<Rightarrow>
   (string \<Rightarrow> 'b reset_request \<Rightarrow> ('b robo_state, 'o robo_answer) stm) \<Rightarrow>
   (string \<Rightarrow> 'o robo_answer \<Rightarrow> 'b robo_state \<Rightarrow> 'b robo_state result) \<Rightarrow>
   ('b robo_state, 'b reset_request, 'o robo_answer) env_class" where
  "robodojo_class c sl bk render new_backend others assign =
     \<lparr>cl_create = bind_res new_backend (\<lambda>b. Inr (new_robodojo c (nat (sl_num_envs sl)) b)),
      cl_method = (\<lambda>name q.
        if name = ''reset'' then
          (case q of Some (extra, ids, reset_eval) \<Rightarrow>
              bnd (env_reset c sl bk render extra ids reset_eval) (\<lambda>o1. lift_res (Inr (Obs o1)))
           | None \<Rightarrow> lift_res (Inl TypeError))
        else if name = ''get_state'' then reading (\<lambda>s. lift_res (Inr (Cursors (get_state (rs_cases s)))))
        else others name q),
      cl_setattr = assign,
      cl_load_state = (\<lambda>a s. case a of Cursors st \<Rightarrow> Inr (s\<lparr>rs_cases := load_state st (rs_cases s)\<rparr>) | _ \<Rightarrow> Inl TypeError),
      cl_truthy = (\<lambda>a. a \<noteq> No_Data), cl_no_args = None, cl_none = No_Data\<rparr>"

section \<open>The schedule it follows\<close>

definition seen_cases :: "'o robo_answer \<Rightarrow> cases" where
  "seen_cases a = (case a of
     Obs ob \<Rightarrow> (identity_field ob ''layout_id'', identity_field ob ''policy_seed'', identity_field ob ''eval_episode_id'')
   | _ \<Rightarrow> ([], [], []))"

definition draw_cases ::
  "robodojo_config \<Rightarrow> env_slot \<Rightarrow> 'b reset_request \<Rightarrow> cursors \<Rightarrow> (cases \<times> cursors) option" where
  "draw_cases c sl q cu =
     (case q of
        None \<Rightarrow> None
      | Some (extra, ids, reset_eval) \<Rightarrow>
          (case reset_mode reset_eval (rx_mode extra) of
             Inl _ \<Rightarrow> None
           | Inr m \<Rightarrow>
               (case next_cases c sl m
                       (load_state (if reset_eval then cu\<lparr>cu_eval_case_cursor := 0\<rparr> else cu) (new_cases c)) of
                  (Inl _, _) \<Rightarrow> None
                | (Inr cs, s) \<Rightarrow> Some (cs, get_state s))))"

definition sound_robodojo :: "env_slot \<Rightarrow> 'b robo_state \<Rightarrow> bool" where
  "sound_robodojo sl s \<longleftrightarrow>
     length (rs_episode_ids s) = nat (sl_num_envs sl) \<and> length (rs_layout_ids s) = nat (sl_num_envs sl) \<and>
     length (rs_policy_seeds s) = nat (sl_num_envs sl) \<and>
     cs_runtime_eval_layout_ids (rs_cases s) = None \<and> cs_runtime_eval_policy_seeds (rs_cases s) = None"

lemma on_cases_Inr: "on_cases m s = (Inr x, t) \<longleftrightarrow> (\<exists>cs. m (rs_cases s) = (Inr x, cs) \<and> t = s\<lparr>rs_cases := cs\<rparr>)"
  by (auto simp: on_cases_def split: prod.splits)

lemma on_backend_Inr: "on_backend m s = (Inr x, t) \<longleftrightarrow> (\<exists>b. m (rs_backend s) = (Inr x, b) \<and> t = s\<lparr>rs_backend := b\<rparr>)"
  by (auto simp: on_backend_def split: prod.splits)

lemma take_all: "gather [0..<n] xs = Inr ys \<Longrightarrow> length xs = n \<Longrightarrow> ys = xs"
  by (auto simp: gather_def traverse_Inr_list_all2 list_all2_conv_all_nth get_at_def intro: nth_equalityI split: if_splits)

lemma next_cases_tables:
  "next_cases c sl m s = (Inr cs, s') \<Longrightarrow>
   cs_runtime_eval_layout_ids s' = cs_runtime_eval_layout_ids s \<and>
   cs_runtime_eval_policy_seeds s' = cs_runtime_eval_policy_seeds s"
  by (auto simp: next_cases_def next_eval_cases_def next_repeated_cases_def next_rotating_cases_def reading_def
      stm_simps Let_def split: if_splits prod.splits)

lemma registered_tables:
  "cs_runtime_eval_layout_ids s = None \<Longrightarrow> cs_runtime_eval_policy_seeds s = None \<Longrightarrow>
   load_state (get_state s) (new_cases c) = s"
  by (simp add: load_state_def get_state_def new_cases_def)

lemma note_cases_Inr:
  "note_cases (layouts, seeds, ids) s = (Inr (), t) \<Longrightarrow>
   t = s\<lparr>rs_episode_ids := ids, rs_layout_ids := layouts, rs_policy_seeds := seeds\<rparr> \<and>
   length ids = length (rs_episode_ids s) \<and> length layouts = length (rs_layout_ids s) \<and>
   length seeds = length (rs_policy_seeds s)"
  by (auto simp: note_cases_def reading_def stm_simps assign_all_def split: if_splits)

lemma observations_Inr:
  assumes "observations c bk render [0..<n] s = (Inr ob, t)"
    and "length (rs_episode_ids s) = n" and "length (rs_layout_ids s) = n" and "length (rs_policy_seeds s) = n"
  shows "seen_cases (Obs ob) = (rs_layout_ids s, rs_policy_seeds s, rs_episode_ids s) \<and>
    (\<exists>b. t = s\<lparr>rs_backend := b\<rparr>)"
  using assms
  by (auto simp: observations_def np_take_def reading_def stm_simps on_backend_Inr seen_cases_def identity_field_def dest!: take_all)

lemma env_reset_follows:
  assumes "sound_robodojo sl s" and "env_reset c sl bk render extra ids reset_eval s = (Inr ob, t)"
  shows "sound_robodojo sl t \<and>
    draw_cases c sl (Some (extra, ids, reset_eval)) (get_state (rs_cases s)) = Some (seen_cases (Obs ob), get_state (rs_cases t))"
proof -
  define cs0 where "cs0 = (if reset_eval then rs_cases s\<lparr>cs_eval_case_cursor := 0\<rparr> else rs_cases s)"
  from assms(2) obtain m layouts seeds episodes cs1 b t1 where
    m: "reset_mode reset_eval (rx_mode extra) = Inr m" and
    d: "next_cases c sl m cs0 = (Inr (layouts, seeds, episodes), cs1)" and
    n: "note_cases (layouts, seeds, episodes) (s\<lparr>rs_cases := cs1, rs_backend := b\<rparr>) = (Inr (), t1)" and
    o1: "observations c bk render [0..<nat (sl_num_envs sl)] t1 = (Inr ob, t)"
    by (auto simp: env_reset_def stm_simps on_cases_Inr on_backend_Inr Let_def cs0_def split: if_splits)
  have cs0: "cs0 = load_state (if reset_eval then (get_state (rs_cases s))\<lparr>cu_eval_case_cursor := 0\<rparr>
      else get_state (rs_cases s)) (new_cases c)"
    using assms(1) registered_tables [of cs0 c] by (auto simp: cs0_def sound_robodojo_def get_state_def load_state_def new_cases_def)
  from note_cases_Inr [OF n] assms(1) have t1: "sound_robodojo sl t1" "rs_cases t1 = cs1" "rs_layout_ids t1 = layouts"
    "rs_policy_seeds t1 = seeds" "rs_episode_ids t1 = episodes"
    using next_cases_tables [OF d] by (auto simp: sound_robodojo_def cs0_def split: if_splits)
  with observations_Inr [OF o1] m d cs0 show ?thesis
    by (auto simp: sound_robodojo_def draw_cases_def)
qed

lemma class_reset_follows:
  assumes "sound_robodojo sl s"
    and "cl_method (robodojo_class c sl bk render new_backend others assign) ''reset'' q s = (Inr a, t)"
  shows "sound_robodojo sl t \<and> draw_cases c sl q (get_state (rs_cases s)) = Some (seen_cases a, get_state (rs_cases t))"
  using assms(2)
  by (cases q) (auto simp: robodojo_class_def stm_simps lift_res_def dest!: env_reset_follows [OF assms(1)])

interpretation robodojo: resumable_env
  "robodojo_class c sl bk render new_backend others assign" "sound_robodojo sl" "\<lambda>s. get_state (rs_cases s)"
  "get_state (new_cases c)" Cursors seen_cases "draw_cases c sl"
proof (unfold_locales, goal_cases)
  case 5
  then show ?case by (rule class_reset_follows)
qed (auto simp: robodojo_class_def sound_robodojo_def new_robodojo_def new_cases_def get_state_def load_state_def
    reading_def lift_res_def bind_res_Inr_iff)

section \<open>Any number of resets\<close>

fun recovered_resets ::
  "('e, 'q, 'a) env_class \<Rightarrow> rat \<Rightarrow> nat \<Rightarrow> ('q \<times> (nat \<Rightarrow> attempt)) list \<Rightarrow> ('e, 'q, 'a, ('a \<times> nat) list) em_stm" where
  "recovered_resets cl s limit [] = lift_res (Inr [])"
| "recovered_resets cl s limit ((q, sched) # reqs) =
     bnd (reset_simulator_with_recovery cl q s limit sched) (\<lambda>r.
     bnd (recovered_resets cl s limit reqs) (\<lambda>rs. lift_res (Inr (r # rs))))"

fun scheduled_cases :: "robodojo_config \<Rightarrow> env_slot \<Rightarrow> 'b reset_request list \<Rightarrow> cursors \<Rightarrow> cases list option" where
  "scheduled_cases c sl [] cu = Some []"
| "scheduled_cases c sl (q # qs) cu =
     (case draw_cases c sl q cu of
        None \<Rightarrow> None
      | Some (cs, cu') \<Rightarrow> map_option ((#) cs) (scheduled_cases c sl qs cu'))"

lemma recovered_resets_follow:
  assumes "robodojo.in_step sl c m cu"
    and "recovered_resets (robodojo_class c sl bk render new_backend others assign) s limit reqs m = (Inr as, m')"
  shows "scheduled_cases c sl (map fst reqs) cu = Some (map (seen_cases \<circ> fst) as) \<and> (\<forall>a \<in> set as. snd a \<le> limit)"
  using assms
proof (induction reqs arbitrary: m cu as)
  case (Cons req reqs)
  obtain q sched where req: "req = (q, sched)" by (cases req)
  with Cons.prems(2) obtain a k as' m1 where
    h: "reset_simulator_with_recovery (robodojo_class c sl bk render new_backend others assign) q s limit sched m =
        (Inr (a, k), m1)" and
    t: "recovered_resets (robodojo_class c sl bk render new_backend others assign) s limit reqs m1 = (Inr as', m')" and
    as: "as = (a, k) # as'"
    by (auto simp: stm_simps)
  from robodojo.recovered [OF Cons.prems(1) h [unfolded reset_simulator_with_recovery_def]] obtain cu' where
    "draw_cases c sl q cu = Some (seen_cases a, cu')" "robodojo.in_step sl c m1 cu'" "k \<le> limit" by auto
  with Cons.IH [OF this(2) t] req as show ?case by auto
qed (simp add: lift_res_def)

text \<open>
  C39. The schedule survives recovery: a fresh RoboDojo manager that is started and then reset any
  number of times, under whatever options, with resets and snapshots timing out and processes being replaced
  in between, shows in its observations exactly the layouts, policy seeds and case ids of the
  uninterrupted schedule, in order, and no reset needs more restarts than its limit.
\<close>

theorem recovered_cases_are_the_schedule:
  assumes "start_simulator (robodojo_class c sl bk render new_backend others assign) t new_manager = (Inr (), m)"
    and "recovered_resets (robodojo_class c sl bk render new_backend others assign) s limit reqs m = (Inr as, m')"
  shows "scheduled_cases c sl (map fst reqs) (get_state (new_cases c)) = Some (map (seen_cases \<circ> fst) as) \<and>
         (\<forall>a \<in> set as. snd a \<le> limit)"
proof -
  have "robodojo.saved_at c new_manager (get_state (new_cases c))"
    by (simp add: robodojo.saved_at_def new_manager_def)
  from robodojo.started [OF this _ assms(1)] have "robodojo.in_step sl c m (get_state (new_cases c))"
    by (simp add: new_manager_def)
  from recovered_resets_follow [OF this assms(2)] show ?thesis .
qed

definition saved_place :: "robodojo_config \<Rightarrow> ('e, 'q, 'o robo_answer) manager \<Rightarrow> cursors \<Rightarrow> bool" where
  "saved_place c m cu \<longleftrightarrow>
     em_state_buffer m = None \<and> cu = get_state (new_cases c) \<or> em_state_buffer m = Some (Cursors cu)"

lemma saved_place: "robodojo.saved_at c = saved_place c"
  by (simp add: fun_eq_iff robodojo.saved_at_def saved_place_def)

text \<open>
  C40. A simulator that hangs for a while is brought back: if the process can be rebuilt and answers resets where the
  schedule is, a reset whose first \<open>k\<close>
  attempts time out, in the reset or in the snapshot after it, and whose
  next attempt is answered in time returns after exactly \<open>k\<close> restarts, for every \<open>k\<close> up to the
  limit; when all attempts time out the caller gets the timeout, with the saved schedule where it was.
\<close>

theorem hung_reset_recovers:
  assumes cl_def: "cl = robodojo_class c sl bk render (Inr b) others assign"
    and "idle m e" and "sound_robodojo sl e" and "saved_place c m (get_state (rs_cases e))"
    and "\<forall>e'. sound_robodojo sl e' \<and> get_state (rs_cases e') = get_state (rs_cases e) \<longrightarrow>
           (\<exists>ob t. env_reset c sl bk render extra ids reset_eval e' = (Inr ob, t))"
    and "0 < s" and "k \<le> Suc limit"
    and "\<forall>i < k. (at_reset (sched i) = Late \<or> at_reset (sched i) = Responds \<and> at_snapshot (sched i) = Late) \<and>
           at_start (sched i) = Responds"
    and "k \<le> limit \<longrightarrow> at_reset (sched k) = Responds \<and> at_snapshot (sched k) = Responds"
  shows "if k \<le> limit
         then \<exists>r m'. reset_simulator_with_recovery cl (Some (extra, ids, reset_eval)) s limit sched m = (Inr (r, k), m')
         else \<exists>m'. reset_simulator_with_recovery cl (Some (extra, ids, reset_eval)) s limit sched m = (Inl TimeoutError, m') \<and>
                saved_place c m' (get_state (rs_cases e))"
proof -
  let ?cu = "get_state (rs_cases e)"
  have in_step: "robodojo.in_step sl c m ?cu"
    using assms(2-4) by (auto simp: robodojo.in_step_def saved_place)
  let ?cl = "robodojo_class c sl bk render (Inr b) others assign"
  have "cl_create ?cl = Inr (new_robodojo c (nat (sl_num_envs sl)) b)"
    and "\<forall>e cu. sound_robodojo sl e \<longrightarrow> (\<exists>e'. cl_load_state ?cl (Cursors cu) e = Inr e')"
    by (simp_all add: robodojo_class_def)
  note live = robodojo.revivableI [OF this]
  have "\<forall>e'. sound_robodojo sl e' \<and> get_state (rs_cases e') = ?cu \<longrightarrow>
      (\<exists>a t. cl_method ?cl ''reset'' (Some (extra, ids, reset_eval)) e' = (Inr a, t))"
    using assms(5) by (force simp: robodojo_class_def bnd_def lift_res_def)
  note ans = robodojo.answersI [OF this]
  show ?thesis
    using robodojo.recovery_returns [OF in_step live ans assms(6), of k limit sched 0]
      robodojo.exhausted [OF in_step live ans assms(6), of limit sched 0] assms(7-9)
    by (auto simp: cl_def reset_simulator_with_recovery_def saved_place less_Suc_eq_le)
qed

section \<open>A run\<close>

definition sample_backend :: "(unit, unit, unit) backend" where
  "sample_backend =
     \<lparr>bk_reset = \<lambda>ls b. (Reset_Done, b), bk_unstable_envs = \<lambda>b. [], bk_episode_nums = \<lambda>b. None,
      bk_run_reward = lift_res (Inr ()),
      bk_get_obs_batch = \<lambda>ids. lift_res (Inr (map (\<lambda>i. \<lparr>rw_fields = [(''instruction'', JStr ''stack'')], rw_payload = ()\<rparr>) ids)),
      bk_take_action_batch = \<lambda>vs ids. lift_res (Inr ()), bk_end_flag = \<lambda>b. [], bk_success = \<lambda>b. [],
      bk_gated_scores = \<lambda>b. None, bk_canonical = \<lambda>p. Inr ()\<rparr>"

definition sample_slot :: env_slot where
  "sample_slot = \<lparr>sl_rank = 0, sl_world_size = 1, sl_stage_id = 0, sl_stage_num = 1, sl_num_envs = 2\<rparr>"

definition sample_class :: "(unit robo_state, unit reset_request, unit robo_answer) env_class" where
  "sample_class = robodojo_class sample_robodojo sample_slot sample_backend (\<lambda>j. ''x'') (Inr ())
     (\<lambda>name q. lift_res (Inl AttributeError)) (\<lambda>name a s. Inr s)"

definition sample_extra :: "unit reset_extra" where
  "sample_extra = \<lparr>rx_mode = None, rx_progress = None\<rparr>"

definition sample_trouble :: "nat \<Rightarrow> attempt" where
  "sample_trouble i =
     (if i = 0 then \<lparr>at_reset = Late, at_snapshot = Responds, at_start = Responds\<rparr>
      else if i = 1 then \<lparr>at_reset = Responds, at_snapshot = Late, at_start = Responds\<rparr>
      else \<lparr>at_reset = Responds, at_snapshot = Responds, at_start = Responds\<rparr>)"

definition sample_requests :: "(unit reset_request \<times> (nat \<Rightarrow> attempt)) list" where
  "sample_requests = [(Some (sample_extra, [0, 1], True), sample_trouble), (Some (sample_extra, [0, 1], False), sample_trouble)]"

definition sample_started :: "(unit robo_state, unit reset_request, unit robo_answer) manager" where
  "sample_started = snd (start_simulator sample_class Responds new_manager)"

lemma sample_start: "start_simulator sample_class Responds new_manager = (Inr (), sample_started)"
proof -
  have "fst (start_simulator sample_class Responds new_manager) = Inr ()" by code_simp
  then show ?thesis by (simp add: sample_started_def prod_eq_iff)
qed

lemma sample_run:
  "(case fst (recovered_resets sample_class 240 2 sample_requests sample_started) of
      Inr as \<Rightarrow> map (seen_cases \<circ> fst) as = [([0, 1], [7, 7], [0, 1]), ([3, 3], [102, 103], [2, 3])]
    | Inl x \<Rightarrow> False)"
  by code_simp

theorem recovered_cases_are_the_schedule_witness:
  "\<exists>as m'. recovered_resets sample_class 240 2 sample_requests sample_started = (Inr as, m') \<and>
     scheduled_cases sample_robodojo sample_slot (map fst sample_requests) (get_state (new_cases sample_robodojo)) =
       Some [([0, 1], [7, 7], [0, 1]), ([3, 3], [102, 103], [2, 3])] \<and> (\<forall>a \<in> set as. snd a \<le> 2)"
proof -
  obtain r m' where r: "recovered_resets sample_class 240 2 sample_requests sample_started = (r, m')" by fastforce
  with sample_run obtain as where as: "r = Inr as" by (auto split: sum.splits)
  with recovered_cases_are_the_schedule
      [OF sample_start [unfolded sample_class_def] r [unfolded sample_class_def as]] sample_run r
  show ?thesis by auto
qed

lemma sample_draw:
  "next_cases sample_robodojo sample_slot Eval (new_cases sample_robodojo) =
     (Inr ([0, 1], [7, 7], [0, 1]), (new_cases sample_robodojo)\<lparr>cs_eval_case_cursor := 2\<rparr>)"
  by code_simp

lemma sample_reset_answers:
  assumes "sound_robodojo sample_slot e" and "get_state (rs_cases e) = get_state (new_cases sample_robodojo)"
  shows "\<exists>ob t. env_reset sample_robodojo sample_slot sample_backend (\<lambda>j. ''x'') sample_extra [0, 1] True e = (Inr ob, t)"
proof -
  have "rs_cases e = load_state (get_state (rs_cases e)) (new_cases sample_robodojo)"
    by (rule registered_tables [symmetric]) (use assms(1) in \<open>simp_all add: sound_robodojo_def\<close>)
  then have cs: "rs_cases e = new_cases sample_robodojo"
    unfolding assms(2) by (simp add: load_state_def get_state_def)
  have ev: "(new_cases sample_robodojo)\<lparr>cs_eval_case_cursor := 0\<rparr> = new_cases sample_robodojo"
    by (simp add: new_cases_def)
  have two: "nat (sl_num_envs sample_slot) = 2" "[0..<2] = [0, 1::nat]" "nat (rd_reset_max_attempts sample_robodojo) = Suc 2"
    by (simp add: sample_slot_def, simp add: upt_conv_Cons, simp add: sample_robodojo_def)
  have stable: "reset_backend_stably sample_robodojo sample_backend None 2 ls b = (Inr (), b)" for ls b
    unfolding reset_backend_stably_def two reset_attempts.simps
    by (simp add: run_progress_def sample_backend_def whole_vector_ready_def bnd_def lift_res_def)
  have "length (rs_episode_ids e) = 2" "length (rs_layout_ids e) = 2" "length (rs_policy_seeds e) = 2"
    using assms(1) two by (simp_all add: sound_robodojo_def)
  then have note': "note_cases ([0, 1], [7, 7], [0, 1]) (e\<lparr>rs_cases := cs, rs_backend := ()\<rparr>) =
      (Inr (), e\<lparr>rs_cases := cs, rs_backend := (), rs_episode_ids := [0, 1], rs_layout_ids := [0, 1], rs_policy_seeds := [7, 7]\<rparr>)" for cs
    by (simp add: note_cases_def reading_def bnd_def lift_res_def upd_def assign_all_def)
  have rows: "bk_get_obs_batch sample_backend [0, Suc 0] () =
      (Inr [\<lparr>rw_fields = [(''instruction'', JStr ''stack'')], rw_payload = ()\<rparr>,
            \<lparr>rw_fields = [(''instruction'', JStr ''stack'')], rw_payload = ()\<rparr>], ())"
    by (simp add: sample_backend_def lift_res_def)
  have text': "\<exists>t. instruction (\<lambda>j. ''x'') [(''instruction'', JStr ''stack'')] = Inr t"
    by (rule exI [of _ "''stack''"]) code_simp
  have reward: "bk_run_reward sample_backend () = (Inr (), ())" by (simp add: sample_backend_def lift_res_def)
  have canonical: "bk_canonical sample_backend () = Inr ()" by (simp add: sample_backend_def)
  have "\<exists>ob t. observations sample_robodojo sample_backend (\<lambda>j. ''x'') [0, Suc 0] (e\<lparr>rs_cases := cs, rs_backend := (), rs_episode_ids := [0, 1],
      rs_layout_ids := [0, 1], rs_policy_seeds := [7, 7]\<rparr>) = (Inr ob, t)" for cs
    using text' rows canonical
    by (auto simp: observations_def on_backend_def bnd_def lift_res_def reading_def np_take_def gather_def get_at_def)
  then show ?thesis
    using stable reward
    by (simp add: env_reset_def bnd_def lift_res_def reset_mode_def sample_extra_def require_def two Let_def
        on_cases_def upd_def cs ev sample_draw on_backend_def note')
qed

theorem hung_reset_recovers_witness:
  "\<exists>r m'. reset_simulator_with_recovery sample_class (Some (sample_extra, [0, 1], True)) 240 2 sample_trouble sample_started =
     (Inr (r, 2), m')"
proof -
  let ?e = "new_robodojo sample_robodojo 2 ()"
  have two: "nat (sl_num_envs sample_slot) = 2" by (simp add: sample_slot_def)
  have cl: "sample_class = robodojo_class sample_robodojo sample_slot sample_backend (\<lambda>j. ''x'') (Inr ())
     (\<lambda>name q. lift_res (Inl AttributeError)) (\<lambda>name a s. Inr s)" by (rule sample_class_def)
  have started: "idle sample_started ?e" "em_state_buffer sample_started = None"
    by (simp_all add: sample_started_def start_simulator_def new_manager_def boot_def sample_class_def robodojo_class_def two)
  then have "saved_place sample_robodojo sample_started (get_state (rs_cases ?e))"
    by (simp add: saved_place_def new_robodojo_def)
  moreover have "sound_robodojo sample_slot ?e"
    by (simp add: sound_robodojo_def new_robodojo_def new_cases_def two)
  moreover have "\<forall>e'. sound_robodojo sample_slot e' \<and> get_state (rs_cases e') = get_state (rs_cases ?e) \<longrightarrow>
      (\<exists>ob t. env_reset sample_robodojo sample_slot sample_backend (\<lambda>j. ''x'') sample_extra [0, 1] True e' = (Inr ob, t))"
    using sample_reset_answers by (simp add: new_robodojo_def)
  moreover have "\<forall>i < 2. (at_reset (sample_trouble i) = Late \<or> at_reset (sample_trouble i) = Responds \<and>
      at_snapshot (sample_trouble i) = Late) \<and> at_start (sample_trouble i) = Responds"
    by (simp add: numeral_2_eq_2 All_less_Suc sample_trouble_def)
  moreover have "2 \<le> (2::nat) \<longrightarrow> at_reset (sample_trouble 2) = Responds \<and> at_snapshot (sample_trouble 2) = Responds"
    by (simp add: sample_trouble_def)
  ultimately show ?thesis
    using hung_reset_recovers [OF cl started(1), of sample_extra "[0, 1]" True 240 2 2 sample_trouble] by simp
qed

end
