(* ===== verification/Env_Loop.thy ===== *)
theory Env_Loop
  imports Trajectories
begin

text \<open>
  train_cluster/env_loop.py: the pipelined interaction of the policy with the vector environments.

  A batch is the list of its rows: \<open>'o\<close> the observation of a lane, \<open>'a\<close> what the policy answers for
  it, \<open>'f\<close> what the environment feeds back. All stages share the policy workers, which have a state
  \<open>'p\<close> of their own (call counters, random generators) and answer the requests in the order in which
  they are submitted; every pipeline stage has one simulator per environment worker, with states
  \<open>'s\<close>. A stage is a coroutine that runs from one await to the next: \<open>stage_step\<close> is one such
  stretch, and a run is a sequence of stage ids, the order in which the event loop resumes them. A
  resumed stage that submits a request gets its answer computed there and then, and finds it when it
  is resumed the next time. Timings, memory statistics, the progress bar and \<open>finish_rollout\<close> (which
  only flushes recorders) are left out.
\<close>

section \<open>The loop's parties\<close>

record ('o, 'a, 'f, 's, 'p) world =
  wd_policy :: "'o list \<Rightarrow> 'p \<Rightarrow> 'a list result \<times> 'p"
  wd_step :: "'a list \<Rightarrow> 's \<Rightarrow> ('o \<times> 'f) list result \<times> 's"
  wd_done :: "'f \<Rightarrow> bool list"
  wd_success :: "'f \<Rightarrow> bool list"

record loop_config =
  lc_stage_num :: nat
  lc_workers :: nat
  lc_max_interactions :: nat
  lc_partition_by_worker :: bool
  lc_partition_size :: nat

text \<open>\<open>data.chunk(n)\<close> asserts that the batch divides evenly.\<close>

definition chunk_rows :: "nat \<Rightarrow> 'x list \<Rightarrow> 'x list list result" where
  "chunk_rows n xs =
     (if n = 0 \<or> length xs mod n \<noteq> 0 then Inl AssertionError
      else Inr (chunks (length xs div n) n xs))"

text \<open>The rows of a reset come worker by worker, within a worker stage by stage.\<close>

definition restructure_obs_data :: "loop_config \<Rightarrow> 'o list \<Rightarrow> 'o list list result" where
  "restructure_obs_data cfg rows =
     bind_res (chunk_rows (lc_workers cfg) rows) (\<lambda>per_worker.
     bind_res (traverse (chunk_rows (lc_stage_num cfg)) per_worker) (\<lambda>parts.
       Inr (map (\<lambda>st. concat (map (\<lambda>p. p ! st) parts)) [0..<lc_stage_num cfg])))"

section \<open>Policy requests\<close>

definition worker_parts :: "loop_config \<Rightarrow> 'o list \<Rightarrow> 'o list list result" where
  "worker_parts cfg rows =
     (if lc_partition_size cfg = 0 then Inr [rows]
      else if length rows mod lc_partition_size cfg \<noteq> 0 then Inl ValueError
      else chunk_rows (length rows div lc_partition_size cfg) rows)"

definition split_rollout :: "loop_config \<Rightarrow> 'o list \<Rightarrow> 'o list list result" where
  "split_rollout cfg rows =
     (if \<not> lc_partition_by_worker cfg then Inr [rows]
      else if lc_workers cfg = 0 then Inl ZeroDivisionError
      else if length rows mod lc_workers cfg \<noteq> 0 then Inl ValueError
      else bind_res (chunk_rows (lc_workers cfg) rows) (\<lambda>per_worker.
           bind_res (traverse (worker_parts cfg) per_worker) (\<lambda>parts. Inr (concat parts))))"

text \<open>The requests of one submission, one after the other.\<close>

fun ask_all :: "('o list \<Rightarrow> 'p \<Rightarrow> 'a list result \<times> 'p) \<Rightarrow> 'o list list \<Rightarrow> 'p \<Rightarrow> 'a list result list \<times> 'p" where
  "ask_all policy [] p = ([], p)"
| "ask_all policy (rows # parts) p =
     (case policy rows p of (answer, p') \<Rightarrow>
      case ask_all policy parts p' of (answers, p'') \<Rightarrow> (answer # answers, p''))"

text \<open>All parts have the same length, so a part that cannot be divided is found before any is sent.\<close>

definition submit_rollout ::
  "loop_config \<Rightarrow> ('o, 'a, 'f, 's, 'p) world \<Rightarrow> 'o list \<Rightarrow> 'p \<Rightarrow> 'a list result list result \<times> 'p" where
  "submit_rollout cfg w rows p =
     (case split_rollout cfg rows of
        Inl e \<Rightarrow> (Inl e, p)
      | Inr parts \<Rightarrow> (case ask_all (wd_policy w) parts p of (answers, p') \<Rightarrow> (Inr answers, p')))"

text \<open>
  \<open>asyncio.gather\<close> raises the failure that comes first in time, which may be that of any failing
  part: a failed resolution is the list of the failures it can raise.
\<close>

definition failures :: "'a list result list \<Rightarrow> py_error list" where
  "failures answers = concat (map (\<lambda>r. case r of Inl e \<Rightarrow> [e] | Inr _ \<Rightarrow> []) answers)"

definition resolve_rollout :: "'a list result list \<Rightarrow> py_error list + 'a list" where
  "resolve_rollout answers =
     (if failures answers \<noteq> [] then Inl (failures answers)
      else Inr (concat (map (\<lambda>r. case r of Inl _ \<Rightarrow> [] | Inr rows \<Rightarrow> rows) answers)))"

section \<open>Environment requests\<close>

text \<open>The workers step their simulator of the stage in parallel, whatever the others answer.\<close>

definition env_interact_step ::
  "('o, 'a, 'f, 's, 'p) world \<Rightarrow> 's list \<Rightarrow> 'a list \<Rightarrow> ('o \<times> 'f) list result \<times> 's list" where
  "env_interact_step w sims actions =
     (case chunk_rows (length sims) actions of
        Inl e \<Rightarrow> (Inl e, sims)
      | Inr parts \<Rightarrow>
          (let outs = map2 (wd_step w) parts sims
           in (bind_res (traverse fst outs) (\<lambda>rows. Inr (concat rows)), map snd outs)))"

section \<open>One pipeline stage\<close>

record ('o, 'a, 'f) slot =
  sl_obs :: "'o list"
  sl_action :: "'a list option"
  sl_feedback :: "'f list option"

text \<open>\<open>Raised es\<close>: the stage failed, with one of the errors \<open>es\<close>.\<close>

datatype 'a phase =
  Await_Rollout "'a list result list" | Await_Env "'a list" | Finished | Raised "py_error list"

record ('o, 'a, 'f, 's) stage =
  sg_phase :: "'a phase"
  sg_sims :: "'s list"
  sg_trajectory :: "('o, 'a, 'f) slot list"
  sg_last_obs :: "'o list option"
  sg_step :: nat
  sg_done_lanes :: "bool list option"
  sg_lane_slots :: nat
  sg_idle_slots :: nat
  sg_executed :: nat
  sg_lanes :: "(int \<times> lane_state) list"

text \<open>\<open>progress_lane_state\<close> and the timing counters are keyed by stage, so each stage keeps its own.\<close>

definition submitted ::
  "loop_config \<Rightarrow> ('o, 'a, 'f, 's, 'p) world \<Rightarrow> 'o list \<Rightarrow> 'p \<Rightarrow> 'a phase \<times> 'p" where
  "submitted cfg w rows p =
     (case submit_rollout cfg w rows p of
        (Inl e, p') \<Rightarrow> (Raised [e], p')
      | (Inr answers, p') \<Rightarrow> (Await_Rollout answers, p'))"

definition new_stage :: "loop_config \<Rightarrow> 's list \<Rightarrow> 'o list \<Rightarrow> 'a list result list \<Rightarrow> ('o, 'a, 'f, 's) stage" where
  "new_stage cfg sims obs answers =
     \<lparr>sg_phase = (if lc_max_interactions cfg = 0 then Finished else Await_Rollout answers), sg_sims = sims,
      sg_trajectory = [\<lparr>sl_obs = obs, sl_action = None, sl_feedback = None\<rparr>], sg_last_obs = None, sg_step = 0,
      sg_done_lanes = None, sg_lane_slots = 0, sg_idle_slots = 0, sg_executed = 0, sg_lanes = []\<rparr>"

text \<open>\<open>(chunk_done.cumsum(dim=1) - chunk_done.long()) == 0\<close>: no done step strictly before.\<close>

definition valid_low_level_steps :: "bool list \<Rightarrow> bool list" where
  "valid_low_level_steps ds = map (\<lambda>i. count_true (take (i + 1) ds) - (if ds ! i then 1 else 0) = 0) [0..<length ds]"

definition columns :: "bool list list \<Rightarrow> bool list list" where
  "columns rows = (case rows of [] \<Rightarrow> [] | r # _ \<Rightarrow> map (\<lambda>t. map (\<lambda>row. row ! t) rows) [0..<length r])"

definition after_rollout :: "'a list \<Rightarrow> ('o, 'a, 'f, 's) stage \<Rightarrow> ('o, 'a, 'f, 's) stage" where
  "after_rollout actions sg =
     sg\<lparr>sg_phase := Await_Env actions,
        sg_trajectory := butlast (sg_trajectory sg) @ [(last (sg_trajectory sg))\<lparr>sl_action := Some actions\<rparr>],
        sg_lane_slots := sg_lane_slots sg + length actions,
        sg_idle_slots := sg_idle_slots sg + (case sg_done_lanes sg of None \<Rightarrow> 0 | Some d \<Rightarrow> count_true d)\<rparr>"

definition after_env ::
  "loop_config \<Rightarrow> ('o, 'a, 'f, 's, 'p) world \<Rightarrow> nat \<Rightarrow> ('o \<times> 'f) list \<Rightarrow>
   ('o, 'a, 'f, 's) stage \<times> progress \<times> 'p \<Rightarrow> ('o, 'a, 'f, 's) stage \<times> progress \<times> 'p" where
  "after_env cfg w stage_id rows = (\<lambda>(sg, counts, p).
     let next_obs = map fst rows; feedback = map snd rows;
         chunk_done = map (wd_done w) feedback;
         before = (case sg_done_lanes sg of None \<Rightarrow> replicate (length rows) False | Some d \<Rightarrow> d);
         executed = sum_list (map2 (\<lambda>b ds. if b then 0 else count_true (valid_low_level_steps ds)) before chunk_done);
         done = map2 (\<lambda>b ds. b \<or> list_ex id ds) before chunk_done;
         slot = (last (sg_trajectory sg))\<lparr>sl_feedback := Some feedback\<rparr>;
         more = sg_step sg + 1 < lc_max_interactions cfg;
         (phase, p') = (if more then submitted cfg w next_obs p else (Finished, p))
     in case update_progress_trajectory_counts (length rows) (columns chunk_done)
               (columns (map (wd_success w) feedback)) (int stage_id) counts (sg_lanes sg) of
          (counts', lanes') \<Rightarrow>
            (sg\<lparr>sg_phase := phase,
                sg_trajectory := butlast (sg_trajectory sg) @ [slot] @
                  (if more then [\<lparr>sl_obs = next_obs, sl_action = None, sl_feedback = None\<rparr>] else []),
                sg_last_obs := Some next_obs, sg_step := sg_step sg + 1, sg_done_lanes := Some done,
                sg_executed := sg_executed sg + executed, sg_lanes := lanes'\<rparr>, counts', p'))"

definition stage_step ::
  "loop_config \<Rightarrow> ('o, 'a, 'f, 's, 'p) world \<Rightarrow> nat \<Rightarrow>
   ('o, 'a, 'f, 's) stage \<times> progress \<times> 'p \<Rightarrow> ('o, 'a, 'f, 's) stage \<times> progress \<times> 'p" where
  "stage_step cfg w stage_id = (\<lambda>(sg, counts, p).
     case sg_phase sg of
       Await_Rollout answers \<Rightarrow>
         (case resolve_rollout answers of
            Inl es \<Rightarrow> (sg\<lparr>sg_phase := Raised es\<rparr>, counts, p)
          | Inr actions \<Rightarrow> (after_rollout actions sg, counts, p))
     | Await_Env actions \<Rightarrow>
         (case env_interact_step w (sg_sims sg) actions of
            (Inl e, sims) \<Rightarrow> (sg\<lparr>sg_phase := Raised [e], sg_sims := sims\<rparr>, counts, p)
          | (Inr rows, sims) \<Rightarrow> after_env cfg w stage_id rows (sg\<lparr>sg_sims := sims\<rparr>, counts, p))
     | _ \<Rightarrow> (sg, counts, p))"

section \<open>All stages\<close>

text \<open>
  \<open>lp_failure\<close> is what the gathering of the stages raises: the failure of the stage that failed first.
\<close>

record ('o, 'a, 'f, 's, 'p) loop =
  lp_stages :: "('o, 'a, 'f, 's) stage list"
  lp_progress :: progress
  lp_policy :: 'p
  lp_failure :: "py_error list option"

definition first_failure :: "py_error list option \<Rightarrow> ('o, 'a, 'f, 's) stage \<Rightarrow> py_error list option" where
  "first_failure failed sg =
     (case failed of
        Some es \<Rightarrow> Some es
      | None \<Rightarrow> (case sg_phase sg of Raised es \<Rightarrow> Some es | _ \<Rightarrow> None))"

definition loop_step ::
  "loop_config \<Rightarrow> ('o, 'a, 'f, 's, 'p) world \<Rightarrow> nat \<Rightarrow> ('o, 'a, 'f, 's, 'p) loop \<Rightarrow> ('o, 'a, 'f, 's, 'p) loop" where
  "loop_step cfg w i lp =
     (case stage_step cfg w i (lp_stages lp ! i, lp_progress lp, lp_policy lp) of
        (sg, counts, p) \<Rightarrow>
          lp\<lparr>lp_stages := (lp_stages lp)[i := sg], lp_progress := counts, lp_policy := p,
             lp_failure := first_failure (lp_failure lp) sg\<rparr>)"

fun stages_run ::
  "loop_config \<Rightarrow> ('o, 'a, 'f, 's, 'p) world \<Rightarrow> nat list \<Rightarrow> ('o, 'a, 'f, 's, 'p) loop \<Rightarrow> ('o, 'a, 'f, 's, 'p) loop" where
  "stages_run cfg w [] lp = lp"
| "stages_run cfg w (i # order) lp = stages_run cfg w order (loop_step cfg w i lp)"

section \<open>Collation\<close>

type_synonym ('o, 'a, 'f) lane_trajectory = "'o list \<times> 'a list \<times> 'f list"

definition slot_rows :: "('o, 'a, 'f) slot \<Rightarrow> ('o list \<times> 'a list \<times> 'f list) result" where
  "slot_rows sl =
     (case (sl_action sl, sl_feedback sl) of
        (Some a, Some f) \<Rightarrow> Inr (sl_obs sl, a, f)
      | _ \<Rightarrow> Inl KeyError)"

text \<open>Stacking along the second axis needs the same number of rows at every step.\<close>

definition collate_stage :: "('o, 'a, 'f) slot list \<Rightarrow> ('o, 'a, 'f) lane_trajectory list result" where
  "collate_stage slots =
     bind_res (traverse slot_rows slots) (\<lambda>steps.
       case steps of
         [] \<Rightarrow> Inr []
       | (o0, _, _) # _ \<Rightarrow>
           let n = length o0 in
           bind_res (require (\<forall>(os, as, fs) \<in> set steps. length os = n \<and> length as = n \<and> length fs = n) RuntimeError) (\<lambda>_.
             Inr (map (\<lambda>i. (map (\<lambda>(os, as, fs). os ! i) steps, map (\<lambda>(os, as, fs). as ! i) steps,
                             map (\<lambda>(os, as, fs). fs ! i) steps)) [0..<n])))"

definition collate_trajectories :: "('o, 'a, 'f) slot list list \<Rightarrow> ('o, 'a, 'f) lane_trajectory list result" where
  "collate_trajectories trajectories =
     (case trajectories of
        [] \<Rightarrow> Inl ValueError
      | t # _ \<Rightarrow>
          bind_res (require (\<forall>u \<in> set trajectories. length u = length t) ValueError) (\<lambda>_.
          bind_res (traverse collate_stage trajectories) (\<lambda>stages. Inr (concat stages))))"

definition last_observations :: "('o, 'a, 'f, 's) stage list \<Rightarrow> 'o list result" where
  "last_observations stages =
     bind_res (traverse (\<lambda>sg. case sg_last_obs sg of None \<Rightarrow> Inl KeyError | Some rows \<Rightarrow> Inr rows) stages)
       (\<lambda>parts. Inr (concat parts))"

section \<open>A run\<close>

text \<open>The first requests of all stages, in the order of the stages.\<close>

fun submit_stages ::
  "loop_config \<Rightarrow> ('o, 'a, 'f, 's, 'p) world \<Rightarrow> 'o list list \<Rightarrow> 'p \<Rightarrow> 'a list result list list result \<times> 'p" where
  "submit_stages cfg w [] p = (Inr [], p)"
| "submit_stages cfg w (rows # staged) p =
     (case submit_rollout cfg w rows p of
        (Inl e, p') \<Rightarrow> (Inl e, p')
      | (Inr answers, p') \<Rightarrow>
          (case submit_stages cfg w staged p' of
             (Inl e, p'') \<Rightarrow> (Inl e, p'')
           | (Inr futures, p'') \<Rightarrow> (Inr (answers # futures), p'')))"

definition start_loop ::
  "loop_config \<Rightarrow> ('o, 'a, 'f, 's, 'p) world \<Rightarrow> 's list list \<Rightarrow> 'p \<Rightarrow> nat \<Rightarrow> 'o list \<Rightarrow>
   ('o, 'a, 'f, 's, 'p) loop result" where
  "start_loop cfg w sims p active reset_rows =
     bind_res (require (1 \<le> active \<and> active \<le> lc_stage_num cfg) ValueError) (\<lambda>_.
     bind_res (restructure_obs_data cfg reset_rows) (\<lambda>staged.
     case submit_stages cfg w (take active staged) p of
       (Inl e, _) \<Rightarrow> Inl e
     | (Inr futures, p') \<Rightarrow>
         Inr \<lparr>lp_stages = map (\<lambda>i. new_stage cfg (sims ! i) (staged ! i) (futures ! i)) [0..<active],
              lp_progress = \<lparr>done_eps = 0, succ_eps = 0\<rparr>, lp_policy = p', lp_failure = None\<rparr>))"

definition finished :: "('o, 'a, 'f, 's) stage \<Rightarrow> bool" where
  "finished sg = (case sg_phase sg of Finished \<Rightarrow> True | _ \<Rightarrow> False)"

text \<open>\<open>None\<close>: some stage still waits. \<open>Inl es\<close>: the rollout raises one of the errors \<open>es\<close>.\<close>

definition one_error :: "'x result \<Rightarrow> py_error list + 'x" where
  "one_error r = (case r of Inl e \<Rightarrow> Inl [e] | Inr x \<Rightarrow> Inr x)"

definition loop_result ::
  "('o, 'a, 'f, 's, 'p) loop \<Rightarrow>
   (py_error list + ('o, 'a, 'f) lane_trajectory list \<times> 'o list \<times> progress) option" where
  "loop_result lp =
     (case lp_failure lp of
        Some es \<Rightarrow> Some (Inl es)
      | None \<Rightarrow>
          if list_all finished (lp_stages lp)
          then Some (one_error
                 (bind_res (collate_trajectories (map sg_trajectory (lp_stages lp))) (\<lambda>output.
                  bind_res (last_observations (lp_stages lp)) (\<lambda>last_obs.
                    Inr (output, last_obs, lp_progress lp)))))
          else None)"

definition run_env_loop ::
  "loop_config \<Rightarrow> ('o, 'a, 'f, 's, 'p) world \<Rightarrow> 's list list \<Rightarrow> 'p \<Rightarrow> nat \<Rightarrow> 'o list \<Rightarrow> nat list \<Rightarrow>
   (py_error list + ('o, 'a, 'f) lane_trajectory list \<times> 'o list \<times> progress) option" where
  "run_env_loop cfg w sims p active reset_rows order =
     (case start_loop cfg w sims p active reset_rows of
        Inl e \<Rightarrow> Some (Inl [e])
      | Inr lp \<Rightarrow> loop_result (stages_run cfg w order lp))"

end
