(* ===== verification/Env_Loop_Properties.thy ===== *)
theory Env_Loop_Properties
  imports Env_Loop
begin

text \<open>
  The pipelined loop gives the same result in whatever order its stages are resumed, and
  amounts to one policy and simulator loop per worker and stage, collated stage by stage.
\<close>

section \<open>Counting is additive\<close>

definition add_counts :: "progress \<Rightarrow> progress \<Rightarrow> progress" where
  "add_counts a b = \<lparr>done_eps = done_eps a + done_eps b, succ_eps = succ_eps a + succ_eps b\<rparr>"

abbreviation no_counts :: progress where
  "no_counts \<equiv> \<lparr>done_eps = 0, succ_eps = 0\<rparr>"

lemma add_no_counts [simp]: "add_counts c no_counts = c" "add_counts no_counts c = c"
  by (simp_all add: add_counts_def)

lemma add_counts_assoc: "add_counts (add_counts a b) c = add_counts a (add_counts b c)"
  by (simp add: add_counts_def)

lemma add_counts_commute: "add_counts a b = add_counts b a"
  by (simp add: add_counts_def)

lemma progress_step_shift:
  "progress_step x (c\<lparr>ck_counts := add_counts k (ck_counts c)\<rparr>) =
   (progress_step x c)\<lparr>ck_counts := add_counts k (ck_counts (progress_step x c))\<rparr>"
  by (cases x) (simp add: progress_step_def Let_def add_counts_def)

lemma progress_fold_shift:
  "foldl (\<lambda>c x. progress_step x c) (c\<lparr>ck_counts := add_counts k (ck_counts c)\<rparr>) xs =
   (foldl (\<lambda>c x. progress_step x c) c xs)\<lparr>ck_counts := add_counts k (ck_counts (foldl (\<lambda>c x. progress_step x c) c xs))\<rparr>"
proof (induction xs arbitrary: c)
  case (Cons x xs)
  show ?case unfolding foldl_Cons progress_step_shift by (rule Cons.IH)
qed simp

lemma update_progress_shift:
  "update_progress_trajectory_counts b ds ss st counts lanes =
   (case update_progress_trajectory_counts b ds ss st no_counts lanes of (c, l) \<Rightarrow> (add_counts counts c, l))"
proof -
  define fresh where "fresh = (case map_of lanes st of
      None \<Rightarrow> \<lparr>ls_done = replicate b False, ls_success = replicate b False\<rparr> | Some s \<Rightarrow> s)"
  let ?c0 = "\<lparr>ck_prev = ls_done fresh, ck_success = ls_success fresh,
      ck_completed = replicate (length (ls_done fresh)) False, ck_counts = no_counts\<rparr>"
  have "foldl (\<lambda>c x. progress_step x c) (?c0\<lparr>ck_counts := counts\<rparr>) xs =
      (foldl (\<lambda>c x. progress_step x c) ?c0 xs)\<lparr>ck_counts := add_counts counts (ck_counts (foldl (\<lambda>c x. progress_step x c) ?c0 xs))\<rparr>" for xs
    using progress_fold_shift [of counts ?c0 xs] by simp
  from this [of "zip ds ss"] show ?thesis
    by (simp add: update_progress_trajectory_counts_def Let_def fresh_def [symmetric])
qed

section \<open>A step of a stage\<close>

text \<open>
  The answers of a policy that keeps no memory of earlier requests are a function of the batch; then
  a stage can be looked at on its own, with that function for the shared workers.
\<close>

definition history_free :: "('o, 'a, 'f, 's, 'p) world \<Rightarrow> bool" where
  "history_free w \<longleftrightarrow> (\<forall>rows p p'. fst (wd_policy w rows p) = fst (wd_policy w rows p'))"

definition plain :: "'p \<Rightarrow> ('o, 'a, 'f, 's, 'p) world \<Rightarrow> ('o, 'a, 'f, 's, unit) world" where
  "plain p w = \<lparr>wd_policy = \<lambda>rows _. (fst (wd_policy w rows p), ()), wd_step = wd_step w,
                wd_done = wd_done w, wd_success = wd_success w\<rparr>"

lemma plain_simps [simp]:
  "wd_policy (plain p w) = (\<lambda>rows _. (fst (wd_policy w rows p), ()))" "wd_step (plain p w) = wd_step w"
  "wd_done (plain p w) = wd_done w" "wd_success (plain p w) = wd_success w"
  by (simp_all add: plain_def)

lemma ask_all_plain:
  assumes "history_free w"
  shows "fst (ask_all (wd_policy w) parts q) = fst (ask_all (wd_policy (plain p w)) parts u)"
proof (induction parts arbitrary: q u)
  case (Cons rows parts)
  have "fst (wd_policy w rows q) = fst (wd_policy w rows p)" using assms by (auto simp: history_free_def)
  with Cons.IH show ?case by (simp add: case_prod_beta)
qed simp

lemma submit_plain:
  "history_free w \<Longrightarrow> fst (submit_rollout cfg w rows q) = fst (submit_rollout cfg (plain p w) rows u)"
  using ask_all_plain [of w _ q p u] by (simp add: submit_rollout_def case_prod_beta del: plain_simps split: sum.split)

lemma submitted_plain:
  "history_free w \<Longrightarrow> fst (submitted cfg w rows q) = fst (submitted cfg (plain p w) rows u)"
  using submit_plain [of w cfg rows q p u] by (auto simp: submitted_def split: prod.split sum.split)

lemma env_interact_plain: "env_interact_step (plain p w) = env_interact_step w"
  by (simp add: env_interact_step_def fun_eq_iff split: sum.split)

definition own_step ::
  "loop_config \<Rightarrow> ('o, 'a, 'f, 's, unit) world \<Rightarrow> nat \<Rightarrow> ('o, 'a, 'f, 's) stage \<Rightarrow> ('o, 'a, 'f, 's) stage" where
  "own_step cfg w i sg = fst (stage_step cfg w i (sg, no_counts, ()))"

definition gain ::
  "loop_config \<Rightarrow> ('o, 'a, 'f, 's, unit) world \<Rightarrow> nat \<Rightarrow> ('o, 'a, 'f, 's) stage \<Rightarrow> progress" where
  "gain cfg w i sg = fst (snd (stage_step cfg w i (sg, no_counts, ())))"

lemma after_env_plain:
  assumes "history_free w"
  shows "fst (after_env cfg w i rows (sg, c, q)) = fst (after_env cfg (plain p w) i rows (sg, no_counts, ())) \<and>
    fst (snd (after_env cfg w i rows (sg, c, q))) =
      add_counts c (fst (snd (after_env cfg (plain p w) i rows (sg, no_counts, ()))))"
  using update_progress_shift [of "length rows" "columns (map (wd_done w) (map snd rows))"
      "columns (map (wd_success w) (map snd rows))" "int i" c "sg_lanes sg"]
    submitted_plain [OF assms, of cfg "map fst rows" q p "()"]
  by (simp add: after_env_def Let_def case_prod_beta)

lemma stage_step_plain:
  assumes "history_free w"
  shows "fst (stage_step cfg w i (sg, c, q)) = own_step cfg (plain p w) i sg \<and>
    fst (snd (stage_step cfg w i (sg, c, q))) = add_counts c (gain cfg (plain p w) i sg)"
  unfolding own_step_def gain_def
proof (cases "sg_phase sg")
  case (Await_Rollout answers)
  then show "fst (stage_step cfg w i (sg, c, q)) = fst (stage_step cfg (plain p w) i (sg, no_counts, ())) \<and>
      fst (snd (stage_step cfg w i (sg, c, q))) =
        add_counts c (fst (snd (stage_step cfg (plain p w) i (sg, no_counts, ()))))"
    by (simp add: stage_step_def split: sum.split)
next
  case (Await_Env acts)
  then show "fst (stage_step cfg w i (sg, c, q)) = fst (stage_step cfg (plain p w) i (sg, no_counts, ())) \<and>
      fst (snd (stage_step cfg w i (sg, c, q))) =
        add_counts c (fst (snd (stage_step cfg (plain p w) i (sg, no_counts, ()))))"
    using after_env_plain [OF assms] by (simp add: stage_step_def env_interact_plain split: prod.split sum.split)
qed (simp_all add: stage_step_def)

lemma loop_step_stages [simp]:
  "lp_stages (loop_step cfg w i lp) =
     (lp_stages lp)[i := fst (stage_step cfg w i (lp_stages lp ! i, lp_progress lp, lp_policy lp))]"
  by (simp add: loop_step_def case_prod_beta)

lemma loop_step_failure [simp]:
  "lp_failure (loop_step cfg w i lp) =
     first_failure (lp_failure lp) (fst (stage_step cfg w i (lp_stages lp ! i, lp_progress lp, lp_policy lp)))"
  by (simp add: loop_step_def case_prod_beta)

lemma loop_step_plain:
  assumes "history_free w"
  shows "lp_stages (loop_step cfg w i lp) = (lp_stages lp)[i := own_step cfg (plain p w) i (lp_stages lp ! i)]"
    and "lp_progress (loop_step cfg w i lp) = add_counts (lp_progress lp) (gain cfg (plain p w) i (lp_stages lp ! i))"
  using stage_step_plain [OF assms, of cfg i "lp_stages lp ! i" "lp_progress lp" "lp_policy lp" p]
  by (simp_all add: loop_step_def case_prod_beta)

section \<open>The order of the stages does not matter\<close>

lemma stages_run_length [simp]: "length (lp_stages (stages_run cfg w order lp)) = length (lp_stages lp)"
  by (induction order arbitrary: lp) simp_all

lemma stages_run_stage:
  assumes "history_free w"
  shows "i < length (lp_stages lp) \<Longrightarrow>
    lp_stages (stages_run cfg w order lp) ! i = (own_step cfg (plain p w) i ^^ count_list order i) (lp_stages lp ! i)"
proof (induction order arbitrary: lp)
  case (Cons j order)
  then show ?case
    by (cases "j = i") (simp_all add: funpow_swap1 loop_step_plain(1) [OF assms, of _ _ _ p] del: loop_step_stages)
qed simp

text \<open>What a stage adds to a count in its first \<open>k\<close> steps.\<close>

definition gains ::
  "(progress \<Rightarrow> nat) \<Rightarrow> loop_config \<Rightarrow> ('o, 'a, 'f, 's, unit) world \<Rightarrow> nat \<Rightarrow> nat \<Rightarrow> ('o, 'a, 'f, 's) stage \<Rightarrow> nat" where
  "gains c cfg w i k sg = (\<Sum>j<k. c (gain cfg w i ((own_step cfg w i ^^ j) sg)))"

lemma gains_Suc: "gains c cfg w i (Suc k) sg = c (gain cfg w i sg) + gains c cfg w i k (own_step cfg w i sg)"
  unfolding gains_def by (subst sum.lessThan_Suc_shift) (simp add: funpow_swap1)

lemma stages_run_progress:
  assumes "history_free w" and "\<And>a b. c (add_counts a b) = c a + c b" and "set order \<subseteq> {..<length (lp_stages lp)}"
  shows "c (lp_progress (stages_run cfg w order lp)) =
    c (lp_progress lp) + (\<Sum>i<length (lp_stages lp). gains c cfg (plain p w) i (count_list order i) (lp_stages lp ! i))"
  using assms(3)
proof (induction order arbitrary: lp)
  case Nil
  then show ?case by (simp add: gains_def)
next
  case (Cons j order)
  let ?n = "length (lp_stages lp)" and ?v = "plain p w"
  let ?g = "\<lambda>i. gains c cfg ?v i (count_list (j # order) i) (lp_stages lp ! i)"
  let ?h = "\<lambda>i. gains c cfg ?v i (count_list order i) ((lp_stages lp)[j := own_step cfg ?v j (lp_stages lp ! j)] ! i)"
  note step = loop_step_plain [OF assms(1), of cfg j lp p]
  from Cons.prems have j: "j < ?n" by simp
  have "?g i = ?h i" if "i \<noteq> j" for i using that by simp
  then have "(\<Sum>i\<in>{..<?n} - {j}. ?g i) = (\<Sum>i\<in>{..<?n} - {j}. ?h i)" by (intro sum.cong) auto
  moreover have "?g j = c (gain cfg ?v j (lp_stages lp ! j)) + ?h j" using j by (simp add: gains_Suc)
  ultimately have "(\<Sum>i<?n. ?g i) = c (gain cfg ?v j (lp_stages lp ! j)) + (\<Sum>i<?n. ?h i)"
    using j by (simp add: sum.remove [of "{..<?n}" j])
  with Cons.IH [of "loop_step cfg w j lp", unfolded step length_list_update] Cons.prems show ?case
    by (simp add: step(2) assms(2) del: loop_step_stages)
qed

section \<open>Every stage comes to an end\<close>

definition raised :: "('o, 'a, 'f, 's) stage \<Rightarrow> bool" where
  "raised sg \<longleftrightarrow> (\<exists>es. sg_phase sg = Raised es)"

definition over :: "('o, 'a, 'f, 's) stage \<Rightarrow> bool" where
  "over sg \<longleftrightarrow> finished sg \<or> raised sg"

text \<open>How many more times a stage that does not fail is resumed.\<close>

definition remaining :: "loop_config \<Rightarrow> ('o, 'a, 'f, 's) stage \<Rightarrow> nat" where
  "remaining cfg sg =
     (case sg_phase sg of
        Await_Rollout _ \<Rightarrow> 2 * (lc_max_interactions cfg - sg_step sg)
      | Await_Env _ \<Rightarrow> 2 * (lc_max_interactions cfg - sg_step sg) - 1
      | _ \<Rightarrow> 0)"

definition in_bounds :: "loop_config \<Rightarrow> ('o, 'a, 'f, 's) stage \<Rightarrow> bool" where
  "in_bounds cfg sg \<longleftrightarrow> over sg \<or> sg_step sg < lc_max_interactions cfg"

lemmas over_defs = over_def finished_def raised_def

lemma stage_step_over: "over sg \<Longrightarrow> stage_step cfg w i (sg, c, q) = (sg, c, q)"
  by (cases "sg_phase sg") (simp_all add: over_defs stage_step_def)

lemma stage_step_decreases:
  assumes "in_bounds cfg sg" and "\<not> over sg"
  shows "in_bounds cfg (fst (stage_step cfg w i (sg, c, q))) \<and>
    remaining cfg (fst (stage_step cfg w i (sg, c, q))) < remaining cfg sg"
  using assms
  by (auto simp: in_bounds_def over_defs stage_step_def after_rollout_def after_env_def submitted_def remaining_def
      Let_def split: phase.splits sum.splits prod.splits)

lemma over_step: "over sg \<Longrightarrow> own_step cfg w i sg = sg \<and> gain cfg w i sg = no_counts"
  by (simp add: own_step_def gain_def stage_step_over)

lemma over_steps: "over sg \<Longrightarrow> (own_step cfg w i ^^ k) sg = sg"
  by (induction k) (simp_all add: over_step)

lemma step_decreases:
  assumes "in_bounds cfg sg" and "\<not> over sg"
  shows "in_bounds cfg (own_step cfg w i sg) \<and> remaining cfg (own_step cfg w i sg) < remaining cfg sg"
  unfolding own_step_def by (rule stage_step_decreases [OF assms])

lemma stages_run_over:
  assumes "i < length (lp_stages lp)" and "in_bounds cfg (lp_stages lp ! i)"
    and "remaining cfg (lp_stages lp ! i) \<le> count_list order i"
  shows "over (lp_stages (stages_run cfg w order lp) ! i)"
  using assms
proof (induction order arbitrary: lp)
  case Nil
  then show ?case by (auto simp: remaining_def in_bounds_def over_defs split: phase.splits)
next
  case (Cons j order)
  let ?sg = "fst (stage_step cfg w j (lp_stages lp ! j, lp_progress lp, lp_policy lp))"
  have "in_bounds cfg (lp_stages (loop_step cfg w j lp) ! i) \<and>
      remaining cfg (lp_stages (loop_step cfg w j lp) ! i) \<le> count_list order i"
  proof (cases "j = i")
    case True
    show ?thesis
    proof (cases "over (lp_stages lp ! i)")
      case over: True
      then have "remaining cfg (lp_stages lp ! i) = 0" by (auto simp: over_defs remaining_def split: phase.splits)
      with over True Cons.prems show ?thesis by (simp add: stage_step_over)
    next
      case False
      from stage_step_decreases [OF Cons.prems(2) this, of w i "lp_progress lp" "lp_policy lp"] True Cons.prems
      show ?thesis by auto
    qed
  qed (use Cons.prems in simp)
  with Cons.IH [of "loop_step cfg w j lp"] Cons.prems(1) show ?case by simp
qed

lemma over_eventually:
  "in_bounds cfg sg \<Longrightarrow> remaining cfg sg \<le> k \<Longrightarrow> over ((own_step cfg w i ^^ k) sg)"
proof (induction k arbitrary: sg)
  case 0
  then show ?case by (auto simp: remaining_def in_bounds_def over_defs split: phase.splits)
next
  case (Suc k)
  show ?case
  proof (cases "over sg")
    case True
    then show ?thesis by (simp add: over_steps del: funpow.simps)
  next
    case False
    from step_decreases [OF Suc.prems(1) this, of w i] Suc.prems(2)
    have "over ((own_step cfg w i ^^ k) (own_step cfg w i sg))" by (intro Suc.IH) auto
    then show ?thesis by (simp add: funpow_swap1)
  qed
qed

lemma steps_settle:
  assumes "in_bounds cfg sg" and "remaining cfg sg \<le> k" and "k \<le> k'"
  shows "(own_step cfg w i ^^ k') sg = (own_step cfg w i ^^ k) sg" and "gains c cfg w i k' sg = gains c cfg w i k sg + (k' - k) * c no_counts"
proof -
  define sg' where "sg' = (own_step cfg w i ^^ k) sg"
  have o1: "over sg'" using over_eventually [OF assms(1,2)] by (simp add: sg'_def)
  have at: "(own_step cfg w i ^^ (k + d)) sg = sg'" for d
    using over_steps [OF o1] by (simp add: sg'_def add.commute [of k] funpow_add)
  from at [of "k' - k"] assms(3) show "(own_step cfg w i ^^ k') sg = (own_step cfg w i ^^ k) sg" by (simp add: sg'_def)
  have "gains c cfg w i (k + d) sg = gains c cfg w i k sg + d * c no_counts" for d
    using at over_step [OF o1] by (induction d) (simp_all add: gains_def)
  from this [of "k' - k"] assms(3) show "gains c cfg w i k' sg = gains c cfg w i k sg + (k' - k) * c no_counts" by simp
qed

lemma new_stage_in_bounds: "in_bounds cfg (new_stage cfg sims obs parts)" "remaining cfg (new_stage cfg sims obs parts) \<le> 2 * lc_max_interactions cfg"
  by (simp_all add: in_bounds_def over_defs new_stage_def remaining_def)

definition complete_order :: "loop_config \<Rightarrow> nat \<Rightarrow> nat list \<Rightarrow> bool" where
  "complete_order cfg active order \<longleftrightarrow>
     set order \<subseteq> {..<active} \<and> (\<forall>i < active. 2 * lc_max_interactions cfg \<le> count_list order i)"

lemma start_loop_stages:
  assumes "start_loop cfg w sims p active reset_rows = Inr lp"
  shows "length (lp_stages lp) = active" and "lp_progress lp = no_counts" and "lp_failure lp = None"
    and "i < active \<Longrightarrow> \<exists>s obs answers. lp_stages lp ! i = new_stage cfg s obs answers"
proof -
  obtain staged where staged: "restructure_obs_data cfg reset_rows = Inr staged"
    using assms by (auto simp: start_loop_def bind_res_Inr_iff)
  obtain r q where "submit_stages cfg w (take active staged) p = (r, q)" by force
  with assms staged obtain futures where
    "lp = \<lparr>lp_stages = map (\<lambda>i. new_stage cfg (sims ! i) (staged ! i) (futures ! i)) [0..<active],
           lp_progress = no_counts, lp_policy = q, lp_failure = None\<rparr>"
    by (cases r) (auto simp: start_loop_def bind_res_Inr_iff)
  then show "length (lp_stages lp) = active" and "lp_progress lp = no_counts" and "lp_failure lp = None"
    and "i < active \<Longrightarrow> \<exists>s obs answers. lp_stages lp ! i = new_stage cfg s obs answers"
    by auto
qed

lemma complete_run:
  assumes "history_free w" and "start_loop cfg w sims p active reset_rows = Inr lp" and "complete_order cfg active order"
  shows "lp_stages (stages_run cfg w order lp) =
      map (\<lambda>i. (own_step cfg (plain p w) i ^^ (2 * lc_max_interactions cfg)) (lp_stages lp ! i)) [0..<active]"
    and "lp_progress (stages_run cfg w order lp) =
      \<lparr>done_eps = (\<Sum>i<active. gains done_eps cfg (plain p w) i (2 * lc_max_interactions cfg) (lp_stages lp ! i)),
       succ_eps = (\<Sum>i<active. gains succ_eps cfg (plain p w) i (2 * lc_max_interactions cfg) (lp_stages lp ! i))\<rparr>"
proof -
  note start = start_loop_stages [OF assms(2)]
  let ?N = "2 * lc_max_interactions cfg"
  have w: "in_bounds cfg (lp_stages lp ! i)" "remaining cfg (lp_stages lp ! i) \<le> ?N" if "i < active" for i
    using start(4) [OF that] new_stage_in_bounds by auto
  have n: "?N \<le> count_list order i" if "i < active" for i using assms(3) that by (simp add: complete_order_def)
  show "lp_stages (stages_run cfg w order lp) =
      map (\<lambda>i. (own_step cfg (plain p w) i ^^ ?N) (lp_stages lp ! i)) [0..<active]"
    by (rule nth_equalityI)
       (simp_all add: start(1) stages_run_stage [OF assms(1), of _ _ _ _ p] steps_settle(1) [OF w n])
  show "lp_progress (stages_run cfg w order lp) =
      \<lparr>done_eps = (\<Sum>i<active. gains done_eps cfg (plain p w) i ?N (lp_stages lp ! i)),
       succ_eps = (\<Sum>i<active. gains succ_eps cfg (plain p w) i ?N (lp_stages lp ! i))\<rparr>"
    using stages_run_progress [OF assms(1), of done_eps order lp cfg p]
      stages_run_progress [OF assms(1), of succ_eps order lp cfg p] assms(3) start(1,2)
    by (auto simp: complete_order_def add_counts_def steps_settle(2) [OF w n] intro!: progress.equality)
qed

section \<open>Failures\<close>

text \<open>The recorded failure is that of a stage, and there is one as soon as a stage has failed.\<close>

definition failure_known :: "('o, 'a, 'f, 's, 'p) loop \<Rightarrow> bool" where
  "failure_known lp \<longleftrightarrow>
     (case lp_failure lp of
        None \<Rightarrow> \<forall>sg \<in> set (lp_stages lp). \<not> raised sg
      | Some es \<Rightarrow> \<exists>i < length (lp_stages lp). sg_phase (lp_stages lp ! i) = Raised es)"

lemma failure_known_step:
  assumes "failure_known lp" and "i < length (lp_stages lp)"
  shows "failure_known (loop_step cfg w i lp)"
proof (cases "lp_failure lp")
  case None
  let ?sg = "fst (stage_step cfg w i (lp_stages lp ! i, lp_progress lp, lp_policy lp))"
  have clean: "\<not> raised sg" if "sg \<in> set (lp_stages lp)" for sg
    using assms(1) None that by (simp add: failure_known_def)
  show ?thesis
  proof (cases "\<exists>es. sg_phase ?sg = Raised es")
    case True
    then obtain es where es: "sg_phase ?sg = Raised es" by blast
    show ?thesis
      using assms(2) None es by (auto simp: failure_known_def first_failure_def intro!: exI [of _ i])
  next
    case False
    then have "first_failure None ?sg = None" by (simp add: first_failure_def split: phase.split)
    with clean False assms(2) None show ?thesis
      by (auto simp: failure_known_def raised_def dest!: subsetD [OF set_update_subset_insert])
  qed
next
  case (Some es)
  then obtain j where j: "j < length (lp_stages lp)" "sg_phase (lp_stages lp ! j) = Raised es"
    using assms(1) by (auto simp: failure_known_def)
  then have "over (lp_stages lp ! j)" by (simp add: over_defs)
  then have "lp_stages (loop_step cfg w i lp) ! j = lp_stages lp ! j"
    using j(1) by (cases "j = i") (simp_all add: stage_step_over)
  with Some j show ?thesis by (auto simp: failure_known_def first_failure_def simp del: loop_step_stages
        intro!: exI [of _ j]) simp
qed

lemma failure_known_run:
  "failure_known lp \<Longrightarrow> set order \<subseteq> {..<length (lp_stages lp)} \<Longrightarrow> failure_known (stages_run cfg w order lp)"
  by (induction order arbitrary: lp) (simp_all add: failure_known_step)

lemma start_loop_failure:
  assumes "start_loop cfg w sims p active reset_rows = Inr lp"
  shows "failure_known lp"
proof -
  have "\<not> raised (lp_stages lp ! i)" if "i < active" for i
    using start_loop_stages(4) [OF assms that] by (auto simp: raised_def new_stage_def split: if_splits)
  then show ?thesis
    using start_loop_stages(1,3) [OF assms] by (auto simp: failure_known_def in_set_conv_nth)
qed

text \<open>What each stage that fails raises when it runs on its own.\<close>

definition stage_failure ::
  "loop_config \<Rightarrow> ('o, 'a, 'f, 's, 'p) world \<Rightarrow> nat \<Rightarrow> ('o, 'a, 'f, 's, 'p) loop \<Rightarrow> py_error list option" where
  "stage_failure cfg w i lp = lp_failure (stages_run cfg w (replicate (2 * lc_max_interactions cfg) i) lp)"

definition stage_failures ::
  "loop_config \<Rightarrow> ('o, 'a, 'f, 's, 'p) world \<Rightarrow> 's list list \<Rightarrow> 'p \<Rightarrow> nat \<Rightarrow> 'o list \<Rightarrow> py_error list list" where
  "stage_failures cfg w sims p active reset_rows =
     (case start_loop cfg w sims p active reset_rows of
        Inl _ \<Rightarrow> []
      | Inr lp \<Rightarrow> List.map_filter (\<lambda>i. stage_failure cfg w i lp) [0..<active])"

lemma stage_failure_iff:
  assumes "history_free w" and "start_loop cfg w sims p active reset_rows = Inr lp" and "i < active"
  shows "stage_failure cfg w i lp = Some es \<longleftrightarrow>
    sg_phase ((own_step cfg (plain p w) i ^^ (2 * lc_max_interactions cfg)) (lp_stages lp ! i)) = Raised es"
proof -
  let ?N = "2 * lc_max_interactions cfg" and ?r = "stages_run cfg w (replicate (2 * lc_max_interactions cfg) i) lp"
  note start = start_loop_stages [OF assms(2)]
  have st: "lp_stages ?r ! j = (if j = i then (own_step cfg (plain p w) i ^^ ?N) (lp_stages lp ! i) else lp_stages lp ! j)"
    if "j < active" for j
  proof -
    have "count_list (replicate n i) j = (if j = i then n else 0)" for n by (induction n) auto
    then show ?thesis using stages_run_stage [OF assms(1), of j lp cfg "replicate ?N i" p] that start(1) by simp
  qed
  have fresh: "\<not> raised (lp_stages lp ! j)" if "j < active" for j
    using start(4) [OF that] by (auto simp: raised_def new_stage_def split: if_splits)
  have "failure_known ?r"
    using start_loop_failure [OF assms(2)] assms(3) start(1) by (intro failure_known_run) auto
  with st fresh assms(3) start(1) show ?thesis
    unfolding stage_failure_def failure_known_def
    by (cases "lp_failure ?r") (fastforce simp: raised_def in_set_conv_nth split: if_splits)+
qed

lemma complete_run_ends:
  assumes "start_loop cfg w sims p active reset_rows = Inr lp" and "complete_order cfg active order"
  shows "loop_result (stages_run cfg w order lp) \<noteq> None"
proof (cases "lp_failure (stages_run cfg w order lp)")
  case None
  note start = start_loop_stages [OF assms(1)]
  let ?r = "stages_run cfg w order lp"
  have over: "over sg" if sg: "sg \<in> set (lp_stages ?r)" for sg
  proof -
    obtain i where i: "i < active" "sg = lp_stages ?r ! i" using sg start(1) by (auto simp: in_set_conv_nth)
    obtain s obs answers where "lp_stages lp ! i = new_stage cfg s obs answers" using start(4) [OF i(1)] by blast
    moreover have "2 * lc_max_interactions cfg \<le> count_list order i"
      using assms(2) i(1) by (simp add: complete_order_def)
    ultimately show ?thesis
      using stages_run_over [of i lp cfg order w] new_stage_in_bounds [of cfg s obs answers] i start(1)
      by (metis le_trans)
  qed
  have "failure_known ?r"
    using start_loop_failure [OF assms(1)] assms(2) start(1) by (intro failure_known_run) (auto simp: complete_order_def)
  with None have "\<not> raised sg" if "sg \<in> set (lp_stages ?r)" for sg using that by (simp add: failure_known_def)
  with over have "list_all finished (lp_stages ?r)" by (auto simp: list_all_iff over_def)
  with None show ?thesis by (simp add: loop_result_def)
qed (simp add: loop_result_def)

lemma complete_run_failure:
  assumes "history_free w" and "start_loop cfg w sims p active reset_rows = Inr lp" and "complete_order cfg active order"
  shows "case lp_failure (stages_run cfg w order lp) of
      None \<Rightarrow> stage_failures cfg w sims p active reset_rows = []
    | Some es \<Rightarrow> es \<in> set (stage_failures cfg w sims p active reset_rows)"
proof -
  let ?N = "2 * lc_max_interactions cfg" and ?r = "stages_run cfg w order lp"
  note start = start_loop_stages [OF assms(2)]
  have fin: "lp_stages ?r ! i = (own_step cfg (plain p w) i ^^ ?N) (lp_stages lp ! i)" if "i < active" for i
    using complete_run(1) [OF assms] that by simp
  have known: "failure_known ?r"
    using start_loop_failure [OF assms(2)] assms(3) start(1) by (intro failure_known_run) (auto simp: complete_order_def)
  have fails: "stage_failures cfg w sims p active reset_rows =
      List.map_filter (\<lambda>i. stage_failure cfg w i lp) [0..<active]"
    by (simp add: stage_failures_def assms(2))
  show ?thesis
  proof (cases "lp_failure ?r")
    case None
    then have "\<not> raised (lp_stages ?r ! i)" if "i < active" for i
      using known that start(1) by (simp add: failure_known_def)
    then have "stage_failure cfg w i lp \<noteq> Some es" if "i < active" for i es
      using \<open>\<And>i. i < active \<Longrightarrow> \<not> raised (lp_stages ?r ! i)\<close> [OF that]
        stage_failure_iff [OF assms(1,2) that, of es] fin [OF that] by (simp add: raised_def)
    then have "stage_failure cfg w i lp = None" if "i < active" for i using that by fastforce
    then show ?thesis using None by (auto simp: fails map_filter_def filter_empty_conv)
  next
    case (Some es)
    then obtain i where i: "i < active" "sg_phase (lp_stages ?r ! i) = Raised es"
      using known start(1) by (auto simp: failure_known_def)
    then have "stage_failure cfg w i lp = Some es" using stage_failure_iff [OF assms(1,2) i(1)] fin [OF i(1)] by simp
    with i(1) Some show ?thesis by (force simp: fails map_filter_def)
  qed
qed

text \<open>
  C38. Every interleaving of the pipeline stages that resumes each of them often enough, twice per interaction,
  ends. If moreover the answers of the policy do not depend on the requests it got before, the interleaving
  does not show: unless a stage fails, all such orders give the same trajectories, the same last
  observations and the same episode counts; and if stages fail, all of them raise, each the failure that one of the
  stages raises on its own.
\<close>

theorem stage_order_is_irrelevant:
  fixes w :: "('o, 'a, 'f, 's, 'p) world"
  assumes "complete_order cfg active order" and "complete_order cfg active order'"
  shows "run_env_loop cfg w sims p active reset_rows order \<noteq> None \<and>
    (history_free w \<longrightarrow>
       (let fails = stage_failures cfg w sims p active reset_rows;
            result = run_env_loop cfg w sims p active reset_rows order;
            result' = run_env_loop cfg w sims p active reset_rows order'
        in if fails = [] then result = result'
           else result \<in> Some ` Inl ` set fails \<and> result' \<in> Some ` Inl ` set fails))"
proof (cases "start_loop cfg w sims p active reset_rows")
  case (Inl e)
  then show ?thesis by (simp add: run_env_loop_def stage_failures_def)
next
  case (Inr lp)
  have run: "run_env_loop cfg w sims p active reset_rows o' = loop_result (stages_run cfg w o' lp)" for o'
    by (simp add: run_env_loop_def Inr)
  let ?fails = "stage_failures cfg w sims p active reset_rows"
  let ?res = "loop_result (stages_run cfg w order lp)" and ?res' = "loop_result (stages_run cfg w order' lp)"
  have "if ?fails = [] then ?res = ?res' else ?res \<in> Some ` Inl ` set ?fails \<and> ?res' \<in> Some ` Inl ` set ?fails"
    if h: "history_free w"
  proof (cases "?fails = []")
    case True
    then have "lp_failure (stages_run cfg w order lp) = None" "lp_failure (stages_run cfg w order' lp) = None"
      using complete_run_failure [OF h Inr assms(1)] complete_run_failure [OF h Inr assms(2)]
      by (auto split: option.splits)
    with True show ?thesis
      by (simp add: loop_result_def complete_run [OF h Inr assms(1)] complete_run [OF h Inr assms(2)])
  next
    case False
    then show ?thesis
      using complete_run_failure [OF h Inr assms(1)] complete_run_failure [OF h Inr assms(2)]
      by (auto simp: loop_result_def split: option.splits)
  qed
  then show ?thesis using complete_run_ends [OF Inr assms(1)] by (simp add: run Let_def)
qed

end
