(* ===== verification/Env_Loop_Routing.thy ===== *)
theory Env_Loop_Routing
  imports Env_Loop_Properties
begin

text \<open>
  Which simulator a lane's actions reach: with a policy that answers row by row, the pipelined
  loop over all workers and stages is one independent loop per simulator.
\<close>

section \<open>Cutting a batch into its blocks\<close>

lemma chunk_rows_concat:
  assumes "\<forall>xs \<in> set xss. length xs = k" and "n = length xss" and "0 < n"
  shows "chunk_rows n (concat xss) = Inr xss"
proof -
  have "length (concat xss) = n * k" using length_concat_uniform [OF assms(1)] assms(2) by simp
  with row_chunks_concat [OF assms(1)] assms(2,3) show ?thesis by (simp add: chunk_rows_def)
qed

lemma chunk_rows_pieces:
  "0 < n \<Longrightarrow> length xs mod n = 0 \<Longrightarrow> \<exists>ps. chunk_rows n xs = Inr ps \<and> concat ps = xs"
  by (auto simp: chunk_rows_def intro!: concat_chunks)

definition blocks_ok :: "loop_config \<Rightarrow> nat \<Rightarrow> bool" where
  "blocks_ok cfg n \<longleftrightarrow> 0 < lc_workers cfg \<and>
     (lc_partition_by_worker cfg \<and> 0 < lc_partition_size cfg \<longrightarrow> n mod lc_partition_size cfg = 0 \<and> 0 < n)"

lemma worker_parts_ok:
  assumes "blocks_ok cfg n" and "lc_partition_by_worker cfg" and "length rows = n"
  shows "\<exists>ps. worker_parts cfg rows = Inr ps \<and> concat ps = rows"
proof (cases "lc_partition_size cfg = 0")
  case False
  with assms have m: "n mod lc_partition_size cfg = 0" "0 < n" by (auto simp: blocks_ok_def)
  then obtain d where d: "n = lc_partition_size cfg * d" by (auto elim: dvdE)
  with m False have "0 < n div lc_partition_size cfg" "n mod (n div lc_partition_size cfg) = 0" by auto
  with chunk_rows_pieces [of "n div lc_partition_size cfg" rows] False m assms(3) show ?thesis
    by (simp add: worker_parts_def)
qed (simp add: worker_parts_def)

lemma split_rollout_ok:
  assumes "blocks_ok cfg n" and "length xss = lc_workers cfg" and "\<forall>xs \<in> set xss. length xs = n"
  shows "\<exists>parts. split_rollout cfg (concat xss) = Inr parts \<and> concat parts = concat xss"
proof (cases "lc_partition_by_worker cfg")
  case True
  have W: "0 < lc_workers cfg" using assms(1) by (simp add: blocks_ok_def)
  have "\<forall>xs \<in> set xss. \<exists>ps. worker_parts cfg xs = Inr ps \<and> concat ps = xs"
    using worker_parts_ok [OF assms(1) True] assms(3) by blast
  then obtain g where g: "\<forall>xs \<in> set xss. worker_parts cfg xs = Inr (g xs) \<and> concat (g xs) = xs" by metis
  then have "traverse (worker_parts cfg) xss = Inr (map g xss)" by (induction xss) simp_all
  moreover have "concat (concat (map g xss)) = concat xss" using g by (induction xss) simp_all
  moreover have "length (concat xss) mod lc_workers cfg = 0"
    using length_concat_uniform [OF assms(3)] assms(2) by simp
  ultimately show ?thesis
    using True W chunk_rows_concat [OF assms(3) assms(2) [symmetric] W] by (simp add: split_rollout_def)
qed (simp add: split_rollout_def)

section \<open>One simulator on its own\<close>

text \<open>
  A policy that answers each row by itself, whatever state (\<open>upd\<close>: call counters and the like) its
  workers keep besides, and simulators that do not raise.
\<close>

definition row_world ::
  "('o \<Rightarrow> 'a) \<Rightarrow> ('o list \<Rightarrow> 'p \<Rightarrow> 'p) \<Rightarrow> ('a list \<Rightarrow> 's \<Rightarrow> ('o \<times> 'f) list \<times> 's) \<Rightarrow>
   ('f \<Rightarrow> bool list) \<Rightarrow> ('f \<Rightarrow> bool list) \<Rightarrow> ('o, 'a, 'f, 's, 'p) world" where
  "row_world f upd env dn sc =
     \<lparr>wd_policy = \<lambda>rows p. (Inr (map f rows), upd rows p),
      wd_step = \<lambda>acts s. (Inr (fst (env acts s)), snd (env acts s)),
      wd_done = dn, wd_success = sc\<rparr>"

abbreviation own_world ::
  "('o \<Rightarrow> 'a) \<Rightarrow> ('a list \<Rightarrow> 's \<Rightarrow> ('o \<times> 'f) list \<times> 's) \<Rightarrow> ('f \<Rightarrow> bool list) \<Rightarrow> ('f \<Rightarrow> bool list) \<Rightarrow>
   ('o, 'a, 'f, 's, unit) world" where
  "own_world f env dn sc \<equiv> row_world f (\<lambda>_ _. ()) env dn sc"

lemma row_world_plain: "plain p (row_world f upd env dn sc) = own_world f env dn sc"
  by (simp add: plain_def row_world_def)

lemma row_world_history_free: "history_free (row_world f upd env dn sc)"
  by (simp add: history_free_def row_world_def)

text \<open>\<open>k\<close> interactions of the policy with one simulator, and the observations after them.\<close>

fun solo ::
  "('o \<Rightarrow> 'a) \<Rightarrow> ('a list \<Rightarrow> 's \<Rightarrow> ('o \<times> 'f) list \<times> 's) \<Rightarrow> nat \<Rightarrow> 'o list \<Rightarrow> 's \<Rightarrow>
   ('o list \<times> 'a list \<times> 'f list) list \<times> 'o list" where
  "solo f env 0 obs s = ([], obs)"
| "solo f env (Suc k) obs s =
     (let acts = map f obs; rows = fst (env acts s);
          rest = solo f env k (map fst rows) (snd (env acts s))
      in ((obs, acts, map snd rows) # fst rest, snd rest))"

definition lanes_of :: "nat \<Rightarrow> ('o list \<times> 'a list \<times> 'f list) list \<Rightarrow> ('o, 'a, 'f) lane_trajectory list" where
  "lanes_of n steps =
     map (\<lambda>i. (map (\<lambda>(os, as, fs). os ! i) steps, map (\<lambda>(os, as, fs). as ! i) steps, map (\<lambda>(os, as, fs). fs ! i) steps)) [0..<n]"

definition keeps_rows :: "('a list \<Rightarrow> 's \<Rightarrow> ('o \<times> 'f) list \<times> 's) \<Rightarrow> bool" where
  "keeps_rows env \<longleftrightarrow> (\<forall>acts s. length (fst (env acts s)) = length acts)"

lemma length_solo [simp]: "length (fst (solo f env k obs s)) = k"
  by (induction k arbitrary: obs s) (simp_all add: Let_def)

lemma solo_rows:
  assumes "keeps_rows env" and "t < k"
  shows "length (fst (fst (solo f env k obs s) ! t)) = length obs \<and>
    length (fst (snd (fst (solo f env k obs s) ! t))) = length obs \<and>
    length (snd (snd (fst (solo f env k obs s) ! t))) = length obs"
  using assms(2)
proof (induction k arbitrary: obs s t)
  case (Suc k)
  show ?case
  proof (cases t)
    case 0
    then show ?thesis using assms(1) by (simp add: Let_def keeps_rows_def)
  next
    case (Suc t')
    then show ?thesis
      using Suc.IH [of t' "map fst (fst (env (map f obs) s))" "snd (env (map f obs) s)"] Suc.prems assms(1)
      by (simp add: Let_def keeps_rows_def)
  qed
qed simp

section \<open>The simulators of one stage together\<close>

definition joined :: "('o list \<times> 'a list \<times> 'f list) list \<Rightarrow> ('o, 'a, 'f) slot" where
  "joined parts = \<lparr>sl_obs = concat (map fst parts), sl_action = Some (concat (map (fst \<circ> snd) parts)),
                   sl_feedback = Some (concat (map (snd \<circ> snd) parts))\<rparr>"

abbreviation solos where
  "solos f env k obss sims \<equiv> map2 (solo f env k) obss sims"

definition joint_slots :: "nat \<Rightarrow> (('o list \<times> 'a list \<times> 'f list) list \<times> 'o list) list \<Rightarrow> ('o, 'a, 'f) slot list" where
  "joint_slots k runs = map (\<lambda>t. joined (map (\<lambda>r. fst r ! t) runs)) [0..<k]"

lemma joint_slots_Suc:
  "joint_slots (Suc k) runs = joined (map (\<lambda>r. hd (fst r)) runs) # joint_slots k (map (\<lambda>r. (tl (fst r), snd r)) runs)"
  if "\<forall>r \<in> set runs. length (fst r) = Suc k"
proof -
  have "joint_slots (Suc k) runs = map (\<lambda>t. joined (map (\<lambda>r. fst r ! t) runs)) (0 # map Suc [0..<k])"
    by (simp add: joint_slots_def upt_conv_Cons map_Suc_upt del: upt_Suc)
  moreover have "map (\<lambda>r. fst r ! 0) runs = map (\<lambda>r. hd (fst r)) runs"
    using that by (intro map_cong refl) (metis hd_conv_nth length_0_conv nat.distinct(1))
  moreover have "joined (map (\<lambda>r. fst r ! Suc t) runs) = joined (map (\<lambda>r. tl (fst r) ! t) runs)" if "t < k" for t
    using \<open>\<forall>r \<in> set runs. length (fst r) = Suc k\<close> that by (intro arg_cong [of _ _ joined] map_cong refl) (simp add: nth_tl)
  ultimately show ?thesis by (simp add: joint_slots_def o_def)
qed

lemma map2_left: "length xs = length ys \<Longrightarrow> map2 (\<lambda>a b. g a) xs ys = map g xs"
  by (induction xs ys rule: list_induct2) simp_all

lemma env_interact_blocks:
  assumes "length obss = length sims" and "0 < length sims" and "\<forall>obs \<in> set obss. length obs = n"
  shows "env_interact_step (own_world f env dn sc) sims (concat (map (map f) obss)) =
    (Inr (concat (map2 (\<lambda>obs s. fst (env (map f obs) s)) obss sims)), map2 (\<lambda>obs s. snd (env (map f obs) s)) obss sims)"
proof -
  have "chunk_rows (length sims) (concat (map (map f) obss)) = Inr (map (map f) obss)"
    using assms by (intro chunk_rows_concat [of _ n]) auto
  moreover have "traverse fst (map2 (wd_step (own_world f env dn sc)) (map (map f) obss) sims) =
      Inr (map2 (\<lambda>obs s. fst (env (map f obs) s)) obss sims)"
    using assms(1) by (induction obss sims rule: list_induct2) (simp_all add: row_world_def)
  moreover have "map snd (map2 (wd_step (own_world f env dn sc)) (map (map f) obss) sims) =
      map2 (\<lambda>obs s. snd (env (map f obs) s)) obss sims"
    using assms(1) by (induction obss sims rule: list_induct2) (simp_all add: row_world_def)
  ultimately show ?thesis by (simp add: env_interact_step_def)
qed

lemma ask_row_world:
  "fst (ask_all (wd_policy (row_world f upd env dn sc)) parts p) = map (\<lambda>rows. Inr (map f rows)) parts"
  by (induction parts arbitrary: p) (simp_all add: row_world_def case_prod_beta)

lemma resolve_row_answers: "resolve_rollout (map (\<lambda>rows. Inr (map f rows)) parts) = Inr (map f (concat parts))"
  by (simp add: resolve_rollout_def failures_def map_concat o_def)

lemma submit_rollout_ok:
  assumes "blocks_ok cfg n" and "length xss = lc_workers cfg" and "\<forall>xs \<in> set xss. length xs = n"
  shows "\<exists>answers p'. submit_rollout cfg (row_world f upd env dn sc) (concat xss) p = (Inr answers, p') \<and>
    resolve_rollout answers = Inr (map f (concat xss))"
proof -
  obtain parts where "split_rollout cfg (concat xss) = Inr parts" "concat parts = concat xss"
    using split_rollout_ok [OF assms] by blast
  then show ?thesis
    using ask_row_world [of f upd env dn sc parts p] resolve_row_answers [of f parts]
    by (auto simp: submit_rollout_def case_prod_beta)
qed

text \<open>Two resumptions of a stage are one interaction with each of its simulators.\<close>

lemma two_steps:
  assumes "sg_phase sg = Await_Rollout answers" and "resolve_rollout answers = Inr (map f (concat obss))"
    and "length obss = length (sg_sims sg)" and "0 < length (sg_sims sg)" and "\<forall>obs \<in> set obss. length obs = n"
    and "sg_trajectory sg = pre @ [\<lparr>sl_obs = concat obss, sl_action = None, sl_feedback = None\<rparr>]"
    and sg': "sg' = own_step cfg (own_world f env dn sc) i (own_step cfg (own_world f env dn sc) i sg)"
    and nxt: "nxt = concat (map2 (\<lambda>obs s. map fst (fst (env (map f obs) s))) obss (sg_sims sg))"
    and again: "again = (sg_step sg + 1 < lc_max_interactions cfg)"
  shows "sg_phase sg' = (if again then fst (submitted cfg (own_world f env dn sc) nxt ()) else Finished)" and "sg_step sg' = sg_step sg + 1"
    and "sg_sims sg' = map2 (\<lambda>obs s. snd (env (map f obs) s)) obss (sg_sims sg)" and "sg_last_obs sg' = Some nxt"
    and "sg_trajectory sg' = pre @
      [joined (map2 (\<lambda>obs s. (obs, map f obs, map snd (fst (env (map f obs) s)))) obss (sg_sims sg))] @
      (if again then [\<lparr>sl_obs = nxt, sl_action = None, sl_feedback = None\<rparr>] else [])"
proof -
  let ?w = "own_world f env dn sc"
  have acts: "resolve_rollout answers = Inr (concat (map (map f) obss))" using assms(2) by (simp add: map_concat)
  have 1: "own_step cfg ?w i sg = after_rollout (concat (map (map f) obss)) sg"
    using assms(1) by (simp add: own_step_def stage_step_def acts)
  have o1: "map fst (zip obss (sg_sims sg)) = obss"
    and a1: "map (\<lambda>x. map f (fst x)) (zip obss (sg_sims sg)) = map (map f) obss"
    using map2_left [OF assms(3), of "map f"] assms(3) by (simp_all add: split_def)
  show "sg_phase sg' = (if again then fst (submitted cfg (own_world f env dn sc) nxt ()) else Finished)" and "sg_step sg' = sg_step sg + 1"
    and "sg_sims sg' = map2 (\<lambda>obs s. snd (env (map f obs) s)) obss (sg_sims sg)" and "sg_last_obs sg' = Some nxt"
    and "sg_trajectory sg' = pre @
      [joined (map2 (\<lambda>obs s. (obs, map f obs, map snd (fst (env (map f obs) s)))) obss (sg_sims sg))] @
      (if again then [\<lparr>sl_obs = nxt, sl_action = None, sl_feedback = None\<rparr>] else [])"
    unfolding sg' 1 nxt again
    using assms(6) env_interact_blocks [OF assms(3-5), of f env dn sc, unfolded split_def] o1 a1
    by (simp_all add: own_step_def stage_step_def after_rollout_def after_env_def Let_def joined_def map_concat o_def
        split_def split: prod.split)
qed

text \<open>After its first interaction a simulator runs on from where that has left it.\<close>

abbreviation obs_after where
  "obs_after f env obss sims \<equiv> map2 (\<lambda>obs s. map fst (fst (env (map f obs) s))) obss sims"

abbreviation sims_after where
  "sims_after f env obss sims \<equiv> map2 (\<lambda>obs s. snd (env (map f obs) s)) obss sims"

lemma solos_Suc:
  assumes "length obss = length sims"
  shows "map (\<lambda>r. hd (fst r)) (solos f env (Suc k) obss sims) =
      map2 (\<lambda>obs s. (obs, map f obs, map snd (fst (env (map f obs) s)))) obss sims"
    and "map (\<lambda>r. (tl (fst r), snd r)) (solos f env (Suc k) obss sims) =
      solos f env k (obs_after f env obss sims) (sims_after f env obss sims)"
    and "map snd (solos f env (Suc k) obss sims) =
      map snd (solos f env k (obs_after f env obss sims) (sims_after f env obss sims))"
  using assms by (induction obss sims rule: list_induct2) (simp_all add: Let_def)

lemma joint_solos_Suc:
  assumes "length obss = length sims"
  shows "joint_slots (Suc k) (solos f env (Suc k) obss sims) =
    joined (map2 (\<lambda>obs s. (obs, map f obs, map snd (fst (env (map f obs) s)))) obss sims) #
    joint_slots k (solos f env k (obs_after f env obss sims) (sims_after f env obss sims))"
proof -
  have "\<forall>r \<in> set (solos f env (Suc k) obss sims). length (fst r) = Suc k"
    by (auto simp: Let_def)
  from joint_slots_Suc [OF this] show ?thesis unfolding solos_Suc [OF assms] .
qed

lemma stage_runs_solo:
  assumes "blocks_ok cfg n" and "keeps_rows env"
    and "sg_phase sg = Await_Rollout answers" and "resolve_rollout answers = Inr (map f (concat obss))"
    and "length obss = lc_workers cfg" and "length (sg_sims sg) = lc_workers cfg" and "\<forall>obs \<in> set obss. length obs = n"
    and "sg_trajectory sg = pre @ [\<lparr>sl_obs = concat obss, sl_action = None, sl_feedback = None\<rparr>]"
    and "sg_step sg + Suc k = lc_max_interactions cfg"
    and "sg' = (own_step cfg (own_world f env dn sc) i ^^ (2 * Suc k)) sg"
  shows "sg_phase sg' = Finished \<and> sg_last_obs sg' = Some (concat (map snd (solos f env (Suc k) obss (sg_sims sg)))) \<and>
    sg_trajectory sg' = pre @ joint_slots (Suc k) (solos f env (Suc k) obss (sg_sims sg))"
  using assms(3-10)
proof (induction k arbitrary: sg answers obss pre)
  case 0
  have W: "0 < length (sg_sims sg)" using 0(4) assms(1) by (simp add: blocks_ok_def)
  have l: "length obss = length (sg_sims sg)" using 0(3,4) by simp
  have s: "sg' = own_step cfg (own_world f env dn sc) i (own_step cfg (own_world f env dn sc) i sg)"
    using 0(8) by (simp add: numeral_2_eq_2)
  have "map snd (solos f env 0 xs ys) = xs" if "length xs = length ys" for xs ys
    using that by (induction xs ys rule: list_induct2) simp_all
  from this [of "obs_after f env obss (sg_sims sg)" "sims_after f env obss (sg_sims sg)"] l
  have 1: "map snd (solos f env 0 (obs_after f env obss (sg_sims sg)) (sims_after f env obss (sg_sims sg))) =
      obs_after f env obss (sg_sims sg)" by simp
  have "(sg_step sg + 1 < lc_max_interactions cfg) = False" using 0(7) by simp
  note two = two_steps [OF 0(1,2) l W 0(5,6) s refl refl, unfolded this if_False]
  show ?case
    unfolding joint_solos_Suc [OF l] solos_Suc(3) [OF l] 1 using two(1,4,5) by (simp add: joint_slots_def)
next
  case (Suc k)
  let ?w = "own_world f env dn sc"
  let ?sg = "own_step cfg ?w i (own_step cfg ?w i sg)"
  let ?obss = "obs_after f env obss (sg_sims sg)"
  have W: "0 < length (sg_sims sg)" using Suc.prems(4) assms(1) by (simp add: blocks_ok_def)
  have l: "length obss = length (sg_sims sg)" using Suc.prems(3,4) by simp
  have again: "(sg_step sg + 1 < lc_max_interactions cfg) = True" using Suc.prems(7) by simp
  note two = two_steps [OF Suc.prems(1,2) l W Suc.prems(5,6) refl refl refl,
    where cfg = cfg and env = env and dn = dn and sc = sc and i = i, unfolded again if_True]
  have n: "\<forall>obs \<in> set ?obss. length obs = n"
    using Suc.prems(5) assms(2) by (auto simp: keeps_rows_def dest!: set_zip_leftD)
  have lo: "length ?obss = lc_workers cfg" using Suc.prems(3,4) by simp
  from submit_rollout_ok [OF assms(1) lo n, of f "\<lambda>_ _. ()" env dn sc "()"] obtain answers' p' where
    p: "submit_rollout cfg ?w (concat ?obss) () = (Inr answers', p')"
      "resolve_rollout answers' = Inr (map f (concat ?obss))" by blast
  have "sg_phase ?sg = Await_Rollout answers'" using two(1) p(1) by (simp add: submitted_def)
  moreover have "length (sg_sims ?sg) = lc_workers cfg" using two(3) Suc.prems(3,4) by simp
  moreover have "sg_step ?sg + Suc k = lc_max_interactions cfg" using two(2) Suc.prems(7) by simp
  moreover have "sg' = (own_step cfg ?w i ^^ (2 * Suc k)) ?sg"
    unfolding Suc.prems(8) by (simp add: funpow_swap1)
  ultimately have "sg_phase sg' = Finished \<and>
      sg_last_obs sg' = Some (concat (map snd (solos f env (Suc k) ?obss (sg_sims ?sg)))) \<and>
      sg_trajectory sg' = (pre @ [joined (map2 (\<lambda>obs s. (obs, map f obs, map snd (fst (env (map f obs) s)))) obss (sg_sims sg))]) @
        joint_slots (Suc k) (solos f env (Suc k) ?obss (sg_sims ?sg))"
    using two(5) by (intro Suc.IH [OF _ p(2) lo _ n]) simp_all
  then show ?case
    unfolding joint_solos_Suc [OF l] solos_Suc(3) [OF l] two(3) by (simp del: solo.simps)
qed

section \<open>Collating the stage\<close>

lemma concat_block_nth:
  assumes "\<forall>xs \<in> set xss. length xs = n" and "i < length xss * n"
  shows "concat xss ! i = xss ! (i div n) ! (i mod n)"
proof -
  have n: "0 < n" using assms(2) by (cases n) auto
  have "i div n < length xss" using assms(2) by (simp add: less_mult_imp_div_less)
  from concat_uniform_nth [OF assms(1) this, of "i mod n"] n show ?thesis by simp
qed

definition lane_runs :: "nat \<Rightarrow> (('o list \<times> 'a list \<times> 'f list) list \<times> 'o list) list \<Rightarrow> ('o, 'a, 'f) lane_trajectory list" where
  "lane_runs n runs = concat (map (\<lambda>r. lanes_of n (fst r)) runs)"

lemma collate_joint_slots:
  assumes "0 < k" and "\<forall>r \<in> set runs. length (fst r) = k \<and>
      (\<forall>t < k. length (fst (fst r ! t)) = n \<and> length (fst (snd (fst r ! t))) = n \<and> length (snd (snd (fst r ! t))) = n)"
  shows "collate_stage (joint_slots k runs) = Inr (lane_runs n runs)"
proof -
  let ?N = "length runs * n"
  define steps where "steps = map (\<lambda>t. (concat (map (\<lambda>r. fst (fst r ! t)) runs), concat (map (\<lambda>r. fst (snd (fst r ! t))) runs),
      concat (map (\<lambda>r. snd (snd (fst r ! t))) runs))) [0..<k]"
  have t: "traverse slot_rows (joint_slots k runs) = Inr steps"
    by (auto simp: traverse_Inr_list_all2 list_all2_conv_all_nth joint_slots_def steps_def slot_rows_def joined_def o_def)
  have len: "length (concat (map (\<lambda>r. g (fst r ! t)) runs)) = ?N"
    if "\<forall>r \<in> set runs. length (g (fst r ! t)) = n" for g :: "'a list \<times> 'b list \<times> 'c list \<Rightarrow> 'x list" and t
    using that by (subst length_concat_uniform [of _ n]) auto
  have nth: "concat (map (\<lambda>r. g (fst r ! t)) runs) ! i = g (fst (runs ! (i div n)) ! t) ! (i mod n)"
    if "\<forall>r \<in> set runs. length (g (fst r ! t)) = n" "i < ?N" for g :: "'a list \<times> 'b list \<times> 'c list \<Rightarrow> 'x list" and t i
    using that concat_block_nth [of "map (\<lambda>r. g (fst r ! t)) runs" n i] by (simp add: less_mult_imp_div_less)
  have rows: "\<forall>r \<in> set runs. length (fst (fst r ! t)) = n" "\<forall>r \<in> set runs. length (fst (snd (fst r ! t))) = n"
    "\<forall>r \<in> set runs. length (snd (snd (fst r ! t))) = n" if "t < k" for t
    using assms(2) that by auto
  have all: "\<forall>(os, as, fs) \<in> set steps. length os = ?N \<and> length as = ?N \<and> length fs = ?N"
    using len [OF rows(1)] len [OF rows(2)] len [OF rows(3)] by (auto simp: steps_def)
  obtain o0 a0 f0 rest where st: "steps = (o0, a0, f0) # rest"
    using assms(1) by (cases steps) (auto simp: steps_def)
  with all have o0: "length o0 = ?N" by simp
  let ?row = "\<lambda>i. (map (\<lambda>(os, as, fs). os ! i) steps, map (\<lambda>(os, as, fs). as ! i) steps, map (\<lambda>(os, as, fs). fs ! i) steps)"
  have row: "?row i = lanes_of n (fst (runs ! (i div n))) ! (i mod n)" if i: "i < ?N" for i
  proof -
    have r: "i div n < length runs" using i by (simp add: less_mult_imp_div_less)
    have n: "0 < n" using i by (cases n) auto
    have k: "length (fst (runs ! (i div n))) = k" using r assms(2) by simp
    have m: "map g (fst (runs ! (i div n))) = map (\<lambda>t. g (fst (runs ! (i div n)) ! t)) [0..<k]" for g :: "'a list \<times> 'b list \<times> 'c list \<Rightarrow> 'x"
      using k by (intro nth_equalityI) simp_all
    show ?thesis
      using n nth [OF rows(1) i] nth [OF rows(2) i] nth [OF rows(3) i]
      by (simp add: lanes_of_def m steps_def split_def)
  qed
  have "map ?row [0..<?N] = lane_runs n runs"
  proof (rule nth_equalityI)
    show "length (map ?row [0..<?N]) = length (lane_runs n runs)"
      by (simp add: lane_runs_def length_concat o_def lanes_of_def sum_list_triv)
    fix i
    assume "i < length (map ?row [0..<?N])"
    then have i: "i < ?N" by simp
    have "lane_runs n runs ! i = map (\<lambda>r. lanes_of n (fst r)) runs ! (i div n) ! (i mod n)"
      unfolding lane_runs_def using i by (intro concat_block_nth) (auto simp: lanes_of_def)
    with i show "map ?row [0..<?N] ! i = lane_runs n runs ! i"
      using row [OF i] by (simp add: less_mult_imp_div_less)
  qed
  with t st o0 all show ?thesis
    by (simp add: collate_stage_def Let_def require_def)
qed

lemma collate_uniform:
  assumes "trajectories \<noteq> []" and "\<forall>u \<in> set trajectories. length u = m"
    and "traverse collate_stage trajectories = Inr stages"
  shows "collate_trajectories trajectories = Inr (concat stages)"
  using assms by (cases trajectories) (auto simp: collate_trajectories_def require_def)

section \<open>The whole loop\<close>

definition reset_order :: "nat \<Rightarrow> nat \<Rightarrow> (nat \<Rightarrow> nat \<Rightarrow> 'o list) \<Rightarrow> 'o list" where
  "reset_order workers stages blk = concat (map (\<lambda>wk. concat (map (blk wk) [0..<stages])) [0..<workers])"

lemma restructure_blocks:
  assumes "0 < lc_workers cfg" and "0 < lc_stage_num cfg"
    and "\<forall>wk < lc_workers cfg. \<forall>st < lc_stage_num cfg. length (blk wk st) = n"
  shows "restructure_obs_data cfg (reset_order (lc_workers cfg) (lc_stage_num cfg) blk) =
    Inr (map (\<lambda>st. concat (map (\<lambda>wk. blk wk st) [0..<lc_workers cfg])) [0..<lc_stage_num cfg])"
proof -
  let ?W = "lc_workers cfg" and ?S = "lc_stage_num cfg"
  let ?parts = "map (\<lambda>wk. map (blk wk) [0..<?S]) [0..<?W]"
  have "chunk_rows ?W (concat (map concat ?parts)) = Inr (map concat ?parts)"
    using assms(1,3) by (intro chunk_rows_concat [of _ "?S * n"]) (auto simp: length_concat_uniform [of _ n])
  moreover have "traverse (chunk_rows ?S) (map concat ?parts) = Inr ?parts"
  proof -
    have "chunk_rows ?S (concat (map (blk wk) [0..<?S])) = Inr (map (blk wk) [0..<?S])" if "wk < ?W" for wk
      using assms(2,3) that by (intro chunk_rows_concat [of _ n]) auto
    then show ?thesis by (auto simp: traverse_Inr_list_all2 list_all2_conv_all_nth)
  qed
  ultimately show ?thesis
    by (simp add: restructure_obs_data_def reset_order_def o_def)
qed

lemma solos_map:
  "length sims = n \<Longrightarrow> solos f env k (map blk [0..<n]) sims = map (\<lambda>wk. solo f env k (blk wk) (sims ! wk)) [0..<n]"
  by (intro nth_equalityI) simp_all

text \<open>
  C19. The routing of the pipelined loop is right: with a policy that answers each row by itself, running all workers and
  stages through the shared batches gives, whatever the interleaving, exactly what every
  simulator gives in a loop of its own with the policy, so that the actions chosen for a lane's observation are
  executed by the simulator that lane lives in. The output rows and the last observations
  come stage by stage, worker by worker, lane by lane, for the active stages.
\<close>

theorem pipelined_loop_is_independent_loops:
  fixes f :: "'o \<Rightarrow> 'a" and env :: "'a list \<Rightarrow> 's \<Rightarrow> ('o \<times> 'f) list \<times> 's" and upd :: "'o list \<Rightarrow> 'p \<Rightarrow> 'p"
  assumes "blocks_ok cfg n" and "keeps_rows env" and "0 < lc_max_interactions cfg"
    and "1 \<le> active" and "active \<le> lc_stage_num cfg"
    and "\<forall>wk < lc_workers cfg. \<forall>st < lc_stage_num cfg. length (blk wk st) = n"
    and "\<forall>st < active. length (sims ! st) = lc_workers cfg"
    and "complete_order cfg active order"
    and run: "run = (\<lambda>st wk. solo f env (lc_max_interactions cfg) (blk wk st) (sims ! st ! wk))"
  shows "\<exists>counts. run_env_loop cfg (row_world f upd env dn sc) sims p active (reset_order (lc_workers cfg) (lc_stage_num cfg) blk) order =
    Some (Inr (concat (map (\<lambda>st. concat (map (\<lambda>wk. lanes_of n (fst (run st wk))) [0..<lc_workers cfg])) [0..<active]),
               concat (map (\<lambda>st. concat (map (\<lambda>wk. snd (run st wk)) [0..<lc_workers cfg])) [0..<active]), counts))"
proof -
  let ?W = "lc_workers cfg" and ?S = "lc_stage_num cfg" and ?w = "row_world f upd env dn sc" and ?v = "own_world f env dn sc" and ?M = "lc_max_interactions cfg"
  define obss where "obss st = map (\<lambda>wk. blk wk st) [0..<?W]" for st
  have W: "0 < ?W" using assms(1) by (simp add: blocks_ok_def)
  have S: "0 < ?S" using assms(4,5) by simp
  have obss: "length (obss st) = ?W" "\<forall>obs \<in> set (obss st). length obs = n" if "st < active" for st
    using assms(5,6) that by (auto simp: obss_def)
  define staged where "staged = map (\<lambda>st. concat (obss st)) [0..<?S]"
  have restructured: "restructure_obs_data cfg (reset_order ?W ?S blk) = Inr staged"
    using restructure_blocks [OF W S assms(6)] by (simp add: staged_def obss_def)
  have "\<exists>futs q'. submit_stages cfg ?w (map (\<lambda>st. concat (obss st)) sts) q = (Inr futs, q') \<and> length futs = length sts \<and>
      (\<forall>j < length sts. resolve_rollout (futs ! j) = Inr (map f (concat (obss (sts ! j)))))"
    if "set sts \<subseteq> {..<active}" for sts q
    using that
  proof (induction sts arbitrary: q)
    case (Cons st sts)
    obtain a q1 where a: "submit_rollout cfg ?w (concat (obss st)) q = (Inr a, q1)"
      "resolve_rollout a = Inr (map f (concat (obss st)))"
      using submit_rollout_ok [OF assms(1) obss] Cons.prems by (metis insert_subset lessThan_iff list.simps(15))
    obtain futs q' where "submit_stages cfg ?w (map (\<lambda>st. concat (obss st)) sts) q1 = (Inr futs, q')"
      "length futs = length sts" "\<forall>j < length sts. resolve_rollout (futs ! j) = Inr (map f (concat (obss (sts ! j))))"
      using Cons.IH [of q1] Cons.prems by auto
    with a show ?case by (auto simp: nth_Cons split: nat.split)
  qed simp
  from this [of "[0..<active]" p] obtain futs q where
    futs: "submit_stages cfg ?w (map (\<lambda>st. concat (obss st)) [0..<active]) p = (Inr futs, q)"
      "\<And>i. i < active \<Longrightarrow> resolve_rollout (futs ! i) = Inr (map f (concat (obss i)))"
    by (auto simp: atLeast0LessThan)
  have first: "take active staged = map (\<lambda>st. concat (obss st)) [0..<active]"
    using assms(5) by (simp add: staged_def take_map)
  define lp :: "('o, 'a, 'f, 's, 'p) loop" where "lp = \<lparr>lp_stages = map (\<lambda>i. new_stage cfg (sims ! i) (concat (obss i)) (futs ! i)) [0..<active],
    lp_progress = no_counts, lp_policy = q, lp_failure = None\<rparr>"
  have start: "start_loop cfg ?w sims p active (reset_order ?W ?S blk) = Inr lp"
  proof -
    have "start_loop cfg ?w sims p active (reset_order ?W ?S blk) =
        Inr \<lparr>lp_stages = map (\<lambda>i. new_stage cfg (sims ! i) (staged ! i) (futs ! i)) [0..<active],
             lp_progress = no_counts, lp_policy = q, lp_failure = None\<rparr>"
      using assms(4,5) by (simp add: start_loop_def require_def restructured first futs(1))
    moreover have "staged ! i = concat (obss i)" if "i < active" for i
      using that assms(5) by (simp add: staged_def)
    ultimately show ?thesis by (simp add: lp_def)
  qed
  define fin where "fin i = (own_step cfg ?v i ^^ (2 * ?M)) (new_stage cfg (sims ! i) (concat (obss i)) (futs ! i))" for i
  have fin: "sg_phase (fin i) = Finished \<and> sg_last_obs (fin i) = Some (concat (map snd (map (run i) [0..<?W]))) \<and>
      sg_trajectory (fin i) = joint_slots ?M (map (run i) [0..<?W])" if i: "i < active" for i
  proof -
    let ?sg = "new_stage cfg (sims ! i) (concat (obss i)) (futs ! i)"
    obtain k where k: "?M = Suc k" using assms(3) by (cases ?M) auto
    have sims: "length (sims ! i) = ?W" using assms(7) i by simp
    have "sg_phase ?sg = Await_Rollout (futs ! i)" "sg_sims ?sg = sims ! i" "sg_step ?sg + Suc k = ?M"
      "sg_trajectory ?sg = [] @ [\<lparr>sl_obs = concat (obss i), sl_action = None, sl_feedback = None\<rparr>]"
      using k by (simp_all add: new_stage_def)
    note sg = this
    have "fin i = (own_step cfg ?v i ^^ (2 * Suc k)) ?sg" by (simp only: fin_def k)
    from stage_runs_solo [OF assms(1,2) sg(1) futs(2) [OF i] obss(1) [OF i] _ obss(2) [OF i] sg(4,3) this,
        unfolded sg(2), OF sims]
    have "sg_phase (fin i) = Finished \<and> sg_last_obs (fin i) = Some (concat (map snd (solos f env ?M (obss i) (sims ! i)))) \<and>
        sg_trajectory (fin i) = joint_slots ?M (solos f env ?M (obss i) (sims ! i))"
      unfolding k append_Nil .
    then show ?thesis unfolding obss_def solos_map [OF sims] run by simp
  qed
  have ran: "lp_stages (stages_run cfg ?w order lp) = map fin [0..<active]"
    using complete_run(1) [OF row_world_history_free start assms(8)] by (auto simp: row_world_plain lp_def fin_def)
  have "collate_stage (joint_slots ?M (map (run i) [0..<?W])) = Inr (lane_runs n (map (run i) [0..<?W]))" if "i < active" for i
    using assms(3,6) that assms(5) solo_rows [OF assms(2)]
    by (intro collate_joint_slots) (auto simp: run)
  then have "traverse collate_stage (map (\<lambda>i. sg_trajectory (fin i)) [0..<active]) =
      Inr (map (\<lambda>i. lane_runs n (map (run i) [0..<?W])) [0..<active])"
    using fin by (auto simp: traverse_Inr_list_all2 list_all2_conv_all_nth)
  moreover have "\<forall>u \<in> set (map (\<lambda>i. sg_trajectory (fin i)) [0..<active]). length u = ?M"
    using fin by (auto simp: joint_slots_def)
  ultimately have "collate_trajectories (map (\<lambda>i. sg_trajectory (fin i)) [0..<active]) =
      Inr (concat (map (\<lambda>i. lane_runs n (map (run i) [0..<?W])) [0..<active]))"
    using assms(4) by (intro collate_uniform) auto
  moreover have "last_observations (map fin [0..<active]) = Inr (concat (map (\<lambda>i. concat (map snd (map (run i) [0..<?W]))) [0..<active]))"
  proof -
    have "traverse (\<lambda>sg. case sg_last_obs sg of None \<Rightarrow> Inl KeyError | Some rows \<Rightarrow> Inr rows) (map fin [0..<active]) =
        Inr (map (\<lambda>i. concat (map snd (map (run i) [0..<?W]))) [0..<active])"
      using fin by (auto simp: traverse_Inr_list_all2 list_all2_conv_all_nth)
    then show ?thesis by (simp add: last_observations_def)
  qed
  moreover have "list_all finished (map fin [0..<active])"
    using fin by (auto simp: list_all_iff finished_def)
  moreover have "lp_failure (stages_run cfg ?w order lp) = None"
  proof -
    have "failure_known (stages_run cfg ?w order lp)"
      using start_loop_failure [OF start] start_loop_stages(1) [OF start] assms(8)
      by (intro failure_known_run) (auto simp: complete_order_def)
    moreover have "\<not> raised (lp_stages (stages_run cfg ?w order lp) ! i)" if "i < active" for i
      using fin [OF that] that by (simp add: ran raised_def)
    ultimately show ?thesis
      by (cases "lp_failure (stages_run cfg ?w order lp)") (auto simp: failure_known_def ran raised_def)
  qed
  ultimately have "loop_result (stages_run cfg ?w order lp) =
      Some (Inr (concat (map (\<lambda>i. lane_runs n (map (run i) [0..<?W])) [0..<active]),
                 concat (map (\<lambda>i. concat (map snd (map (run i) [0..<?W]))) [0..<active]),
                 lp_progress (stages_run cfg ?w order lp)))"
    by (simp add: loop_result_def ran o_def one_error_def)
  then show ?thesis by (auto simp: run_env_loop_def start lane_runs_def o_def)
qed

section \<open>A run\<close>

text \<open>Two workers, two stages and one lane each; a simulator adds its number to the action.\<close>

definition sample_loop :: loop_config where
  "sample_loop = \<lparr>lc_stage_num = 2, lc_workers = 2, lc_max_interactions = 1, lc_partition_by_worker = True, lc_partition_size = 1\<rparr>"

definition sample_env :: "nat list \<Rightarrow> nat \<Rightarrow> (nat \<times> nat) list \<times> nat" where
  "sample_env acts s = (map (\<lambda>a. (a + s, a)) acts, s + 1)"

abbreviation sample_reset :: "nat \<Rightarrow> nat \<Rightarrow> nat list" where
  "sample_reset wk st \<equiv> [100 * wk + 10 * st]"

text \<open>The policy adds one, and its workers count the rows they have seen.\<close>

definition sample_world :: "(nat, nat, nat, nat, nat) world" where
  "sample_world = row_world Suc (\<lambda>rows c. c + length rows) sample_env (\<lambda>f. [False]) (\<lambda>f. [False])"

lemma sample_orders: "complete_order sample_loop 2 [1, 0, 0, 1]" "complete_order sample_loop 2 [0, 0, 1, 1]"
  by (simp_all add: complete_order_def sample_loop_def numeral_2_eq_2 All_less_Suc)

theorem pipelined_loop_is_independent_loops_witness:
  "\<exists>counts. run_env_loop sample_loop sample_world [[1, 2], [3, 4]] 0 2
      (reset_order 2 2 sample_reset) [1, 0, 0, 1] =
    Some (Inr ([([0], [1], [1]), ([100], [101], [101]), ([10], [11], [11]), ([110], [111], [111])], [Suc (Suc 0), 103, 14, 115], counts))"
proof -
  have w: "lc_workers sample_loop = 2" "lc_stage_num sample_loop = 2" "lc_max_interactions sample_loop = Suc 0"
    by (simp_all add: sample_loop_def)
  have "blocks_ok sample_loop 1" by (simp add: blocks_ok_def sample_loop_def)
  moreover have "keeps_rows sample_env" by (simp add: keeps_rows_def sample_env_def)
  moreover have "\<forall>st < 2. length ([[1, 2], [3, 4 :: nat]] ! st) = lc_workers sample_loop"
    by (simp add: w numeral_2_eq_2 All_less_Suc)
  moreover have up: "[0..<2] = [0, 1 :: nat]" by (simp add: upt_conv_Cons)
  ultimately show ?thesis
    using pipelined_loop_is_independent_loops [OF _ _ _ _ _ _ _ sample_orders(1) refl,
        of 1 sample_env sample_reset "[[1, 2], [3, 4]]" Suc "\<lambda>rows c. c + length rows" "\<lambda>f. [False]" "\<lambda>f. [False]" 0]
    by (simp add: w up lanes_of_def sample_env_def sample_world_def Let_def)
qed

text \<open>
  Two stages that both fail, the first when its simulator is stepped, the second when the policy
  answers: the order decides which of the two failures the rollout raises, and no third one does.
\<close>

definition failing_world :: "(nat, nat, nat, nat, unit) world" where
  "failing_world =
     \<lparr>wd_policy = \<lambda>rows u. (if rows = [10] \<or> rows = [110] then Inl ValueError else Inr rows, u),
      wd_step = \<lambda>acts s. (Inl TimeoutError, s), wd_done = \<lambda>f. [False], wd_success = \<lambda>f. [False]\<rparr>"

lemma failing_runs:
  "run_env_loop sample_loop failing_world [[1, 2], [3, 4]] () 2 [0, 10, 100, 110] [1, 0, 0, 1] =
     Some (Inl [ValueError, ValueError])"
  "run_env_loop sample_loop failing_world [[1, 2], [3, 4]] () 2 [0, 10, 100, 110] [0, 0, 1, 1] =
     Some (Inl [TimeoutError])"
  by code_simp+

theorem stage_order_is_irrelevant_witness:
  "run_env_loop sample_loop sample_world [[1, 2], [3, 4]] 0 2 [0, 10, 100, 110] [1, 0, 0, 1] =
     run_env_loop sample_loop sample_world [[1, 2], [3, 4]] 0 2 [0, 10, 100, 110] [0, 0, 1, 1] \<and>
   run_env_loop sample_loop failing_world [[1, 2], [3, 4]] () 2 [0, 10, 100, 110] [0, 0, 1, 1]
     \<in> {Some (Inl [TimeoutError]), Some (Inl [ValueError, ValueError])}"
proof -
  have "stage_failures sample_loop sample_world [[1, 2], [3, 4]] 0 2 [0, 10, 100, 110] = []"
    "stage_failures sample_loop failing_world [[1, 2], [3, 4]] () 2 [0, 10, 100, 110] =
       [[TimeoutError], [ValueError, ValueError]]"
    by code_simp+
  moreover have "history_free sample_world" "history_free failing_world"
    by (simp_all add: sample_world_def row_world_history_free) (simp add: history_free_def failing_world_def)
  ultimately show ?thesis
    using stage_order_is_irrelevant [OF sample_orders, of sample_world "[[1, 2], [3, 4]]" 0 "[0, 10, 100, 110]"]
      stage_order_is_irrelevant [OF sample_orders, of failing_world "[[1, 2], [3, 4]]" "()" "[0, 10, 100, 110]"]
    by (simp add: Let_def)
qed

text \<open>
  The condition on the policy is needed: with workers whose answers depend on the number of requests they got
  before, the rollout depends on which stage is resumed first.
\<close>

definition counting_world :: "(nat, nat, nat, nat, nat) world" where
  "counting_world =
     \<lparr>wd_policy = \<lambda>rows c. (Inr (map (\<lambda>r. r + c) rows), c + 1),
      wd_step = \<lambda>acts s. (Inr (map (\<lambda>a. (a, a)) acts), s), wd_done = \<lambda>f. [False], wd_success = \<lambda>f. [False]\<rparr>"

definition two_interactions :: loop_config where
  "two_interactions = \<lparr>lc_stage_num = 2, lc_workers = 1, lc_max_interactions = 2,
     lc_partition_by_worker = False, lc_partition_size = 0\<rparr>"

lemma policy_with_memory_sees_the_order:
  "complete_order two_interactions 2 [0, 0, 1, 1, 0, 0, 1, 1]"
  "complete_order two_interactions 2 [1, 1, 0, 0, 0, 0, 1, 1]"
  "run_env_loop two_interactions counting_world [[1], [2]] 0 2 [0, 10] [0, 0, 1, 1, 0, 0, 1, 1] \<noteq>
   run_env_loop two_interactions counting_world [[1], [2]] 0 2 [0, 10] [1, 1, 0, 0, 0, 0, 1, 1]"
proof -
  show "complete_order two_interactions 2 [0, 0, 1, 1, 0, 0, 1, 1]"
    "complete_order two_interactions 2 [1, 1, 0, 0, 0, 0, 1, 1]"
    by (simp_all add: complete_order_def two_interactions_def numeral_2_eq_2 All_less_Suc)
  show "run_env_loop two_interactions counting_world [[1], [2]] 0 2 [0, 10] [0, 0, 1, 1, 0, 0, 1, 1] \<noteq>
   run_env_loop two_interactions counting_world [[1], [2]] 0 2 [0, 10] [1, 1, 0, 0, 0, 0, 1, 1]"
    by code_simp
qed

end
