(* ===== verification/Robodojo_Fleet.thy ===== *)
theory Robodojo_Fleet
  imports Robodojo_Recovery Env_Loop_Routing
begin

text \<open>
  A fleet of environment workers running RoboDojo: the resets of all workers and stages, however
  often processes had to be replaced, hand the pipeline loop consecutive benchmark cases.
\<close>

section \<open>Workers of the fleet\<close>

definition robodojo_simulator_cfg_for_stage :: "robodojo_config \<Rightarrow> nat \<Rightarrow> nat \<Rightarrow> nat \<Rightarrow> nat \<Rightarrow> robodojo_config result" where
  "robodojo_simulator_cfg_for_stage c rank world stage_id stage_num =
     bind_res (task_assignment c (int rank) (int world) (int stage_id) (int stage_num)) (\<lambda>(task_name, task_id).
       Inr (c\<lparr>rd_task_name := task_name, rd_task_id := task_id\<rparr>))"

definition read_robodojo :: "'o robo_answer \<Rightarrow> 'o obs result" where
  "read_robodojo a = (case a of Obs ob \<Rightarrow> Inr ob | _ \<Rightarrow> Inl TypeError)"

text \<open>A manager whose idle simulator stands at the cursors \<open>cu\<close>, which are also what it has saved.\<close>

definition ready_at ::
  "robodojo_config \<Rightarrow> env_slot \<Rightarrow> ('b robo_state, 'b reset_request, 'o robo_answer) manager \<Rightarrow> cursors \<Rightarrow> bool" where
  "ready_at c sl m cu \<longleftrightarrow> saved_place c m cu \<and> (\<exists>e. idle m e \<and> sound_robodojo sl e \<and> get_state (rs_cases e) = cu)"

lemma ready_at: "ready_at c sl m cu = robodojo.in_step sl c m cu"
  by (simp add: ready_at_def robodojo.in_step_def saved_place)

text \<open>Every stage of worker \<open>r\<close> stands before its evaluation wave \<open>w\<close>.\<close>

definition at_eval_wave ::
  "robodojo_config \<Rightarrow> nat \<Rightarrow> nat \<Rightarrow> nat \<Rightarrow> nat \<Rightarrow> nat \<Rightarrow> ('b robo_state, 'b reset_request, 'o robo_answer) env_worker \<Rightarrow> bool" where
  "at_eval_wave c world stages n r w wk \<longleftrightarrow>
     ew_eval_simulators wk = [] \<and> length (ew_simulators wk) = stages \<and>
     (\<forall>st < stages. \<exists>cu. cu_eval_case_cursor cu = int w * int n \<and>
        ready_at c (slot_at world stages n r st) (ew_simulators wk ! st) cu)"

section \<open>One worker\<close>

lemma draw_eval:
  assumes "robodojo_post_init c = Inr ()" and "0 < n" and "rx_mode extra = Some ''eval''"
    and "cu_eval_case_cursor cu = int w * int n"
    and "draw_cases c (slot_at world stages n r st) (Some (extra, ids, False)) cu = Some (cs, cu')"
  shows "cs = eval_wave c (wave_slots world stages n r st w) \<and> cu_eval_case_cursor cu' = int (Suc w) * int n"
proof -
  let ?s = "load_state cu (new_cases c)"
  have "cs_eval_case_cursor ?s = int w * int n" "cs_runtime_eval_layout_ids ?s = None" "cs_runtime_eval_policy_seeds ?s = None"
    using assms(4) by (simp_all add: load_state_def new_cases_def)
  from next_eval_wave [OF assms(1,2) this, of world stages r st] assms(3,5) show ?thesis
    by (auto simp: draw_cases_def reset_mode_def get_state_def)
qed

lemma bound_config_cases:
  assumes "robodojo_simulator_cfg_for_stage c rank world st stages = Inr c'"
  shows "draw_cases c' = draw_cases c" and "new_cases c' = new_cases c"
proof -
  from assms obtain t i where c': "c' = c\<lparr>rd_task_name := t, rd_task_id := i\<rparr>"
    by (auto simp: robodojo_simulator_cfg_for_stage_def bind_res_Inr_iff)
  show new: "new_cases c' = new_cases c" by (simp add: c' new_cases_def)
  have "eval_tables c' = eval_tables c" "train_tables c' = train_tables c"
    by (auto simp: fun_eq_iff eval_tables_def train_tables_def c' Let_def split: option.splits)
  moreover have "rd_seed c' = rd_seed c" "rd_train_layout_repeat c' = rd_train_layout_repeat c"
    "rd_train_policy_seed_start c' = rd_train_policy_seed_start c"
    by (simp_all add: c')
  ultimately have "next_cases c' sl m s = next_cases c sl m s" for sl m s
    unfolding next_cases_def next_eval_cases_def next_repeated_cases_def next_rotating_cases_def by (simp only:)
  then have nc: "next_cases c' = next_cases c" by (intro ext)
  show "draw_cases c' = draw_cases c"
    by (intro ext) (unfold draw_cases_def new nc, rule refl)
qed

lemma stage_reset_draws:
  assumes "robodojo_post_init c = Inr ()" and "0 < n" and "rx_mode extra = Some ''eval''"
    and "robodojo_simulator_cfg_for_stage c r world st stages = Inr c'"
    and "wc_robodojo cfg = Some rb" and "cu_eval_case_cursor cu = int w * int n"
    and "ready_at c (slot_at world stages n r st) m cu"
    and "reset_stage cfg (robodojo_class c' (slot_at world stages n r st) bk render nb others assign) (Some (extra, ids, False)) sched m =
      (Inr (a, k), m')"
  shows "seen_cases a = eval_wave c (wave_slots world stages n r st w)" and "k \<le> rb_reset_process_max_restarts rb"
    and "\<exists>cu'. cu_eval_case_cursor cu' = int (Suc w) * int n \<and> ready_at c (slot_at world stages n r st) m' cu'"
proof -
  from assms(5,8) have "reset_with_recovery (robodojo_class c' (slot_at world stages n r st) bk render nb others assign)
      (Some (extra, ids, False)) (rb_reset_rpc_timeout_s rb) (rb_reset_process_max_restarts rb) 0 sched m = (Inr (a, k), m')"
    by (simp add: reset_stage_def reset_simulator_with_recovery_def)
  moreover have "robodojo.in_step (slot_at world stages n r st) c' m cu"
    using assms(7) by (simp add: ready_at_def robodojo.in_step_def saved_place saved_place_def bound_config_cases(2) [OF assms(4)])
  ultimately have "\<exists>cu'. draw_cases c' (slot_at world stages n r st) (Some (extra, ids, False)) cu = Some (seen_cases a, cu') \<and>
      robodojo.in_step (slot_at world stages n r st) c' m' cu' \<and> 0 \<le> k \<and> k \<le> 0 + rb_reset_process_max_restarts rb"
    by (intro robodojo.recovered)
  then obtain cu' where d: "draw_cases c (slot_at world stages n r st) (Some (extra, ids, False)) cu = Some (seen_cases a, cu')"
    and i: "robodojo.in_step (slot_at world stages n r st) c' m' cu'" and k: "k \<le> rb_reset_process_max_restarts rb"
    unfolding bound_config_cases(1) [OF assms(4)] by auto
  from i have "ready_at c (slot_at world stages n r st) m' cu'"
    by (simp add: ready_at_def robodojo.in_step_def saved_place saved_place_def bound_config_cases(2) [OF assms(4)])
  with draw_eval [OF assms(1-3,6) d] k
  show "seen_cases a = eval_wave c (wave_slots world stages n r st w)" "k \<le> rb_reset_process_max_restarts rb"
    "\<exists>cu'. cu_eval_case_cursor cu' = int (Suc w) * int n \<and> ready_at c (slot_at world stages n r st) m' cu'"
    by auto
qed

lemma reset_stages_Inr:
  assumes "reset_stages cfg cls q sched ms = (Inr results, ms')" and "length ms = wc_stage_num cfg"
    and "0 < wc_stage_num cfg"
  shows "length results = wc_stage_num cfg" and "length ms' = wc_stage_num cfg"
    and "st < wc_stage_num cfg \<Longrightarrow> reset_stage cfg (cls st) q (sched st) (ms ! st) = (Inr (results ! st), ms' ! st)"
proof -
  let ?out = "\<lambda>i. reset_stage cfg (cls i) q (sched i) (ms ! i)"
  from assms(3) have n: "max 1 (wc_stage_num cfg) = wc_stage_num cfg" by simp
  from assms have t: "traverse fst (map ?out [0..<wc_stage_num cfg]) = Inr results"
    and ms': "ms' = map (\<lambda>i. snd (?out i)) [0..<wc_stage_num cfg]"
    by (auto simp: reset_stages_def Let_def o_def n bind_res_Inr_iff)
  from t have l: "list_all2 (\<lambda>o1 r. fst o1 = Inr r) (map ?out [0..<wc_stage_num cfg]) results"
    by (simp add: traverse_Inr_list_all2)
  then show "length results = wc_stage_num cfg" using list_all2_lengthD by fastforce
  show "length ms' = wc_stage_num cfg" by (simp add: ms')
  assume st: "st < wc_stage_num cfg"
  with l have "fst (?out st) = Inr (results ! st)" by (auto simp: list_all2_conv_all_nth)
  with st show "?out st = (Inr (results ! st), ms' ! st)" by (simp add: ms' prod_eq_iff)
qed

lemma joined_field:
  assumes "field \<in> {''eval_episode_id'', ''layout_id'', ''environment_seed'', ''policy_seed''}"
  shows "identity_field (join_observations obs) field = concat (map (\<lambda>ob. identity_field ob field) obs)"
  using assms by (auto simp: identity_field_def join_observations_def joined_identity_def Let_def)

lemma read_robodojo_all:
  "traverse (\<lambda>(a, k). read_robodojo a) results = Inr obs \<Longrightarrow> map (Obs \<circ> id) obs = map fst results"
proof (induction results arbitrary: obs)
  case (Cons r results)
  then show ?case by (cases r) (auto simp: bind_res_Inr_iff read_robodojo_def split: robo_answer.splits)
qed simp

lemma worker_reset_draws:
  assumes "robodojo_post_init c = Inr ()" and "0 < n" and "rx_mode extra = Some ''eval''"
    and "wc_robodojo cfg = Some rb" and "wc_stage_num cfg = stages"
    and "\<forall>st < stages. robodojo_simulator_cfg_for_stage c r world st stages = Inr (cf st)"
    and cls: "cls = (\<lambda>st. robodojo_class (cf st) (slot_at world stages n r st) bk render nb others assign)"
    and wave: "at_eval_wave c world stages n r w wk"
    and ran: "reset_env cfg cls read_robodojo ''eval'' (Some (extra, ids, False)) sched wk = (Inr (ob, ks), wk')"
  shows "at_eval_wave c world stages n r (Suc w) wk' \<and>
    identity_field ob ''eval_episode_id'' =
      map (\<lambda>i. int (i mod length (rd_layout_ids c))) (concat (map (\<lambda>st. wave_slots world stages n r st w) [0..<stages]))"
proof -
  let ?id = "''eval_episode_id''"
  from wave have ms: "ew_eval_simulators wk = []" "length (ew_simulators wk) = wc_stage_num cfg"
    by (simp_all add: at_eval_wave_def assms(5))
  with ran obtain results ms' obs where
    rs: "reset_stages cfg cls (Some (extra, ids, False)) sched (ew_simulators wk) = (Inr results, ms')"
    and obs: "traverse (\<lambda>(a, k). read_robodojo a) results = Inr obs"
    and ob: "ob = join_observations obs" and wk': "wk' = wk\<lparr>ew_simulators := ms'\<rparr>"
    by (auto simp: reset_env_def uses_eval_simulators_def simulators_def put_simulators_def bind_res_Inr_iff
        split: prod.splits if_splits)
  from ran ms(1) have "ew_simulators wk \<noteq> []"
    by (auto simp: reset_env_def uses_eval_simulators_def split: if_splits)
  with ms(2) have "0 < wc_stage_num cfg" by (metis length_greater_0_conv)
  note st = reset_stages_Inr [OF rs ms(2) this, unfolded assms(5)]
  have stage: "seen_cases (fst (results ! i)) = eval_wave c (wave_slots world stages n r i w) \<and>
      (\<exists>cu'. cu_eval_case_cursor cu' = int (Suc w) * int n \<and> ready_at c (slot_at world stages n r i) (ms' ! i) cu')"
    if i: "i < stages" for i
  proof -
    from wave i obtain cu where cu: "cu_eval_case_cursor cu = int w * int n"
      "ready_at c (slot_at world stages n r i) (ew_simulators wk ! i) cu" by (auto simp: at_eval_wave_def)
    obtain a k where ak: "results ! i = (a, k)" by (cases "results ! i")
    from stage_reset_draws [OF assms(1-3) _ assms(4) cu st(3) [OF i, unfolded cls ak]] assms(6) i ak show ?thesis by auto
  qed
  have "at_eval_wave c world stages n r (Suc w) wk'"
    using stage ms st(2) by (auto simp: at_eval_wave_def wk')
  moreover have "map (\<lambda>ob. identity_field ob ?id) obs = map (\<lambda>i. snd (snd (seen_cases (fst (results ! i))))) [0..<stages]"
  proof -
    have "map (\<lambda>ob. identity_field ob ?id) obs = map (\<lambda>a. snd (snd (seen_cases a))) (map fst results)"
      unfolding read_robodojo_all [OF obs, symmetric] by (simp add: seen_cases_def o_def)
    also have "\<dots> = map (\<lambda>i. snd (snd (seen_cases (fst (results ! i))))) [0..<stages]"
      by (rule nth_equalityI) (simp_all add: st(1))
    finally show ?thesis .
  qed
  moreover have "map (\<lambda>i. snd (snd (seen_cases (fst (results ! i))))) [0..<stages] =
      map (\<lambda>i. map (\<lambda>j. int (j mod length (rd_layout_ids c))) (wave_slots world stages n r i w)) [0..<stages]"
    using stage by (auto simp: eval_wave_def Let_def o_def)
  ultimately show ?thesis by (simp add: ob joined_field concat_map_map)
qed

section \<open>A fresh worker\<close>

lemma start_simulators_Inr:
  "start_simulators cls i ts ms = (Inr (), ms') \<Longrightarrow> length ts = length ms \<Longrightarrow>
   length ms' = length ms \<and> (\<forall>j < length ms. start_simulator (cls (i + j)) (ts ! j) (ms ! j) = (Inr (), ms' ! j))"
proof (induction cls i ts ms arbitrary: ms' rule: start_simulators.induct)
  case (3 cls i t ts m ms)
  from 3(2) obtain m' ms2 where h: "start_simulator (cls i) t m = (Inr (), m')"
    "start_simulators cls (Suc i) ts ms = (Inr (), ms2)" "ms' = m' # ms2"
    by (auto split: prod.splits sum.splits)
  with 3(1) [OF h(1) [symmetric] refl h(2)] 3(3) show ?case
    by (auto simp: less_Suc_eq_0_disj)
qed simp_all

lemma fresh_worker_at_wave_0:
  assumes "init_worker cfg cls eval_cls ts ets = (Inr (), wk)" and "wc_simulator_type cfg = ''robodojo''"
    and "length ts = wc_stage_num cfg" and "wc_stage_num cfg = stages"
    and "\<forall>st < stages. robodojo_simulator_cfg_for_stage c r world st stages = Inr (cf st)"
    and cls: "cls = (\<lambda>st. robodojo_class (cf st) (slot_at world stages n r st) bk render nb others assign)"
  shows "at_eval_wave c world stages n r 0 wk"
proof -
  from assms(1,2) obtain ms where s: "start_simulators cls 0 ts (replicate stages new_manager) = (Inr (), ms)"
    and wk: "wk = \<lparr>ew_simulators = ms, ew_eval_simulators = []\<rparr>"
    by (auto simp: init_worker_def Let_def shared_simulator_types_def assms(4) split: prod.splits)
  from start_simulators_Inr [OF s] assms(3,4) have m: "length ms = stages"
    "st < stages \<Longrightarrow> start_simulator (cls st) (ts ! st) new_manager = (Inr (), ms ! st)" for st by simp_all
  have "ready_at c (slot_at world stages n r st) (ms ! st) (get_state (new_cases c))" if st: "st < stages" for st
  proof -
    have "robodojo.saved_at (cf st) new_manager (get_state (new_cases (cf st)))"
      by (simp add: saved_place saved_place_def new_manager_def)
    from robodojo.started [OF this _ m(2) [OF st, unfolded cls]]
    have "robodojo.in_step (slot_at world stages n r st) (cf st) (ms ! st) (get_state (new_cases (cf st)))"
      by (simp add: new_manager_def)
    moreover have "new_cases (cf st) = new_cases c" using bound_config_cases(2) assms(5) st by blast
    ultimately show ?thesis by (simp add: ready_at_def robodojo.in_step_def saved_place saved_place_def)
  qed
  with m(1) show ?thesis
    by (auto simp: at_eval_wave_def wk new_cases_def get_state_def intro!: exI [of _ "get_state (new_cases c)"])
qed

section \<open>The fleet\<close>

text \<open>
  C14. What evaluation actually runs on: when all workers of a RoboDojo fleet stand before evaluation wave \<open>w\<close> and their
  resets return, with whatever timeouts and process restarts on the way, then every pipeline stage
  is handed, over all workers, the next \<open>world * n\<close> consecutive benchmark cases modulo the benchmark
  size, stage after stage, and all workers stand before the next wave.
\<close>

theorem pipeline_stages_get_consecutive_cases:
  assumes "robodojo_post_init c = Inr ()" and "0 < n" and "0 < world" and "0 < stages"
    and "rx_mode extra = Some ''eval''" and "wc_robodojo cfg = Some rb" and "wc_stage_num cfg = stages"
    and "\<forall>r < world. \<forall>st < stages. robodojo_simulator_cfg_for_stage c r world st stages = Inr (cf r st)"
    and cls: "cls = (\<lambda>r st. robodojo_class (cf r st) (slot_at world stages n r st) bk render nb others assign)"
    and "\<forall>r < world. at_eval_wave c world stages n r w (wks r)"
    and "\<forall>r < world. reset_env cfg (cls r) read_robodojo ''eval'' (Some (extra, ids, False)) (sched r) (wks r) =
           (Inr (ob r, ks r), wks' r)"
    and "lc_workers lc = world" and "lc_stage_num lc = stages" and L: "L = length (rd_layout_ids c)"
  shows "(\<forall>r < world. at_eval_wave c world stages n r (Suc w) (wks' r)) \<and>
    restructure_obs_data lc (concat (map (\<lambda>r. identity_field (ob r) ''eval_episode_id'') [0..<world])) =
      Inr (map (\<lambda>st. map (\<lambda>i. int (i mod L)) [(w * stages + st) * (world * n)..<(w * stages + st) * (world * n) + world * n])
        [0..<stages])"
proof -
  let ?g = "\<lambda>i. int (i mod L)"
  have worker: "at_eval_wave c world stages n r (Suc w) (wks' r) \<and>
      identity_field (ob r) ''eval_episode_id'' = map ?g (concat (map (\<lambda>st. wave_slots world stages n r st w) [0..<stages]))"
    if r: "r < world" for r
    using worker_reset_draws [OF assms(1,2,5-7) _ refl, of r world "cf r" w "wks r"] assms(8,10,11) r
    unfolding cls L by blast
  let ?blk = "\<lambda>r st. map ?g (wave_slots world stages n r st w)"
  have "map (\<lambda>r. identity_field (ob r) ''eval_episode_id'') [0..<world] =
      map (\<lambda>r. concat (map (?blk r) [0..<stages])) [0..<world]"
    using worker by (auto simp: concat_map_map)
  then have rows: "concat (map (\<lambda>r. identity_field (ob r) ''eval_episode_id'') [0..<world]) = reset_order world stages ?blk"
    by (simp only: reset_order_def)
  have "restructure_obs_data lc (reset_order (lc_workers lc) (lc_stage_num lc) ?blk) =
      Inr (map (\<lambda>st. concat (map (\<lambda>r. ?blk r st) [0..<lc_workers lc])) [0..<lc_stage_num lc])"
    using assms(3,4,12,13) by (intro restructure_blocks [of _ _ n]) (auto simp: wave_slots_def)
  then have "restructure_obs_data lc (reset_order world stages ?blk) =
      Inr (map (\<lambda>st. map ?g [(w * stages + st) * (world * n)..<(w * stages + st) * (world * n) + world * n]) [0..<stages])"
    by (simp add: assms(12,13) concat_map_map stage_slots)
  with worker rows show ?thesis by simp
qed

section \<open>A run\<close>

definition fleet_class :: "nat \<Rightarrow> nat \<Rightarrow> (unit robo_state, unit reset_request, unit robo_answer) env_class" where
  "fleet_class = (\<lambda>r st. robodojo_class sample_robodojo (slot_at 2 1 2 r st) sample_backend (\<lambda>j. ''x'') (Inr ())
     (\<lambda>name q. lift_res (Inl AttributeError)) (\<lambda>name a s. Inr s))"

definition fleet_cfg :: worker_config where
  "fleet_cfg = \<lparr>wc_simulator_type = ''robodojo'', wc_stage_num = 1, wc_num_envs = 2, wc_modes = [''train''],
     wc_robodojo = Some \<lparr>rb_reset_rpc_timeout_s = 240, rb_reset_process_max_restarts = 2, rb_parallel_restart_stages = False\<rparr>\<rparr>"

definition fleet_worker :: "nat \<Rightarrow> (unit robo_state, unit reset_request, unit robo_answer) env_worker" where
  "fleet_worker r = snd (init_worker fleet_cfg (fleet_class r) (fleet_class r) [Responds] [])"

definition eval_extra :: "unit reset_extra" where
  "eval_extra = \<lparr>rx_mode = Some ''eval'', rx_progress = None\<rparr>"

definition fleet_reset where
  "fleet_reset r = reset_env fleet_cfg (fleet_class r) read_robodojo ''eval'' (Some (eval_extra, [0, 1], False))
     (\<lambda>st. sample_trouble) (fleet_worker r)"

definition fleet_obs :: "nat \<Rightarrow> unit obs" where
  "fleet_obs r = (case fst (fleet_reset r) of Inr (ob, ks) \<Rightarrow> ob | Inl e \<Rightarrow> join_observations [])"

definition fleet_restarts :: "nat \<Rightarrow> nat list" where
  "fleet_restarts r = (case fst (fleet_reset r) of Inr (ob, ks) \<Rightarrow> ks | Inl e \<Rightarrow> [])"

lemma fleet_runs:
  "(case fst (fleet_reset 0) of Inr y \<Rightarrow> True | Inl e \<Rightarrow> False)" "(case fst (fleet_reset 1) of Inr y \<Rightarrow> True | Inl e \<Rightarrow> False)"
  "fst (init_worker fleet_cfg (fleet_class 0) (fleet_class 0) [Responds] []) = Inr ()"
  "fst (init_worker fleet_cfg (fleet_class 1) (fleet_class 1) [Responds] []) = Inr ()"
  by code_simp+

lemma fleet_config: "robodojo_simulator_cfg_for_stage sample_robodojo r 2 st 1 = Inr sample_robodojo" if "r < 2" "st < 1"
  using that by (simp add: robodojo_simulator_cfg_for_stage_def task_assignment_def sample_robodojo_def)

theorem pipeline_stages_get_consecutive_cases_witness:
  "restructure_obs_data \<lparr>lc_stage_num = 1, lc_workers = 2, lc_max_interactions = 1, lc_partition_by_worker = False, lc_partition_size = 0\<rparr>
     (concat (map (\<lambda>r. identity_field (fleet_obs r) ''eval_episode_id'') [0..<2])) = Inr [[0, 1, 2, 3]]"
proof -
  have start: "at_eval_wave sample_robodojo 2 1 2 r 0 (fleet_worker r)" if r: "r < 2" for r
  proof (rule fresh_worker_at_wave_0)
    show "init_worker fleet_cfg (fleet_class r) (fleet_class r) [Responds] [] = (Inr (), fleet_worker r)"
      using fleet_runs(3,4) r by (auto simp: fleet_worker_def prod_eq_iff numeral_2_eq_2 less_Suc_eq)
    show "fleet_class r = (\<lambda>st. robodojo_class sample_robodojo (slot_at 2 1 2 r st) sample_backend (\<lambda>j. ''x'') (Inr ())
        (\<lambda>name q. lift_res (Inl AttributeError)) (\<lambda>name a s. Inr s))" by (simp add: fleet_class_def)
  qed (use fleet_config r in \<open>simp_all add: fleet_cfg_def\<close>)
  have resets: "reset_env fleet_cfg (fleet_class r) read_robodojo ''eval'' (Some (eval_extra, [0, 1], False)) (\<lambda>st. sample_trouble)
      (fleet_worker r) = (Inr (fleet_obs r, fleet_restarts r), snd (fleet_reset r))" if "r < 2" for r
    using fleet_runs(1,2) that
    by (auto simp: fleet_obs_def fleet_restarts_def fleet_reset_def prod_eq_iff numeral_2_eq_2 less_Suc_eq split: sum.splits)
  let ?lc = "\<lparr>lc_stage_num = 1, lc_workers = 2, lc_max_interactions = 1, lc_partition_by_worker = False, lc_partition_size = 0\<rparr>"
  have "(\<forall>r < 2. at_eval_wave sample_robodojo 2 1 2 r (Suc 0) (snd (fleet_reset r))) \<and>
    restructure_obs_data ?lc (concat (map (\<lambda>r. identity_field (fleet_obs r) ''eval_episode_id'') [0..<2])) =
      Inr (map (\<lambda>st. map (\<lambda>i. int (i mod 6)) [(0 * 1 + st) * (2 * 2)..<(0 * 1 + st) * (2 * 2) + 2 * 2]) [0..<1])"
    by (rule pipeline_stages_get_consecutive_cases [OF sample_robodojo_ok _ _ _ _ _ _ _ fleet_class_def,
          where extra = eval_extra and cfg = fleet_cfg and wks = fleet_worker and ids = "[0, 1]"
            and sched = "\<lambda>r st. sample_trouble" and ks = fleet_restarts])
      (use start resets fleet_config in \<open>simp_all add: eval_extra_def fleet_cfg_def sample_robodojo_facts\<close>)
  then show ?thesis by (simp add: upt_conv_Cons)
qed

end
