(* ===== verification/Shared_Policy.thy ===== *)
theory Shared_Policy
  imports Stateful
begin

text \<open>
  One policy for several simulators: the batches, sample seeds and microbatches of
  workflows/native_fastwam_robodojo_eval.py and of the sampling operation of
  models/fastwam/trainable_model.py, and the merging of simulator requests.

  The network is a parameter: \<open>fw_infer\<close> maps the rows of a batch with their tasks and sample seeds to one action
  sample per row. Its counters of calls per seed are the state. A row of observations is opaque;
  images, devices and timings are left out.
\<close>

section \<open>Vector observations\<close>

record 'o vec_obs =
  vo_rows :: "'o list"
  vo_tasks :: "string list"
  vo_ids :: "(string \<times> int list) list"

definition IDENTITY_FIELDS :: "string list" where
  "IDENTITY_FIELDS =
     [''task_id'', ''suite_id'', ''eval_episode_id'', ''layout_id'', ''environment_seed'', ''policy_seed'']"

definition pick :: "'a list \<Rightarrow> nat \<Rightarrow> 'a result" where
  "pick xs i = (if i < length xs then Inr (xs ! i) else Inl IndexError)"

definition identity_fields :: "'o vec_obs \<Rightarrow> string list" where
  "identity_fields obs = filter (\<lambda>f. map_of (vo_ids obs) f \<noteq> None) IDENTITY_FIELDS"

definition id_values :: "'o vec_obs \<Rightarrow> string \<Rightarrow> int list" where
  "id_values obs f = (case map_of (vo_ids obs) f of None \<Rightarrow> [] | Some vs \<Rightarrow> vs)"

definition robodojo_observation_batch :: "nat list \<Rightarrow> 'o vec_obs \<Rightarrow> 'o vec_obs result" where
  "robodojo_observation_batch indices obs =
     bind_res (traverse (pick (vo_rows obs)) indices) (\<lambda>rows.
     bind_res (require (rows \<noteq> []) IndexError) (\<lambda>_.
     bind_res (traverse (pick (vo_tasks obs)) indices) (\<lambda>tasks.
     bind_res (traverse (\<lambda>f. bind_res (traverse (pick (id_values obs f)) indices) (\<lambda>xs. Inr (f, xs)))
                (identity_fields obs)) (\<lambda>ids.
       Inr \<lparr>vo_rows = rows, vo_tasks = tasks, vo_ids = ids\<rparr>))))"

section \<open>Sampling actions\<close>

definition ACTION_DIM_fastwam :: nat where "ACTION_DIM_fastwam = 14"

record 't action_row =
  ar_action :: "pyfloat list list"
  ar_full :: "pyfloat list list"
  ar_trace :: "'t option"

record ('o, 't) fastwam =
  fw_seed_mode :: string
  fw_seed :: "int option"
  fw_horizon :: nat
  fw_chunk :: nat
  fw_latent_scale :: rat
  fw_flow_enabled :: bool
  fw_hash :: "string \<Rightarrow> nat"
  fw_infer :: "bool \<Rightarrow> ('o \<times> string \<times> int option) list \<Rightarrow> (pyfloat list list \<times> 't option) list"
  fw_oracle :: "'o \<Rightarrow> string \<Rightarrow> pyfloat list list"

type_synonym call_counts = "(int \<times> nat) list"

definition calls_of :: "call_counts \<Rightarrow> int \<Rightarrow> nat" where
  "calls_of c b = (case map_of c b of None \<Rightarrow> 0 | Some k \<Rightarrow> k)"

definition derive_policy_call_seed :: "('o, 't) fastwam \<Rightarrow> int \<Rightarrow> nat \<Rightarrow> int" where
  "derive_policy_call_seed fw base_seed call_index =
     int (fw_hash fw (''fastwam-policy-call:'' @ int_str base_seed @ '':'' @ nat_str call_index)) mod (2 ^ 63 - 1)"

fun call_seeds :: "('o, 't) fastwam \<Rightarrow> int list \<Rightarrow> call_counts \<Rightarrow> int list \<times> call_counts" where
  "call_seeds fw [] c = ([], c)"
| "call_seeds fw (b # bs) c =
     (let k = calls_of c b; (seeds, c') = call_seeds fw bs (AList.update b (Suc k) c)
      in (derive_policy_call_seed fw b k # seeds, c'))"

definition rollout_sample_seeds :: "('o, 't) fastwam \<Rightarrow> int list \<Rightarrow> call_counts \<Rightarrow> int list \<times> call_counts" where
  "rollout_sample_seeds fw bases c = (if fw_seed_mode fw = ''episode'' then (bases, c) else call_seeds fw bases c)"

definition sample_seeds :: "('o, 't) fastwam \<Rightarrow> 'o vec_obs \<Rightarrow> (call_counts, int option list) stm" where
  "sample_seeds fw obs c =
     (let n = length (vo_rows obs) in
      case map_of (vo_ids obs) ''policy_seed'' of
        None \<Rightarrow> (Inr (replicate n (fw_seed fw)), c)
      | Some bases \<Rightarrow>
          if length bases \<noteq> n then (Inl ValueError, c)
          else let (seeds, c') = rollout_sample_seeds fw bases c in (Inr (map Some seeds), c'))"

definition sac_sample_actions :: "('o, 't) fastwam \<Rightarrow> bool \<Rightarrow> 'o vec_obs \<Rightarrow> (call_counts, 't action_row list) stm" where
  "sac_sample_actions fw eval obs =
     bnd (lift_res (require (length (vo_tasks obs) = length (vo_rows obs)) ValueError)) (\<lambda>_.
     bnd (sample_seeds fw obs) (\<lambda>seeds.
       let flow = fw_flow_enabled fw \<and> \<not> eval;
           samples =
             (if length (vo_rows obs) = 1 \<and> map_of (vo_ids obs) ''policy_seed'' = None \<and> fw_latent_scale fw = 1 \<and> \<not> flow
              then [(fw_oracle fw (hd (vo_rows obs)) (hd (vo_tasks obs)), None)]
              else fw_infer fw flow (zip (vo_rows obs) (zip (vo_tasks obs) seeds)))
       in
     bnd (lift_res (require
       (list_all (\<lambda>(a, _). length a = fw_horizon fw \<and> list_all (\<lambda>x. length x = ACTION_DIM_fastwam) a) samples) RuntimeError)) (\<lambda>_.
     bnd (lift_res (require (list_all (\<lambda>(a, _). list_all (list_all pf_isfinite) a) samples) FloatingPointError)) (\<lambda>_.
     bnd (lift_res (require (list_all (\<lambda>(a, _). length a = 32 \<and> length (take (fw_chunk fw) a) = 24) samples) ValueError)) (\<lambda>_.
       lift_res (Inr (map (\<lambda>(a, t). \<lparr>ar_action = take (fw_chunk fw) a, ar_full = a, ar_trace = t\<rparr>) samples)))))))"

text \<open>\<open>FastWAMTrainableModel.reset\<close>\<close>

definition reset_policy :: "(call_counts, unit) stm" where
  "reset_policy = upd (\<lambda>_. [])"

section \<open>Microbatches\<close>

text \<open>\<open>range(0, batch_size, mb)\<close>, each with its upper end.\<close>

definition microbatches :: "nat \<Rightarrow> nat \<Rightarrow> nat list list" where
  "microbatches batch_size mb =
     map (\<lambda>j. [j * mb..<min (j * mb + mb) batch_size]) [0..<(batch_size + mb - 1) div mb]"

fun collect_stm :: "('a \<Rightarrow> ('s, 'b) stm) \<Rightarrow> 'a list \<Rightarrow> ('s, 'b list) stm" where
  "collect_stm f [] = lift_res (Inr [])"
| "collect_stm f (x # xs) = bnd (f x) (\<lambda>y. bnd (collect_stm f xs) (\<lambda>ys. lift_res (Inr (y # ys))))"

definition sample_in_microbatches ::
  "('o, 't) fastwam \<Rightarrow> bool \<Rightarrow> int \<Rightarrow> 'o vec_obs \<Rightarrow> (call_counts, 't action_row list list) stm" where
  "sample_in_microbatches fw eval mb obs =
     bnd (lift_res (require (mb \<noteq> 0) ValueError)) (\<lambda>_.
       collect_stm (\<lambda>indices. bnd (lift_res (robodojo_observation_batch indices obs)) (sac_sample_actions fw eval))
         (if mb < 0 then [] else microbatches (length (vo_rows obs)) (nat mb)))"

definition infer_shared_model_in_microbatches ::
  "('o, 't) fastwam \<Rightarrow> int \<Rightarrow> 'o vec_obs \<Rightarrow> (call_counts, pyfloat list list list) stm" where
  "infer_shared_model_in_microbatches fw mb obs =
     bnd (sample_in_microbatches fw True mb obs) (\<lambda>chunks.
     bnd (lift_res (require (chunks \<noteq> []) RuntimeError)) (\<lambda>_.
       let actions = map ar_action (concat chunks) in
     bnd (lift_res (require (length actions = length (vo_rows obs) \<and> list_all (\<lambda>a. length a = 24) actions) RuntimeError)) (\<lambda>_.
       lift_res (Inr actions))))"

definition infer_shared_model_outputs_in_microbatches ::
  "('o, 't) fastwam \<Rightarrow> bool \<Rightarrow> int \<Rightarrow> 'o vec_obs \<Rightarrow> (call_counts, 't action_row list) stm" where
  "infer_shared_model_outputs_in_microbatches fw eval mb obs =
     bnd (sample_in_microbatches fw eval mb obs) (\<lambda>chunks.
     bnd (lift_res (require (chunks \<noteq> []) IndexError)) (\<lambda>_.
       let rows = concat chunks; n = length (vo_rows obs);
           shaped = (\<lambda>k xs. length xs = n \<and> list_all (\<lambda>a. length a = k \<and> list_all (\<lambda>x. length x = 14) a) xs) in
     bnd (lift_res (require (shaped 24 (map ar_action rows)) RuntimeError)) (\<lambda>_.
     bnd (lift_res (require (shaped 32 (map ar_full rows)) RuntimeError)) (\<lambda>_.
       lift_res (Inr rows)))))"

section \<open>Requests of several simulators\<close>

definition ipc_observation :: "'o vec_obs \<Rightarrow> 'o vec_obs" where
  "ipc_observation obs = obs\<lparr>vo_ids := map (\<lambda>f. (f, id_values obs f)) (identity_fields obs)\<rparr>"

definition request_ok :: "string list \<Rightarrow> 'o vec_obs \<Rightarrow> bool" where
  "request_ok present obs \<longleftrightarrow>
     vo_rows obs \<noteq> [] \<and> length (vo_rows obs) = length (vo_tasks obs) \<and>
     list_all (\<lambda>f. length (id_values obs f) = length (vo_rows obs)) present"

fun request_slices :: "nat \<Rightarrow> 'o vec_obs list \<Rightarrow> (nat \<times> nat) list" where
  "request_slices offset [] = []"
| "request_slices offset (obs # rest) =
     (let stop = offset + length (vo_rows obs) in (offset, stop) # request_slices stop rest)"

definition merge_ipc_observations :: "'o vec_obs list \<Rightarrow> ('o vec_obs \<times> (nat \<times> nat) list) result" where
  "merge_ipc_observations observations =
     (case observations of
        [] \<Rightarrow> Inl ValueError
      | first # rest \<Rightarrow>
          let present = identity_fields first in
          bind_res (require (list_all (\<lambda>obs. identity_fields obs = present) rest) ValueError) (\<lambda>_.
          bind_res (require (list_all (request_ok present) observations) ValueError) (\<lambda>_.
            Inr (\<lparr>vo_rows = concat (map vo_rows observations), vo_tasks = concat (map vo_tasks observations),
                  vo_ids = map (\<lambda>f. (f, concat (map (\<lambda>obs. id_values obs f) observations))) present\<rparr>,
                 request_slices 0 observations))))"

definition slice_rows :: "nat \<times> nat \<Rightarrow> 'a list \<Rightarrow> 'a list" where
  "slice_rows = (\<lambda>(a, b) xs. take (b - a) (drop a xs))"

end
