(* ===== verification/Native_Eval.thy ===== *)
theory Native_Eval
  imports Shared_Policy Robodojo_Cases Group_Validation
begin

text \<open>
  workflows/native_fastwam_robodojo_eval.py: the stand-alone evaluation of fixed cases. Either one process owns
  the simulator and the policy, or the parent owns the policy and serves simulator processes, each with a
  share of the cases. The simulator of a process is a record of functions over its state \<open>'v\<close>; what
  each process does is a tree of requests, so that a run of the parent is the order in which
  the messages reach it. Videos, captures of first calls, report files and devices are left out.
\<close>

section \<open>Tallies\<close>

record chunk_feedback =
  cf_terminated :: "bool list list"
  cf_truncated :: "bool list list"
  cf_success :: "bool list list"
  cf_score :: "pyfloat list list option"

definition done_steps :: "chunk_feedback \<Rightarrow> bool list list" where
  "done_steps fb = map2 (map2 (\<or>)) (cf_terminated fb) (cf_truncated fb)"

definition terminal_or_latest_score :: "pyfloat list \<Rightarrow> bool list \<Rightarrow> pyfloat result" where
  "terminal_or_latest_score score_row done_row =
     (if score_row = [] then Inl IndexError
      else Inr (score_row ! (case first_true done_row of Some i \<Rightarrow> i | None \<Rightarrow> length score_row - 1)))"

definition terminal_or_latest_scores ::
  "pyfloat list list \<Rightarrow> bool list list \<Rightarrow> bool list list \<Rightarrow> bool list \<Rightarrow> pyfloat list result" where
  "terminal_or_latest_scores scores terminated truncated already_done =
     (let dones = map2 (map2 (\<or>)) terminated truncated in
      bind_res (require (map length dones = map length scores) ValueError) (\<lambda>_.
      bind_res (require (length already_done = length scores) ValueError) (\<lambda>_.
        traverse (\<lambda>(already, s, d). if already then Inr (Fin 0) else terminal_or_latest_score s d)
          (zip already_done (zip scores dones)))))"

text \<open>\<open>np.maximum\<close> and \<open>amax\<close>: a NaN wins.\<close>

definition pf_maximum :: "pyfloat \<Rightarrow> pyfloat \<Rightarrow> pyfloat" where
  "pf_maximum a b = (if a = NaN \<or> b = NaN then NaN else if pf_less a b then b else a)"

definition row_amax :: "pyfloat list \<Rightarrow> pyfloat result" where
  "row_amax xs = (case xs of [] \<Rightarrow> Inl IndexError | y # ys \<Rightarrow> Inr (foldl pf_maximum y ys))"

record tally =
  ta_success :: "bool list"
  ta_done :: "bool list"
  ta_score :: "pyfloat list"
  ta_calls :: "nat list"

definition new_tally :: "nat \<Rightarrow> tally" where
  "new_tally n =
     \<lparr>ta_success = replicate n False, ta_done = replicate n False, ta_score = replicate n (Fin 0), ta_calls = replicate n 0\<rparr>"

definition count_calls :: "tally \<Rightarrow> tally" where
  "count_calls t = t\<lparr>ta_calls := map2 (\<lambda>d c. if d then c else Suc c) (ta_done t) (ta_calls t)\<rparr>"

definition new_scores :: "string \<Rightarrow> chunk_feedback \<Rightarrow> tally \<Rightarrow> pyfloat list result" where
  "new_scores reduction fb t =
     (case cf_score fb of
        None \<Rightarrow> Inr (ta_score t)
      | Some scores \<Rightarrow>
          if reduction = ''trajectory_max'' then
            bind_res (traverse row_amax scores) (\<lambda>best. Inr (map2 pf_maximum (ta_score t) best))
          else
            bind_res (terminal_or_latest_scores scores (cf_terminated fb) (cf_truncated fb) (ta_done t)) (\<lambda>active.
              Inr (map2 (\<lambda>d (old, new). if d then old else new) (ta_done t) (zip (ta_score t) active))))"

text \<open>What one executed chunk adds; its rows are one per environment.\<close>

definition tally_step :: "string \<Rightarrow> chunk_feedback \<Rightarrow> tally \<Rightarrow> tally result" where
  "tally_step reduction fb t =
     (let n = length (ta_done t) in
      bind_res (require (length (cf_success fb) = n \<and> length (done_steps fb) = n \<and>
        (case cf_score fb of None \<Rightarrow> True | Some s \<Rightarrow> length s = n)) ValueError) (\<lambda>_.
      bind_res (new_scores reduction fb t) (\<lambda>scores.
        Inr (t\<lparr>ta_success := map2 (\<or>) (ta_success t) (map (list_ex id) (cf_success fb)), ta_score := scores,
               ta_done := map2 (\<or>) (ta_done t) (map (list_ex id) (done_steps fb))\<rparr>))))"

section \<open>Cases\<close>

record eval_case =
  ec_episode_id :: int
  ec_layout_id :: int
  ec_environment_seed :: int
  ec_policy_seed :: int
  ec_success :: bool
  ec_score :: pyfloat
  ec_calls :: nat
  ec_done :: bool
  ec_shard :: "nat option"

definition id_at :: "'o vec_obs \<Rightarrow> string \<Rightarrow> nat \<Rightarrow> int result" where
  "id_at obs f i = (case map_of (vo_ids obs) f of None \<Rightarrow> Inl KeyError | Some vs \<Rightarrow> pick vs i)"

definition case_identity :: "'o vec_obs \<Rightarrow> nat \<Rightarrow> (int \<times> int \<times> int \<times> int) result" where
  "case_identity obs i =
     bind_res (id_at obs ''eval_episode_id'' i) (\<lambda>a. bind_res (id_at obs ''layout_id'' i) (\<lambda>b.
     bind_res (id_at obs ''environment_seed'' i) (\<lambda>c. bind_res (id_at obs ''policy_seed'' i) (\<lambda>d. Inr (a, b, c, d)))))"

definition case_results :: "nat option \<Rightarrow> (int \<times> int \<times> int \<times> int) list \<Rightarrow> tally \<Rightarrow> eval_case list" where
  "case_results shard identity t =
     map (\<lambda>(i, a, b, c, d).
       \<lparr>ec_episode_id = a, ec_layout_id = b, ec_environment_seed = c, ec_policy_seed = d, ec_success = ta_success t ! i,
        ec_score = ta_score t ! i, ec_calls = ta_calls t ! i, ec_done = ta_done t ! i, ec_shard = shard\<rparr>)
       (zip [0..<length identity] identity)"

record eval_summary =
  es_num_cases :: nat
  es_successes :: nat
  es_success_rate :: rat
  es_mean_score :: pyfloat
  es_all_done :: bool
  es_incomplete :: nat
  es_cases :: "eval_case list"

definition pf_scale :: "rat \<Rightarrow> pyfloat \<Rightarrow> pyfloat" where
  "pf_scale q x = (case x of Fin a \<Rightarrow> Fin (q * a) | _ \<Rightarrow> x)"

definition summarize :: "eval_case list \<Rightarrow> eval_summary" where
  "summarize cs =
     (let n = length cs; successes = length (filter ec_success cs) in
      \<lparr>es_num_cases = n, es_successes = successes, es_success_rate = of_nat successes / of_nat n,
       es_mean_score = pf_scale (1 / of_nat n) (pf_sum (map ec_score cs)), es_all_done = list_all ec_done cs,
       es_incomplete = length (filter (\<lambda>c. \<not> ec_done c) cs), es_cases = cs\<rparr>)"

section \<open>One process\<close>

record ('v, 'o) eval_env =
  ee_reset :: "bool \<Rightarrow> ('v, 'o vec_obs) stm"
  ee_step :: "pyfloat list list list \<Rightarrow> ('v, 'o vec_obs \<times> chunk_feedback) stm"

record eval_config =
  ev_layout_ids :: "int list"
  ev_policy_seeds :: "int list"
  ev_num_envs :: int
  ev_microbatch :: int
  ev_reduction :: string
  ev_shards :: int
  ev_max_calls :: int
  ev_simulator_device :: int
  ev_model_device :: int

definition on_env :: "('v, 'a) stm \<Rightarrow> ('v \<times> 'c, 'a) stm" where
  "on_env m s = (case m (fst s) of (r, v) \<Rightarrow> (r, (v, snd s)))"

definition on_counts :: "('c, 'a) stm \<Rightarrow> ('v \<times> 'c, 'a) stm" where
  "on_counts m s = (case m (snd s) of (r, c) \<Rightarrow> (r, (fst s, c)))"

fun policy_calls ::
  "('v, 'o) eval_env \<Rightarrow> ('o, 't) fastwam \<Rightarrow> eval_config \<Rightarrow> nat \<Rightarrow> 'o vec_obs \<Rightarrow> tally \<Rightarrow> ('v \<times> call_counts, tally) stm" where
  "policy_calls env fw cfg 0 obs t = lift_res (Inr t)"
| "policy_calls env fw cfg (Suc k) obs t =
     bnd (on_counts (infer_shared_model_in_microbatches fw (ev_microbatch cfg) obs)) (\<lambda>actions.
     bnd (on_env (ee_step env actions)) (\<lambda>(obs', fb).
     bnd (lift_res (tally_step (ev_reduction cfg) fb (count_calls t))) (\<lambda>t'.
       if list_all id (ta_done t') then lift_res (Inr t') else policy_calls env fw cfg k obs' t')))"

definition native_wave ::
  "('v, 'o) eval_env \<Rightarrow> ('o, 't) fastwam \<Rightarrow> eval_config \<Rightarrow> bool \<Rightarrow> ('v \<times> call_counts, eval_case list) stm" where
  "native_wave env fw cfg first =
     (let n = nat (ev_num_envs cfg) in
      bnd (on_env (ee_reset env first)) (\<lambda>obs.
      bnd (lift_res (traverse (case_identity obs) [0..<n])) (\<lambda>identity.
      bnd (policy_calls env fw cfg (nat (ev_max_calls cfg)) obs (new_tally n)) (\<lambda>t.
        lift_res (Inr (case_results None identity t))))))"

definition checked_config :: "eval_config \<Rightarrow> unit result" where
  "checked_config cfg =
     bind_res (require (length (ev_layout_ids cfg) = length (ev_policy_seeds cfg)) ValueError) (\<lambda>_.
     bind_res (require (ev_layout_ids cfg \<noteq> []) ValueError) (\<lambda>_.
     bind_res (require (ev_num_envs cfg \<noteq> 0) ZeroDivisionError) (\<lambda>_.
     bind_res (require (int (length (ev_layout_ids cfg)) mod ev_num_envs cfg = 0) ValueError) (\<lambda>_.
     bind_res (require (1 \<le> ev_microbatch cfg \<and> ev_microbatch cfg \<le> ev_num_envs cfg) ValueError) (\<lambda>_.
     bind_res (require (ev_reduction cfg \<in> {''terminal'', ''trajectory_max''}) ValueError) (\<lambda>_.
       require (1 \<le> ev_shards cfg) ValueError))))))"

definition wave_count :: "eval_config \<Rightarrow> nat" where
  "wave_count cfg = length (ev_layout_ids cfg) div nat (ev_num_envs cfg)"

definition single_process_eval ::
  "('v, 'o) eval_env \<Rightarrow> ('o, 't) fastwam \<Rightarrow> eval_config \<Rightarrow> int \<Rightarrow> ('v \<times> call_counts, eval_summary) stm" where
  "single_process_eval env fw cfg visible =
     bnd (lift_res (require (0 \<le> ev_simulator_device cfg \<and> ev_simulator_device cfg < visible) ValueError)) (\<lambda>_.
     bnd (lift_res (require (0 \<le> ev_model_device cfg \<and> ev_model_device cfg < visible) ValueError)) (\<lambda>_.
     bnd (collect_stm (\<lambda>wave. native_wave env fw cfg (wave = 0)) [0..<wave_count cfg]) (\<lambda>waves.
       lift_res (Inr (summarize (concat waves))))))"

section \<open>Simulator processes\<close>

datatype ('q, 'p, 'r) child = Infer 'q "'p \<Rightarrow> ('q, 'p, 'r) child" | Finished 'r | Failed py_error

type_synonym 'o shard = "('o vec_obs, pyfloat list list list, eval_case list) child"

fun shard_calls ::
  "('v, 'o) eval_env \<Rightarrow> string \<Rightarrow> nat \<Rightarrow> (int \<times> int \<times> int \<times> int) list \<Rightarrow> nat \<Rightarrow> 'o vec_obs \<Rightarrow> tally \<Rightarrow> 'v \<Rightarrow> 'o shard" where
  "shard_calls env reduction shard identity 0 obs t v = Finished (case_results (Some shard) identity t)"
| "shard_calls env reduction shard identity (Suc k) obs t v =
     Infer (ipc_observation obs) (\<lambda>actions.
       case ee_step env actions v of
         (Inl e, v') \<Rightarrow> Failed e
       | (Inr (obs', fb), v') \<Rightarrow>
           (case tally_step reduction fb (count_calls t) of
              Inl e \<Rightarrow> Failed e
            | Inr t' \<Rightarrow>
                if list_all id (ta_done t') then Finished (case_results (Some shard) identity t')
                else shard_calls env reduction shard identity k obs' t' v'))"

definition shared_model_env_worker ::
  "(env_slot \<Rightarrow> int list \<Rightarrow> int list \<Rightarrow> (('v, 'o) eval_env \<times> 'v) result) \<Rightarrow> eval_config \<Rightarrow> nat \<Rightarrow> nat \<Rightarrow>
   int list \<Rightarrow> int list \<Rightarrow> 'o shard" where
  "shared_model_env_worker build cfg worker_id worker_count layouts seeds =
     (let n = length layouts;
          slot = \<lparr>sl_rank = int worker_id, sl_world_size = int worker_count, sl_stage_id = 0, sl_stage_num = 1,
                  sl_num_envs = int n\<rparr> in
      case build slot layouts seeds of
        Inl e \<Rightarrow> Failed e
      | Inr (env, v) \<Rightarrow>
          (case ee_reset env True v of
             (Inl e, v') \<Rightarrow> Failed e
           | (Inr obs, v') \<Rightarrow>
               (case traverse (case_identity obs) [0..<n] of
                  Inl e \<Rightarrow> Failed e
                | Inr identity \<Rightarrow>
                    shard_calls env (ev_reduction cfg) worker_id identity (nat (ev_max_calls cfg)) obs (new_tally n) v')))"

text \<open>
  What the parent meets next: the message of a simulator process, or nothing for so long that it looks at the
  exit codes or gives up.
\<close>

datatype eval_event = Message nat | Process_Exited | No_Progress

record 'o eval_parent =
  ep_shards :: "'o shard list"
  ep_active :: "nat set"
  ep_cases :: "eval_case list"
  ep_counts :: call_counts

definition serve_message :: "('o, 't) fastwam \<Rightarrow> eval_config \<Rightarrow> nat \<Rightarrow> ('o eval_parent, unit) stm" where
  "serve_message fw cfg i p =
     (if i \<notin> ep_active p then (Inr (), p)
      else
        case ep_shards p ! i of
          Finished cs \<Rightarrow> (Inr (), p\<lparr>ep_cases := ep_cases p @ cs, ep_active := ep_active p - {i}\<rparr>)
        | Failed e \<Rightarrow> (Inl RuntimeError, p)
        | Infer obs answer \<Rightarrow>
            (case infer_shared_model_in_microbatches fw (ev_microbatch cfg) obs (ep_counts p) of
               (Inl e, c) \<Rightarrow> (Inl e, p\<lparr>ep_counts := c\<rparr>)
             | (Inr actions, c) \<Rightarrow>
                 (Inr (), p\<lparr>ep_counts := c, ep_shards := (ep_shards p)[i := answer actions]\<rparr>)))"

fun serve :: "('o, 't) fastwam \<Rightarrow> eval_config \<Rightarrow> eval_event list \<Rightarrow> ('o eval_parent, bool) stm" where
  "serve fw cfg [] = reading (\<lambda>p. lift_res (Inr (ep_active p = {})))"
| "serve fw cfg (e # es) = reading (\<lambda>p.
     if ep_active p = {} then lift_res (Inr True)
     else case e of
         Message i \<Rightarrow> bnd (serve_message fw cfg i) (\<lambda>_. serve fw cfg es)
       | Process_Exited \<Rightarrow> lift_res (Inl RuntimeError)
       | No_Progress \<Rightarrow> lift_res (Inl TimeoutError))"

definition sort_cases :: "eval_case list \<Rightarrow> eval_case list" where
  "sort_cases cs = sort_key ec_layout_id (sort_key ec_policy_seed cs)"

text \<open>\<open>None\<close>: the events given are not enough.\<close>

definition run_shared_model_sharded_robodojo_eval ::
  "(env_slot \<Rightarrow> int list \<Rightarrow> int list \<Rightarrow> (('v, 'o) eval_env \<times> 'v) result) \<Rightarrow> ('o, 't) fastwam \<Rightarrow> eval_config \<Rightarrow>
   eval_event list \<Rightarrow> eval_summary option result" where
  "run_shared_model_sharded_robodojo_eval build fw cfg events =
     bind_res (require (2 \<le> ev_shards cfg \<and> ev_num_envs cfg mod ev_shards cfg = 0) ValueError) (\<lambda>_.
     bind_res (require (int (length (ev_layout_ids cfg)) = ev_num_envs cfg \<and>
                        int (length (ev_policy_seeds cfg)) = ev_num_envs cfg) ValueError) (\<lambda>_.
       let shards = nat (ev_shards cfg); shard_size = nat (ev_num_envs cfg div ev_shards cfg);
           part = (\<lambda>i xs. take shard_size (drop (i * shard_size) xs));
           p = \<lparr>ep_shards = map (\<lambda>i. shared_model_env_worker build cfg i shards (part i (ev_layout_ids cfg))
                    (part i (ev_policy_seeds cfg))) [0..<shards],
                ep_active = {0..<shards}, ep_cases = [], ep_counts = []\<rparr> in
       case serve fw cfg events p of
         (Inl e, _) \<Rightarrow> Inl e
       | (Inr finished, p') \<Rightarrow> Inr (if finished then Some (summarize (sort_cases (ep_cases p'))) else None)))"

definition run_native_fastwam_robodojo_eval ::
  "(env_slot \<Rightarrow> int list \<Rightarrow> int list \<Rightarrow> (('v, 'o) eval_env \<times> 'v) result) \<Rightarrow> ('o, 't) fastwam \<Rightarrow> eval_config \<Rightarrow>
   int \<Rightarrow> eval_event list \<Rightarrow> eval_summary option result" where
  "run_native_fastwam_robodojo_eval build fw cfg visible events =
     bind_res (checked_config cfg) (\<lambda>_.
       if 1 < ev_shards cfg then run_shared_model_sharded_robodojo_eval build fw cfg events
       else
         bind_res (build \<lparr>sl_rank = 0, sl_world_size = 1, sl_stage_id = 0, sl_stage_num = 1, sl_num_envs = ev_num_envs cfg\<rparr>
                     (ev_layout_ids cfg) (ev_policy_seeds cfg)) (\<lambda>(env, v).
           bind_res (fst (single_process_eval env fw cfg visible (v, []))) (\<lambda>summary. Inr (Some summary))))"

end
