(* ===== verification/Shared_Policy_Properties.thy ===== *)
theory Shared_Policy_Properties
  imports Shared_Policy
begin

text \<open>
  Batching of a policy that infers every row by itself: microbatches and merged requests do not change
  the actions of a row, and every row keeps its own sequence of sample seeds.
\<close>

lemma bnd_after: "m s = (Inr x, t) \<Longrightarrow> bnd m f s = f x t"
  by (simp add: bnd_def)

lemma bnd_lift_Inr [simp]: "bnd (lift_res (Inr x)) f = f x"
  by (rule ext) (simp add: bnd_def lift_res_def)

section \<open>Policies that infer row by row\<close>

type_synonym ('o, 't) row_policy = "bool \<Rightarrow> 'o \<times> string \<times> int option \<Rightarrow> pyfloat list list \<times> 't option"

definition sound_policy :: "('o, 't) fastwam \<Rightarrow> ('o, 't) row_policy \<Rightarrow> bool" where
  "sound_policy fw f \<longleftrightarrow>
     fw_horizon fw = 32 \<and> fw_chunk fw = 24 \<and> (\<forall>flow xs. fw_infer fw flow xs = map (f flow) xs) \<and>
     (\<forall>flow x. length (fst (f flow x)) = 32 \<and>
        list_all (\<lambda>a. length a = 14 \<and> list_all pf_isfinite a) (fst (f flow x)))"

lemma sound_rows:
  assumes "sound_policy fw f"
  shows "length (fst (f flow x)) = 32" and "list_all (\<lambda>a. length a = 14 \<and> list_all pf_isfinite a) (fst (f flow x))"
  using assms unfolding sound_policy_def by blast+

definition row_of :: "pyfloat list list \<times> 't option \<Rightarrow> 't action_row" where
  "row_of = (\<lambda>(a, t). \<lparr>ar_action = take 24 a, ar_full = a, ar_trace = t\<rparr>)"

definition obs_ok :: "nat \<Rightarrow> int list \<Rightarrow> 'o vec_obs \<Rightarrow> bool" where
  "obs_ok n bases obs \<longleftrightarrow>
     0 < n \<and> length (vo_rows obs) = n \<and> length (vo_tasks obs) = n \<and> length bases = n \<and>
     map_of (vo_ids obs) ''policy_seed'' = Some bases \<and>
     list_all (\<lambda>f. length (id_values obs f) = n) (identity_fields obs)"

lemma policy_seed_field: "''policy_seed'' \<in> set IDENTITY_FIELDS"
  by (simp add: IDENTITY_FIELDS_def)

lemma traverse_pick: "list_all (\<lambda>i. i < length xs) idx \<Longrightarrow> traverse (pick xs) idx = Inr (map ((!) xs) idx)"
  by (rule traverse_map_Inr) (simp add: pick_def list_all_iff)

lemma id_values_length: "obs_ok n bases obs \<Longrightarrow> f \<in> set (identity_fields obs) \<Longrightarrow> length (id_values obs f) = n"
  by (simp add: obs_ok_def list_all_iff)

lemma batch_of:
  assumes "obs_ok n bases obs" and "idx \<noteq> []" and "list_all (\<lambda>i. i < n) idx"
  shows "robodojo_observation_batch idx obs =
    Inr \<lparr>vo_rows = map ((!) (vo_rows obs)) idx, vo_tasks = map ((!) (vo_tasks obs)) idx,
         vo_ids = map (\<lambda>f. (f, map ((!) (id_values obs f)) idx)) (identity_fields obs)\<rparr>"
proof -
  have n: "length (vo_rows obs) = n" "length (vo_tasks obs) = n" using assms(1) by (simp_all add: obs_ok_def)
  have ids: "traverse (\<lambda>f. bind_res (traverse (pick (id_values obs f)) idx) (\<lambda>xs. Inr (f, xs))) (identity_fields obs) =
      Inr (map (\<lambda>f. (f, map ((!) (id_values obs f)) idx)) (identity_fields obs))"
    by (rule traverse_map_Inr) (simp add: traverse_pick id_values_length [OF assms(1)] assms(3))
  show ?thesis
    using assms(2,3) by (simp add: robodojo_observation_batch_def traverse_pick n ids)
qed

lemma map_of_tabulate: "map_of (map (\<lambda>f. (f, g f)) fs) k = (if k \<in> set fs then Some (g k) else None)"
  by (induction fs) auto

lemma sampled_rows:
  assumes "sound_policy fw f" and "obs_ok n bases obs"
    and "rollout_sample_seeds fw bases c = (seeds, c')" and "length seeds = n"
  shows "sac_sample_actions fw eval obs c =
    (Inr (map (row_of \<circ> f (fw_flow_enabled fw \<and> \<not> eval)) (zip (vo_rows obs) (zip (vo_tasks obs) (map Some seeds)))), c')"
proof -
  have fw: "fw_horizon fw = 32" "fw_chunk fw = 24" "\<And>flow xs. fw_infer fw flow xs = map (f flow) xs"
    using assms(1) by (simp_all add: sound_policy_def)
  note all = sound_rows [OF assms(1)]
  have s: "sample_seeds fw obs c = (Inr (map Some seeds), c')" and t: "length (vo_tasks obs) = length (vo_rows obs)"
    and p: "map_of (vo_ids obs) ''policy_seed'' = Some bases"
    using assms(2,3) by (auto simp: sample_seeds_def obs_ok_def Let_def)
  have "list_all (\<lambda>(a, t). length a = 32 \<and> list_all (\<lambda>x. length x = 14) a) (map (f flow) xs)"
    "list_all (\<lambda>(a, t). list_all (list_all pf_isfinite) a) (map (f flow) xs)"
    "list_all (\<lambda>(a, t). length a = 32 \<and> length (take 24 a) = 24) (map (f flow) xs)" for flow xs
    using all by (auto simp: list_all_iff split_beta)
  then show ?thesis
    by (simp add: sac_sample_actions_def bnd_def lift_res_def s t p fw ACTION_DIM_fastwam_def Let_def row_of_def split_beta comp_def)
qed

section \<open>Seeds\<close>

lemma call_seeds_append:
  "call_seeds fw (xs @ ys) c = (case call_seeds fw xs c of (s, c1) \<Rightarrow> case call_seeds fw ys c1 of (s', c2) \<Rightarrow> (s @ s', c2))"
  by (induction xs arbitrary: c) (simp_all add: Let_def split_beta)

lemma sample_seeds_append:
  "rollout_sample_seeds fw (xs @ ys) c =
    (case rollout_sample_seeds fw xs c of (s, c1) \<Rightarrow> case rollout_sample_seeds fw ys c1 of (s', c2) \<Rightarrow> (s @ s', c2))"
  by (simp add: rollout_sample_seeds_def call_seeds_append)

lemma length_call_seeds: "length (fst (call_seeds fw bs c)) = length bs"
  by (induction bs arbitrary: c) (simp_all add: Let_def split_beta)

lemma length_sample_seeds: "rollout_sample_seeds fw bs c = (s, c') \<Longrightarrow> length s = length bs"
  using length_call_seeds [of fw bs c] by (auto simp: rollout_sample_seeds_def split: if_splits)

text \<open>The seed of the call number \<open>k\<close> for a base seed.\<close>

definition call_seed :: "('o, 't) fastwam \<Rightarrow> int \<Rightarrow> nat \<Rightarrow> int" where
  "call_seed fw b k = (if fw_seed_mode fw = ''episode'' then b else derive_policy_call_seed fw b k)"

lemma calls_of_update: "calls_of (AList.update b k c) x = (if x = b then k else calls_of c x)"
  by (simp add: calls_of_def update_conv')

lemma call_seeds_distinct:
  "distinct bs \<Longrightarrow> fst (call_seeds fw bs c) = map (\<lambda>b. derive_policy_call_seed fw b (calls_of c b)) bs \<and>
    calls_of (snd (call_seeds fw bs c)) x = (if x \<in> set bs then Suc (calls_of c x) else calls_of c x)"
  by (induction bs arbitrary: c) (auto simp: Let_def split_beta calls_of_update)

lemma sample_seeds_at:
  assumes "fw_seed_mode fw = ''episode'' \<or> distinct bs" and "\<forall>b \<in> set bs. fw_seed_mode fw \<noteq> ''episode'' \<longrightarrow> calls_of c b = k"
  shows "fst (rollout_sample_seeds fw bs c) = map (\<lambda>b. call_seed fw b k) bs"
    and "fw_seed_mode fw \<noteq> ''episode'' \<Longrightarrow>
      calls_of (snd (rollout_sample_seeds fw bs c)) x = (if x \<in> set bs then Suc k else calls_of c x)"
  using assms call_seeds_distinct [of bs fw c] by (auto simp: rollout_sample_seeds_def call_seed_def)

text \<open>
  With a seed per call, a base seed that two simulator processes share gives the one whose request
  comes second the seed of the next call, so that the samples depend on the order of the requests.
\<close>

lemma shared_seed_sees_the_order:
  assumes "fw_seed_mode fw \<noteq> ''episode''"
  shows "fst (rollout_sample_seeds fw [b] c) = [derive_policy_call_seed fw b (calls_of c b)] \<and>
    fst (rollout_sample_seeds fw [b] (snd (rollout_sample_seeds fw [b] c))) =
      [derive_policy_call_seed fw b (Suc (calls_of c b))]"
  using assms call_seeds_distinct [of "[b]" fw c] call_seeds_distinct [of "[b]" fw "snd (call_seeds fw [b] c)"]
  by (simp add: rollout_sample_seeds_def)

section \<open>Microbatches\<close>

lemma concat_microbatches: "0 < m \<Longrightarrow> concat (microbatches n m) = [0..<n]"
proof -
  assume m: "0 < m"
  have "concat (map (\<lambda>j. [j * m..<min (j * m + m) n]) [0..<k]) = [0..<min (k * m) n]" for k
  proof (induction k)
    case (Suc k)
    show ?case
    proof (cases "k * m \<le> n")
      case True
      then have "[0..<min (Suc k * m) n] = [0..<k * m] @ [k * m..<min (k * m + m) n]"
        using upt_add_eq_append [of 0 "k * m" "min (k * m + m) n - k * m"] by (simp add: add.commute)
      with True Suc show ?thesis by simp
    qed (use Suc in \<open>simp add: min_def\<close>)
  qed simp
  moreover have "n \<le> (n + m - 1) div m * m"
  proof -
    have "n + m - 1 < m + (n + m - 1) div m * m" using m by (rule dividend_less_div_times)
    then show ?thesis using m by linarith
  qed
  ultimately show ?thesis by (simp add: microbatches_def)
qed

lemma microbatches_ne: "0 < m \<Longrightarrow> b \<in> set (microbatches n m) \<Longrightarrow> b \<noteq> []"
proof -
  assume m: "0 < m" and "b \<in> set (microbatches n m)"
  then obtain j where j: "j < (n + m - 1) div m" "b = [j * m..<min (j * m + m) n]" by (auto simp: microbatches_def)
  have "Suc j * m \<le> (n + m - 1) div m * m" using j(1) by (intro mult_le_mono1) simp
  also have "\<dots> \<le> n + m - 1" by simp
  finally have "j * m < n" using m by simp
  with m j(2) show "b \<noteq> []" by simp
qed

lemma collected_rows:
  assumes "sound_policy fw f" and "obs_ok n bases obs" and "\<forall>b \<in> set blocks. b \<noteq> [] \<and> list_all (\<lambda>i. i < n) b"
    and "rollout_sample_seeds fw (map ((!) bases) (concat blocks)) c = (seeds, c')"
  shows "\<exists>chunks. collect_stm (\<lambda>idx. bnd (lift_res (robodojo_observation_batch idx obs)) (sac_sample_actions fw eval)) blocks c =
      (Inr chunks, c') \<and> length chunks = length blocks \<and>
    concat chunks = map (row_of \<circ> f (fw_flow_enabled fw \<and> \<not> eval))
      (zip (map ((!) (vo_rows obs)) (concat blocks)) (zip (map ((!) (vo_tasks obs)) (concat blocks)) (map Some seeds)))"
  using assms(3,4)
proof (induction blocks arbitrary: c seeds)
  case Nil
  then show ?case by (auto simp: lift_res_def rollout_sample_seeds_def split: if_splits)
next
  case (Cons b blocks)
  obtain s1 c1 s2 where 1: "rollout_sample_seeds fw (map ((!) bases) b) c = (s1, c1)"
    and 2: "rollout_sample_seeds fw (map ((!) bases) (concat blocks)) c1 = (s2, c')" and s: "seeds = s1 @ s2"
    using Cons.prems(2) by (auto simp: sample_seeds_append split: prod.splits)
  let ?obs = "\<lparr>vo_rows = map ((!) (vo_rows obs)) b, vo_tasks = map ((!) (vo_tasks obs)) b,
         vo_ids = map (\<lambda>f. (f, map ((!) (id_values obs f)) b)) (identity_fields obs)\<rparr>"
  have batch: "robodojo_observation_batch b obs = Inr ?obs" using batch_of [OF assms(2)] Cons.prems(1) by simp
  have ok: "obs_ok (length b) (map ((!) bases) b) ?obs"
    using assms(2) Cons.prems(1) policy_seed_field
    by (auto simp: obs_ok_def map_of_tabulate identity_fields_def id_values_def list_all_iff)
  have len: "length s1 = length b" using length_sample_seeds [OF 1] by simp
  note head = sampled_rows [OF assms(1) ok 1 len, of eval]
  obtain chunks where tail: "collect_stm (\<lambda>idx. bnd (lift_res (robodojo_observation_batch idx obs)) (sac_sample_actions fw eval)) blocks c1 =
      (Inr chunks, c')" "length chunks = length blocks" "concat chunks = map (row_of \<circ> f (fw_flow_enabled fw \<and> \<not> eval))
      (zip (map ((!) (vo_rows obs)) (concat blocks)) (zip (map ((!) (vo_tasks obs)) (concat blocks)) (map Some s2)))"
    using Cons.IH [OF _ 2] Cons.prems(1) by auto
  have "collect_stm (\<lambda>idx. bnd (lift_res (robodojo_observation_batch idx obs)) (sac_sample_actions fw eval)) (b # blocks) c =
      (Inr (map (row_of \<circ> f (fw_flow_enabled fw \<and> \<not> eval))
         (zip (map ((!) (vo_rows obs)) b) (zip (map ((!) (vo_tasks obs)) b) (map Some s1))) # chunks), c')"
    unfolding collect_stm.simps batch bnd_lift_Inr
    by (subst bnd_after, rule head, subst bnd_after, rule tail(1)) (simp add: lift_res_def)
  then show ?case using tail len by (auto simp: s)
qed

lemma in_microbatches:
  assumes "sound_policy fw f" and "obs_ok n bases obs" and "0 < mb" and "rollout_sample_seeds fw bases c = (seeds, c')"
  shows "\<exists>chunks. sample_in_microbatches fw eval mb obs c = (Inr chunks, c') \<and> chunks \<noteq> [] \<and>
    concat chunks = map (row_of \<circ> f (fw_flow_enabled fw \<and> \<not> eval)) (zip (vo_rows obs) (zip (vo_tasks obs) (map Some seeds)))"
proof -
  let ?blocks = "microbatches n (nat mb)"
  have n: "0 < n" "length (vo_rows obs) = n" "length (vo_tasks obs) = n" "length bases = n"
    using assms(2) by (simp_all add: obs_ok_def)
  have idx: "concat ?blocks = [0..<n]" using assms(3) by (simp add: concat_microbatches)
  have blocks: "\<forall>b \<in> set ?blocks. b \<noteq> [] \<and> list_all (\<lambda>i. i < n) b"
    using microbatches_ne [of "nat mb" _ n] assms(3) arg_cong [OF idx, of set] by (fastforce simp: list_all_iff)
  have full: "map ((!) xs) [0..<n] = xs" if "length xs = n" for xs :: "'z list" using that map_nth [of xs] by simp
  have "rollout_sample_seeds fw (map ((!) bases) (concat ?blocks)) c = (seeds, c')"
    using assms(4) by (simp add: idx full n)
  from collected_rows [OF assms(1,2) blocks this, of eval] obtain chunks
    where c: "collect_stm (\<lambda>idx. bnd (lift_res (robodojo_observation_batch idx obs)) (sac_sample_actions fw eval)) ?blocks c =
      (Inr chunks, c')" "length chunks = length ?blocks" "concat chunks = map (row_of \<circ> f (fw_flow_enabled fw \<and> \<not> eval))
      (zip (vo_rows obs) (zip (vo_tasks obs) (map Some seeds)))"
    by (auto simp: idx full n)
  have "?blocks \<noteq> []" using arg_cong [OF idx, of length] n(1) by auto
  with c assms(3) show ?thesis by (auto simp: sample_in_microbatches_def bnd_def lift_res_def n)
qed

text \<open>The actions of one call, whatever the microbatch size.\<close>

theorem microbatches_do_not_matter:
  assumes "sound_policy fw f" and "obs_ok n bases obs" and "0 < mb"
    and "rollout_sample_seeds fw bases c = (seeds, c')"
  shows "infer_shared_model_in_microbatches fw mb obs c =
    (Inr (map (\<lambda>x. take 24 (fst (f False x))) (zip (vo_rows obs) (zip (vo_tasks obs) (map Some seeds)))), c')"
proof -
  obtain chunks where c: "sample_in_microbatches fw True mb obs c = (Inr chunks, c')" "chunks \<noteq> []"
    "concat chunks = map (row_of \<circ> f False) (zip (vo_rows obs) (zip (vo_tasks obs) (map Some seeds)))"
    using in_microbatches [OF assms, of True] by auto
  have "length seeds = n" using length_sample_seeds [OF assms(4)] assms(2) by (simp add: obs_ok_def)
  then have rows: "length (zip (vo_rows obs) (zip (vo_tasks obs) (map Some seeds))) = n" "length (vo_rows obs) = n"
    using assms(2) by (simp_all add: obs_ok_def)
  have actions: "map ar_action (concat chunks) =
      map (\<lambda>x. take 24 (fst (f False x))) (zip (vo_rows obs) (zip (vo_tasks obs) (map Some seeds)))"
    by (simp add: c(3) row_of_def split_beta)
  have long: "list_all (\<lambda>a. length a = 24) (map (\<lambda>x. take 24 (fst (f False x))) xs)" for xs
    using sound_rows(1) [OF assms(1)] by (simp add: list_all_iff)
  show ?thesis
    unfolding infer_shared_model_in_microbatches_def
    by (subst bnd_after, rule c(1)) (simp only: actions Let_def length_map rows long c(2) require_simps bnd_lift_Inr simp_thms lift_res_def)
qed

end
