(* ===== verification/Native_Eval_Properties.thy ===== *)
theory Native_Eval_Properties
  imports Native_Eval Shared_Policy_Properties Tensors "HOL-Library.Multiset"
begin

text \<open>
  Sharding the evaluation. A vector simulator whose environments do not influence each other is built from
  environments over the case schedule of RoboDojo; for it, the single process and the parent
  with any number of simulator processes report the same results.
\<close>

section \<open>Independent environments\<close>

record lane_feedback =
  lf_terminated :: "bool list"
  lf_truncated :: "bool list"
  lf_success :: "bool list"
  lf_score :: "pyfloat list"

record ('l, 'o) lane_sim =
  ln_start :: "int \<Rightarrow> int \<Rightarrow> 'l"
  ln_view :: "'l \<Rightarrow> 'o \<times> string"
  ln_step :: "pyfloat list list \<Rightarrow> 'l \<Rightarrow> 'l \<times> lane_feedback"
  ln_task_id :: int
  ln_suite_id :: int

record 'l eval_lane =
  la_layout :: int
  la_seed :: int
  la_case :: int
  la_state :: 'l
  la_over :: bool

definition lane_done :: "lane_feedback \<Rightarrow> bool list" where
  "lane_done fb = map2 (\<or>) (lf_terminated fb) (lf_truncated fb)"

definition feedback_size :: "nat \<Rightarrow> lane_feedback \<Rightarrow> bool" where
  "feedback_size n fb \<longleftrightarrow> length (lf_terminated fb) = n \<and> length (lf_truncated fb) = n \<and>
     length (lf_success fb) = n \<and> length (lf_score fb) = n"

definition sound_sim :: "('l, 'o) lane_sim \<Rightarrow> bool" where
  "sound_sim sim \<longleftrightarrow> (\<forall>a l. feedback_size (length a) (snd (ln_step sim a l)))"

text \<open>A finished environment is not stepped and reports nothing, as in envs/base.py.\<close>

definition idle_feedback :: "nat \<Rightarrow> lane_feedback" where
  "idle_feedback n = \<lparr>lf_terminated = replicate n False, lf_truncated = replicate n False,
     lf_success = replicate n False, lf_score = replicate n (Fin 0)\<rparr>"

definition step_lane :: "('l, 'o) lane_sim \<Rightarrow> pyfloat list list \<Rightarrow> 'l eval_lane \<Rightarrow> 'l eval_lane \<times> lane_feedback" where
  "step_lane sim a en =
     (if la_over en then (en, idle_feedback (length a))
      else let (l', fb) = ln_step sim a (la_state en) in
        (en\<lparr>la_state := l', la_over := list_ex id (lane_done fb)\<rparr>, fb))"

definition observe :: "('l, 'o) lane_sim \<Rightarrow> 'l eval_lane list \<Rightarrow> 'o vec_obs" where
  "observe sim lanes =
     \<lparr>vo_rows = map (\<lambda>en. fst (ln_view sim (la_state en))) lanes, vo_tasks = map (\<lambda>en. snd (ln_view sim (la_state en))) lanes,
      vo_ids = [(''task_id'', map (\<lambda>_. ln_task_id sim) lanes), (''suite_id'', map (\<lambda>_. ln_suite_id sim) lanes),
        (''eval_episode_id'', map la_case lanes), (''layout_id'', map la_layout lanes),
        (''environment_seed'', map la_layout lanes), (''policy_seed'', map la_seed lanes)]\<rparr>"

definition lanes_feedback :: "lane_feedback list \<Rightarrow> chunk_feedback" where
  "lanes_feedback fbs = \<lparr>cf_terminated = map lf_terminated fbs, cf_truncated = map lf_truncated fbs,
     cf_success = map lf_success fbs, cf_score = Some (map lf_score fbs)\<rparr>"

definition new_lane :: "('l, 'o) lane_sim \<Rightarrow> int \<times> int \<times> int \<Rightarrow> 'l eval_lane" where
  "new_lane sim = (\<lambda>(l, s, i). \<lparr>la_layout = l, la_seed = s, la_case = i, la_state = ln_start sim l s, la_over = False\<rparr>)"

definition lane_env :: "robodojo_config \<Rightarrow> env_slot \<Rightarrow> ('l, 'o) lane_sim \<Rightarrow> (case_state \<times> 'l eval_lane list, 'o) eval_env" where
  "lane_env rd slot sim =
     \<lparr>ee_reset = (\<lambda>first (cs, lanes).
        case next_eval_cases rd slot (if first then cs\<lparr>cs_eval_case_cursor := 0\<rparr> else cs) of
          (Inl e, cs') \<Rightarrow> (Inl e, (cs', lanes))
        | (Inr (layouts, seeds, cases), cs') \<Rightarrow>
            let lanes' = map (new_lane sim) (zip layouts (zip seeds cases)) in (Inr (observe sim lanes'), (cs', lanes'))),
      ee_step = (\<lambda>actions (cs, lanes).
        if length actions \<noteq> length lanes then (Inl ValueError, (cs, lanes))
        else let results = map2 (step_lane sim) actions lanes; lanes' = map fst results in
          (Inr (observe sim lanes', lanes_feedback (map snd results)), (cs, lanes')))\<rparr>"

definition eval_cases_of :: "robodojo_config \<Rightarrow> int list \<Rightarrow> int list \<Rightarrow> robodojo_config" where
  "eval_cases_of rd layouts seeds = rd\<lparr>rd_layout_ids := layouts, rd_eval_policy_seed_schedule := seeds\<rparr>"

definition lane_builder ::
  "robodojo_config \<Rightarrow> ('l, 'o) lane_sim \<Rightarrow> env_slot \<Rightarrow> int list \<Rightarrow> int list \<Rightarrow>
   ((case_state \<times> 'l eval_lane list, 'o) eval_env \<times> (case_state \<times> 'l eval_lane list)) result" where
  "lane_builder rd sim slot layouts seeds =
     (let c = eval_cases_of rd layouts seeds in
      bind_res (robodojo_post_init c) (\<lambda>_. Inr (lane_env c slot sim, (new_cases c, []))))"

section \<open>The tally of one environment\<close>

record lane_tally =
  lt_success :: bool
  lt_done :: bool
  lt_score :: pyfloat
  lt_calls :: nat

definition tally_of :: "lane_tally list \<Rightarrow> tally" where
  "tally_of ts = \<lparr>ta_success = map lt_success ts, ta_done = map lt_done ts, ta_score = map lt_score ts,
     ta_calls = map lt_calls ts\<rparr>"

definition best_of :: "pyfloat list \<Rightarrow> pyfloat" where
  "best_of xs = foldl pf_maximum (hd xs) (tl xs)"

definition score_after :: "string \<Rightarrow> lane_feedback \<Rightarrow> lane_tally \<Rightarrow> pyfloat" where
  "score_after reduction fb t =
     (if reduction = ''trajectory_max'' then pf_maximum (lt_score t) (best_of (lf_score fb))
      else if lt_done t then lt_score t
      else lf_score fb ! (case first_true (lane_done fb) of Some i \<Rightarrow> i | None \<Rightarrow> length (lf_score fb) - 1))"

definition lane_add :: "string \<Rightarrow> lane_feedback \<Rightarrow> lane_tally \<Rightarrow> lane_tally" where
  "lane_add reduction fb t =
     \<lparr>lt_success = (lt_success t \<or> list_ex id (lf_success fb)), lt_done = (lt_done t \<or> list_ex id (lane_done fb)),
      lt_score = score_after reduction fb t, lt_calls = (if lt_done t then lt_calls t else Suc (lt_calls t))\<rparr>"

lemma map2_map_map: "map2 f (map g xs) (map h xs) = map (\<lambda>x. f (g x) (h x)) xs"
  by (induction xs) simp_all

lemma map2_maps: "map2 f (map g xs) (map h ys) = map2 (\<lambda>x y. f (g x) (h y)) xs ys"
  by (simp add: zip_map_map split_beta comp_def)

lemma map_map2: "map g (map2 f xs ys) = map2 (\<lambda>x y. g (f x y)) xs ys"
  by (simp add: split_beta comp_def)

lemma done_steps_of: "done_steps (lanes_feedback fbs) = map lane_done fbs"
  by (simp add: done_steps_def lanes_feedback_def map2_map_map lane_done_def)

lemma traverse_zip_triple:
  assumes "length as = length bs" and "\<And>a b. (a, b) \<in> set (zip as bs) \<Longrightarrow> f a b = Inr (g a b)"
  shows "traverse (\<lambda>(a, b). f a b) (zip as bs) = Inr (map2 g as bs)"
  using assms(2) by (intro traverse_map_Inr) auto

lemma scores_of:
  assumes "list_all (feedback_size n) fbs" and "0 < n" and "length ts = length fbs"
  shows "new_scores reduction (lanes_feedback fbs) (count_calls (tally_of ts)) = Inr (map2 (score_after reduction) fbs ts)"
proof (cases "reduction = ''trajectory_max''")
  case True
  have "traverse row_amax (map lf_score fbs) = Inr (map best_of (map lf_score fbs))"
    using assms(1,2) by (intro traverse_map_Inr) (auto simp: row_amax_def best_of_def feedback_size_def list_all_iff split: list.split)
  then show ?thesis
    using True by (simp add: new_scores_def lanes_feedback_def count_calls_def tally_of_def score_after_def map2_maps)
      (auto simp: list_eq_iff_nth_eq assms(3))
next
  case False
  let ?pick = "\<lambda>fb. lf_score fb ! (case first_true (lane_done fb) of Some i \<Rightarrow> i | None \<Rightarrow> length (lf_score fb) - 1)"
  have size: "feedback_size n fb" if "fb \<in> set fbs" for fb using assms(1) that by (simp add: list_all_iff)
  have ne: "lf_score fb \<noteq> []" if "fb \<in> set fbs" for fb using size [OF that] assms(2) by (auto simp: feedback_size_def)
  have "traverse (\<lambda>(already, s, d). if already then Inr (Fin 0) else terminal_or_latest_score s d)
      (zip (map lt_done ts) (zip (map lf_score fbs) (map lane_done fbs))) =
    Inr (map2 (\<lambda>t fb. if lt_done t then Fin 0 else ?pick fb) ts fbs)"
  proof -
    have z: "zip (map lt_done ts) (zip (map lf_score fbs) (map lane_done fbs)) =
        map (\<lambda>(t, fb). (lt_done t, lf_score fb, lane_done fb)) (zip ts fbs)"
      by (auto simp: list_eq_iff_nth_eq assms(3))
    have "traverse (\<lambda>(already, s, d). if already then Inr (Fin 0) else terminal_or_latest_score s d)
        (map (\<lambda>(t, fb). (lt_done t, lf_score fb, lane_done fb)) (zip ts fbs)) =
      Inr (map (\<lambda>x. case x of (already, s, d) \<Rightarrow> if already then Fin 0
        else s ! (case first_true d of Some i \<Rightarrow> i | None \<Rightarrow> length s - 1))
          (map (\<lambda>(t, fb). (lt_done t, lf_score fb, lane_done fb)) (zip ts fbs)))"
      by (intro traverse_map_Inr) (auto simp: terminal_or_latest_score_def ne dest!: set_zip_rightD)
    then show ?thesis unfolding z map_map comp_def case_prod_unfold fst_conv snd_conv .
  qed
  moreover have "map length (map lane_done fbs) = map length (map lf_score fbs)"
    using size by (auto simp: lane_done_def feedback_size_def)
  moreover have "map2 (map2 (\<or>)) (map lf_terminated fbs) (map lf_truncated fbs) = map lane_done fbs"
    by (simp add: map2_map_map lane_done_def)
  ultimately have t: "terminal_or_latest_scores (map lf_score fbs) (map lf_terminated fbs) (map lf_truncated fbs) (map lt_done ts) =
      Inr (map2 (\<lambda>t fb. if lt_done t then Fin 0 else ?pick fb) ts fbs)"
    using assms(3) unfolding terminal_or_latest_scores_def by (simp only: Let_def require_simps bind_res.simps length_map simp_thms)
  have eq: "map2 (\<lambda>d (old, new). if d then old else new) (map lt_done ts)
      (zip (map lt_score ts) (map2 (\<lambda>t fb. if lt_done t then Fin 0 else ?pick fb) ts fbs)) = map2 (score_after reduction) fbs ts"
    using False by (intro nth_equalityI) (simp_all add: assms(3) score_after_def)
  have "new_scores reduction (lanes_feedback fbs) (count_calls (tally_of ts)) =
      bind_res (terminal_or_latest_scores (map lf_score fbs) (map lf_terminated fbs) (map lf_truncated fbs) (map lt_done ts))
        (\<lambda>active. Inr (map2 (\<lambda>d (old, new). if d then old else new) (map lt_done ts) (zip (map lt_score ts) active)))"
    using False by (simp add: new_scores_def lanes_feedback_def count_calls_def tally_of_def)
  then show ?thesis unfolding t bind_res.simps eq .
qed

lemma tally_step_of:
  assumes "list_all (feedback_size n) fbs" and "0 < n" and "length ts = length fbs"
  shows "tally_step reduction (lanes_feedback fbs) (count_calls (tally_of ts)) = Inr (tally_of (map2 (lane_add reduction) fbs ts))"
  using scores_of [OF assms, of reduction] assms(3)
  by (simp add: tally_step_def done_steps_of Let_def)
    (auto simp: lanes_feedback_def tally_of_def count_calls_def lane_add_def list_eq_iff_nth_eq)

section \<open>Finished environments\<close>

definition tally_ok :: "lane_tally \<Rightarrow> bool" where
  "tally_ok t \<longleftrightarrow> \<not> pf_less (lt_score t) (Fin 0)"

lemma pf_maximum_zero: "\<not> pf_less x (Fin 0) \<Longrightarrow> pf_maximum x (Fin 0) = x"
  by (cases x) (auto simp: pf_maximum_def)

lemma best_of_zeros: "0 < n \<Longrightarrow> best_of (replicate n (Fin 0)) = Fin 0"
proof -
  have "foldl pf_maximum (Fin 0) (replicate m (Fin 0)) = Fin 0" for m
    by (induction m) (simp_all add: pf_maximum_def)
  then show "0 < n \<Longrightarrow> best_of (replicate n (Fin 0)) = Fin 0" by (cases n) (simp_all add: best_of_def)
qed

lemma nothing_added:
  assumes "0 < n" and "lt_done t" and "reduction = ''trajectory_max'' \<longrightarrow> tally_ok t"
  shows "lane_add reduction (idle_feedback n) t = t"
  using assms by (simp add: lane_add_def idle_feedback_def lane_done_def score_after_def best_of_zeros pf_maximum_zero tally_ok_def)
    (auto simp: list_ex_iff set_zip)

lemma lane_add_done: "lt_done (lane_add reduction fb t) = (lt_done t \<or> list_ex id (lane_done fb))"
  by (simp add: lane_add_def)

lemma pf_maximum_ge: "\<not> pf_less x (Fin 0) \<Longrightarrow> \<not> pf_less (pf_maximum x y) (Fin 0)"
  by (cases x; cases y) (auto simp: pf_maximum_def)

lemma tally_ok_add: "reduction = ''trajectory_max'' \<Longrightarrow> tally_ok t \<Longrightarrow> tally_ok (lane_add reduction fb t)"
  by (simp add: tally_ok_def lane_add_def score_after_def pf_maximum_ge)

section \<open>The course of one environment\<close>

definition act :: "('o, 't) fastwam \<Rightarrow> ('o, 't) row_policy \<Rightarrow> nat \<Rightarrow> 'o vec_obs \<Rightarrow> pyfloat list list list" where
  "act fw f k obs =
     map (\<lambda>(row, task, b). take 24 (fst (f False (row, task, Some (call_seed fw b k)))))
       (zip (vo_rows obs) (zip (vo_tasks obs) (id_values obs ''policy_seed'')))"

definition lane_action ::
  "('o, 't) fastwam \<Rightarrow> ('o, 't) row_policy \<Rightarrow> ('l, 'o) lane_sim \<Rightarrow> nat \<Rightarrow> int \<Rightarrow> 'l \<Rightarrow> pyfloat list list" where
  "lane_action fw f sim k seed l =
     take 24 (fst (f False (fst (ln_view sim l), snd (ln_view sim l), Some (call_seed fw seed k))))"

fun course ::
  "('o, 't) fastwam \<Rightarrow> ('o, 't) row_policy \<Rightarrow> ('l, 'o) lane_sim \<Rightarrow> string \<Rightarrow> int \<Rightarrow> nat \<Rightarrow> nat \<Rightarrow> 'l \<Rightarrow> lane_tally \<Rightarrow> lane_tally" where
  "course fw f sim reduction seed 0 k l t = t"
| "course fw f sim reduction seed (Suc n) k l t =
     (if lt_done t then t
      else let (l', fb) = ln_step sim (lane_action fw f sim k seed l) l
           in course fw f sim reduction seed n (Suc k) l' (lane_add reduction fb t))"

lemma course_done: "lt_done t \<Longrightarrow> course fw f sim reduction seed n k l t = t"
  by (cases n) simp_all

declare course.simps(2) [simp del]

lemma act_observe:
  "act fw f k (ipc_observation (observe sim lanes)) = map (\<lambda>en. lane_action fw f sim k (la_seed en) (la_state en)) lanes"
  by (simp add: act_def ipc_observation_def id_values_def map_of_tabulate identity_fields_def observe_def
      IDENTITY_FIELDS_def lane_action_def zip_map_map map_zip_map map_zip_map2 split_beta comp_def)
    (auto simp: list_eq_iff_nth_eq)

lemma observe_ok:
  "lanes \<noteq> [] \<Longrightarrow> obs_ok (length lanes) (map la_seed lanes) (observe sim lanes)"
  by (simp add: obs_ok_def observe_def list_all_iff identity_fields_def id_values_def IDENTITY_FIELDS_def)

lemma ipc_ok: "obs_ok n bases (ipc_observation obs) = obs_ok n bases obs"
proof -
  have fields: "identity_fields (ipc_observation obs) = identity_fields obs"
    by (auto simp: identity_fields_def ipc_observation_def map_of_tabulate intro: filter_cong)
  moreover have "id_values (ipc_observation obs) g = id_values obs g" if "g \<in> set (identity_fields obs)" for g
    using that by (simp add: id_values_def ipc_observation_def map_of_tabulate)
  moreover have "map_of (vo_ids (ipc_observation obs)) ''policy_seed'' = map_of (vo_ids obs) ''policy_seed''"
    using policy_seed_field by (auto simp: ipc_observation_def map_of_tabulate identity_fields_def id_values_def split: option.split)
  ultimately show ?thesis by (simp add: obs_ok_def list_all_iff) (simp add: ipc_observation_def)
qed

section \<open>What a simulator process asks for\<close>

primrec child_outcome :: "('q, 'p, 'r) child \<Rightarrow> (nat \<Rightarrow> 'q \<Rightarrow> 'p) \<Rightarrow> nat \<Rightarrow> 'r result" where
  "child_outcome (Infer q g) = (\<lambda>answer k. child_outcome (g (answer k q)) answer (Suc k))"
| "child_outcome (Finished r) = (\<lambda>answer k. Inr r)"
| "child_outcome (Failed e) = (\<lambda>answer k. Inl e)"

primrec turns :: "('q, 'p, 'r) child \<Rightarrow> (nat \<Rightarrow> 'q \<Rightarrow> 'p) \<Rightarrow> nat \<Rightarrow> nat" where
  "turns (Infer q g) = (\<lambda>answer k. Suc (turns (g (answer k q)) answer (Suc k)))"
| "turns (Finished r) = (\<lambda>answer k. 0)"
| "turns (Failed e) = (\<lambda>answer k. 0)"

primrec asks :: "('q, 'p, 'r) child \<Rightarrow> ('q \<Rightarrow> bool) \<Rightarrow> (nat \<Rightarrow> 'q \<Rightarrow> 'p) \<Rightarrow> nat \<Rightarrow> bool" where
  "asks (Infer q g) = (\<lambda>P answer k. P q \<and> asks (g (answer k q)) P answer (Suc k))"
| "asks (Finished r) = (\<lambda>P answer k. True)"
| "asks (Failed e) = (\<lambda>P answer k. True)"

definition lane_in_step :: "string \<Rightarrow> 'l eval_lane \<Rightarrow> lane_tally \<Rightarrow> bool" where
  "lane_in_step reduction en t \<longleftrightarrow> la_over en = lt_done t \<and> (reduction = ''trajectory_max'' \<longrightarrow> tally_ok t)"

abbreviation lane_course where
  "lane_course fw f sim reduction n k en t \<equiv> course fw f sim reduction (la_seed en) n k (la_state en) t"

lemma lane_action_length: "sound_policy fw f \<Longrightarrow> length (lane_action fw f sim k seed l) = 24"
  using sound_rows(1) [of fw f] by (simp add: lane_action_def)

lemma step_one:
  assumes "sound_sim sim" and "sound_policy fw f" and "lane_in_step reduction en t"
    and "step_lane sim (lane_action fw f sim k (la_seed en) (la_state en)) en = (en', fb)"
  shows "feedback_size 24 fb" and "lane_in_step reduction en' (lane_add reduction fb t)" and "la_seed en' = la_seed en"
    and "lane_course fw f sim reduction (Suc n) k en t = lane_course fw f sim reduction n (Suc k) en' (lane_add reduction fb t)"
proof -
  have size: "feedback_size 24 (snd (ln_step sim (lane_action fw f sim k (la_seed en) (la_state en)) l))" for l
    using assms(1) lane_action_length [OF assms(2)] unfolding sound_sim_def by metis
  show "feedback_size 24 fb"
    using assms(4) size lane_action_length [OF assms(2)]
    by (fastforce simp: step_lane_def Let_def split_beta idle_feedback_def feedback_size_def split: if_splits)
  show "la_seed en' = la_seed en" using assms(4) by (auto simp: step_lane_def Let_def split_beta split: if_splits)
  show "lane_in_step reduction en' (lane_add reduction fb t)"
  proof (cases "la_over en")
    case True
    with assms(3,4) nothing_added [of 24 t reduction] show ?thesis
      by (auto simp: step_lane_def lane_in_step_def lane_action_length [OF assms(2)])
  next
    case False
    with assms(3,4) show ?thesis
      by (auto simp: step_lane_def lane_in_step_def Let_def split_beta lane_add_done tally_ok_add)
  qed
  show "lane_course fw f sim reduction (Suc n) k en t = lane_course fw f sim reduction n (Suc k) en' (lane_add reduction fb t)"
  proof (cases "la_over en")
    case True
    with assms(3,4) nothing_added [of 24 t reduction] show ?thesis
      by (auto simp: step_lane_def lane_in_step_def course_done lane_action_length [OF assms(2)])
  next
    case False
    with assms(3,4) show ?thesis by (auto simp: step_lane_def lane_in_step_def Let_def split_beta course.simps(2))
  qed
qed

lemma step_all:
  fixes lanes :: "'l eval_lane list"
  assumes "sound_sim sim" and "sound_policy fw f" and "list_all2 (lane_in_step reduction) lanes ts"
    and "results = map2 (step_lane sim) (map (\<lambda>en. lane_action fw f sim k (la_seed en) (la_state en)) lanes) lanes"
  shows "list_all (feedback_size 24) (map snd results) \<and>
    list_all2 (lane_in_step reduction) (map fst results) (map2 (lane_add reduction) (map snd results) ts) \<and>
    map la_seed (map fst results) = map la_seed lanes \<and>
    map2 (lane_course fw f sim reduction (Suc n) k) lanes ts =
      map2 (lane_course fw f sim reduction n (Suc k)) (map fst results) (map2 (lane_add reduction) (map snd results) ts)"
  using assms(3,4)
proof (induction lanes ts arbitrary: results rule: list_all2_induct)
  case (Cons en lanes t ts)
  let ?rest = "map2 (step_lane sim) (map (\<lambda>en. lane_action fw f sim k (la_seed en) (la_state en)) lanes) lanes"
  obtain en' fb where 1: "step_lane sim (lane_action fw f sim k (la_seed en) (la_state en)) en = (en', fb)" by fastforce
  have results: "results = (en', fb) # ?rest" using Cons.prems 1 by simp
  show ?case
    using step_one [OF assms(1,2) Cons.hyps(1) 1] Cons.IH [OF refl] unfolding results
    by simp
qed simp

lemma shard_calls_lanes:
  fixes lanes :: "'l eval_lane list"
  assumes "sound_sim sim" and "sound_policy fw f"
  shows "list_all2 (lane_in_step reduction) lanes ts \<Longrightarrow> lanes \<noteq> [] \<Longrightarrow>
    (let c = shard_calls (lane_env rd slot sim) reduction sh identity n (observe sim lanes) (tally_of ts) (cs, lanes) in
      child_outcome c (act fw f) k =
        Inr (case_results (Some sh) identity (tally_of (map2 (lane_course fw f sim reduction n k) lanes ts))) \<and>
      asks c (obs_ok (length lanes) (map la_seed lanes)) (act fw f) k \<and> turns c (act fw f) k \<le> n)"
proof (induction n arbitrary: lanes ts k)
  case 0
  have "map2 (\<lambda>(en :: 'l eval_lane) t. t) lanes ts = ts" using list_all2_lengthD [OF 0(1)] by (auto simp: list_eq_iff_nth_eq)
  then show ?case by (simp add: Let_def)
next
  case (Suc n)
  let ?acts = "map (\<lambda>en. lane_action fw f sim k (la_seed en) (la_state en)) lanes"
  let ?env = "lane_env rd slot sim"
  define results where "results = map2 (step_lane sim) ?acts lanes"
  let ?lanes = "map fst results" and ?ts = "map2 (lane_add reduction) (map snd results) ts"
  from step_all [OF assms Suc.prems(1) results_def, of n]
  have size: "list_all (feedback_size 24) (map snd results)" and inv: "list_all2 (lane_in_step reduction) ?lanes ?ts"
    and seeds: "map la_seed ?lanes = map la_seed lanes"
    and eq: "map2 (lane_course fw f sim reduction (Suc n) k) lanes ts = map2 (lane_course fw f sim reduction n (Suc k)) ?lanes ?ts"
    by blast+
  have len: "length results = length lanes" "length ts = length lanes"
    using list_all2_lengthD [OF Suc.prems(1)] by (simp_all add: results_def)
  have step: "ee_step ?env ?acts (cs, lanes) = (Inr (observe sim ?lanes, lanes_feedback (map snd results)), (cs, ?lanes))"
    by (simp add: lane_env_def Let_def results_def)
  have tally: "tally_step reduction (lanes_feedback (map snd results)) (count_calls (tally_of ts)) = Inr (tally_of ?ts)"
    using tally_step_of [OF size] len by simp
  have ask: "obs_ok (length lanes) (map la_seed lanes) (ipc_observation (observe sim lanes))"
    using observe_ok [OF Suc.prems(2)] by (simp add: ipc_ok)
  have tree: "shard_calls ?env reduction sh identity (Suc n) (observe sim lanes) (tally_of ts) (cs, lanes) =
      Infer (ipc_observation (observe sim lanes)) g \<Longrightarrow>
    g (act fw f k (ipc_observation (observe sim lanes))) =
      (if list_all id (ta_done (tally_of ?ts)) then Finished (case_results (Some sh) identity (tally_of ?ts))
       else shard_calls ?env reduction sh identity n (observe sim ?lanes) (tally_of ?ts) (cs, ?lanes))" for g
    by (auto simp: act_observe step tally)
  have "length ?lanes = length lanes" "?lanes \<noteq> []" using len Suc.prems(2) by auto
  note IH = Suc.IH [OF inv this(2), of "Suc k", unfolded seeds this(1) eq [symmetric]]
  show ?case
  proof (cases "list_all id (ta_done (tally_of ?ts))")
    case True
    have "map2 (lane_course fw f sim reduction n (Suc k)) ?lanes ?ts = ?ts"
    proof (rule nth_equalityI)
      fix i
      assume i: "i < length (map2 (lane_course fw f sim reduction n (Suc k)) ?lanes ?ts)"
      then have "lt_done (?ts ! i)" using True len by (simp add: tally_of_def list_all_length)
      then show "map2 (lane_course fw f sim reduction n (Suc k)) ?lanes ?ts ! i = ?ts ! i"
        using i len by (simp add: course_done)
    qed (use len in simp)
    with True ask eq show ?thesis
      by (auto simp: Let_def act_observe step tally)
  next
    case False
    with IH ask show ?thesis by (auto simp: Let_def act_observe step tally)
  qed
qed

section \<open>Answering requests\<close>

definition counts_at :: "('o, 't) fastwam \<Rightarrow> int list \<Rightarrow> call_counts \<Rightarrow> nat \<Rightarrow> bool" where
  "counts_at fw bases c k \<longleftrightarrow> (fw_seed_mode fw \<noteq> ''episode'' \<longrightarrow> (\<forall>b \<in> set bases. calls_of c b = k))"

definition seeds_apart :: "('o, 't) fastwam \<Rightarrow> int list \<Rightarrow> bool" where
  "seeds_apart fw bases \<longleftrightarrow> fw_seed_mode fw = ''episode'' \<or> distinct bases"

lemma answered:
  assumes "sound_policy fw f" and "obs_ok n bases q" and "0 < mb" and "seeds_apart fw bases" and "counts_at fw bases c k"
  shows "\<exists>c'. infer_shared_model_in_microbatches fw mb q c = (Inr (act fw f k q), c') \<and> counts_at fw bases c' (Suc k) \<and>
    (\<forall>other j. set other \<inter> set bases = {} \<longrightarrow> counts_at fw other c j \<longrightarrow> counts_at fw other c' j)"
proof -
  obtain seeds c' where r: "rollout_sample_seeds fw bases c = (seeds, c')" by fastforce
  have at: "fw_seed_mode fw = ''episode'' \<or> distinct bases"
    "\<forall>b \<in> set bases. fw_seed_mode fw \<noteq> ''episode'' \<longrightarrow> calls_of c b = k"
    using assms(4,5) by (auto simp: seeds_apart_def counts_at_def)
  note s = sample_seeds_at [OF at]
  have seeds: "seeds = map (\<lambda>b. call_seed fw b k) bases" using s(1) r by simp
  have calls: "calls_of c' x = (if x \<in> set bases then Suc k else calls_of c x)" if "fw_seed_mode fw \<noteq> ''episode''" for x
    using s(2) [OF that] r by simp
  have ids: "id_values q ''policy_seed'' = bases" using assms(2) by (simp add: obs_ok_def id_values_def)
  have "map (\<lambda>x. take 24 (fst (f False x))) (zip (vo_rows q) (zip (vo_tasks q) (map Some seeds))) = act fw f k q"
    by (simp add: act_def ids seeds) (auto simp: list_eq_iff_nth_eq)
  then show ?thesis
    using microbatches_do_not_matter [OF assms(1,2,3) r] calls by (auto simp: counts_at_def)
qed

lemma act_ipc: "obs_ok n bases obs \<Longrightarrow> act fw f k (ipc_observation obs) = act fw f k obs"
  using ipc_ok [of n bases obs] by (simp add: act_def obs_ok_def id_values_def) (simp add: ipc_observation_def)

lemma policy_calls_tree:
  assumes "sound_policy fw f" and "0 < ev_microbatch cfg" and "seeds_apart fw bases"
  shows "child_outcome (shard_calls env (ev_reduction cfg) sh identity n obs t v) (act fw f) k = Inr r \<Longrightarrow>
    asks (shard_calls env (ev_reduction cfg) sh identity n obs t v) (obs_ok m bases) (act fw f) k \<Longrightarrow> counts_at fw bases c k \<Longrightarrow>
    \<exists>t' s'. policy_calls env fw cfg n obs t (v, c) = (Inr t', s') \<and> r = case_results (Some sh) identity t'"
proof (induction n arbitrary: obs t v c k)
  case 0
  then show ?case by (auto simp: lift_res_def)
next
  case (Suc n)
  have ok: "obs_ok m bases obs" using Suc.prems(2) by (simp add: ipc_ok)
  obtain c' where c': "infer_shared_model_in_microbatches fw (ev_microbatch cfg) obs c = (Inr (act fw f k obs), c')"
    "counts_at fw bases c' (Suc k)"
    using answered [OF assms(1) ok assms(2,3) Suc.prems(3)] by blast
  obtain obs' fb v' where step: "ee_step env (act fw f k obs) v = (Inr (obs', fb), v')"
    using Suc.prems(1) by (auto simp: act_ipc [OF ok] split: prod.splits sum.splits)
  obtain t' where t': "tally_step (ev_reduction cfg) fb (count_calls t) = Inr t'"
    using Suc.prems(1) by (auto simp: act_ipc [OF ok] step split: sum.splits)
  have run: "policy_calls env fw cfg (Suc n) obs t (v, c) =
      (if list_all id (ta_done t') then lift_res (Inr t') else policy_calls env fw cfg n obs' t') (v', c')"
    by (simp add: bnd_def on_counts_def on_env_def c'(1) step t' lift_res_def)
  show ?case
  proof (cases "list_all id (ta_done t')")
    case True
    with run Suc.prems(1) show ?thesis by (auto simp: act_ipc [OF ok] step t' lift_res_def)
  next
    case False
    with run Suc.prems Suc.IH [of obs' t' v' "Suc k" c'] c'(2) show ?thesis by (auto simp: act_ipc [OF ok] step t')
  qed
qed

text \<open>The parent, for every order in which the messages reach it.\<close>

lemma served:
  assumes "sound_policy fw f" and "0 < ev_microbatch cfg" and "\<And>i. seeds_apart fw (bases i)"
    and "fw_seed_mode fw \<noteq> ''episode'' \<Longrightarrow> (\<forall>i j. i \<noteq> j \<longrightarrow> set (bases i) \<inter> set (bases j) = {})"
  shows "set es \<subseteq> range Message \<Longrightarrow> ep_active p \<subseteq> {..<length (ep_shards p)} \<Longrightarrow>
    (\<And>i. i \<in> ep_active p \<Longrightarrow> child_outcome (ep_shards p ! i) (act fw f) (k i) = Inr (r i) \<and>
      asks (ep_shards p ! i) (obs_ok m (bases i)) (act fw f) (k i) \<and> counts_at fw (bases i) (ep_counts p) (k i) \<and>
      turns (ep_shards p ! i) (act fw f) (k i) < count_list es (Message i)) \<Longrightarrow>
    \<exists>p'. serve fw cfg es p = (Inr True, p') \<and> mset (ep_cases p') = mset (ep_cases p) + (\<Sum>i \<in> ep_active p. mset (r i))"
proof (induction es arbitrary: p k)
  case Nil
  then have "ep_active p = {}" by fastforce
  then show ?case by (simp add: reading_def lift_res_def)
next
  case (Cons e es)
  obtain i where e: "e = Message i" using Cons.prems(1) by auto
  have es: "set es \<subseteq> range Message" using Cons.prems(1) by simp
  have fin: "finite (ep_active p)" using Cons.prems(2) finite_subset by blast
  show ?case
  proof (cases "i \<in> ep_active p")
    case False
    have "turns (ep_shards p ! j) (act fw f) (k j) < count_list es (Message j)" if "j \<in> ep_active p" for j
      using Cons.prems(3) [OF that] that False by (auto simp: e split: if_splits)
    with Cons.IH [OF es Cons.prems(2), of k] Cons.prems(3)
    have IH: "\<exists>p'. serve fw cfg es p = (Inr True, p') \<and> mset (ep_cases p') = mset (ep_cases p) + (\<Sum>i \<in> ep_active p. mset (r i))"
      by blast
    show ?thesis
    proof (cases "ep_active p = {}")
      case True
      then show ?thesis by (simp add: reading_def lift_res_def)
    next
      case no: False
      then show ?thesis using IH by (simp add: reading_def e bnd_def serve_message_def False)
    qed
  next
    case True
    note i = Cons.prems(3) [OF True]
    have len: "i < length (ep_shards p)" using Cons.prems(2) True by blast
    show ?thesis
    proof (cases "ep_shards p ! i")
      case (Finished cs)
      let ?p = "p\<lparr>ep_cases := ep_cases p @ cs, ep_active := ep_active p - {i}\<rparr>"
      have "turns (ep_shards p ! j) (act fw f) (k j) < count_list es (Message j)" if "j \<in> ep_active ?p" for j
        using Cons.prems(3) [of j] that by (auto simp: e split: if_splits)
      moreover have "ep_active ?p \<subseteq> {..<length (ep_shards ?p)}" using Cons.prems(2) by auto
      ultimately have "\<exists>p'. serve fw cfg es ?p = (Inr True, p') \<and>
          mset (ep_cases p') = mset (ep_cases ?p) + (\<Sum>i \<in> ep_active ?p. mset (r i))"
        using Cons.prems(3) by (intro Cons.IH [OF es, of ?p k]) auto
      moreover have "cs = r i" using i Finished by simp
      moreover have "(\<Sum>j \<in> ep_active p. mset (r j)) = mset (r i) + (\<Sum>j \<in> ep_active p - {i}. mset (r j))"
        by (rule sum.remove [OF fin True])
      ultimately show ?thesis
        using True by (auto simp: reading_def e bnd_def serve_message_def Finished add.assoc)
    next
      case (Failed x)
      with i show ?thesis by simp
    next
      case (Infer q g)
      have ok: "obs_ok m (bases i) q" using i Infer by simp
      obtain c' where c': "infer_shared_model_in_microbatches fw (ev_microbatch cfg) q (ep_counts p) = (Inr (act fw f (k i) q), c')"
        "counts_at fw (bases i) c' (Suc (k i))"
        "\<And>other j. set other \<inter> set (bases i) = {} \<Longrightarrow> counts_at fw other (ep_counts p) j \<Longrightarrow> counts_at fw other c' j"
        using answered [OF assms(1) ok assms(2,3)] i by blast
      let ?p = "p\<lparr>ep_counts := c', ep_shards := (ep_shards p)[i := g (act fw f (k i) q)]\<rparr>"
      let ?k = "k(i := Suc (k i))"
      have others: "counts_at fw (bases j) c' (k j)" if "j \<in> ep_active p" "j \<noteq> i" for j
      proof (cases "fw_seed_mode fw = ''episode''")
        case False
        then have "set (bases j) \<inter> set (bases i) = {}" using assms(4) that(2) by blast
        then show ?thesis using Cons.prems(3) [OF that(1)] c'(3) by blast
      qed (simp add: counts_at_def)
      have "\<exists>p'. serve fw cfg es ?p = (Inr True, p') \<and>
          mset (ep_cases p') = mset (ep_cases ?p) + (\<Sum>i \<in> ep_active ?p. mset (r i))"
      proof (rule Cons.IH [OF es, of ?p ?k])
        show "ep_active ?p \<subseteq> {..<length (ep_shards ?p)}" using Cons.prems(2) by simp
        fix j
        assume j: "j \<in> ep_active ?p"
        show "child_outcome (ep_shards ?p ! j) (act fw f) (?k j) = Inr (r j) \<and> asks (ep_shards ?p ! j) (obs_ok m (bases j)) (act fw f) (?k j) \<and>
            counts_at fw (bases j) (ep_counts ?p) (?k j) \<and> turns (ep_shards ?p ! j) (act fw f) (?k j) < count_list es (Message j)"
        proof (cases "j = i")
          case True
          then show ?thesis using i len c'(2) by (simp add: Infer e)
        next
          case False
          then show ?thesis using Cons.prems(3) [of j] others [of j] j by (simp add: e)
        qed
      qed
      then show ?thesis using True by (auto simp: reading_def e bnd_def serve_message_def Infer c'(1))
    qed
  qed
qed

section \<open>The cases of a process\<close>

abbreviation new_lane_tally :: lane_tally where
  "new_lane_tally \<equiv> \<lparr>lt_success = False, lt_done = False, lt_score = Fin 0, lt_calls = 0\<rparr>"

definition case_result ::
  "('o, 't) fastwam \<Rightarrow> ('o, 't) row_policy \<Rightarrow> ('l, 'o) lane_sim \<Rightarrow> eval_config \<Rightarrow> nat option \<Rightarrow> int \<times> int \<times> int \<Rightarrow> eval_case" where
  "case_result fw f sim cfg shard = (\<lambda>(layout, seed, case_id).
     let t = course fw f sim (ev_reduction cfg) seed (nat (ev_max_calls cfg)) 0 (ln_start sim layout seed) new_lane_tally in
     \<lparr>ec_episode_id = case_id, ec_layout_id = layout, ec_environment_seed = layout, ec_policy_seed = seed,
      ec_success = lt_success t, ec_score = lt_score t, ec_calls = lt_calls t, ec_done = lt_done t, ec_shard = shard\<rparr>)"

abbreviation all_cases :: "int list \<Rightarrow> int list \<Rightarrow> (int \<times> int \<times> int) list" where
  "all_cases layouts seeds \<equiv> zip layouts (zip seeds (map int [0..<length layouts]))"

lemma traverse_py_at: "traverse (py_at xs) (map int [0..<length xs]) = Inr xs"
proof -
  have "traverse (py_at xs) (map int [0..<length xs]) = Inr (map (\<lambda>i. xs ! nat i) (map int [0..<length xs]))"
    by (rule traverse_map_Inr) (auto simp: py_at_def)
  then show ?thesis by (simp add: comp_def map_nth)
qed

lemma first_wave:
  assumes "layouts \<noteq> []" and "length seeds = length layouts" and "sl_num_envs slot = int (length layouts)"
    and "sl_stage_id slot = 0" and "sl_stage_num slot = 1"
  shows "\<exists>cs'. next_eval_cases (eval_cases_of rd layouts seeds) slot ((new_cases c)\<lparr>cs_eval_case_cursor := 0\<rparr>) =
    (Inr (layouts, seeds, map int [0..<length layouts]), cs')"
proof -
  let ?n = "int (length layouts)" and ?slots = "map (\<lambda>k. sl_rank slot * int (length layouts) + int k) [0..<length layouts]"
  have up: "[0..?n - 1] = map int [0..<length layouts]" by (rule nth_equalityI) (simp_all add: nth_upto)
  have n: "0 < ?n" using assms(1) by simp
  have abs: "absolute_indices slot 0 = Inr ?slots"
    using n assms(3-5) by (simp add: absolute_indices_def Let_def up comp_def)
  have mods: "traverse (\<lambda>i. py_mod i ?n) ?slots = Inr (map int [0..<length layouts])"
  proof -
    have "traverse (\<lambda>i. py_mod i ?n) ?slots = Inr (map (\<lambda>i. i mod ?n) ?slots)"
      using n by (intro traverse_map_Inr) (simp add: py_mod_def)
    moreover have "map (\<lambda>i. i mod ?n) ?slots = map int [0..<length layouts]"
      by (rule nth_equalityI) (simp_all add: mult.commute)
    ultimately show ?thesis by simp
  qed
  have tables: "eval_tables (eval_cases_of rd layouts seeds) ((new_cases c)\<lparr>cs_eval_case_cursor := 0\<rparr>) = (layouts, seeds)"
    using assms(1,2) by (cases seeds) (simp_all add: eval_tables_def eval_cases_of_def new_cases_def or_else_def Let_def)
  have picked: "pick_cases layouts seeds (map int [0..<length layouts]) = Inr (layouts, seeds, map int [0..<length layouts])"
    using traverse_py_at [of layouts] traverse_py_at [of seeds] assms(2) by (simp add: pick_cases_def)
  show ?thesis
    unfolding next_eval_cases_def reading_def tables Let_def
    by (simp add: bnd_def lift_res_def upd_def abs mods picked)
qed

lemma map_over_indices: "map (\<lambda>i. g (xs ! i)) [0..<length xs] = map g xs"
  by (rule nth_equalityI) simp_all

lemma identities:
  "traverse (case_identity (observe sim lanes)) [0..<length lanes] =
    Inr (map (\<lambda>en. (la_case en, la_layout en, la_layout en, la_seed en)) lanes)"
proof -
  have "traverse (case_identity (observe sim lanes)) [0..<length lanes] =
      Inr (map (\<lambda>i. (la_case (lanes ! i), la_layout (lanes ! i), la_layout (lanes ! i), la_seed (lanes ! i))) [0..<length lanes])"
    by (rule traverse_map_Inr) (simp add: case_identity_def id_at_def observe_def pick_def)
  then show ?thesis by (simp only: map_over_indices [where g = "\<lambda>en. (la_case en, la_layout en, la_layout en, la_seed en)"])
qed

lemma first_tally: "new_tally n = tally_of (replicate n new_lane_tally)"
  by (simp add: new_tally_def tally_of_def)

lemma fresh_in_step: "list_all2 (lane_in_step reduction) (map (new_lane sim) xs) (replicate (length xs) new_lane_tally)"
  by (auto simp: list_all2_conv_all_nth lane_in_step_def new_lane_def tally_ok_def split_beta)

lemma results_of_cases:
  "case_results shard (map (\<lambda>en. (la_case en, la_layout en, la_layout en, la_seed en)) (map (new_lane sim) xs))
     (tally_of (map2 (lane_course fw f sim (ev_reduction cfg) (nat (ev_max_calls cfg)) 0) (map (new_lane sim) xs)
       (replicate (length xs) new_lane_tally))) =
   map (case_result fw f sim cfg shard) xs"
  by (rule nth_equalityI) (simp_all add: case_results_def case_result_def tally_of_def new_lane_def split_beta Let_def)

lemma part_valid:
  assumes "robodojo_post_init (eval_cases_of rd layouts seeds) = Inr ()" and "set layouts' \<subseteq> set layouts" and "layouts' \<noteq> []"
    and "length seeds' = length layouts'"
  shows "robodojo_post_init (eval_cases_of rd layouts' seeds') = Inr ()"
proof -
  have held_out: "list_all (\<lambda>l. l \<notin> set HELD_OUT) layouts \<Longrightarrow> list_all (\<lambda>l. l \<notin> set HELD_OUT) layouts'"
    using assms(2) by (auto simp: list_all_iff)
  have step: "bind_res (require b e) g = Inr () \<longleftrightarrow> b \<and> g () = Inr ()" for b e and g :: "unit \<Rightarrow> unit result"
    by (cases b) simp_all
  show ?thesis
    using assms(1) unfolding robodojo_post_init_def Let_def step require_Inr_iff
    using assms(3,4) held_out by (simp add: eval_cases_of_def) blast
qed

lemma worker_course:
  assumes "sound_sim sim" and "sound_policy fw f" and "layouts \<noteq> []" and "length seeds = length layouts"
    and "robodojo_post_init (eval_cases_of rd layouts seeds) = Inr ()"
  shows "let c = shared_model_env_worker (lane_builder rd sim) cfg i s layouts seeds in
    child_outcome c (act fw f) 0 = Inr (map (case_result fw f sim cfg (Some i)) (all_cases layouts seeds)) \<and>
    asks c (obs_ok (length layouts) seeds) (act fw f) 0 \<and> turns c (act fw f) 0 \<le> nat (ev_max_calls cfg)"
proof -
  let ?slot = "\<lparr>sl_rank = int i, sl_world_size = int s, sl_stage_id = 0, sl_stage_num = 1, sl_num_envs = int (length layouts)\<rparr>"
  let ?rd = "eval_cases_of rd layouts seeds" and ?xs = "all_cases layouts seeds"
  let ?lanes = "map (new_lane sim) ?xs"
  obtain cs' where cs': "next_eval_cases ?rd ?slot ((new_cases ?rd)\<lparr>cs_eval_case_cursor := 0\<rparr>) =
    (Inr (layouts, seeds, map int [0..<length layouts]), cs')"
    using first_wave [OF assms(3,4), of ?slot rd ?rd] by auto
  have reset: "ee_reset (lane_env ?rd ?slot sim) True (new_cases ?rd, []) = (Inr (observe sim ?lanes), (cs', ?lanes))"
    by (simp add: lane_env_def cs' Let_def)
  have len: "length ?lanes = length layouts" "length ?xs = length layouts" using assms(4) by simp_all
  have seeds: "map la_seed ?lanes = seeds"
    using assms(4) by (intro nth_equalityI) (simp_all add: new_lane_def split_beta)
  have ne: "?lanes \<noteq> []" using len assms(3) by auto
  have worker: "shared_model_env_worker (lane_builder rd sim) cfg i s layouts seeds =
      shard_calls (lane_env ?rd ?slot sim) (ev_reduction cfg) i
        (map (\<lambda>en. (la_case en, la_layout en, la_layout en, la_seed en)) ?lanes) (nat (ev_max_calls cfg))
        (observe sim ?lanes) (tally_of (replicate (length ?xs) new_lane_tally)) (cs', ?lanes)"
    using identities [of sim ?lanes] unfolding len
    by (simp add: shared_model_env_worker_def Let_def lane_builder_def assms(5) reset first_tally)
  note run = shard_calls_lanes [OF assms(1,2) fresh_in_step [of "ev_reduction cfg" sim ?xs] ne, where sh = i
    and n = "nat (ev_max_calls cfg)" and k = 0 and rd = ?rd and slot = ?slot and cs = cs'
    and identity = "map (\<lambda>en. (la_case en, la_layout en, la_layout en, la_seed en)) ?lanes"]
  show ?thesis
    using run [unfolded Let_def results_of_cases seeds len(1)] unfolding Let_def worker .
qed

end
