(* ===== verification/Native_Eval_Sharding.thy ===== *)
theory Native_Eval_Sharding
  imports Native_Eval_Properties
begin

text \<open>
  The two forms of the native evaluation compared: for environments that do not influence each other, one
  process and any number of simulator processes served by one policy report the same results, but
  number the episodes differently.
\<close>

section \<open>The wave of the single process\<close>

definition unsharded :: "eval_case \<Rightarrow> eval_case" where
  "unsharded c = c\<lparr>ec_shard := None\<rparr>"

lemma case_results_unsharded: "case_results None identity t = map unsharded (case_results (Some sh) identity t)"
  by (simp add: case_results_def unsharded_def split_beta comp_def)

text \<open>A process that ends well does what a wave of the single process does.\<close>

lemma wave_of_worker:
  assumes "sound_policy fw f" and "0 < ev_microbatch cfg" and "seeds_apart fw bases"
    and "ev_num_envs cfg = int (length layouts)"
    and "build \<lparr>sl_rank = 0, sl_world_size = 1, sl_stage_id = 0, sl_stage_num = 1, sl_num_envs = ev_num_envs cfg\<rparr> layouts seeds =
      Inr (env, v)"
    and "child_outcome (shared_model_env_worker build cfg 0 1 layouts seeds) (act fw f) 0 = Inr r"
    and "asks (shared_model_env_worker build cfg 0 1 layouts seeds) (obs_ok m bases) (act fw f) 0"
  shows "\<exists>s'. native_wave env fw cfg True (v, []) = (Inr (map unsharded r), s')"
proof -
  have build: "build \<lparr>sl_rank = 0, sl_world_size = 1, sl_stage_id = 0, sl_stage_num = 1, sl_num_envs = int (length layouts)\<rparr>
      layouts seeds = Inr (env, v)" using assms(4,5) by simp
  obtain obs v' where reset: "ee_reset env True v = (Inr obs, v')"
    using assms(6) by (auto simp: shared_model_env_worker_def Let_def build split: prod.splits sum.splits)
  obtain identity where identity: "traverse (case_identity obs) [0..<length layouts] = Inr identity"
    using assms(6) by (auto simp: shared_model_env_worker_def Let_def build reset split: sum.splits)
  have tree: "shared_model_env_worker build cfg 0 1 layouts seeds =
      shard_calls env (ev_reduction cfg) 0 identity (nat (ev_max_calls cfg)) obs (new_tally (length layouts)) v'"
    by (simp add: shared_model_env_worker_def Let_def build reset identity)
  have start: "counts_at fw bases [] 0" by (simp add: counts_at_def calls_of_def)
  obtain t' s' where "policy_calls env fw cfg (nat (ev_max_calls cfg)) obs (new_tally (length layouts)) (v', []) = (Inr t', s')"
    "r = case_results (Some 0) identity t'"
    using policy_calls_tree [OF assms(1-3) assms(6) [unfolded tree] assms(7) [unfolded tree] start] by blast
  then show ?thesis
    by (simp add: native_wave_def Let_def assms(4) bnd_def on_env_def reset lift_res_def identity case_results_unsharded [of _ _ 0])
qed

section \<open>Sums and parts\<close>

lemma pf_add_swap: "pf_add (pf_add a x) y = pf_add (pf_add a y) x"
  by (cases a; cases x; cases y) simp_all

lemma pf_sum_fold: "pf_sum xs = fold (\<lambda>x a. pf_add a x) xs (Fin 0)"
  by (simp add: pf_sum_def foldl_conv_fold)

lemma pf_sum_mset: "mset xs = mset ys \<Longrightarrow> pf_sum xs = pf_sum ys"
  unfolding pf_sum_fold by (rule fun_cong [OF fold_multiset_equiv]) (auto simp: pf_add_swap)

text \<open>What a report says without the numbering of its cases.\<close>

definition plain_case :: "eval_case \<Rightarrow> eval_case" where
  "plain_case c = c\<lparr>ec_episode_id := 0, ec_shard := None\<rparr>"

definition same_results :: "eval_summary \<Rightarrow> eval_summary \<Rightarrow> bool" where
  "same_results a b \<longleftrightarrow>
     mset (map plain_case (es_cases a)) = mset (map plain_case (es_cases b)) \<and> es_num_cases a = es_num_cases b \<and>
     es_successes a = es_successes b \<and> es_success_rate a = es_success_rate b \<and> es_mean_score a = es_mean_score b \<and>
     es_all_done a = es_all_done b \<and> es_incomplete a = es_incomplete b"

lemma through_plain:
  assumes "mset (map plain_case xs) = mset (map plain_case ys)" and "\<And>c. h (plain_case c) = h c"
  shows "mset (map h xs) = mset (map h ys)"
proof -
  have "mset (map h zs) = image_mset h (mset (map plain_case zs))" for zs
    by (simp add: assms(2) image_mset.compositionality comp_def)
  then show ?thesis by (simp only: assms(1))
qed

lemma length_filter_mset: "mset (map h xs) = mset (map h ys) \<Longrightarrow> length (filter h xs) = length (filter h ys)"
proof -
  have "length (filter h zs) = count (mset (map h zs)) True" for zs by (induction zs) auto
  then show "mset (map h xs) = mset (map h ys) \<Longrightarrow> length (filter h xs) = length (filter h ys)" by simp
qed

lemma summarize_same:
  assumes "mset (map plain_case xs) = mset (map plain_case ys)"
  shows "same_results (summarize xs) (summarize ys)"
proof -
  note via = through_plain [OF assms]
  have len: "length xs = length ys" using arg_cong [OF assms, of size] by simp
  have succ: "length (filter ec_success xs) = length (filter ec_success ys)"
    by (rule length_filter_mset, rule via) (simp add: plain_case_def)
  have inc: "length (filter (\<lambda>c. \<not> ec_done c) xs) = length (filter (\<lambda>c. \<not> ec_done c) ys)"
    by (rule length_filter_mset, rule via) (simp add: plain_case_def)
  have score: "pf_sum (map ec_score xs) = pf_sum (map ec_score ys)"
    by (rule pf_sum_mset, rule via) (simp add: plain_case_def)
  have all: "list_all ec_done zs \<longleftrightarrow> length (filter (\<lambda>c. \<not> ec_done c) zs) = 0" for zs
    by (auto simp: list_all_iff filter_empty_conv)
  have "list_all ec_done xs = list_all ec_done ys" unfolding all inc ..
  with assms len succ inc score show ?thesis by (simp add: same_results_def summarize_def Let_def)
qed

lemma plain_case_result: "plain_case (case_result fw f sim cfg sh (l, s, i)) = case_result fw f sim cfg None (l, s, 0)"
  by (simp add: plain_case_def case_result_def Let_def)

lemma plain_results:
  assumes "length seeds = length layouts"
  shows "map plain_case (map (case_result fw f sim cfg sh) (all_cases layouts seeds)) =
    map (\<lambda>(l, s). case_result fw f sim cfg None (l, s, 0)) (zip layouts seeds)"
  using assms by (intro nth_equalityI) (simp_all add: plain_case_result)

lemma zip_chunks: "length xs = length ys \<Longrightarrow> map2 zip (chunks k n xs) (chunks k n ys) = chunks k n (zip xs ys)"
  by (rule nth_equalityI) (simp_all add: chunks_nth take_zip drop_zip)

lemma plain_shards:
  assumes "length layouts = s * k" and "length seeds = s * k"
  shows "(\<Sum>i \<in> {0..<s}. mset (map plain_case (map (case_result fw f sim cfg (Some i))
      (all_cases (chunks k s layouts ! i) (chunks k s seeds ! i))))) =
    mset (map plain_case (map (case_result fw f sim cfg None) (all_cases layouts seeds)))"
proof -
  let ?g = "\<lambda>(l, s). case_result fw f sim cfg None (l, s, 0)"
  have part: "map plain_case (map (case_result fw f sim cfg (Some i)) (all_cases (chunks k s layouts ! i) (chunks k s seeds ! i))) =
      map ?g (chunks k s (zip layouts seeds) ! i)" if i: "i < s" for i
  proof -
    have len: "length (chunks k s seeds ! i) = length (chunks k s layouts ! i)" using i assms by (simp add: chunks_nth)
    show ?thesis
      unfolding plain_results [OF len] using i assms by (simp add: chunks_nth take_zip drop_zip)
  qed
  have "(\<Sum>i \<in> {0..<s}. mset (map plain_case (map (case_result fw f sim cfg (Some i))
      (all_cases (chunks k s layouts ! i) (chunks k s seeds ! i))))) =
      (\<Sum>i \<in> {0..<s}. mset (map ?g (chunks k s (zip layouts seeds) ! i)))"
    by (intro sum.cong refl arg_cong [where f = mset] part) simp
  also have "\<dots> = mset (map ?g (concat (chunks k s (zip layouts seeds))))"
    by (simp add: map_concat mset_concat chunks_def interv_sum_list_conv_sum_set_nat comp_def)
  also have "concat (chunks k s (zip layouts seeds)) = zip layouts seeds" using assms by (simp add: concat_chunks)
  also have "map ?g (zip layouts seeds) = map plain_case (map (case_result fw f sim cfg None) (all_cases layouts seeds))"
    using assms by (intro plain_results [symmetric]) simp
  finally show ?thesis .
qed

section \<open>One process\<close>

definition one_wave :: "eval_config \<Rightarrow> bool" where
  "one_wave cfg \<longleftrightarrow>
     ev_layout_ids cfg \<noteq> [] \<and> length (ev_policy_seeds cfg) = length (ev_layout_ids cfg) \<and>
     ev_num_envs cfg = int (length (ev_layout_ids cfg)) \<and> 1 \<le> ev_microbatch cfg \<and> ev_microbatch cfg \<le> ev_num_envs cfg \<and>
     ev_reduction cfg \<in> {''terminal'', ''trajectory_max''}"

abbreviation cases_of_run where
  "cases_of_run fw f sim cfg \<equiv> map (case_result fw f sim cfg None) (all_cases (ev_layout_ids cfg) (ev_policy_seeds cfg))"

lemma checked_one_wave: "one_wave cfg \<Longrightarrow> 1 \<le> ev_shards cfg \<Longrightarrow> checked_config cfg = Inr ()"
  by (auto simp: one_wave_def checked_config_def)

lemma unsharded_case: "map unsharded (map (case_result fw f sim cfg (Some i)) xs) = map (case_result fw f sim cfg None) xs"
  by (simp add: unsharded_def case_result_def split_beta Let_def)

lemma single_run:
  assumes "sound_sim sim" and "sound_policy fw f" and "one_wave cfg" and "seeds_apart fw (ev_policy_seeds cfg)"
    and "ev_shards cfg = 1" and "0 \<le> ev_simulator_device cfg" and "ev_simulator_device cfg < visible"
    and "0 \<le> ev_model_device cfg" and "ev_model_device cfg < visible"
    and "robodojo_post_init (eval_cases_of rd (ev_layout_ids cfg) (ev_policy_seeds cfg)) = Inr ()"
  shows "run_native_fastwam_robodojo_eval (lane_builder rd sim) fw cfg visible events =
    Inr (Some (summarize (cases_of_run fw f sim cfg)))"
proof -
  let ?layouts = "ev_layout_ids cfg" and ?seeds = "ev_policy_seeds cfg"
  let ?rd = "eval_cases_of rd ?layouts ?seeds"
  let ?slot = "\<lparr>sl_rank = 0, sl_world_size = 1, sl_stage_id = 0, sl_stage_num = 1, sl_num_envs = ev_num_envs cfg\<rparr>"
  have wave: "?layouts \<noteq> []" "length ?seeds = length ?layouts" "ev_num_envs cfg = int (length ?layouts)" "0 < ev_microbatch cfg"
    using assms(3) by (simp_all add: one_wave_def)
  have build: "lane_builder rd sim ?slot ?layouts ?seeds = Inr (lane_env ?rd ?slot sim, (new_cases ?rd, []))"
    by (simp add: lane_builder_def Let_def assms(10))
  obtain s' where "native_wave (lane_env ?rd ?slot sim) fw cfg True ((new_cases ?rd, []), []) = (Inr (cases_of_run fw f sim cfg), s')"
    using wave_of_worker [where build = "lane_builder rd sim", OF assms(2) wave(4) assms(4) wave(3) build]
      worker_course [OF assms(1,2) wave(1,2) assms(10), of cfg 0 1]
    unfolding Let_def unsharded_case [symmetric, where i = 0] by blast
  moreover have "wave_count cfg = 1" using wave by (simp add: wave_count_def)
  ultimately show ?thesis
    using assms(3,5-9) by (simp add: run_native_fastwam_robodojo_eval_def checked_one_wave build single_process_eval_def
        bnd_def lift_res_def)
qed

section \<open>Several processes\<close>

text \<open>The messages come in any order, and every process gets as many turns as it can use.\<close>

definition enough_messages :: "eval_config \<Rightarrow> eval_event list \<Rightarrow> bool" where
  "enough_messages cfg events \<longleftrightarrow>
     set events \<subseteq> range Message \<and> (\<forall>i < nat (ev_shards cfg). nat (ev_max_calls cfg) < count_list events (Message i))"

lemma chunk_distinct: "distinct xs \<Longrightarrow> i < n \<Longrightarrow> distinct (chunks k n xs ! i)"
  by (simp add: chunks_nth)

lemma chunks_disjoint:
  assumes "distinct xs" and "i < j"
  shows "set (take k (drop (i * k) xs)) \<inter> set (take k (drop (j * k) xs)) = {}"
proof -
  have le: "i * k + k \<le> j * k" using mult_le_mono1 [of "Suc i" j k] assms(2) by simp
  have "set (take k (drop (i * k) xs)) \<subseteq> set (take (j * k) xs)"
  proof -
    have "take k (drop (i * k) xs) = drop (i * k) (take (i * k + k) xs)" by (simp add: take_drop add.commute)
    then have "set (take k (drop (i * k) xs)) \<subseteq> set (take (i * k + k) xs)" by (simp add: set_drop_subset)
    also have "\<dots> \<subseteq> set (take (j * k) xs)" by (rule set_take_subset_set_take [OF le])
    finally show ?thesis .
  qed
  moreover have "set (take k (drop (j * k) xs)) \<subseteq> set (drop (j * k) xs)" by (rule set_take_subset)
  ultimately show ?thesis using set_take_disj_set_drop_if_distinct [OF assms(1), of "j * k" "j * k"] by blast
qed

lemma shard_lens:
  assumes "one_wave cfg" and "2 \<le> ev_shards cfg" and "ev_num_envs cfg mod ev_shards cfg = 0"
    and "s = nat (ev_shards cfg)" and "k = nat (ev_num_envs cfg div ev_shards cfg)"
  shows "length (ev_layout_ids cfg) = s * k" and "length (ev_policy_seeds cfg) = s * k"
proof -
  have "ev_shards cfg * (ev_num_envs cfg div ev_shards cfg) = ev_num_envs cfg" using assms(3) by auto
  then have "int (s * k) = int (length (ev_layout_ids cfg))"
    using assms(1,2,4,5) by (simp add: pos_imp_zdiv_nonneg_iff one_wave_def)
  then show "length (ev_layout_ids cfg) = s * k" "length (ev_policy_seeds cfg) = s * k"
    using assms(1) by (simp_all only: of_nat_eq_iff one_wave_def)
qed

lemma sharded_run:
  assumes "sound_sim sim" and "sound_policy fw f" and "one_wave cfg" and "seeds_apart fw (ev_policy_seeds cfg)"
    and "2 \<le> ev_shards cfg" and "ev_num_envs cfg mod ev_shards cfg = 0" and "enough_messages cfg events"
    and "s = nat (ev_shards cfg)" and "k = nat (ev_num_envs cfg div ev_shards cfg)"
    and "robodojo_post_init (eval_cases_of rd (ev_layout_ids cfg) (ev_policy_seeds cfg)) = Inr ()"
  shows "\<exists>cs. run_native_fastwam_robodojo_eval (lane_builder rd sim) fw cfg visible events =
      Inr (Some (summarize (sort_cases cs))) \<and>
    mset cs = (\<Sum>i \<in> {0..<s}. mset (map (case_result fw f sim cfg (Some i))
      (all_cases (chunks k s (ev_layout_ids cfg) ! i) (chunks k s (ev_policy_seeds cfg) ! i))))"
proof -
  let ?layouts = "ev_layout_ids cfg" and ?seeds = "ev_policy_seeds cfg"
  let ?part = "\<lambda>i xs. take k (drop (i * k) xs)"
  let ?p = "\<lparr>ep_shards = map (\<lambda>i. shared_model_env_worker (lane_builder rd sim) cfg i s (?part i ?layouts) (?part i ?seeds)) [0..<s],
    ep_active = {0..<s}, ep_cases = [], ep_counts = []\<rparr>"
  let ?r = "\<lambda>i. map (case_result fw f sim cfg (Some i)) (all_cases (?part i ?layouts) (?part i ?seeds))"
  let ?bases = "\<lambda>i. ?part i ?seeds"
  have wave: "?layouts \<noteq> []" "length ?seeds = length ?layouts" "ev_num_envs cfg = int (length ?layouts)" "0 < ev_microbatch cfg"
    using assms(3) by (simp_all add: one_wave_def)
  note lens = shard_lens [OF assms(3,5,6,8,9)]
  have k: "0 < k" using lens wave(1) by (cases k) auto
  have size: "length (?part i xs) = k" if "i < s" "length xs = s * k" for i and xs :: "int list"
    using mult_le_mono1 [of "Suc i" s k] that by simp
  have apart: "seeds_apart fw (?bases i)" for i using assms(4) by (auto simp: seeds_apart_def)
  have disjoint: "\<forall>i j. i \<noteq> j \<longrightarrow> set (?bases i) \<inter> set (?bases j) = {}" if "fw_seed_mode fw \<noteq> ''episode''"
  proof -
    have "distinct ?seeds" using assms(4) that by (simp add: seeds_apart_def)
    then show ?thesis using chunks_disjoint [of ?seeds _ _ k] by (metis inf_commute nat_neq_iff)
  qed
  have start: "child_outcome (ep_shards ?p ! i) (act fw f) 0 = Inr (?r i) \<and> asks (ep_shards ?p ! i) (obs_ok k (?bases i)) (act fw f) 0 \<and>
    counts_at fw (?bases i) (ep_counts ?p) 0 \<and> turns (ep_shards ?p ! i) (act fw f) 0 < count_list events (Message i)"
    if "i \<in> ep_active ?p" for i
  proof -
    have i: "i < s" using that by simp
    have ne: "?part i ?layouts \<noteq> []" using size [OF i lens(1)] k by (metis list.size(3) less_numeral_extra(3))
    have eq: "length (?part i ?seeds) = length (?part i ?layouts)" by (simp only: size [OF i] lens)
    have ok: "robodojo_post_init (eval_cases_of rd (?part i ?layouts) (?part i ?seeds)) = Inr ()"
      by (rule part_valid [OF assms(10) _ ne eq]) (meson set_drop_subset set_take_subset subset_trans)
    note w = worker_course [OF assms(1,2) ne eq ok, of cfg i s, unfolded Let_def size [OF i lens(1)]]
    have "nat (ev_max_calls cfg) < count_list events (Message i)" using assms(7,8) i by (simp add: enough_messages_def)
    then show ?thesis using w i size [OF i lens(1)] by (simp add: counts_at_def calls_of_def del: length_take)
  qed
  have "\<exists>p'. serve fw cfg events ?p = (Inr True, p') \<and> mset (ep_cases p') = mset (ep_cases ?p) + (\<Sum>i \<in> ep_active ?p. mset (?r i))"
    using assms(7) by (intro served [where f = f and k = "\<lambda>_. 0" and bases = ?bases and m = k, OF assms(2) wave(4) apart disjoint _ _ start])
      (auto simp: enough_messages_def)
  then obtain p' where p': "serve fw cfg events ?p = (Inr True, p')" "mset (ep_cases p') = (\<Sum>i \<in> {0..<s}. mset (?r i))"
    by auto
  have each: "nat (int (length ?layouts) div ev_shards cfg) = k" using assms(9) wave(3) by simp
  have "run_native_fastwam_robodojo_eval (lane_builder rd sim) fw cfg visible events = Inr (Some (summarize (sort_cases (ep_cases p'))))"
    using assms(3,5,6) wave p'(1)
    by (simp add: run_native_fastwam_robodojo_eval_def checked_one_wave run_shared_model_sharded_robodojo_eval_def
        Let_def assms(8) [symmetric] each)
  moreover have "(\<Sum>i \<in> {0..<s}. mset (?r i)) = (\<Sum>i \<in> {0..<s}. mset (map (case_result fw f sim cfg (Some i))
      (all_cases (chunks k s ?layouts ! i) (chunks k s ?seeds ! i))))"
    by (rule sum.cong) (simp_all add: chunks_nth)
  ultimately show ?thesis using p'(2) by metis
qed

section \<open>Sharding is invisible\<close>

lemma mset_sort_cases: "mset (sort_cases cs) = mset cs"
  by (simp add: sort_cases_def)

lemma sorted_cases: "sorted (map ec_layout_id (sort_cases cs))"
  by (simp add: sort_cases_def)

text \<open>The episode numbers: the position in the schedule of the process that ran the case.\<close>

lemma numbered_cases:
  "length seeds = length layouts \<Longrightarrow>
    map ec_episode_id (map (case_result fw f sim cfg sh) (all_cases layouts seeds)) = map int [0..<length layouts]"
  by (rule nth_equalityI) (simp_all add: case_result_def Let_def)

lemma image_mset_over_sum: "finite A \<Longrightarrow> image_mset h (\<Sum>i \<in> A. F i) = (\<Sum>i \<in> A. image_mset h (F i))"
  by (induction A rule: finite_induct) simp_all

lemma mset_map_sum: "mset cs = (\<Sum>i \<in> A. mset (g i)) \<Longrightarrow> finite A \<Longrightarrow> mset (map h cs) = (\<Sum>i \<in> A. mset (map h (g i)))"
  by (simp add: image_mset_over_sum)

lemma repeated_ids: "(\<Sum>i \<in> {0..<s}. mset (map int [0..<k])) = mset (concat (replicate s (map int [0..<k])))"
  by (induction s) (simp_all add: add.commute)

text \<open>
  C18. Where the policy infers every row by itself (the same action for a row whatever else is in its
  batch: \<open>sound_policy\<close>; in bfloat16, which the evaluation uses, this holds up to the rounding of the
  batched kernels, so that the claim is one about the exact arithmetic of the model), the evaluation runs in one wave (as
  many environments as cases), and the policy seeds of the cases are pairwise distinct unless each case
  keeps its seed for the whole episode (\<open>seeds_apart\<close>), the report of the native evaluation does not
  depend on whether one process runs all cases or several simulator processes share the policy, nor
  on the order in which their requests are served or on the microbatch size: the same cases with the
  same results, the same rates and means. Only the episode numbers differ: every simulator process
  numbers its cases from zero. Without distinct seeds the order does show
  (\<open>shared_seed_sees_the_order\<close>).
\<close>

theorem sharding_is_invisible:
  assumes "sound_sim sim" and "sound_policy fw f" and "one_wave cfg" and "seeds_apart fw (ev_policy_seeds cfg)"
    and "2 \<le> ev_shards cfg" and "ev_num_envs cfg mod ev_shards cfg = 0" and "enough_messages cfg events"
    and "0 \<le> ev_simulator_device cfg" and "ev_simulator_device cfg < visible"
    and "0 \<le> ev_model_device cfg" and "ev_model_device cfg < visible"
    and "1 \<le> mb" and "mb \<le> ev_num_envs cfg"
    and "robodojo_post_init (eval_cases_of rd (ev_layout_ids cfg) (ev_policy_seeds cfg)) = Inr ()"
  shows "\<exists>one many.
    run_native_fastwam_robodojo_eval (lane_builder rd sim) fw (cfg\<lparr>ev_shards := 1, ev_microbatch := mb\<rparr>) visible events' =
      Inr (Some one) \<and>
    run_native_fastwam_robodojo_eval (lane_builder rd sim) fw cfg visible events = Inr (Some many) \<and> same_results one many \<and>
    sorted (map ec_layout_id (es_cases many)) \<and>
    map ec_episode_id (es_cases one) = map int [0..<length (ev_layout_ids cfg)] \<and>
    mset (map ec_episode_id (es_cases many)) =
      mset (concat (replicate (nat (ev_shards cfg)) (map int [0..<nat (ev_num_envs cfg div ev_shards cfg)])))"
proof -
  let ?layouts = "ev_layout_ids cfg" and ?seeds = "ev_policy_seeds cfg" and ?one = "cfg\<lparr>ev_shards := 1, ev_microbatch := mb\<rparr>"
  define s k where "s = nat (ev_shards cfg)" and "k = nat (ev_num_envs cfg div ev_shards cfg)"
  have result: "case_result fw f sim ?one = case_result fw f sim cfg" by (intro ext) (simp add: case_result_def)
  have "run_native_fastwam_robodojo_eval (lane_builder rd sim) fw ?one visible events' =
      Inr (Some (summarize (cases_of_run fw f sim cfg)))"
    using single_run [of sim fw f ?one visible rd events'] assms by (simp add: one_wave_def result)
  moreover obtain cs where cs: "run_native_fastwam_robodojo_eval (lane_builder rd sim) fw cfg visible events =
      Inr (Some (summarize (sort_cases cs)))"
    "mset cs = (\<Sum>i \<in> {0..<s}. mset (map (case_result fw f sim cfg (Some i)) (all_cases (chunks k s ?layouts ! i) (chunks k s ?seeds ! i))))"
    using sharded_run [OF assms(1-7) s_def k_def assms(14), of visible] by blast
  moreover note lens = shard_lens [OF assms(3,5,6) s_def k_def]
  moreover have "same_results (summarize (cases_of_run fw f sim cfg)) (summarize (sort_cases cs))"
  proof (rule summarize_same)
    show "mset (map plain_case (cases_of_run fw f sim cfg)) = mset (map plain_case (sort_cases cs))"
      by (simp only: mset_map mset_sort_cases)
        (simp only: mset_map [symmetric] mset_map_sum [OF cs(2) finite_atLeastLessThan] plain_shards [OF lens])
  qed
  moreover have "mset (map ec_episode_id (sort_cases cs)) = mset (concat (replicate s (map int [0..<k])))"
  proof -
    have "mset (map ec_episode_id (sort_cases cs)) = mset (map ec_episode_id cs)" by (simp add: mset_sort_cases)
    also have "\<dots> = (\<Sum>i \<in> {0..<s}. mset (map ec_episode_id (map (case_result fw f sim cfg (Some i))
        (all_cases (chunks k s ?layouts ! i) (chunks k s ?seeds ! i)))))"
      by (rule mset_map_sum [OF cs(2)]) simp
    also have "\<dots> = (\<Sum>i \<in> {0..<s}. mset (map int [0..<k]))"
    proof (rule sum.cong)
      fix i
      assume i: "i \<in> {0..<s}"
      then have "length (chunks k s ?layouts ! i) = k" "length (chunks k s ?seeds ! i) = k"
        using chunk_length [OF _ lens(1)] chunk_length [OF _ lens(2)] nth_mem [of i "chunks k s ?layouts"]
          nth_mem [of i "chunks k s ?seeds"] by simp_all
      then show "mset (map ec_episode_id (map (case_result fw f sim cfg (Some i))
          (all_cases (chunks k s ?layouts ! i) (chunks k s ?seeds ! i)))) = mset (map int [0..<k])"
        by (subst numbered_cases) simp_all
    qed simp
    also note repeated_ids
    finally show ?thesis .
  qed
  ultimately show ?thesis
    using numbered_cases [of ?seeds ?layouts fw f sim cfg None] sorted_cases [of cs]
    by (auto simp: summarize_def Let_def s_def k_def)
qed

section \<open>An evaluation of four cases in two processes\<close>

definition small_row :: "(int \<times> nat, unit) row_policy" where
  "small_row = (\<lambda>flow (row, task, seed). (replicate 32 (replicate 14 (Fin (of_nat (snd row)))), None))"

definition small_policy :: "(int \<times> nat, unit) fastwam" where
  "small_policy = \<lparr>fw_seed_mode = ''per_policy_call'', fw_seed = None, fw_horizon = 32, fw_chunk = 24, fw_latent_scale = 1,
     fw_flow_enabled = False, fw_hash = length, fw_infer = (\<lambda>flow. map (small_row flow)), fw_oracle = (\<lambda>row task. [])\<rparr>"

definition small_robodojo :: robodojo_config where
  "small_robodojo =
     \<lparr>rd_root = ''/robodojo'', rd_task_name = ''stack_bowls'', rd_task_names = [], rd_task_id = 0,
      rd_worker_stage_task_schedule = [], rd_action_type = ''joint'', rd_layout_ids = [0], rd_train_layout_schedule = [],
      rd_train_policy_seed_schedule = [], rd_train_layout_repeat = 1, rd_train_policy_seed_start = None,
      rd_train_case_cursor_start = 0, rd_eval_policy_seed_schedule = [], rd_allow_held_out_eval_layouts = False, rd_seed = 7,
      rd_reset_max_attempts = 3, rd_reset_rpc_timeout_s = 240, rd_reset_process_max_restarts = 2,
      rd_restart_every_rollouts = 1, rd_parallel_restart_stages = False, rd_defer_chunk_observations = False\<rparr>"

text \<open>An environment succeeds in the second chunk when its layout is even.\<close>

definition small_sim :: "(int \<times> nat, int \<times> nat) lane_sim" where
  "small_sim = \<lparr>ln_start = (\<lambda>layout seed. (layout, 0)), ln_view = (\<lambda>l. (l, ''stack'')),
     ln_step = (\<lambda>a (layout, k). let n = length a; now = even layout \<and> k = 1 in
       ((layout, Suc k), \<lparr>lf_terminated = replicate n now, lf_truncated = replicate n False,
         lf_success = replicate n now, lf_score = replicate n (Fin (of_nat k))\<rparr>)),
     ln_task_id = 0, ln_suite_id = 0\<rparr>"

definition small_eval :: eval_config where
  "small_eval = \<lparr>ev_layout_ids = [4, 1, 2, 3], ev_policy_seeds = [10, 11, 12, 13], ev_num_envs = 4, ev_microbatch = 3,
     ev_reduction = ''terminal'', ev_shards = 2, ev_max_calls = 2, ev_simulator_device = 0, ev_model_device = 0\<rparr>"

lemma small_cases_valid: "robodojo_post_init (eval_cases_of small_robodojo (ev_layout_ids small_eval) (ev_policy_seeds small_eval)) = Inr ()"
  by code_simp

lemma small_setting:
  "sound_sim small_sim" "sound_policy small_policy small_row" "one_wave small_eval"
  "seeds_apart small_policy (ev_policy_seeds small_eval)"
  "enough_messages small_eval [Message 1, Message 0, Message 0, Message 1, Message 1, Message 0]"
proof -
  show "sound_sim small_sim" by (simp add: sound_sim_def small_sim_def feedback_size_def split_beta Let_def)
  show "sound_policy small_policy small_row"
    by (simp add: sound_policy_def small_policy_def small_row_def split_beta list_all_iff)
  show "one_wave small_eval" by (simp add: one_wave_def small_eval_def)
  show "seeds_apart small_policy (ev_policy_seeds small_eval)" by (simp add: seeds_apart_def small_eval_def)
  show "enough_messages small_eval [Message 1, Message 0, Message 0, Message 1, Message 1, Message 0]"
    by (auto simp: enough_messages_def small_eval_def numeral_2_eq_2 less_Suc_eq)
qed

lemma sharding_is_invisible_witness:
  "\<exists>one many.
    run_native_fastwam_robodojo_eval (lane_builder small_robodojo small_sim) small_policy
      (small_eval\<lparr>ev_shards := 1, ev_microbatch := 1\<rparr>) 1 [] = Inr (Some one) \<and>
    run_native_fastwam_robodojo_eval (lane_builder small_robodojo small_sim) small_policy small_eval 1
      [Message 1, Message 0, Message 0, Message 1, Message 1, Message 0] = Inr (Some many) \<and> same_results one many \<and>
    sorted (map ec_layout_id (es_cases many)) \<and> map ec_episode_id (es_cases one) = [0, 1, 2, 3] \<and>
    mset (map ec_episode_id (es_cases many)) = mset [0, 1, 0, 1]"
  using sharding_is_invisible [OF small_setting(1-4) _ _ small_setting(5) _ _ _ _ _ _ small_cases_valid, of 1 1 "[]"]
  by (simp add: small_eval_def upt_rec numeral_2_eq_2 numeral_eq_Suc)

end
