(* ===== verification/Grfpo_Sampling.thy ===== *)
theory Grfpo_Sampling
  imports Fpo_Transitions Robodojo_Cases
begin

text \<open>
  trainer/grfpo/grfpo_ray_trainer.py, first part: what a GRFPO trainer asks its cluster for. How
  many candidate groups a batch has, which task every group belongs to, the checks of the
  constructor, and the collection of one batch: a rollout of the active pipeline stages, cut into
  groups that are validated one by one.

  The cluster is a record of functions over its state \<open>'s\<close>; \<open>'e\<close> are the last observations of a
  rollout. \<open>DataProto.chunk\<close> and \<open>DataProto.concat\<close> of verl are arguments. Metrics and the
  fields of a record that are only logged are left out.
\<close>

section \<open>Settings\<close>

record sampling_config =
  sg_trainer :: grfpo_config
  sg_robodojo :: robodojo_config
  sg_device :: string
  sg_nnodes :: int
  sg_workers_per_node :: int
  sg_gpus_per_node :: int
  sg_num_envs :: int
  sg_stage_num :: int
  sg_partition_by_worker :: bool
  sg_partition_size :: int
  sg_auto_reset :: bool
  sg_execution_mode :: string
  sg_interpolation :: bool
  sg_serial_smoothing :: bool
  sg_informative_sampling :: bool
  sg_architecture :: string
  sg_temperature :: rat
  sg_value_enabled :: bool
  sg_model_value_enabled :: bool
  sg_normalize_advantages :: bool
  sg_value_only_updates :: int
  sg_vf_coef :: rat
  sg_base_path :: string
  sg_base_sha256 :: string
  sg_evidence_jsonl :: "string option"
  sg_candidate_evidence_jsonl :: "string option"
  sg_test_freq :: int
  sg_collection_only :: bool
  sg_val_only :: bool
  sg_val_before_train :: bool
  sg_run_id :: string

abbreviation group_size_of :: "sampling_config \<Rightarrow> int" where
  "group_size_of cfg \<equiv> gc_group_size (sg_trainer cfg)"

section \<open>The size of a batch\<close>

definition bounded_candidate_batch_size :: "int \<Rightarrow> int \<Rightarrow> int \<Rightarrow> int result" where
  "bounded_candidate_batch_size concurrency budget slots =
     (if concurrency \<le> 0 \<or> budget \<le> 0 \<or> slots \<le> 0 then Inl ValueError
      else Inr (min concurrency (min budget slots)))"

definition quantized_candidate_batch_size :: "int \<Rightarrow> int \<Rightarrow> int \<Rightarrow> int \<Rightarrow> int result" where
  "quantized_candidate_batch_size concurrency budget slots groups_per_stage =
     (if groups_per_stage \<le> 0 then Inl ValueError
      else if groups_per_stage = 1 then bounded_candidate_batch_size concurrency budget slots
      else if concurrency \<le> 0 \<or> budget \<le> 0 \<or> slots \<le> 0 then Inl ValueError
      else
        let upper_bound = min concurrency budget in
        if upper_bound < groups_per_stage then Inr 0
        else
          let desired = min upper_bound (max slots groups_per_stage)
          in Inr (desired div groups_per_stage * groups_per_stage))"

definition configured_env_worker_count :: "sampling_config \<Rightarrow> int" where
  "configured_env_worker_count cfg =
     sg_nnodes cfg * (if sg_device cfg = ''cpu'' then sg_workers_per_node cfg else sg_gpus_per_node cfg)"

definition candidate_groups_per_stage :: "sampling_config \<Rightarrow> int result" where
  "candidate_groups_per_stage cfg =
     (let part = gc_candidate_group_partition (sg_trainer cfg); g = group_size_of cfg; n = sg_num_envs cfg in
      if part = ''stage'' then Inr 1
      else if part = ''worker_stage'' then
        if n < g then Inl ValueError
        else if g = 0 then Inl ZeroDivisionError
        else if n mod g \<noteq> 0 then Inl ValueError
        else Inr (configured_env_worker_count cfg * (n div g))
      else Inl ValueError)"

definition optional_refill_is_unnecessary :: "int \<Rightarrow> int \<Rightarrow> int \<Rightarrow> int \<Rightarrow> bool" where
  "optional_refill_is_unnecessary candidates accepted initial before_refill =
     (if initial \<le> 0 \<or> before_refill \<le> 0 then False
      else initial \<le> candidates \<and> before_refill \<le> accepted)"

definition candidate_schedule_slot_after_fixed_eval :: "int \<Rightarrow> int \<Rightarrow> int result" where
  "candidate_schedule_slot_after_fixed_eval slot width =
     (if slot < 0 \<or> width \<le> 0 then Inl ValueError else Inr (slot + width))"

section \<open>The tasks of a batch\<close>

text \<open>The task of every process in stage-major order, with the ids of the names.\<close>

definition process_tasks :: "sampling_config \<Rightarrow> (string list \<times> (string \<Rightarrow> int option)) result" where
  "process_tasks cfg =
     (let rd = sg_robodojo cfg; processes = configured_env_worker_count cfg * sg_stage_num cfg;
          schedule = rd_worker_stage_task_schedule rd in
      if schedule \<noteq> [] then
        if int (length schedule) \<noteq> processes then Inl ValueError
        else Inr (schedule, map_of (rev (zip (rd_task_names rd) (map int [0..<length (rd_task_names rd)]))))
      else Inr (replicate (nat processes) (rd_task_name rd), [rd_task_name rd \<mapsto> rd_task_id rd]))"

definition with_id :: "(string \<Rightarrow> int option) \<Rightarrow> string \<Rightarrow> (string \<times> int) result" where
  "with_id ids t = (case ids t of None \<Rightarrow> Inl KeyError | Some i \<Rightarrow> Inr (t, i))"

definition stage_task :: "int \<Rightarrow> string list \<Rightarrow> (string \<Rightarrow> int option) \<Rightarrow> nat \<Rightarrow> (string \<times> int) result" where
  "stage_task workers schedule ids stage =
     (let tasks = take (nat workers) (drop (stage * nat workers) schedule) in
      if length (remdups tasks) \<noteq> 1 then Inl ValueError else with_id ids (hd tasks))"

definition candidate_task_assignments :: "sampling_config \<Rightarrow> nat \<Rightarrow> (string \<times> int) list result" where
  "candidate_task_assignments cfg group_count =
     bind_res (process_tasks cfg) (\<lambda>(schedule, ids).
       let part = gc_candidate_group_partition (sg_trainer cfg); g = group_size_of cfg in
       bind_res
         (if part = ''stage'' then
            traverse (stage_task (configured_env_worker_count cfg) schedule ids) [0..<nat (sg_stage_num cfg)]
          else if part = ''worker_stage'' then
            if g = 0 then Inl ZeroDivisionError
            else if 0 < sg_num_envs cfg div g then
              bind_res (traverse (with_id ids) schedule) (\<lambda>ts.
                Inr (concat (map (replicate (nat (sg_num_envs cfg div g))) ts)))
            else Inr []
          else Inl ValueError)
         (\<lambda>assignments.
            if length assignments < group_count then Inl ValueError else Inr (take group_count assignments)))"

section \<open>The constructor\<close>

definition validate_fastwam_rollout_temperature :: "sampling_config \<Rightarrow> unit result" where
  "validate_fastwam_rollout_temperature cfg =
     require (sg_architecture cfg \<noteq> ''fastwam'' \<or> \<bar>sg_temperature cfg - 1\<bar> \<le> 1 / 10 ^ 8 + 1 / 10 ^ 5) ValueError"

definition critic_checks :: "sampling_config \<Rightarrow> bool list" where
  "critic_checks cfg =
     (let outcome = gc_advantage_estimator (sg_trainer cfg) = ''grpo_outcome'';
          critic = sg_value_enabled cfg; head = sg_model_value_enabled cfg in
      [\<not> (sg_architecture cfg = ''fastwam'' \<and> (critic \<or> head)),
       critic = head,
       \<not> (gc_advantage_estimator (sg_trainer cfg) = ''gae'' \<and> \<not> critic),
       \<not> (outcome \<and> critic),
       \<not> (outcome \<and> sg_normalize_advantages cfg),
       \<not> (outcome \<and> (sg_value_only_updates cfg \<noteq> 0 \<or> sg_vf_coef cfg \<noteq> 0)),
       \<not> (outcome \<and> \<not> sg_informative_sampling cfg)])"

definition worker_stage_checks :: "sampling_config \<Rightarrow> int \<Rightarrow> bool list" where
  "worker_stage_checks cfg groups_per_stage =
     (let n = sg_num_envs cfg; g = group_size_of cfg in
      [g \<le> n \<and> n mod g = 0,
       gc_concurrent_candidate_groups (sg_trainer cfg) mod groups_per_stage = 0,
       sg_partition_by_worker cfg,
       \<not> (g < n \<and> sg_partition_size cfg \<noteq> g)])"

definition execution_checks :: "sampling_config \<Rightarrow> bool list" where
  "execution_checks cfg =
     [\<not> sg_auto_reset cfg, sg_execution_mode cfg = ''serial'', \<not> (sg_interpolation cfg \<or> sg_serial_smoothing cfg)]"

definition new_grfpo_trainer :: "sampling_config \<Rightarrow> unit result" where
  "new_grfpo_trainer cfg =
     bind_res (grfpo_post_init (sg_trainer cfg)) (\<lambda>_.
     bind_res (validate_fastwam_rollout_temperature cfg) (\<lambda>_.
     bind_res (require (list_all id (critic_checks cfg)) ValueError) (\<lambda>_.
       if gc_advantage_estimator (sg_trainer cfg) \<noteq> ''grpo_outcome'' then Inr ()
       else
         bind_res (candidate_groups_per_stage cfg) (\<lambda>gps.
         bind_res (require (gc_concurrent_candidate_groups (sg_trainer cfg) \<le> sg_stage_num cfg * gps) ValueError) (\<lambda>_.
         bind_res
           (if gc_candidate_group_partition (sg_trainer cfg) \<noteq> ''worker_stage'' then Inr ()
            else if gps = 0 then Inl ZeroDivisionError
            else require (list_all id (worker_stage_checks cfg gps)) ValueError) (\<lambda>_.
           require (list_all id (execution_checks cfg)) ValueError))))))"

section \<open>Collecting candidate groups\<close>

record ('s, 'e, 'b, 'w) cluster_ops =
  co_rollout :: "nat option \<Rightarrow> ('s, rollout \<times> 'e) stm"
  co_end_len :: "'e \<Rightarrow> nat"
  co_chunk :: "nat \<Rightarrow> rollout \<Rightarrow> rollout list"
  co_chunk_end :: "nat \<Rightarrow> 'e \<Rightarrow> 'e list"
  co_concat :: "rollout list \<Rightarrow> rollout"
  co_concat_end :: "'e list \<Rightarrow> 'e"
  co_begin_collection :: "('s, unit) stm"
  co_end_collection :: "('s, unit) stm"
  co_train :: "'b \<Rightarrow> ('s, unit) stm"
  co_eval :: "('s, unit) stm"
  co_weights :: "'s \<Rightarrow> 'w"
  co_restore :: "'w \<Rightarrow> 's \<Rightarrow> 's"

text \<open>A candidate as its evidence record describes it.\<close>

record candidate =
  cd_group :: group_record
  cd_intended_update :: nat
  cd_attempt :: nat
  cd_next_policy_seed_cursor :: int
  cd_slots_reserved :: int
  cd_task_name :: string
  cd_schedule_slot :: nat
  cd_collection_attempt_id :: string
  cd_selected :: bool
  cd_rejection_reason :: "string option"
  cd_selection_reason :: "string option"
  cd_spool_path :: "string list option"

definition candidate_group_id :: "sampling_config \<Rightarrow> nat \<Rightarrow> nat \<Rightarrow> string" where
  "candidate_group_id cfg policy count =
     ''run-'' @ sg_run_id cfg @ ''/policy-'' @ pad4 policy @ ''/candidate-'' @ pad4 count"

definition reward_source_of :: "string \<Rightarrow> reward_source" where
  "reward_source_of s =
     (if s = ''binary_success'' then Binary_Success else if s = ''process_score'' then Process_Score else Other_Source s)"

definition criterion_of :: "string \<Rightarrow> criterion" where
  "criterion_of s =
     (if s = ''binary_success'' then C_Binary_Success else if s = ''full_success_mixed'' then C_Full_Success_Mixed
      else if s = ''reward_variance'' then C_Reward_Variance else Other_Criterion s)"

definition group_options_of :: "sampling_config \<Rightarrow> nat \<Rightarrow> string \<Rightarrow> group_options" where
  "group_options_of cfg policy gid =
     (let tc = sg_trainer cfg in
      \<lparr>o_group_size = gc_group_size tc, o_group_id = gid, o_version = int policy,
       o_source = reward_source_of (gc_group_reward_source tc),
       o_criterion = criterion_of (gc_informative_group_criterion tc),
       o_min_partial = gc_min_partial_trajectories_for_score_only_group tc,
       o_threshold = gc_partial_score_threshold tc, o_suite = None, o_layouts = None\<rparr>)"

definition new_candidate :: "group_record \<Rightarrow> nat \<Rightarrow> nat \<Rightarrow> int \<Rightarrow> int \<Rightarrow> candidate" where
  "new_candidate g update attempt reserved next_seed =
     \<lparr>cd_group = g, cd_intended_update = update, cd_attempt = attempt, cd_next_policy_seed_cursor = next_seed,
      cd_slots_reserved = reserved, cd_task_name = [], cd_schedule_slot = 0, cd_collection_attempt_id = [],
      cd_selected = False, cd_rejection_reason = None, cd_selection_reason = None, cd_spool_path = None\<rparr>"

text \<open>
  One group from as many rollouts as it takes: every rollout is a wave of trajectories, and the
  waves must fill the group exactly.
\<close>

function collect_waves ::
  "('s, 'e, 'b, 'w) cluster_ops \<Rightarrow> nat \<Rightarrow> (rollout \<times> 'e) list \<Rightarrow> ('s, (rollout \<times> 'e) list) stm" where
  "collect_waves ops missing parts s =
     (if missing = 0 then (Inr parts, s)
      else
        case co_rollout ops None s of
          (Inl e, s') \<Rightarrow> (Inl e, s')
        | (Inr (r, e), s') \<Rightarrow>
            if ro_len r = 0 \<or> missing < ro_len r then (Inl ValueError, s')
            else collect_waves ops (missing - ro_len r) (parts @ [(r, e)]) s')"
  by pat_completeness auto

termination collect_waves
  by (relation "measure (\<lambda>(ops, missing, parts, s). missing)") auto

declare collect_waves.simps [simp del]

definition collect_candidate_group ::
  "(group_key \<Rightarrow> string) \<Rightarrow> sampling_config \<Rightarrow> ('s, 'e, 'b, 'w) cluster_ops \<Rightarrow> nat \<Rightarrow> nat \<Rightarrow> nat \<Rightarrow> nat \<Rightarrow>
   ('s, (rollout \<times> 'e \<times> candidate) list \<times> nat) stm" where
  "collect_candidate_group key_text cfg ops policy update attempt count =
     bnd (collect_waves ops (nat (group_size_of cfg)) []) (\<lambda>parts.
       let count' = Suc count;
           r = co_concat ops (map fst parts)
       in bnd (lift_res (validate_same_condition_group key_text
                 (group_options_of cfg policy (candidate_group_id cfg policy count')) r)) (\<lambda>(g, r').
            lift_res (Inr ([(r', co_concat_end ops (map snd parts),
              new_candidate g update attempt 1 (Max (set (g_policy_seeds g)) + 1))], count'))))"

text \<open>The groups of a batch, validated in stage-major order.\<close>

fun validate_groups ::
  "(group_key \<Rightarrow> string) \<Rightarrow> sampling_config \<Rightarrow> nat \<Rightarrow> nat \<Rightarrow> nat \<Rightarrow> (rollout \<times> 'e) list \<Rightarrow>
   (rollout \<times> 'e \<times> group_record) list result" where
  "validate_groups key_text cfg policy count i [] = Inr []"
| "validate_groups key_text cfg policy count i ((r, e) # groups) =
     bind_res (validate_same_condition_group key_text
       (group_options_of cfg policy (candidate_group_id cfg policy (count + Suc i))) r) (\<lambda>(g, r').
     bind_res (validate_groups key_text cfg policy count (Suc i) groups) (\<lambda>rest.
       Inr ((r', e, g) # rest)))"

definition contiguous_seeds :: "int list \<Rightarrow> int \<Rightarrow> bool" where
  "contiguous_seeds seeds n = (sort seeds = [Min (set seeds)..Min (set seeds) + n - 1])"

definition collect_candidate_groups ::
  "(group_key \<Rightarrow> string) \<Rightarrow> sampling_config \<Rightarrow> ('s, 'e, 'b, 'w) cluster_ops \<Rightarrow> nat \<Rightarrow> nat \<Rightarrow> nat \<Rightarrow> nat \<Rightarrow> nat \<Rightarrow>
   ('s, (rollout \<times> 'e \<times> candidate) list \<times> nat) stm" where
  "collect_candidate_groups key_text cfg ops policy update first_attempt count group_count =
     bnd (lift_res (candidate_groups_per_stage cfg)) (\<lambda>gps.
     bnd (lift_res (require (gps \<noteq> 0) ZeroDivisionError)) (\<lambda>_.
     bnd (lift_res (require (int group_count mod gps = 0) ValueError)) (\<lambda>_.
       let active = int group_count div gps; g = group_size_of cfg; total = int group_count * g in
     bnd (lift_res (require (1 \<le> active \<and> active \<le> sg_stage_num cfg) ValueError)) (\<lambda>_.
     bnd (co_rollout ops (Some (nat active))) (\<lambda>(r, e).
     bnd (lift_res (require (int (ro_len r) = total \<and> int (co_end_len ops e) = total) ValueError)) (\<lambda>_.
     bnd (lift_res (validate_groups key_text cfg policy count 0
            (zip (co_chunk ops group_count r) (co_chunk_end ops group_count e)))) (\<lambda>groups.
     bnd (lift_res (require (length (co_chunk ops group_count r) = length (co_chunk_end ops group_count e)) ValueError)) (\<lambda>_.
       let seeds = concat (map (\<lambda>(_, _, g). g_policy_seeds g) groups);
           reserved = sg_stage_num cfg * gps in
     bnd (lift_res (require (seeds \<noteq> []) ValueError)) (\<lambda>_.
     bnd (lift_res (require (contiguous_seeds seeds total) RuntimeError)) (\<lambda>_.
       lift_res (Inr
         (map (\<lambda>(i, r', e', gr). (r', e', new_candidate gr update (first_attempt + i) reserved
                                      (Min (set seeds) + reserved * g)))
              (zip [0..<length groups] groups),
          count + length groups))))))))))))"

end
