(* ===== verification/Grfpo_Trainer.thy ===== *)
theory Grfpo_Trainer
  imports Grfpo_Sampling
begin

text \<open>
  trainer/grfpo/grfpo_ray_trainer.py, second part: the training loop. A window of candidate groups
  is collected for every update; accepted groups are spooled and advertised in a line of evidence,
  and a small file says where the schedule goes on, so that a preempted process can resume.

  A process threads the state \<open>fit_state\<close>. Its fields \<open>ft_files\<close> (evidence), \<open>ft_spool\<close>,
  \<open>ft_resume\<close> and \<open>ft_checkpoint\<close> are on disk and survive it. A process may be killed at any durable
  write: \<open>ft_kill = Some k\<close> means that it completes \<open>k\<close> more of them; the kill is the
  result \<open>SystemExit\<close>, which nothing catches. A write is one step, as the code replaces files atomically; the
  append of a line of evidence is taken to be one as well. The main evidence is written but never
  read here; of its records and of the logged metrics nothing depends on the contents.
\<close>

section \<open>What is on disk\<close>

datatype evidence = Candidate_Group candidate | Window_Closed nat nat | Other_Record

record 'e spooled =
  so_rollout :: rollout
  so_end :: 'e
  so_group_id :: string
  so_intended_update :: nat
  so_policy_version :: int
  so_attempt :: nat
  so_group_size :: int
  so_base_path :: string
  so_base_sha256 :: string

record resume_state =
  rs_policy_version :: nat
  rs_intended_update :: nat
  rs_next_attempt :: nat
  rs_schedule_slot :: nat
  rs_case_cursor_start :: int
  rs_base_path :: string
  rs_base_sha256 :: string

type_synonym file_path = "string list"

text \<open>The counts that are accumulated over a run: candidates, mixed, informative, all failures, all successes.\<close>

record counters =
  ct_candidates :: nat
  ct_mixed :: nat
  ct_informative :: nat
  ct_all_failure :: nat
  ct_all_success :: nat

record ('s, 'e, 'w) fit_state =
  ft_cluster :: 's
  ft_files :: "(string \<times> evidence list) list"
  ft_spool :: "(file_path \<times> 'e spooled) list"
  ft_resume :: "resume_state option"
  ft_checkpoint :: "(nat \<times> 'w) option"
  ft_kill :: "nat option"
  ft_steps :: nat
  ft_count :: nat
  ft_slot :: nat
  ft_counters :: counters

type_synonym ('s, 'e, 'w, 'a) fit = "(('s, 'e, 'w) fit_state, 'a) stm"

definition durably ::
  "(('s, 'e, 'w) fit_state \<Rightarrow> ('s, 'e, 'w) fit_state) \<Rightarrow> ('s, 'e, 'w, unit) fit" where
  "durably f s =
     (case ft_kill s of
        None \<Rightarrow> (Inr (), f s)
      | Some 0 \<Rightarrow> (Inl SystemExit, s)
      | Some (Suc k) \<Rightarrow> (Inr (), f (s\<lparr>ft_kill := Some k\<rparr>)))"

definition on_cluster :: "('s, 'a) stm \<Rightarrow> ('s, 'e, 'w, 'a) fit" where
  "on_cluster m s = (case m (ft_cluster s) of (r, c) \<Rightarrow> (r, s\<lparr>ft_cluster := c\<rparr>))"

section \<open>Evidence\<close>

text \<open>\<open>path_value\<close> of \<open>_append_evidence\<close> and \<open>_read_evidence\<close>.\<close>

definition evidence_path :: "sampling_config \<Rightarrow> bool \<Rightarrow> string option" where
  "evidence_path cfg cand =
     (let main = (if truthy_str (sg_evidence_jsonl cfg) then sg_evidence_jsonl cfg else None) in
      if cand \<and> truthy_str (sg_candidate_evidence_jsonl cfg) then sg_candidate_evidence_jsonl cfg else main)"

definition lines_of :: "('s, 'e, 'w) fit_state \<Rightarrow> string \<Rightarrow> evidence list" where
  "lines_of s p = (case map_of (ft_files s) p of None \<Rightarrow> [] | Some ls \<Rightarrow> ls)"

definition append_evidence :: "sampling_config \<Rightarrow> bool \<Rightarrow> evidence \<Rightarrow> ('s, 'e, 'w, unit) fit" where
  "append_evidence cfg cand r =
     (case evidence_path cfg cand of
        None \<Rightarrow> lift_res (Inr ())
      | Some p \<Rightarrow> durably (\<lambda>s. s\<lparr>ft_files := AList.update p (lines_of s p @ [r]) (ft_files s)\<rparr>))"

definition read_evidence :: "sampling_config \<Rightarrow> bool \<Rightarrow> ('s, 'e, 'w) fit_state \<Rightarrow> evidence list" where
  "read_evidence cfg cand s = (case evidence_path cfg cand of None \<Rightarrow> [] | Some p \<Rightarrow> lines_of s p)"

text \<open>The candidates of the window that is still open.\<close>

fun resumed :: "nat \<Rightarrow> nat \<Rightarrow> candidate list \<Rightarrow> evidence list \<Rightarrow> candidate list" where
  "resumed update policy records [] = records"
| "resumed update policy records (Candidate_Group c # ls) =
     resumed update policy
       (if cd_intended_update c = update \<and> g_version (cd_group c) = int policy then records @ [c] else records) ls"
| "resumed update policy records (Window_Closed u v # ls) =
     resumed update policy (if u = update \<and> v = policy then [] else records) ls"
| "resumed update policy records (Other_Record # ls) = resumed update policy records ls"

definition resume_candidate_records :: "sampling_config \<Rightarrow> nat \<Rightarrow> ('s, 'e, 'w) fit_state \<Rightarrow> candidate list" where
  "resume_candidate_records cfg update s = resumed update (ft_steps s) [] (read_evidence cfg True s)"

fun candidates_of :: "evidence list \<Rightarrow> candidate list" where
  "candidates_of [] = []"
| "candidates_of (Candidate_Group c # ls) = c # candidates_of ls"
| "candidates_of (_ # ls) = candidates_of ls"

definition count_if :: "('a \<Rightarrow> bool) \<Rightarrow> 'a list \<Rightarrow> nat" where
  "count_if P xs = length (filter P xs)"

definition historical_counters :: "candidate list \<Rightarrow> counters" where
  "historical_counters cs =
     \<lparr>ct_candidates = length cs,
      ct_mixed = count_if (\<lambda>c. g_binary_mixed (cd_group c)) cs,
      ct_informative = count_if (\<lambda>c. g_informative (cd_group c)) cs,
      ct_all_failure = count_if (\<lambda>c. cd_rejection_reason c = Some ''all_failure'') cs,
      ct_all_success = count_if (\<lambda>c. cd_rejection_reason c = Some ''all_success'') cs\<rparr>"

section \<open>The spool\<close>

definition candidate_spool_root :: "sampling_config \<Rightarrow> file_path option" where
  "candidate_spool_root cfg =
     (case gc_candidate_spool_dir (sg_trainer cfg) of None \<Rightarrow> None | Some d \<Rightarrow> if d = [] then None else Some [d])"

definition spool_window :: "nat \<Rightarrow> nat \<Rightarrow> string" where
  "spool_window update policy = ''update_'' @ pad4 update @ ''_theta_'' @ pad4 policy"

definition spool_path :: "(string \<Rightarrow> string) \<Rightarrow> file_path \<Rightarrow> candidate \<Rightarrow> file_path" where
  "spool_path digest rt c =
     rt @ [spool_window (cd_intended_update c) (nat (g_version (cd_group c))),
             ''candidate_'' @ pad4 (cd_attempt c) @ ''_'' @ digest (g_group_id (cd_group c))]"

definition spooled_as :: "sampling_config \<Rightarrow> candidate \<Rightarrow> rollout \<Rightarrow> 'e \<Rightarrow> 'e spooled" where
  "spooled_as cfg c r e =
     \<lparr>so_rollout = r, so_end = e, so_group_id = g_group_id (cd_group c), so_intended_update = cd_intended_update c,
      so_policy_version = g_version (cd_group c), so_attempt = cd_attempt c, so_group_size = group_size_of cfg,
      so_base_path = sg_base_path cfg, so_base_sha256 = sg_base_sha256 cfg\<rparr>"

definition persist_accepted_candidate ::
  "(string \<Rightarrow> string) \<Rightarrow> sampling_config \<Rightarrow> rollout \<Rightarrow> 'e \<Rightarrow> candidate \<Rightarrow> ('s, 'e, 'w, candidate) fit" where
  "persist_accepted_candidate digest cfg r e c =
     (case candidate_spool_root cfg of
        None \<Rightarrow> lift_res (Inr c)
      | Some rt \<Rightarrow>
          let p = spool_path digest rt c in
          reading (\<lambda>s. if map_of (ft_spool s) p \<noteq> None then lift_res (Inl FileExistsError)
            else bnd (durably (\<lambda>s. s\<lparr>ft_spool := AList.update p (spooled_as cfg c r e) (ft_spool s)\<rparr>)) (\<lambda>_.
                   lift_res (Inr (c\<lparr>cd_spool_path := Some p\<rparr>)))))"

definition spool_matches :: "sampling_config \<Rightarrow> candidate \<Rightarrow> 'e spooled \<Rightarrow> bool" where
  "spool_matches cfg c x \<longleftrightarrow>
     so_group_id x = g_group_id (cd_group c) \<and> so_intended_update x = cd_intended_update c \<and>
     so_policy_version x = g_version (cd_group c) \<and> so_attempt x = cd_attempt c \<and>
     so_group_size x = group_size_of cfg \<and> so_base_path x = sg_base_path cfg \<and> so_base_sha256 x = sg_base_sha256 cfg"

definition load_spooled_candidate ::
  "sampling_config \<Rightarrow> ('e \<Rightarrow> nat) \<Rightarrow> ('s, 'e, 'w) fit_state \<Rightarrow> candidate \<Rightarrow> (rollout \<times> 'e \<times> candidate) result" where
  "load_spooled_candidate cfg end_len s c =
     (case cd_spool_path c of
        None \<Rightarrow> Inl RuntimeError
      | Some p \<Rightarrow>
          (case candidate_spool_root cfg of
             None \<Rightarrow> Inl RuntimeError
           | Some rt \<Rightarrow>
               if take (length rt) p \<noteq> rt then Inl RuntimeError
               else
                 (case map_of (ft_spool s) p of
                    None \<Rightarrow> Inl RuntimeError
                  | Some x \<Rightarrow>
                      if \<not> spool_matches cfg c x then Inl RuntimeError
                      else if int (ro_len (so_rollout x)) \<noteq> group_size_of cfg \<or> int (end_len (so_end x)) \<noteq> group_size_of cfg
                        then Inl RuntimeError
                      else Inr (so_rollout x, so_end x, c))))"

definition cleanup_candidate_spool_window :: "sampling_config \<Rightarrow> nat \<Rightarrow> nat \<Rightarrow> ('s, 'e, 'w, unit) fit" where
  "cleanup_candidate_spool_window cfg update policy =
     (case candidate_spool_root cfg of
        None \<Rightarrow> lift_res (Inr ())
      | Some rt \<Rightarrow>
          durably (\<lambda>s. s\<lparr>ft_spool :=
            filter (\<lambda>(p, _). take (length rt + 1) p \<noteq> rt @ [spool_window update policy]) (ft_spool s)\<rparr>))"

section \<open>The resume state\<close>

definition groups_per_wave :: "sampling_config \<Rightarrow> int result" where
  "groups_per_wave cfg = bind_res (candidate_groups_per_stage cfg) (\<lambda>gps. Inr (sg_stage_num cfg * gps))"

definition write_candidate_resume_state :: "sampling_config \<Rightarrow> nat \<Rightarrow> nat \<Rightarrow> nat \<Rightarrow> nat \<Rightarrow> ('s, 'e, 'w, unit) fit" where
  "write_candidate_resume_state cfg policy update next_attempt slot =
     (if \<not> truthy_str (gc_candidate_resume_state_path (sg_trainer cfg)) then lift_res (Inr ())
      else
        bnd (lift_res (groups_per_wave cfg)) (\<lambda>width.
        bnd (lift_res (require (width \<noteq> 0) ZeroDivisionError)) (\<lambda>_.
        bnd (lift_res (require (int slot mod width = 0) RuntimeError)) (\<lambda>_.
          durably (\<lambda>s. s\<lparr>ft_resume := Some
            \<lparr>rs_policy_version = policy, rs_intended_update = update, rs_next_attempt = next_attempt,
             rs_schedule_slot = slot, rs_case_cursor_start = int slot div width * sg_num_envs cfg,
             rs_base_path = sg_base_path cfg, rs_base_sha256 = sg_base_sha256 cfg\<rparr>\<rparr>)))))"

definition read_candidate_resume_state :: "sampling_config \<Rightarrow> ('s, 'e, 'w) fit_state \<Rightarrow> resume_state option result" where
  "read_candidate_resume_state cfg s =
     (if \<not> truthy_str (gc_candidate_resume_state_path (sg_trainer cfg)) then Inr None
      else
        case ft_resume s of
          None \<Rightarrow> Inr None
        | Some rs \<Rightarrow>
            if rs_base_path rs \<noteq> sg_base_path cfg \<or> rs_base_sha256 rs \<noteq> sg_base_sha256 cfg then Inl RuntimeError
            else Inr (Some rs))"

section \<open>Collecting the window of an update\<close>

text \<open>What belongs to a process and never changes.\<close>

record ('s, 'e, 'b, 'w) fit_setup =
  su_cfg :: sampling_config
  su_ops :: "('s, 'e, 'b, 'w) cluster_ops"
  su_key_text :: "group_key \<Rightarrow> string"
  su_digest :: "string \<Rightarrow> string"
  su_prepare :: "(rollout \<times> 'e \<times> candidate) list \<Rightarrow> 'b result"

abbreviation tcfg :: "('s, 'e, 'b, 'w) fit_setup \<Rightarrow> grfpo_config" where
  "tcfg su \<equiv> sg_trainer (su_cfg su)"

type_synonym 'e group_data = "rollout \<times> 'e \<times> candidate"

definition reason_text :: "reason \<Rightarrow> string" where
  "reason_text x =
     (case x of
        Mixed_Full_Success \<Rightarrow> ''mixed_full_success''
      | Not_Mixed_Full_Success \<Rightarrow> ''not_mixed_full_success''
      | Score_Variance_With_Full_Success \<Rightarrow> ''score_variance_with_full_success''
      | Score_Variance_Partial_Only \<Rightarrow> ''score_variance_partial_only''
      | Partial_Only_Below_Minimum \<Rightarrow> ''partial_only_below_minimum''
      | Zero_Training_Reward_Variance \<Rightarrow> ''zero_training_reward_variance'')"

definition planned_layouts :: "sampling_config \<Rightarrow> nat \<Rightarrow> nat \<Rightarrow> int list result" where
  "planned_layouts cfg slot group_count =
     (let schedule = rd_train_layout_schedule (sg_robodojo cfg) in
      if schedule = [] \<and> group_count \<noteq> 0 then Inl ZeroDivisionError
      else Inr (map (\<lambda>i. schedule ! ((slot + i) mod length schedule)) [0..<group_count]))"

definition key_task_id :: "group_key \<Rightarrow> int" where "key_task_id k = fst k"

definition key_layout_id :: "group_key \<Rightarrow> int" where "key_layout_id k = fst (snd (snd (snd k)))"

text \<open>The record of a group that has been checked against the plan.\<close>

definition judged :: "sampling_config \<Rightarrow> string \<Rightarrow> string \<Rightarrow> nat \<Rightarrow> nat \<Rightarrow> candidate \<Rightarrow> candidate" where
  "judged cfg collection_id task slot accepted c =
     (let g = cd_group c; selected = (g_informative g \<and> int accepted < gc_accepted_groups_per_update (sg_trainer cfg)) in
      c\<lparr>cd_task_name := task, cd_schedule_slot := slot, cd_collection_attempt_id := collection_id, cd_selected := selected,
        cd_selection_reason :=
          (if g_informative g \<and> \<not> selected then Some ''target_filled_by_concurrent_sibling'' else None),
        cd_rejection_reason :=
          (if g_informative g then None
           else if g_successes g = 0 then Some (reason_text (g_reason g)) else Some ''all_success'')\<rparr>)"

definition counted :: "candidate \<Rightarrow> counters \<Rightarrow> counters" where
  "counted c k =
     (let g = cd_group c; one = (\<lambda>b. if b then 1 else 0 :: nat) in
      \<lparr>ct_candidates = Suc (ct_candidates k), ct_mixed = ct_mixed k + one (g_binary_mixed g),
       ct_informative = ct_informative k + one (g_informative g),
       ct_all_failure = ct_all_failure k + one (\<not> g_informative g \<and> g_successes g = 0),
       ct_all_success = ct_all_success k + one (\<not> g_informative g \<and> g_successes g \<noteq> 0)\<rparr>)"

definition take_candidate ::
  "('s, 'e, 'b, 'w) fit_setup \<Rightarrow> string \<Rightarrow> nat \<Rightarrow> int \<Rightarrow> string \<times> int \<Rightarrow> 'e group_data \<Rightarrow>
   candidate list \<times> 'e group_data list \<Rightarrow> ('s, 'e, 'w, candidate list \<times> 'e group_data list) fit" where
  "take_candidate su collection_id slot layout task = (\<lambda>(r, e, c) (records, accepted).
     bnd (lift_res (require (key_layout_id (g_key (cd_group c)) = layout) RuntimeError)) (\<lambda>_.
     bnd (lift_res (require (key_task_id (g_key (cd_group c)) = snd task) RuntimeError)) (\<lambda>_.
       let c1 = judged (su_cfg su) collection_id (fst task) slot (length accepted) c in
     bnd (upd (\<lambda>s. s\<lparr>ft_counters := counted c1 (ft_counters s)\<rparr>)) (\<lambda>_.
     bnd (if cd_selected c1 then persist_accepted_candidate (su_digest su) (su_cfg su) r e c1 else lift_res (Inr c1)) (\<lambda>c2.
     bnd (append_evidence (su_cfg su) True (Candidate_Group c2)) (\<lambda>_.
       lift_res (Inr (records @ [c2], if cd_selected c2 then accepted @ [(r, e, c2)] else accepted))))))))"

fun take_candidates ::
  "('s, 'e, 'b, 'w) fit_setup \<Rightarrow> string \<Rightarrow> nat \<Rightarrow> int list \<Rightarrow> (string \<times> int) list \<Rightarrow> 'e group_data list \<Rightarrow>
   candidate list \<times> 'e group_data list \<Rightarrow> ('s, 'e, 'w, candidate list \<times> 'e group_data list) fit" where
  "take_candidates su cid slot (layout # layouts) (task # tasks) (x # xs) acc =
     bnd (take_candidate su cid slot layout task x acc) (take_candidates su cid (Suc slot) layouts tasks xs)"
| "take_candidates su cid slot [] tasks xs acc = lift_res (Inr acc)"
| "take_candidates su cid slot layouts [] xs acc = lift_res (Inr acc)"
| "take_candidates su cid slot layouts tasks [] acc = lift_res (Inr acc)"

definition collect_groups ::
  "('s, 'e, 'b, 'w) fit_setup \<Rightarrow> nat \<Rightarrow> nat \<Rightarrow> nat \<Rightarrow> ('s, 'e, 'w, 'e group_data list) fit" where
  "collect_groups su update attempt group_count = reading (\<lambda>s.
     let cfg = su_cfg su in
     bnd (lift_res (candidate_groups_per_stage cfg)) (\<lambda>gps.
     bnd (if 1 < sg_stage_num cfg \<or> 1 < gps then
            on_cluster (collect_candidate_groups (su_key_text su) cfg (su_ops su) (ft_steps s) update attempt
              (ft_count s) group_count)
          else if group_count \<noteq> 1 then lift_res (Inl RuntimeError)
          else on_cluster (collect_candidate_group (su_key_text su) cfg (su_ops su) (ft_steps s) update attempt (ft_count s)))
       (\<lambda>(groups, count).
     bnd (upd (\<lambda>s. s\<lparr>ft_count := count\<rparr>)) (\<lambda>_.
     bnd (lift_res (require (length groups = group_count) RuntimeError)) (\<lambda>_.
       lift_res (Inr groups))))))"

text \<open>One batch: plan, collect, check and record every group, then save where to go on.\<close>

definition collect_batch ::
  "('s, 'e, 'b, 'w) fit_setup \<Rightarrow> string \<Rightarrow> nat \<Rightarrow> nat \<Rightarrow> nat \<Rightarrow> candidate list \<times> 'e group_data list \<Rightarrow>
   ('s, 'e, 'w, candidate list \<times> 'e group_data list) fit" where
  "collect_batch su cid update attempt group_count acc = reading (\<lambda>s.
     let cfg = su_cfg su; slot = ft_slot s in
     bnd (lift_res (planned_layouts cfg slot group_count)) (\<lambda>layouts.
     bnd (lift_res (candidate_task_assignments cfg group_count)) (\<lambda>tasks.
     bnd (collect_groups su update attempt group_count) (\<lambda>groups.
     bnd (take_candidates su cid slot layouts tasks groups acc) (\<lambda>acc'.
     bnd (lift_res (groups_per_wave cfg)) (\<lambda>width.
     bnd (upd (\<lambda>s. s\<lparr>ft_slot := slot + nat width\<rparr>)) (\<lambda>_.
     bnd (write_candidate_resume_state cfg (ft_steps s) update (attempt + group_count) (slot + nat width)) (\<lambda>_.
       lift_res (Inr acc')))))))))"

definition next_batch_size :: "sampling_config \<Rightarrow> nat \<Rightarrow> nat \<Rightarrow> int result" where
  "next_batch_size cfg attempt accepted =
     bind_res (candidate_groups_per_stage cfg) (\<lambda>gps.
       quantized_candidate_batch_size (gc_concurrent_candidate_groups (sg_trainer cfg))
         (gc_max_candidate_groups_per_update (sg_trainer cfg) - int attempt + 1)
         (gc_accepted_groups_per_update (sg_trainer cfg) - int accepted) gps)"

definition window_open :: "sampling_config \<Rightarrow> nat \<Rightarrow> nat \<Rightarrow> bool" where
  "window_open cfg attempt accepted \<longleftrightarrow>
     int attempt \<le> gc_max_candidate_groups_per_update (sg_trainer cfg) \<and>
     int accepted < gc_accepted_groups_per_update (sg_trainer cfg)"

function collect_window ::
  "('s, 'e, 'b, 'w) fit_setup \<Rightarrow> string \<Rightarrow> nat \<Rightarrow> nat \<Rightarrow> candidate list \<times> 'e group_data list \<Rightarrow>
   ('s, 'e, 'w, candidate list \<times> 'e group_data list) fit" where
  "collect_window su cid update attempt acc s =
     (if \<not> window_open (su_cfg su) attempt (length (snd acc)) then (Inr acc, s)
      else
        case next_batch_size (su_cfg su) attempt (length (snd acc)) of
          Inl e \<Rightarrow> (Inl e, s)
        | Inr n \<Rightarrow>
            if n \<le> 0 then (Inr acc, s)
            else
              (case collect_batch su cid update attempt (nat n) acc s of
                 (Inl e, s') \<Rightarrow> (Inl e, s')
               | (Inr acc', s') \<Rightarrow>
                   if optional_refill_is_unnecessary (int (length (fst acc'))) (int (length (snd acc')))
                        (gc_initial_candidate_groups_per_update (tcfg su))
                        (gc_accepted_groups_before_optional_refill (tcfg su)) then (Inr acc', s')
                   else collect_window su cid update (attempt + nat n) acc' s'))"
  by pat_completeness auto

termination collect_window
  by (relation "measure (\<lambda>(su, cid, update, attempt, acc, s).
        nat (gc_max_candidate_groups_per_update (tcfg su) + 1 - int attempt))")
    (auto simp: window_open_def)

declare collect_window.simps [simp del]

section \<open>The training loop\<close>

definition every :: "int \<Rightarrow> nat \<Rightarrow> int \<Rightarrow> bool" where
  "every freq steps total_steps \<longleftrightarrow> 0 < freq \<and> (int steps = total_steps \<or> int steps mod freq = 0)"

definition save_when_due :: "('s, 'e, 'b, 'w) fit_setup \<Rightarrow> ('s, 'e, 'w, unit) fit" where
  "save_when_due su = reading (\<lambda>s.
     if every (gc_save_freq (tcfg su)) (ft_steps s) (gc_total_training_steps (tcfg su)) then
       durably (\<lambda>s. s\<lparr>ft_checkpoint := Some (ft_steps s, co_weights (su_ops su) (ft_cluster s))\<rparr>)
     else lift_res (Inr ()))"

definition evaluate_when_due :: "('s, 'e, 'b, 'w) fit_setup \<Rightarrow> ('s, 'e, 'w, unit) fit" where
  "evaluate_when_due su = reading (\<lambda>s.
     if every (sg_test_freq (su_cfg su)) (ft_steps s) (gc_total_training_steps (tcfg su)) then
       bnd (on_cluster (co_eval (su_ops su))) (\<lambda>_.
       bnd (lift_res (groups_per_wave (su_cfg su))) (\<lambda>width.
       bnd (lift_res (candidate_schedule_slot_after_fixed_eval (int (ft_slot s)) width)) (\<lambda>slot.
       bnd (upd (\<lambda>s. s\<lparr>ft_slot := nat slot\<rparr>)) (\<lambda>_.
         append_evidence (su_cfg su) False Other_Record))))
     else lift_res (Inr ()))"

text \<open>Closing a window: its line of evidence, the spool, and where the next window starts.\<close>

definition close_window :: "('s, 'e, 'b, 'w) fit_setup \<Rightarrow> nat \<Rightarrow> nat \<Rightarrow> nat \<Rightarrow> nat \<Rightarrow> ('s, 'e, 'w, unit) fit" where
  "close_window su update policy next_policy next_update =
     bnd (append_evidence (su_cfg su) False Other_Record) (\<lambda>_.
     bnd (append_evidence (su_cfg su) True (Window_Closed update policy)) (\<lambda>_.
     bnd (cleanup_candidate_spool_window (su_cfg su) update policy) (\<lambda>_.
       reading (\<lambda>s. write_candidate_resume_state (su_cfg su) next_policy next_update 1 (ft_slot s)))))"

definition update_policy :: "('s, 'e, 'b, 'w) fit_setup \<Rightarrow> nat \<Rightarrow> 'e group_data list \<Rightarrow> ('s, 'e, 'w, unit) fit" where
  "update_policy su update accepted = reading (\<lambda>s.
     let policy = ft_steps s in
     bnd (lift_res (require (set (map (\<lambda>(_, _, c). g_version (cd_group c)) accepted) = {int policy}) RuntimeError)) (\<lambda>_.
     bnd (lift_res (require (list_all (\<lambda>(r, _, _). int (ro_len r) = group_size_of (su_cfg su)) accepted) RuntimeError)) (\<lambda>_.
     bnd (lift_res (su_prepare su accepted)) (\<lambda>batch.
     bnd (on_cluster (co_train (su_ops su) batch)) (\<lambda>_.
     bnd (upd (\<lambda>s. s\<lparr>ft_steps := update\<rparr>)) (\<lambda>_.
     bnd (save_when_due su) (\<lambda>_.
     bnd (close_window su update policy update (Suc update)) (\<lambda>_.
       evaluate_when_due su))))))))"

definition finally_do :: "('s, 'a) stm \<Rightarrow> ('s, unit) stm \<Rightarrow> ('s, 'a) stm" where
  "finally_do m fin s =
     (case m s of (r, s') \<Rightarrow> (case fin s' of (Inl e, s'') \<Rightarrow> (Inl e, s'') | (Inr _, s'') \<Rightarrow> (r, s'')))"

definition collect_for_update ::
  "('s, 'e, 'b, 'w) fit_setup \<Rightarrow> nat \<Rightarrow> nat \<Rightarrow> ('s, 'e, 'w, candidate list \<times> 'e group_data list) fit" where
  "collect_for_update su iteration update = reading (\<lambda>s.
     let records = resume_candidate_records (su_cfg su) update s;
         cid = ''run-'' @ sg_run_id (su_cfg su) @ ''/policy-'' @ pad4 (ft_steps s) @ ''/collection-'' @ pad4 iteration in
     bnd (lift_res (traverse (load_spooled_candidate (su_cfg su) (co_end_len (su_ops su)) s)
            (filter cd_selected records))) (\<lambda>accepted.
     bnd (on_cluster (co_begin_collection (su_ops su))) (\<lambda>_.
       finally_do (collect_window su cid update (Max (set (0 # map cd_attempt records)) + 1) (records, accepted))
         (on_cluster (co_end_collection (su_ops su))))))"

datatype outcome = Finished | Collected | Out_Of_Fuel

text \<open>What the loop does with a collected window; \<open>None\<close> goes on with the next one.\<close>

definition conclude_window ::
  "('s, 'e, 'b, 'w) fit_setup \<Rightarrow> nat \<Rightarrow> nat \<Rightarrow> 'e group_data list \<Rightarrow> ('s, 'e, 'w, outcome option) fit" where
  "conclude_window su update policy accepted =
     (if sg_collection_only (su_cfg su) then
        bnd (append_evidence (su_cfg su) False Other_Record) (\<lambda>_.
        bnd (append_evidence (su_cfg su) True (Window_Closed update policy)) (\<lambda>_. lift_res (Inr (Some Collected))))
      else if int (length accepted) < gc_min_accepted_groups_for_partial_update (tcfg su) then
        bnd (close_window su update policy policy update) (\<lambda>_. lift_res (Inr None))
      else bnd (update_policy su update accepted) (\<lambda>_. lift_res (Inr None)))"

text \<open>
  \<open>_fit_group_relative\<close>, whose loop goes on as long as windows bring too few informative groups:
  the fuel is the number of windows.
\<close>

fun fit_loop :: "('s, 'e, 'b, 'w) fit_setup \<Rightarrow> nat \<Rightarrow> nat \<Rightarrow> ('s, 'e, 'w, outcome) fit" where
  "fit_loop su 0 iteration =
     reading (\<lambda>s. lift_res (Inr (if int (ft_steps s) < gc_total_training_steps (tcfg su) then Out_Of_Fuel else Finished)))"
| "fit_loop su (Suc fuel) iteration = reading (\<lambda>s.
     if \<not> int (ft_steps s) < gc_total_training_steps (tcfg su) then lift_res (Inr Finished)
     else
       let policy = ft_steps s; update = Suc policy in
       bnd (collect_for_update su (Suc iteration) update) (\<lambda>(records, accepted).
       bnd (conclude_window su update policy accepted) (\<lambda>stop.
         case stop of Some out \<Rightarrow> lift_res (Inr out) | None \<Rightarrow> fit_loop su fuel (Suc iteration))))"

definition resume_schedule :: "('s, 'e, 'b, 'w) fit_setup \<Rightarrow> ('s, 'e, 'w, unit) fit" where
  "resume_schedule su = reading (\<lambda>s.
     let cfg = su_cfg su; history = candidates_of (read_evidence cfg True s) in
     bnd (lift_res (read_candidate_resume_state cfg s)) (\<lambda>resume.
     bnd (lift_res (case resume of None \<Rightarrow> Inr ()
            | Some rs \<Rightarrow> bind_res (require (rs_policy_version rs \<le> ft_steps s) RuntimeError) (\<lambda>_.
                require (rd_train_case_cursor_start (sg_robodojo cfg) = rs_case_cursor_start rs) RuntimeError))) (\<lambda>_.
     bnd (lift_res (require (\<not> (history \<noteq> [] \<and> candidate_spool_root cfg \<noteq> None \<and> resume = None)) RuntimeError)) (\<lambda>_.
       upd (\<lambda>s. s\<lparr>ft_slot := (case resume of None \<Rightarrow> 0 | Some rs \<Rightarrow> rs_schedule_slot rs),
                  ft_count := length history, ft_counters := historical_counters history\<rparr>)))))"

definition grfpo_fit :: "('s, 'e, 'b, 'w) fit_setup \<Rightarrow> nat \<Rightarrow> ('s, 'e, 'w, outcome) fit" where
  "grfpo_fit su fuel =
     bnd (upd (\<lambda>s. case ft_checkpoint s of None \<Rightarrow> s\<lparr>ft_steps := 0\<rparr>
            | Some (n, w) \<Rightarrow> s\<lparr>ft_steps := n, ft_cluster := co_restore (su_ops su) w (ft_cluster s)\<rparr>)) (\<lambda>_.
       if sg_val_only (su_cfg su) then
         bnd (on_cluster (co_eval (su_ops su))) (\<lambda>_.
         bnd (if truthy_str (sg_evidence_jsonl (su_cfg su)) then append_evidence (su_cfg su) False Other_Record
              else lift_res (Inr ())) (\<lambda>_. lift_res (Inr Finished)))
       else if sg_val_before_train (su_cfg su) then lift_res (Inl ValueError)
       else bnd (resume_schedule su) (\<lambda>_. fit_loop su fuel 0))"

text \<open>A new process on what is on disk, with simulators of its own.\<close>

definition run_process ::
  "('s, 'e, 'b, 'w) fit_setup \<Rightarrow> nat \<Rightarrow> 's \<Rightarrow> nat option \<Rightarrow> ('s, 'e, 'w, outcome) fit" where
  "run_process su fuel fresh kill s =
     grfpo_fit su fuel (s\<lparr>ft_cluster := fresh, ft_kill := kill, ft_steps := 0, ft_count := 0, ft_slot := 0,
       ft_counters := historical_counters []\<rparr>)"

end
