(* ===== verification/Grfpo_Trainer_Properties.thy ===== *)
theory Grfpo_Trainer_Properties
  imports Grfpo_Trainer
begin

text \<open>
  What a preempted GRFPO trainer may rely on. The invariant \<open>disk_ok\<close> of everything on disk holds
  whenever a process is killed; in it, the candidates of every open window are numbered from one,
  the selected ones are the first informative ones, and every selected one can be loaded.
\<close>

section \<open>Durable writes\<close>

lemma triple_durably:
  assumes "\<And>s k. P s \<Longrightarrow> Q () (f (s\<lparr>ft_kill := k\<rparr>))" and "\<And>s. P s \<Longrightarrow> Q () (f s)" and "\<And>s. P s \<Longrightarrow> E s"
  shows "triple P (durably f) Q E"
  using assms by (auto simp: triple_def durably_def split: option.split nat.split)

lemma triple_on_cluster:
  assumes "\<And>s c x. P s \<Longrightarrow> Q x (s\<lparr>ft_cluster := c\<rparr>)" and "\<And>s c. P s \<Longrightarrow> E (s\<lparr>ft_cluster := c\<rparr>)"
  shows "triple P (on_cluster m) Q E"
  using assms by (auto simp: triple_def on_cluster_def split: prod.split sum.split)

lemma triple_require: "(\<And>s. P s \<Longrightarrow> (b \<longrightarrow> Q () s) \<and> E s) \<Longrightarrow> triple P (lift_res (require b e)) Q E"
  by (auto simp: triple_def lift_res_def require_def)

lemma triple_return: "(\<And>s. P s \<Longrightarrow> Q x s) \<Longrightarrow> triple P (lift_res (Inr x)) Q E"
  by (simp add: triple_def lift_res_def)

lemma triple_res: "(\<And>s x. P s \<Longrightarrow> r = Inr x \<Longrightarrow> Q x s) \<Longrightarrow> (\<And>s. P s \<Longrightarrow> E s) \<Longrightarrow> triple P (lift_res r) Q E"
  by (cases r) (simp_all add: triple_def lift_res_def)

lemma triple_upd': "(\<And>s. P s \<Longrightarrow> Q () (g s)) \<Longrightarrow> triple P (upd g) Q E"
  by (simp add: triple_def upd_def)

lemma triple_conj: "(\<And>s. P s \<Longrightarrow> b) \<Longrightarrow> (b \<Longrightarrow> triple P m Q E) \<Longrightarrow> triple P m Q E"
  unfolding triple_def by metis

lemma triple_res_then:
  "(\<And>s. P s \<Longrightarrow> E s) \<Longrightarrow> (\<And>x. r = Inr x \<Longrightarrow> triple P (f x) Q E) \<Longrightarrow> triple P (bnd (lift_res r) f) Q E"
  by (cases r) (simp_all add: triple_def bnd_def lift_res_def)

lemma triple_guard_then:
  "(\<And>s. P s \<Longrightarrow> E s) \<Longrightarrow> (b \<Longrightarrow> triple P m Q E) \<Longrightarrow> triple P (bnd (lift_res (require b e)) (\<lambda>_. m)) Q E"
  by (rule triple_res_then) (auto simp: require_def split: if_splits)

lemma triple_upd_then: "(\<And>s. P s \<Longrightarrow> P (g s)) \<Longrightarrow> triple P m Q E \<Longrightarrow> triple P (bnd (upd g) (\<lambda>_. m)) Q E"
  by (simp add: triple_def bnd_def upd_def)

lemma triple_false: "triple (\<lambda>s. False) m Q E"
  by (simp add: triple_def)

section \<open>Open windows\<close>

abbreviation informative :: "candidate \<Rightarrow> bool" where
  "informative c \<equiv> g_informative (cd_group c)"

text \<open>Numbered from one, within the budget, and selected as long as the target is not reached.\<close>

definition window_ok :: "grfpo_config \<Rightarrow> candidate list \<Rightarrow> bool" where
  "window_ok tc records \<longleftrightarrow>
     map cd_attempt records = [1..<Suc (length records)] \<and>
     int (length records) \<le> gc_max_candidate_groups_per_update tc \<and>
     filter cd_selected records = take (nat (gc_accepted_groups_per_update tc)) (filter informative records)"

definition in_window :: "nat \<Rightarrow> nat \<Rightarrow> candidate \<Rightarrow> bool" where
  "in_window update policy c \<longleftrightarrow> cd_intended_update c = update \<and> g_version (cd_group c) = int policy"

lemma resumed_append:
  "resumed u v rs (ls @ [Candidate_Group c]) = (let rs' = resumed u v rs ls in if in_window u v c then rs' @ [c] else rs')"
  "resumed u v rs (ls @ [Window_Closed u' v']) = (if u' = u \<and> v' = v then [] else resumed u v rs ls)"
  "resumed u v rs (ls @ [Other_Record]) = resumed u v rs ls"
  by (induction u v rs ls rule: resumed.induct) (simp_all add: in_window_def Let_def)

lemma resumed_in_window: "c \<in> set (resumed u v rs ls) \<Longrightarrow> in_window u v c \<or> c \<in> set rs"
  by (induction u v rs ls rule: resumed.induct) (auto simp: in_window_def split: if_splits)

definition window_of :: "sampling_config \<Rightarrow> ('s, 'e, 'w) fit_state \<Rightarrow> nat \<Rightarrow> nat \<Rightarrow> candidate list" where
  "window_of cfg s u v = resumed u v [] (read_evidence cfg True s)"

lemma window_in_window: "c \<in> set (window_of cfg s u v) \<Longrightarrow> in_window u v c"
  using resumed_in_window [of c u v "[]"] by (simp add: window_of_def)

section \<open>The invariant of the disk\<close>

definition loadable :: "sampling_config \<Rightarrow> ('e \<Rightarrow> nat) \<Rightarrow> ('s, 'e, 'w) fit_state \<Rightarrow> candidate \<Rightarrow> bool" where
  "loadable cfg end_len s c \<longleftrightarrow>
     (case load_spooled_candidate cfg end_len s c of Inl e \<Rightarrow> False | Inr (r, e, c') \<Rightarrow> c' = c) \<and>
     (\<exists>rt name. candidate_spool_root cfg = Some rt \<and>
        cd_spool_path c = Some (rt @ [spool_window (cd_intended_update c) (nat (g_version (cd_group c))), name]))"

definition disk_ok :: "sampling_config \<Rightarrow> ('e \<Rightarrow> nat) \<Rightarrow> ('s, 'e, 'w) fit_state \<Rightarrow> bool" where
  "disk_ok cfg end_len s \<longleftrightarrow>
     (\<forall>u v. window_ok (sg_trainer cfg) (window_of cfg s u v) \<and>
       (\<forall>c \<in> set (window_of cfg s u v). cd_selected c \<longrightarrow> loadable cfg end_len s c))"

lemma disk_fields [simp]:
  "read_evidence cfg b (s\<lparr>ft_kill := k\<rparr>) = read_evidence cfg b s"
  "read_evidence cfg b (s\<lparr>ft_cluster := c\<rparr>) = read_evidence cfg b s"
  "read_evidence cfg b (s\<lparr>ft_spool := sp\<rparr>) = read_evidence cfg b s"
  "read_evidence cfg b (s\<lparr>ft_resume := rs\<rparr>) = read_evidence cfg b s"
  "read_evidence cfg b (s\<lparr>ft_checkpoint := cp\<rparr>) = read_evidence cfg b s"
  "read_evidence cfg b (s\<lparr>ft_steps := n\<rparr>) = read_evidence cfg b s"
  "read_evidence cfg b (s\<lparr>ft_count := n\<rparr>) = read_evidence cfg b s"
  "read_evidence cfg b (s\<lparr>ft_slot := n\<rparr>) = read_evidence cfg b s"
  "read_evidence cfg b (s\<lparr>ft_counters := ct\<rparr>) = read_evidence cfg b s"
  by (simp_all add: read_evidence_def lines_of_def split: option.split)

lemma load_spool_only: "ft_spool s' = ft_spool s \<Longrightarrow> load_spooled_candidate cfg el s' = load_spooled_candidate cfg el s"
  by (intro ext) (simp add: load_spooled_candidate_def split: option.split)

lemma disk_ok_cong:
  assumes "read_evidence cfg True s' = read_evidence cfg True s" and "ft_spool s' = ft_spool s"
  shows "disk_ok cfg el s' = disk_ok cfg el s"
  using load_spool_only [OF assms(2), of cfg el] assms(1) by (simp add: disk_ok_def window_of_def loadable_def)

lemma disk_ok_fields [simp]:
  "disk_ok cfg el (s\<lparr>ft_kill := k\<rparr>) = disk_ok cfg el s"
  "disk_ok cfg el (s\<lparr>ft_cluster := c\<rparr>) = disk_ok cfg el s"
  "disk_ok cfg el (s\<lparr>ft_resume := rs\<rparr>) = disk_ok cfg el s"
  "disk_ok cfg el (s\<lparr>ft_checkpoint := cp\<rparr>) = disk_ok cfg el s"
  "disk_ok cfg el (s\<lparr>ft_steps := n\<rparr>) = disk_ok cfg el s"
  "disk_ok cfg el (s\<lparr>ft_count := n\<rparr>) = disk_ok cfg el s"
  "disk_ok cfg el (s\<lparr>ft_slot := n\<rparr>) = disk_ok cfg el s"
  "disk_ok cfg el (s\<lparr>ft_counters := ct\<rparr>) = disk_ok cfg el s"
  by (rule disk_ok_cong; simp)+

subsection \<open>Lines of evidence\<close>

definition with_line :: "sampling_config \<Rightarrow> bool \<Rightarrow> evidence \<Rightarrow> ('s, 'e, 'w) fit_state \<Rightarrow> ('s, 'e, 'w) fit_state" where
  "with_line cfg cand r s =
     (case evidence_path cfg cand of None \<Rightarrow> s | Some p \<Rightarrow> s\<lparr>ft_files := AList.update p (lines_of s p @ [r]) (ft_files s)\<rparr>)"

lemma append_evidence_line:
  "append_evidence cfg cand r =
     (case evidence_path cfg cand of None \<Rightarrow> lift_res (Inr ()) | Some p \<Rightarrow> durably (with_line cfg cand r))"
  by (auto simp: append_evidence_def with_line_def lines_of_def split: option.split intro!: arg_cong [where f = durably])

lemma triple_append:
  assumes "\<And>s k. P s \<Longrightarrow> Q () (with_line cfg cand r (s\<lparr>ft_kill := k\<rparr>))" and "\<And>s. P s \<Longrightarrow> Q () (with_line cfg cand r s)"
    and "\<And>s. P s \<Longrightarrow> E s"
  shows "triple P (append_evidence cfg cand r) Q E"
proof (cases "evidence_path cfg cand")
  case None
  with assms(2) show ?thesis by (simp add: append_evidence_line triple_return with_line_def)
next
  case (Some p)
  then show ?thesis by (simp add: append_evidence_line) (rule triple_durably; use assms in simp)
qed

lemma read_with_line:
  assumes "evidence_path cfg True \<noteq> None"
  shows "read_evidence cfg True (with_line cfg True r s) = read_evidence cfg True s @ [r]"
    and "read_evidence cfg True (with_line cfg False r s) \<in> {read_evidence cfg True s, read_evidence cfg True s @ [r]}"
  using assms by (auto simp: read_evidence_def with_line_def lines_of_def update_conv' split: option.splits)

lemma with_line_fields [simp]:
  "ft_spool (with_line cfg b r s) = ft_spool s" "ft_steps (with_line cfg b r s) = ft_steps s"
  "ft_slot (with_line cfg b r s) = ft_slot s"
  by (simp_all add: with_line_def split: option.split)

lemma window_with_line:
  assumes "evidence_path cfg True \<noteq> None"
  shows "window_of cfg (with_line cfg True (Candidate_Group c) s) u v =
      (if in_window u v c then window_of cfg s u v @ [c] else window_of cfg s u v)"
    and "window_of cfg (with_line cfg True (Window_Closed u' v') s) u v = (if u' = u \<and> v' = v then [] else window_of cfg s u v)"
    and "window_of cfg (with_line cfg False Other_Record s) u v = window_of cfg s u v"
  using read_with_line [OF assms, of Other_Record s]
  by (auto simp: window_of_def resumed_append Let_def read_with_line(1) [OF assms])

lemma window_ok_Nil: "0 \<le> gc_max_candidate_groups_per_update tc \<Longrightarrow> window_ok tc []"
  by (simp add: window_ok_def)

subsection \<open>The spool\<close>

lemma map_of_filter_keys: "P k \<Longrightarrow> map_of (filter (\<lambda>(p, _). P p) kvs) k = map_of kvs k"
  by (induction kvs) auto

lemma load_Inr_iff:
  "load_spooled_candidate cfg el s c = Inr (r, e, c') \<longleftrightarrow>
     c' = c \<and> (\<exists>p rt x. cd_spool_path c = Some p \<and> candidate_spool_root cfg = Some rt \<and> take (length rt) p = rt \<and>
       map_of (ft_spool s) p = Some x \<and> spool_matches cfg c x \<and> r = so_rollout x \<and> e = so_end x \<and>
       int (ro_len r) = group_size_of cfg \<and> int (el e) = group_size_of cfg)"
  unfolding load_spooled_candidate_def
  by (cases "cd_spool_path c"; cases "candidate_spool_root cfg"; cases "map_of (ft_spool s) (the (cd_spool_path c))") auto

lemma load_fresh:
  assumes "map_of (ft_spool s) p = None" and "load_spooled_candidate cfg el s c = Inr y"
  shows "load_spooled_candidate cfg el (s\<lparr>ft_spool := AList.update p x (ft_spool s)\<rparr>) c = Inr y"
proof -
  obtain r e c' where y: "y = (r, e, c')" by (cases y)
  from assms(2) obtain q where "cd_spool_path c = Some q" "map_of (ft_spool s) q \<noteq> None"
    unfolding y load_Inr_iff by auto
  with assms(1) have "map_of (AList.update p x (ft_spool s)) q = map_of (ft_spool s) q"
    by (auto simp: update_conv')
  with assms(2) \<open>cd_spool_path c = Some q\<close> show ?thesis
    unfolding y load_Inr_iff by auto
qed

lemma loadable_fresh:
  "map_of (ft_spool s) p = None \<Longrightarrow> loadable cfg el s c \<Longrightarrow> loadable cfg el (s\<lparr>ft_spool := AList.update p x (ft_spool s)\<rparr>) c"
  using load_fresh [of s p cfg el c _ x]
  by (cases "load_spooled_candidate cfg el s c") (simp_all add: loadable_def)

lemma disk_ok_fresh:
  assumes "map_of (ft_spool s) p = None" and "disk_ok cfg el s"
  shows "disk_ok cfg el (s\<lparr>ft_spool := AList.update p x (ft_spool s)\<rparr>)"
  using assms loadable_fresh [OF assms(1), of cfg el _ x] by (simp add: disk_ok_def window_of_def)

lemma traverse_mono: "(\<And>c y. f c = Inr y \<Longrightarrow> g c = Inr y) \<Longrightarrow> traverse f cs = Inr ys \<Longrightarrow> traverse g cs = Inr ys"
  by (induction cs arbitrary: ys) (auto simp: res_simps)

lemma spool_window_inject [simp]: "spool_window u v = spool_window u' v' \<longleftrightarrow> u = u' \<and> v = v'"
proof
  assume eq: "spool_window u v = spool_window u' v'"
  have us: "CHR ''_'' \<notin> set (pad4 n)" for n
    using pad4_isdigit [of n] by (auto simp: str_isdigit_def list_all_iff isdigit_char_def)
  have "takeWhile (\<lambda>c. c \<noteq> CHR ''_'') (drop 7 (spool_window n m)) = pad4 n" for n m
    using us [of n] by (simp add: spool_window_def takeWhile_tail) (metis takeWhile_eq_all_conv)
  moreover from this eq have "pad4 u = pad4 u'" by metis
  ultimately show "u = u' \<and> v = v'" using eq by (simp add: spool_window_def)
qed simp

lemma disk_ok_cleanup:
  assumes "disk_ok cfg el s" and "candidate_spool_root cfg = Some rt" and "window_of cfg s u v = []"
  shows "disk_ok cfg el (s\<lparr>ft_spool := filter (\<lambda>(p, _). take (length rt + 1) p \<noteq> rt @ [spool_window u v]) (ft_spool s)\<rparr>)"
    (is "disk_ok cfg el ?s")
proof -
  have keep: "loadable cfg el ?s c" if c: "c \<in> set (window_of cfg s u' v')" and l: "loadable cfg el s c" for c u' v'
  proof -
    have w: "cd_intended_update c = u'" "nat (g_version (cd_group c)) = v'" "(u', v') \<noteq> (u, v)"
      using window_in_window [OF c] c assms(3) by (auto simp: in_window_def)
    obtain name where p: "cd_spool_path c = Some (rt @ [spool_window u' v', name])"
      using l assms(2) w by (auto simp: loadable_def)
    have "map_of (ft_spool ?s) (rt @ [spool_window u' v', name]) = map_of (ft_spool s) (rt @ [spool_window u' v', name])"
      using w(3) by (simp add: map_of_filter_keys)
    then have "load_spooled_candidate cfg el ?s c = load_spooled_candidate cfg el s c"
      using p by (simp add: load_spooled_candidate_def assms(2))
    with l show ?thesis by (simp add: loadable_def)
  qed
  then show ?thesis using assms(1) by (auto simp: disk_ok_def window_of_def)
qed

section \<open>What a process knows and what the disk says\<close>

text \<open>The settings under which a trainer can resume.\<close>

definition preemptible :: "sampling_config \<Rightarrow> bool" where
  "preemptible cfg \<longleftrightarrow> candidate_spool_root cfg \<noteq> None \<and> evidence_path cfg True \<noteq> None \<and>
     0 \<le> gc_max_candidate_groups_per_update (sg_trainer cfg)"

definition memory_is_disk ::
  "sampling_config \<Rightarrow> ('e \<Rightarrow> nat) \<Rightarrow> nat \<Rightarrow> nat \<Rightarrow> candidate list \<times> 'e group_data list \<Rightarrow> ('s, 'e, 'w) fit_state \<Rightarrow> bool" where
  "memory_is_disk cfg el u v acc s \<longleftrightarrow>
     disk_ok cfg el s \<and> ft_steps s = v \<and> window_of cfg s u v = fst acc \<and>
     traverse (load_spooled_candidate cfg el s) (filter cd_selected (fst acc)) = Inr (snd acc)"

lemma memory_cong:
  "read_evidence cfg True s' = read_evidence cfg True s \<Longrightarrow> ft_spool s' = ft_spool s \<Longrightarrow> ft_steps s' = ft_steps s \<Longrightarrow>
   memory_is_disk cfg el u v acc s' = memory_is_disk cfg el u v acc s"
  using disk_ok_cong [of cfg s' s el] load_spool_only [of s' s cfg el] by (simp add: memory_is_disk_def window_of_def)

lemma memory_fields [simp]:
  "memory_is_disk cfg el u v acc (s\<lparr>ft_kill := k\<rparr>) = memory_is_disk cfg el u v acc s"
  "memory_is_disk cfg el u v acc (s\<lparr>ft_cluster := c\<rparr>) = memory_is_disk cfg el u v acc s"
  "memory_is_disk cfg el u v acc (s\<lparr>ft_resume := rs\<rparr>) = memory_is_disk cfg el u v acc s"
  "memory_is_disk cfg el u v acc (s\<lparr>ft_count := n\<rparr>) = memory_is_disk cfg el u v acc s"
  "memory_is_disk cfg el u v acc (s\<lparr>ft_slot := n\<rparr>) = memory_is_disk cfg el u v acc s"
  "memory_is_disk cfg el u v acc (s\<lparr>ft_counters := ct\<rparr>) = memory_is_disk cfg el u v acc s"
  by (rule memory_cong; simp)+

lemma memory_disk: "memory_is_disk cfg el u v acc s \<Longrightarrow> disk_ok cfg el s"
  by (simp add: memory_is_disk_def)

lemma memory_lengths:
  assumes "memory_is_disk cfg el u v acc s"
  shows "length (snd acc) = length (filter cd_selected (fst acc))"
    and "window_ok (sg_trainer cfg) (fst acc)"
  using assms traverse_length [of "load_spooled_candidate cfg el s" "filter cd_selected (fst acc)" "snd acc"]
  by (simp_all add: memory_is_disk_def disk_ok_def) metis

lemma memory_spooled:
  assumes "memory_is_disk cfg el u v acc s" and "map_of (ft_spool s) p = None"
  shows "memory_is_disk cfg el u v acc (s\<lparr>ft_spool := AList.update p x (ft_spool s)\<rparr>)"
proof -
  have "traverse (load_spooled_candidate cfg el (s\<lparr>ft_spool := AList.update p x (ft_spool s)\<rparr>)) cs = Inr ys"
    if "traverse (load_spooled_candidate cfg el s) cs = Inr ys" for cs ys
    using load_fresh [OF assms(2)] that by (rule traverse_mono)
  with assms disk_ok_fresh [OF assms(2), of cfg el x] show ?thesis
    by (simp add: memory_is_disk_def window_of_def)
qed

definition whole :: "sampling_config \<Rightarrow> ('e \<Rightarrow> nat) \<Rightarrow> rollout \<Rightarrow> 'e \<Rightarrow> bool" where
  "whole cfg el r e \<longleftrightarrow> int (ro_len r) = group_size_of cfg \<and> int (el e) = group_size_of cfg"

lemma triple_persist:
  fixes e :: 'e
  assumes "candidate_spool_root cfg = Some rt" and "whole cfg el r e"
  shows "triple (memory_is_disk cfg el u v acc) (persist_accepted_candidate digest cfg r e c)
    (\<lambda>c' s. memory_is_disk cfg el u v acc s \<and> c' = c\<lparr>cd_spool_path := Some (spool_path digest rt c)\<rparr> \<and>
       load_spooled_candidate cfg el s c' = Inr (r, e, c'))
    (disk_ok cfg el)"
proof -
  let ?p = "spool_path digest rt c" and ?c = "c\<lparr>cd_spool_path := Some (spool_path digest rt c)\<rparr>"
  let ?w = "\<lambda>s :: ('s, 'e, 'w) fit_state. s\<lparr>ft_spool := AList.update ?p (spooled_as cfg c r e) (ft_spool s)\<rparr>"
  have loads: "load_spooled_candidate cfg el (?w s) ?c = Inr (r, e, ?c)" for s
    using assms by (simp add: load_Inr_iff whole_def spool_matches_def spooled_as_def spool_path_def update_conv')
  have wr: "triple (\<lambda>s. map_of (ft_spool s) ?p = None \<and> memory_is_disk cfg el u v acc s) (durably ?w)
      (\<lambda>_ s. memory_is_disk cfg el u v acc s \<and> load_spooled_candidate cfg el s ?c = Inr (r, e, ?c)) (disk_ok cfg el)"
  proof (rule triple_durably)
    fix s :: "('s, 'e, 'w) fit_state" and k
    assume P: "map_of (ft_spool s) ?p = None \<and> memory_is_disk cfg el u v acc s"
    then show "memory_is_disk cfg el u v acc (?w s) \<and> load_spooled_candidate cfg el (?w s) ?c = Inr (r, e, ?c)"
      using memory_spooled loads by blast
    from P have "map_of (ft_spool (s\<lparr>ft_kill := k\<rparr>)) ?p = None" "memory_is_disk cfg el u v acc (s\<lparr>ft_kill := k\<rparr>)" by simp_all
    then show "memory_is_disk cfg el u v acc (?w (s\<lparr>ft_kill := k\<rparr>)) \<and>
        load_spooled_candidate cfg el (?w (s\<lparr>ft_kill := k\<rparr>)) ?c = Inr (r, e, ?c)"
      using memory_spooled loads by blast
  qed (blast intro: memory_disk)
  show ?thesis
    unfolding persist_accepted_candidate_def assms(1) option.case Let_def
  proof (rule triple_reading, cases)
    fix s0 :: "('s, 'e, 'w) fit_state"
    assume none: "map_of (ft_spool s0) ?p = None"
    show "triple (\<lambda>s. s = s0 \<and> memory_is_disk cfg el u v acc s)
       (if map_of (ft_spool s0) ?p \<noteq> None then lift_res (Inl FileExistsError)
        else bnd (durably ?w) (\<lambda>_. lift_res (Inr ?c)))
       (\<lambda>c' s. memory_is_disk cfg el u v acc s \<and> c' = ?c \<and> load_spooled_candidate cfg el s c' = Inr (r, e, c'))
       (disk_ok cfg el)"
      using none by (simp, intro triple_bnd [OF triple_pre [OF wr]] triple_return) auto
  next
    fix s0 :: "('s, 'e, 'w) fit_state"
    assume some: "map_of (ft_spool s0) ?p \<noteq> None"
    then show "triple (\<lambda>s. s = s0 \<and> memory_is_disk cfg el u v acc s)
       (if map_of (ft_spool s0) ?p \<noteq> None then lift_res (Inl FileExistsError)
        else bnd (durably ?w) (\<lambda>_. lift_res (Inr ?c)))
       (\<lambda>c' s. memory_is_disk cfg el u v acc s \<and> c' = ?c \<and> load_spooled_candidate cfg el s c' = Inr (r, e, c'))
       (disk_ok cfg el)"
      by (auto simp: triple_def lift_res_def intro: memory_disk)
  qed
qed

section \<open>One candidate\<close>

lemma take_snoc_full: "length xs < n \<Longrightarrow> take n xs @ [y] = take n (xs @ [y])"
  by simp

lemma window_ok_snoc:
  assumes "window_ok tc records" and "int (length records) < gc_max_candidate_groups_per_update tc"
    and "cd_attempt c = Suc (length records)"
    and "cd_selected c \<longleftrightarrow> informative c \<and> int (length (filter cd_selected records)) < gc_accepted_groups_per_update tc"
  shows "window_ok tc (records @ [c])"
proof -
  let ?k = "nat (gc_accepted_groups_per_update tc)" and ?inf = "filter informative records"
  have sel: "filter cd_selected records = take ?k ?inf" using assms(1) by (simp add: window_ok_def)
  then have "int (length (filter cd_selected records)) < gc_accepted_groups_per_update tc \<longleftrightarrow> length ?inf < ?k" by auto
  with assms(4) sel have "filter cd_selected (records @ [c]) = take ?k (filter informative (records @ [c]))" by auto
  with assms(1-3) show ?thesis by (simp add: window_ok_def)
qed

lemma memory_advertised:
  assumes m: "memory_is_disk cfg el u v acc s" and "preemptible cfg"
    and c: "in_window u v c" "cd_attempt c = Suc (length (fst acc))"
    and "int (length (fst acc)) < gc_max_candidate_groups_per_update (sg_trainer cfg)"
    and sel: "cd_selected c \<longleftrightarrow> informative c \<and> int (length (snd acc)) < gc_accepted_groups_per_update (sg_trainer cfg)"
    and load: "cd_selected c \<Longrightarrow> load_spooled_candidate cfg el s c = Inr (r, e, c) \<and> loadable cfg el s c"
  shows "memory_is_disk cfg el u v (fst acc @ [c], if cd_selected c then snd acc @ [(r, e, c)] else snd acc)
           (with_line cfg True (Candidate_Group c) s)"
proof -
  let ?s = "with_line cfg True (Candidate_Group c) s"
  have path: "evidence_path cfg True \<noteq> None" using assms(2) by (simp add: preemptible_def)
  have same: "load_spooled_candidate cfg el ?s = load_spooled_candidate cfg el s" by (rule load_spool_only) simp
  have l: "loadable cfg el ?s = loadable cfg el s" by (intro ext) (simp add: loadable_def same)
  have ok: "window_ok (sg_trainer cfg) (fst acc @ [c])"
    using window_ok_snoc [OF memory_lengths(2) [OF m] assms(5) c(2)] sel memory_lengths(1) [OF m] by simp
  have w: "window_of cfg ?s u' v' = (if u' = u \<and> v' = v then fst acc @ [c] else window_of cfg s u' v')" for u' v'
    using m c(1) by (auto simp: window_with_line(1) [OF path] memory_is_disk_def in_window_def)
  have old: "\<forall>u' v'. window_ok (sg_trainer cfg) (window_of cfg s u' v')"
    "\<forall>u' v'. \<forall>x \<in> set (window_of cfg s u' v'). cd_selected x \<longrightarrow> loadable cfg el s x"
    and here: "window_of cfg s u v = fst acc"
    using m by (simp_all add: memory_is_disk_def disk_ok_def)
  from old(2) here have "\<forall>x \<in> set (fst acc). cd_selected x \<longrightarrow> loadable cfg el s x" by metis
  with old ok load have d: "disk_ok cfg el ?s"
    by (simp add: disk_ok_def w l)
  have t: "traverse (load_spooled_candidate cfg el s) (filter cd_selected (fst acc)) = Inr (snd acc)" "ft_steps s = v"
    using m by (simp_all add: memory_is_disk_def)
  show ?thesis
  proof (cases "cd_selected c")
    case True
    with load show ?thesis using d t by (simp add: memory_is_disk_def same w traverse_append)
  next
    case False
    then show ?thesis using d t by (simp add: memory_is_disk_def same w)
  qed
qed

definition group_fine ::
  "sampling_config \<Rightarrow> ('e \<Rightarrow> nat) \<Rightarrow> nat \<Rightarrow> nat \<Rightarrow> nat \<Rightarrow> 'e group_data \<Rightarrow> bool" where
  "group_fine cfg el u v a x = (case x of (r, e, c) \<Rightarrow> whole cfg el r e \<and> in_window u v c \<and> cd_attempt c = a)"

lemma judged_fields [simp]:
  "cd_group (judged cfg cid t slot n c) = cd_group c" "cd_attempt (judged cfg cid t slot n c) = cd_attempt c"
  "cd_intended_update (judged cfg cid t slot n c) = cd_intended_update c"
  "cd_selected (judged cfg cid t slot n c) \<longleftrightarrow> informative c \<and> int n < gc_accepted_groups_per_update (sg_trainer cfg)"
  "in_window u v (judged cfg cid t slot n c) = in_window u v c"
  by (simp_all add: judged_def Let_def in_window_def)

text \<open>What is known of a candidate between its spool and its line of evidence.\<close>

definition advertisable ::
  "sampling_config \<Rightarrow> ('e \<Rightarrow> nat) \<Rightarrow> nat \<Rightarrow> nat \<Rightarrow> candidate list \<times> 'e group_data list \<Rightarrow> rollout \<Rightarrow> 'e \<Rightarrow> candidate \<Rightarrow>
   ('s, 'e, 'w) fit_state \<Rightarrow> bool" where
  "advertisable cfg el u v acc r e c s \<longleftrightarrow>
     memory_is_disk cfg el u v acc s \<and> in_window u v c \<and> cd_attempt c = Suc (length (fst acc)) \<and>
     (cd_selected c \<longleftrightarrow> informative c \<and> int (length (snd acc)) < gc_accepted_groups_per_update (sg_trainer cfg)) \<and>
     (cd_selected c \<longrightarrow> load_spooled_candidate cfg el s c = Inr (r, e, c) \<and> loadable cfg el s c)"

lemma advertisable_kill: "advertisable cfg el u v acc r e c (s\<lparr>ft_kill := k\<rparr>) = advertisable cfg el u v acc r e c s"
  using load_spool_only [of "s\<lparr>ft_kill := k\<rparr>" s cfg el] by (simp add: advertisable_def loadable_def)

lemma triple_spool_if_selected:
  fixes e :: 'e
  assumes "preemptible cfg" and "whole cfg el r e" and "in_window u v c" and "cd_attempt c = Suc (length (fst acc))"
    and "cd_selected c \<longleftrightarrow> informative c \<and> int (length (snd acc)) < gc_accepted_groups_per_update (sg_trainer cfg)"
  shows "triple (memory_is_disk cfg el u v acc)
    (if cd_selected c then persist_accepted_candidate digest cfg r e c else lift_res (Inr c))
    (\<lambda>c' s. advertisable cfg el u v acc r e c' s) (disk_ok cfg el)"
proof (cases "cd_selected c")
  case True
  obtain rt where rt: "candidate_spool_root cfg = Some rt" using assms(1) by (auto simp: preemptible_def)
  have "triple (memory_is_disk cfg el u v acc) (persist_accepted_candidate digest cfg r e c)
    (\<lambda>c' s. advertisable cfg el u v acc r e c' s) (disk_ok cfg el)"
    by (rule triple_post [OF triple_persist [OF rt assms(2)]])
      (use assms(3-5) rt in \<open>auto simp: advertisable_def loadable_def in_window_def spool_path_def\<close>)
  with True show ?thesis by simp
next
  case False
  with assms show ?thesis by (auto simp: advertisable_def intro!: triple_return)
qed

lemma triple_take_candidate:
  fixes x :: "'e group_data"
  assumes "preemptible (su_cfg su)" and "group_fine (su_cfg su) el u v (Suc (length (fst acc))) x"
    and "int (length (fst acc)) < gc_max_candidate_groups_per_update (tcfg su)"
  shows "triple (memory_is_disk (su_cfg su) el u v acc) (take_candidate su cid slot layout task x acc)
    (\<lambda>acc' s. memory_is_disk (su_cfg su) el u v acc' s \<and> length (fst acc') = Suc (length (fst acc)))
    (disk_ok (su_cfg su) el)"
proof -
  obtain r e c where x: "x = (r, e, c)" by (cases x)
  obtain records accepted where acc: "acc = (records, accepted)" by (cases acc)
  let ?cfg = "su_cfg su" and ?c = "judged (su_cfg su) cid (fst task) slot (length accepted) c"
  note md = memory_disk
  have add': "memory_is_disk ?cfg el u v (records @ [c'], if cd_selected c' then accepted @ [(r, e, c')] else accepted)
      (with_line ?cfg True (Candidate_Group c') s)" if "advertisable ?cfg el u v acc r e c' s" for c' s
    using that assms(1,3)
    by (intro memory_advertised [of ?cfg el u v "(records, accepted)", unfolded fst_conv snd_conv])
      (simp_all add: advertisable_def acc)
  have add: "memory_is_disk ?cfg el u v (records @ [c'], if cd_selected c' then accepted @ [(r, e, c')] else accepted)
      (with_line ?cfg True (Candidate_Group c') (s\<lparr>ft_kill := k\<rparr>))"
    if "advertisable ?cfg el u v acc r e c' s" for c' s k
    by (rule add') (simp only: advertisable_kill that)
  have fine: "whole ?cfg el r e" "in_window u v ?c" "cd_attempt ?c = Suc (length (fst acc))"
    "cd_selected ?c \<longleftrightarrow> informative ?c \<and> int (length (snd acc)) < gc_accepted_groups_per_update (sg_trainer ?cfg)"
    using assms(2) by (simp_all add: group_fine_def x acc)
  have advertise: "triple (advertisable ?cfg el u v acc r e c')
      (bnd (append_evidence ?cfg True (Candidate_Group c'))
        (\<lambda>_. lift_res (Inr (records @ [c'], if cd_selected c' then accepted @ [(r, e, c')] else accepted))))
      (\<lambda>acc' s. memory_is_disk ?cfg el u v acc' s \<and> length (fst acc') = Suc (length records)) (disk_ok ?cfg el)" for c'
    by (rule triple_bnd [OF triple_append [where Q = "\<lambda>_. memory_is_disk ?cfg el u v
          (records @ [c'], if cd_selected c' then accepted @ [(r, e, c')] else accepted)"]])
      (erule add, erule add', auto simp: advertisable_def intro: md triple_return)
  show ?thesis
    unfolding take_candidate_def x acc prod.case Let_def fst_conv
    by (intro triple_guard_then triple_upd_then triple_bnd [OF triple_spool_if_selected [OF assms(1) fine [unfolded acc]]]
        advertise [unfolded acc]) (auto intro: md)
qed

section \<open>The groups a cluster returns\<close>

text \<open>
  A rollout comes with one last observation per trajectory; \<open>DataProto.chunk\<close> cuts into equal parts
  and \<open>DataProto.concat\<close> appends.
\<close>

definition sound_cluster :: "('s, 'e, 'b, 'w) cluster_ops \<Rightarrow> bool" where
  "sound_cluster ops \<longleftrightarrow>
     (\<forall>a s r e s'. co_rollout ops a s = (Inr (r, e), s') \<longrightarrow> co_end_len ops e = ro_len r) \<and>
     (\<forall>n e x. 0 < n \<and> n dvd co_end_len ops e \<and> x \<in> set (co_chunk_end ops n e) \<longrightarrow>
        co_end_len ops x = co_end_len ops e div n) \<and>
     (\<forall>es. co_end_len ops (co_concat_end ops es) = sum_list (map (co_end_len ops) es))"

lemma validated_group:
  assumes "validate_same_condition_group kt opt r = Inr (g, r')"
  shows "int (ro_len r') = o_group_size opt" and "int (ro_len r) = o_group_size opt" and "g_version g = o_version opt"
  using assms by (auto simp: validate_same_condition_group_def build_group_record_def annotate_group_def Let_def
      res_simps split: if_splits)

lemma options_of_simps [simp]:
  "o_group_size (group_options_of cfg v gid) = group_size_of cfg" "o_version (group_options_of cfg v gid) = int v"
  by (simp_all add: group_options_of_def Let_def)

lemma validate_groups_Inr:
  assumes "validate_groups kt cfg v count i groups = Inr out"
  shows "length out = length groups \<and> (\<forall>(r, e, g) \<in> set out. int (ro_len r) = group_size_of cfg \<and> g_version g = int v \<and> e \<in> snd ` set groups)"
  using assms
proof (induction kt cfg v count i groups arbitrary: out rule: validate_groups.induct)
  case (2 kt cfg v count i r e groups)
  then show ?case by (fastforce simp: res_simps dest: validated_group)
qed simp

fun groups_fine :: "sampling_config \<Rightarrow> ('e \<Rightarrow> nat) \<Rightarrow> nat \<Rightarrow> nat \<Rightarrow> nat \<Rightarrow> 'e group_data list \<Rightarrow> bool" where
  "groups_fine cfg el u v a [] = True"
| "groups_fine cfg el u v a (x # xs) = (group_fine cfg el u v a x \<and> groups_fine cfg el u v (Suc a) xs)"

lemma groups_fine_nth: "(\<And>i. i < length xs \<Longrightarrow> group_fine cfg el u v (a + i) (xs ! i)) \<Longrightarrow> groups_fine cfg el u v a xs"
proof (induction xs arbitrary: a)
  case (Cons x xs)
  have "group_fine cfg el u v (Suc a + i) (xs ! i)" if "i < length xs" for i
    using Cons.prems [of "Suc i"] that by simp
  with Cons.IH [of "Suc a"] Cons.prems [of 0] show ?case by simp
qed simp

lemma collected_batch_fine:
  assumes "collect_candidate_groups kt cfg ops v u a count n s = (Inr (groups, count'), s')" and "sound_cluster ops" and "0 < n"
  shows "groups_fine cfg (co_end_len ops) u v a groups"
proof -
  from assms(1) obtain r e s0 out gps reserved seed where
    roll: "co_rollout ops (Some (nat (int n div gps))) s = (Inr (r, e), s0)"
    and total: "int (co_end_len ops e) = int n * group_size_of cfg"
    and out: "validate_groups kt cfg v count 0 (zip (co_chunk ops n r) (co_chunk_end ops n e)) = Inr out"
    and groups: "groups = map (\<lambda>(i, r', e', gr). (r', e', new_candidate gr u (a + i) reserved seed)) (zip [0..<length out] out)"
    unfolding collect_candidate_groups_def Let_def
    by (clarsimp simp: stm_simps require_Inr_iff split: prod.splits) blast
  have "n dvd co_end_len ops e"
    using total by (metis dvd_triv_left int_dvd_int_iff)
  moreover have "int (co_end_len ops e div n) = group_size_of cfg" using total assms(3) by (simp add: zdiv_int)
  ultimately have len: "int (co_end_len ops x) = group_size_of cfg" if "x \<in> set (co_chunk_end ops n e)" for x
    using assms(2,3) that by (simp add: sound_cluster_def)
  show ?thesis
  proof (rule groups_fine_nth)
    fix i
    assume "i < length groups"
    then have i: "i < length out" by (simp add: groups)
    obtain r' e' g where o: "out ! i = (r', e', g)" by (cases "out ! i")
    with i validate_groups_Inr [OF out] have "int (ro_len r') = group_size_of cfg" "g_version g = int v"
      "e' \<in> set (co_chunk_end ops n e)"
      by (force dest!: nth_mem dest: set_zip_rightD)+
    with len i o show "group_fine cfg (co_end_len ops) u v (a + i) (groups ! i)"
      by (simp add: groups group_fine_def whole_def in_window_def new_candidate_def)
  qed
qed

lemma collected_waves:
  assumes "collect_waves ops missing parts s = (Inr parts', s')"
  shows "sum_list (map (\<lambda>(r, e). ro_len r) parts') = sum_list (map (\<lambda>(r, e). ro_len r) parts) + missing \<and>
    (\<forall>x \<in> set parts'. x \<in> set parts \<or> (\<exists>s s'. co_rollout ops None s = (Inr x, s')))"
  using assms
proof (induction ops missing parts s arbitrary: parts' s' rule: collect_waves.induct)
  case (1 ops missing parts s)
  from 1(2) show ?case
  proof (subst (asm) collect_waves.simps, cases "missing = 0")
    case False
    with 1(2) obtain r e s1 where r: "co_rollout ops None s = (Inr (r, e), s1)" "\<not> (ro_len r = 0 \<or> missing < ro_len r)"
      and rest: "collect_waves ops (missing - ro_len r) (parts @ [(r, e)]) s1 = (Inr parts', s')"
      by (subst (asm) (2) collect_waves.simps) (auto split: prod.splits sum.splits if_splits)
    from 1(1) [OF False r(1) [symmetric] refl refl r(2) rest] r show ?thesis by auto
  qed auto
qed

lemma collected_group_fine:
  assumes "collect_candidate_group kt cfg ops v u a count s = (Inr (groups, count'), s')" and "sound_cluster ops"
  shows "groups_fine cfg (co_end_len ops) u v a groups"
proof -
  from assms(1) obtain parts g r' s0 where
    w: "collect_waves ops (nat (group_size_of cfg)) [] s = (Inr parts, s0)"
    and val: "validate_same_condition_group kt (group_options_of cfg v (candidate_group_id cfg v (Suc count)))
      (co_concat ops (map fst parts)) = Inr (g, r')"
    and groups: "groups = [(r', co_concat_end ops (map snd parts), new_candidate g u a 1 (Max (set (g_policy_seeds g)) + 1))]"
    by (auto simp: collect_candidate_group_def stm_simps Let_def split: prod.splits)
  note waves = collected_waves [OF w]
  have "co_end_len ops e = ro_len r" if "(r, e) \<in> set parts" for r e
    using waves that assms(2) unfolding sound_cluster_def by fastforce
  then have eq: "map (co_end_len ops \<circ> snd) parts = map (\<lambda>(r, e). ro_len r) parts" by auto
  have "sum_list (map (co_end_len ops \<circ> snd) parts) = nat (group_size_of cfg)" unfolding eq using waves by simp
  then have "co_end_len ops (co_concat_end ops (map snd parts)) = nat (group_size_of cfg)"
    using assms(2) by (simp add: sound_cluster_def)
  with validated_group [OF val] show ?thesis
    by (auto simp: groups group_fine_def whole_def in_window_def new_candidate_def)
qed

section \<open>Batches and windows\<close>

lemma triple_take_candidates:
  assumes "preemptible (su_cfg su)" and "groups_fine (su_cfg su) el u v (Suc (length (fst acc))) xs"
    and "int (length (fst acc) + length xs) \<le> gc_max_candidate_groups_per_update (tcfg su)"
    and "length layouts = length xs" and "length tasks = length xs"
  shows "triple (memory_is_disk (su_cfg su) el u v acc) (take_candidates su cid slot layouts tasks xs acc)
    (\<lambda>acc' s. memory_is_disk (su_cfg su) el u v acc' s \<and> length (fst acc') = length (fst acc) + length xs)
    (disk_ok (su_cfg su) el)"
  using assms
proof (induction su cid slot layouts tasks xs acc rule: take_candidates.induct)
  case (1 su cid slot layout layouts task tasks x xs acc)
  have "triple (\<lambda>s. memory_is_disk (su_cfg su) el u v acc1 s \<and> length (fst acc1) = Suc (length (fst acc)))
      (take_candidates su cid (Suc slot) layouts tasks xs acc1)
      (\<lambda>acc' s. memory_is_disk (su_cfg su) el u v acc' s \<and> length (fst acc') = length (fst acc) + length (x # xs))
      (disk_ok (su_cfg su) el)" for acc1
    using 1(1) [of acc1] 1(2-) by (cases "length (fst acc1) = Suc (length (fst acc))") (simp_all add: triple_false)
  moreover have "triple (memory_is_disk (su_cfg su) el u v acc) (take_candidate su cid slot layout task x acc)
      (\<lambda>acc1 s. memory_is_disk (su_cfg su) el u v acc1 s \<and> length (fst acc1) = Suc (length (fst acc))) (disk_ok (su_cfg su) el)"
    using 1(2-) by (intro triple_take_candidate) simp_all
  ultimately show ?case by (simp add: triple_bnd)
qed (auto intro: triple_return)

lemma traverse_length_bound: "traverse f xs = Inr ys \<Longrightarrow> length ys = length xs"
  by (rule traverse_length)

lemma planned_lengths:
  "planned_layouts cfg slot n = Inr ls \<Longrightarrow> length ls = n"
  "candidate_task_assignments cfg n = Inr ts \<Longrightarrow> length ts = n"
  by (auto simp: planned_layouts_def candidate_task_assignments_def Let_def res_simps split: if_splits)

lemma triple_collect_groups:
  assumes "sound_cluster (su_ops su)" and "0 < n"
  shows "triple (memory_is_disk (su_cfg su) el u v acc) (collect_groups su u a n)
    (\<lambda>groups s. memory_is_disk (su_cfg su) el u v acc s \<and> groups_fine (su_cfg su) (co_end_len (su_ops su)) u v a groups \<and>
       length groups = n)
    (disk_ok (su_cfg su) el)"
proof (rule tripleI)
  let ?m = "memory_is_disk (su_cfg su) el u v acc"
  fix s :: "('a, 'b, 'd) fit_state" and groups t
  assume P: "?m s"
  then have v: "ft_steps s = v" by (simp add: memory_is_disk_def)
  show "?m t \<and> groups_fine (su_cfg su) (co_end_len (su_ops su)) u v a groups \<and> length groups = n"
    if run: "collect_groups su u a n s = (Inr groups, t)"
  proof -
    from run obtain gps r c count where "candidate_groups_per_stage (su_cfg su) = Inr gps"
      and r: "(if 1 < sg_stage_num (su_cfg su) \<or> 1 < gps then
            on_cluster (collect_candidate_groups (su_key_text su) (su_cfg su) (su_ops su) (ft_steps s) u a (ft_count s) n)
          else if n \<noteq> 1 then lift_res (Inl RuntimeError)
          else on_cluster (collect_candidate_group (su_key_text su) (su_cfg su) (su_ops su) (ft_steps s) u a (ft_count s))) s =
        (Inr (groups, count), r)"
      and t: "t = r\<lparr>ft_count := count\<rparr>" "length groups = n"
      by (auto simp: collect_groups_def reading_def Let_def stm_simps require_Inr_iff split: prod.splits)
    from r obtain c where "r = s\<lparr>ft_cluster := c\<rparr>" "groups_fine (su_cfg su) (co_end_len (su_ops su)) u v a groups"
      using collected_batch_fine [OF _ assms(1,2)] collected_group_fine [OF _ assms(1)]
      unfolding v by (auto simp: on_cluster_def lift_res_def split: if_splits prod.splits)
    with P t show ?thesis by simp
  qed
next
  fix s :: "('a, 'b, 'd) fit_state" and e t
  assume P: "memory_is_disk (su_cfg su) el u v acc s" and run: "collect_groups su u a n s = (Inl e, t)"
  have "keeps (disk_ok (su_cfg su) el) (collect_groups su u a n)"
    unfolding collect_groups_def Let_def
    by (intro keeps_rules) (auto simp: keeps_def on_cluster_def split: prod.splits)
  with P run show "disk_ok (su_cfg su) el t" by (metis keepsD memory_disk snd_conv)
qed

lemma triple_write_resume:
  "triple (memory_is_disk cfg el u v acc) (write_candidate_resume_state cfg p q a n) (\<lambda>_. memory_is_disk cfg el u v acc) (disk_ok cfg el)"
proof (cases "truthy_str (gc_candidate_resume_state_path (sg_trainer cfg))")
  case True
  then show ?thesis
    by (simp add: write_candidate_resume_state_def)
      (intro triple_res_then triple_guard_then triple_durably; simp add: memory_disk [of cfg el u v acc])
qed (simp add: write_candidate_resume_state_def triple_return)

lemma triple_collect_batch:
  assumes "preemptible (su_cfg su)" and "sound_cluster (su_ops su)" and "0 < n" and "a = Suc (length (fst acc))"
    and "int (length (fst acc) + n) \<le> gc_max_candidate_groups_per_update (tcfg su)"
  defines "el \<equiv> co_end_len (su_ops su)"
  shows "triple (memory_is_disk (su_cfg su) el u v acc) (collect_batch su cid u a n acc)
    (\<lambda>acc' s. memory_is_disk (su_cfg su) el u v acc' s \<and> length (fst acc') = length (fst acc) + n)
    (disk_ok (su_cfg su) el)"
proof -
  let ?m = "memory_is_disk (su_cfg su) el u v"
  let ?Q = "\<lambda>acc' s. ?m acc' s \<and> length (fst acc') = length (fst acc) + n"
  have close: "triple (?Q acc') (bnd (upd (\<lambda>s. s\<lparr>ft_slot := slot\<rparr>)) (\<lambda>_.
        bnd (write_candidate_resume_state (su_cfg su) p q b slot) (\<lambda>_. lift_res (Inr acc')))) ?Q (disk_ok (su_cfg su) el)"
    for acc' slot p q b
    by (cases "length (fst acc') = length (fst acc) + n")
      (simp_all add: triple_false triple_upd_then [OF _ triple_bnd [OF triple_write_resume triple_return]])
  have run: "triple (\<lambda>s. ?m acc s \<and> groups_fine (su_cfg su) el u v a groups \<and> length groups = n)
      (take_candidates su cid slot layouts tasks groups acc) ?Q (disk_ok (su_cfg su) el)"
    if "length layouts = n" "length tasks = n" for slot layouts tasks groups
    using that assms(4,5) triple_take_candidates [OF assms(1), of el u v acc groups layouts tasks cid slot]
    by (cases "groups_fine (su_cfg su) el u v a groups \<and> length groups = n") (auto simp: triple_false)
  show ?thesis
    unfolding collect_batch_def Let_def
  proof (rule triple_reading, rule triple_pre)
    fix s0 :: "('a, 'b, 'd) fit_state"
    show "triple (?m acc)
      (bnd (lift_res (planned_layouts (su_cfg su) (ft_slot s0) n)) (\<lambda>layouts.
       bnd (lift_res (candidate_task_assignments (su_cfg su) n)) (\<lambda>tasks.
       bnd (collect_groups su u a n) (\<lambda>groups.
       bnd (take_candidates su cid (ft_slot s0) layouts tasks groups acc) (\<lambda>acc'.
       bnd (lift_res (groups_per_wave (su_cfg su))) (\<lambda>width.
       bnd (upd (\<lambda>s. s\<lparr>ft_slot := ft_slot s0 + nat width\<rparr>)) (\<lambda>_.
       bnd (write_candidate_resume_state (su_cfg su) (ft_steps s0) u (a + n) (ft_slot s0 + nat width)) (\<lambda>_.
         lift_res (Inr acc')))))))))
      ?Q (disk_ok (su_cfg su) el)"
      by (intro triple_res_then memory_disk triple_bnd [OF triple_collect_groups [OF assms(2,3), folded el_def]]
          triple_bnd [OF run] close) (auto dest: planned_lengths memory_disk)
  qed auto
qed

section \<open>The size of a batch\<close>

lemma quantized_cases:
  assumes "quantized_candidate_batch_size conc budget slots gps = Inr n"
  shows "0 < conc \<and> 0 < budget \<and> 0 < slots \<and>
    (gps = 1 \<and> n = min conc (min budget slots) \<or>
     1 < gps \<and> min conc budget < gps \<and> n = 0 \<or>
     1 < gps \<and> gps \<le> min conc budget \<and> n = min (min conc budget) (max slots gps) div gps * gps)"
  using assms
  by (auto simp: quantized_candidate_batch_size_def bounded_candidate_batch_size_def Let_def split: if_splits)

lemma floor_to_multiple:
  fixes g x :: int
  assumes "0 < g" and "g \<le> x"
  shows "x div g * g \<le> x" and "0 < x div g * g"
proof -
  have "x div g * g + x mod g = x" by (rule div_mult_mod_eq)
  moreover have "0 \<le> x mod g" using assms(1) by (rule pos_mod_sign)
  ultimately show "x div g * g \<le> x" by linarith
  have "0 < x div g" using assms by (simp only: pos_imp_zdiv_pos_iff)
  then show "0 < x div g * g" using assms(1) by (rule mult_pos_pos)
qed

lemma quantized_bounds:
  assumes "quantized_candidate_batch_size conc budget slots gps = Inr n"
  shows "0 \<le> n \<and> n \<le> budget \<and> n \<le> conc \<and> n mod gps = 0 \<and> n < slots + gps \<and>
    (n = 0 \<longleftrightarrow> 1 < gps \<and> min conc budget < gps)"
proof -
  consider "gps = 1" "n = min conc (min budget slots)"
    | "1 < gps" "min conc budget < gps" "n = 0"
    | "1 < gps" "gps \<le> min conc budget" "n = min (min conc budget) (max slots gps) div gps * gps"
    using quantized_cases [OF assms] by blast
  moreover have pos: "0 < conc" "0 < budget" "0 < slots" using quantized_cases [OF assms] by blast+
  ultimately show ?thesis
  proof cases
    case 3
    define d where "d = min (min conc budget) (max slots gps)"
    have d: "gps \<le> d" "d \<le> conc" "d \<le> budget" "d < slots + gps" using 3(1,2) pos by (simp_all add: d_def)
    have n: "n = d div gps * gps" using 3(3) by (simp add: d_def)
    have "n \<le> d" "0 < n" unfolding n using floor_to_multiple [of gps d] 3(1) d(1) by simp_all
    moreover have "n mod gps = 0" by (simp add: n)
    ultimately show ?thesis using d 3(2) by auto
  qed (use pos in auto)
qed

section \<open>Whole windows\<close>

text \<open>Why the collection of a window ends.\<close>

definition window_complete :: "sampling_config \<Rightarrow> candidate list \<Rightarrow> nat \<Rightarrow> bool" where
  "window_complete cfg records accepted \<longleftrightarrow>
     \<not> window_open cfg (Suc (length records)) accepted \<or>
     next_batch_size cfg (Suc (length records)) accepted = Inr 0 \<or>
     optional_refill_is_unnecessary (int (length records)) (int accepted)
       (gc_initial_candidate_groups_per_update (sg_trainer cfg))
       (gc_accepted_groups_before_optional_refill (sg_trainer cfg))"

lemma collect_window_memory:
  assumes "preemptible (su_cfg su)" and "sound_cluster (su_ops su)"
    and "memory_is_disk (su_cfg su) (co_end_len (su_ops su)) u v acc s" and "a = Suc (length (fst acc))"
  shows "case collect_window su cid u a acc s of
      (Inr acc', t) \<Rightarrow> memory_is_disk (su_cfg su) (co_end_len (su_ops su)) u v acc' t \<and>
        window_complete (su_cfg su) (fst acc') (length (snd acc'))
    | (Inl e, t) \<Rightarrow> disk_ok (su_cfg su) (co_end_len (su_ops su)) t"
  using assms
proof (induction su cid u a acc s rule: collect_window.induct)
  case (1 su cid u a acc s)
  let ?el = "co_end_len (su_ops su)" and ?cfg = "su_cfg su"
  note mem = 1(4) and md = memory_disk [OF 1(4)]
  show ?case
  proof (cases "window_open ?cfg a (length (snd acc))")
    case False
    with 1(4,5) show ?thesis
      by (subst collect_window.simps) (simp add: window_complete_def)
  next
    case open_window: True
    show ?thesis
    proof (cases "next_batch_size ?cfg a (length (snd acc))")
      case (Inl e)
      with open_window md show ?thesis by (subst collect_window.simps) simp
    next
      case (Inr n)
      from Inr obtain gps where q: "quantized_candidate_batch_size (gc_concurrent_candidate_groups (sg_trainer ?cfg))
         (gc_max_candidate_groups_per_update (sg_trainer ?cfg) - int a + 1)
         (gc_accepted_groups_per_update (sg_trainer ?cfg) - int (length (snd acc))) gps = Inr n"
        by (auto simp: next_batch_size_def res_simps)
      note nb = quantized_bounds [OF q]
      show ?thesis
      proof (cases "n \<le> 0")
        case True
        with nb have "n = 0" by simp
        with open_window Inr 1(4,5) show ?thesis by (subst collect_window.simps) (simp add: window_complete_def)
      next
        case pos: False
        have fits: "int (length (fst acc) + nat n) \<le> gc_max_candidate_groups_per_update (tcfg su)"
          using nb pos 1(5) by simp
        have batch: "triple (memory_is_disk ?cfg ?el u v acc) (collect_batch su cid u a (nat n) acc)
            (\<lambda>acc' s. memory_is_disk ?cfg ?el u v acc' s \<and> length (fst acc') = length (fst acc) + nat n) (disk_ok ?cfg ?el)"
          using pos by (intro triple_collect_batch 1(2,3,5) fits) simp
        obtain res t where b: "collect_batch su cid u a (nat n) acc s = (res, t)" by (cases "collect_batch su cid u a (nat n) acc s")
        show ?thesis
        proof (cases res)
          case (Inl e)
          with triple_InlD [OF batch mem] b have "disk_ok ?cfg ?el t" by simp
          with b Inl open_window \<open>next_batch_size _ _ _ = Inr n\<close> pos show ?thesis by (subst collect_window.simps) simp
        next
          case r: (Inr acc')
          with triple_InrD [OF batch mem] b
          have m': "memory_is_disk ?cfg ?el u v acc' t" "length (fst acc') = length (fst acc) + nat n" by simp_all
          then have a': "a + nat n = Suc (length (fst acc'))" using 1(5) by simp
          let ?stop = "optional_refill_is_unnecessary (int (length (fst acc'))) (int (length (snd acc')))
               (gc_initial_candidate_groups_per_update (tcfg su)) (gc_accepted_groups_before_optional_refill (tcfg su))"
          have step: "collect_window su cid u a acc s =
              (if ?stop then (Inr acc', t) else collect_window su cid u (a + nat n) acc' t)"
            using open_window Inr pos b r by (subst collect_window.simps) simp
          show ?thesis
          proof (cases ?stop)
            case True
            with step m' show ?thesis by (simp add: window_complete_def)
          next
            case False
            then have "\<not> \<not> window_open ?cfg a (length (snd acc))" using open_window by simp
            from 1(1) [OF this Inr pos b [symmetric] r False 1(2,3) m'(1) a']
            show ?thesis unfolding step if_not_P [OF False] .
          qed
        qed
      qed
    qed
  qed
qed

end
