(* ===== verification/Grfpo_Preemption.thy ===== *)
theory Grfpo_Preemption
  imports Grfpo_Trainer_Properties
begin

text \<open>
  Processes of a GRFPO trainer one after the other on the same disk, each killed at any of its durable
  writes: the invariant of the disk survives all of them, so that every window resumes where the
  evidence says, and the groups a process has accepted are the groups its successor loads.
\<close>

section \<open>Closing a window\<close>

lemma keeps_of_triple: "triple P m (\<lambda>_. P) P \<Longrightarrow> keeps P m"
  unfolding triple_def keeps_def by (fastforce split: prod.splits sum.splits)

lemma triple_of_keeps: "keeps P m \<Longrightarrow> triple P m (\<lambda>_. P) P"
  unfolding triple_def keeps_def by (fastforce split: prod.splits sum.splits)

lemma keeps_durably: "(\<And>s k. P s \<Longrightarrow> P (f (s\<lparr>ft_kill := k\<rparr>))) \<Longrightarrow> (\<And>s. P s \<Longrightarrow> P (f s)) \<Longrightarrow> keeps P (durably f)"
  by (intro keeps_of_triple triple_durably)

lemma keeps_on_cluster: "(\<And>s c. P s \<Longrightarrow> P (s\<lparr>ft_cluster := c\<rparr>)) \<Longrightarrow> keeps P (on_cluster m)"
  by (intro keeps_of_triple triple_on_cluster)

lemma disk_ok_with_line:
  assumes "preemptible cfg"
  shows "disk_ok cfg el (with_line cfg False Other_Record s) = disk_ok cfg el s"
    and "disk_ok cfg el s \<Longrightarrow> disk_ok cfg el (with_line cfg True (Window_Closed u v) s)"
    and "window_of cfg (with_line cfg True (Window_Closed u v) s) u v = []"
proof -
  have path: "evidence_path cfg True \<noteq> None" and max: "0 \<le> gc_max_candidate_groups_per_update (sg_trainer cfg)"
    using assms by (simp_all add: preemptible_def)
  have l: "loadable cfg el (with_line cfg b r s) = loadable cfg el s" for b r
    using load_spool_only [of "with_line cfg b r s" s cfg el] by (intro ext) (simp add: loadable_def)
  show "disk_ok cfg el (with_line cfg False Other_Record s) = disk_ok cfg el s"
    by (simp add: disk_ok_def l window_with_line [OF path])
  show "disk_ok cfg el s \<Longrightarrow> disk_ok cfg el (with_line cfg True (Window_Closed u v) s)"
    using window_ok_Nil [OF max] by (auto simp: disk_ok_def l window_with_line [OF path])
  show "window_of cfg (with_line cfg True (Window_Closed u v) s) u v = []"
    by (simp add: window_with_line [OF path])
qed

lemma keeps_main_line [keeps_rules]:
  "preemptible cfg \<Longrightarrow> keeps (disk_ok cfg el) (append_evidence cfg False Other_Record)"
  by (intro keeps_of_triple triple_append) (simp_all add: disk_ok_with_line)

lemma keeps_write_resume [keeps_rules]: "keeps (disk_ok cfg el) (write_candidate_resume_state cfg p q a n)"
proof (cases "truthy_str (gc_candidate_resume_state_path (sg_trainer cfg))")
  case True
  then show ?thesis
    by (simp add: write_candidate_resume_state_def) (intro keeps_bnd keeps_lift keeps_durably; simp)
qed (simp add: write_candidate_resume_state_def keeps_lift)

lemma triple_closed_line:
  assumes "preemptible cfg"
  shows "triple (disk_ok cfg el) (append_evidence cfg True (Window_Closed u v))
    (\<lambda>_ s. disk_ok cfg el s \<and> window_of cfg s u v = []) (disk_ok cfg el)"
  by (rule triple_append) (simp_all add: disk_ok_with_line [OF assms])

lemma triple_cleanup:
  fixes el :: "'e \<Rightarrow> nat"
  assumes "preemptible cfg"
  shows "triple (\<lambda>s. disk_ok cfg el s \<and> window_of cfg s u v = []) (cleanup_candidate_spool_window cfg u v)
    (\<lambda>_. disk_ok cfg el) (disk_ok cfg el)"
proof -
  obtain rt where rt: "candidate_spool_root cfg = Some rt" using assms by (auto simp: preemptible_def)
  show ?thesis
    unfolding cleanup_candidate_spool_window_def rt option.case
  proof (rule triple_durably)
    fix s :: "('s, 'e, 'w) fit_state" and k
    assume "disk_ok cfg el s \<and> window_of cfg s u v = []"
    then show "disk_ok cfg el (s\<lparr>ft_kill := k, ft_spool :=
        filter (\<lambda>(p, _). take (length rt + 1) p \<noteq> rt @ [spool_window u v]) (ft_spool (s\<lparr>ft_kill := k\<rparr>))\<rparr>)"
      using disk_ok_cleanup [of cfg el "s\<lparr>ft_kill := k\<rparr>" rt u v] rt by (simp add: window_of_def)
  qed (use disk_ok_cleanup rt in auto)
qed

lemma keeps_close_window [keeps_rules]:
  assumes "preemptible (su_cfg su)"
  shows "keeps (disk_ok (su_cfg su) el) (close_window su u v p q)"
proof -
  have "keeps (disk_ok (su_cfg su) el) (bnd (append_evidence (su_cfg su) True (Window_Closed u v)) (\<lambda>_.
      bnd (cleanup_candidate_spool_window (su_cfg su) u v) (\<lambda>_.
      reading (\<lambda>s. write_candidate_resume_state (su_cfg su) p q 1 (ft_slot s)))))"
    by (intro keeps_of_triple triple_bnd [OF triple_closed_line [OF assms]] triple_bnd [OF triple_cleanup [OF assms]]
        triple_reading [OF triple_pre [of "disk_ok (su_cfg su) el"]])
      (rule triple_of_keeps [OF keeps_write_resume], simp)
  with assms show ?thesis
    unfolding close_window_def by (intro keeps_bnd [OF keeps_main_line])
qed

section \<open>A whole process\<close>

lemma keeps_save [keeps_rules]: "keeps (disk_ok cfg el) (save_when_due su)"
  by (auto simp: save_when_due_def intro!: keeps_rules keeps_durably)

lemma keeps_evaluate [keeps_rules]:
  "preemptible (su_cfg su) \<Longrightarrow> keeps (disk_ok (su_cfg su) el) (evaluate_when_due su)"
  by (auto simp: evaluate_when_due_def intro!: keeps_rules keeps_on_cluster)

lemma keeps_update_policy [keeps_rules]:
  "preemptible (su_cfg su) \<Longrightarrow> keeps (disk_ok (su_cfg su) el) (update_policy su u accepted)"
  unfolding update_policy_def Let_def by (intro keeps_rules keeps_on_cluster; simp)

lemma window_attempts: "window_ok tc records \<Longrightarrow> Max (set (0 # map cd_attempt records)) + 1 = Suc (length records)"
proof -
  assume "window_ok tc records"
  then have "set (0 # map cd_attempt records) = {0..length records}"
    by (auto simp: window_ok_def simp del: upt_Suc)
  moreover have "Max {0..length records} = length records" by (rule Max_eqI) auto
  ultimately show ?thesis by simp
qed

lemma loads_of_loadable:
  assumes "\<And>c. c \<in> set cs \<Longrightarrow> loadable cfg el s c"
  shows "\<exists>accepted. traverse (load_spooled_candidate cfg el s) cs = Inr accepted \<and> map (snd \<circ> snd) accepted = cs \<and>
    (\<forall>(r, e, c) \<in> set accepted. whole cfg el r e)"
  using assms
proof (induction cs)
  case (Cons c cs)
  then obtain accepted where a: "traverse (load_spooled_candidate cfg el s) cs = Inr accepted" "map (snd \<circ> snd) accepted = cs"
    "\<forall>(r, e, c) \<in> set accepted. whole cfg el r e" by auto
  from Cons.prems [of c] obtain r e where l: "load_spooled_candidate cfg el s c = Inr (r, e, c)"
    by (auto simp: loadable_def split: sum.splits)
  then have "whole cfg el r e" by (auto simp: load_Inr_iff whole_def)
  with a l show ?case by (simp add: comp_def)
qed simp

lemma resumed_memory:
  assumes "disk_ok cfg el s"
  shows "\<exists>accepted. traverse (load_spooled_candidate cfg el s) (filter cd_selected (resume_candidate_records cfg u s)) = Inr accepted \<and>
    map (snd \<circ> snd) accepted = filter cd_selected (resume_candidate_records cfg u s) \<and>
    (\<forall>(r, e, c) \<in> set accepted. whole cfg el r e) \<and>
    memory_is_disk cfg el u (ft_steps s) (resume_candidate_records cfg u s, accepted) s"
proof -
  let ?records = "resume_candidate_records cfg u s"
  have w: "?records = window_of cfg s u (ft_steps s)" by (simp add: resume_candidate_records_def window_of_def)
  then have "\<And>c. c \<in> set (filter cd_selected ?records) \<Longrightarrow> loadable cfg el s c" using assms by (auto simp: disk_ok_def)
  from loads_of_loadable [OF this] obtain accepted where
    "traverse (load_spooled_candidate cfg el s) (filter cd_selected ?records) = Inr accepted"
    "map (snd \<circ> snd) accepted = filter cd_selected ?records" "\<forall>(r, e, c) \<in> set accepted. whole cfg el r e" by blast
  moreover from this(1) assms have "memory_is_disk cfg el u (ft_steps s) (?records, accepted) s"
    by (simp add: memory_is_disk_def w)
  ultimately show ?thesis by blast
qed

lemma collected_for_update:
  assumes "preemptible (su_cfg su)" and "sound_cluster (su_ops su)"
  defines "el \<equiv> co_end_len (su_ops su)"
  assumes "disk_ok (su_cfg su) el s"
  shows "case collect_for_update su it u s of
      (Inr acc, t) \<Rightarrow> memory_is_disk (su_cfg su) el u (ft_steps s) acc t \<and> window_complete (su_cfg su) (fst acc) (length (snd acc))
    | (Inl e, t) \<Rightarrow> disk_ok (su_cfg su) el t"
proof -
  let ?records = "resume_candidate_records (su_cfg su) u s"
  let ?P = "\<lambda>acc t. memory_is_disk (su_cfg su) el u (ft_steps s) acc t \<and> window_complete (su_cfg su) (fst acc) (length (snd acc))"
  obtain accepted where load: "traverse (load_spooled_candidate (su_cfg su) el s) (filter cd_selected ?records) = Inr accepted"
    and mem: "memory_is_disk (su_cfg su) el u (ft_steps s) (?records, accepted) s"
    using resumed_memory [OF assms(4), of u] by blast
  have attempts: "Max (set (0 # map cd_attempt ?records)) + 1 = Suc (length ?records)"
    using memory_lengths(2) [OF mem] by (intro window_attempts) simp
  have window: "triple (memory_is_disk (su_cfg su) el u (ft_steps s) (?records, accepted))
      (collect_window su cid u (Suc (length ?records)) (?records, accepted)) ?P (disk_ok (su_cfg su) el)" for cid
    using collect_window_memory [OF assms(1,2), of u "ft_steps s" "(?records, accepted)"]
    unfolding el_def triple_def by (auto split: prod.splits sum.splits)
  have fin: "triple (memory_is_disk (su_cfg su) el u (ft_steps s) (?records, accepted))
      (finally_do (collect_window su cid u (Suc (length ?records)) (?records, accepted)) (on_cluster m)) ?P (disk_ok (su_cfg su) el)"
    for cid m
  proof (rule tripleI)
    fix s0 x t
    assume P: "memory_is_disk (su_cfg su) el u (ft_steps s) (?records, accepted) s0"
      and run: "finally_do (collect_window su cid u (Suc (length ?records)) (?records, accepted)) (on_cluster m) s0 = (Inr x, t)"
    from run obtain t0 c where "collect_window su cid u (Suc (length ?records)) (?records, accepted) s0 = (Inr x, t0)"
      "t = t0\<lparr>ft_cluster := c\<rparr>" by (auto simp: finally_do_def on_cluster_def split: prod.splits sum.splits)
    with triple_InrD [OF window P] show "?P x t" by auto
  next
    fix s0 e t
    assume P: "memory_is_disk (su_cfg su) el u (ft_steps s) (?records, accepted) s0"
      and run: "finally_do (collect_window su cid u (Suc (length ?records)) (?records, accepted)) (on_cluster m) s0 = (Inl e, t)"
    obtain r t0 where w: "collect_window su cid u (Suc (length ?records)) (?records, accepted) s0 = (r, t0)"
      by (cases "collect_window su cid u (Suc (length ?records)) (?records, accepted) s0")
    have "disk_ok (su_cfg su) el t0"
    proof (cases r)
      case (Inl e')
      with w triple_InlD [OF window P] show ?thesis by simp
    next
      case (Inr x)
      with w triple_InrD [OF window P] show ?thesis by (blast intro: memory_disk)
    qed
    moreover obtain c where "t = t0\<lparr>ft_cluster := c\<rparr>"
      using run w by (auto simp: finally_do_def on_cluster_def split: prod.splits sum.splits)
    ultimately show "disk_ok (su_cfg su) el t" by simp
  qed
  let ?cid = "''run-'' @ sg_run_id (su_cfg su) @ ''/policy-'' @ pad4 (ft_steps s) @ ''/collection-'' @ pad4 it"
  let ?run = "bnd (lift_res (Inr accepted)) (\<lambda>accepted. bnd (on_cluster (co_begin_collection (su_ops su))) (\<lambda>_.
      finally_do (collect_window su ?cid u (Suc (length ?records)) (?records, accepted)) (on_cluster (co_end_collection (su_ops su)))))"
  have "collect_for_update su it u s = ?run s"
    by (simp only: collect_for_update_def reading_def Let_def attempts load [unfolded el_def])
  moreover have start: "triple (memory_is_disk (su_cfg su) el u (ft_steps s) (?records, accepted)) (on_cluster m)
      (\<lambda>_. memory_is_disk (su_cfg su) el u (ft_steps s) (?records, accepted)) (disk_ok (su_cfg su) el)" for m :: "('a, unit) stm"
    by (rule triple_on_cluster) (auto dest: memory_disk)
  moreover have "triple (memory_is_disk (su_cfg su) el u (ft_steps s) (?records, accepted)) ?run ?P (disk_ok (su_cfg su) el)"
    by (intro triple_res_then triple_bnd [OF start]) (auto intro: memory_disk fin)
  ultimately show ?thesis using mem by (auto simp: triple_def split: prod.splits sum.splits)
qed

lemma keeps_collect_for_update:
  assumes "preemptible (su_cfg su)" and "sound_cluster (su_ops su)"
  shows "keeps (disk_ok (su_cfg su) (co_end_len (su_ops su))) (collect_for_update su it u)"
proof (rule keepsI)
  fix s :: "('a, 'b, 'd) fit_state"
  assume "disk_ok (su_cfg su) (co_end_len (su_ops su)) s"
  from collected_for_update [OF assms this, where it = it and u = u]
  show "disk_ok (su_cfg su) (co_end_len (su_ops su)) (snd (collect_for_update su it u s))"
    by (auto split: prod.splits sum.splits dest: memory_disk)
qed

lemma keeps_fit_loop:
  assumes "preemptible (su_cfg su)" and "sound_cluster (su_ops su)"
  shows "keeps (disk_ok (su_cfg su) (co_end_len (su_ops su))) (fit_loop su fuel it)"
proof (induction fuel arbitrary: it)
  case (Suc fuel)
  have closed: "keeps (disk_ok (su_cfg su) el) (append_evidence (su_cfg su) True (Window_Closed u v))" for u v and el :: "'b \<Rightarrow> nat"
    by (rule keeps_of_triple, rule triple_post [OF triple_closed_line [OF assms(1)]]) simp_all
  show ?case
    unfolding fit_loop.simps Let_def conclude_window_def
    by (intro keeps_rules keeps_collect_for_update assms closed Suc)
qed (auto intro: keeps_rules)

lemma keeps_grfpo_fit:
  assumes "preemptible (su_cfg su)" and "sound_cluster (su_ops su)"
  shows "keeps (disk_ok (su_cfg su) (co_end_len (su_ops su))) (grfpo_fit su fuel)"
  using assms
  by (auto simp: grfpo_fit_def resume_schedule_def Let_def
      intro!: keeps_rules keeps_on_cluster keeps_fit_loop split: option.splits)

lemma keeps_run_process:
  assumes "preemptible (su_cfg su)" and "sound_cluster (su_ops su)"
  shows "keeps (disk_ok (su_cfg su) (co_end_len (su_ops su))) (run_process su fuel fresh kill)"
  using keepsD [OF keeps_grfpo_fit [OF assms]] by (intro keepsI) (simp add: run_process_def)

section \<open>Processes of one job\<close>

text \<open>
  Processes of one job differ in their run id, in the cursor the launcher restores and in whatever
  else does not name what is on disk.
\<close>

definition same_job :: "sampling_config \<Rightarrow> sampling_config \<Rightarrow> bool" where
  "same_job cfg cfg' \<longleftrightarrow> sg_trainer cfg' = sg_trainer cfg \<and> sg_base_path cfg' = sg_base_path cfg \<and>
     sg_base_sha256 cfg' = sg_base_sha256 cfg \<and> sg_evidence_jsonl cfg' = sg_evidence_jsonl cfg \<and>
     sg_candidate_evidence_jsonl cfg' = sg_candidate_evidence_jsonl cfg"

inductive after_processes :: "('s, 'e, 'b, 'w) fit_setup \<Rightarrow> ('s, 'e, 'w) fit_state \<Rightarrow> bool" for job where
  blank: "ft_files s = [] \<Longrightarrow> ft_spool s = [] \<Longrightarrow> ft_resume s = None \<Longrightarrow> after_processes job s"
| process: "after_processes job s \<Longrightarrow> same_job (su_cfg job) (su_cfg (su :: ('s, 'e, 'b, 'w) fit_setup)) \<Longrightarrow>
    sound_cluster (su_ops su) \<Longrightarrow>
    co_end_len (su_ops su) = co_end_len (su_ops job) \<Longrightarrow> after_processes job (snd (run_process su fuel fresh kill s))"

lemma same_job_disk:
  assumes "same_job cfg cfg'"
  shows "disk_ok cfg' el s = disk_ok cfg el s" and "preemptible cfg' = preemptible cfg"
    and "load_spooled_candidate cfg' el = load_spooled_candidate cfg el"
    and "resume_candidate_records cfg' = resume_candidate_records cfg"
proof -
  note j = assms [unfolded same_job_def]
  have root_eq: "candidate_spool_root cfg' = candidate_spool_root cfg" and path: "evidence_path cfg' b = evidence_path cfg b" for b
    using j by (simp_all add: candidate_spool_root_def evidence_path_def)
  have read: "read_evidence cfg' b s = read_evidence cfg b s" for b and s :: "('s1, 'e1, 'w1) fit_state"
    by (simp add: read_evidence_def path)
  have load: "load_spooled_candidate cfg' el s c = load_spooled_candidate cfg el s c" for el :: "'e1 \<Rightarrow> nat" and s :: "('s1, 'e1, 'w1) fit_state" and c
  proof -
    have "spool_matches cfg' c x = spool_matches cfg c x" for x :: "'e1 spooled" using j by (simp add: spool_matches_def)
    moreover have "sg_trainer cfg' = sg_trainer cfg" using j by simp
    ultimately show ?thesis by (simp only: load_spooled_candidate_def root_eq)
  qed
  show "disk_ok cfg' el s = disk_ok cfg el s"
    using j by (simp add: disk_ok_def window_of_def read loadable_def load root_eq)
  show "preemptible cfg' = preemptible cfg" using j by (simp add: preemptible_def root_eq path)
  show "load_spooled_candidate cfg' el = load_spooled_candidate cfg el" by (intro ext) (rule load)
  show "resume_candidate_records cfg' = resume_candidate_records cfg"
    by (intro ext) (simp add: resume_candidate_records_def read)
qed

lemma disk_ok_blank:
  "preemptible cfg \<Longrightarrow> ft_files s = [] \<Longrightarrow> ft_spool s = [] \<Longrightarrow> disk_ok cfg el s"
  by (auto simp: disk_ok_def window_of_def read_evidence_def lines_of_def preemptible_def window_ok_Nil split: option.split)

lemma after_processes_disk:
  assumes "after_processes job s" and "preemptible (su_cfg job)"
  shows "disk_ok (su_cfg job) (co_end_len (su_ops job)) s"
  using assms(1)
proof induction
  case (process s su fuel fresh kill)
  note eq = same_job_disk [OF process(2)]
  have "disk_ok (su_cfg su) (co_end_len (su_ops su)) s" using process(4,5) by (simp add: eq)
  from keepsD [OF keeps_run_process [OF _ process(3)] this] assms(2)
  have "disk_ok (su_cfg su) (co_end_len (su_ops su)) (snd (run_process su fuel fresh kill s))" by (simp add: eq)
  then show ?case using process(4) by (simp add: eq)
qed (rule disk_ok_blank [OF assms(2)])

definition same_disk :: "('s, 'e, 'w) fit_state \<Rightarrow> ('s, 'e, 'w) fit_state \<Rightarrow> bool" where
  "same_disk s t \<longleftrightarrow> ft_files t = ft_files s \<and> ft_spool t = ft_spool s"

lemma same_disk_simps:
  assumes "same_disk s t"
  shows "disk_ok cfg el t = disk_ok cfg el s" and "load_spooled_candidate cfg el t = load_spooled_candidate cfg el s"
    and "ft_steps t = ft_steps s \<Longrightarrow> resume_candidate_records cfg u t = resume_candidate_records cfg u s"
proof -
  have "read_evidence cfg b t = read_evidence cfg b s" for b
    using assms by (simp add: same_disk_def read_evidence_def lines_of_def split: option.split)
  then show "disk_ok cfg el t = disk_ok cfg el s" "load_spooled_candidate cfg el t = load_spooled_candidate cfg el s"
    "ft_steps t = ft_steps s \<Longrightarrow> resume_candidate_records cfg u t = resume_candidate_records cfg u s"
    using assms disk_ok_cong [of cfg t s el] load_spool_only [of t s cfg el]
    by (simp_all add: same_disk_def resume_candidate_records_def)
qed

text \<open>
  C6. However many processes of a job have been killed at any of their durable writes, the next one resumes: for
  every window, the candidates in the evidence are numbered from one without a gap and within the
  budget, the selected ones are exactly the first informative ones up to the target, and each of
  them is loaded from the spool, with all its trajectories and last observations.
\<close>

theorem preempted_window_resumes:
  assumes "preemptible (su_cfg job)" and "after_processes job s0" and "same_disk s0 s"
  shows "\<exists>accepted.
    traverse (load_spooled_candidate (su_cfg job) (co_end_len (su_ops job)) s)
      (filter cd_selected (resume_candidate_records (su_cfg job) u s)) = Inr accepted \<and>
    map (snd \<circ> snd) accepted = filter cd_selected (resume_candidate_records (su_cfg job) u s) \<and>
    window_ok (tcfg job) (resume_candidate_records (su_cfg job) u s) \<and>
    (\<forall>(r, e, c) \<in> set accepted. int (ro_len r) = group_size_of (su_cfg job) \<and>
       int (co_end_len (su_ops job) e) = group_size_of (su_cfg job))"
proof -
  have "disk_ok (su_cfg job) (co_end_len (su_ops job)) s"
    using after_processes_disk [OF assms(2,1)] same_disk_simps [OF assms(3)] by simp
  from resumed_memory [OF this, of u] show ?thesis
    using memory_lengths(2) by (fastforce simp: whole_def)
qed

text \<open>
  C5. The window of an update, whether it starts afresh or resumes: the accepted groups are
  the first informative candidates up to the target, collection stops only because the target is
  reached, the budget has no room for another batch or the initial window was informative enough, and a
  process that is killed from then on, for instance during training, has a successor that resumes
  with exactly the same candidates and the same groups.
\<close>

theorem window_takes_the_first_informative_groups:
  assumes "preemptible (su_cfg su)" and "sound_cluster (su_ops su)"
    and "after_processes su s0" and "same_disk s0 s"
    and "collect_for_update su it u s = (Inr (records, accepted), s1)"
  shows "window_ok (tcfg su) records \<and>
    map (snd \<circ> snd) accepted = take (nat (gc_accepted_groups_per_update (tcfg su))) (filter informative records) \<and>
    window_complete (su_cfg su) records (length accepted) \<and>
    (\<forall>t. same_disk s1 t \<longrightarrow> ft_steps t = ft_steps s \<longrightarrow>
       resume_candidate_records (su_cfg su) u t = records \<and>
       traverse (load_spooled_candidate (su_cfg su) (co_end_len (su_ops su)) t) (filter cd_selected records) = Inr accepted)"
proof -
  let ?el = "co_end_len (su_ops su)"
  have "disk_ok (su_cfg su) ?el s" using after_processes_disk [OF assms(3,1)] same_disk_simps [OF assms(4)] by simp
  from collected_for_update [OF assms(1,2) this, where it = it and u = u] assms(5)
  have m: "memory_is_disk (su_cfg su) ?el u (ft_steps s) (records, accepted) s1"
    and c: "window_complete (su_cfg su) records (length accepted)" by simp_all
  have ok: "window_ok (tcfg su) records" using memory_lengths(2) [OF m] by simp
  have load: "traverse (load_spooled_candidate (su_cfg su) ?el s1) (filter cd_selected records) = Inr accepted"
    and steps: "ft_steps s1 = ft_steps s" and w: "resume_candidate_records (su_cfg su) u s1 = records"
    using m by (simp_all add: memory_is_disk_def window_of_def resume_candidate_records_def)
  have "map (snd \<circ> snd) accepted = filter cd_selected records"
    using resumed_memory [OF memory_disk [OF m], of u] load by (simp add: w)
  with ok c load w steps same_disk_simps [of s1] show ?thesis
    by (simp add: window_ok_def)
qed

end
