(* ===== verification/Grfpo_Restart.thy ===== *)
theory Grfpo_Restart
  imports Grfpo_Preemption
begin

text \<open>
  When a GRFPO trainer can be restarted: the resume state on disk is never newer than the checkpoint, so
  a successor starts unless the launcher did not restore the cursor or the predecessor was killed in
  its very first batch.
\<close>

section \<open>The resume state and the checkpoint\<close>

definition checkpoint_step :: "('s, 'e, 'w) fit_state \<Rightarrow> nat" where
  "checkpoint_step s = (case ft_checkpoint s of None \<Rightarrow> 0 | Some (n, w) \<Rightarrow> n)"

definition resume_ok :: "sampling_config \<Rightarrow> ('s, 'e, 'w) fit_state \<Rightarrow> bool" where
  "resume_ok cfg s \<longleftrightarrow>
     (case ft_resume s of
        None \<Rightarrow> True
      | Some rs \<Rightarrow> rs_base_path rs = sg_base_path cfg \<and> rs_base_sha256 rs = sg_base_sha256 cfg \<and>
          rs_policy_version rs \<le> checkpoint_step s)"

definition at_step :: "sampling_config \<Rightarrow> nat \<Rightarrow> ('s, 'e, 'w) fit_state \<Rightarrow> bool" where
  "at_step cfg v s \<longleftrightarrow> resume_ok cfg s \<and> ft_steps s = v \<and> checkpoint_step s = v"

lemma checkpoint_step_cong: "ft_checkpoint t = ft_checkpoint s \<Longrightarrow> checkpoint_step t = checkpoint_step s"
  by (simp add: checkpoint_step_def)

lemma resume_ok_cong:
  "ft_resume t = ft_resume s \<Longrightarrow> ft_checkpoint t = ft_checkpoint s \<Longrightarrow> resume_ok cfg t = resume_ok cfg s"
  by (simp add: resume_ok_def checkpoint_step_cong [of t s] split: option.split)

lemma at_step_cong:
  "ft_resume t = ft_resume s \<Longrightarrow> ft_checkpoint t = ft_checkpoint s \<Longrightarrow> ft_steps t = ft_steps s \<Longrightarrow>
   at_step cfg v t = at_step cfg v s"
  by (simp add: at_step_def resume_ok_cong [of t s] checkpoint_step_cong [of t s])

lemma at_step_fields [simp]:
  "at_step cfg v (s\<lparr>ft_kill := k\<rparr>) = at_step cfg v s" "at_step cfg v (s\<lparr>ft_cluster := c\<rparr>) = at_step cfg v s"
  "at_step cfg v (s\<lparr>ft_files := fs\<rparr>) = at_step cfg v s" "at_step cfg v (s\<lparr>ft_spool := sp\<rparr>) = at_step cfg v s"
  "at_step cfg v (s\<lparr>ft_count := n\<rparr>) = at_step cfg v s" "at_step cfg v (s\<lparr>ft_slot := n\<rparr>) = at_step cfg v s"
  "at_step cfg v (s\<lparr>ft_counters := ct\<rparr>) = at_step cfg v s"
  by (rule at_step_cong; simp)+


lemma at_step_append [keeps_rules]: "keeps (at_step cfg v) (append_evidence cfg' b r)"
  by (auto simp: append_evidence_def intro!: keeps_lift keeps_durably split: option.split)

lemma at_step_persist [keeps_rules]: "keeps (at_step cfg v) (persist_accepted_candidate d cfg' r e c)"
  by (auto simp: persist_accepted_candidate_def Let_def intro!: keeps_rules keeps_durably split: option.split)

lemma at_step_cleanup [keeps_rules]: "keeps (at_step cfg v) (cleanup_candidate_spool_window cfg' u p)"
  by (auto simp: cleanup_candidate_spool_window_def intro!: keeps_lift keeps_durably split: option.split)



lemma at_step_take_candidates [keeps_rules]:
  "keeps (at_step cfg v) (take_candidates su cid slot layouts tasks xs acc)"
proof (induction su cid slot layouts tasks xs acc rule: take_candidates.induct)
  case (1 su cid slot layout layouts task tasks x xs acc)
  have "keeps (at_step cfg v) (take_candidate su cid slot layout task x acc)"
    by (cases x; cases acc) (auto simp: take_candidate_def Let_def intro!: keeps_rules)
  with 1 show ?case by (simp add: keeps_bnd)
qed (auto intro: keeps_rules)







section \<open>Updates and whole processes\<close>


lemma resume_ok_fields [simp]:
  "resume_ok cfg (s\<lparr>ft_steps := n\<rparr>) = resume_ok cfg s" "resume_ok cfg (s\<lparr>ft_kill := k\<rparr>) = resume_ok cfg s"
  "checkpoint_step (s\<lparr>ft_steps := n\<rparr>) = checkpoint_step s" "checkpoint_step (s\<lparr>ft_kill := k\<rparr>) = checkpoint_step s"
  "checkpoint_step (s\<lparr>ft_checkpoint := Some (n, w)\<rparr>) = n"
  by (rule resume_ok_cong; simp)+ (simp_all add: checkpoint_step_def)








text \<open>The state of a new process that has loaded the latest checkpoint.\<close>

definition loaded :: "('s, 'e, 'b, 'w) fit_setup \<Rightarrow> 's \<Rightarrow> nat option \<Rightarrow> ('s, 'e, 'w) fit_state \<Rightarrow> ('s, 'e, 'w) fit_state" where
  "loaded su fresh kill s =
     (let b = s\<lparr>ft_cluster := fresh, ft_kill := kill, ft_steps := 0, ft_count := 0, ft_slot := 0,
            ft_counters := historical_counters []\<rparr>
      in case ft_checkpoint s of
           None \<Rightarrow> b\<lparr>ft_steps := 0\<rparr>
         | Some (n, w) \<Rightarrow> b\<lparr>ft_steps := n, ft_cluster := co_restore (su_ops su) w (ft_cluster b)\<rparr>)"

lemma loaded_fields [simp]:
  "ft_files (loaded su fresh kill s) = ft_files s" "ft_spool (loaded su fresh kill s) = ft_spool s"
  "ft_resume (loaded su fresh kill s) = ft_resume s" "ft_checkpoint (loaded su fresh kill s) = ft_checkpoint s"
  "ft_steps (loaded su fresh kill s) = checkpoint_step s"
  by (auto simp: loaded_def Let_def checkpoint_step_def split: option.split)









end
