(* ===== verification/Grfpo_Schedule.thy ===== *)
theory Grfpo_Schedule
  imports Grfpo_Restart Robodojo_Case_Properties
begin

text \<open>
  The plan of a GRFPO trainer against the simulators that carry it out: batches fill whole pipeline
  stages, the task planned for a group is the task of every process that plays in it, and the planned
  layouts are the layouts the processes draw, also after a restart from a resume state.
\<close>

section \<open>Batches\<close>

lemma post_init_positive:
  assumes "grfpo_post_init tc = Inr ()"
  shows "0 < gc_concurrent_candidate_groups tc" and "0 < gc_accepted_groups_per_update tc" and "gc_group_size tc = 8"
  using assms by (simp_all add: grfpo_post_init_def grfpo_config_checks_def require_Inr_iff)

lemma new_trainer_Inr:
  assumes "new_grfpo_trainer cfg = Inr ()" and "candidate_groups_per_stage cfg = Inr gps" and "0 < sg_stage_num cfg"
  shows "0 < gps" and "gc_concurrent_candidate_groups (sg_trainer cfg) \<le> sg_stage_num cfg * gps"
    and "gc_concurrent_candidate_groups (sg_trainer cfg) mod gps = 0"
proof -
  let ?conc = "gc_concurrent_candidate_groups (sg_trainer cfg)"
  have init: "grfpo_post_init (sg_trainer cfg) = Inr ()" using assms(1) by (simp add: new_grfpo_trainer_def res_simps)
  then have outcome: "gc_advantage_estimator (sg_trainer cfg) = ''grpo_outcome''"
    by (simp add: grfpo_post_init_def grfpo_config_checks_def require_Inr_iff)
  show fits: "?conc \<le> sg_stage_num cfg * gps"
    using assms(1,2) outcome by (simp add: new_grfpo_trainer_def res_simps)
  have "0 < sg_stage_num cfg * gps" using post_init_positive(1) [OF init] fits by linarith
  then show "0 < gps" using assms(3) by (simp add: zero_less_mult_iff)
  show "?conc mod gps = 0"
  proof (cases "gc_candidate_group_partition (sg_trainer cfg) = ''worker_stage''")
    case True
    then show ?thesis
      using assms(1,2) outcome \<open>0 < gps\<close>
      by (simp add: new_grfpo_trainer_def res_simps worker_stage_checks_def Let_def)
  next
    case False
    then have "gps = 1" using assms(2) by (auto simp: candidate_groups_per_stage_def Let_def split: if_splits)
    then show ?thesis by simp
  qed
qed

lemma quantized_Inr:
  "0 < gps \<Longrightarrow> 0 < conc \<Longrightarrow> 0 < budget \<Longrightarrow> 0 < slots \<Longrightarrow>
   \<exists>n. quantized_candidate_batch_size conc budget slots gps = Inr n"
  by (simp add: quantized_candidate_batch_size_def bounded_candidate_batch_size_def Let_def)

text \<open>
  C17. As long as the window of an update is open, a trainer whose settings passed the constructor asks for a batch
  of whole pipeline stages that its cluster has, within the remaining candidate budget, and for fewer
  than one stage more than the groups it still needs; it asks for none exactly if the budget does not
  cover one stage.
\<close>

theorem batches_fill_whole_stages:
  assumes "new_grfpo_trainer cfg = Inr ()" and "0 < sg_stage_num cfg" and "candidate_groups_per_stage cfg = Inr gps"
    and "window_open cfg attempt accepted"
  shows "\<exists>n. next_batch_size cfg attempt accepted = Inr n \<and> n mod gps = 0 \<and>
    (let budget = gc_max_candidate_groups_per_update (sg_trainer cfg) - int attempt + 1 in
     if budget < gps then n = 0
     else n \<le> budget \<and> 1 \<le> n div gps \<and> n div gps \<le> sg_stage_num cfg \<and>
       n < gc_accepted_groups_per_update (sg_trainer cfg) - int accepted + gps)"
proof -
  let ?conc = "gc_concurrent_candidate_groups (sg_trainer cfg)"
  let ?budget = "gc_max_candidate_groups_per_update (sg_trainer cfg) - int attempt + 1"
  let ?slots = "gc_accepted_groups_per_update (sg_trainer cfg) - int accepted"
  note t = new_trainer_Inr [OF assms(1,3,2)]
  have init: "grfpo_post_init (sg_trainer cfg) = Inr ()" using assms(1) by (simp add: new_grfpo_trainer_def res_simps)
  have pos: "0 < ?conc" "0 < ?budget" "0 < ?slots"
    using post_init_positive [OF init] assms(4) by (simp_all add: window_open_def)
  obtain n where q: "quantized_candidate_batch_size ?conc ?budget ?slots gps = Inr n"
    using quantized_Inr [OF t(1) pos] by blast
  note b = quantized_bounds [OF q]
  have "gps dvd ?conc" using t(3) by (simp add: mod_eq_0_iff_dvd)
  then have conc: "gps \<le> ?conc" using pos(1) by (rule zdvd_imp_le)
  have none: "n = 0 \<longleftrightarrow> ?budget < gps" using b conc pos(2) by auto
  obtain m where m: "n = gps * m" using b by (auto simp: mod_eq_0_iff_dvd)
  have "1 \<le> m" if "\<not> ?budget < gps"
    using that none b t(1) m by (smt (verit) mult_le_0_iff)
  moreover have "m \<le> sg_stage_num cfg"
  proof -
    have "gps * m \<le> gps * sg_stage_num cfg" using b t(2) m by (simp add: mult.commute)
    then show ?thesis using t(1) by simp
  qed
  ultimately show ?thesis
    using q b none m t(1) by (auto simp: next_batch_size_def assms(3) Let_def)
qed

section \<open>Tasks\<close>

text \<open>The processes (worker, stage) that play in a group.\<close>

definition plays_in :: "sampling_config \<Rightarrow> nat \<Rightarrow> nat \<Rightarrow> nat \<Rightarrow> bool" where
  "plays_in cfg i r st \<longleftrightarrow>
     (if gc_candidate_group_partition (sg_trainer cfg) = ''stage'' then i = st
      else i div nat (sg_num_envs cfg div group_size_of cfg) = st * nat (configured_env_worker_count cfg) + r)"

lemma name_index:
  assumes "distinct names" and "map_of (rev (zip names (map int [b..<b + length names]))) t = Some i"
  shows "\<exists>k. py_index names t = Inr k \<and> i = int (b + k)"
  using assms
proof (induction names arbitrary: b)
  case (Cons x names)
  have split: "[b..<b + length (x # names)] = b # [Suc b..<Suc b + length names]" by (subst upt_rec) simp
  show ?case
  proof (cases "x = t")
    case True
    then have "t \<notin> fst ` set (rev (zip names (map int [Suc b..<Suc b + length names])))"
      using Cons.prems(1) by (auto dest: set_zip_leftD)
    then have "map_of (rev (zip names (map int [Suc b..<Suc b + length names]))) t = None" by (simp add: map_of_eq_None_iff)
    with Cons.prems(2) True show ?thesis unfolding split by (simp add: map_add_def)
  next
    case False
    with Cons.prems show ?thesis
      using Cons.IH [of "Suc b"] unfolding split by (auto simp: map_add_def split: option.splits)
  qed
qed simp

lemma py_at_nat: "i < length xs \<Longrightarrow> py_at xs (int i) = Inr (xs ! i)"
  by (simp add: py_at_def)

lemma process_task:
  assumes "robodojo_post_init (sg_robodojo cfg) = Inr ()" and "process_tasks cfg = Inr (schedule, ids)"
    and "configured_env_worker_count cfg = int W" and "sg_stage_num cfg = int S" and "r < W" and "st < S"
    and "with_id ids (schedule ! (st * W + r)) = Inr x"
  shows "task_assignment (sg_robodojo cfg) (int r) (int W) (int st) (int S) = Inr x" and "length schedule = W * S"
    and "st * W + r < length schedule"
proof -
  let ?rd = "sg_robodojo cfg"
  have "Suc st * W \<le> S * W" using assms(6) by (intro mult_le_mono1) simp
  then have bound: "st * W + r < W * S" using assms(5) by (simp add: mult.commute)
  have prod: "int W * int S = int (W * S)" by simp
  show len: "length schedule = W * S"
    using assms(2-4) by (auto simp: process_tasks_def Let_def prod split: if_splits simp flip: of_nat_mult)
  with bound show "st * W + r < length schedule" by simp
  obtain i where x: "ids (schedule ! (st * W + r)) = Some i" "x = (schedule ! (st * W + r), i)"
    using assms(7) by (auto simp: with_id_def split: option.splits)
  show "task_assignment ?rd (int r) (int W) (int st) (int S) = Inr x"
  proof (cases "rd_worker_stage_task_schedule ?rd = []")
    case True
    then have "schedule = replicate (W * S) (rd_task_name ?rd)" "ids = [rd_task_name ?rd \<mapsto> rd_task_id ?rd]"
      using assms(2-4) by (auto simp: process_tasks_def Let_def simp flip: of_nat_mult)
    with True x bound assms(5,6) show ?thesis by (simp add: task_assignment_def)
  next
    case False
    then have s: "schedule = rd_worker_stage_task_schedule ?rd"
      and ids: "ids = map_of (rev (zip (rd_task_names ?rd) (map int [0..<length (rd_task_names ?rd)])))"
      using assms(2) by (auto simp: process_tasks_def Let_def split: if_splits)
    have "distinct (rd_task_names ?rd)" using assms(1) by (auto simp: robodojo_post_init_def Let_def res_simps)
    from name_index [OF this, of 0] x(1) obtain k where "py_index (rd_task_names ?rd) (schedule ! (st * W + r)) = Inr k" "i = int k"
      unfolding ids by auto
    moreover have "py_at schedule (int st * int W + int r) = Inr (schedule ! (st * W + r))"
      using py_at_nat [of "st * W + r" schedule] bound len by simp
    ultimately show ?thesis using False len assms(5,6) x(2)
      by (simp add: task_assignment_def s [symmetric])
  qed
qed

lemma length_concat_replicate: "length (concat (map (replicate k) xs)) = length xs * k"
  by (induction xs) simp_all

lemma nth_concat_replicate: "i < length xs * k \<Longrightarrow> concat (map (replicate k) xs) ! i = xs ! (i div k) \<and> i div k < length xs"
proof (induction xs arbitrary: i)
  case (Cons x xs)
  show ?case
  proof (cases "i < k")
    case True
    then show ?thesis by (simp add: nth_append)
  next
    case False
    have "0 < k" using Cons.prems by (cases k) simp_all
    then have "i div k = Suc ((i - k) div k)" using False by (simp add: le_div_geq)
    with Cons.IH [of "i - k"] Cons.prems False show ?thesis by (simp add: nth_append)
  qed
qed simp

lemma traverse_nth: "traverse f xs = Inr ys \<Longrightarrow> i < length ys \<Longrightarrow> f (xs ! i) = Inr (ys ! i)"
  by (auto simp: traverse_Inr_list_all2 list_all2_conv_all_nth)

lemma remdups_singleton: "length (remdups xs) = 1 \<Longrightarrow> x \<in> set xs \<Longrightarrow> x = hd xs"
proof -
  assume "length (remdups xs) = 1" and x: "x \<in> set xs"
  then obtain y where "remdups xs = [y]" by (cases "remdups xs") auto
  then have "set xs = {y}" by (metis set_remdups list.set(1,2))
  moreover have "hd xs \<in> set xs" using x by (cases xs) auto
  ultimately show ?thesis using x by auto
qed

lemma assigned_task:
  assumes "candidate_task_assignments cfg n = Inr ts" and "i < n" and "plays_in cfg i r st" and "r < W"
    and "configured_env_worker_count cfg = int W" and "sg_stage_num cfg = int S" and "st < S"
    and "process_tasks cfg = Inr (schedule, ids)" and "st * W + r < length schedule"
  shows "with_id ids (schedule ! (st * W + r)) = Inr (ts ! i)"
proof -
  let ?g = "group_size_of cfg" and ?k = "nat (sg_num_envs cfg div group_size_of cfg)"
  obtain as where as: "\<not> length as < n" "ts = take n as"
    and parts: "gc_candidate_group_partition (sg_trainer cfg) = ''stage'' \<and>
        traverse (stage_task (int W) schedule ids) [0..<S] = Inr as \<or>
      gc_candidate_group_partition (sg_trainer cfg) \<noteq> ''stage'' \<and>
        (\<exists>ts0. traverse (with_id ids) schedule = Inr ts0 \<and> as = concat (map (replicate ?k) ts0))"
    using assms(1,2,5,6,8) by (auto simp: candidate_task_assignments_def Let_def res_simps split: if_splits)
  have nth: "ts ! i = as ! i" "i < length as" using as assms(2) by simp_all
  from parts show ?thesis
  proof
    assume st: "gc_candidate_group_partition (sg_trainer cfg) = ''stage'' \<and> traverse (stage_task (int W) schedule ids) [0..<S] = Inr as"
    then have i: "i = st" using assms(3) by (simp add: plays_in_def)
    let ?tasks = "take W (drop (st * W) schedule)"
    have "stage_task (int W) schedule ids st = Inr (as ! i)"
      using traverse_nth [OF conjunct2 [OF st] nth(2)] assms(7) i by simp
    then have one: "length (remdups ?tasks) = 1" and id: "with_id ids (hd ?tasks) = Inr (as ! i)"
      by (auto simp: stage_task_def Let_def split: if_splits)
    have "?tasks ! r = schedule ! (st * W + r)" "r < length ?tasks" using assms(4,9) by simp_all
    then have "schedule ! (st * W + r) \<in> set ?tasks" by (metis nth_mem)
    from remdups_singleton [OF one this] id nth show ?thesis by simp
  next
    assume "gc_candidate_group_partition (sg_trainer cfg) \<noteq> ''stage'' \<and>
        (\<exists>ts0. traverse (with_id ids) schedule = Inr ts0 \<and> as = concat (map (replicate ?k) ts0))"
    then obtain ts0 where ts0: "traverse (with_id ids) schedule = Inr ts0" "as = concat (map (replicate ?k) ts0)"
      and i: "i div ?k = st * W + r" using assms(3,5) by (auto simp: plays_in_def)
    from nth_concat_replicate [of i ts0 ?k] nth ts0 i
    have "as ! i = ts0 ! (st * W + r)" "st * W + r < length ts0" by (simp_all add: length_concat_replicate)
    with traverse_nth [OF ts0(1)] nth show ?thesis by simp
  qed
qed

text \<open>
  C16. The trainer and the simulators agree on the tasks: the task and task id that the trainer plans for a group are
  those that every environment process playing in that group has been assigned, for both ways of
  forming groups.
\<close>

theorem planned_tasks_are_the_processes_tasks:
  assumes "robodojo_post_init (sg_robodojo cfg) = Inr ()" and "candidate_task_assignments cfg n = Inr ts" and "i < n"
    and "configured_env_worker_count cfg = int W" and "sg_stage_num cfg = int S" and "r < W" and "st < S"
    and "plays_in cfg i r st"
  shows "task_assignment (sg_robodojo cfg) (int r) (int W) (int st) (int S) = Inr (ts ! i)"
proof -
  obtain schedule ids where p: "process_tasks cfg = Inr (schedule, ids)"
    using assms(2) by (auto simp: candidate_task_assignments_def res_simps)
  have "length schedule = W * S"
    using p assms(4,5) by (auto simp: process_tasks_def Let_def split: if_splits simp flip: of_nat_mult)
  moreover have "Suc st * W \<le> S * W" using assms(7) by (intro mult_le_mono1) simp
  ultimately have "st * W + r < length schedule" using assms(6) by (simp add: mult.commute)
  from process_task(1) [OF assms(1) p assms(4-7) assigned_task [OF assms(2,3,8,6,4,5,7) p this]] show ?thesis .
qed

section \<open>Layouts\<close>

text \<open>
  C15. The trainer and the simulators agree on the conditions, also across restarts: let the simulators start
  from the cursor that a resume state records for schedule slot \<open>slot\<close>. Then in every wave \<open>j\<close> that the
  fleet draws, group \<open>i\<close> of the collated batch consists of \<open>G\<close> rows of the layout that the trainer plans for it,
  with \<open>G\<close> consecutive policy seeds that no other group gets.
\<close>

theorem planned_layouts_are_the_simulators_layouts:
  assumes "robodojo_post_init rd = Inr ()" and "sg_robodojo cfg = rd" and "repeated_mode rd"
    and "rd_train_layout_schedule rd \<noteq> []" and "rd_train_layout_repeat rd = int G" and "sg_num_envs cfg = int n" and "0 < n"
    and "S * (W * n) = width * G" and "groups_per_wave cfg = Inr (int width)" and "width dvd slot"
    and "rd_train_case_cursor_start rd = int slot div int width * sg_num_envs cfg"
  shows "\<exists>ds. fleet_draws rd W S n Train k (new_cases rd) = Inr ds \<and>
    (\<forall>j < k. \<forall>m \<le> width. \<exists>plan. planned_layouts cfg (slot + j * width) m = Inr plan \<and>
       (\<forall>i < m. take G (drop ((j * width + i) * G) (collated case_layouts k ds)) = replicate G (plan ! i) \<and>
          take G (drop ((j * width + i) * G) (collated case_seeds k ds)) =
            map (\<lambda>x. seed_base rd + int ((slot + j * width + i) * G + x)) [0..<G]))"
proof -
  have G: "0 < G" using post_init_train(1) [OF assms(1)] assms(5) by simp
  define w0 where "w0 = slot div width"
  have slot: "slot = w0 * width" using assms(10) by (simp add: w0_def)
  have cursor: "rd_train_case_cursor_start rd = int (w0 * n)"
    using assms(6,11) by (simp add: w0_def zdiv_int)
  have base: "w0 * (S * (W * n)) = slot * G" "k * (S * (W * n)) = k * width * G"
    by (simp_all add: assms(8) slot)
  obtain ds where ds: "fleet_draws rd W S n Train k (new_cases rd) = Inr ds"
    and rows: "collated case_layouts k ds = map (train_layout_at rd) [slot * G..<slot * G + k * width * G]"
      "collated case_seeds k ds = map (\<lambda>i. seed_base rd + int i) [slot * G..<slot * G + k * width * G]"
    using training_rows [OF assms(1,7,3) cursor, where stages = S and world = W and k = k] unfolding base by auto
  have layouts: "train_layouts rd = rd_train_layout_schedule rd"
    using assms(4) by (simp add: train_layouts_def or_else_def)
  define layout where "layout = (\<lambda>s i. rd_train_layout_schedule rd ! ((s + i) mod length (rd_train_layout_schedule rd)))"
  have plan: "planned_layouts cfg s m = Inr (map (layout s) [0..<m])" for s m
    using assms(2,4) by (simp add: planned_layouts_def Let_def layout_def)
  have group: "j * width + i < k * width" if "j < k" "i < m" "m \<le> width" for j i m
  proof -
    have "Suc j * width \<le> k * width" using that(1) by (intro mult_le_mono1) simp
    then show ?thesis using that(2,3) by simp
  qed
  have rows': "take G (drop ((j * width + i) * G) (collated case_layouts k ds)) = replicate G (layout (slot + j * width) i)"
    "take G (drop ((j * width + i) * G) (collated case_seeds k ds)) =
      map (\<lambda>x. seed_base rd + int ((slot + j * width + i) * G + x)) [0..<G]"
    if "j < k" "i < m" "m \<le> width" for j i m
    using G by (simp_all add: rows training_group [OF group [OF that] assms(5) G] layouts layout_def add.assoc)
  show ?thesis
    unfolding plan using ds by (auto simp: rows')
qed

end
