(* ===== verification/Grfpo_Samples.thy ===== *)
theory Grfpo_Samples
  imports Grfpo_Schedule
begin

text \<open>
  A GRFPO trainer on a small cluster, executed: one worker with two pipeline stages and groups of
  \<open>g\<close> trajectories of one condition. A process is killed while the first window of groups is open.
\<close>

section \<open>A cluster\<close>

text \<open>A rollout with consecutive policy seeds; every third one succeeds.\<close>

definition seeded_rollout :: "nat \<Rightarrow> nat \<Rightarrow> rollout" where
  "seeded_rollout base n =
     \<lparr>ro_len = n, ro_state = [],
      ro_ints = [(''obs.task_id'', Col1 (replicate n 4)), (''obs.suite_id'', Col1 (replicate n 1)),
                 (''obs.layout_id'', Col1 (replicate n 3)), (''obs.environment_seed'', Col1 (replicate n 5)),
                 (''obs.policy_seed'', Col1 (map int [base..<base + n]))],
      ro_strs = [(''obs.task'', Col1 (replicate n ''sort''))],
      ro_success = map (\<lambda>i. [[i mod 3 = 0]]) [base..<base + n],
      ro_terminated = map (\<lambda>i. [[i mod 3 = 0]]) [base..<base + n],
      ro_truncated = map (\<lambda>i. [[i mod 3 \<noteq> 0]]) [base..<base + n],
      ro_score = None\<rparr>"

definition first_seed :: "rollout \<Rightarrow> nat" where
  "first_seed r = (case map_of (ro_ints r) ''obs.policy_seed'' of Some (Col1 (x # _)) \<Rightarrow> nat x | _ \<Rightarrow> 0)"

definition wave_cluster :: "nat \<Rightarrow> (nat, nat, unit, unit) cluster_ops" where
  "wave_cluster g =
     \<lparr>co_rollout = (\<lambda>active seed.
        let n = (case active of None \<Rightarrow> g | Some k \<Rightarrow> g * k) in (Inr (seeded_rollout seed n, n), seed + 2 * g)),
      co_end_len = id,
      co_chunk = (\<lambda>k r. map (\<lambda>i. seeded_rollout (first_seed r + i * (ro_len r div k)) (ro_len r div k)) [0..<k]),
      co_chunk_end = (\<lambda>k e. replicate k (e div k)),
      co_concat = (\<lambda>rs. seeded_rollout (first_seed (hd rs)) (sum_list (map ro_len rs))),
      co_concat_end = sum_list,
      co_begin_collection = (\<lambda>s. (Inr (), s)), co_end_collection = (\<lambda>s. (Inr (), s)),
      co_train = (\<lambda>b s. (Inr (), s)), co_eval = (\<lambda>s. (Inr (), s)),
      co_weights = (\<lambda>s. ()), co_restore = (\<lambda>w s. s)\<rparr>"

lemma wave_cluster_sound: "sound_cluster (wave_cluster g)"
  by (auto simp: sound_cluster_def wave_cluster_def seeded_rollout_def Let_def split: if_splits)

section \<open>A job\<close>

definition job_trainer :: "int \<Rightarrow> grfpo_config" where
  "job_trainer g =
     \<lparr>gc_total_training_steps = 10, gc_gamma = 1, gc_gae_lambda = 1, gc_step_penalty = 0,
      gc_advantage_estimator = ''grpo_outcome'', gc_group_size = g, gc_accepted_groups_per_update = 2,
      gc_concurrent_candidate_groups = 2, gc_candidate_group_partition = ''stage'',
      gc_min_accepted_groups_for_partial_update = 1, gc_initial_candidate_groups_per_update = 0,
      gc_accepted_groups_before_optional_refill = 0, gc_max_candidate_groups_per_update = 6,
      gc_group_reward_source = ''binary_success'', gc_accepted_group_reduction = ''group_equal'',
      gc_informative_group_criterion = ''full_success_mixed'',
      gc_min_partial_trajectories_for_score_only_group = 1, gc_partial_score_threshold = 3 / 20,
      gc_async_rollout = False, gc_save_freq = 1, gc_eval_episodes = 50, gc_candidate_spool_dir = Some ''spool'',
      gc_candidate_resume_state_path = Some ''resume''\<rparr>"

definition job_config :: "int \<Rightarrow> int \<Rightarrow> sampling_config" where
  "job_config g cursor =
     \<lparr>sg_trainer = job_trainer g,
      sg_robodojo = sample_robodojo\<lparr>rd_task_id := 4, rd_train_layout_schedule := [3], rd_layout_ids := [3],
        rd_train_layout_repeat := g, rd_train_case_cursor_start := cursor\<rparr>,
      sg_device = ''gpu'', sg_nnodes = 1, sg_workers_per_node = 0, sg_gpus_per_node = 1, sg_num_envs = g,
      sg_stage_num = 2, sg_partition_by_worker = False, sg_partition_size = 0, sg_auto_reset = False,
      sg_execution_mode = ''serial'', sg_interpolation = False, sg_serial_smoothing = False,
      sg_informative_sampling = True, sg_architecture = ''fastwam'', sg_temperature = 1, sg_value_enabled = False,
      sg_model_value_enabled = False, sg_normalize_advantages = False, sg_value_only_updates = 0, sg_vf_coef = 0,
      sg_base_path = ''/model'', sg_base_sha256 = ''ab'', sg_evidence_jsonl = Some ''evidence.jsonl'',
      sg_candidate_evidence_jsonl = Some ''candidates.jsonl'', sg_test_freq = 0, sg_collection_only = False,
      sg_val_only = False, sg_val_before_train = False, sg_run_id = ''r''\<rparr>"

definition job_setup :: "int \<Rightarrow> (nat, nat, unit, unit) fit_setup" where
  "job_setup cursor =
     \<lparr>su_cfg = job_config 2 cursor, su_ops = wave_cluster 2, su_key_text = (\<lambda>_. []), su_digest = (\<lambda>x. x),
      su_prepare = (\<lambda>_. Inr ())\<rparr>"

definition blank_disk :: "(nat, nat, unit) fit_state" where
  "blank_disk =
     \<lparr>ft_cluster = 0, ft_files = [], ft_spool = [], ft_resume = None, ft_checkpoint = None, ft_kill = None,
      ft_steps = 0, ft_count = 0, ft_slot = 0, ft_counters = historical_counters []\<rparr>"

text \<open>The disk after a first process that completed \<open>k\<close> durable writes.\<close>

definition killed_after :: "nat \<Rightarrow> (nat, nat, unit) fit_state" where
  "killed_after k = snd (run_process (job_setup 0) 1 0 (Some k) blank_disk)"

lemma job_preemptible: "preemptible (job_config g cursor)"
  by (simp add: preemptible_def candidate_spool_root_def evidence_path_def truthy_str_def job_config_def job_trainer_def)

lemma job_setup_simps:
  "su_cfg (job_setup cursor) = job_config 2 cursor" "su_ops (job_setup cursor) = wave_cluster 2"
  "sg_trainer (job_config g cursor) = job_trainer g" "co_end_len (wave_cluster n) = id"
  "sg_val_only (job_config g cursor) = False" "sg_val_before_train (job_config g cursor) = False"
  by (simp_all add: job_setup_def job_config_def wave_cluster_def)

lemma same_job_config: "same_job (job_config g cursor) (job_config g cursor')"
  by (simp add: same_job_def job_config_def)

lemma blank_after: "after_processes (job_setup cursor) blank_disk"
  by (rule after_processes.blank) (simp_all add: blank_disk_def)

lemma killed_after: "after_processes (job_setup cursor) (killed_after k)"
  unfolding killed_after_def
  by (rule after_processes.process [OF blank_after]) (simp_all add: job_setup_simps wave_cluster_sound same_job_config)

section \<open>Preempted windows\<close>

definition seen_on_disk :: "(nat, nat, unit) fit_state \<Rightarrow> (nat \<times> bool) list \<times> bool \<times> bool" where
  "seen_on_disk s =
     (map (\<lambda>c. (cd_attempt c, cd_selected c)) (resume_candidate_records (job_config 2 0) 1 s),
      Option.is_none (ft_resume s), candidates_of (read_evidence (job_config 2 0) True s) = [])"

lemma seen_after_two_writes: "seen_on_disk (killed_after 2) = ([(1, True)], True, False)"
  by code_simp

lemmas killed_in_first_batch = seen_after_two_writes [unfolded seen_on_disk_def prod.inject]

theorem preempted_window_resumes_witness:
  "\<exists>r e c. traverse (load_spooled_candidate (job_config 2 0) id (killed_after 2))
      (filter cd_selected (resume_candidate_records (job_config 2 0) 1 (killed_after 2))) = Inr [(r, e, c)] \<and> ro_len r = 2 \<and> e = 2"
proof -
  obtain c0 where "resume_candidate_records (job_config 2 0) 1 (killed_after 2) = [c0]" "cd_selected c0"
    using killed_in_first_batch by auto
  moreover have "group_size_of (job_config 2 0) = 2" by (simp add: job_config_def job_trainer_def)
  ultimately show ?thesis
    using preempted_window_resumes [of "job_setup 0" "killed_after 2" "killed_after 2" 1]
    by (auto simp: job_setup_simps job_preemptible killed_after same_disk_def)
qed

definition first_window :: "(candidate list \<times> nat group_data list) result \<times> (nat, nat, unit) fit_state" where
  "first_window = collect_for_update (job_setup 0) 1 1 blank_disk"

definition sizes_and_step :: "(candidate list \<times> nat group_data list) result \<times> (nat, nat, unit) fit_state \<Rightarrow> bool" where
  "sizes_and_step = (\<lambda>(w, s). ft_steps s = 0 \<and>
     (case w of Inr (records, accepted) \<Rightarrow> length records = 2 \<and> length accepted = 2 | Inl _ \<Rightarrow> False))"

lemma first_window_sizes: "sizes_and_step first_window"
  by code_simp

theorem window_takes_the_first_informative_groups_witness:
  "\<exists>records accepted. fst first_window = Inr (records, accepted) \<and>
     map (snd \<circ> snd) accepted = take 2 (filter informative records) \<and> length accepted = 2 \<and>
     traverse (load_spooled_candidate (job_config 2 0) id (snd first_window)) (filter cd_selected records) = Inr accepted"
proof -
  obtain records accepted s1 where w: "first_window = (Inr (records, accepted), s1)" "length accepted = 2" "ft_steps s1 = 0"
    using first_window_sizes by (cases first_window) (auto simp: sizes_and_step_def split: sum.splits)
  have "ft_steps s1 = ft_steps blank_disk \<Longrightarrow> ?thesis"
    using window_takes_the_first_informative_groups
      [of "job_setup 0" blank_disk blank_disk 1 1 records accepted s1] w
    by (auto simp: job_setup_simps job_preemptible wave_cluster_sound blank_after same_disk_def
        first_window_def job_trainer_def)
  then show ?thesis using w by (simp add: blank_disk_def)
qed


section \<open>Plans\<close>

text \<open>Two groups of eight for every stage of the worker, a target of five and a budget of seven.\<close>

definition worker_stage_job :: sampling_config where
  "worker_stage_job = (job_config 8 0)
     \<lparr>sg_trainer := (job_trainer 8)\<lparr>gc_candidate_group_partition := ''worker_stage'', gc_accepted_groups_per_update := 5,
        gc_concurrent_candidate_groups := 4, gc_max_candidate_groups_per_update := 7\<rparr>,
      sg_robodojo := (sg_robodojo (job_config 8 0))\<lparr>rd_worker_stage_task_schedule := [''sort'', ''stack_bowls'']\<rparr>,
      sg_num_envs := 16, sg_partition_by_worker := True, sg_partition_size := 8\<rparr>"

theorem batches_fill_whole_stages_witness:
  "\<exists>n. next_batch_size worker_stage_job 5 3 = Inr n \<and> n mod 2 = 0 \<and> 1 \<le> n div 2 \<and> n \<le> 3"
proof -
  have "new_grfpo_trainer worker_stage_job = Inr ()" "candidate_groups_per_stage worker_stage_job = Inr 2"
    "window_open worker_stage_job 5 3" "0 < sg_stage_num worker_stage_job"
    by code_simp+
  from batches_fill_whole_stages [OF this(1,4,2,3)] show ?thesis
    by (force simp: worker_stage_job_def job_config_def job_trainer_def Let_def)
qed

theorem planned_tasks_are_the_processes_tasks_witness:
  "task_assignment (sg_robodojo worker_stage_job) (int 0) (int 1) (int 1) (int 2) = Inr (''stack_bowls'', 0)"
proof -
  have "robodojo_post_init (sg_robodojo worker_stage_job) = Inr ()"
    "candidate_task_assignments worker_stage_job 3 = Inr [(''sort'', 1), (''sort'', 1), (''stack_bowls'', 0)]"
    "configured_env_worker_count worker_stage_job = int 1" "sg_stage_num worker_stage_job = int 2"
    "plays_in worker_stage_job 2 0 1"
    by code_simp+
  from planned_tasks_are_the_processes_tasks [OF this(1,2) _ this(3,4) _ _ this(5)] show ?thesis
    by (simp add: numeral_2_eq_2)
qed

theorem planned_layouts_are_the_simulators_layouts_witness:
  "\<exists>ds plan. fleet_draws (sg_robodojo (job_config 8 8)) 1 2 8 Train 1 (new_cases (sg_robodojo (job_config 8 8))) = Inr ds \<and>
     planned_layouts (job_config 8 8) 2 2 = Inr plan \<and>
     take 8 (drop 8 (collated case_layouts 1 ds)) = replicate 8 (plan ! 1)"
proof -
  have "robodojo_post_init (sg_robodojo (job_config 8 8)) = Inr ()" "repeated_mode (sg_robodojo (job_config 8 8))"
    "rd_train_layout_schedule (sg_robodojo (job_config 8 8)) \<noteq> []"
    "rd_train_layout_repeat (sg_robodojo (job_config 8 8)) = int 8" "sg_num_envs (job_config 8 8) = int 8"
    "groups_per_wave (job_config 8 8) = Inr (int 2)"
    "rd_train_case_cursor_start (sg_robodojo (job_config 8 8)) = int 2 div int 2 * sg_num_envs (job_config 8 8)"
    by code_simp+
  from planned_layouts_are_the_simulators_layouts [OF this(1) refl this(2-5) _ _ this(6) _ this(7), of 2 1 1]
  obtain ds where ds: "fleet_draws (sg_robodojo (job_config 8 8)) 1 2 8 Train 1 (new_cases (sg_robodojo (job_config 8 8))) = Inr ds"
    and plans: "\<forall>m \<le> 2. \<exists>plan. planned_layouts (job_config 8 8) 2 m = Inr plan \<and>
      (\<forall>i < m. take 8 (drop (i * 8) (collated case_layouts 1 ds)) = replicate 8 (plan ! i))"
    by fastforce
  from plans [rule_format, of 2] obtain plan where "planned_layouts (job_config 8 8) 2 2 = Inr plan"
    and "\<forall>i < 2. take 8 (drop (i * 8) (collated case_layouts 1 ds)) = replicate 8 (plan ! i)"
    by auto
  with ds show ?thesis by (intro exI [of _ ds] exI [of _ plan]) (drule spec [of _ 1], simp)
qed

end
