(* ===== verification/Spooled_Trainer.thy ===== *)
theory Spooled_Trainer
  imports Collection_Store
begin

text \<open>
  train_cluster/checkpoint.py and trainer/grfpo/spooled_trainer.py: the single update that is
  trained from a closed collection window, and the checkpoints it starts from and leaves.

  What survives a crash is the record \<open>disk\<close>: the checkpoint directories, each complete with its
  weights \<open>'w\<close> or still incomplete, and the marker of the latest step. A crash is an argument: the
  process dies after so many of the durable writes of its update. The batch that the selected
  groups become (\<open>prepare\<close>) and the update on it (\<open>update\<close>) are functions, the update being
  deterministic; \<open>latest\<close> is verl's \<open>find_latest_ckpt_path\<close>, \<open>resolve\<close> is \<open>Path.resolve\<close>.
  Metrics and times of a receipt are its argument \<open>extra\<close>. HDFS copies, the deletion of local
  checkpoints and the completion of asynchronous saves are left out.
\<close>

section \<open>Checkpoints\<close>

record checkpoint_config =
  ck_resume_mode :: string
  ck_resume_from_path :: "string option"
  ck_default_local_dir :: string
  ck_default_hdfs_dir :: "string option"
  ck_async_save :: bool

record 'w disk =
  dk_checkpoints :: "(string \<times> 'w option) list"
  dk_latest :: "nat option"

definition step_dir :: "checkpoint_config \<Rightarrow> nat \<Rightarrow> string" where
  "step_dir cfg step = ck_default_local_dir cfg @ ''/global_step_'' @ nat_str step"

text \<open>\<open>re.search(r"global_step_(\d+)", s)\<close>: the first place where digits follow the name.\<close>

fun search_step :: "string \<Rightarrow> nat option" where
  "search_step [] = None"
| "search_step (c # cs) =
     (case strip_prefix ''global_step_'' (c # cs) of
        Some r \<Rightarrow> (if takeWhile isdigit_char r \<noteq> [] then Some (parse_nat (takeWhile isdigit_char r)) else search_step cs)
      | None \<Rightarrow> search_step cs)"

definition parse_global_step :: "string \<Rightarrow> nat result" where
  "parse_global_step dir = (case search_step dir of None \<Rightarrow> Inl ValueError | Some n \<Rightarrow> Inr n)"

definition is_absolute :: "string \<Rightarrow> bool" where
  "is_absolute p = (case p of [] \<Rightarrow> False | c # _ \<Rightarrow> c = CHR ''/'')"

fun has_infix :: "string \<Rightarrow> string \<Rightarrow> bool" where
  "has_infix p [] = (p = [])"
| "has_infix p (c # cs) = (strip_prefix p (c # cs) \<noteq> None \<or> has_infix p cs)"

definition find_resume_checkpoint_dir ::
  "string \<Rightarrow> ('w disk \<Rightarrow> string option) \<Rightarrow> checkpoint_config \<Rightarrow> 'w disk \<Rightarrow> string option result" where
  "find_resume_checkpoint_dir cwd latest cfg d =
     (if ck_resume_mode cfg = ''disable'' then Inr None
      else if ck_default_hdfs_dir cfg \<noteq> None then Inl NotImplementedError
      else
        bind_res
          (if ck_resume_mode cfg = ''resume_path'' then
             (case ck_resume_from_path cfg of
                None \<Rightarrow> Inl TypeError
              | Some p \<Rightarrow> if has_infix ''global_step_'' p then Inr (Some p) else Inl ValueError)
           else Inr (latest d))
          (\<lambda>dir. Inr (case dir of None \<Rightarrow> None | Some p \<Rightarrow> Some (if is_absolute p then p else cwd @ ''/'' @ p))))"

definition read_checkpoint :: "string \<Rightarrow> 'w disk \<Rightarrow> 'w result" where
  "read_checkpoint dir d =
     (case map_of (dk_checkpoints d) dir of
        None \<Rightarrow> Inl FileNotFoundError | Some None \<Rightarrow> Inl OSError | Some (Some w) \<Rightarrow> Inr w)"

text \<open>\<open>load\<close>: the step and path found, with the weights of the actor afterwards.\<close>

definition load_checkpoint ::
  "string \<Rightarrow> ('w disk \<Rightarrow> string option) \<Rightarrow> checkpoint_config \<Rightarrow> 'w \<Rightarrow> 'w disk \<Rightarrow> ((nat \<times> string) option \<times> 'w) result" where
  "load_checkpoint cwd latest cfg fresh d =
     bind_res (find_resume_checkpoint_dir cwd latest cfg d) (\<lambda>dir.
       case dir of
         None \<Rightarrow> Inr (None, fresh)
       | Some p \<Rightarrow>
           bind_res (parse_global_step p) (\<lambda>step.
           bind_res (read_checkpoint p d) (\<lambda>w. Inr (Some (step, p), w))))"

text \<open>
  The durable writes of \<open>save\<close>, in order. An asynchronous save has only begun when \<open>save\<close> returns,
  and leaves the marker to its own completion.
\<close>

definition save_writes :: "checkpoint_config \<Rightarrow> nat \<Rightarrow> 'w \<Rightarrow> ('w disk \<Rightarrow> 'w disk) list" where
  "save_writes cfg step w =
     (\<lambda>d. d\<lparr>dk_checkpoints := AList.update (step_dir cfg step) None (dk_checkpoints d)\<rparr>) #
     (if ck_async_save cfg then []
      else [\<lambda>d. d\<lparr>dk_checkpoints := AList.update (step_dir cfg step) (Some w) (dk_checkpoints d)\<rparr>,
            \<lambda>d. d\<lparr>dk_latest := Some step\<rparr>])"

definition apply_writes :: "('w disk \<Rightarrow> 'w disk) list \<Rightarrow> 'w disk \<Rightarrow> 'w disk" where
  "apply_writes ws d = foldl (\<lambda>d f. f d) d ws"

section \<open>The trainer\<close>

record actor_contract =
  ac_micro_batch_size :: int
  ac_value_enabled :: bool
  ac_vf_coef :: rat
  ac_normalize_advantages :: bool
  ac_fpo_enabled :: bool
  ac_fpo_value_enabled :: bool
  ac_flow_grpo_enabled :: bool

definition validate_actor_contract :: "actor_contract \<Rightarrow> unit result" where
  "validate_actor_contract a =
     (if ac_value_enabled a \<or> ac_vf_coef a \<noteq> 0 then Inl ValueError
      else if ac_normalize_advantages a then Inl ValueError
      else if \<not> ac_fpo_enabled a then Inl ValueError
      else if ac_fpo_value_enabled a then Inl ValueError
      else if ac_flow_grpo_enabled a then Inl ValueError
      else Inr ())"

definition new_spooled_trainer :: "window_spec \<Rightarrow> actor_contract \<Rightarrow> unit result" where
  "new_spooled_trainer spec a =
     (if ac_micro_batch_size a \<le> 0 then Inl ValueError
      else if sp_objective spec \<noteq> ''fpo'' then Inl ValueError
      else validate_actor_contract a)"

text \<open>The arguments that do not change between attempts.\<close>

record ('d, 'w, 'b) trainer =
  st_dlen :: "'d \<Rightarrow> nat"
  st_root :: path
  st_spec :: window_spec
  st_receipt :: "path option"
  st_checkpoint :: checkpoint_config
  st_cwd :: string
  st_latest :: "'w disk \<Rightarrow> string option"
  st_resolve :: "string \<Rightarrow> string"
  st_fresh :: 'w
  st_prepare :: "('d \<times> 'd \<times> group_record) list \<Rightarrow> 'b result"
  st_update :: "'w \<Rightarrow> 'b \<Rightarrow> 'w result"

definition check_policy :: "('d, 'w, 'b) trainer \<Rightarrow> (nat \<times> string) option \<Rightarrow> unit result" where
  "check_policy st loaded =
     (let pol = sp_policy (st_spec st) in
      case trainer_checkpoint_path pol of
        None \<Rightarrow> require (loaded = None \<and> rollout_policy_version pol = 0) RuntimeError
      | Some expected \<Rightarrow>
          (case loaded of
             None \<Rightarrow> Inl RuntimeError
           | Some (step, p) \<Rightarrow>
               bind_res (require (int step = rollout_policy_version pol) RuntimeError) (\<lambda>_.
                 require (st_resolve st p = st_resolve st expected) RuntimeError)))"

definition load_actor_input :: "('d, 'w, 'b) trainer \<Rightarrow> 'd window \<Rightarrow> ('b \<times> nat) result" where
  "load_actor_input st w =
     bind_res (load_selected_groups (st_dlen st) (st_root st) (st_spec st) w) (\<lambda>groups.
     bind_res (require (groups \<noteq> []) RuntimeError) (\<lambda>_.
     bind_res (st_prepare st groups) (\<lambda>b. Inr (b, length groups))))"

definition receipt_payload :: "('d, 'w, 'b) trainer \<Rightarrow> nat \<Rightarrow> dict \<Rightarrow> dict" where
  "receipt_payload st groups extra =
     (let spec = st_spec st in
      [(''actor_objective'', JStr ''fpo''),
       (''rollout_policy_version'', JInt (rollout_policy_version (sp_policy spec))),
       (''new_policy_version'', JInt (sp_intended_update spec)),
       (''selected_groups'', JInt (int groups)),
       (''accepted_training_trajectories'', JInt (int groups * sp_group_size spec)),
       (''checkpoint_dir'', JStr (st_resolve st (step_dir (st_checkpoint st) (nat (sp_intended_update spec)))))] @ extra)"

text \<open>Everything before the first durable write: the new weights and the number of groups.\<close>

definition compute_update :: "('d, 'w, 'b) trainer \<Rightarrow> 'd window \<Rightarrow> 'w disk \<Rightarrow> ('w \<times> nat) result" where
  "compute_update st w d =
     bind_res (load_checkpoint (st_cwd st) (st_latest st) (st_checkpoint st) (st_fresh st) d) (\<lambda>(loaded, weights).
     bind_res (check_policy st loaded) (\<lambda>_.
     bind_res (load_actor_input st w) (\<lambda>(batch, groups).
     bind_res (st_update st weights batch) (\<lambda>weights'. Inr (weights', groups)))))"

datatype attempt_result = Receipt dict | Failed py_error | Crashed

text \<open>\<open>crash = Some k\<close>: the process dies after \<open>k\<close> durable writes, the receipt being the last.\<close>

definition fit_one_update ::
  "('d, 'w, 'b) trainer \<Rightarrow> nat option \<Rightarrow> dict \<Rightarrow> 'd window \<times> 'w disk \<Rightarrow> attempt_result \<times> 'd window \<times> 'w disk" where
  "fit_one_update st crash extra = (\<lambda>(w, d).
     let spec = st_spec st in
     if sp_intended_update spec \<noteq> rollout_policy_version (sp_policy spec) + 1 then (Failed ValueError, w, d)
     else
       case training_transaction (st_root st) spec (st_receipt st) (\<lambda>existing w.
         case existing of
           Some r \<Rightarrow> (Inr (Receipt r, d), w)
         | None \<Rightarrow>
             (case compute_update st w d of
                Inl e \<Rightarrow> (Inr (Failed e, d), w)
              | Inr (weights, groups) \<Rightarrow>
                  let writes = save_writes (st_checkpoint st) (nat (sp_intended_update spec)) weights;
                      payload = receipt_payload st groups extra
                  in case crash of
                       Some k \<Rightarrow> (Inr (Crashed, apply_writes (take k writes) d), w)
                     | None \<Rightarrow>
                         (case write_training_receipt (st_root st) spec (st_receipt st) payload w of
                            (Inl e, w') \<Rightarrow> (Inr (Failed e, apply_writes writes d), w')
                          | (Inr _, w') \<Rightarrow> (Inr (Receipt payload, apply_writes writes d), w')))) w of
         (Inr (out, d'), w') \<Rightarrow> (out, w', d')
       | (Inl e, w') \<Rightarrow> (Failed e, w', d))"

end
