(* ===== verification/Spooled_Trainer_Properties.thy ===== *)
theory Spooled_Trainer_Properties
  imports Spooled_Trainer Collection_Properties
begin

text \<open>
  The update of a closed window is trained once, from the collected policy, however often the
  trainer is killed and whatever collectors still do to the window.
\<close>

section \<open>What a crash leaves\<close>

lemma read_checkpoint_update:
  "read_checkpoint dir (d\<lparr>dk_checkpoints := AList.update k v (dk_checkpoints d)\<rparr>) =
   (if dir = k then (case v of None \<Rightarrow> Inl OSError | Some w \<Rightarrow> Inr w) else read_checkpoint dir d)"
  by (auto simp: read_checkpoint_def update_conv' split: option.splits)

lemma read_checkpoint_latest [simp]: "read_checkpoint dir (d\<lparr>dk_latest := x\<rparr>) = read_checkpoint dir d"
  by (simp add: read_checkpoint_def)


lemma saved:
  "\<not> ck_async_save cfg \<Longrightarrow> read_checkpoint (step_dir cfg step) (apply_writes (save_writes cfg step w) d) = Inr w"
  by (simp add: save_writes_def apply_writes_def read_checkpoint_update)

section \<open>Where an attempt starts\<close>

text \<open>The launcher pins the policy: no checkpoint, or an explicit path, but not the latest one.\<close>

definition pinned :: "('d, 'w, 'b) trainer \<Rightarrow> bool" where
  "pinned st \<longleftrightarrow>
     (let cfg = st_checkpoint st; own = step_dir cfg (nat (sp_intended_update (st_spec st))) in
      ck_resume_mode cfg = ''disable'' \<or>
      (ck_resume_mode cfg = ''resume_path'' \<and>
       (case ck_resume_from_path cfg of None \<Rightarrow> True
        | Some p \<Rightarrow> (if is_absolute p then p else st_cwd st @ ''/'' @ p) \<noteq> own)))"





definition unreceipted :: "('d, 'w, 'b) trainer \<Rightarrow> 'd window \<Rightarrow> bool" where
  "unreceipted st w \<longleftrightarrow> map_of (w_receipts w) (receipt_file (st_root st) (st_spec st) (st_receipt st)) = None"





section \<open>Steps in checkpoint paths\<close>

lemma strip_prefix_slash:
  "CHR ''/'' \<notin> set p \<Longrightarrow> strip_prefix p (s @ CHR ''/'' # t) = Some r \<Longrightarrow>
   \<exists>r'. strip_prefix p s = Some r' \<and> r = r' @ CHR ''/'' # t"
proof (induction p arbitrary: s)
  case (Cons c p)
  then show ?case by (cases s) (auto split: if_splits)
qed simp

lemma takeWhile_digits_slash: "takeWhile isdigit_char (r @ CHR ''/'' # t) = takeWhile isdigit_char r"
  by (induction r) (simp_all add: isdigit_char_def)

lemma search_step_slash: "search_step s = None \<Longrightarrow> search_step (s @ CHR ''/'' # t) = search_step t"
proof (induction s)
  case (Cons c s)
  have "strip_prefix ''global_step_'' (c # s @ CHR ''/'' # t) = None \<or>
      (\<exists>r'. strip_prefix ''global_step_'' (c # s) = Some r' \<and>
        strip_prefix ''global_step_'' (c # s @ CHR ''/'' # t) = Some (r' @ CHR ''/'' # t))"
    using strip_prefix_slash [of "''global_step_''" "c # s" t]
    by (cases "strip_prefix ''global_step_'' (c # s @ CHR ''/'' # t)") auto
  with Cons show ?case
    unfolding append_Cons search_step.simps(2)
    by (auto simp: takeWhile_digits_slash simp del: strip_prefix.simps split: option.splits if_splits)
qed simp

lemma digits_all: "takeWhile isdigit_char (nat_str n) = nat_str n" "nat_str n \<noteq> []"
  using nat_str_isdigit [of n] by (auto simp: str_isdigit_def list_all_iff)

lemma parse_step_dir:
  assumes "search_step (ck_default_local_dir cfg) = None"
  shows "search_step (step_dir cfg n) = Some n"
proof -
  have "search_step (''global_step_'' @ nat_str n) = Some n"
    by (simp add: digits_all)
  then show ?thesis
    using search_step_slash [OF assms, of "''global_step_'' @ nat_str n"] by (simp add: step_dir_def)
qed

text \<open>
  With \<open>resume_mode=auto\<close> the same crash is fatal: once the new checkpoint and its marker are written but not the
  receipt, the latest checkpoint is the new one, so that every later attempt loads it, finds the wrong
  step and raises RuntimeError; no receipt is ever written.
\<close>

theorem auto_resume_blocks_the_window:
  assumes "compute_update st w d = Inr (w1, groups)" and "unreceipted st w"
    and "sp_intended_update (st_spec st) = rollout_policy_version (sp_policy (st_spec st)) + 1"
    and "0 \<le> rollout_policy_version (sp_policy (st_spec st))"
    and "ck_resume_mode (st_checkpoint st) = ''auto''" and "ck_default_hdfs_dir (st_checkpoint st) = None"
    and "\<not> ck_async_save (st_checkpoint st)" and "is_absolute (ck_default_local_dir (st_checkpoint st))"
    and "search_step (ck_default_local_dir (st_checkpoint st)) = None"
    and "\<And>d n. dk_latest d = Some n \<Longrightarrow> st_latest st d = Some (step_dir (st_checkpoint st) n)"
    and "fit_one_update st (Some k) extra (w, d) = (Crashed, s')" and "3 \<le> k"
  shows "fit_one_update st crash extra' s' = (Failed RuntimeError, s')"
proof -
  let ?n = "nat (sp_intended_update (st_spec st))" and ?cfg = "st_checkpoint st"
  let ?d = "apply_writes (save_writes ?cfg ?n w1) d"
  have none: "map_of (w_receipts w) (receipt_file (st_root st) (st_spec st) (st_receipt st)) = None"
    using assms(2) by (simp add: unreceipted_def)
  have "take k (save_writes ?cfg ?n w1) = save_writes ?cfg ?n w1" using assms(7,12) by (simp add: save_writes_def)
  then have s': "s' = (w, ?d)"
    using assms(1,3,11) none by (simp add: fit_one_update_def training_transaction_def Let_def)
  have "dk_latest ?d = Some ?n" using assms(7) by (simp add: save_writes_def apply_writes_def)
  moreover have "is_absolute (step_dir ?cfg ?n)"
    using assms(8) by (auto simp: is_absolute_def step_dir_def split: list.splits)
  ultimately have "load_checkpoint (st_cwd st) (st_latest st) ?cfg (st_fresh st) ?d = Inr (Some (?n, step_dir ?cfg ?n), w1)"
    using saved [OF assms(7), of ?n w1 d] assms(5,6,10) parse_step_dir [OF assms(9)]
    by (simp add: load_checkpoint_def find_resume_checkpoint_dir_def parse_global_step_def)
  moreover have "check_policy st (Some (?n, step_dir ?cfg ?n)) = Inl RuntimeError"
    using assms(3,4) by (auto simp: check_policy_def Let_def require_def split: option.split)
  ultimately have "compute_update st w ?d = Inl RuntimeError" by (simp add: compute_update_def)
  then show ?thesis
    using none assms(3) by (simp add: fit_one_update_def training_transaction_def s')
qed

section \<open>A run\<close>

definition sample_trainer :: "string \<Rightarrow> (nat, nat, nat) trainer" where
  "sample_trainer mode =
     \<lparr>st_dlen = id, st_root = [], st_spec = sample_spec, st_receipt = None,
      st_checkpoint = \<lparr>ck_resume_mode = mode, ck_resume_from_path = Some ''/c/global_step_3'',
        ck_default_local_dir = ''/c'', ck_default_hdfs_dir = None, ck_async_save = False\<rparr>,
      st_cwd = ''/'', st_latest = (\<lambda>d. map_option (\<lambda>n. ''/c/global_step_'' @ nat_str n) (dk_latest d)),
      st_resolve = id, st_fresh = 0, st_prepare = (\<lambda>gs. Inr (length gs)), st_update = (\<lambda>w b. Inr (w + b))\<rparr>"

definition sample_disk :: "nat disk" where
  "sample_disk = \<lparr>dk_checkpoints = [(''/c/global_step_3'', Some 10)], dk_latest = Some 3\<rparr>"

lemma sample_update: "compute_update (sample_trainer mode) w_closed_sample sample_disk = Inr (11, 1)"
  if "mode \<in> {''resume_path'', ''auto''}"
proof -
  have "compute_update (sample_trainer ''resume_path'') w_closed_sample sample_disk = Inr (11, 1)"
    "compute_update (sample_trainer ''auto'') w_closed_sample sample_disk = Inr (11, 1)" by code_simp+
  with that show ?thesis by auto
qed

lemma sample_trainer_facts:
  "unreceipted (sample_trainer mode) w_closed_sample" "pinned (sample_trainer ''resume_path'')"
  by code_simp+


lemma auto_resume_blocks_sample:
  "fit_one_update (sample_trainer ''auto'') None [] (snd (fit_one_update (sample_trainer ''auto'') (Some 3) [] (w_closed_sample, sample_disk))) =
     (Failed RuntimeError, snd (fit_one_update (sample_trainer ''auto'') (Some 3) [] (w_closed_sample, sample_disk)))"
proof -
  let ?st = "sample_trainer ''auto''"
  have c: "fit_one_update ?st (Some 3) [] (w_closed_sample, sample_disk) =
      (Crashed, snd (fit_one_update ?st (Some 3) [] (w_closed_sample, sample_disk)))"
  proof -
    have "(case fst (fit_one_update ?st (Some 3) [] (w_closed_sample, sample_disk)) of Crashed \<Rightarrow> True | _ \<Rightarrow> False)" by code_simp
    then have "fst (fit_one_update ?st (Some 3) [] (w_closed_sample, sample_disk)) = Crashed"
      by (auto split: attempt_result.splits)
    then show ?thesis by (simp add: prod_eq_iff)
  qed
  show ?thesis
    by (rule auto_resume_blocks_the_window [OF sample_update [of "''auto''"] sample_trainer_facts(1) _ _ _ _ _ _ _ _ c])
      (simp_all add: sample_trainer_def sample_spec_def sample_policy_def is_absolute_def step_dir_def)
qed

end
