(* ===== verification/Trajectory_Records.thy ===== *)
theory Trajectory_Records
  imports Prelude
begin

text \<open>
  train_cluster/cluster.py, the episode bookkeeping of \<open>TrainCluster\<close>: the record of every
  trajectory in a rollout batch, with and without automatic resets, the metrics computed from
  them and the acceptance loop of a fixed-case evaluation. A batch is a list of rows, a row a
  list of policy chunks, a chunk its low-level steps. Rewards are exact rationals.
\<close>

section \<open>Batches and records\<close>

record chunk =
  ck_done :: "bool list"
  ck_reward :: "rat list"
  ck_success :: "bool list"
  ck_score :: "rat list option"
  ck_task_id :: int
  ck_case_id :: "int option"
  ck_meta :: "(string \<times> int) list"

record trajectory_record =
  tr_length :: nat
  tr_chunk_length :: nat
  tr_return :: rat
  tr_success :: bool
  tr_task_id :: int
  tr_score :: "rat option"
  tr_case_id :: "int option"
  tr_meta :: "(string \<times> int) list"

record carry =
  ca_length :: "nat list"
  ca_reward :: "rat list"

definition first_done :: "bool list \<Rightarrow> nat option" where
  "first_done ds = (if list_ex id ds then Some (length (takeWhile Not ds)) else None)"

section \<open>With automatic resets\<close>

text \<open>What one lane carries: steps and reward of the episode it is in.\<close>

type_synonym lane_carry = "nat \<times> rat"

definition chunk_record :: "nat \<Rightarrow> lane_carry \<Rightarrow> nat \<Rightarrow> chunk \<Rightarrow> trajectory_record" where
  "chunk_record chunk_steps c done_idx k =
     (let len = fst c + done_idx + 1 in
      \<lparr>tr_length = len, tr_chunk_length = (len + chunk_steps - 1) div chunk_steps,
       tr_return = snd c + sum_list (take (done_idx + 1) (ck_reward k)),
       tr_success = list_ex id (take (done_idx + 1) (ck_success k)),
       tr_task_id = ck_task_id k,
       tr_score = map_option (\<lambda>ss. ss ! done_idx) (ck_score k),
       tr_case_id = ck_case_id k, tr_meta = []\<rparr>)"

definition at_limit :: "nat option \<Rightarrow> trajectory_record list \<Rightarrow> bool" where
  "at_limit remaining records = (case remaining of None \<Rightarrow> False | Some m \<Rightarrow> m \<le> length records)"

fun scan_lane ::
  "nat \<Rightarrow> nat option \<Rightarrow> lane_carry \<Rightarrow> trajectory_record list \<Rightarrow> chunk list \<Rightarrow>
   lane_carry \<times> trajectory_record list" where
  "scan_lane chunk_steps remaining c records [] = (c, records)"
| "scan_lane chunk_steps remaining c records (k # ks) =
     (if at_limit remaining records then (c, records)
      else case first_done (ck_done k) of
        None \<Rightarrow> scan_lane chunk_steps remaining (fst c + chunk_steps, snd c + sum_list (ck_reward k)) records ks
      | Some i \<Rightarrow>
          scan_lane chunk_steps remaining (0, 0) (records @ [chunk_record chunk_steps c i k]) ks)"

fun scan_rows ::
  "nat \<Rightarrow> nat option \<Rightarrow> nat \<Rightarrow> chunk list list \<Rightarrow> carry \<Rightarrow> trajectory_record list \<Rightarrow>
   carry \<times> trajectory_record list" where
  "scan_rows chunk_steps remaining b [] ca records = (ca, records)"
| "scan_rows chunk_steps remaining b (row # rows) ca records =
     (if at_limit remaining records then (ca, records)
      else
        let (c, records') = scan_lane chunk_steps remaining (ca_length ca ! b, ca_reward ca ! b) records row;
            ca' = (if at_limit remaining records' then ca
                   else ca\<lparr>ca_length := (ca_length ca)[b := fst c], ca_reward := (ca_reward ca)[b := snd c]\<rparr>)
        in scan_rows chunk_steps remaining (Suc b) rows ca' records')"

section \<open>Without automatic resets\<close>

text \<open>One record per row: up to its first done step, or all of it.\<close>

definition row_record :: "nat \<Rightarrow> chunk list \<Rightarrow> trajectory_record" where
  "row_record chunk_steps row =
     (let ds = concat (map ck_done row);
          i = (case first_done ds of Some i \<Rightarrow> i | None \<Rightarrow> length ds - 1)
      in \<lparr>tr_length = i + 1, tr_chunk_length = i div chunk_steps + 1,
          tr_return = sum_list (take (i + 1) (concat (map ck_reward row))),
          tr_success = list_ex id (take (i + 1) (concat (map ck_success row))),
          tr_task_id = ck_task_id (hd row),
          tr_score = map_option (\<lambda>_. concat (map (\<lambda>k. case ck_score k of Some ss \<Rightarrow> ss | None \<Rightarrow> []) row) ! i)
                       (ck_score (hd row)),
          tr_case_id = ck_case_id (hd row), tr_meta = ck_meta (hd row)\<rparr>)"

definition non_auto_reset_records :: "nat \<Rightarrow> nat option \<Rightarrow> chunk list list \<Rightarrow> trajectory_record list" where
  "non_auto_reset_records chunk_steps remaining rows =
     map (row_record chunk_steps) (case remaining of None \<Rightarrow> rows | Some m \<Rightarrow> take m rows)"

definition fresh_carry :: "nat \<Rightarrow> carry" where
  "fresh_carry n = \<lparr>ca_length = replicate n 0, ca_reward = replicate n 0\<rparr>"

definition collect_trajectory_records ::
  "bool \<Rightarrow> nat \<Rightarrow> nat option \<Rightarrow> carry option \<Rightarrow> chunk list list \<Rightarrow> carry option \<times> trajectory_record list" where
  "collect_trajectory_records auto_reset chunk_steps remaining carry_state rows =
     (if remaining = Some 0 then (carry_state, [])
      else if \<not> auto_reset then (carry_state, non_auto_reset_records chunk_steps remaining rows)
      else
        let ca = (case carry_state of None \<Rightarrow> fresh_carry (length rows) | Some ca \<Rightarrow> ca);
            (ca', records) = scan_rows chunk_steps remaining 0 rows ca []
        in (Some ca', records))"

section \<open>Metrics\<close>

definition mean_or_zero :: "rat list \<Rightarrow> rat" where
  "mean_or_zero xs = (if xs = [] then 0 else sum_list xs / of_nat (length xs))"

definition ratio_or_zero :: "nat \<Rightarrow> nat \<Rightarrow> rat" where
  "ratio_or_zero k n = (if 0 < n then of_nat k / of_nat n else 0)"

definition PARTIAL_SCORE :: rat where
  "PARTIAL_SCORE = 15 / 100"

record metrics =
  mt_avg_return :: rat
  mt_avg_success_length :: rat
  mt_avg_success_chunk_length :: rat
  mt_count :: nat
  mt_success_count :: nat
  mt_failed_count :: nat
  mt_success_rate :: rat

definition metrics_of :: "trajectory_record list \<Rightarrow> metrics" where
  "metrics_of rs =
     (let ok = filter tr_success rs in
      \<lparr>mt_avg_return = mean_or_zero (map tr_return rs),
       mt_avg_success_length = mean_or_zero (map (\<lambda>r. of_nat (tr_length r)) ok),
       mt_avg_success_chunk_length = mean_or_zero (map (\<lambda>r. of_nat (tr_chunk_length r)) ok),
       mt_count = length rs, mt_success_count = length ok, mt_failed_count = length rs - length ok,
       mt_success_rate = ratio_or_zero (length ok) (length rs)\<rparr>)"

record score_metrics =
  sm_avg_score :: rat
  sm_partial_or_better :: nat
  sm_partial_or_better_rate :: rat
  sm_partial_only :: nat

definition scored :: "trajectory_record list \<Rightarrow> rat list" where
  "scored rs = map (\<lambda>r. the (tr_score r)) (filter (\<lambda>r. tr_score r \<noteq> None) rs)"

definition score_metrics_of :: "trajectory_record list \<Rightarrow> score_metrics option result" where
  "score_metrics_of rs =
     (let with_score = filter (\<lambda>r. tr_score r \<noteq> None) rs;
          better = filter (\<lambda>r. PARTIAL_SCORE \<le> the (tr_score r)) with_score
      in if with_score = [] then Inr None
         else if length with_score \<noteq> length rs then Inl RuntimeError
         else Inr (Some
           \<lparr>sm_avg_score = mean_or_zero (scored rs), sm_partial_or_better = length better,
            sm_partial_or_better_rate = ratio_or_zero (length better) (length with_score),
            sm_partial_only = length (filter (\<lambda>r. \<not> tr_success r) better)\<rparr>))"

definition record_tasks :: "trajectory_record list \<Rightarrow> int list" where
  "record_tasks rs = sort (remdups (filter (\<lambda>t. 0 \<le> t) (map tr_task_id rs)))"

definition task_metrics ::
  "trajectory_record list \<Rightarrow> int \<Rightarrow> metrics \<times> (rat \<times> rat) option" where
  "task_metrics rs t =
     (let ours = filter (\<lambda>r. tr_task_id r = t) rs; q = scored ours
      in (metrics_of ours,
          if q = [] then None
          else Some (ratio_or_zero (length (filter (\<lambda>x. PARTIAL_SCORE \<le> x) q)) (length q), mean_or_zero q)))"

definition trajectory_metrics_from_records ::
  "trajectory_record list \<Rightarrow>
   (metrics \<times> score_metrics option \<times> (int \<times> metrics \<times> (rat \<times> rat) option) list) result" where
  "trajectory_metrics_from_records rs =
     bind_res (score_metrics_of rs) (\<lambda>sm.
       Inr (metrics_of rs, sm, map (\<lambda>t. (t, task_metrics rs t)) (record_tasks rs)))"

section \<open>The acceptance of a fixed-case evaluation\<close>

record eval_state =
  es_records :: "trajectory_record list"
  es_accepted :: "nat list"

definition target_counts :: "nat \<Rightarrow> nat \<Rightarrow> nat list" where
  "target_counts benchmark_size target =
     map (\<lambda>i. target div benchmark_size + (if i < target mod benchmark_size then 1 else 0))
       [0..<benchmark_size]"

definition record_case :: "trajectory_record \<Rightarrow> int" where
  "record_case r = (case tr_case_id r of None \<Rightarrow> - 1 | Some i \<Rightarrow> i)"

fun accept_cases :: "nat list \<Rightarrow> trajectory_record list \<Rightarrow> eval_state \<Rightarrow> eval_state result" where
  "accept_cases targets [] e = Inr e"
| "accept_cases targets (r # rs) e =
     (let i = record_case r in
      if i < 0 \<or> int (length targets) \<le> i then Inl RuntimeError
      else if targets ! nat i \<le> es_accepted e ! nat i then accept_cases targets rs e
      else accept_cases targets rs
             \<lparr>es_records = es_records e @ [r],
              es_accepted = (es_accepted e)[nat i := Suc (es_accepted e ! nat i)]\<rparr>)"

definition accept_records ::
  "nat \<Rightarrow> nat list \<Rightarrow> bool \<Rightarrow> trajectory_record list \<Rightarrow> eval_state \<Rightarrow> eval_state result" where
  "accept_records target targets has_cases new e =
     (if has_cases then accept_cases targets new e
      else Inr (e\<lparr>es_records := es_records e @ take (target - length (es_records e)) new\<rparr>))"

text \<open>
  The loop of \<open>eval\<close>, against the batches the environments return, one per evaluation step. It
  need not end (an environment may keep returning cases that are already counted), so it has
  fuel; \<open>None\<close> is a loop that is still running.
\<close>

fun eval_loop ::
  "nat \<Rightarrow> bool \<Rightarrow> nat \<Rightarrow> nat \<Rightarrow> nat list \<Rightarrow> bool \<Rightarrow> (nat \<Rightarrow> chunk list list) \<Rightarrow> nat \<Rightarrow> carry option \<Rightarrow> eval_state \<Rightarrow>
   eval_state result option" where
  "eval_loop fuel auto_reset chunk_steps target targets has_cases batch step ca e =
     (if target \<le> length (es_records e) then Some (Inr e)
      else case fuel of 0 \<Rightarrow> None
      | Suc fuel' \<Rightarrow>
          (case collect_trajectory_records auto_reset chunk_steps None ca (batch step) of (ca', new) \<Rightarrow>
             (case accept_records target targets has_cases new e of
                Inl err \<Rightarrow> Some (Inl err)
              | Inr e' \<Rightarrow> eval_loop fuel' auto_reset chunk_steps target targets has_cases batch (Suc step) ca' e')))"

declare eval_loop.simps [simp del]

text \<open>\<open>max_episodes\<close> defaults to the benchmark; the division by an empty benchmark raises.\<close>

definition eval_episodes ::
  "nat \<Rightarrow> bool \<Rightarrow> nat \<Rightarrow> nat \<Rightarrow> nat option \<Rightarrow> bool \<Rightarrow> (nat \<Rightarrow> chunk list list) \<Rightarrow>
   trajectory_record list result option" where
  "eval_episodes fuel auto_reset chunk_steps benchmark_size max_episodes has_cases batch =
     (if benchmark_size = 0 then Some (Inl ZeroDivisionError)
      else
        let target = (case max_episodes of None \<Rightarrow> benchmark_size | Some m \<Rightarrow> m)
        in map_option (\<lambda>r. bind_res r (\<lambda>e. Inr (es_records e)))
             (eval_loop fuel auto_reset chunk_steps target (target_counts benchmark_size target) has_cases batch 0
                None \<lparr>es_records = [], es_accepted = replicate benchmark_size 0\<rparr>))"

end
