(* ===== verification/Trajectory_Record_Properties.thy ===== *)
theory Trajectory_Record_Properties
  imports Trajectory_Records Robodojo_Case_Properties "HOL-Library.Multiset"
begin

text \<open>
  A fixed-case evaluation over the fleet of simulators ends and counts every case as often as
  asked; and the episodes recorded across rollouts are those of one long rollout.
\<close>

section \<open>Accepted counts along the case stream\<close>

lemma target_counts_nth: "j < L \<Longrightarrow> target_counts L m ! j = m div L + (if j < m mod L then 1 else 0)"
  by (simp add: target_counts_def)

lemma length_target_counts [simp]: "length (target_counts L m) = L"
  by (simp add: target_counts_def)

lemma target_counts_Suc:
  assumes "0 < L"
  shows "target_counts L (Suc m) = (target_counts L m)[m mod L := Suc (target_counts L m ! (m mod L))]"
proof (rule nth_equalityI)
  fix j
  assume "j < length (target_counts L (Suc m))"
  then have j: "j < L" by simp
  show "target_counts L (Suc m) ! j =
          (target_counts L m)[m mod L := Suc (target_counts L m ! (m mod L))] ! j"
    using assms j by (auto simp: target_counts_nth nth_list_update div_Suc mod_Suc)
qed simp

lemma target_counts_below:
  assumes "0 < L" and "m < T"
  shows "target_counts L m ! (m mod L) < target_counts L T ! (m mod L)"
proof -
  have "m div L \<le> T div L" using assms(2) by (simp add: div_le_mono)
  moreover have "m mod L < T mod L" if "T div L = m div L"
    using that assms(2) by (metis div_mult_mod_eq nat_add_left_cancel_less)
  ultimately show ?thesis
    using assms(1) by (auto simp: target_counts_nth le_less)
qed

lemma accept_stream:
  assumes "0 < L"
    and "\<And>i. i < length rs \<Longrightarrow> record_case (rs ! i) = int ((a + i) mod L)"
  shows "accept_cases (target_counts L T) rs \<lparr>es_records = R, es_accepted = target_counts L (min a T)\<rparr> =
           Inr \<lparr>es_records = R @ take (T - a) rs, es_accepted = target_counts L (min (a + length rs) T)\<rparr>"
  using assms(2)
proof (induction rs arbitrary: a R)
  case (Cons r rs)
  have r: "record_case r = int (a mod L)" using Cons.prems [of 0] by simp
  have rest: "record_case (rs ! i) = int ((Suc a + i) mod L)" if "i < length rs" for i
    using Cons.prems [of "Suc i"] that by simp
  have range: "\<not> (int (a mod L) < 0 \<or> int L \<le> int (a mod L))"
    using assms(1) by (simp add: not_le)
  show ?case
  proof (cases "a < T")
    case True
    then have "target_counts L a ! (a mod L) < target_counts L T ! (a mod L)"
      using target_counts_below [OF assms(1)] by simp
    moreover have "T - a = Suc (T - Suc a)" using True by simp
    ultimately show ?thesis
      using Cons.IH [OF rest, of "R @ [r]"] True range target_counts_Suc [OF assms(1), of a]
      by (simp add: r Let_def min_def)
  next
    case False
    then show ?thesis
      using Cons.IH [OF rest, of R] range by (simp add: r Let_def min_def)
  qed
qed simp

section \<open>The evaluation loop\<close>

lemma eval_loop_stream:
  assumes "0 < L" and "0 < W"
    and len: "\<And>e. e < k \<Longrightarrow> length (batch e) = W"
    and ids: "\<And>e i. e < k \<Longrightarrow> i < W \<Longrightarrow> ck_case_id (hd (batch e ! i)) = Some (int ((e * W + i) mod L))"
    and enough: "T \<le> k * W"
    and start: "step + fuel = k" "length R = min (step * W) T" "map tr_case_id R = map (\<lambda>i. Some (int (i mod L))) [0..<length R]"
  shows "\<exists>e. eval_loop fuel False cs T (target_counts L T) True batch step ca
                 \<lparr>es_records = R, es_accepted = target_counts L (min (step * W) T)\<rparr> = Some (Inr e) \<and>
             map tr_case_id (es_records e) = map (\<lambda>i. Some (int (i mod L))) [0..<T]"
  using start
proof (induction fuel arbitrary: step R ca)
  case 0
  then have "length R = T" using enough by simp
  then show ?case using "0.prems"(3) by (subst eval_loop.simps) simp
next
  case (Suc fuel)
  show ?case
  proof (cases "T \<le> length R")
    case True
    then have "length R = T" using Suc.prems(2) by simp
    then show ?thesis using Suc.prems(3) by (subst eval_loop.simps) simp
  next
    case False
    then have below: "step * W < T" and R: "length R = step * W" using Suc.prems(2) by (auto simp: min_def split: if_splits)
    have step: "step < k" using Suc.prems(1) by simp
    let ?new = "map (row_record cs) (batch step)" and ?R = "R @ take (T - step * W) (map (row_record cs) (batch step))"
    have cases: "tr_case_id (?new ! i) = Some (int ((step * W + i) mod L))" if "i < W" for i
      using that ids [OF step] len [OF step] by (simp add: row_record_def Let_def)
    have "accept_cases (target_counts L T) ?new
            \<lparr>es_records = R, es_accepted = target_counts L (min (step * W) T)\<rparr> =
          Inr \<lparr>es_records = ?R, es_accepted = target_counts L (min (step * W + length ?new) T)\<rparr>"
      by (rule accept_stream [OF assms(1)]) (use cases len [OF step] in \<open>simp add: record_case_def\<close>)
    then have accepted: "accept_records T (target_counts L T) True ?new
            \<lparr>es_records = R, es_accepted = target_counts L (min (step * W) T)\<rparr> =
          Inr \<lparr>es_records = ?R, es_accepted = target_counts L (min (Suc step * W) T)\<rparr>"
      by (simp add: accept_records_def len [OF step] add.commute)
    have new_len: "length ?R = min (Suc step * W) T"
      using below R len [OF step] by simp
    have new_ids: "map tr_case_id ?R = map (\<lambda>i. Some (int (i mod L))) [0..<length ?R]"
    proof (rule nth_equalityI)
      fix i
      assume "i < length (map tr_case_id ?R)"
      then have i: "i < length ?R" by simp
      show "map tr_case_id ?R ! i = map (\<lambda>i. Some (int (i mod L))) [0..<length ?R] ! i"
      proof (cases "i < length R")
        case True
        with arg_cong [OF Suc.prems(3), of "\<lambda>xs. xs ! i"] i show ?thesis
          by (simp add: nth_append)
      next
        case False
        then have "i - length R < W" "i - length R < T - step * W"
          using i R new_len len [OF step] by auto
        moreover from this have "tr_case_id (?new ! (i - length R)) = Some (int (i mod L))"
          using cases [of "i - length R"] False R by simp
        ultimately show ?thesis
          using False i len [OF step] by (simp add: nth_append)
      qed
    qed simp
    have IH: "\<exists>e. eval_loop fuel False cs T (target_counts L T) True batch (Suc step) ca
                 \<lparr>es_records = ?R, es_accepted = target_counts L (min (Suc step * W) T)\<rparr> = Some (Inr e) \<and>
             map tr_case_id (es_records e) = map (\<lambda>i. Some (int (i mod L))) [0..<T]"
      by (rule Suc.IH [OF _ new_len new_ids]) (use Suc.prems(1) in simp)
    have collect: "collect_trajectory_records False cs None ca (batch step) = (ca, ?new)"
      by (simp add: collect_trajectory_records_def non_auto_reset_records_def)
    show ?thesis
      using IH False by (subst eval_loop.simps) (simp add: collect accepted del: mult_Suc)
  qed
qed

text \<open>C34. Evaluation over a fleet: when every row carries the case its simulator drew, \<open>k\<close> rounds
  are enough for any target up to \<open>k\<close> batches; the loop ends without an error and the accepted
  trajectories are the first \<open>target\<close> of the case stream, so every benchmark case is counted
  \<open>target div L\<close> times, the first \<open>target mod L\<close> once more.\<close>

theorem evaluation_counts_each_case_exactly:
  assumes "robodojo_post_init c = Inr ()" and "0 < n" and "0 < world" and "0 < stages"
    and "fleet_draws c world stages n Eval k (new_cases c) = Inr ds"
    and "\<forall>e < k. map (\<lambda>row. ck_case_id (hd row)) (batch e) = map Some (concat (map (\<lambda>d. case_ids (d ! e)) ds))"
    and "target \<le> k * (stages * (world * n))"
  shows "\<exists>records. eval_episodes k False chunk_steps (length (rd_layout_ids c)) (Some target) True batch =
             Some (Inr records) \<and>
           map tr_case_id records = map (\<lambda>i. Some (int (i mod length (rd_layout_ids c)))) [0..<target]"
proof -
  let ?L = "length (rd_layout_ids c)" and ?W = "stages * (world * n)"
  have L: "0 < ?L" and W: "0 < ?W" using post_init_eval(1) [OF assms(1)] assms(2-4) by simp_all
  define f where "f st r = map (\<lambda>j. eval_wave c (wave_slots world stages n r st j)) [0..<k]" for st r
  have new: "cs_eval_case_cursor (new_cases c) = int 0 * int n" "cs_runtime_eval_layout_ids (new_cases c) = None"
    "cs_runtime_eval_policy_seeds (new_cases c) = None"
    by (simp_all add: new_cases_def)
  have "fleet_draws c world stages n Eval k (new_cases c) = Inr (fleet_table f world stages)"
    by (rule fleet_draws_table) (use draws_eval [OF assms(1,2) new] in \<open>simp add: f_def\<close>)
  with assms(5) have ds: "ds = fleet_table f world stages" by simp
  have wave: "concat (map (\<lambda>d. case_ids (d ! e)) ds) = map (\<lambda>i. int ((e * ?W + i) mod ?L)) [0..<?W]" if "e < k" for e
  proof -
    have "concat (map (\<lambda>d. case_ids (d ! e)) ds) = map (\<lambda>i. int (i mod ?L)) [e * ?W..<e * ?W + ?W]"
      using that fleet_slots [of world stages n e]
      by (simp add: ds concat_map_table f_def case_ids_def eval_wave_def Let_def comp_def
          concat_map_map [of "\<lambda>i. int (i mod ?L)", unfolded comp_def])
    then show ?thesis by (simp add: list_eq_iff_nth_eq)
  qed
  have rows: "length (batch e) = ?W" if "e < k" for e
    using arg_cong [OF assms(6) [rule_format, OF that], of length] wave [OF that] by simp
  have ids: "ck_case_id (hd (batch e ! i)) = Some (int ((e * ?W + i) mod ?L))" if "e < k" "i < ?W" for e i
    using arg_cong [OF assms(6) [rule_format, OF that(1)], of "\<lambda>xs. xs ! i"] wave [OF that(1)] rows [OF that(1)] that(2)
    by simp
  have zero: "target_counts ?L 0 = replicate ?L 0"
    by (rule nth_equalityI) (simp_all add: target_counts_nth)
  obtain e where e: "eval_loop k False chunk_steps target (target_counts ?L target) True batch 0 None
        \<lparr>es_records = [], es_accepted = target_counts ?L (min (0 * ?W) target)\<rparr> = Some (Inr e)"
    "map tr_case_id (es_records e) = map (\<lambda>i. Some (int (i mod ?L))) [0..<target]"
    using eval_loop_stream [OF L W rows ids assms(7), of 0 k "[]" chunk_steps None] by auto
  then show ?thesis
    using L by (simp add: eval_episodes_def Let_def zero)
qed

section \<open>Episodes that span rollouts\<close>

lemma at_limit_None [simp]: "at_limit None records = False"
  by (simp add: at_limit_def)

definition lane :: "nat \<Rightarrow> lane_carry \<Rightarrow> chunk list \<Rightarrow> lane_carry \<times> trajectory_record list" where
  "lane cs c ks = scan_lane cs None c [] ks"

lemma scan_lane_records: "scan_lane cs None c rs ks = (fst (lane cs c ks), rs @ snd (lane cs c ks))"
proof (induction ks arbitrary: c rs)
  case (Cons k ks)
  show ?case
  proof (cases "first_done (ck_done k)")
    case None
    then show ?thesis
      using Cons.IH [of "(fst c + cs, snd c + sum_list (ck_reward k))" rs] by (simp add: lane_def)
  next
    case (Some i)
    then show ?thesis
      using Cons.IH [of "(0, 0)" "rs @ [chunk_record cs c i k]"] Cons.IH [of "(0, 0)" "[chunk_record cs c i k]"]
      by (simp add: lane_def)
  qed
qed (simp add: lane_def)

lemma lane_Nil [simp]: "lane cs c [] = (c, [])"
  by (simp add: lane_def)

lemma lane_Cons:
  "lane cs c (k # ks) =
     (case first_done (ck_done k) of
        None \<Rightarrow> lane cs (fst c + cs, snd c + sum_list (ck_reward k)) ks
      | Some i \<Rightarrow> (fst (lane cs (0, 0) ks), chunk_record cs c i k # snd (lane cs (0, 0) ks)))"
  by (simp add: lane_def scan_lane_records [of _ _ "[chunk_record _ _ _ _]"] split: option.splits)

lemma lane_append:
  "lane cs c (xs @ ys) =
     (fst (lane cs (fst (lane cs c xs)) ys), snd (lane cs c xs) @ snd (lane cs (fst (lane cs c xs)) ys))"
  by (induction xs arbitrary: c) (simp_all add: lane_Cons split: option.splits)

definition executed_steps :: "nat \<Rightarrow> chunk \<Rightarrow> nat" where
  "executed_steps cs k = (case first_done (ck_done k) of None \<Rightarrow> cs | Some i \<Rightarrow> i + 1)"

lemma lane_steps:
  "sum_list (map tr_length (snd (lane cs c ks))) + fst (fst (lane cs c ks)) =
     fst c + sum_list (map (executed_steps cs) ks)"
  by (induction ks arbitrary: c)
    (simp_all add: lane_Cons executed_steps_def chunk_record_def Let_def split: option.splits)

definition lanes :: "nat \<Rightarrow> carry \<Rightarrow> chunk list list \<Rightarrow> (lane_carry \<times> trajectory_record list) list" where
  "lanes cs ca rows = map2 (lane cs) (zip (ca_length ca) (ca_reward ca)) rows"

definition carry_of :: "lane_carry list \<Rightarrow> carry" where
  "carry_of cs = \<lparr>ca_length = map fst cs, ca_reward = map snd cs\<rparr>"

lemma ca_length_carry_of [simp]: "ca_length (carry_of cs) = map fst cs"
  by (simp add: carry_of_def)

lemma scan_rows_lanes_gen:
  assumes "length P = length Q" and "length Ls = length rows" and "length Rs = length rows"
  shows "scan_rows cs None (length P) rows \<lparr>ca_length = P @ Ls, ca_reward = Q @ Rs\<rparr> recs =
           (let out = map2 (lane cs) (zip Ls Rs) rows in
            (\<lparr>ca_length = P @ map (fst \<circ> fst) out, ca_reward = Q @ map (snd \<circ> fst) out\<rparr>,
             recs @ concat (map snd out)))"
  using assms
proof (induction rows arbitrary: P Q Ls Rs recs)
  case (Cons row rows)
  then obtain l Ls' q Rs' where split: "Ls = l # Ls'" "Rs = q # Rs'" by (cases Ls; cases Rs) auto
  let ?c = "fst (lane cs (l, q) row)"
  have "scan_rows cs None (length (P @ [fst ?c])) rows
          \<lparr>ca_length = (P @ [fst ?c]) @ Ls', ca_reward = (Q @ [snd ?c]) @ Rs'\<rparr> (recs @ snd (lane cs (l, q) row)) =
        (let out = map2 (lane cs) (zip Ls' Rs') rows in
         (\<lparr>ca_length = (P @ [fst ?c]) @ map (fst \<circ> fst) out, ca_reward = (Q @ [snd ?c]) @ map (snd \<circ> fst) out\<rparr>,
          (recs @ snd (lane cs (l, q) row)) @ concat (map snd out)))"
    by (rule Cons.IH) (use Cons.prems split in simp_all)
  then show ?case
    using Cons.prems(1) by (simp add: split scan_lane_records Let_def nth_append list_update_append)
qed simp

definition carry_fits :: "nat \<Rightarrow> carry \<Rightarrow> bool" where
  "carry_fits n ca \<longleftrightarrow> length (ca_length ca) = n \<and> length (ca_reward ca) = n"

lemma scan_rows_lanes:
  assumes "carry_fits (length rows) ca"
  shows "scan_rows cs None 0 rows ca [] =
           (carry_of (map fst (lanes cs ca rows)), concat (map snd (lanes cs ca rows)))"
  using scan_rows_lanes_gen [of "[]" "[]" "ca_length ca" rows "ca_reward ca" cs "[]"] assms
  by (cases ca) (simp add: carry_fits_def lanes_def carry_of_def Let_def comp_assoc)

lemma collect_lanes:
  assumes "carry_fits (length rows) ca"
  shows "collect_trajectory_records True cs None (Some ca) rows =
           (Some (carry_of (map fst (lanes cs ca rows))), concat (map snd (lanes cs ca rows)))"
  using scan_rows_lanes [OF assms] by (simp add: collect_trajectory_records_def)

lemma lanes_append:
  assumes "length A = length B" and "carry_fits (length A) ca"
  shows "lanes cs ca (map2 (@) A B) =
           map2 (\<lambda>a b. (fst b, snd a @ snd b)) (lanes cs ca A) (lanes cs (carry_of (map fst (lanes cs ca A))) B)"
  using assms
  by (intro nth_equalityI) (simp_all add: lanes_def carry_of_def carry_fits_def lane_append)

lemma carry_fits_lanes: "carry_fits (length A) ca \<Longrightarrow> length A = length B \<Longrightarrow>
    carry_fits (length B) (carry_of (map fst (lanes cs ca A)))"
  by (simp add: carry_fits_def carry_of_def lanes_def)

lemma mset_concat_map2:
  "length xs = length ys \<Longrightarrow>
     mset (concat (map2 (\<lambda>a b. snd a @ snd b) xs ys)) = mset (concat (map snd xs)) + mset (concat (map snd ys))"
  by (induction xs ys rule: list_induct2) simp_all

lemma lanes_steps:
  assumes "carry_fits (length rows) ca"
  shows "sum_list (map tr_length (concat (map snd (lanes cs ca rows)))) +
             sum_list (map (fst \<circ> fst) (lanes cs ca rows)) =
           sum_list (ca_length ca) + sum_list (map (\<lambda>row. sum_list (map (executed_steps cs) row)) rows)"
proof -
  have "sum_list (map tr_length (concat (map snd (map2 (lane cs) (zip Ls Rs) rows)))) +
          sum_list (map (fst \<circ> fst) (map2 (lane cs) (zip Ls Rs) rows)) =
        sum_list Ls + sum_list (map (\<lambda>row. sum_list (map (executed_steps cs) row)) rows)"
    if "length Ls = length rows" "length Rs = length rows" for Ls Rs
    using that
  proof (induction rows arbitrary: Ls Rs)
    case (Cons row rows)
    then obtain l Ls' q Rs' where split: "Ls = l # Ls'" "Rs = q # Rs'" by (cases Ls; cases Rs) auto
    show ?case using Cons.IH [of Ls' Rs'] Cons.prems lane_steps [of cs "(l, q)" row] by (simp add: split)
  qed simp
  with assms show ?thesis by (simp add: lanes_def carry_fits_def)
qed

text \<open>C35. Automatic resets: recording two rollouts one after the other, with the carry handed over,
  gives the same trajectory records and the same carry as recording them as one rollout, and no
  executed step is lost: the lengths of the records and the carry add up to the steps executed.\<close>

theorem rollout_boundaries_do_not_matter:
  assumes "length A = length B" and "carry_fits (length A) ca"
  shows "\<exists>ca1 ca2 r1 r2 r12.
           collect_trajectory_records True cs None (Some ca) A = (Some ca1, r1) \<and>
           collect_trajectory_records True cs None (Some ca1) B = (Some ca2, r2) \<and>
           collect_trajectory_records True cs None (Some ca) (map2 (@) A B) = (Some ca2, r12) \<and>
           mset r12 = mset r1 + mset r2 \<and>
           sum_list (map tr_length r12) + sum_list (ca_length ca2) =
             sum_list (ca_length ca) + sum_list (map (\<lambda>row. sum_list (map (executed_steps cs) row)) (map2 (@) A B))"
proof -
  let ?ca1 = "carry_of (map fst (lanes cs ca A))"
  let ?lA = "lanes cs ca A" and ?lB = "lanes cs ?ca1 B" and ?lAB = "lanes cs ca (map2 (@) A B)"
  have fits: "carry_fits (length B) ?ca1" by (rule carry_fits_lanes) (use assms in simp_all)
  have fits': "carry_fits (length (map2 (@) A B)) ca" using assms by (simp add: carry_fits_def)
  have len: "length ?lA = length ?lB" using assms fits by (simp add: lanes_def carry_fits_def)
  note both = lanes_append [OF assms, of cs]
  have ca: "map fst ?lAB = map fst ?lB"
    unfolding both using len by (simp add: list_eq_iff_nth_eq)
  have recs: "mset (concat (map snd ?lAB)) = mset (concat (map snd ?lA)) + mset (concat (map snd ?lB))"
    unfolding both using mset_concat_map2 [OF len] by (simp add: comp_def case_prod_unfold)
  have steps: "sum_list (map tr_length (concat (map snd ?lAB))) + sum_list (map (fst \<circ> fst) ?lAB) =
      sum_list (ca_length ca) + sum_list (map (\<lambda>row. sum_list (map (executed_steps cs) row)) (map2 (@) A B))"
    by (rule lanes_steps [OF fits'])
  have carried: "ca_length (carry_of (map fst ?lB)) = map (fst \<circ> fst) ?lAB"
    unfolding ca_length_carry_of ca [symmetric] by (simp only: map_map)
  have same: "carry_of (map fst ?lAB) = carry_of (map fst ?lB)" unfolding ca ..
  have whole: "collect_trajectory_records True cs None (Some ca) (map2 (@) A B) =
      (Some (carry_of (map fst ?lB)), concat (map snd ?lAB))"
    using collect_lanes [OF fits', of cs] unfolding same .
  have total: "sum_list (map tr_length (concat (map snd ?lAB))) + sum_list (ca_length (carry_of (map fst ?lB))) =
      sum_list (ca_length ca) + sum_list (map (\<lambda>row. sum_list (map (executed_steps cs) row)) (map2 (@) A B))"
    unfolding carried by (rule steps)
  show ?thesis
    using collect_lanes [OF assms(2)] collect_lanes [OF fits] whole recs total by blast
qed

section \<open>Concrete rollouts\<close>

definition sample_chunk :: "bool list \<Rightarrow> int \<Rightarrow> chunk" where
  "sample_chunk ds i =
     \<lparr>ck_done = ds, ck_reward = map (\<lambda>d. if d then 1 else 0) ds, ck_success = ds, ck_score = None, ck_task_id = 0,
      ck_case_id = Some i, ck_meta = []\<rparr>"

definition sample_batch :: "nat \<Rightarrow> chunk list list" where
  "sample_batch e = [[sample_chunk [False, True] (2 * int e)], [sample_chunk [False, False] (2 * int e + 1)]]"

definition sample_draws :: "cases list list" where
  "sample_draws = [[([0, 1], [7, 7], [0, 1]), ([2, 3], [7, 7], [2, 3]), ([4, 5], [7, 7], [4, 5])]]"

lemma sample_draws: "fleet_draws sample_robodojo 1 1 2 Eval 3 (new_cases sample_robodojo) = Inr sample_draws"
  by code_simp

lemma sample_batch_cases:
  "\<forall>e < 3. map (\<lambda>row. ck_case_id (hd row)) (sample_batch e) =
             map Some (concat (map (\<lambda>d. case_ids (d ! e)) sample_draws))"
  by (simp add: numeral_3_eq_3 All_less_Suc sample_batch_def sample_chunk_def sample_draws_def case_ids_def)

theorem evaluation_counts_each_case_exactly_witness:
  "\<exists>records. eval_episodes 3 False 2 6 (Some 5) True sample_batch = Some (Inr records) \<and>
             map tr_case_id records = [Some 0, Some 1, Some 2, Some 3, Some 4]"
  using evaluation_counts_each_case_exactly
      [OF sample_robodojo_ok _ _ _ sample_draws sample_batch_cases, of 5 2]
  by (simp add: sample_robodojo_facts(1) upt_rec)

theorem rollout_boundaries_do_not_matter_witness:
  "\<exists>ca1 ca2 r1 r2 r12.
     collect_trajectory_records True 2 None (Some (fresh_carry 1)) [[sample_chunk [False, False] 0]] = (Some ca1, r1) \<and>
     collect_trajectory_records True 2 None (Some ca1) [[sample_chunk [True, False] 0]] = (Some ca2, r2) \<and>
     collect_trajectory_records True 2 None (Some (fresh_carry 1))
       [[sample_chunk [False, False] 0, sample_chunk [True, False] 0]] = (Some ca2, r12) \<and>
     mset r12 = mset r1 + mset r2 \<and> sum_list (map tr_length r12) + sum_list (ca_length ca2) = 3"
  using rollout_boundaries_do_not_matter
      [of "[[sample_chunk [False, False] 0]]" "[[sample_chunk [True, False] 0]]" "fresh_carry 1" 2]
  by (simp add: carry_fits_def fresh_carry_def executed_steps_def first_done_def sample_chunk_def)

end
