(* ===== verification/Train_Cluster.thy ===== *)
theory Train_Cluster
  imports Stateful Trajectory_Records
begin

text \<open>
  train_cluster/cluster.py and the collection windows and mode switches of
  train_cluster/env_loop.py: which weights a rollout runs with, in which mode a colocated actor
  is, and which simulator reset a rollout consumes.

  Weights are version numbers. \<open>tc_clock\<close> counts the operations on the simulators; a reset future
  is the count at which it was issued. A rollout in the interaction loop either returns a batch or
  raises, which the argument \<open>outcome\<close> says, since workers are not modelled here. An asynchronous
  rollout is queued with a copy of the rollout state and runs at a later step. A result that an
  evaluation keeps shares its state with the cluster, so \<open>tc_ready\<close> holds its records only. \<open>tc_log\<close> is the
  sequence of effects, with the facts the properties are about. Metrics, timings, profiling and
  the construction of the workers are left out.
\<close>

section \<open>Configuration, state and log\<close>

record cluster_config =
  cc_env_loop :: bool
  cc_separate :: bool
  cc_has_actor :: bool
  cc_auto_reset :: bool
  cc_chunk_steps :: nat
  cc_stage_num :: int
  cc_robodojo :: bool
  cc_restart_between_rollouts :: bool
  cc_restart_every_rollouts :: int
  cc_lerobot :: bool
  cc_benchmark_size :: nat
  cc_has_cases :: bool

record rollout_state =
  rl_reset_future :: "nat option"
  rl_carry_state :: "carry option"
  rl_lerobot_collected_once :: bool
  rl_since_restart :: int

record generation =
  ge_eval :: bool
  ge_weights :: nat
  ge_actor :: nat
  ge_reset :: nat
  ge_clock :: nat

datatype cluster_event =
    Reset_Env bool | Restart_Simulators | Generate generation | Weights_Synced bool
  | Actor_Updated bool | Actor_Mode bool | Merge_Datasets bool

datatype outcome = Ran "chunk list list" bool | Raised py_error

type_synonym once_result = "(trajectory_record list \<times> rollout_state) result"

datatype remote = Queued rollout_state | Finished once_result

record cluster =
  tc_actor_version :: nat
  tc_rollout_version :: nat
  tc_rollout_mode :: bool
  tc_loop_active :: bool
  tc_active :: bool
  tc_state :: rollout_state
  tc_pending :: "remote option"
  tc_ready :: "trajectory_record list option"
  tc_clock :: nat
  tc_log :: "cluster_event list"

definition new_state :: rollout_state where
  "new_state = \<lparr>rl_reset_future = None, rl_carry_state = None, rl_lerobot_collected_once = False,
                rl_since_restart = 0\<rparr>"

definition new_cluster :: cluster where
  "new_cluster =
     \<lparr>tc_actor_version = 0, tc_rollout_version = 0, tc_rollout_mode = False, tc_loop_active = False,
      tc_active = False, tc_state = new_state, tc_pending = None, tc_ready = None, tc_clock = 0, tc_log = []\<rparr>"

definition note_event :: "cluster_event \<Rightarrow> (cluster, unit) stm" where
  "note_event ev = upd (\<lambda>c. c\<lparr>tc_log := tc_log c @ [ev]\<rparr>)"

definition guard :: "bool \<Rightarrow> py_error \<Rightarrow> (cluster, unit) stm" where
  "guard b e = lift_res (require b e)"

section \<open>Worker calls\<close>

definition tick :: "(cluster, unit) stm" where
  "tick = upd (\<lambda>c. c\<lparr>tc_clock := Suc (tc_clock c)\<rparr>)"

definition reset_env :: "bool \<Rightarrow> (cluster, nat) stm" where
  "reset_env eval = bnd tick (\<lambda>_. bnd (note_event (Reset_Env eval)) (\<lambda>_. reading (\<lambda>c. lift_res (Inr (tc_clock c)))))"

definition restart_simulators :: "(cluster, unit) stm" where
  "restart_simulators = bnd tick (\<lambda>_. note_event Restart_Simulators)"

text \<open>A colocated actor and rollout share their weights; a separate rollout model has its own.\<close>

definition weights_in_use :: "cluster_config \<Rightarrow> cluster \<Rightarrow> nat" where
  "weights_in_use cfg c = (if cc_separate cfg then tc_rollout_version c else tc_actor_version c)"

definition in_flight :: "cluster \<Rightarrow> bool" where
  "in_flight c = (case tc_pending c of Some (Queued _) \<Rightarrow> True | _ \<Rightarrow> False)"

text \<open>
  The exchange of weights through the checkpoint engine, like the loading of a checkpoint below, is taken to
  succeed: every trainer lets an exception of theirs propagate, which ends its process.
\<close>

definition update_weights :: "cluster_config \<Rightarrow> (cluster, unit) stm" where
  "update_weights cfg =
     bnd (guard (cc_env_loop cfg) AssertionError) (\<lambda>_.
       if cc_separate cfg then
         reading (\<lambda>c. bnd (note_event (Weights_Synced (in_flight c)))
           (\<lambda>_. upd (\<lambda>c. c\<lparr>tc_rollout_version := tc_actor_version c\<rparr>)))
       else lift_res (Inr ()))"

definition switch_mode :: "bool \<Rightarrow> (cluster, unit) stm" where
  "switch_mode to_rollout =
     bnd (note_event (Actor_Mode to_rollout)) (\<lambda>_. upd (\<lambda>c. c\<lparr>tc_rollout_mode := to_rollout\<rparr>))"

section \<open>The interaction loop's side\<close>

definition switches :: "cluster_config \<Rightarrow> bool" where
  "switches cfg \<longleftrightarrow> cc_has_actor cfg \<and> \<not> cc_separate cfg"

definition loop_begin_collection :: "cluster_config \<Rightarrow> (cluster, unit) stm" where
  "loop_begin_collection cfg = reading (\<lambda>c.
     bnd (guard (\<not> tc_loop_active c) RuntimeError) (\<lambda>_.
     bnd (if switches cfg then switch_mode True else lift_res (Inr ())) (\<lambda>_.
       upd (\<lambda>c. c\<lparr>tc_loop_active := True\<rparr>))))"

definition loop_end_collection :: "cluster_config \<Rightarrow> (cluster, unit) stm" where
  "loop_end_collection cfg = reading (\<lambda>c.
     bnd (guard (tc_loop_active c) RuntimeError) (\<lambda>_.
     bnd (if switches cfg then switch_mode False else lift_res (Inr ())) (\<lambda>_.
       upd (\<lambda>c. c\<lparr>tc_loop_active := False\<rparr>))))"

definition run_loop ::
  "cluster_config \<Rightarrow> bool \<Rightarrow> nat \<Rightarrow> outcome \<Rightarrow> (cluster, chunk list list \<times> bool) stm" where
  "run_loop cfg eval ticket outc = reading (\<lambda>c.
     bnd (note_event (Generate \<lparr>ge_eval = eval, ge_weights = weights_in_use cfg c, ge_actor = tc_actor_version c,
                                ge_reset = ticket, ge_clock = tc_clock c\<rparr>)) (\<lambda>_.
     bnd tick (\<lambda>_. lift_res (case outc of Ran rows popped \<Rightarrow> Inr (rows, popped) | Raised e \<Rightarrow> Inl e))))"

definition generate_sequences ::
  "cluster_config \<Rightarrow> bool \<Rightarrow> int option \<Rightarrow> nat \<Rightarrow> outcome \<Rightarrow> (cluster, chunk list list \<times> bool) stm" where
  "generate_sequences cfg eval active_stage_count ticket outc =
     bnd (guard (case active_stage_count of None \<Rightarrow> 1 \<le> cc_stage_num cfg
                 | Some k \<Rightarrow> 1 \<le> k \<and> k \<le> cc_stage_num cfg) ValueError) (\<lambda>_.
     reading (\<lambda>c.
       if switches cfg \<and> \<not> tc_loop_active c then
         bnd (switch_mode True) (\<lambda>_.
         bnd (run_loop cfg eval ticket outc) (\<lambda>x.
         bnd (switch_mode False) (\<lambda>_. lift_res (Inr x))))
       else run_loop cfg eval ticket outc))"

section \<open>One rollout\<close>

definition restart_due :: "cluster_config \<Rightarrow> rollout_state \<Rightarrow> bool" where
  "restart_due cfg st \<longleftrightarrow>
     cc_robodojo cfg \<and> cc_restart_between_rollouts cfg \<and> cc_restart_every_rollouts cfg \<le> rl_since_restart st"

definition count_rollout :: "cluster_config \<Rightarrow> rollout_state \<Rightarrow> rollout_state" where
  "count_rollout cfg st =
     (if cc_robodojo cfg \<and> cc_restart_between_rollouts cfg
      then st\<lparr>rl_since_restart := rl_since_restart st + 1\<rparr> else st)"

definition collect_lerobot_datasets ::
  "cluster_config \<Rightarrow> bool \<Rightarrow> rollout_state \<Rightarrow> (cluster, rollout_state) stm" where
  "collect_lerobot_datasets cfg popped st =
     (if cc_lerobot cfg \<and> popped
      then bnd (note_event (Merge_Datasets (rl_lerobot_collected_once st)))
             (\<lambda>_. lift_res (Inr (st\<lparr>rl_lerobot_collected_once := True\<rparr>)))
      else lift_res (Inr st))"

text \<open>After the batch: restart the simulators when it is time, and issue the next reset.\<close>

definition prefetch :: "cluster_config \<Rightarrow> rollout_state \<Rightarrow> (cluster, rollout_state) stm" where
  "prefetch cfg st =
     (let st1 = count_rollout cfg st in
      bnd (if restart_due cfg st1
           then bnd restart_simulators (\<lambda>_. lift_res (Inr (st1\<lparr>rl_since_restart := 0\<rparr>)))
           else lift_res (Inr st1)) (\<lambda>st2.
      bnd (reset_env False) (\<lambda>t. lift_res (Inr (st2\<lparr>rl_reset_future := Some t\<rparr>)))))"

text \<open>
  \<open>_rollout_once\<close> changes the state object it is given as it goes, so the state it leaves behind
  is a result of its own, also when it raises.
\<close>

definition settle ::
  "cluster_config \<Rightarrow> chunk list list \<Rightarrow> bool \<Rightarrow> rollout_state \<Rightarrow> cluster \<Rightarrow>
   (trajectory_record list result \<times> rollout_state) \<times> cluster" where
  "settle cfg rows popped st c =
     (let (carry', records) =
            collect_trajectory_records (cc_auto_reset cfg) (cc_chunk_steps cfg) None (rl_carry_state st) rows;
          st' = st\<lparr>rl_carry_state := carry'\<rparr>
      in case trajectory_metrics_from_records records of
           Inl e \<Rightarrow> ((Inl e, st'), c)
         | Inr _ \<Rightarrow>
             (case collect_lerobot_datasets cfg popped st' c of
                (Inr st'', c') \<Rightarrow> ((Inr records, st''), c')
              | (Inl e, c') \<Rightarrow> ((Inl e, st'), c')))"

definition take_reset :: "rollout_state \<Rightarrow> (cluster, nat) stm" where
  "take_reset st = (case rl_reset_future st of Some t \<Rightarrow> lift_res (Inr t) | None \<Rightarrow> reset_env False)"

definition rollout_once ::
  "cluster_config \<Rightarrow> int option \<Rightarrow> outcome \<Rightarrow> rollout_state \<Rightarrow> cluster \<Rightarrow>
   (trajectory_record list result \<times> rollout_state) \<times> cluster" where
  "rollout_once cfg stages outc st c =
     (case bnd (take_reset st) (\<lambda>t. generate_sequences cfg False stages t outc) c of
        (Inl e, c1) \<Rightarrow> ((Inl e, st), c1)
      | (Inr (rows, popped), c1) \<Rightarrow>
          (case prefetch cfg st c1 of
             (Inl e, c2) \<Rightarrow> ((Inl e, st), c2)
           | (Inr st', c2) \<Rightarrow> settle cfg rows popped st' c2))"

definition rollout_sync ::
  "cluster_config \<Rightarrow> int option \<Rightarrow> outcome \<Rightarrow> (cluster, trajectory_record list) stm" where
  "rollout_sync cfg stages outc =
     bnd (guard (cc_env_loop cfg) RuntimeError) (\<lambda>_. reading (\<lambda>c.
     bnd (if tc_active c then lift_res (Inr ()) else update_weights cfg) (\<lambda>_ c.
       (case rollout_once cfg stages outc (tc_state c) c of
          ((r, st), c') \<Rightarrow> (r, c'\<lparr>tc_state := st\<rparr>)))))"

section \<open>Asynchronous rollouts\<close>

text \<open>The queued task runs on its own copy of the state; its result waits for \<open>ray.get\<close>.\<close>

definition run_remote :: "cluster_config \<Rightarrow> outcome \<Rightarrow> (cluster, unit) stm" where
  "run_remote cfg outc c =
     (case tc_pending c of
        Some (Queued st) \<Rightarrow>
          (case rollout_once cfg None outc st c of
             ((r, st'), c') \<Rightarrow>
               (Inr (), c'\<lparr>tc_pending := Some (Finished (bind_res r (\<lambda>rs. Inr (rs, st'))))\<rparr>))
      | _ \<Rightarrow> (Inr (), c))"

definition queue_rollout :: "(cluster, unit) stm" where
  "queue_rollout = upd (\<lambda>c. c\<lparr>tc_pending := Some (Queued (tc_state c))\<rparr>)"

text \<open>\<open>ray.get\<close> on the pending reference, which is cleared only when the task did not raise.\<close>

definition await_pending :: "cluster_config \<Rightarrow> outcome \<Rightarrow> (cluster, trajectory_record list \<times> rollout_state) stm" where
  "await_pending cfg outc =
     bnd (run_remote cfg outc) (\<lambda>_. reading (\<lambda>c.
       case tc_pending c of
         Some (Finished (Inr x)) \<Rightarrow> bnd (upd (\<lambda>c. c\<lparr>tc_pending := None\<rparr>)) (\<lambda>_. lift_res (Inr x))
       | Some (Finished (Inl e)) \<Rightarrow> lift_res (Inl e)
       | _ \<Rightarrow> lift_res (Inl AssertionError)))"

definition rollout_async ::
  "cluster_config \<Rightarrow> int option \<Rightarrow> outcome \<Rightarrow> (cluster, trajectory_record list) stm" where
  "rollout_async cfg stages outc =
     bnd (guard (cc_env_loop cfg) RuntimeError) (\<lambda>_.
     bnd (guard (stages = None) ValueError) (\<lambda>_.
     bnd (guard (cc_separate cfg) ValueError) (\<lambda>_. reading (\<lambda>c.
     bnd (case tc_ready c of
            Some records \<Rightarrow>
              bnd (upd (\<lambda>c. c\<lparr>tc_ready := None\<rparr>)) (\<lambda>_. lift_res (Inr (records, tc_state c)))
          | None \<Rightarrow>
              bnd (if tc_pending c = None then queue_rollout else lift_res (Inr ())) (\<lambda>_.
                await_pending cfg outc)) (\<lambda>(records, st).
     bnd (upd (\<lambda>c. c\<lparr>tc_state := st\<rparr>)) (\<lambda>_.
     bnd (update_weights cfg) (\<lambda>_.
     bnd queue_rollout (\<lambda>_. lift_res (Inr records)))))))))"

section \<open>Training and collection windows\<close>

definition train :: "cluster_config \<Rightarrow> (cluster, unit) stm" where
  "train cfg = reading (\<lambda>c.
     bnd (guard (\<not> tc_active c) RuntimeError) (\<lambda>_.
     bnd (note_event (Actor_Updated (tc_rollout_mode c))) (\<lambda>_.
       upd (\<lambda>c. c\<lparr>tc_actor_version := Suc (tc_actor_version c)\<rparr>))))"

definition begin_collection :: "cluster_config \<Rightarrow> (cluster, unit) stm" where
  "begin_collection cfg = reading (\<lambda>c.
     bnd (guard (cc_env_loop cfg) RuntimeError) (\<lambda>_.
     bnd (guard (\<not> tc_active c) RuntimeError) (\<lambda>_.
     bnd (guard (tc_pending c = None) RuntimeError) (\<lambda>_.
     bnd (update_weights cfg) (\<lambda>_.
     bnd (loop_begin_collection cfg) (\<lambda>_. upd (\<lambda>c. c\<lparr>tc_active := True\<rparr>)))))))"

definition end_collection :: "cluster_config \<Rightarrow> (cluster, unit) stm" where
  "end_collection cfg = reading (\<lambda>c.
     bnd (guard (cc_env_loop cfg) RuntimeError) (\<lambda>_.
     bnd (guard (tc_active c) RuntimeError) (\<lambda>_ c1.
       (case loop_end_collection cfg c1 of (r, c2) \<Rightarrow> (r, c2\<lparr>tc_active := False\<rparr>)))))"

text \<open>A checkpoint that is found gives the actor weights of its own.\<close>

definition load_checkpoint :: "cluster_config \<Rightarrow> bool \<Rightarrow> (cluster, unit) stm" where
  "load_checkpoint cfg found =
     bnd (if found then upd (\<lambda>c. c\<lparr>tc_actor_version := Suc (tc_actor_version c)\<rparr>) else lift_res (Inr ())) (\<lambda>_.
       if cc_env_loop cfg \<and> cc_separate cfg then update_weights cfg else lift_res (Inr ()))"

section \<open>Evaluation\<close>

text \<open>The rounds of an evaluation; \<open>None\<close> when it still runs after the given outcomes.\<close>

fun eval_rounds ::
  "cluster_config \<Rightarrow> nat \<Rightarrow> nat list \<Rightarrow> outcome list \<Rightarrow> carry option \<Rightarrow> eval_state \<Rightarrow>
   (cluster, eval_state option) stm" where
  "eval_rounds cfg target targets [] ca e =
     lift_res (Inr (if target \<le> length (es_records e) then Some e else None))"
| "eval_rounds cfg target targets (outc # rest) ca e =
     (if target \<le> length (es_records e) then lift_res (Inr (Some e))
      else
        bnd (reset_env True) (\<lambda>t.
        bnd (generate_sequences cfg True None t outc) (\<lambda>(rows, popped).
          (case collect_trajectory_records (cc_auto_reset cfg) (cc_chunk_steps cfg) None ca rows of (ca', new) \<Rightarrow>
             bnd (lift_res (accept_records target targets (cc_has_cases cfg) new e)) (\<lambda>e'.
               eval_rounds cfg target targets rest ca' e')))))"

definition keep_pending :: "cluster_config \<Rightarrow> outcome \<Rightarrow> (cluster, unit) stm" where
  "keep_pending cfg outc = reading (\<lambda>c.
     if tc_pending c = None then lift_res (Inr ())
     else bnd (await_pending cfg outc) (\<lambda>x. upd (\<lambda>c. c\<lparr>tc_ready := Some (fst x), tc_state := snd x\<rparr>)))"

definition refresh_state :: "(cluster, unit) stm" where
  "refresh_state =
     bnd (reset_env False) (\<lambda>t.
       upd (\<lambda>c. c\<lparr>tc_state := (tc_state c)\<lparr>rl_reset_future := Some t, rl_carry_state := None\<rparr>\<rparr>))"

definition eval ::
  "cluster_config \<Rightarrow> nat option \<Rightarrow> outcome \<Rightarrow> outcome list \<Rightarrow> (cluster, trajectory_record list option) stm" where
  "eval cfg max_episodes pending_outcome outcomes = reading (\<lambda>c.
     bnd (guard (cc_env_loop cfg) RuntimeError) (\<lambda>_.
     bnd (guard (\<not> tc_active c) RuntimeError) (\<lambda>_.
     bnd (keep_pending cfg pending_outcome) (\<lambda>_.
     bnd (update_weights cfg) (\<lambda>_.
     bnd (guard (cc_benchmark_size cfg \<noteq> 0) ZeroDivisionError) (\<lambda>_.
       let target = (case max_episodes of None \<Rightarrow> cc_benchmark_size cfg | Some m \<Rightarrow> m) in
       bnd (eval_rounds cfg target (target_counts (cc_benchmark_size cfg) target) outcomes None
              \<lparr>es_records = [], es_accepted = replicate (cc_benchmark_size cfg) 0\<rparr>) (\<lambda>done.
         case done of
           None \<Rightarrow> lift_res (Inr None)
         | Some e \<Rightarrow>
             bnd (lift_res (trajectory_metrics_from_records (es_records e))) (\<lambda>_.
             bnd refresh_state (\<lambda>_. lift_res (Inr (Some (es_records e))))))))))))"

end
