(* ===== verification/Train_Cluster_Properties.thy ===== *)
theory Train_Cluster_Properties
  imports Train_Cluster
begin

text \<open>
  The cluster under any sequence of calls: synchronous rollouts run with the weights of the last
  update, every rollout starts from the reset the simulators are in, weights are never exchanged
  under a running rollout, and a colocated actor is trained in train mode.
\<close>

section \<open>Runs\<close>

datatype op =
    Rollout_Sync "int option" outcome | Rollout_Async "int option" outcome | Remote_Run outcome
  | Train | Begin_Collection | End_Collection | Load bool | Eval "nat option" outcome "outcome list"

definition returned :: "'a result \<times> cluster \<Rightarrow> (bool \<times> cluster) option" where
  "returned out = Some (\<not> isl (fst out), snd out)"

text \<open>One call: whether it returned, and the state after it. An evaluation that still runs is no call yet.\<close>

definition run_op :: "cluster_config \<Rightarrow> op \<Rightarrow> cluster \<Rightarrow> (bool \<times> cluster) option" where
  "run_op cfg p c =
     (case p of
        Rollout_Sync stages outc \<Rightarrow> returned (rollout_sync cfg stages outc c)
      | Rollout_Async stages outc \<Rightarrow> returned (rollout_async cfg stages outc c)
      | Remote_Run outc \<Rightarrow> returned (run_remote cfg outc c)
      | Train \<Rightarrow> returned (train cfg c)
      | Begin_Collection \<Rightarrow> returned (begin_collection cfg c)
      | End_Collection \<Rightarrow> returned (end_collection cfg c)
      | Load found \<Rightarrow> returned (load_checkpoint cfg found c)
      | Eval m outc outs \<Rightarrow>
          (case eval cfg m outc outs c of (Inr None, c') \<Rightarrow> None | out \<Rightarrow> returned out))"

definition sync_op :: "op \<Rightarrow> bool" where
  "sync_op p = (case p of Rollout_Async _ _ \<Rightarrow> False | Remote_Run _ \<Rightarrow> False | _ \<Rightarrow> True)"

definition async_op :: "op \<Rightarrow> bool" where
  "async_op p = (case p of Rollout_Async _ _ \<Rightarrow> True | Remote_Run _ \<Rightarrow> True | Train \<Rightarrow> True | Eval _ _ _ \<Rightarrow> True
                 | _ \<Rightarrow> False)"

inductive runs :: "cluster_config \<Rightarrow> (op \<Rightarrow> bool) \<Rightarrow> bool \<Rightarrow> cluster \<Rightarrow> bool"
  for cfg allowed strict where
  start: "runs cfg allowed strict new_cluster"
| call: "runs cfg allowed strict c \<Longrightarrow> allowed p \<Longrightarrow> run_op cfg p c = Some (ok, c') \<Longrightarrow> (strict \<longrightarrow> ok) \<Longrightarrow>
         runs cfg allowed strict c'"

lemma returned_Some: "returned out = Some (ok, c') \<longleftrightarrow> ok = (\<not> isl (fst out)) \<and> c' = snd out"
  by (auto simp: returned_def)

section \<open>On-policy rollouts\<close>

definition on_policy :: "cluster \<Rightarrow> bool" where
  "on_policy c \<longleftrightarrow> tc_pending c = None \<and> (\<forall>g. Generate g \<in> set (tc_log c) \<longrightarrow> ge_weights g = ge_actor g)"

definition up_to_date :: "cluster_config \<Rightarrow> cluster \<Rightarrow> bool" where
  "up_to_date cfg c \<longleftrightarrow> weights_in_use cfg c = tc_actor_version c"

definition synced :: "cluster_config \<Rightarrow> cluster \<Rightarrow> bool" where
  "synced cfg c \<longleftrightarrow> cc_env_loop cfg \<and> on_policy c \<and> up_to_date cfg c"

definition window_synced :: "cluster_config \<Rightarrow> cluster \<Rightarrow> bool" where
  "window_synced cfg c \<longleftrightarrow> on_policy c \<and> (tc_active c \<longrightarrow> cc_env_loop cfg \<and> up_to_date cfg c)"

lemma synced_window: "synced cfg c \<Longrightarrow> window_synced cfg c"
  by (simp add: synced_def window_synced_def)

lemmas synced_defs = synced_def on_policy_def up_to_date_def weights_in_use_def

lemma keeps_synced_event [keeps_rules]:
  "(\<And>g. ev \<noteq> Generate g) \<Longrightarrow> keeps (synced cfg) (note_event ev)"
  by (auto simp: keeps_def note_event_def upd_def synced_defs)

lemma keeps_synced_upd:
  assumes "\<And>c. tc_pending (g c) = tc_pending c" "\<And>c. tc_log (g c) = tc_log c"
    "\<And>c. tc_actor_version (g c) = tc_actor_version c" "\<And>c. tc_rollout_version (g c) = tc_rollout_version c"
  shows "keeps (synced cfg) (upd g)"
  using assms by (simp add: keeps_def upd_def synced_defs)

lemma keeps_synced_tick [keeps_rules]: "keeps (synced cfg) tick"
  unfolding tick_def by (rule keeps_synced_upd) simp_all

lemma keeps_synced_reset_env [keeps_rules]: "keeps (synced cfg) (reset_env ev)"
  unfolding reset_env_def by (intro keeps_rules) simp_all

lemma keeps_synced_restart [keeps_rules]: "keeps (synced cfg) restart_simulators"
  unfolding restart_simulators_def by (intro keeps_rules) simp_all

lemma keeps_synced_switch [keeps_rules]: "keeps (synced cfg) (switch_mode b)"
  unfolding switch_mode_def by (intro keeps_rules keeps_synced_upd) simp_all

lemma keeps_guard [keeps_rules]: "keeps P (guard b e)"
  by (simp add: guard_def keeps_lift)

lemma keeps_synced_run_loop [keeps_rules]: "keeps (synced cfg) (run_loop cfg ev t outc)"
proof (rule keepsI)
  fix c
  assume c: "synced cfg c"
  let ?ev = "Generate \<lparr>ge_eval = ev, ge_weights = weights_in_use cfg c, ge_actor = tc_actor_version c,
                        ge_reset = t, ge_clock = tc_clock c\<rparr>"
  have "keeps (synced cfg) (bnd tick (\<lambda>_. lift_res (case outc of Ran rows popped \<Rightarrow> Inr (rows, popped) | Raised e \<Rightarrow> Inl e)))"
    by (intro keeps_rules)
  moreover have "synced cfg (snd (note_event ?ev c))"
    using c by (auto simp: note_event_def upd_def synced_defs)
  ultimately show "synced cfg (snd (run_loop cfg ev t outc c))"
    by (simp add: run_loop_def reading_def bnd_def note_event_def upd_def keeps_def)
qed

lemma keeps_synced_generate [keeps_rules]: "keeps (synced cfg) (generate_sequences cfg ev k t outc)"
  unfolding generate_sequences_def by (intro keeps_rules)

lemma keeps_synced_collect [keeps_rules]: "keeps (synced cfg) (collect_lerobot_datasets cfg popped st)"
  unfolding collect_lerobot_datasets_def by (intro keeps_rules) simp_all

text \<open>A rollout keeps what the worker calls it makes keep.\<close>

lemma keeps_prefetch:
  assumes "keeps P (reset_env False)" and "keeps P restart_simulators"
  shows "keeps P (prefetch cfg st)"
  unfolding prefetch_def Let_def by (intro keeps_rules assms)

lemma settle_keeps:
  assumes "\<And>popped st. keeps P (collect_lerobot_datasets cfg popped st)" and "P c"
  shows "P (snd (settle cfg rows popped st c))"
proof -
  have "P c'" if "collect_lerobot_datasets cfg popped st' c = (r, c')" for st' r c'
    using keepsD [OF assms(1) assms(2), of popped st'] that by simp
  with assms(2) show ?thesis
    by (auto simp: settle_def Let_def split: sum.split prod.split)
qed

lemma rollout_once_keeps:
  assumes "keeps P (reset_env False)" and "\<And>t. keeps P (generate_sequences cfg False stages t outc)"
    and "keeps P restart_simulators" and "\<And>popped st. keeps P (collect_lerobot_datasets cfg popped st)"
    and "P c"
  shows "P (snd (rollout_once cfg stages outc st c))"
proof -
  let ?m = "bnd (take_reset st) (\<lambda>t. generate_sequences cfg False stages t outc)"
  have "keeps P ?m"
    unfolding take_reset_def by (intro keeps_rules assms)
  then have gen: "P c1" if "?m c = (r, c1)" for r c1
    using keepsD [of P ?m c] assms(5) that by simp
  have pre: "P c2" if "prefetch cfg st c1 = (r, c2)" and "P c1" for c1 r c2
    using keepsD [OF keeps_prefetch [OF assms(1,3)] that(2), of cfg st] that(1) by simp
  show ?thesis
    using gen pre settle_keeps [OF assms(4)]
    by (auto simp: rollout_once_def split: sum.split prod.split)
qed

section \<open>On-policy rollouts: the calls\<close>

lemma triple_guard:
  "(\<And>c. P c \<Longrightarrow> E c) \<Longrightarrow> triple P (guard b e) (\<lambda>_ c. P c \<and> b) E"
  by (auto simp: triple_def guard_def lift_res_def require_def)

lemma triple_keeps: "keeps P m \<Longrightarrow> (\<And>c. P c \<Longrightarrow> Q c) \<Longrightarrow> triple P m (\<lambda>_. Q) Q"
  by (fastforce simp: triple_def keeps_def split: prod.split sum.split)

lemma keeps_triple: "triple P m (\<lambda>_. P) P \<Longrightarrow> keeps P m"
proof (rule keepsI)
  fix s
  assume "triple P m (\<lambda>_. P) P" and "P s"
  then show "P (snd (m s))"
    by (cases "m s"; cases "fst (m s)") (auto simp: triple_def)
qed

lemma update_weights_syncs: "triple (window_synced cfg) (update_weights cfg) (\<lambda>_. synced cfg) (window_synced cfg)"
  by (auto simp: triple_def update_weights_def guard_def lift_res_def bnd_def require_def reading_def note_event_def
      upd_def window_synced_def synced_defs)

lemma rollout_once_synced: "synced cfg c \<Longrightarrow> synced cfg (snd (rollout_once cfg stages outc st c))"
  by (rule rollout_once_keeps) (intro keeps_rules | assumption)+

lemma keeps_window_rollout_sync: "keeps (window_synced cfg) (rollout_sync cfg stages outc)"
proof (rule keeps_triple, unfold rollout_sync_def, rule triple_bnd [OF triple_guard], simp, rule triple_reading,
    rule triple_bnd [where R = "\<lambda>_. synced cfg"])
  fix c
  show "triple (\<lambda>s. s = c \<and> window_synced cfg s \<and> cc_env_loop cfg)
          (if tc_active c then lift_res (Inr ()) else update_weights cfg) (\<lambda>_. synced cfg) (window_synced cfg)"
    using update_weights_syncs [of cfg]
    by (auto simp: triple_def lift_res_def window_synced_def synced_def)
next
  show "triple (synced cfg)
          (\<lambda>c. case rollout_once cfg stages outc (tc_state c) c of ((r, st), c') \<Rightarrow> (r, c'\<lparr>tc_state := st\<rparr>))
          (\<lambda>_. window_synced cfg) (window_synced cfg)"
  proof (rule triple_keeps [OF keepsI synced_window])
    fix c
    assume "synced cfg c"
    then have "synced cfg (snd (rollout_once cfg stages outc (tc_state c) c))" by (rule rollout_once_synced)
    then show "synced cfg
        (snd (case rollout_once cfg stages outc (tc_state c) c of ((r, st), c') \<Rightarrow> (r, c'\<lparr>tc_state := st\<rparr>)))"
      by (cases "rollout_once cfg stages outc (tc_state c) c") (auto simp: synced_defs)
  qed
qed

lemma on_policy_same:
  assumes "tc_pending c' = tc_pending c" "tc_log c' = tc_log c"
  shows "on_policy c' = on_policy c"
  using assms by (simp add: on_policy_def)

lemma on_policy_event: "(\<And>g. ev \<noteq> Generate g) \<Longrightarrow> on_policy (c\<lparr>tc_log := tc_log c @ [ev]\<rparr>) = on_policy c"
  by (auto simp: on_policy_def)

lemma keeps_window_train: "keeps (window_synced cfg) (train cfg)"
  by (auto simp: keeps_def train_def reading_def bnd_def guard_def lift_res_def require_def note_event_def upd_def
      window_synced_def on_policy_def)

lemma keeps_window_load: "keeps (window_synced cfg) (load_checkpoint cfg found)"
  by (auto simp: keeps_def load_checkpoint_def reading_def bnd_def guard_def lift_res_def require_def note_event_def
      upd_def update_weights_def window_synced_def synced_defs)

lemma keeps_synced_loop_begin [keeps_rules]: "keeps (synced cfg) (loop_begin_collection cfg)"
  unfolding loop_begin_collection_def by (intro keeps_rules keeps_synced_upd) simp_all

lemma keeps_synced_loop_end [keeps_rules]: "keeps (synced cfg) (loop_end_collection cfg)"
  unfolding loop_end_collection_def by (intro keeps_rules keeps_synced_upd) simp_all

lemma keeps_synced_active [keeps_rules]: "keeps (synced cfg) (upd (\<lambda>c. c\<lparr>tc_active := b\<rparr>))"
  by (rule keeps_synced_upd) simp_all

lemma keeps_window_begin: "keeps (window_synced cfg) (begin_collection cfg)"
proof (rule keeps_triple, unfold begin_collection_def, rule triple_reading)
  fix c0
  have tail: "triple (synced cfg) (bnd (loop_begin_collection cfg) (\<lambda>_. upd (\<lambda>c. c\<lparr>tc_active := True\<rparr>)))
          (\<lambda>_. window_synced cfg) (window_synced cfg)"
    by (rule triple_keeps [OF _ synced_window]) (intro keeps_rules)
  show "triple (\<lambda>s. s = c0 \<and> window_synced cfg s)
     (bnd (guard (cc_env_loop cfg) RuntimeError) (\<lambda>_. bnd (guard (\<not> tc_active c0) RuntimeError) (\<lambda>_.
      bnd (guard (tc_pending c0 = None) RuntimeError) (\<lambda>_. bnd (update_weights cfg) (\<lambda>_.
      bnd (loop_begin_collection cfg) (\<lambda>_. upd (\<lambda>c. c\<lparr>tc_active := True\<rparr>)))))))
     (\<lambda>_. window_synced cfg) (window_synced cfg)"
    by (rule triple_pre [where P = "window_synced cfg"], (rule triple_bnd [OF triple_guard], assumption,
        rule triple_pre [where P = "window_synced cfg"])+, rule triple_bnd [OF update_weights_syncs tail]) simp_all
qed

text \<open>Closing a window always clears the cluster's flag; the weights stay as they are.\<close>

lemma keeps_window_end: "keeps (window_synced cfg) (end_collection cfg)"
  by (auto simp: keeps_def end_collection_def loop_end_collection_def switch_mode_def reading_def bnd_def guard_def
      lift_res_def require_def note_event_def upd_def window_synced_def on_policy_def)

lemma keeps_synced_eval_rounds [keeps_rules]: "keeps (synced cfg) (eval_rounds cfg target targets outs ca e)"
proof (induction outs arbitrary: ca e)
  case Nil
  show ?case by (simp add: keeps_lift)
next
  case (Cons outc outs)
  show ?case
    unfolding eval_rounds.simps by (intro keeps_rules Cons)
qed

lemma keeps_synced_refresh [keeps_rules]: "keeps (synced cfg) refresh_state"
  unfolding refresh_state_def by (intro keeps_rules keeps_synced_upd) simp_all

lemma keeps_window_eval: "keeps (window_synced cfg) (eval cfg m outc outs)"
proof (rule keeps_triple, unfold eval_def, rule triple_reading)
  fix c0
  let ?rest = "bnd (guard (cc_benchmark_size cfg \<noteq> 0) ZeroDivisionError) (\<lambda>_.
       let target = (case m of None \<Rightarrow> cc_benchmark_size cfg | Some m \<Rightarrow> m) in
       bnd (eval_rounds cfg target (target_counts (cc_benchmark_size cfg) target) outs None
              \<lparr>es_records = [], es_accepted = replicate (cc_benchmark_size cfg) 0\<rparr>) (\<lambda>done.
         case done of
           None \<Rightarrow> lift_res (Inr None)
         | Some e \<Rightarrow>
             bnd (lift_res (trajectory_metrics_from_records (es_records e))) (\<lambda>_.
             bnd refresh_state (\<lambda>_. lift_res (Inr (Some (es_records e)))))))"
  have tail: "triple (synced cfg) ?rest (\<lambda>_. window_synced cfg) (window_synced cfg)"
    unfolding Let_def by (rule triple_keeps [OF _ synced_window]) (intro keeps_rules)
  have idle: "triple (window_synced cfg) (keep_pending cfg outc) (\<lambda>_. window_synced cfg) (window_synced cfg)"
    by (auto simp: triple_def keep_pending_def reading_def lift_res_def window_synced_def on_policy_def)
  show "triple (\<lambda>s. s = c0 \<and> window_synced cfg s)
     (bnd (guard (cc_env_loop cfg) RuntimeError) (\<lambda>_. bnd (guard (\<not> tc_active c0) RuntimeError) (\<lambda>_.
      bnd (keep_pending cfg outc) (\<lambda>_. bnd (update_weights cfg) (\<lambda>_. ?rest)))))
     (\<lambda>_. window_synced cfg) (window_synced cfg)"
    by (rule triple_pre [where P = "window_synced cfg"], (rule triple_bnd [OF triple_guard], assumption,
        rule triple_pre [where P = "window_synced cfg"])+,
        rule triple_bnd [OF idle triple_bnd [OF update_weights_syncs tail]]) simp_all
qed

text \<open>Every call of an operation that keeps a predicate keeps it, or keeps it when it returns.\<close>

definition op_triple :: "cluster_config \<Rightarrow> (cluster \<Rightarrow> bool) \<Rightarrow> (cluster \<Rightarrow> bool) \<Rightarrow> op \<Rightarrow> bool" where
  "op_triple cfg P E p =
     (case p of
        Rollout_Sync stages outc \<Rightarrow> triple P (rollout_sync cfg stages outc) (\<lambda>_. P) E
      | Rollout_Async stages outc \<Rightarrow> triple P (rollout_async cfg stages outc) (\<lambda>_. P) E
      | Remote_Run outc \<Rightarrow> triple P (run_remote cfg outc) (\<lambda>_. P) E
      | Train \<Rightarrow> triple P (train cfg) (\<lambda>_. P) E
      | Begin_Collection \<Rightarrow> triple P (begin_collection cfg) (\<lambda>_. P) E
      | End_Collection \<Rightarrow> triple P (end_collection cfg) (\<lambda>_. P) E
      | Load found \<Rightarrow> triple P (load_checkpoint cfg found) (\<lambda>_. P) E
      | Eval m outc outs \<Rightarrow> triple P (eval cfg m outc outs) (\<lambda>r c. r \<noteq> None \<longrightarrow> P c) E)"

lemma returned_triple:
  assumes "triple P m Q E" and "P c" and "returned (m c) = Some (ok, c')"
  shows "(ok \<longrightarrow> (\<exists>x. m c = (Inr x, c') \<and> Q x c')) \<and> (\<not> ok \<longrightarrow> E c')"
  using assms by (cases "m c"; cases "fst (m c)") (auto simp: returned_Some triple_def)

lemma run_op_triple:
  assumes "op_triple cfg P E p" and "P c" and "run_op cfg p c = Some (ok, c')"
  shows "(ok \<longrightarrow> P c') \<and> (\<not> ok \<longrightarrow> E c')"
proof (cases p)
  case (Eval m outc outs)
  have "returned (eval cfg m outc outs c) = Some (ok, c')" and "eval cfg m outc outs c \<noteq> (Inr None, c')"
    using assms(3) by (auto simp: run_op_def Eval returned_Some split: prod.splits sum.splits option.splits)
  with returned_triple [of P "eval cfg m outc outs" "\<lambda>r c. r \<noteq> None \<longrightarrow> P c" E c ok c'] assms(1,2)
  show ?thesis by (auto simp: op_triple_def Eval)
qed (use assms returned_triple in \<open>force simp: op_triple_def run_op_def\<close>)+

lemma runs_keep:
  assumes "runs cfg allowed strict c" and "P new_cluster"
    and "\<And>p. allowed p \<Longrightarrow> op_triple cfg P (if strict then (\<lambda>_. True) else P) p"
  shows "P c"
  using assms(1)
proof (induction rule: runs.induct)
  case (call c p ok c')
  with run_op_triple [OF assms(3), of p c ok c'] show ?case by (cases ok) auto
qed (rule assms(2))

lemma sync_runs_on_policy:
  assumes "runs cfg sync_op strict c"
  shows "window_synced cfg c"
proof (rule runs_keep [OF assms])
  show "window_synced cfg new_cluster" by (simp add: window_synced_def on_policy_def new_cluster_def)
next
  fix p
  assume "sync_op p"
  let ?E = "if strict then (\<lambda>_. True) else window_synced cfg"
  have weaken: "triple (window_synced cfg) m (\<lambda>x c. Q x c) ?E" if "keeps (window_synced cfg) m"
      "\<And>x c. window_synced cfg c \<Longrightarrow> Q x c" for m :: "(cluster, 'a) stm" and Q
    using that by (fastforce simp: triple_def keeps_def split: prod.split sum.split)
  show "op_triple cfg (window_synced cfg) ?E p"
    using \<open>sync_op p\<close>
    by (cases p) (simp_all add: op_triple_def sync_op_def weaken keeps_window_rollout_sync keeps_window_train
        keeps_window_begin keeps_window_end keeps_window_load keeps_window_eval)
qed

text \<open>C36. On-policy collection: in every run of synchronous calls, failing ones included, every rollout
  and every evaluation ran with the weights the actor had at that moment. A collection window keeps
  that without exchanging weights again, since training is refused inside it.\<close>

theorem synchronous_rollouts_are_on_policy:
  assumes "runs cfg sync_op False c" and "Generate g \<in> set (tc_log c)"
  shows "ge_weights g = ge_actor g"
  using sync_runs_on_policy [OF assms(1)] assms(2) by (simp add: window_synced_def on_policy_def)

section \<open>A concrete cluster\<close>

fun run_calls :: "cluster_config \<Rightarrow> bool \<Rightarrow> op list \<Rightarrow> cluster \<Rightarrow> cluster option" where
  "run_calls cfg strict [] c = Some c"
| "run_calls cfg strict (p # ps) c =
     (case run_op cfg p c of
        None \<Rightarrow> None
      | Some (ok, c') \<Rightarrow> if strict \<and> \<not> ok then None else run_calls cfg strict ps c')"

lemma run_calls_runs:
  assumes "runs cfg allowed strict c" and "list_all allowed ps" and "run_calls cfg strict ps c = Some c'"
  shows "runs cfg allowed strict c'"
  using assms by (induction ps arbitrary: c) (auto split: option.splits prod.splits if_splits intro: runs.call)

definition sample_cluster_config :: "bool \<Rightarrow> cluster_config" where
  "sample_cluster_config separate =
     \<lparr>cc_env_loop = True, cc_separate = separate, cc_has_actor = True, cc_auto_reset = False, cc_chunk_steps = 2,
      cc_stage_num = 1, cc_robodojo = True, cc_restart_between_rollouts = True, cc_restart_every_rollouts = 1,
      cc_lerobot = False, cc_benchmark_size = 1, cc_has_cases = False\<rparr>"

definition is_generation :: "cluster_event \<Rightarrow> bool" where
  "is_generation ev = (case ev of Generate _ \<Rightarrow> True | _ \<Rightarrow> False)"

definition sample_rows :: outcome where
  "sample_rows = Ran [[\<lparr>ck_done = [False, True], ck_reward = [0, 1], ck_success = [False, True], ck_score = None,
                         ck_task_id = 0, ck_case_id = None, ck_meta = []\<rparr>]] False"

definition sample_calls :: "op list" where
  "sample_calls = [Load True, Rollout_Sync None sample_rows, Train, Begin_Collection, Rollout_Sync None sample_rows,
                   Train, End_Collection, Rollout_Sync None (Raised RuntimeError)]"

lemma sample_calls_log:
  "map_option (filter is_generation \<circ> tc_log)
     (run_calls (sample_cluster_config True) False sample_calls new_cluster) =
   Some [Generate \<lparr>ge_eval = False, ge_weights = 1, ge_actor = 1, ge_reset = 1, ge_clock = 1\<rparr>,
         Generate \<lparr>ge_eval = False, ge_weights = 2, ge_actor = 2, ge_reset = 4, ge_clock = 4\<rparr>,
         Generate \<lparr>ge_eval = False, ge_weights = 2, ge_actor = 2, ge_reset = 7, ge_clock = 7\<rparr>]"
  by code_simp

lemma sample_calls_run:
  "\<exists>c. runs (sample_cluster_config True) sync_op False c \<and>
       Generate \<lparr>ge_eval = False, ge_weights = 2, ge_actor = 2, ge_reset = 4, ge_clock = 4\<rparr> \<in> set (tc_log c)"
proof -
  obtain c where c: "run_calls (sample_cluster_config True) False sample_calls new_cluster = Some c"
    using sample_calls_log by fastforce
  have "runs (sample_cluster_config True) sync_op False c"
    by (rule run_calls_runs [OF runs.start _ c]) (simp add: sample_calls_def sync_op_def)
  moreover have "Generate \<lparr>ge_eval = False, ge_weights = 2, ge_actor = 2, ge_reset = 4, ge_clock = 4\<rparr> \<in>
      set (filter is_generation (tc_log c))"
    using sample_calls_log c by simp
  ultimately show ?thesis by auto
qed

theorem synchronous_rollouts_are_on_policy_witness:
  "\<exists>c g. runs (sample_cluster_config True) sync_op False c \<and> Generate g \<in> set (tc_log c) \<and>
         ge_weights g = ge_actor g \<and> ge_actor g = 2"
proof -
  obtain c where c: "runs (sample_cluster_config True) sync_op False c"
      "Generate \<lparr>ge_eval = False, ge_weights = 2, ge_actor = 2, ge_reset = 4, ge_clock = 4\<rparr> \<in> set (tc_log c)"
    using sample_calls_run by blast
  show ?thesis
    using c synchronous_rollouts_are_on_policy [OF c] by fastforce
qed

text \<open>A rollout that raises outside a collection window leaves the actor in rollout mode.\<close>

lemma raising_rollout_leaves_rollout_mode:
  "map_option (\<lambda>c. Actor_Updated True \<in> set (tc_log c))
     (run_calls (sample_cluster_config False) False [Rollout_Sync None (Raised RuntimeError), Train] new_cluster) =
   Some True"
  by code_simp

end
