(* ===== verification/Train_Cluster_Safety.thy ===== *)
theory Train_Cluster_Safety
  imports Train_Cluster_Properties
begin

text \<open>
  As long as no call has raised and synchronous and asynchronous calls are not mixed: every rollout
  consumes the reset the simulators are in, weights are never exchanged while an asynchronous rollout
  is queued, and a colocated actor is only trained in train mode, which it is always in outside a
  collection window. What happens when the calls are mixed is shown at the end.
\<close>

section \<open>The log and the actor's mode\<close>

definition logs_ok :: "cluster \<Rightarrow> bool" where
  "logs_ok c \<longleftrightarrow>
     (\<forall>g. Generate g \<in> set (tc_log c) \<longrightarrow> ge_reset g = ge_clock g) \<and>
     Weights_Synced True \<notin> set (tc_log c) \<and> Actor_Updated True \<notin> set (tc_log c)"

definition mode_ok :: "cluster_config \<Rightarrow> cluster \<Rightarrow> bool" where
  "mode_ok cfg c \<longleftrightarrow> (tc_rollout_mode c \<longleftrightarrow> tc_active c \<and> switches cfg) \<and> tc_loop_active c = tc_active c"

definition settled :: "cluster_config \<Rightarrow> remote option \<Rightarrow> trajectory_record list option \<Rightarrow> rollout_state \<Rightarrow> cluster \<Rightarrow> bool" where
  "settled cfg p r st c \<longleftrightarrow>
     tc_pending c = p \<and> tc_ready c = r \<and> tc_state c = st \<and> logs_ok c \<and> mode_ok cfg c"

definition fresh :: "cluster \<Rightarrow> rollout_state \<Rightarrow> bool" where
  "fresh c st \<longleftrightarrow> (case rl_reset_future st of None \<Rightarrow> True | Some t \<Rightarrow> t = tc_clock c)"

lemmas settled_defs = settled_def logs_ok_def mode_ok_def

lemma settled_event:
  assumes "\<And>g. ev = Generate g \<Longrightarrow> ge_reset g = ge_clock g" and "ev \<noteq> Weights_Synced True" and "ev \<noteq> Actor_Updated True"
  shows "settled cfg p r st (c\<lparr>tc_log := tc_log c @ [ev]\<rparr>) = settled cfg p r st c"
  using assms by (auto simp: settled_defs)

lemma triple_reset_env:
  "triple (settled cfg p r st) (reset_env ev) (\<lambda>t c. settled cfg p r st c \<and> t = tc_clock c) E"
  by (auto simp: triple_def reset_env_def tick_def bnd_def upd_def note_event_def reading_def lift_res_def settled_defs)

lemma triple_restart: "triple (settled cfg p r st) restart_simulators (\<lambda>_. settled cfg p r st) E"
  by (auto simp: triple_def restart_simulators_def tick_def bnd_def upd_def note_event_def settled_defs)

text \<open>A rollout that returns puts the actor back; one that raises does so if there is no switching.\<close>

definition restored :: "cluster_config \<Rightarrow> remote option \<Rightarrow> trajectory_record list option \<Rightarrow> rollout_state \<Rightarrow> cluster \<Rightarrow> bool" where
  "restored cfg p r st c \<longleftrightarrow> switches cfg \<or> settled cfg p r st c"

lemma settled_restored: "settled cfg p r st c \<Longrightarrow> restored cfg p r st c"
  by (simp add: restored_def)

lemma triple_generate:
  "triple (\<lambda>c. settled cfg p r st c \<and> t = tc_clock c) (generate_sequences cfg ev k t outc)
     (\<lambda>_. settled cfg p r st) (restored cfg p r st)"
  by (auto simp: triple_def generate_sequences_def guard_def run_loop_def switch_mode_def tick_def bnd_def upd_def
      note_event_def reading_def lift_res_def require_def restored_def settled_defs split: outcome.splits)

lemma triple_prefetch:
  "triple (settled cfg p r st) (prefetch cfg s)
     (\<lambda>s' c. settled cfg p r st c \<and> rl_reset_future s' = Some (tc_clock c)) E"
proof -
  have "triple (settled cfg p r st)
      (if b then bnd restart_simulators (\<lambda>_. lift_res (Inr s1)) else lift_res (Inr s2)) (\<lambda>_. settled cfg p r st) E"
    for b s1 s2
    by (cases b) (simp_all add: triple_bnd [OF triple_restart] triple_lift [THEN triple_pre])
  moreover have "triple (\<lambda>c. settled cfg p r st c \<and> t = tc_clock c) (lift_res (Inr (s2\<lparr>rl_reset_future := Some t\<rparr>)))
      (\<lambda>s' c. settled cfg p r st c \<and> rl_reset_future s' = Some (tc_clock c)) E" for t s2
    by (simp add: triple_def lift_res_def)
  ultimately show ?thesis
    unfolding prefetch_def Let_def by (intro triple_bnd [OF _ triple_bnd [OF triple_reset_env]])
qed

lemma collect_settled:
  assumes "collect_lerobot_datasets cfg popped s c = (x, c')" and "settled cfg p r st c"
  shows "settled cfg p r st c' \<and> tc_clock c' = tc_clock c \<and>
         (\<forall>s'. x = Inr s' \<longrightarrow> rl_reset_future s' = rl_reset_future s)"
  using assms
  by (auto simp: collect_lerobot_datasets_def bnd_def note_event_def upd_def lift_res_def settled_defs split: if_splits)

lemma settle_settled:
  assumes "settled cfg p r st c" and "rl_reset_future s = Some (tc_clock c)"
    and "settle cfg rows popped s c = ((x, s'), c')"
  shows "settled cfg p r st c' \<and> (\<forall>recs. x = Inr recs \<longrightarrow> rl_reset_future s' = Some (tc_clock c'))"
proof (cases "collect_trajectory_records (cc_auto_reset cfg) (cc_chunk_steps cfg) None (rl_carry_state s) rows")
  case (Pair ca recs)
  let ?s = "s\<lparr>rl_carry_state := ca\<rparr>"
  show ?thesis
  proof (cases "trajectory_metrics_from_records recs")
    case (Inl e)
    then show ?thesis using assms Pair by (auto simp: settle_def)
  next
    case (Inr m)
    obtain y c2 where col: "collect_lerobot_datasets cfg popped ?s c = (y, c2)" by fastforce
    note collected = collect_settled [OF col assms(1)]
    have "settle cfg rows popped s c =
        (case y of Inr s2 \<Rightarrow> ((Inr recs, s2), c2) | Inl e \<Rightarrow> ((Inl e, ?s), c2))"
      by (simp add: settle_def Pair Inr col)
    note out = this [unfolded assms(3)]
    show ?thesis
    proof (cases y)
      case (Inl e)
      with out have "x = Inl e" and "c' = c2" by simp_all
      with collected show ?thesis by simp
    next
      case (Inr s2)
      with out have "s' = s2" and "c' = c2" by simp_all
      moreover have "rl_reset_future s2 = Some (tc_clock c2)"
        using collected assms(2) Inr by simp
      ultimately show ?thesis using collected by simp
    qed
  qed
qed

lemma rollout_once_settled:
  assumes "settled cfg p r st c" and "fresh c s" and "rollout_once cfg k outc s c = ((x, s'), c')"
  shows "(\<forall>recs. x = Inr recs \<longrightarrow> settled cfg p r st c' \<and> fresh c' s') \<and> restored cfg p r st c'"
proof -
  have take: "triple (\<lambda>c. settled cfg p r st c \<and> fresh c s) (take_reset s)
      (\<lambda>t c. settled cfg p r st c \<and> t = tc_clock c) (restored cfg p r st)"
    using triple_reset_env [of cfg p r st False] by (auto simp: triple_def take_reset_def fresh_def lift_res_def
        split: option.split)
  have gen: "triple (\<lambda>c. settled cfg p r st c \<and> fresh c s)
      (bnd (take_reset s) (\<lambda>t. generate_sequences cfg False k t outc)) (\<lambda>_. settled cfg p r st) (restored cfg p r st)"
    by (rule triple_bnd [OF take triple_generate])
  show ?thesis
  proof (cases "bnd (take_reset s) (\<lambda>t. generate_sequences cfg False k t outc) c")
    case (Pair y c1)
    show ?thesis
    proof (cases y)
      case (Inl e)
      with Pair triple_InlD [OF gen, of c e c1] assms show ?thesis by (auto simp: rollout_once_def)
    next
      case (Inr z)
      with Pair triple_InrD [OF gen, of c z c1] assms(1,2) have c1: "settled cfg p r st c1" by auto
      show ?thesis
      proof (cases "prefetch cfg s c1")
        case (Pair w c2)
        with \<open>bnd _ _ c = (y, c1)\<close> Inr assms(3) c1 show ?thesis
          using triple_InrD [OF triple_prefetch c1, of s _ c2] triple_InlD [OF triple_prefetch [where E = "settled cfg p r st"] c1, of s _ c2]
          by (cases w; cases z) (auto simp: rollout_once_def fresh_def settled_restored dest: settle_settled)
      qed
    qed
  qed
qed

section \<open>The state between calls\<close>

definition pending_ok :: "cluster_config \<Rightarrow> cluster \<Rightarrow> bool" where
  "pending_ok cfg c \<longleftrightarrow>
     (case tc_pending c of
        None \<Rightarrow> fresh c (tc_state c)
      | Some (Queued s) \<Rightarrow> cc_separate cfg \<and> tc_ready c = None \<and> fresh c s
      | Some (Finished (Inr x)) \<Rightarrow> cc_separate cfg \<and> tc_ready c = None \<and> fresh c (snd x)
      | Some (Finished (Inl e)) \<Rightarrow> cc_separate cfg \<and> tc_ready c = None)"

definition good :: "cluster_config \<Rightarrow> bool \<Rightarrow> cluster \<Rightarrow> bool" where
  "good cfg sync c \<longleftrightarrow> logs_ok c \<and> mode_ok cfg c \<and> pending_ok cfg c \<and> (sync \<longrightarrow> tc_pending c = None)"

lemma good_new: "good cfg sync new_cluster"
  by (simp add: good_def new_cluster_def logs_ok_def mode_ok_def pending_ok_def fresh_def new_state_def)

lemma fresh_update [simp]: "fresh (c\<lparr>tc_log := l\<rparr>) s = fresh c s" "fresh (c\<lparr>tc_rollout_version := v\<rparr>) s = fresh c s"
  "fresh (c\<lparr>tc_actor_version := v\<rparr>) s = fresh c s" "fresh (c\<lparr>tc_rollout_mode := b\<rparr>) s = fresh c s"
  "fresh (c\<lparr>tc_active := b\<rparr>) s = fresh c s" "fresh (c\<lparr>tc_loop_active := b\<rparr>) s = fresh c s"
  "fresh (c\<lparr>tc_state := x\<rparr>) s = fresh c s" "fresh (c\<lparr>tc_pending := p\<rparr>) s = fresh c s"
  "fresh (c\<lparr>tc_ready := r\<rparr>) s = fresh c s"
  by (simp_all add: fresh_def split: option.split)

text \<open>Between the effects of a call no rollout is pending.\<close>

definition idle :: "cluster_config \<Rightarrow> trajectory_record list option \<Rightarrow> cluster \<Rightarrow> bool" where
  "idle cfg r c \<longleftrightarrow> logs_ok c \<and> mode_ok cfg c \<and> tc_pending c = None \<and> tc_ready c = r \<and> fresh c (tc_state c)"

lemma idle_good: "idle cfg r c \<Longrightarrow> good cfg sync c"
  by (simp add: idle_def good_def pending_ok_def)

lemma idle_update_weights: "triple (idle cfg r) (update_weights cfg) (\<lambda>_. idle cfg r) (\<lambda>_. True)"
  by (auto simp: triple_def update_weights_def guard_def lift_res_def bnd_def require_def reading_def note_event_def
      upd_def idle_def logs_ok_def mode_ok_def in_flight_def fresh_def split: option.splits)

lemma run_remote_good:
  assumes "good cfg False c"
  shows "good cfg False (snd (run_remote cfg outc c)) \<and>
         (tc_pending (snd (run_remote cfg outc c)) = None \<longleftrightarrow> tc_pending c = None)"
proof (cases "tc_pending c")
  case (Some q)
  show ?thesis
  proof (cases q)
    case (Queued s)
    obtain x s' c' where out: "rollout_once cfg None outc s c = ((x, s'), c')" by (metis prod.exhaust)
    have q: "cc_separate cfg" "tc_ready c = None" "fresh c s"
      using assms Some Queued by (simp_all add: good_def pending_ok_def)
    have "settled cfg (tc_pending c) None (tc_state c) c"
      using assms q by (simp add: good_def settled_def)
    from rollout_once_settled [OF this q(3) out] q(1)
    have "settled cfg (tc_pending c) None (tc_state c) c'" and "\<forall>recs. x = Inr recs \<longrightarrow> fresh c' s'"
      by (auto simp: restored_def switches_def)
    then show ?thesis
      using q(1) Some Queued out
      by (cases x) (auto simp: run_remote_def good_def pending_ok_def settled_defs)
  qed (use assms Some in \<open>simp add: run_remote_def\<close>)
qed (use assms in \<open>simp add: run_remote_def\<close>)

lemma triple_await:
  "triple (\<lambda>c. good cfg False c \<and> tc_pending c \<noteq> None) (await_pending cfg outc)
     (\<lambda>x c. logs_ok c \<and> mode_ok cfg c \<and> tc_pending c = None \<and> tc_ready c = None \<and> fresh c (snd x)) (\<lambda>_. True)"
proof (rule tripleI)
  fix c x t
  assume c: "good cfg False c \<and> tc_pending c \<noteq> None" and run: "await_pending cfg outc c = (Inr x, t)"
  let ?c = "snd (run_remote cfg outc c)"
  have g: "good cfg False ?c" "tc_pending ?c \<noteq> None" using run_remote_good [of cfg c outc] c by simp_all
  have "run_remote cfg outc c = (Inr (), ?c)"
    by (auto simp: run_remote_def split: option.splits remote.splits prod.splits)
  then have pending: "tc_pending ?c = Some (Finished (Inr x))" "t = ?c\<lparr>tc_pending := None\<rparr>"
    using run by (auto simp: await_pending_def bnd_def reading_def lift_res_def upd_def
        split: option.splits remote.splits sum.splits prod.splits)
  then show "logs_ok t \<and> mode_ok cfg t \<and> tc_pending t = None \<and> tc_ready t = None \<and> fresh t (snd x)"
    using g(1) by (auto simp: good_def pending_ok_def logs_ok_def mode_ok_def)
qed simp

section \<open>The calls\<close>

abbreviation anything :: "cluster \<Rightarrow> bool" where
  "anything \<equiv> \<lambda>_. True"

lemma good_train: "triple (good cfg sync) (train cfg) (\<lambda>_. good cfg sync) anything"
  by (auto simp: triple_def train_def reading_def bnd_def guard_def lift_res_def require_def note_event_def upd_def
      good_def logs_ok_def mode_ok_def pending_ok_def split: option.splits remote.splits sum.splits)

lemma good_load: "triple (good cfg True) (load_checkpoint cfg found) (\<lambda>_. good cfg True) anything"
  by (auto simp: triple_def load_checkpoint_def reading_def bnd_def guard_def lift_res_def require_def note_event_def
      upd_def update_weights_def in_flight_def good_def logs_ok_def mode_ok_def pending_ok_def)

lemma good_begin: "triple (good cfg True) (begin_collection cfg) (\<lambda>_. good cfg True) anything"
  by (auto simp: triple_def begin_collection_def loop_begin_collection_def switch_mode_def reading_def bnd_def
      guard_def lift_res_def require_def note_event_def upd_def update_weights_def in_flight_def good_def logs_ok_def
      mode_ok_def pending_ok_def)

lemma good_end: "triple (good cfg True) (end_collection cfg) (\<lambda>_. good cfg True) anything"
  by (auto simp: triple_def end_collection_def loop_end_collection_def switch_mode_def reading_def bnd_def
      guard_def lift_res_def require_def note_event_def upd_def good_def logs_ok_def mode_ok_def pending_ok_def)

lemma idle_settled: "idle cfg r c \<Longrightarrow> settled cfg None r (tc_state c) c"
  by (simp add: idle_def settled_def)

lemma rollout_tail_good:
  "triple (idle cfg r)
     (\<lambda>c. case rollout_once cfg k outc (tc_state c) c of ((x, st), c') \<Rightarrow> (x, c'\<lparr>tc_state := st\<rparr>))
     (\<lambda>_. good cfg True) anything"
proof (rule tripleI)
  fix c recs t
  assume c: "idle cfg r c"
    and run: "(case rollout_once cfg k outc (tc_state c) c of ((x, st), c') \<Rightarrow> (x, c'\<lparr>tc_state := st\<rparr>)) = (Inr recs, t)"
  obtain x st c' where out: "rollout_once cfg k outc (tc_state c) c = ((x, st), c')" by (metis prod.exhaust)
  have "fresh c (tc_state c)" using c by (simp add: idle_def)
  from rollout_once_settled [OF idle_settled [OF c] this out] run out
  show "good cfg True t"
    by (auto simp: good_def pending_ok_def settled_defs)
qed simp

lemma good_rollout_sync: "triple (good cfg True) (rollout_sync cfg k outc) (\<lambda>_. good cfg True) anything"
proof (unfold rollout_sync_def, rule triple_bnd [OF triple_guard], simp, rule triple_reading,
    rule triple_bnd)
  fix c
  show "triple (\<lambda>s. s = c \<and> good cfg True s \<and> cc_env_loop cfg)
          (if tc_active c then lift_res (Inr ()) else update_weights cfg) (\<lambda>_. idle cfg (tc_ready c)) anything"
    using idle_update_weights [of cfg "tc_ready c"]
    by (auto simp: triple_def lift_res_def idle_def good_def pending_ok_def)
next
  fix c
  show "triple (idle cfg (tc_ready c))
     (\<lambda>c. case rollout_once cfg k outc (tc_state c) c of ((x, st), c') \<Rightarrow> (x, c'\<lparr>tc_state := st\<rparr>))
     (\<lambda>_. good cfg True) anything"
    by (rule rollout_tail_good)
qed

lemma good_run_remote: "triple (good cfg False) (run_remote cfg outc) (\<lambda>_. good cfg False) anything"
proof (rule tripleI)
  fix c x t
  assume "good cfg False c" and "run_remote cfg outc c = (Inr x, t)"
  with run_remote_good [of cfg c outc] show "good cfg False t" by simp
qed simp

definition handed :: "cluster_config \<Rightarrow> trajectory_record list \<times> rollout_state \<Rightarrow> cluster \<Rightarrow> bool" where
  "handed cfg x c \<longleftrightarrow>
     logs_ok c \<and> mode_ok cfg c \<and> tc_pending c = None \<and> tc_ready c = None \<and> fresh c (snd x)"

lemma queue_good:
  "cc_separate cfg \<Longrightarrow>
   triple (\<lambda>c. idle cfg None c) queue_rollout (\<lambda>_ c. good cfg False c \<and> tc_pending c \<noteq> None) anything"
  by (auto simp: triple_def queue_rollout_def upd_def idle_def good_def pending_ok_def logs_ok_def mode_ok_def)

lemma obtain_rollout:
  assumes "cc_separate cfg"
  shows "triple (\<lambda>s. s = c \<and> good cfg False s)
     (case tc_ready c of
        Some records \<Rightarrow> bnd (upd (\<lambda>c. c\<lparr>tc_ready := None\<rparr>)) (\<lambda>_. lift_res (Inr (records, tc_state c)))
      | None \<Rightarrow> bnd (if tc_pending c = None then queue_rollout else lift_res (Inr ()))
                 (\<lambda>_. await_pending cfg outc))
     (handed cfg) anything"
proof (cases "tc_ready c")
  case None
  have "triple (\<lambda>s. s = c \<and> good cfg False s) (if tc_pending c = None then queue_rollout else lift_res (Inr ()))
          (\<lambda>_ c. good cfg False c \<and> tc_pending c \<noteq> None) anything"
    using queue_good [OF assms] None
    by (auto simp: triple_def lift_res_def idle_def good_def pending_ok_def)
  from triple_bnd [OF this, of "\<lambda>_. await_pending cfg outc"] triple_await [of cfg outc] show ?thesis
    by (simp add: None handed_def [abs_def])
next
  case (Some records)
  then show ?thesis
    by (auto simp: triple_def bnd_def upd_def lift_res_def handed_def good_def logs_ok_def mode_ok_def pending_ok_def
        split: option.splits remote.splits sum.splits)
qed

lemma good_rollout_async: "triple (good cfg False) (rollout_async cfg k outc) (\<lambda>_. good cfg False) anything"
proof (cases "cc_separate cfg")
  case True
  have tail: "triple (handed cfg x)
      (case x of (records, st) \<Rightarrow> bnd (upd (\<lambda>c. c\<lparr>tc_state := st\<rparr>)) (\<lambda>_.
        bnd (update_weights cfg) (\<lambda>_. bnd queue_rollout (\<lambda>_. lift_res (Inr records)))))
      (\<lambda>_. good cfg False) anything" for x
  proof -
    have set: "triple (handed cfg (records, st)) (upd (\<lambda>c. c\<lparr>tc_state := st\<rparr>)) (\<lambda>_. idle cfg None) anything"
      for records st
      by (auto simp: triple_def upd_def handed_def idle_def logs_ok_def mode_ok_def)
    have last: "triple (\<lambda>c. good cfg False c \<and> tc_pending c \<noteq> None) (lift_res (Inr records)) (\<lambda>_. good cfg False) anything"
      for records :: "trajectory_record list"
      by (simp add: triple_def lift_res_def)
    show ?thesis
      by (cases x) (simp, intro triple_bnd [OF set triple_bnd [OF idle_update_weights triple_bnd [OF queue_good [OF True] last]]])
  qed
  have body: "triple (good cfg False) (reading (\<lambda>c.
     bnd (case tc_ready c of
            Some records \<Rightarrow> bnd (upd (\<lambda>c. c\<lparr>tc_ready := None\<rparr>)) (\<lambda>_. lift_res (Inr (records, tc_state c)))
          | None \<Rightarrow> bnd (if tc_pending c = None then queue_rollout else lift_res (Inr ()))
                     (\<lambda>_. await_pending cfg outc)) (\<lambda>(records, st).
     bnd (upd (\<lambda>c. c\<lparr>tc_state := st\<rparr>)) (\<lambda>_.
     bnd (update_weights cfg) (\<lambda>_.
     bnd queue_rollout (\<lambda>_. lift_res (Inr records))))))) (\<lambda>_. good cfg False) anything"
    by (rule triple_reading, rule triple_bnd [OF obtain_rollout [OF True] tail])
  show ?thesis
    unfolding rollout_async_def
    by (intro triple_bnd [OF triple_guard] triple_pre [OF body]) simp_all
next
  case False
  then show ?thesis
    by (auto simp: triple_def rollout_async_def bnd_def guard_def lift_res_def require_def)
qed

section \<open>Evaluation\<close>

lemma triple_eval_rounds:
  "triple (settled cfg None r st) (eval_rounds cfg target targets outs ca e) (\<lambda>_. settled cfg None r st) anything"
proof (induction outs arbitrary: ca e)
  case Nil
  show ?case by (simp add: triple_def lift_res_def)
next
  case (Cons outc outs)
  have any: "restored cfg None r st c \<Longrightarrow> anything c" for c by simp
  have rest: "triple (settled cfg None r st)
      (case collect_trajectory_records (cc_auto_reset cfg) (cc_chunk_steps cfg) None ca rows of (ca', new) \<Rightarrow>
         bnd (lift_res (accept_records target targets (cc_has_cases cfg) new e))
           (\<lambda>e'. eval_rounds cfg target targets outs ca' e'))
      (\<lambda>_. settled cfg None r st) anything" for rows
  proof -
    have accept: "triple (settled cfg None r st) (lift_res x) (\<lambda>_. settled cfg None r st) anything"
      for x :: "eval_state result"
      by (auto simp: triple_def lift_res_def split: sum.splits)
    show ?thesis by (auto split: prod.split intro: triple_bnd [OF accept Cons.IH])
  qed
  have gen: "triple (\<lambda>c. settled cfg None r st c \<and> t = tc_clock c) (generate_sequences cfg True None t outc)
      (\<lambda>_. settled cfg None r st) anything" for t
    by (rule triple_post [OF triple_generate]) auto
  have round: "triple (settled cfg None r st)
     (bnd (reset_env True) (\<lambda>t. bnd (generate_sequences cfg True None t outc) (\<lambda>(rows, popped).
        (case collect_trajectory_records (cc_auto_reset cfg) (cc_chunk_steps cfg) None ca rows of (ca', new) \<Rightarrow>
           bnd (lift_res (accept_records target targets (cc_has_cases cfg) new e)) (\<lambda>e'.
             eval_rounds cfg target targets outs ca' e')))))
     (\<lambda>_. settled cfg None r st) anything"
    using rest by (intro triple_bnd [OF triple_reset_env triple_bnd [OF gen]]) (auto split: prod.split)
  show ?case
    using round by (cases "target \<le> length (es_records e)") (simp_all add: triple_def lift_res_def)
qed

lemma triple_refresh: "triple (settled cfg None r st) refresh_state (\<lambda>_. idle cfg r) anything"
  by (auto simp: triple_def refresh_state_def reset_env_def tick_def bnd_def upd_def note_event_def reading_def
      lift_res_def settled_defs idle_def fresh_def)

definition idle_ex :: "cluster_config \<Rightarrow> cluster \<Rightarrow> bool" where
  "idle_ex cfg c \<longleftrightarrow> (\<exists>r. idle cfg r c)"

lemma triple_ex: "(\<And>x. triple (P x) m Q E) \<Longrightarrow> triple (\<lambda>s. \<exists>x. P x s) m Q E"
  by (rule tripleI) (blast dest: triple_InrD triple_InlD)+

lemma keep_pending_idle:
  "triple (\<lambda>s. good cfg sync s) (keep_pending cfg outc) (\<lambda>_. idle_ex cfg) anything"
proof (unfold keep_pending_def, rule triple_reading)
  fix c
  show "triple (\<lambda>s. s = c \<and> good cfg sync s)
     (if tc_pending c = None then lift_res (Inr ())
      else bnd (await_pending cfg outc) (\<lambda>x. upd (\<lambda>c. c\<lparr>tc_ready := Some (fst x), tc_state := snd x\<rparr>)))
     (\<lambda>_. idle_ex cfg) anything"
  proof (cases "tc_pending c")
    case None
    then show ?thesis by (auto simp: triple_def lift_res_def idle_ex_def idle_def good_def pending_ok_def)
  next
    case (Some q)
    have await: "triple (\<lambda>s. s = c \<and> good cfg sync s) (await_pending cfg outc) (handed cfg) anything"
    proof (rule tripleI)
      fix s x t
      assume "s = c \<and> good cfg sync s" and run: "await_pending cfg outc s = (Inr x, t)"
      then have "good cfg False s \<and> tc_pending s \<noteq> None" by (auto simp: Some good_def)
      from triple_InrD [OF triple_await this run] show "handed cfg x t" by (simp add: handed_def)
    qed simp
    have keep: "triple (handed cfg x) (upd (\<lambda>c. c\<lparr>tc_ready := Some (fst x), tc_state := snd x\<rparr>)) (\<lambda>_. idle_ex cfg) anything"
      for x
      by (auto simp: triple_def upd_def handed_def idle_ex_def idle_def logs_ok_def mode_ok_def)
    show ?thesis using triple_bnd [OF await keep] by (simp add: Some)
  qed
qed

lemma good_eval:
  "triple (good cfg sync) (eval cfg m outc outs) (\<lambda>x c. x \<noteq> None \<longrightarrow> good cfg sync c) anything"
proof -
  let ?target = "case m of None \<Rightarrow> cc_benchmark_size cfg | Some m \<Rightarrow> m"
  let ?finish = "\<lambda>done. case done of
       None \<Rightarrow> lift_res (Inr None)
     | Some e \<Rightarrow> bnd (lift_res (trajectory_metrics_from_records (es_records e)))
                   (\<lambda>_. bnd refresh_state (\<lambda>_. lift_res (Inr (Some (es_records e)))))"
  have finish: "triple (settled cfg None r st) (?finish d) (\<lambda>x c. x \<noteq> None \<longrightarrow> good cfg sync c) anything" for r st d
  proof (cases d)
    case None
    then show ?thesis by (simp add: triple_def lift_res_def)
  next
    case (Some e)
    have metrics: "triple (settled cfg None r st) (lift_res y) (\<lambda>_. settled cfg None r st) anything"
      for y :: "'x result"
      by (auto simp: triple_def lift_res_def split: sum.splits)
    have last: "triple (idle cfg r) (lift_res (Inr y)) (\<lambda>x c. x \<noteq> None \<longrightarrow> good cfg sync c) anything"
      for y :: "trajectory_record list option"
      by (simp add: triple_def lift_res_def idle_good)
    show ?thesis
      using triple_bnd [OF metrics triple_bnd [OF triple_refresh last]] by (simp add: Some)
  qed
  have rounds: "triple (idle_ex cfg) (bnd (eval_rounds cfg target targets outs None e) ?finish)
      (\<lambda>x c. x \<noteq> None \<longrightarrow> good cfg sync c) anything" for target targets e
  proof -
    have "triple (\<lambda>s. s = c \<and> idle_ex cfg s) (bnd (eval_rounds cfg target targets outs None e) ?finish)
      (\<lambda>x c. x \<noteq> None \<longrightarrow> good cfg sync c) anything" for c
    proof -
      have "triple (settled cfg None r (tc_state c)) (bnd (eval_rounds cfg target targets outs None e) ?finish)
          (\<lambda>x c. x \<noteq> None \<longrightarrow> good cfg sync c) anything" for r
        by (rule triple_bnd [OF triple_eval_rounds finish])
      then show ?thesis by (rule triple_pre [OF triple_ex]) (auto simp: idle_ex_def dest: idle_settled)
    qed
    then show ?thesis by (auto simp: triple_def)
  qed
  have weights: "triple (idle_ex cfg) (update_weights cfg) (\<lambda>_. idle_ex cfg) anything"
    using idle_update_weights [of cfg] unfolding triple_def idle_ex_def by (fastforce split: prod.splits sum.splits)
  have body: "triple (good cfg sync)
     (bnd (keep_pending cfg outc) (\<lambda>_. bnd (update_weights cfg) (\<lambda>_.
        bnd (guard (cc_benchmark_size cfg \<noteq> 0) ZeroDivisionError) (\<lambda>_.
          bnd (eval_rounds cfg ?target (target_counts (cc_benchmark_size cfg) ?target) outs None
              \<lparr>es_records = [], es_accepted = replicate (cc_benchmark_size cfg) 0\<rparr>) ?finish))))
     (\<lambda>x c. x \<noteq> None \<longrightarrow> good cfg sync c) anything"
    by (intro triple_bnd [OF keep_pending_idle triple_bnd [OF weights triple_bnd [OF triple_guard]]]
        triple_pre [OF rounds]) simp_all
  show ?thesis
    unfolding eval_def Let_def
    by (rule triple_reading) (intro triple_bnd [OF triple_guard] triple_pre [OF body]; simp)
qed

lemma strict_runs_good:
  assumes "runs cfg allowed True c" and "allowed = sync_op \<and> sync \<or> allowed = async_op \<and> \<not> sync"
  shows "good cfg sync c"
proof (rule runs_keep [OF assms(1), of "good cfg sync"])
  show "good cfg sync new_cluster" by (rule good_new)
next
  fix p
  assume "allowed p"
  with assms(2) show "op_triple cfg (good cfg sync) (if True then \<lambda>_. True else good cfg sync) p"
    by (cases p) (auto simp: op_triple_def sync_op_def async_op_def good_train good_load good_begin good_end
        good_rollout_sync good_rollout_async good_run_remote good_eval [simplified])
qed

text \<open>
  C37. In a run that consists of synchronous calls only (synchronous rollouts, training, collection
  windows, loading, evaluation) or of asynchronous ones only (asynchronous rollouts, their remote execution, training,
  evaluation), and in which no call has raised so far: every rollout and evaluation starts from the reset the simulators
  are in (nothing was done to them since), weights are never exchanged while an asynchronous
  rollout is queued, the actor is never trained in rollout mode, and it is in rollout mode exactly
  inside a collection window.
\<close>

theorem rollouts_start_from_the_current_reset:
  assumes "runs cfg allowed True c" and "allowed = sync_op \<or> allowed = async_op"
  shows "(\<forall>g. Generate g \<in> set (tc_log c) \<longrightarrow> ge_reset g = ge_clock g) \<and>
         Weights_Synced True \<notin> set (tc_log c) \<and> Actor_Updated True \<notin> set (tc_log c) \<and>
         (tc_rollout_mode c \<longleftrightarrow> tc_active c \<and> switches cfg)"
proof -
  obtain sync where "good cfg sync c"
    using strict_runs_good [OF assms(1), of True] strict_runs_good [OF assms(1), of False] assms(2) by blast
  then show ?thesis by (auto simp: good_def logs_ok_def mode_ok_def)
qed

section \<open>A concrete asynchronous run\<close>

definition sample_async_calls :: "op list" where
  "sample_async_calls = [Rollout_Async None sample_rows, Train, Remote_Run sample_rows, Eval (Some 1) sample_rows [sample_rows],
                         Rollout_Async None sample_rows, Remote_Run sample_rows]"

lemma sample_async_log:
  "map_option (length \<circ> filter is_generation \<circ> tc_log)
     (run_calls (sample_cluster_config True) True sample_async_calls new_cluster) = Some 4"
  by code_simp

theorem rollouts_start_from_the_current_reset_witness:
  "\<exists>c. runs (sample_cluster_config True) async_op True c \<and>
       length (filter is_generation (tc_log c)) = 4 \<and>
       (\<forall>g. Generate g \<in> set (tc_log c) \<longrightarrow> ge_reset g = ge_clock g) \<and> Weights_Synced True \<notin> set (tc_log c)"
proof -
  obtain c where c: "run_calls (sample_cluster_config True) True sample_async_calls new_cluster = Some c"
    using sample_async_log by fastforce
  have run: "runs (sample_cluster_config True) async_op True c"
    by (rule run_calls_runs [OF runs.start _ c]) (simp add: sample_async_calls_def async_op_def)
  show ?thesis
    using run rollouts_start_from_the_current_reset [OF run] sample_async_log c
    by (intro exI [of _ c]) simp
qed

section \<open>Mixed calls\<close>

text \<open>
  Only \<open>begin_collection\<close> and \<open>eval\<close> look at the pending rollout. Loading a checkpoint, or a synchronous
  rollout, after an asynchronous one raises nothing, but exchanges the weights under the queued
  rollout; and after the synchronous rollout the queued one starts from a reset that is no longer the simulators'.
\<close>

definition mixed_log :: "op list \<Rightarrow> cluster_event list option" where
  "mixed_log calls = map_option tc_log (run_calls (sample_cluster_config True) True calls new_cluster)"

lemma mixed_calls_touch_the_queued_rollout:
  "map_option (\<lambda>l. Weights_Synced True \<in> set l) (mixed_log [Rollout_Async None sample_rows, Load True]) = Some True"
  "map_option (\<lambda>l. Weights_Synced True \<in> set l)
     (mixed_log [Rollout_Async None sample_rows, Rollout_Sync None sample_rows]) = Some True"
  "map_option (list_ex (\<lambda>e. case e of Generate g \<Rightarrow> ge_reset g \<noteq> ge_clock g | _ \<Rightarrow> False))
     (mixed_log [Rollout_Async None sample_rows, Rollout_Sync None sample_rows, Remote_Run sample_rows]) = Some True"
  by code_simp+

end
