(* ===== verification/Spec2Isabelle.thy ===== *)
theory Spec2Isabelle
  imports Fpo_Update_Properties Fpo_Properties Fpo_Batch Collection_Properties Collection_Schedule Action_Executor_Properties Base_Env_Step Replay_Properties Rollout_Batch_Properties Trajectory_Properties Robodojo_Fleet Native_Eval_Sharding Grfpo_Samples Spooled_Trainer_Properties Trajectory_Record_Properties Train_Cluster_Safety
begin

text \<open>
  verl-vla: reinforcement learning of vision-language-action policies in vectorised simulators.
  This development models the parts of the program that decide what is trained on: which cases
  the simulators play, how policy and simulators exchange chunks, how rollouts become
  transitions, advantages and losses, and how groups of trajectories are collected durably by
  processes that come and go. All paths below are under src/verl_vla/.

  How the parts work together. A \<open>TrainCluster\<close> (train_cluster/cluster.py) owns the policy
  workers and the environment workers. It asks the simulators for a reset ahead of time, hands
  the reset to the \<open>EnvLoop\<close> (train_cluster/env_loop.py), which lets policy and simulators take
  turns for every pipeline stage, and returns the batch of trajectories to a trainer
  (trainer/fpo, trainer/grfpo, trainer/sac). Every environment worker (workers/env) keeps one
  simulator per stage in a child process, behind a manager that can replace a hung child; the
  simulator is a vector environment (envs/base.py) over a backend such as RoboDojo
  (envs/robodojo), executing action chunks (envs/action_executor.py), possibly with an operator
  taking over (teleop) and a recorder listening. GRFPO trains on groups of trajectories of one
  condition; collectors produce the groups and commit them to a window on disk
  (trainer/grfpo/collection_store.py) from which the update loads exactly one agreed selection.

  Theories, in the order in which they build on each other.

  \<^item> Prelude, Stateful: Python's exceptions, floats with infinities and NaN, JSON, decimal text,
    dictionaries as association lists; computations that thread a state, their invariants
    (\<open>keeps\<close>) and triples; the locales \<open>transition_system\<close> and its extensions by which every
    invariant and safety property of a step relation is proved.
  \<^item> Tensors, Float_Ops: batches as shape and rows, and the torch and numpy operations used.
  \<^item> Group_Validation (trainer/grfpo/group_validation.py): the checks of a candidate group.
  \<^item> Collection_Store, Collection_Schedule, Collection_Invariants, Collection_Properties
    (trainer/grfpo/collection_store.py): the window directory as a record of files, one function
    per locked operation, the step relation of any number of collectors and one trainer;
    invariants of all interleavings, fencing of lost leases, the refinement of an abstract
    ledger, the readiness rules and the schedule of conditions.
  \<^item> Rollout_Batch and Rollout_Batch_Properties (trainer/grfpo/rollout_batch.py): compaction and
    padding. Trajectories and Trajectory_Properties (utils/data.py, trainer/sac/episode_buffer.py):
    masks, transition fields, progress counts, the episode buffer. Replay_Pool, Replay_Invariants,
    Replay_Properties (utils/replay_pool.py): rings that refine bounded queues (locale
    \<open>bounded_fifo\<close>), allocation, sampling, saving and loading.
  \<^item> Fpo_Transitions, Fpo_Batch, Fpo_Worker, Fpo_Update, Fpo_Properties, Fpo_Update_Properties
    (prepare_fpo_actor_input of both trainers, workers/engine/fpo/training_worker.py): from a
    rollout to typed columns, advantages over executed prefixes (with a critic, as FPO runs them),
    clipped losses, reductions over ranks and the control flow of an update. Grpo_Advantage and Grpo_Advantage_Properties
    (apply_grpo_outcome_advantages): group advantages and hierarchical loss weights.
  \<^item> Action_Executor, Base_Env and their property theories (envs/action_executor.py, envs/base.py,
    teleop/teleop_controller.py): chunk execution with a serial executor or with a control thread
    (a step relation), operator overrides, recording, resets and replays.
  \<^item> Robodojo_Cases, Robodojo_Case_Properties, Robodojo_Env (envs/robodojo): configuration checks, the
    deterministic case schedule of each process and its cursors, reset, step and deferred
    observations of the simulator.
  \<^item> Env_Manager, Env_Manager_Properties (workers/env/env_manager.py): the command and reply
    protocol between parent and child; what a wait meets (an answer in time, a late answer, a dead
    child) is an argument. The locale \<open>resumable_env\<close> states what a simulator must promise so
    that replacing its process is invisible; Robodojo_Recovery interprets it for RoboDojo.
  \<^item> Env_Worker (workers/env/env_worker.py), Env_Loop, Env_Loop_Properties, Env_Loop_Routing
    (train_cluster/env_loop.py): resets of all stages, the pipelined loop as coroutines resumed in
    any order over simulators and a policy that keep states, the failures of the stages in the order in
    which they happen (the first is the loop's), collation. That the order of the stages does not matter
    holds for simulators of their own and a policy without memory of its requests; a policy that counts its calls
    sees it (\<open>policy_with_memory_sees_the_order\<close>). Robodojo_Fleet composes workers, managers, schedule and loop.
  \<^item> Trajectory_Records, Trajectory_Record_Properties, Train_Cluster, Train_Cluster_Properties,
    Train_Cluster_Safety (train_cluster/cluster.py): episode records across rollouts, the fixed-case
    evaluation loop, weight versions, actor modes, reset futures and asynchronous rollouts.
  \<^item> Spooled_Trainer, Spooled_Trainer_Properties (train_cluster/checkpoint.py,
    trainer/grfpo/spooled_trainer.py): the one update of a closed window as a sequence of durable
    writes that may be cut short anywhere, the checkpoints it resumes from and leaves, its receipt.
  \<^item> Grfpo_Sampling, Grfpo_Trainer (trainer/grfpo/grfpo_ray_trainer.py): batch sizes, tasks and
    candidate groups; evidence, spool and resume state on disk, the collection of a window, and the
    training loop of a process that may be killed at any of its durable writes.
    Grfpo_Trainer_Properties, Grfpo_Preemption and Grfpo_Restart follow processes one after the other on
    one disk: what a successor finds, resumes and refuses. Grfpo_Schedule compares the trainer's plan
    with the tasks and cases of the simulators; Grfpo_Samples executes a small job.
  \<^item> Shared_Policy, Native_Eval and their property theories, Native_Eval_Sharding
    (workflows/native_fastwam_robodojo_eval.py, the sampling of models/fastwam/trainable_model.py): one
    policy for several simulators, its seeds and microbatches, and the evaluation of fixed cases in one process or
    in simulator processes, each a tree of requests that the parent answers in any order.
  What the groups of lemmas show is said at the head of each theory; the properties of the program
  are the theorems whose comment starts with \<open>C1.\<close> to \<open>C40.\<close>.

  Bounds and fuel. Loops over finite data recurse on the data. The loop of an evaluation that waits
  for enough accepted cases (\<open>eval_episodes\<close>) has the number of rounds as fuel, and a property shows how
  many rounds are enough; the teleoperation loop recurses on the list of the controllers' answers,
  after which the operator has let go; an interleaving of the pipeline stages is a list of stage ids, and every
  list that names each stage twice per interaction is enough; restarts of a simulator are bounded by the
  configured number. The training loop of GRFPO repeats a window that brings too few informative groups, without
  a bound; its fuel is the number of windows, running out of it is an outcome of its own, and the
  properties hold for every amount. Nothing else needs fuel.

  Parameters and conventions. Library code that the sources call is an argument of the definitions: verl's
  group normalisation, torch's standard deviation and exponential, the hash behind seeds, policies,
  simulator backends, devices, outcomes of workers, clocks and random tokens. Python integers are
  \<open>int\<close> or \<open>nat\<close>; floats are exact rationals with IEEE special values, so rounding is not modelled.
  Broadcasting of axes of size one is not modelled (differing shapes raise). Weights are version
  numbers in the cluster, and exchanging weights or loading a checkpoint fails only by the checks in this
  repository: what the libraries below them raise ends the trainer's process. \<open>np.empty\<close> and undefined buffer
  contents are arbitrary values. Returns carried from rollout to rollout are exact, where the source keeps them in
  float32. Calls on recorders return; waiting on a condition is being enabled (heads of Base_Env and Action_Executor).

  Where the code keeps a promise only under conditions, the property states them and a lemma shows the
  case outside: a partial reset of a vector environment clears all done flags
  (\<open>partial_reset_steps_finished\<close>; the repository resets parts only with one environment); a
  synchronous call after an asynchronous rollout exchanges weights under it
  (\<open>mixed_calls_touch_the_queued_rollout\<close>); simulator processes that share a seed see the order of their
  requests in the mode \<open>per_policy_call\<close> (\<open>shared_seed_sees_the_order\<close>); a checkpoint found by
  resume_mode=auto blocks its window (\<open>auto_resume_blocks_the_window\<close>); a replay pool without rows
  loses its placeholder in a round trip (C27).

  Not modelled, and why: neural networks, optimizers, sharding and checkpoint formats (behaviour of
  torch and of weights); simulator and robot integrations other than RoboDojo, teleoperation devices
  and servers, dataset and video writers (conversions and I/O of external libraries); the outer loops of the
  other trainers, configuration classes, entry points and scripts (they select, connect and log). Within the
  modelled files: timings, profiling, metrics that are only logged, memory statistics, device placement.
\<close>

end
